(* ===== verification/Vernier_Prelude.thy ===== *)
theory Vernier_Prelude
  imports Complex_Main "HOL-Library.Word"
begin

text \<open>
  Shared vocabulary of the development: the identifiers of the Go packages as
  strings, wall-clock instants, results and error values, the parts of Go's
  \<open>math/big\<close>, \<open>time\<close> and \<open>strings\<close> packages that the sources use, and the
  generic lemmas on lists, options, maps and sums that the component theories rely on.
\<close>

section \<open>Identifiers, time and results\<close>

text \<open>
  Every identifier type of \<open>domain/market/ids.go\<close> and \<open>domain/execution/types.go\<close>
  is a named Go string. A Go string is a sequence of bytes, which is what a HOL
  \<open>string\<close> is. The empty string is the zero value the validations reject.
\<close>

type_synonym ChainID = string
type_synonym AssetID = string
type_synonym TokenID = string
type_synonym VenueID = string
type_synonym PoolID = string
type_synonym PathID = string
type_synonym PairID = string
type_synonym MarketID = string
type_synonym SourceID = string
type_synonym AccountID = string
type_synonym OperationID = string
type_synonym StepID = string
type_synonym PlanID = string

text \<open>
  An instant is the number of nanoseconds since Go's zero time, so that
  \<open>time.Time.IsZero\<close> is equality with 0 and \<open>UTC\<close>, which only changes
  the location used for printing, is the identity.
\<close>

type_synonym gotime = int
type_synonym duration = int

text \<open>Go's pair of a value and an error: \<open>Inl\<close> is a non-nil error.\<close>

type_synonym ('e, 'a) result = "'e + 'a"

definition IsZeroTime :: "gotime \<Rightarrow> bool" where
  "IsZeroTime t \<longleftrightarrow> t = 0"

text \<open>\<open>time.Time.Sub\<close> saturates at the bounds of the 64-bit \<open>time.Duration\<close>.\<close>

definition TimeSub :: "gotime \<Rightarrow> gotime \<Rightarrow> duration" where
  "TimeSub t u = max (- (2 ^ 63)) (min (2 ^ 63 - 1) (t - u))"

definition rbind :: "('e, 'a) result \<Rightarrow> ('a \<Rightarrow> ('e, 'b) result) \<Rightarrow> ('e, 'b) result" where
  "rbind m f = (case m of Inl e \<Rightarrow> Inl e | Inr a \<Rightarrow> f a)"

text \<open>A Go \<open>error\<close> result alone is an option: \<open>None\<close> is nil.\<close>

definition check :: "'e option \<Rightarrow> ('e, 'a) result \<Rightarrow> ('e, 'a) result" where
  "check err k = (case err of Some e \<Rightarrow> Inl e | None \<Rightarrow> k)"

definition is_ok :: "('e, 'a) result \<Rightarrow> bool" where
  "is_ok m = (case m of Inl _ \<Rightarrow> False | Inr _ \<Rightarrow> True)"

definition map_err :: "('e \<Rightarrow> 'f) \<Rightarrow> ('e, 'a) result \<Rightarrow> ('f, 'a) result" where
  "map_err f m = (case m of Inl e \<Rightarrow> Inl (f e) | Inr a \<Rightarrow> Inr a)"

text \<open>A validation loop: the first element with an error ends it.\<close>

fun first_error :: "('a \<Rightarrow> 'e option) \<Rightarrow> 'a list \<Rightarrow> 'e option" where
  "first_error f [] = None"
| "first_error f (x # xs) = (case f x of Some e \<Rightarrow> Some e | None \<Rightarrow> first_error f xs)"

text \<open>A loop that threads a state and stops at the first error.\<close>

fun foldM :: "('s \<Rightarrow> 'a \<Rightarrow> ('e, 's) result) \<Rightarrow> 's \<Rightarrow> 'a list \<Rightarrow> ('e, 's) result" where
  "foldM f s [] = Inr s"
| "foldM f s (x # xs) = (case f s x of Inl e \<Rightarrow> Inl e | Inr s' \<Rightarrow> foldM f s' xs)"

section \<open>Arbitrary-precision integers\<close>

text \<open>\<open>big.Int.Quo\<close> and \<open>big.Int.Rem\<close> truncate towards zero.\<close>

definition bigQuo :: "int \<Rightarrow> int \<Rightarrow> int" where
  "bigQuo x y = sgn x * sgn y * (\<bar>x\<bar> div \<bar>y\<bar>)"

definition bigRem :: "int \<Rightarrow> int \<Rightarrow> int" where
  "bigRem x y = x - y * bigQuo x y"

text \<open>
  \<open>strings.TrimSpace(s) == ""\<close> and \<open>strings.Contains\<close>. Only ASCII white space is
  recognised here; the multi-byte spaces of Unicode are not.
\<close>

definition blank :: "string \<Rightarrow> bool" where
  "blank s \<longleftrightarrow> list_all (\<lambda>c. c \<in> {CHR 0x09, CHR 0x0A, CHR 0x0B, CHR 0x0C, CHR 0x0D, CHR '' ''}) s"

definition contains :: "string \<Rightarrow> string \<Rightarrow> bool" where
  "contains s sub \<longleftrightarrow> list_ex (\<lambda>n. take (length sub) (drop n s) = sub) [0..<Suc (length s)]"

lemma blank_Nil [simp]: "blank []"
  by (simp add: blank_def)

text \<open>The sum of a list of amounts, the accumulator loops of the sources.\<close>

definition sum_by :: "('a \<Rightarrow> int) \<Rightarrow> 'a list \<Rightarrow> int" where
  "sum_by f xs = sum_list (map f xs)"

text \<open>Decimal text of \<open>big.Int.String\<close> and its inverse, \<open>big.Int.SetString\<close> in base 10.\<close>

definition digit_char :: "nat \<Rightarrow> char" where
  "digit_char d = char_of (48 + d)"

definition char_digit :: "char \<Rightarrow> nat option" where
  "char_digit c = (let n = (of_char c :: nat) in if 48 \<le> n \<and> n \<le> 57 then Some (n - 48) else None)"

fun nat_digits :: "nat \<Rightarrow> string" where
  "nat_digits n = (if n < 10 then [digit_char n] else nat_digits (n div 10) @ [digit_char (n mod 10)])"

declare nat_digits.simps [simp del]

definition int_string :: "int \<Rightarrow> string" where
  "int_string i = (if i < 0 then CHR ''-'' # nat_digits (nat (- i)) else nat_digits (nat i))"

fun parse_digits :: "nat \<Rightarrow> string \<Rightarrow> nat option" where
  "parse_digits acc [] = Some acc"
| "parse_digits acc (c # cs) =
     (case char_digit c of None \<Rightarrow> None | Some d \<Rightarrow> parse_digits (10 * acc + d) cs)"

definition parse_nat :: "string \<Rightarrow> nat option" where
  "parse_nat s = (if s = [] then None else parse_digits 0 s)"

definition parse_int :: "string \<Rightarrow> int option" where
  "parse_int s =
     (case s of
        [] \<Rightarrow> None
      | c # cs \<Rightarrow>
          if c = CHR ''-'' then map_option (\<lambda>n. - int n) (parse_nat cs)
          else if c = CHR ''+'' then map_option int (parse_nat cs)
          else map_option int (parse_nat s))"

text \<open>\<open>strings.Join\<close>.\<close>

fun join_strings :: "string \<Rightarrow> string list \<Rightarrow> string" where
  "join_strings sep [] = []"
| "join_strings sep [x] = x"
| "join_strings sep (x # y # ys) = x @ sep @ join_strings sep (y # ys)"

section \<open>Automation shared by the components\<close>

named_theorems result_simps \<open>evaluation of results, checks and validation loops\<close>
named_theorems big_simps \<open>facts on truncating integer division\<close>

lemma rbind_simps [simp]: "rbind (Inl e) f = Inl e" "rbind (Inr a) f = f a"
  by (simp_all add: rbind_def)

lemma check_simps [simp]: "check (Some e) k = Inl e" "check None k = k"
  by (simp_all add: check_def)

lemma is_ok_simps [simp]: "is_ok (Inl e) = False" "is_ok (Inr a) = True"
  by (simp_all add: is_ok_def)

lemma map_err_simps [simp]: "map_err f (Inl e) = Inl (f e)" "map_err f (Inr a) = Inr a"
  by (simp_all add: map_err_def)

lemma rbind_eq_Inr [result_simps]:
  "rbind m f = Inr b \<longleftrightarrow> (\<exists>a. m = Inr a \<and> f a = Inr b)"
  by (cases m) auto

lemma check_eq_Inr [result_simps]: "check err k = Inr a \<longleftrightarrow> err = None \<and> k = Inr a"
  by (cases err) auto

lemma map_err_eq_Inr [result_simps]: "map_err f m = Inr a \<longleftrightarrow> m = Inr a"
  by (cases m) auto

lemma first_error_None [result_simps]:
  "first_error f xs = None \<longleftrightarrow> (\<forall>x \<in> set xs. f x = None)"
  by (induction xs) (auto split: option.splits)

lemma first_error_Some:
  "first_error f xs = Some e \<Longrightarrow> \<exists>x \<in> set xs. f x = Some e"
  by (induction xs) (auto split: option.splits)

lemma foldM_append:
  "foldM f s (xs @ ys) = rbind (foldM f s xs) (\<lambda>s'. foldM f s' ys)"
  by (induction xs arbitrary: s) (auto split: sum.splits)

lemma foldM_invariant:
  assumes "foldM f s xs = Inr s'" and "P s"
    and "\<And>s x t. P s \<Longrightarrow> x \<in> set xs \<Longrightarrow> f s x = Inr t \<Longrightarrow> P t"
  shows "P s'"
  using assms
proof (induction xs arbitrary: s)
  case Nil
  then show ?case by simp
next
  case (Cons x xs)
  from Cons.prems(1) obtain t where t: "f s x = Inr t" and rest: "foldM f t xs = Inr s'"
    by (auto split: sum.splits)
  have "P t" by (rule Cons.prems(3) [OF Cons.prems(2) _ t]) simp
  then show ?case by (rule Cons.IH [OF rest]) (rule Cons.prems(3), auto)
qed

lemma sum_by_simps [simp]:
  "sum_by f [] = 0" "sum_by f (x # xs) = f x + sum_by f xs"
  "sum_by f (xs @ ys) = sum_by f xs + sum_by f ys"
  by (simp_all add: sum_by_def)

lemma sum_by_nonneg: "(\<And>x. x \<in> set xs \<Longrightarrow> 0 \<le> f x) \<Longrightarrow> 0 \<le> sum_by f xs"
  by (induction xs) auto

lemma sum_by_mono: "(\<And>x. x \<in> set xs \<Longrightarrow> f x \<le> g x) \<Longrightarrow> sum_by f xs \<le> sum_by g xs"
  by (induction xs) (auto intro: add_mono)

lemma sum_by_member_le:
  "x \<in> set xs \<Longrightarrow> (\<And>y. y \<in> set xs \<Longrightarrow> 0 \<le> f y) \<Longrightarrow> f x \<le> sum_by f xs"
proof (induction xs)
  case Nil
  then show ?case by simp
next
  case (Cons y ys)
  have "0 \<le> sum_by f ys" using Cons.prems by (intro sum_by_nonneg) simp
  moreover have "x \<in> set ys \<Longrightarrow> f x \<le> sum_by f ys" using Cons.IH Cons.prems by simp
  moreover have "0 \<le> f y" using Cons.prems by simp
  ultimately show ?case using Cons.prems(1) by auto
qed

lemma bigQuo_nonneg [big_simps]: "0 \<le> x \<Longrightarrow> 0 \<le> y \<Longrightarrow> bigQuo x y = x div y"
  by (cases "x = 0"; cases "y = 0") (auto simp: bigQuo_def)

lemma bigQuo_bounds:
  assumes "0 \<le> x" and "0 < y"
  shows "bigQuo x y * y \<le> x" and "x < (bigQuo x y + 1) * y" and "0 \<le> bigQuo x y"
proof -
  have q: "bigQuo x y = x div y" using assms by (simp add: bigQuo_nonneg)
  have split: "x = x div y * y + x mod y" by simp
  have m: "0 \<le> x mod y" "x mod y < y" using assms by auto
  show "bigQuo x y * y \<le> x" unfolding q using split m by linarith
  have "x < x div y * y + y" using split m by linarith
  then show "x < (bigQuo x y + 1) * y" by (simp add: q distrib_right)
  show "0 \<le> bigQuo x y" unfolding q using assms by (simp add: pos_imp_zdiv_nonneg_iff)
qed

lemma bigQuo_ge_iff:
  assumes "0 \<le> x" and "0 < y"
  shows "t \<le> bigQuo x y \<longleftrightarrow> t * y \<le> x"
proof
  assume "t \<le> bigQuo x y"
  then have "t * y \<le> bigQuo x y * y" using assms(2) by (simp add: mult_right_mono)
  then show "t * y \<le> x" using bigQuo_bounds(1) [OF assms] by linarith
next
  assume "t * y \<le> x"
  then have "t * y < (bigQuo x y + 1) * y" using bigQuo_bounds(2) [OF assms] by linarith
  then have "t < bigQuo x y + 1" using assms(2) by (simp add: mult_less_cancel_right)
  then show "t \<le> bigQuo x y" by simp
qed

subsection \<open>Decimal text\<close>

lemma char_digit_digit_char: "d < 10 \<Longrightarrow> char_digit (digit_char d) = Some d"
  by (simp add: char_digit_def digit_char_def)

lemma parse_digits_append:
  "parse_digits a (xs @ ys) = Option.bind (parse_digits a xs) (\<lambda>b. parse_digits b ys)"
  by (induction xs arbitrary: a) (auto split: option.splits)

lemma parse_digits_nat_digits: "parse_digits 0 (nat_digits n) = Some n"
proof (induction n rule: nat_digits.induct)
  case (1 n)
  show ?case
  proof (cases "n < 10")
    case True
    then show ?thesis by (simp add: nat_digits.simps [of n] char_digit_digit_char)
  next
    case False
    then have "parse_digits 0 (nat_digits (n div 10)) = Some (n div 10)" using 1 by simp
    then show ?thesis using False
      by (simp add: nat_digits.simps [of n] parse_digits_append char_digit_digit_char)
  qed
qed

lemma nat_digits_Cons: "\<exists>c cs. nat_digits n = c # cs \<and> char_digit c \<noteq> None"
proof (induction n rule: nat_digits.induct)
  case (1 n)
  show ?case
  proof (cases "n < 10")
    case True
    then show ?thesis by (simp add: nat_digits.simps [of n] char_digit_digit_char)
  next
    case False
    then have "\<exists>c cs. nat_digits (n div 10) = c # cs \<and> char_digit c \<noteq> None" using 1 by simp
    then show ?thesis using False by (auto simp: nat_digits.simps [of n])
  qed
qed

lemma parse_nat_nat_digits: "parse_nat (nat_digits n) = Some n"
  using nat_digits_Cons [of n] by (auto simp: parse_nat_def parse_digits_nat_digits)

lemma sign_not_digit: "char_digit CHR ''-'' = None" "char_digit CHR ''+'' = None"
  by (simp_all add: char_digit_def)

lemma parse_int_nat_digits: "parse_int (nat_digits n) = Some (int n)"
proof -
  obtain c cs where c: "nat_digits n = c # cs" "char_digit c \<noteq> None"
    using nat_digits_Cons by blast
  then have "c \<noteq> CHR ''-''" "c \<noteq> CHR ''+''" using sign_not_digit by metis+
  moreover have "parse_nat (c # cs) = Some n" using parse_nat_nat_digits [of n] c by simp
  ultimately show ?thesis using c by (simp add: parse_int_def)
qed

lemma parse_int_int_string: "parse_int (int_string i) = Some i"
proof (cases "i < 0")
  case True
  then show ?thesis by (simp add: int_string_def parse_int_def parse_nat_nat_digits)
next
  case False
  then show ?thesis by (simp add: int_string_def parse_int_nat_digits)
qed

lemma int_string_inject: "int_string i = int_string j \<longleftrightarrow> i = j"
  by (metis option.inject parse_int_int_string)

subsection \<open>Sums over the entries of a finite map\<close>

lemma sum_map_insert:
  fixes g :: "'b \<Rightarrow> int"
  assumes "finite (dom m)" and "m x = None"
  shows "(\<Sum>y \<in> dom (m(x \<mapsto> r)). g (the ((m(x \<mapsto> r)) y))) = (\<Sum>y \<in> dom m. g (the (m y))) + g r"
proof -
  have x: "x \<notin> dom m" using assms(2) by auto
  have "(\<Sum>y \<in> dom m. g (the ((m(x \<mapsto> r)) y))) = (\<Sum>y \<in> dom m. g (the (m y)))"
    using x by (intro sum.cong) auto
  then show ?thesis using assms(1) x by (simp add: sum.insert)
qed

lemma sum_map_delete:
  fixes g :: "'b \<Rightarrow> int"
  assumes "finite (dom m)" and "m x = Some r"
  shows "(\<Sum>y \<in> dom (m(x := None)). g (the ((m(x := None)) y))) = (\<Sum>y \<in> dom m. g (the (m y))) - g r"
proof -
  let ?n = "m(x := None)"
  have m: "m = ?n(x \<mapsto> r)" using assms(2) by (auto simp: fun_eq_iff)
  have "(\<Sum>y \<in> dom (?n(x \<mapsto> r)). g (the ((?n(x \<mapsto> r)) y))) = (\<Sum>y \<in> dom ?n. g (the (?n y))) + g r"
    using assms(1) sum_map_insert [where m = ?n and x = x] by (simp add: dom_fun_upd del: fun_upd_upd)
  then show ?thesis by (simp only: m [symmetric])
qed

lemma sum_map_replace:
  fixes g :: "'b \<Rightarrow> int"
  assumes "finite (dom m)" and "m x = Some q"
  shows "(\<Sum>y \<in> dom (m(x \<mapsto> r)). g (the ((m(x \<mapsto> r)) y))) = (\<Sum>y \<in> dom m. g (the (m y))) - g q + g r"
proof -
  let ?n = "m(x := None)"
  have "m(x \<mapsto> r) = ?n(x \<mapsto> r)" by simp
  moreover have "(\<Sum>y \<in> dom (?n(x \<mapsto> r)). g (the ((?n(x \<mapsto> r)) y))) = (\<Sum>y \<in> dom ?n. g (the (?n y))) + g r"
    using assms(1) sum_map_insert [where m = ?n and x = x] by (simp add: dom_fun_upd del: fun_upd_upd)
  ultimately show ?thesis using sum_map_delete [OF assms, of g] by simp
qed

subsection \<open>Joined text\<close>

lemma split_at_separator:
  assumes "c \<notin> set x" and "c \<notin> set y" and "x @ c # r = y @ c # s"
  shows "x = y \<and> r = s"
  using assms
proof (induction x arbitrary: y)
  case Nil
  then show ?case by (cases y) auto
next
  case (Cons a x)
  then obtain b y' where y: "y = b # y'" by (cases y) auto
  with Cons.prems have "x @ c # r = y' @ c # s" by simp
  with Cons.IH [of y'] Cons.prems y show ?case by simp
qed

lemma join_strings_inject:
  assumes "join_strings [c] xs = join_strings [c] ys" and "xs \<noteq> []" and "ys \<noteq> []"
    and "\<forall>x \<in> set xs. c \<notin> set x" and "\<forall>y \<in> set ys. c \<notin> set y"
  shows "xs = ys"
  using assms
proof (induction xs arbitrary: ys)
  case Nil
  then show ?case by blast
next
  case (Cons x xs)
  obtain y zs where y: "ys = y # zs" using Cons.prems(3) by (cases ys) blast+
  have nx: "c \<notin> set x" and ny: "c \<notin> set y" using Cons.prems(4,5) y by simp_all
  show ?case
  proof (cases xs)
    case Nil
    show ?thesis
    proof (cases zs)
      case (Cons z zs')
      then have "c \<in> set (join_strings [c] ys)" by (simp add: y)
      then have "c \<in> set x" using Cons.prems(1) Nil by simp
      then show ?thesis using nx by simp
    qed (use Cons.prems(1) Nil y in simp)
  next
    case x: (Cons x' xs')
    show ?thesis
    proof (cases zs)
      case Nil
      have "c \<in> set (join_strings [c] (x # xs))" by (simp add: x)
      then have "c \<in> set y" using Cons.prems(1) Nil y by simp
      then show ?thesis using ny by simp
    next
      case z: (Cons z zs')
      have "x @ c # join_strings [c] xs = y @ c # join_strings [c] zs"
        using Cons.prems(1) by (simp add: y x z)
      from split_at_separator [OF nx ny this] have eq: "x = y" "join_strings [c] xs = join_strings [c] zs"
        by simp_all
      have "xs = zs" by (rule Cons.IH [OF eq(2)]) (use Cons.prems(4,5) x y z in simp_all)
      then show ?thesis using eq(1) y by simp
    qed
  qed
qed

lemma nat_digits_chars: "c \<in> set (nat_digits n) \<Longrightarrow> char_digit c \<noteq> None"
proof (induction n rule: nat_digits.induct)
  case (1 n)
  then show ?case
    by (cases "n < 10") (auto simp: nat_digits.simps [of n] char_digit_digit_char)
qed

lemma int_string_chars: "c \<in> set (int_string i) \<Longrightarrow> char_digit c \<noteq> None \<or> c = CHR ''-''"
  by (auto simp: int_string_def dest: nat_digits_chars split: if_splits)

lemma int_string_no_separator: "CHR ''/'' \<notin> set (int_string i)" "CHR ''|'' \<notin> set (int_string i)"
  by (auto dest!: int_string_chars simp: char_digit_def)

end
