(* ===== verification/Market_Amount.thy ===== *)
theory Market_Amount
  imports Vernier_Prelude
begin

text \<open>
  Exact amounts, \<open>src/domain/market/amount.go\<close>: raw token units, economic asset
  quantities and the conversions between them. \<open>*big.Int\<close> and \<open>*big.Rat\<close>
  arguments that may be nil are options; the private fields of the two value types are
  only ever read through \<open>Units\<close> and \<open>Rat\<close>, which read a nil pointer as zero, so
  the records hold the number itself and the zero value holds 0.
\<close>

section \<open>Values and operations\<close>

record Token =
  tok_ID :: TokenID
  tok_Asset :: AssetID
  tok_Chain :: ChainID
  tok_Decimals :: "8 word"
  tok_Symbol :: string

record TokenAmount =
  amt_token :: TokenID
  amt_units :: int

record AssetQuantity =
  qty_asset :: AssetID
  qty_value :: rat

datatype amount_error =
    TokenRequired
  | UnitsRequired
  | NegativeTokenAmount
  | InvalidIntegerUnits
  | AmountTokenMismatch
  | AssetRequired
  | ValueRequired
  | AssetsDiffer
  | QuantityAssetMismatch
  | NegativeQuantity

definition NewTokenAmount :: "TokenID \<Rightarrow> int option \<Rightarrow> (amount_error, TokenAmount) result" where
  "NewTokenAmount token units =
     (if token = [] then Inl TokenRequired
      else case units of
        None \<Rightarrow> Inl UnitsRequired
      | Some u \<Rightarrow>
          if u < 0 then Inl NegativeTokenAmount
          else Inr \<lparr>amt_token = token, amt_units = u\<rparr>)"

definition ParseTokenAmount :: "TokenID \<Rightarrow> string \<Rightarrow> (amount_error, TokenAmount) result" where
  "ParseTokenAmount token units =
     (case parse_int units of
        None \<Rightarrow> Inl InvalidIntegerUnits
      | Some parsed \<Rightarrow> NewTokenAmount token (Some parsed))"

definition AmountString :: "TokenAmount \<Rightarrow> string" where
  "AmountString a = int_string (amt_units a)"

definition AmountIsZero :: "TokenAmount \<Rightarrow> bool" where
  "AmountIsZero a \<longleftrightarrow> amt_units a = 0"

definition decimalFactor :: "8 word \<Rightarrow> int" where
  "decimalFactor decimals = 10 ^ unat decimals"

definition NewAssetQuantity :: "AssetID \<Rightarrow> rat option \<Rightarrow> (amount_error, AssetQuantity) result" where
  "NewAssetQuantity asset value =
     (if asset = [] then Inl AssetRequired
      else case value of
        None \<Rightarrow> Inl ValueRequired
      | Some v \<Rightarrow> Inr \<lparr>qty_asset = asset, qty_value = v\<rparr>)"

definition ToAssetQuantity :: "TokenAmount \<Rightarrow> Token \<Rightarrow> (amount_error, AssetQuantity) result" where
  "ToAssetQuantity a token =
     (if tok_ID token \<noteq> amt_token a then Inl AmountTokenMismatch
      else NewAssetQuantity (tok_Asset token)
             (Some (of_int (amt_units a) / of_int (decimalFactor (tok_Decimals token)))))"

definition QtySign :: "AssetQuantity \<Rightarrow> int" where
  "QtySign q = (if qty_value q < 0 then -1 else if qty_value q = 0 then 0 else 1)"

definition QtyAdd :: "AssetQuantity \<Rightarrow> AssetQuantity \<Rightarrow> (amount_error, AssetQuantity) result" where
  "QtyAdd q r =
     (if qty_asset q \<noteq> qty_asset r then Inl AssetsDiffer
      else NewAssetQuantity (qty_asset q) (Some (qty_value q + qty_value r)))"

definition QtySub :: "AssetQuantity \<Rightarrow> AssetQuantity \<Rightarrow> (amount_error, AssetQuantity) result" where
  "QtySub q r =
     (if qty_asset q \<noteq> qty_asset r then Inl AssetsDiffer
      else NewAssetQuantity (qty_asset q) (Some (qty_value q - qty_value r)))"

definition QtyCmp :: "AssetQuantity \<Rightarrow> AssetQuantity \<Rightarrow> (amount_error, int) result" where
  "QtyCmp q r =
     (if qty_asset q \<noteq> qty_asset r then Inl AssetsDiffer
      else Inr (if qty_value q < qty_value r then -1
                else if qty_value q = qty_value r then 0 else 1))"

text \<open>
  \<open>scaled.Num()\<close> and \<open>scaled.Denom()\<close> are the reduced numerator and the positive
  denominator, which is what \<open>quotient_of\<close> returns.
\<close>

definition ToTokenAmount :: "AssetQuantity \<Rightarrow> Token \<Rightarrow> (amount_error, TokenAmount) result" where
  "ToTokenAmount q token =
     (if tok_Asset token \<noteq> qty_asset q then Inl QuantityAssetMismatch
      else if QtySign q < 0 then Inl NegativeQuantity
      else
        (let scaled = qty_value q * of_int (decimalFactor (tok_Decimals token));
             (num, denom) = quotient_of scaled
         in NewTokenAmount (tok_ID token) (Some (bigQuo num denom))))"

text \<open>What the constructors guarantee of every value they return.\<close>

definition amount_ok :: "TokenAmount \<Rightarrow> bool" where
  "amount_ok a \<longleftrightarrow> amt_token a \<noteq> [] \<and> 0 \<le> amt_units a"

section \<open>Lemmas\<close>

named_theorems amount_defs \<open>definitions of the amount operations\<close>

lemmas amount_op_defs [amount_defs] =
  NewTokenAmount_def ParseTokenAmount_def AmountString_def AmountIsZero_def
  NewAssetQuantity_def ToAssetQuantity_def QtyAdd_def QtySub_def QtyCmp_def

lemma NewTokenAmount_Inr:
  "NewTokenAmount t u = Inr a \<longleftrightarrow>
     (\<exists>v. u = Some v \<and> t \<noteq> [] \<and> 0 \<le> v \<and> a = \<lparr>amt_token = t, amt_units = v\<rparr>)"
  by (auto simp: NewTokenAmount_def split: option.splits if_splits)

lemma NewTokenAmount_ok: "NewTokenAmount t u = Inr a \<Longrightarrow> amount_ok a"
  by (auto simp: NewTokenAmount_Inr amount_ok_def)

lemma decimalFactor_pos [simp]: "0 < decimalFactor d"
  by (simp add: decimalFactor_def)

lemma decimalFactor_nonneg [simp]: "0 \<le> decimalFactor d"
  by (simp add: decimalFactor_def)

lemma bigQuo_floor:
  assumes "0 \<le> x"
  shows "(let (n, d) = quotient_of x in bigQuo n d) = \<lfloor>x\<rfloor>"
proof -
  obtain n d where nd: "quotient_of x = (n, d)" by fastforce
  then have d: "0 < d" and x: "x = of_int n / of_int d"
    using quotient_of_denom_pos quotient_of_div by blast+
  have "0 \<le> (of_int n :: rat)"
    using assms d unfolding x by (simp add: zero_le_divide_iff)
  then have "0 \<le> n" by simp
  then have "bigQuo n d = n div d" using d by (simp add: bigQuo_nonneg)
  moreover have "\<lfloor>x\<rfloor> = n div d" by (simp add: x floor_divide_of_int_eq)
  ultimately show ?thesis by (simp add: nd)
qed

lemma ToTokenAmount_Inr:
  "ToTokenAmount q t = Inr a \<longleftrightarrow>
     tok_Asset t = qty_asset q \<and> 0 \<le> qty_value q \<and> tok_ID t \<noteq> [] \<and>
     a = \<lparr>amt_token = tok_ID t,
          amt_units = \<lfloor>qty_value q * of_int (decimalFactor (tok_Decimals t))\<rfloor>\<rparr>"
proof -
  let ?x = "qty_value q * of_int (decimalFactor (tok_Decimals t))"
  obtain n d where nd: "quotient_of ?x = (n, d)" by fastforce
  have fl: "0 \<le> qty_value q \<Longrightarrow> bigQuo n d = \<lfloor>?x\<rfloor>"
    using bigQuo_floor [of ?x] by (simp add: nd less_imp_le)
  have pos: "0 \<le> qty_value q \<Longrightarrow> 0 \<le> \<lfloor>?x\<rfloor>" by (simp add: less_imp_le)
  have sgn: "QtySign q < 0 \<longleftrightarrow> qty_value q < 0" by (simp add: QtySign_def)
  show ?thesis
    unfolding ToTokenAmount_def Let_def nd using fl pos sgn
    by (auto simp: NewTokenAmount_Inr)
qed

lemma ToAssetQuantity_Inr:
  "ToAssetQuantity a t = Inr q \<longleftrightarrow>
     tok_ID t = amt_token a \<and> tok_Asset t \<noteq> [] \<and>
     q = \<lparr>qty_asset = tok_Asset t,
          qty_value = of_int (amt_units a) / of_int (decimalFactor (tok_Decimals t))\<rparr>"
  by (auto simp: ToAssetQuantity_def NewAssetQuantity_def)

lemma QtyAdd_Inr:
  "QtyAdd q r = Inr s \<longleftrightarrow>
     qty_asset q = qty_asset r \<and> qty_asset q \<noteq> [] \<and>
     s = \<lparr>qty_asset = qty_asset q, qty_value = qty_value q + qty_value r\<rparr>"
  by (auto simp: QtyAdd_def NewAssetQuantity_def)

lemma QtySub_Inr:
  "QtySub q r = Inr s \<longleftrightarrow>
     qty_asset q = qty_asset r \<and> qty_asset q \<noteq> [] \<and>
     s = \<lparr>qty_asset = qty_asset q, qty_value = qty_value q - qty_value r\<rparr>"
  by (auto simp: QtySub_def NewAssetQuantity_def)

lemma QtyCmp_Inr:
  "QtyCmp q r = Inr c \<longleftrightarrow>
     qty_asset q = qty_asset r \<and>
     c = (if qty_value q < qty_value r then -1 else if qty_value q = qty_value r then 0 else 1)"
  by (auto simp: QtyCmp_def)

lemma QtySign_iff [simp]:
  "QtySign q < 0 \<longleftrightarrow> qty_value q < 0" "QtySign q \<le> 0 \<longleftrightarrow> qty_value q \<le> 0"
  "0 < QtySign q \<longleftrightarrow> 0 < qty_value q" "QtySign q = 0 \<longleftrightarrow> qty_value q = 0"
  by (auto simp: QtySign_def)

text \<open>The floor of a rescaled amount, as integers.\<close>

lemma rescale_floor:
  fixes u f g :: int
  assumes f: "0 < f"
  shows "\<lfloor>(of_int u / of_int f :: rat) * of_int g\<rfloor> = u * g div f"
proof -
  have "(of_int u / of_int f :: rat) * of_int g = of_int (u * g) / of_int f" by simp
  then show ?thesis by (simp only: floor_divide_of_int_eq)
qed

lemma convert_Inr:
  "rbind (ToAssetQuantity a t1) (\<lambda>q. ToTokenAmount q t2) = Inr b \<longleftrightarrow>
     tok_ID t1 = amt_token a \<and> tok_Asset t1 \<noteq> [] \<and> tok_Asset t2 = tok_Asset t1 \<and>
     0 \<le> amt_units a \<and> tok_ID t2 \<noteq> [] \<and>
     b = \<lparr>amt_token = tok_ID t2,
          amt_units = amt_units a * decimalFactor (tok_Decimals t2) div decimalFactor (tok_Decimals t1)\<rparr>"
proof -
  let ?f = "decimalFactor (tok_Decimals t1)" and ?g = "decimalFactor (tok_Decimals t2)"
  have fl: "\<lfloor>(of_int (amt_units a) / of_int ?f :: rat) * of_int ?g\<rfloor> = amt_units a * ?g div ?f"
    by (rule rescale_floor) simp
  have nn: "(0 :: rat) \<le> of_int (amt_units a) / of_int ?f \<longleftrightarrow> 0 \<le> amt_units a"
    using decimalFactor_pos [of "tok_Decimals t1"]
    by (metis less_imp_le not_less of_int_0_le_iff of_int_0_less_iff zero_le_divide_iff order_less_le)
  show ?thesis
    unfolding rbind_eq_Inr ToAssetQuantity_Inr ToTokenAmount_Inr using fl nn by auto
qed

section \<open>Properties\<close>

text \<open>
  C25: Converting raw units to an exact asset quantity and back through the same token
  returns the amount unchanged, so that the exact-arithmetic layer loses nothing.
\<close>

theorem token_quantity_roundtrip:
  assumes "amount_ok a" and "tok_ID t = amt_token a" and "tok_Asset t \<noteq> []"
  shows "rbind (ToAssetQuantity a t) (\<lambda>q. ToTokenAmount q t) = Inr a"
proof -
  have "decimalFactor (tok_Decimals t) \<noteq> 0" using decimalFactor_pos by (metis less_irrefl)
  then have "amt_units a * decimalFactor (tok_Decimals t) div decimalFactor (tok_Decimals t) = amt_units a"
    by simp
  then show ?thesis using assms by (simp add: convert_Inr amount_ok_def)
qed

theorem token_quantity_roundtrip_witness:
  "rbind (ToAssetQuantity \<lparr>amt_token = ''usdc'', amt_units = 1500001\<rparr>
            \<lparr>tok_ID = ''usdc'', tok_Asset = ''USD'', tok_Chain = ''base'', tok_Decimals = 6, tok_Symbol = ''USDC''\<rparr>)
     (\<lambda>q. ToTokenAmount q
            \<lparr>tok_ID = ''usdc'', tok_Asset = ''USD'', tok_Chain = ''base'', tok_Decimals = 6, tok_Symbol = ''USDC''\<rparr>)
   = Inr \<lparr>amt_token = ''usdc'', amt_units = 1500001\<rparr>"
  by (rule token_quantity_roundtrip) (simp_all add: amount_ok_def)

text \<open>
  C26: Re-denominating an amount in another token of the same asset (other decimals, for
  instance after a bridge) never creates value, and loses less than one raw unit of the
  destination token.
\<close>

theorem convert_conservative:
  assumes "rbind (ToAssetQuantity a t1) (\<lambda>q. ToTokenAmount q t2) = Inr b"
  shows "amt_token b = tok_ID t2 \<and>
    amt_units b * decimalFactor (tok_Decimals t1) \<le> amt_units a * decimalFactor (tok_Decimals t2) \<and>
    amt_units a * decimalFactor (tok_Decimals t2) < (amt_units b + 1) * decimalFactor (tok_Decimals t1)"
proof -
  let ?f = "decimalFactor (tok_Decimals t1)" and ?g = "decimalFactor (tok_Decimals t2)"
  from assms have b: "b = \<lparr>amt_token = tok_ID t2, amt_units = amt_units a * ?g div ?f\<rparr>"
    and a: "0 \<le> amt_units a"
    by (simp_all add: convert_Inr)
  have tk: "amt_token b = tok_ID t2" by (simp add: b)
  have x: "0 \<le> amt_units a * ?g" using a by (simp add: less_imp_le)
  have q: "amt_units b = bigQuo (amt_units a * ?g) ?f"
    using x by (simp add: b bigQuo_nonneg less_imp_le)
  show ?thesis
    using bigQuo_bounds(1,2) [OF x decimalFactor_pos [of "tok_Decimals t1"]] tk by (simp only: q)
qed

theorem convert_conservative_witness:
  "(1::int) * decimalFactor 18 \<le> 1999999999999999999 * decimalFactor 0 \<and>
   1999999999999999999 * decimalFactor 0 < (1 + 1) * decimalFactor 18"
proof -
  let ?a = "\<lparr>amt_token = ''a'', amt_units = 1999999999999999999\<rparr>"
  let ?t = "\<lparr>tok_ID = ''a'', tok_Asset = ''X'', tok_Chain = ''c'', tok_Decimals = 18, tok_Symbol = ''A''\<rparr>"
  let ?u = "\<lparr>tok_ID = ''b'', tok_Asset = ''X'', tok_Chain = ''d'', tok_Decimals = 0, tok_Symbol = ''B''\<rparr>"
  have "rbind (ToAssetQuantity ?a ?t) (\<lambda>q. ToTokenAmount q ?u)
        = Inr \<lparr>amt_token = ''b'', amt_units = 1\<rparr>"
    by (simp add: convert_Inr decimalFactor_def)
  from convert_conservative [OF this] show ?thesis by simp
qed

text \<open>
  The decimal text of an amount parses back to that amount.
\<close>

lemma amount_text_roundtrip:
  assumes "amount_ok a"
  shows "ParseTokenAmount (amt_token a) (AmountString a) = Inr a"
  using assms
  by (simp add: ParseTokenAmount_def AmountString_def parse_int_int_string NewTokenAmount_def amount_ok_def)

lemma amount_text_roundtrip_example:
  "ParseTokenAmount ''weth'' (AmountString \<lparr>amt_token = ''weth'', amt_units = 90210\<rparr>)
   = Inr \<lparr>amt_token = ''weth'', amt_units = 90210\<rparr>"
  using amount_text_roundtrip [of "\<lparr>amt_token = ''weth'', amt_units = 90210\<rparr>"]
  by (simp add: amount_ok_def)

end
