(* ===== verification/Inventory_Ledger.thy ===== *)
theory Inventory_Ledger
  imports Market_Amount "HOL-Library.List_Lexorder" "HOL-Library.Char_ord" "HOL-Library.Multiset"
begin

text \<open>
  The prefunded inventory, \<open>src/domain/inventory/inventory.go\<close>: physical balances,
  allocation policy, in-flight amounts and the reservations of running operations. Every
  exported method holds the mutex from its first read to its last write, so each method
  is one atomic transition of the state record below. A transition returns the Go result
  together with the state it leaves behind, on the error paths too. A nil-pointer
  dereference, which the Go runtime turns into a panic, is the error \<open>NilDereference\<close>.

  Go iterates over maps in an unspecified order. The order only decides which of several
  failing keys is named by the error; here the keys come in order of first mention.
\<close>

section \<open>State\<close>

type_synonym ReservationID = string

record Key =
  key_Chain :: ChainID
  key_Account :: AccountID
  key_Token :: TokenID

record Requirement =
  req_Key :: Key
  req_Amount :: TokenAmount

record Effect =
  eff_Key :: Key
  eff_Delta :: "int option"

record BalancePolicy =
  pol_WalletBalance :: TokenAmount
  pol_AllocationCap :: TokenAmount
  pol_Target :: TokenAmount
  pol_Buffer :: TokenAmount
  pol_InFlightOut :: TokenAmount

record Reservation =
  rsv_ID :: ReservationID
  rsv_Operation :: OperationID
  rsv_requirements :: "Requirement list"

record Inventory =
  balances :: "Key \<rightharpoonup> int"
  allocationCaps :: "Key \<rightharpoonup> int"
  targets :: "Key \<rightharpoonup> int"
  buffers :: "Key \<rightharpoonup> int"
  inFlightOut :: "Key \<rightharpoonup> int"
  reserved :: "Key \<rightharpoonup> int"
  reservations :: "ReservationID \<rightharpoonup> Reservation"
  settled :: "ReservationID \<rightharpoonup> string"

datatype inv_error =
    AmountError amount_error
  | ReservationIncomplete
  | InvalidRequirement
  | BelongsToAnotherOperation
  | AlreadySettled
  | NoBalance Key
  | InsufficientInventory Key
  | ReservationIDRequired
  | KeyAmountMismatch
  | ObservationInvalid
  | UnknownBalance
  | EffectsRequired
  | InvalidEffect
  | EffectNegative Key
  | AdjustmentIncomplete
  | ReservationMissing
  | SettlementIncomplete
  | SettledWithDifferentEffects
  | NilDereference

section \<open>Operations\<close>

definition key_complete :: "Key \<Rightarrow> bool" where
  "key_complete k \<longleftrightarrow> key_Chain k \<noteq> [] \<and> key_Account k \<noteq> [] \<and> key_Token k \<noteq> []"

definition NewReservation ::
  "ReservationID \<Rightarrow> OperationID \<Rightarrow> Requirement list \<Rightarrow> (inv_error, Reservation) result" where
  "NewReservation rid op reqs =
     (if rid = [] \<or> op = [] \<or> reqs = [] then Inl ReservationIncomplete
      else check (first_error (\<lambda>r.
             if \<not> key_complete (req_Key r) \<or> amt_token (req_Amount r) \<noteq> key_Token (req_Key r) \<or>
                AmountIsZero (req_Amount r)
             then Some InvalidRequirement else None) reqs)
           (Inr \<lparr>rsv_ID = rid, rsv_Operation = op, rsv_requirements = reqs\<rparr>))"

definition empty_inventory :: Inventory where
  "empty_inventory = \<lparr>balances = Map.empty, allocationCaps = Map.empty, targets = Map.empty,
     buffers = Map.empty, inFlightOut = Map.empty, reserved = Map.empty,
     reservations = Map.empty, settled = Map.empty\<rparr>"

definition policy_rejected :: "Key \<Rightarrow> BalancePolicy \<Rightarrow> bool" where
  "policy_rejected key policy \<longleftrightarrow>
     \<not> key_complete key \<or>
     amt_token (pol_WalletBalance policy) \<noteq> key_Token key \<or>
     amt_token (pol_AllocationCap policy) \<noteq> key_Token key \<or>
     amt_token (pol_Target policy) \<noteq> key_Token key \<or>
     amt_token (pol_Buffer policy) \<noteq> key_Token key \<or>
     amt_token (pol_InFlightOut policy) \<noteq> key_Token key \<or>
     amt_units (pol_Target policy) > amt_units (pol_AllocationCap policy) \<or>
     amt_units (pol_Buffer policy) \<ge> amt_units (pol_AllocationCap policy)"

definition install_policy :: "Inventory \<Rightarrow> Key \<times> BalancePolicy \<Rightarrow> (inv_error, Inventory) result" where
  "install_policy i = (\<lambda>(key, policy).
     if policy_rejected key policy then Inl KeyAmountMismatch
     else Inr (i\<lparr>
       balances := (balances i)(key \<mapsto> amt_units (pol_WalletBalance policy)),
       allocationCaps := (allocationCaps i)(key \<mapsto> amt_units (pol_AllocationCap policy)),
       targets := (targets i)(key \<mapsto> amt_units (pol_Target policy)),
       buffers := (buffers i)(key \<mapsto> amt_units (pol_Buffer policy)),
       inFlightOut := (inFlightOut i)(key \<mapsto> amt_units (pol_InFlightOut policy)),
       reserved := (reserved i)(key \<mapsto> 0)\<rparr>))"

text \<open>The Go map of policies is a list of entries with distinct keys.\<close>

definition NewWithPolicies :: "(Key \<times> BalancePolicy) list \<Rightarrow> (inv_error, Inventory) result" where
  "NewWithPolicies policies = foldM install_policy empty_inventory policies"

definition default_policy :: "Key \<times> TokenAmount \<Rightarrow> (inv_error, Key \<times> BalancePolicy) result" where
  "default_policy = (\<lambda>(key, amount).
     rbind (map_err AmountError (NewTokenAmount (key_Token key) (Some 0))) (\<lambda>zero.
     rbind (map_err AmountError (NewTokenAmount (key_Token key) (Some (2 ^ 256 - 1)))) (\<lambda>unbounded.
     Inr (key, \<lparr>pol_WalletBalance = amount, pol_AllocationCap = unbounded, pol_Target = amount,
                pol_Buffer = zero, pol_InFlightOut = zero\<rparr>))))"

definition NewInventory :: "(Key \<times> TokenAmount) list \<Rightarrow> (inv_error, Inventory) result" where
  "NewInventory entries =
     rbind (foldM (\<lambda>ps e. rbind (default_policy e) (\<lambda>p. Inr (ps @ [p]))) [] entries) NewWithPolicies"

text \<open>
  \<open>combined\<close> and \<open>deltas\<close> in the sources are maps from keys to accumulated integers.
\<close>

fun add_delta :: "Key \<Rightarrow> int \<Rightarrow> (Key \<times> int) list \<Rightarrow> (Key \<times> int) list" where
  "add_delta k d [] = [(k, d)]"
| "add_delta k d ((k', v) # xs) =
     (if k = k' then (k', v + d) # xs else (k', v) # add_delta k d xs)"

definition combinedRequirements :: "Requirement list \<Rightarrow> (Key \<times> int) list" where
  "combinedRequirements reqs =
     fold (\<lambda>r acc. add_delta (req_Key r) (amt_units (req_Amount r)) acc) reqs []"

text \<open>
  In-place addition to the \<open>*big.Int\<close> entries of a map; a missing entry is a nil pointer,
  and the flag says whether the loop ran to its end.
\<close>

fun bump_all :: "(Key \<rightharpoonup> int) \<Rightarrow> (Key \<times> int) list \<Rightarrow> (Key \<rightharpoonup> int) \<times> bool" where
  "bump_all m [] = (m, True)"
| "bump_all m ((k, d) # xs) =
     (case m k of None \<Rightarrow> (m, False) | Some v \<Rightarrow> bump_all (m(k \<mapsto> v + d)) xs)"

definition effectiveAvailableLocked :: "Inventory \<Rightarrow> Key \<Rightarrow> int \<Rightarrow> int option" where
  "effectiveAvailableLocked i key wallet =
     (let capped = (case allocationCaps i key of
                      Some cap \<Rightarrow> if wallet > cap then cap else wallet
                    | None \<Rightarrow> wallet)
      in case buffers i key of None \<Rightarrow> None | Some b \<Rightarrow>
         case reserved i key of None \<Rightarrow> None | Some r \<Rightarrow>
         case inFlightOut i key of None \<Rightarrow> None | Some f \<Rightarrow>
           let effective = capped - b - r - f
           in Some (if effective < 0 then 0 else effective))"

definition requirement_error :: "Requirement \<Rightarrow> inv_error option" where
  "requirement_error r =
     (if key_Token (req_Key r) = [] \<or> amt_token (req_Amount r) \<noteq> key_Token (req_Key r) \<or>
         AmountIsZero (req_Amount r)
      then Some InvalidRequirement else None)"

definition fit_error :: "Inventory \<Rightarrow> Key \<times> int \<Rightarrow> inv_error option" where
  "fit_error i = (\<lambda>(key, amount).
     case balances i key of
       None \<Rightarrow> Some (NoBalance key)
     | Some balance \<Rightarrow>
         (case effectiveAvailableLocked i key balance of
            None \<Rightarrow> Some NilDereference
          | Some available \<Rightarrow>
              if available < amount then Some (InsufficientInventory key) else None))"

definition Reserve ::
  "ReservationID \<Rightarrow> OperationID \<Rightarrow> Requirement list \<Rightarrow> Inventory \<Rightarrow>
   (inv_error, Reservation) result \<times> Inventory" where
  "Reserve rid op reqs i =
     (if rid = [] \<or> op = [] \<or> reqs = [] then (Inl ReservationIncomplete, i)
      else case reservations i rid of
        Some existing \<Rightarrow>
          if rsv_Operation existing \<noteq> op then (Inl BelongsToAnotherOperation, i)
          else (Inr existing, i)
      | None \<Rightarrow>
        if settled i rid \<noteq> None then (Inl AlreadySettled, i)
        else case first_error requirement_error reqs of
          Some e \<Rightarrow> (Inl e, i)
        | None \<Rightarrow>
          let combined = combinedRequirements reqs in
          case first_error (fit_error i) combined of
            Some e \<Rightarrow> (Inl e, i)
          | None \<Rightarrow>
            (case bump_all (reserved i) combined of
               (m, ok) \<Rightarrow>
                 let i' = i\<lparr>reserved := m\<rparr> in
                 if \<not> ok then (Inl NilDereference, i')
                 else case NewReservation rid op reqs of
                   Inl e \<Rightarrow> (Inl e, i')
                 | Inr reservation \<Rightarrow>
                     (Inr reservation,
                      i'\<lparr>reservations := (reservations i)(rid \<mapsto> reservation)\<rparr>)))"

definition release_deltas :: "Reservation \<Rightarrow> (Key \<times> int) list" where
  "release_deltas r = map (\<lambda>q. (req_Key q, - amt_units (req_Amount q))) (rsv_requirements r)"

definition Release :: "ReservationID \<Rightarrow> Inventory \<Rightarrow> inv_error option \<times> Inventory" where
  "Release rid i =
     (if rid = [] then (Some ReservationIDRequired, i)
      else case reservations i rid of
        None \<Rightarrow> (None, i)
      | Some reservation \<Rightarrow>
          (case bump_all (reserved i) (release_deltas reservation) of
             (m, ok) \<Rightarrow>
               let i' = i\<lparr>reserved := m\<rparr> in
               if \<not> ok then (Some NilDereference, i')
               else (None, i'\<lparr>reservations := (reservations i)(rid := None)\<rparr>)))"

definition Available :: "Key \<Rightarrow> Inventory \<Rightarrow> (inv_error, int option) result" where
  "Available key i =
     (case balances i key of
        None \<Rightarrow> Inr None
      | Some balance \<Rightarrow>
          (case effectiveAvailableLocked i key balance of
             None \<Rightarrow> Inl NilDereference
           | Some a \<Rightarrow> Inr (Some a)))"

definition WalletBalance :: "Key \<Rightarrow> Inventory \<Rightarrow> int option" where
  "WalletBalance key i = balances i key"

definition ObserveWalletBalance :: "Key \<Rightarrow> TokenAmount \<Rightarrow> Inventory \<Rightarrow> inv_error option \<times> Inventory" where
  "ObserveWalletBalance key amount i =
     (if amt_token amount \<noteq> key_Token key then (Some ObservationInvalid, i)
      else if balances i key = None then (Some UnknownBalance, i)
      else (None, i\<lparr>balances := (balances i)(key \<mapsto> amt_units amount)\<rparr>))"

definition effect_error :: "Inventory \<Rightarrow> Effect \<Rightarrow> inv_error option" where
  "effect_error i e =
     (if \<not> key_complete (eff_Key e) \<or> eff_Delta e = None then Some InvalidEffect
      else if balances i (eff_Key e) = None then Some UnknownBalance
      else None)"

definition combinedEffects :: "Effect list \<Rightarrow> (Key \<times> int) list" where
  "combinedEffects effects =
     fold (\<lambda>e acc. add_delta (eff_Key e) (the (eff_Delta e)) acc) effects []"

definition negative_error :: "Inventory \<Rightarrow> (Key \<times> int) list \<Rightarrow> inv_error option" where
  "negative_error i deltas =
     first_error (\<lambda>(key, delta).
       case balances i key of
         None \<Rightarrow> Some NilDereference
       | Some b \<Rightarrow> if b + delta < 0 then Some (EffectNegative key) else None) deltas"

definition ApplyEffects :: "Effect list \<Rightarrow> Inventory \<Rightarrow> inv_error option \<times> Inventory" where
  "ApplyEffects effects i =
     (if effects = [] then (Some EffectsRequired, i)
      else case first_error (effect_error i) effects of
        Some e \<Rightarrow> (Some e, i)
      | None \<Rightarrow>
        let deltas = combinedEffects effects in
        case negative_error i deltas of
          Some e \<Rightarrow> (Some e, i)
        | None \<Rightarrow>
          (case bump_all (balances i) deltas of
             (m, ok) \<Rightarrow> (if ok then None else Some NilDereference, i\<lparr>balances := m\<rparr>)))"

definition SetInFlightOut :: "Key \<Rightarrow> TokenAmount \<Rightarrow> Inventory \<Rightarrow> inv_error option \<times> Inventory" where
  "SetInFlightOut key amount i =
     (if amt_token amount \<noteq> key_Token key then (Some ObservationInvalid, i)
      else if balances i key = None then (Some UnknownBalance, i)
      else (None, i\<lparr>inFlightOut := (inFlightOut i)(key \<mapsto> amt_units amount)\<rparr>))"

text \<open>
  \<open>available.Add(available, old[key])\<close> reads the map of the old requirements without
  testing for presence: a key that the current reservation does not hold is a nil pointer.
\<close>

definition adjust_error :: "Inventory \<Rightarrow> (Key \<times> int) list \<Rightarrow> Key \<times> int \<Rightarrow> inv_error option" where
  "adjust_error i old = (\<lambda>(key, wanted).
     case balances i key of
       None \<Rightarrow> Some UnknownBalance
     | Some wallet \<Rightarrow>
         (case effectiveAvailableLocked i key wallet of
            None \<Rightarrow> Some NilDereference
          | Some available \<Rightarrow>
              (case map_of old key of
                 None \<Rightarrow> Some NilDereference
               | Some held \<Rightarrow>
                   if available + held < wanted then Some (InsufficientInventory key) else None)))"

definition AdjustReservation ::
  "ReservationID \<Rightarrow> Requirement list \<Rightarrow> Inventory \<Rightarrow>
   (inv_error, Reservation) result \<times> Inventory" where
  "AdjustReservation rid reqs i =
     (if rid = [] \<or> reqs = [] then (Inl AdjustmentIncomplete, i)
      else case reservations i rid of
        None \<Rightarrow> (Inl ReservationMissing, i)
      | Some current \<Rightarrow>
        case NewReservation rid (rsv_Operation current) reqs of
          Inl e \<Rightarrow> (Inl e, i)
        | Inr replacement \<Rightarrow>
          let old = combinedRequirements (rsv_requirements current);
              new = combinedRequirements reqs
          in case first_error (adjust_error i old) new of
               Some e \<Rightarrow> (Inl e, i)
             | None \<Rightarrow>
               (case bump_all (reserved i) (map (\<lambda>(k, a). (k, - a)) old) of
                  (m, ok) \<Rightarrow>
                    if \<not> ok then (Inl NilDereference, i\<lparr>reserved := m\<rparr>)
                    else case bump_all m new of
                      (m', ok') \<Rightarrow>
                        if \<not> ok' then (Inl NilDereference, i\<lparr>reserved := m'\<rparr>)
                        else (Inr replacement,
                              i\<lparr>reserved := m',
                                reservations := (reservations i)(rid \<mapsto> replacement)\<rparr>)))"

definition effect_part :: "Effect \<Rightarrow> string" where
  "effect_part e = join_strings ''/''
     [key_Chain (eff_Key e), key_Account (eff_Key e), key_Token (eff_Key e),
      int_string (the (eff_Delta e))]"

definition effectFingerprint :: "Effect list \<Rightarrow> (inv_error, string) result" where
  "effectFingerprint effects =
     check (first_error (\<lambda>e.
              if \<not> key_complete (eff_Key e) \<or> eff_Delta e = None then Some InvalidEffect else None) effects)
       (Inr (join_strings ''|'' (sort (map effect_part effects))))"

definition Settle :: "ReservationID \<Rightarrow> Effect list \<Rightarrow> Inventory \<Rightarrow> inv_error option \<times> Inventory" where
  "Settle rid effects i =
     (if rid = [] \<or> effects = [] then (Some SettlementIncomplete, i)
      else case effectFingerprint effects of
        Inl e \<Rightarrow> (Some e, i)
      | Inr fingerprint \<Rightarrow>
        case reservations i rid of
          None \<Rightarrow>
            (case settled i rid of
               Some existing \<Rightarrow>
                 if existing = fingerprint then (None, i) else (Some SettledWithDifferentEffects, i)
             | None \<Rightarrow> (Some ReservationMissing, i))
        | Some reservation \<Rightarrow>
          case first_error (effect_error i) effects of
            Some e \<Rightarrow> (Some e, i)
          | None \<Rightarrow>
            let deltas = combinedEffects effects in
            case negative_error i deltas of
              Some e \<Rightarrow> (Some e, i)
            | None \<Rightarrow>
              (case bump_all (balances i) deltas of
                 (b, ok) \<Rightarrow>
                   if \<not> ok then (Some NilDereference, i\<lparr>balances := b\<rparr>)
                   else case bump_all (reserved i) (release_deltas reservation) of
                     (m, ok') \<Rightarrow>
                       let i' = i\<lparr>balances := b, reserved := m\<rparr> in
                       if \<not> ok' then (Some NilDereference, i')
                       else (None, i'\<lparr>reservations := (reservations i)(rid := None),
                                      settled := (settled i)(rid \<mapsto> fingerprint)\<rparr>)))"

section \<open>What the ledger promises\<close>

text \<open>The units a list of requirements needs of one key, and the units all open
  reservations hold of it.\<close>

definition need :: "Requirement list \<Rightarrow> Key \<Rightarrow> int" where
  "need reqs k = sum_by (\<lambda>q. if req_Key q = k then amt_units (req_Amount q) else 0) reqs"

definition held_of :: "(ReservationID \<rightharpoonup> Reservation) \<Rightarrow> Key \<Rightarrow> int" where
  "held_of m k = (\<Sum>rid \<in> dom m. need (rsv_requirements (the (m rid))) k)"

definition held :: "Inventory \<Rightarrow> Key \<Rightarrow> int" where
  "held i k = held_of (reservations i) k"

definition add_to :: "(Key \<rightharpoonup> int) \<Rightarrow> (Key \<Rightarrow> int) \<Rightarrow> (Key \<rightharpoonup> int)" where
  "add_to m f = (\<lambda>k. map_option (\<lambda>v. v + f k) (m k))"

definition net_effect :: "Effect list \<Rightarrow> Key \<Rightarrow> int" where
  "net_effect effects k = sum_by (\<lambda>e. if eff_Key e = k then the (eff_Delta e) else 0) effects"

definition delta_total :: "(Key \<times> int) list \<Rightarrow> Key \<Rightarrow> int" where
  "delta_total xs k = sum_by (\<lambda>(k', d). if k' = k then d else 0) xs"

definition requirement_ok :: "Inventory \<Rightarrow> Requirement \<Rightarrow> bool" where
  "requirement_ok i q \<longleftrightarrow>
     key_complete (req_Key q) \<and> req_Key q \<in> dom (balances i) \<and>
     amt_token (req_Amount q) = key_Token (req_Key q) \<and> 0 < amt_units (req_Amount q)"

definition reservation_ok :: "Inventory \<Rightarrow> ReservationID \<Rightarrow> Reservation \<Rightarrow> bool" where
  "reservation_ok i rid r \<longleftrightarrow>
     rsv_ID r = rid \<and> rid \<noteq> [] \<and> rsv_Operation r \<noteq> [] \<and> rsv_requirements r \<noteq> [] \<and>
     (\<forall>q \<in> set (rsv_requirements r). requirement_ok i q)"

definition inv_shape :: "Inventory \<Rightarrow> bool" where
  "inv_shape i \<longleftrightarrow>
     dom (allocationCaps i) = dom (balances i) \<and> dom (targets i) = dom (balances i) \<and>
     dom (buffers i) = dom (balances i) \<and> dom (inFlightOut i) = dom (balances i) \<and>
     dom (reserved i) = dom (balances i) \<and> (\<forall>k \<in> dom (balances i). key_complete k) \<and>
     finite (dom (reservations i))"

definition map_nonneg :: "('k \<rightharpoonup> int) \<Rightarrow> bool" where
  "map_nonneg m \<longleftrightarrow> (\<forall>k v. m k = Some v \<longrightarrow> 0 \<le> v)"

definition inv_ok :: "Inventory \<Rightarrow> bool" where
  "inv_ok i \<longleftrightarrow>
     inv_shape i \<and> map_nonneg (balances i) \<and> map_nonneg (allocationCaps i) \<and>
     map_nonneg (buffers i) \<and> map_nonneg (inFlightOut i) \<and>
     (\<forall>rid r. reservations i rid = Some r \<longrightarrow> reservation_ok i rid r) \<and>
     dom (reservations i) \<inter> dom (settled i) = {} \<and>
     (\<forall>k v. reserved i k = Some v \<longrightarrow> v = held i k)"

text \<open>Amounts come from \<open>NewTokenAmount\<close> and are never negative.\<close>

definition reqs_wf :: "Requirement list \<Rightarrow> bool" where
  "reqs_wf reqs \<longleftrightarrow> (\<forall>q \<in> set reqs. 0 \<le> amt_units (req_Amount q))"

text \<open>The transitions of the ledger: each exported method that changes it.\<close>

inductive inv_step :: "Inventory \<Rightarrow> Inventory \<Rightarrow> bool" where
  step_reserve: "reqs_wf reqs \<Longrightarrow> Reserve rid op reqs i = (res, i') \<Longrightarrow> inv_step i i'"
| step_release: "Release rid i = (res, i') \<Longrightarrow> inv_step i i'"
| step_observe: "0 \<le> amt_units a \<Longrightarrow> ObserveWalletBalance k a i = (res, i') \<Longrightarrow> inv_step i i'"
| step_apply: "ApplyEffects effects i = (res, i') \<Longrightarrow> inv_step i i'"
| step_inflight: "0 \<le> amt_units a \<Longrightarrow> SetInFlightOut k a i = (res, i') \<Longrightarrow> inv_step i i'"
| step_adjust: "reqs_wf reqs \<Longrightarrow> AdjustReservation rid reqs i = (res, i') \<Longrightarrow> inv_step i i'"
| step_settle: "Settle rid effects i = (res, i') \<Longrightarrow> inv_step i i'"

definition policies_wf :: "(Key \<times> BalancePolicy) list \<Rightarrow> bool" where
  "policies_wf ps \<longleftrightarrow> (\<forall>(k, p) \<in> set ps.
     0 \<le> amt_units (pol_WalletBalance p) \<and> 0 \<le> amt_units (pol_AllocationCap p) \<and>
     0 \<le> amt_units (pol_Buffer p) \<and> 0 \<le> amt_units (pol_InFlightOut p))"

inductive inv_reachable :: "Inventory \<Rightarrow> bool" where
  reach_new: "policies_wf ps \<Longrightarrow> NewWithPolicies ps = Inr i \<Longrightarrow> inv_reachable i"
| reach_step: "inv_reachable i \<Longrightarrow> inv_step i i' \<Longrightarrow> inv_reachable i'"

section \<open>Accumulated deltas\<close>

lemma total_simps [simp]:
  "delta_total [] k = 0" "delta_total ((k', d) # xs) k = (if k' = k then d else 0) + delta_total xs k"
  by (simp_all add: delta_total_def)

lemma total_add_delta [simp]: "delta_total (add_delta k d xs) k' = delta_total xs k' + (if k = k' then d else 0)"
  by (induction k d xs rule: add_delta.induct) auto

lemma keys_add_delta [simp]: "fst ` set (add_delta k d xs) = insert k (fst ` set xs)"
  by (induction k d xs rule: add_delta.induct) auto

lemma distinct_add_delta:
  "distinct (map fst xs) \<Longrightarrow> distinct (map fst (add_delta k d xs))"
proof (induction k d xs rule: add_delta.induct)
  case (2 k d k' v xs)
  have "k \<noteq> k' \<Longrightarrow> k' \<notin> fst ` set (add_delta k d xs)"
    using 2(2) by (simp only: keys_add_delta) auto
  with 2 show ?case by auto
qed simp

lemma map_of_total:
  "distinct (map fst xs) \<Longrightarrow> map_of xs k = Some v \<Longrightarrow> delta_total xs k = v"
proof (induction xs)
  case (Cons x xs)
  obtain k' d where x: "x = (k', d)" by fastforce
  have out: "k \<notin> fst ` set ys \<Longrightarrow> delta_total ys k = 0" for ys
    by (induction ys) auto
  show ?case using Cons out [of xs] by (auto simp: x split: if_splits)
qed simp

lemma total_outside: "k \<notin> fst ` set xs \<Longrightarrow> delta_total xs k = 0"
  by (induction xs) auto

lemma total_map_neg: "delta_total (map (\<lambda>(k, a). (k, - a)) xs) k = - delta_total xs k"
  by (induction xs) auto

lemma fold_add_delta:
  "delta_total (fold (\<lambda>x acc. add_delta (f x) (g x) acc) xs acc) k =
     delta_total acc k + sum_by (\<lambda>x. if f x = k then g x else 0) xs"
  "fst ` set (fold (\<lambda>x acc. add_delta (f x) (g x) acc) xs acc) = fst ` set acc \<union> f ` set xs"
  "distinct (map fst acc) \<Longrightarrow> distinct (map fst (fold (\<lambda>x acc. add_delta (f x) (g x) acc) xs acc))"
  by (induction xs arbitrary: acc) (auto simp: distinct_add_delta)

lemma total_combinedRequirements [simp]: "delta_total (combinedRequirements reqs) k = need reqs k"
  and keys_combinedRequirements [simp]: "fst ` set (combinedRequirements reqs) = req_Key ` set reqs"
  and distinct_combinedRequirements [simp]: "distinct (map fst (combinedRequirements reqs))"
  by (simp_all add: combinedRequirements_def need_def fold_add_delta)

lemma total_combinedEffects [simp]: "delta_total (combinedEffects es) k = net_effect es k"
  and keys_combinedEffects [simp]: "fst ` set (combinedEffects es) = eff_Key ` set es"
  and distinct_combinedEffects [simp]: "distinct (map fst (combinedEffects es))"
  by (simp_all add: combinedEffects_def net_effect_def fold_add_delta)

lemma total_release_deltas [simp]: "delta_total (release_deltas r) k = - need (rsv_requirements r) k"
proof -
  have "delta_total (map (\<lambda>q. (req_Key q, - amt_units (req_Amount q))) qs) k = - need qs k" for qs
    by (induction qs) (auto simp: need_def)
  then show ?thesis by (simp add: release_deltas_def)
qed

lemma keys_release_deltas [simp]: "fst ` set (release_deltas r) = req_Key ` set (rsv_requirements r)"
  by (force simp: release_deltas_def)

lemma bump_all_dom:
  "fst ` set xs \<subseteq> dom m \<Longrightarrow> bump_all m xs = (add_to m (delta_total xs), True)"
proof (induction m xs rule: bump_all.induct)
  case (1 m)
  show ?case by (simp add: add_to_def option.map_ident)
next
  case (2 m k d xs)
  from 2(2) obtain v where v: "m k = Some v" by auto
  have "fst ` set xs \<subseteq> dom (m(k \<mapsto> v + d))" using 2(2) by auto
  note IH = 2(1) [OF v this]
  show ?case
    unfolding bump_all.simps v option.case IH by (auto simp: add_to_def v fun_eq_iff intro: option.map_cong)
qed

lemma need_nonneg: "reqs_wf reqs \<Longrightarrow> 0 \<le> need reqs k"
  unfolding need_def by (rule sum_by_nonneg) (simp add: reqs_wf_def)

lemma first_error_alist:
  "first_error (\<lambda>(k, v). f k v) xs = None \<longleftrightarrow> (\<forall>(k, v) \<in> set xs. f k v = None)"
  by (auto simp: first_error_None)

lemma dom_add_to [simp]: "dom (add_to m f) = dom m"
  by (auto simp: add_to_def dom_def)

lemma add_to_apply: "add_to m f k = map_option (\<lambda>v. v + f k) (m k)"
  by (simp add: add_to_def)

lemma held_of_insert:
  "finite (dom m) \<Longrightarrow> m rid = None \<Longrightarrow> held_of (m(rid \<mapsto> r)) k = held_of m k + need (rsv_requirements r) k"
  unfolding held_of_def by (rule sum_map_insert)

lemma held_of_delete:
  "finite (dom m) \<Longrightarrow> m rid = Some r \<Longrightarrow> held_of (m(rid := None)) k = held_of m k - need (rsv_requirements r) k"
  unfolding held_of_def by (rule sum_map_delete)

lemma held_of_replace:
  "finite (dom m) \<Longrightarrow> m rid = Some q \<Longrightarrow>
   held_of (m(rid \<mapsto> r)) k = held_of m k - need (rsv_requirements q) k + need (rsv_requirements r) k"
  unfolding held_of_def by (rule sum_map_replace)

section \<open>The invariant\<close>

lemma inv_okD:
  assumes "inv_ok i"
  shows "inv_shape i" "map_nonneg (balances i)" "map_nonneg (allocationCaps i)"
    "map_nonneg (buffers i)" "map_nonneg (inFlightOut i)"
    "reservations i rid = Some r \<Longrightarrow> reservation_ok i rid r"
    "dom (reservations i) \<inter> dom (settled i) = {}"
    "reserved i k = Some v \<Longrightarrow> v = held i k" "finite (dom (reservations i))"
  using assms by (simp_all add: inv_ok_def inv_shape_def)

lemma inv_ok_update:
  assumes ok: "inv_ok i"
    and same: "allocationCaps i' = allocationCaps i" "targets i' = targets i"
    and pos: "map_nonneg (buffers i')" "map_nonneg (inFlightOut i')" "map_nonneg (balances i')"
    and doms: "dom (balances i') = dom (balances i)" "dom (buffers i') = dom (buffers i)"
      "dom (inFlightOut i') = dom (inFlightOut i)"
    and r: "reserved i' = add_to (reserved i) f"
    and fin: "finite (dom (reservations i'))"
    and rok: "\<And>rid r. reservations i' rid = Some r \<Longrightarrow> reservation_ok i rid r"
    and dis: "dom (reservations i') \<inter> dom (settled i') = {}"
    and held: "\<And>k. held_of (reservations i') k = held_of (reservations i) k + f k"
  shows "inv_ok i'"
proof -
  have shape: "inv_shape i'"
    using inv_okD(1) [OF ok] same doms r fin by (simp add: inv_shape_def)
  have "reservation_ok i' rid r" if "reservations i' rid = Some r" for rid r
    using rok [OF that] doms(1) by (simp add: reservation_ok_def requirement_ok_def)
  moreover have "v = Inventory_Ledger.held i' k" if "reserved i' k = Some v" for k v
    using that inv_okD(8) [OF ok] held by (auto simp: r add_to_apply held_def)
  ultimately show ?thesis
    using shape pos dis same inv_okD(3) [OF ok] by (simp add: inv_ok_def)
qed

lemma effective_Some:
  assumes "inv_shape i" and "balances i k = Some b"
  obtains a where "effectiveAvailableLocked i k b = Some a" "0 \<le> a"
proof -
  from assms have "k \<in> dom (balances i)" by auto
  then have "k \<in> dom (buffers i)" "k \<in> dom (reserved i)" "k \<in> dom (inFlightOut i)"
    using assms(1) by (simp_all add: inv_shape_def)
  then show ?thesis using that by (auto simp: effectiveAvailableLocked_def Let_def)
qed

lemma effective_not_None: "inv_shape i \<Longrightarrow> balances i k = Some b \<Longrightarrow> effectiveAvailableLocked i k b \<noteq> None"
  by (metis effective_Some option.distinct(1))

lemma NewReservation_Inr:
  "NewReservation rid op reqs = Inr r \<longleftrightarrow>
     rid \<noteq> [] \<and> op \<noteq> [] \<and> reqs \<noteq> [] \<and>
     (\<forall>q \<in> set reqs. key_complete (req_Key q) \<and> amt_token (req_Amount q) = key_Token (req_Key q) \<and>
        amt_units (req_Amount q) \<noteq> 0) \<and>
     r = \<lparr>rsv_ID = rid, rsv_Operation = op, rsv_requirements = reqs\<rparr>"
  by (auto simp: NewReservation_def check_eq_Inr first_error_None AmountIsZero_def split: if_splits)

lemma NewReservation_known_keys:
  assumes "inv_shape i" and "rid \<noteq> []" "op \<noteq> []" "reqs \<noteq> []"
    and "\<And>q. q \<in> set reqs \<Longrightarrow> req_Key q \<in> dom (balances i) \<and>
           amt_token (req_Amount q) = key_Token (req_Key q) \<and> amt_units (req_Amount q) \<noteq> 0"
  shows "NewReservation rid op reqs = Inr \<lparr>rsv_ID = rid, rsv_Operation = op, rsv_requirements = reqs\<rparr>"
  using assms by (auto simp: NewReservation_Inr inv_shape_def)

section \<open>Behaviour of the transitions\<close>

lemma requirement_error_None:
  "requirement_error q = None \<longleftrightarrow>
     key_Token (req_Key q) \<noteq> [] \<and> amt_token (req_Amount q) = key_Token (req_Key q) \<and>
     amt_units (req_Amount q) \<noteq> 0"
  by (auto simp: requirement_error_def AmountIsZero_def)

lemma requirement_error_nil: "first_error requirement_error reqs \<noteq> Some NilDereference"
  by (auto simp: requirement_error_def dest!: first_error_Some split: if_splits)

lemma fit_error_nil: "inv_shape i \<Longrightarrow> first_error (fit_error i) xs \<noteq> Some NilDereference"
  by (auto simp: fit_error_def effective_not_None dest!: first_error_Some split: option.splits if_splits)

lemma combined_need:
  assumes "\<forall>x \<in> set (combinedRequirements reqs). P x" and "q \<in> set reqs"
  shows "P (req_Key q, need reqs (req_Key q))"
proof -
  from assms(2) have "req_Key q \<in> fst ` set (combinedRequirements reqs)" by simp
  then obtain v where v: "(req_Key q, v) \<in> set (combinedRequirements reqs)"
    by (auto simp del: keys_combinedRequirements)
  then have "need reqs (req_Key q) = v"
    using map_of_total [OF distinct_combinedRequirements] by (fastforce dest: map_of_is_SomeI [rotated])
  then show ?thesis using assms(1) v by blast
qed

definition fits :: "Inventory \<Rightarrow> Requirement list \<Rightarrow> bool" where
  "fits i reqs \<longleftrightarrow> (\<forall>q \<in> set reqs. \<exists>b a. balances i (req_Key q) = Some b \<and>
     effectiveAvailableLocked i (req_Key q) b = Some a \<and> need reqs (req_Key q) \<le> a)"

lemma fit_error_fits: "first_error (fit_error i) (combinedRequirements reqs) = None \<Longrightarrow> fits i reqs"
  unfolding first_error_None fits_def
  by (auto dest: combined_need simp: fit_error_def split: option.splits if_splits)

text \<open>A call that opens a reservation, as one equation.\<close>

lemma Reserve_opens:
  assumes ok: "inv_ok i" and ids: "rid \<noteq> []" "op \<noteq> []" "reqs \<noteq> []"
    and new: "reservations i rid = None" "settled i rid = None"
    and valid: "first_error requirement_error reqs = None"
    and fit: "first_error (fit_error i) (combinedRequirements reqs) = None"
  shows "Reserve rid op reqs i =
     (Inr \<lparr>rsv_ID = rid, rsv_Operation = op, rsv_requirements = reqs\<rparr>,
      i\<lparr>reserved := add_to (reserved i) (need reqs),
        reservations := (reservations i)(rid \<mapsto>
          \<lparr>rsv_ID = rid, rsv_Operation = op, rsv_requirements = reqs\<rparr>)\<rparr>)"
proof -
  note shape = inv_okD(1) [OF ok]
  have dom: "\<forall>q \<in> set reqs. req_Key q \<in> dom (balances i)"
    using fit_error_fits [OF fit] by (auto simp: fits_def)
  then have sub: "fst ` set (combinedRequirements reqs) \<subseteq> dom (reserved i)"
    using shape by (auto simp: inv_shape_def)
  have "NewReservation rid op reqs = Inr \<lparr>rsv_ID = rid, rsv_Operation = op, rsv_requirements = reqs\<rparr>"
    using dom valid by (intro NewReservation_known_keys [OF shape ids])
      (auto simp: first_error_None requirement_error_None)
  moreover have "delta_total (combinedRequirements reqs) = need reqs" by (rule ext) simp
  ultimately show ?thesis
    using ids new valid fit by (simp add: Reserve_def Let_def bump_all_dom [OF sub])
qed

lemma Reserve_cases:
  assumes ok: "inv_ok i" and run: "Reserve rid op reqs i = (res, i')"
  obtains (failed) e where "res = Inl e" "e \<noteq> NilDereference" "i' = i"
  | (again) r where "res = Inr r" "reservations i rid = Some r" "rsv_Operation r = op" "i' = i"
  | (opened) r where "res = Inr r" "r = \<lparr>rsv_ID = rid, rsv_Operation = op, rsv_requirements = reqs\<rparr>"
      "reservations i rid = None" "settled i rid = None" "reservation_ok i rid r \<or> \<not> reqs_wf reqs"
      "fits i reqs"
      "i' = i\<lparr>reserved := add_to (reserved i) (need reqs), reservations := (reservations i)(rid \<mapsto> r)\<rparr>"
proof (cases "rid = [] \<or> op = [] \<or> reqs = [] \<or> reservations i rid \<noteq> None \<or> settled i rid \<noteq> None
    \<or> first_error requirement_error reqs \<noteq> None
    \<or> first_error (fit_error i) (combinedRequirements reqs) \<noteq> None")
  case True
  then have "(\<exists>e. res = Inl e \<and> e \<noteq> NilDereference \<and> i' = i) \<or>
      (\<exists>r. res = Inr r \<and> reservations i rid = Some r \<and> rsv_Operation r = op \<and> i' = i)"
    using run requirement_error_nil [of reqs]
      fit_error_nil [OF inv_okD(1) [OF ok], of "combinedRequirements reqs"]
    by (auto simp: Reserve_def Let_def split: if_splits option.splits)
  then show ?thesis using failed again by blast
next
  case False
  let ?r = "\<lparr>rsv_ID = rid, rsv_Operation = op, rsv_requirements = reqs\<rparr>"
  from False have valid: "first_error requirement_error reqs = None"
    and fit: "first_error (fit_error i) (combinedRequirements reqs) = None" by auto
  note eq = Reserve_opens [OF ok _ _ _ _ _ valid fit]
  have f: "fits i reqs" by (rule fit_error_fits [OF fit])
  have "reservation_ok i rid ?r \<or> \<not> reqs_wf reqs"
    using False valid f inv_okD(1) [OF ok]
    by (fastforce simp: reservation_ok_def requirement_ok_def reqs_wf_def first_error_None
        requirement_error_None fits_def inv_shape_def)
  then show ?thesis using False run f by (intro opened [of ?r]) (simp_all add: eq)
qed

lemma reservation_keys:
  assumes "inv_ok i" and "reservations i rid = Some r"
  shows "req_Key ` set (rsv_requirements r) \<subseteq> dom (reserved i)"
  using inv_okD(6) [OF assms] inv_okD(1) [OF assms(1)]
  by (auto simp: reservation_ok_def requirement_ok_def inv_shape_def)

lemma release_deltas_bump:
  assumes "inv_ok i" and "reservations i rid = Some r"
  shows "bump_all (reserved i) (release_deltas r) =
    (add_to (reserved i) (\<lambda>k. - need (rsv_requirements r) k), True)"
proof -
  have "delta_total (release_deltas r) = (\<lambda>k. - need (rsv_requirements r) k)" by (rule ext) simp
  then show ?thesis using reservation_keys [OF assms] by (simp add: bump_all_dom)
qed

lemma Release_open:
  assumes "inv_ok i" and "reservations i rid = Some r"
  shows "Release rid i =
    (None, i\<lparr>reserved := add_to (reserved i) (\<lambda>k. - need (rsv_requirements r) k),
             reservations := (reservations i)(rid := None)\<rparr>)"
  using assms inv_okD(6) [OF assms]
  by (simp add: Release_def Let_def release_deltas_bump reservation_ok_def)

lemma Release_closed: "reservations i rid = None \<Longrightarrow> snd (Release rid i) = i"
  by (simp add: Release_def)

lemma combined_net_effect:
  assumes "negative_error i (combinedEffects es) = None" and "k \<in> eff_Key ` set es"
  shows "\<exists>b. balances i k = Some b \<and> 0 \<le> b + net_effect es k"
proof -
  from assms(2) have "k \<in> fst ` set (combinedEffects es)" by simp
  then obtain v where v: "(k, v) \<in> set (combinedEffects es)"
    by (auto simp del: keys_combinedEffects)
  then have "net_effect es k = v"
    using map_of_total [OF distinct_combinedEffects] by (fastforce dest: map_of_is_SomeI [rotated])
  then show ?thesis using assms(1) v
    by (fastforce simp: negative_error_def first_error_None split: option.splits if_splits)
qed

lemma net_effect_outside: "k \<notin> eff_Key ` set es \<Longrightarrow> net_effect es k = 0"
  using total_outside [of k "combinedEffects es"] by simp

lemma effects_bump:
  assumes "inv_ok i" and "negative_error i (combinedEffects es) = None"
  shows "bump_all (balances i) (combinedEffects es) = (add_to (balances i) (net_effect es), True)"
    and "map_nonneg (add_to (balances i) (net_effect es))"
proof -
  have "delta_total (combinedEffects es) = net_effect es" by (rule ext) simp
  moreover have "fst ` set (combinedEffects es) \<subseteq> dom (balances i)"
    using combined_net_effect [OF assms(2)] by auto
  ultimately show "bump_all (balances i) (combinedEffects es) = (add_to (balances i) (net_effect es), True)"
    by (simp add: bump_all_dom)
  have "0 \<le> v + net_effect es k" if "balances i k = Some v" for k v
    using that combined_net_effect [OF assms(2), of k] net_effect_outside [of k es] inv_okD(2) [OF assms(1)]
    by (cases "k \<in> eff_Key ` set es") (auto simp: map_nonneg_def)
  then show "map_nonneg (add_to (balances i) (net_effect es))"
    by (auto simp: map_nonneg_def add_to_apply)
qed

lemma ApplyEffects_cases:
  assumes "inv_ok i" and "ApplyEffects es i = (res, i')"
  obtains (failed) e where "res = Some e" "i' = i"
  | (applied) "res = None" "es \<noteq> []" "negative_error i (combinedEffects es) = None"
      "i' = i\<lparr>balances := add_to (balances i) (net_effect es)\<rparr>"
proof (cases "es = [] \<or> first_error (effect_error i) es \<noteq> None \<or> negative_error i (combinedEffects es) \<noteq> None")
  case True
  then have "\<exists>e. res = Some e \<and> i' = i"
    using assms(2)
    by (auto simp: ApplyEffects_def Let_def split: if_splits option.splits) (metis+)
  then show ?thesis using failed by blast
next
  case False
  then show ?thesis using assms applied
    by (simp add: ApplyEffects_def Let_def effects_bump)
qed

text \<open>A settlement that closes its reservation, as one equation.\<close>

lemma Settle_applies:
  assumes ok: "inv_ok i" and r: "reservations i rid = Some r" and ne: "es \<noteq> []"
    and fp: "effectFingerprint es = Inr fp" and eff: "first_error (effect_error i) es = None"
    and neg: "negative_error i (combinedEffects es) = None"
  shows "Settle rid es i =
    (None, i\<lparr>balances := add_to (balances i) (net_effect es),
             reserved := add_to (reserved i) (\<lambda>k. - need (rsv_requirements r) k),
             reservations := (reservations i)(rid := None),
             settled := (settled i)(rid \<mapsto> fp)\<rparr>)"
  using inv_okD(6) [OF ok r] ne
  by (simp add: Settle_def fp eff neg r Let_def effects_bump [OF ok neg] release_deltas_bump [OF ok r]
      reservation_ok_def)

lemma Settle_cases:
  assumes ok: "inv_ok i" and run: "Settle rid es i = (res, i')"
  obtains (failed) e where "res = Some e" "i' = i"
  | (replayed) fp where "res = None" "i' = i" "reservations i rid = None"
      "settled i rid = Some fp" "effectFingerprint es = Inr fp"
  | (closed) r fp where "res = None" "reservations i rid = Some r" "effectFingerprint es = Inr fp"
      "es \<noteq> []" "first_error (effect_error i) es = None" "negative_error i (combinedEffects es) = None"
      "i' = i\<lparr>balances := add_to (balances i) (net_effect es),
             reserved := add_to (reserved i) (\<lambda>k. - need (rsv_requirements r) k),
             reservations := (reservations i)(rid := None), settled := (settled i)(rid \<mapsto> fp)\<rparr>"
proof (cases "\<exists>r fp. es \<noteq> [] \<and> reservations i rid = Some r \<and> effectFingerprint es = Inr fp \<and>
    first_error (effect_error i) es = None \<and> negative_error i (combinedEffects es) = None")
  case True
  then obtain r fp where c: "es \<noteq> []" "reservations i rid = Some r" "effectFingerprint es = Inr fp"
    "first_error (effect_error i) es = None" "negative_error i (combinedEffects es) = None" by blast
  from Settle_applies [OF ok c(2,1,3-5)] run have "res = None"
    "i' = i\<lparr>balances := add_to (balances i) (net_effect es),
             reserved := add_to (reserved i) (\<lambda>k. - need (rsv_requirements r) k),
             reservations := (reservations i)(rid := None), settled := (settled i)(rid \<mapsto> fp)\<rparr>" by auto
  then show ?thesis using c by (intro closed)
next
  case False
  then have "(\<exists>e. res = Some e \<and> i' = i) \<or> (\<exists>fp. res = None \<and> i' = i \<and> reservations i rid = None \<and>
      settled i rid = Some fp \<and> effectFingerprint es = Inr fp)"
    using run by (auto simp: Settle_def Let_def split: if_splits option.splits sum.splits) (metis+)
  then show ?thesis using failed replayed by blast
qed

lemma adjust_keys:
  assumes "first_error (adjust_error i old) (combinedRequirements reqs) = None" and "q \<in> set reqs"
  shows "\<exists>b a h. balances i (req_Key q) = Some b \<and> effectiveAvailableLocked i (req_Key q) b = Some a \<and>
    map_of old (req_Key q) = Some h \<and> need reqs (req_Key q) \<le> a + h"
  using combined_need [of reqs "\<lambda>x. adjust_error i old x = None", OF _ assms(2)] assms(1)
  by (auto simp: first_error_None adjust_error_def split: option.splits if_splits)

lemma Adjust_applies:
  assumes ok: "inv_ok i" and c: "reservations i rid = Some c"
    and new: "NewReservation rid (rsv_Operation c) reqs = Inr r"
    and fit: "first_error (adjust_error i (combinedRequirements (rsv_requirements c))) (combinedRequirements reqs) = None"
  shows "AdjustReservation rid reqs i =
    (Inr r, i\<lparr>reserved := add_to (reserved i) (\<lambda>k. need reqs k - need (rsv_requirements c) k),
              reservations := (reservations i)(rid \<mapsto> r)\<rparr>)"
proof -
  let ?old = "combinedRequirements (rsv_requirements c)"
  have oldk: "fst ` set (map (\<lambda>(k, a). (k, - a)) ?old) \<subseteq> dom (reserved i)"
  proof -
    have "fst ` set (map (\<lambda>(k, a). (k, - a)) xs) = fst ` set xs" for xs :: "(Key \<times> int) list" by force
    then show ?thesis using reservation_keys [OF ok c] by simp
  qed
  have "req_Key q \<in> dom (balances i)" if "q \<in> set reqs" for q
    using adjust_keys [OF fit that] by auto
  then have newk: "fst ` set (combinedRequirements reqs) \<subseteq> dom (add_to (reserved i) f)" for f
    using inv_okD(1) [OF ok] by (auto simp: inv_shape_def)
  have "add_to (add_to (reserved i) (delta_total (map (\<lambda>(k, a). (k, - a)) ?old))) (delta_total (combinedRequirements reqs))
      = add_to (reserved i) (\<lambda>k. need reqs k - need (rsv_requirements c) k)"
  proof
    fix k
    show "add_to (add_to (reserved i) (delta_total (map (\<lambda>(k, a). (k, - a)) ?old))) (delta_total (combinedRequirements reqs)) k
      = add_to (reserved i) (\<lambda>k. need reqs k - need (rsv_requirements c) k) k"
      by (cases "reserved i k") (simp_all add: add_to_def total_map_neg)
  qed
  moreover have "rid \<noteq> []" "reqs \<noteq> []" using new by (auto simp: NewReservation_Inr)
  ultimately show ?thesis
    by (simp add: AdjustReservation_def c new Let_def fit bump_all_dom [OF oldk] bump_all_dom [OF newk])
qed

lemma Adjust_cases:
  assumes ok: "inv_ok i" and run: "AdjustReservation rid reqs i = (res, i')"
  obtains (failed) e where "res = Inl e" "i' = i"
  | (adjusted) c r where "res = Inr r" "reservations i rid = Some c"
      "NewReservation rid (rsv_Operation c) reqs = Inr r"
      "first_error (adjust_error i (combinedRequirements (rsv_requirements c))) (combinedRequirements reqs) = None"
      "i' = i\<lparr>reserved := add_to (reserved i) (\<lambda>k. need reqs k - need (rsv_requirements c) k),
              reservations := (reservations i)(rid \<mapsto> r)\<rparr>"
proof (cases "\<exists>c r. reservations i rid = Some c \<and> NewReservation rid (rsv_Operation c) reqs = Inr r \<and>
    first_error (adjust_error i (combinedRequirements (rsv_requirements c))) (combinedRequirements reqs) = None")
  case True
  then obtain c r where c: "reservations i rid = Some c" "NewReservation rid (rsv_Operation c) reqs = Inr r"
    "first_error (adjust_error i (combinedRequirements (rsv_requirements c))) (combinedRequirements reqs) = None"
    by blast
  from Adjust_applies [OF ok c] run have "res = Inr r"
    "i' = i\<lparr>reserved := add_to (reserved i) (\<lambda>k. need reqs k - need (rsv_requirements c) k),
            reservations := (reservations i)(rid \<mapsto> r)\<rparr>" by auto
  then show ?thesis using c by (intro adjusted)
next
  case False
  then have "\<exists>e. res = Inl e \<and> i' = i"
    using run by (auto simp: AdjustReservation_def Let_def split: if_splits option.splits sum.splits) (metis+)
  then show ?thesis using failed by blast
qed

section \<open>Preservation of the invariant\<close>

lemma Reserve_inv_ok:
  assumes "inv_ok i" and "reqs_wf reqs" and "Reserve rid op reqs i = (res, i')"
  shows "inv_ok i'"
  using assms(1,3)
proof (cases rule: Reserve_cases)
  case (opened r)
  note inv = inv_okD [OF assms(1)]
  show ?thesis
  proof (rule inv_ok_update [OF assms(1), where f = "need reqs"])
    show "reservation_ok i rid' r'" if "reservations i' rid' = Some r'" for rid' r'
      using that opened inv(6) assms(2) by (auto split: if_splits)
    show "held_of (reservations i') k = held_of (reservations i) k + need reqs k" for k
      using opened inv(9) by (simp add: held_of_insert)
  qed (use opened inv in auto)
qed (use assms in auto)

lemma Release_inv_ok:
  assumes "inv_ok i" and "Release rid i = (res, i')"
  shows "inv_ok i'"
proof (cases "reservations i rid")
  case None
  then show ?thesis using assms Release_closed [OF None] by simp
next
  case (Some r)
  note inv = inv_okD [OF assms(1)]
  have i': "i' = i\<lparr>reserved := add_to (reserved i) (\<lambda>k. - need (rsv_requirements r) k),
             reservations := (reservations i)(rid := None)\<rparr>"
    using Release_open [OF assms(1) Some] assms(2) by simp
  show ?thesis
  proof (rule inv_ok_update [OF assms(1), where f = "\<lambda>k. - need (rsv_requirements r) k"])
    show "held_of (reservations i') k = held_of (reservations i) k + - need (rsv_requirements r) k" for k
      using held_of_delete [OF inv(9) Some, of k] by (simp add: i')
  qed (use inv in \<open>auto simp: i' split: if_splits\<close>)
qed

lemma Settle_inv_ok:
  assumes "inv_ok i" and "Settle rid es i = (res, i')"
  shows "inv_ok i'"
  using assms
proof (cases rule: Settle_cases)
  case (closed r fp)
  note inv = inv_okD [OF assms(1)]
  show ?thesis
  proof (rule inv_ok_update [OF assms(1), where f = "\<lambda>k. - need (rsv_requirements r) k"])
    show "held_of (reservations i') k = held_of (reservations i) k + - need (rsv_requirements r) k" for k
      using closed inv(9) by (simp add: held_of_delete)
    show "map_nonneg (balances i')"
      using effects_bump(2) [OF assms(1) closed(6)] by (simp add: closed(7))
  qed (use closed inv in \<open>auto split: if_splits\<close>)
qed (use assms in auto)

lemma add_to_zero: "add_to m (\<lambda>k. 0) = m"
  by (simp add: add_to_def option.map_ident)

lemma ApplyEffects_inv_ok:
  assumes "inv_ok i" and "ApplyEffects es i = (res, i')"
  shows "inv_ok i'"
  using assms
proof (cases rule: ApplyEffects_cases)
  case applied
  note inv = inv_okD [OF assms(1)]
  show ?thesis
  proof (rule inv_ok_update [OF assms(1), where f = "\<lambda>k. 0"])
    show "map_nonneg (balances i')"
      using effects_bump(2) [OF assms(1) applied(3)] by (simp add: applied(4))
  qed (use applied inv in \<open>auto simp: add_to_zero\<close>)
qed (use assms in auto)

lemma map_nonneg_update: "map_nonneg m \<Longrightarrow> 0 \<le> v \<Longrightarrow> map_nonneg (m(k \<mapsto> v))"
  by (auto simp: map_nonneg_def)

lemma Observe_inv_ok:
  assumes "inv_ok i" and "0 \<le> amt_units a" and "ObserveWalletBalance k a i = (res, i')"
  shows "inv_ok i'"
proof (cases "i' = i")
  case False
  then have i': "i' = i\<lparr>balances := (balances i)(k \<mapsto> amt_units a)\<rparr>" "k \<in> dom (balances i)"
    using assms(3) by (auto simp: ObserveWalletBalance_def split: if_splits)
  note inv = inv_okD [OF assms(1)]
  show ?thesis
    by (rule inv_ok_update [OF assms(1), where f = "\<lambda>k. 0"])
      (use i' inv assms(2) in \<open>auto simp: add_to_zero map_nonneg_update\<close>)
qed (use assms in simp)

lemma SetInFlightOut_inv_ok:
  assumes "inv_ok i" and "0 \<le> amt_units a" and "SetInFlightOut k a i = (res, i')"
  shows "inv_ok i'"
proof (cases "i' = i")
  case False
  then have i': "i' = i\<lparr>inFlightOut := (inFlightOut i)(k \<mapsto> amt_units a)\<rparr>" "k \<in> dom (balances i)"
    using assms(3) by (auto simp: SetInFlightOut_def split: if_splits)
  note inv = inv_okD [OF assms(1)]
  show ?thesis
    by (rule inv_ok_update [OF assms(1), where f = "\<lambda>k. 0"])
      (use i' inv assms(2) in \<open>auto simp: add_to_zero map_nonneg_update inv_shape_def\<close>)
qed (use assms in simp)

lemma Adjust_inv_ok:
  assumes "inv_ok i" and "reqs_wf reqs" and "AdjustReservation rid reqs i = (res, i')"
  shows "inv_ok i'"
  using assms(1,3)
proof (cases rule: Adjust_cases)
  case (adjusted c r)
  note inv = inv_okD [OF assms(1)]
  have rq: "rsv_requirements r = reqs" "reservation_ok i rid r"
    using adjusted(3) adjust_keys [OF adjusted(4)] assms(2)
    by (fastforce simp: NewReservation_Inr reservation_ok_def requirement_ok_def reqs_wf_def)+
  show ?thesis
  proof (rule inv_ok_update [OF assms(1), where f = "\<lambda>k. need reqs k - need (rsv_requirements c) k"])
    show "held_of (reservations i') k = held_of (reservations i) k + (need reqs k - need (rsv_requirements c) k)" for k
      using adjusted inv(9) rq(1) by (simp add: held_of_replace)
    show "dom (reservations i') \<inter> dom (settled i') = {}" using adjusted inv(7) by auto
    show "reservation_ok i rid' r'" if "reservations i' rid' = Some r'" for rid' r'
      using that adjusted inv(6) rq(2) by (auto split: if_splits)
  qed (use adjusted inv in auto)
qed (use assms in auto)

lemma install_policy_inv_ok:
  assumes "inv_ok i \<and> reservations i = Map.empty" and "policies_wf ps" and "x \<in> set ps"
    and "install_policy i x = Inr i'"
  shows "inv_ok i' \<and> reservations i' = Map.empty"
proof -
  obtain k p where x: "x = (k, p)" by fastforce
  note inv = inv_okD [OF conjunct1 [OF assms(1)]]
  have none: "reservations i = Map.empty" using assms(1) by simp
  have wf: "0 \<le> amt_units (pol_WalletBalance p)" "0 \<le> amt_units (pol_AllocationCap p)"
    "0 \<le> amt_units (pol_Buffer p)" "0 \<le> amt_units (pol_InFlightOut p)"
    using assms(2,3) by (auto simp: x policies_wf_def)
  have kc: "key_complete k" and i': "i' = i\<lparr>
       balances := (balances i)(k \<mapsto> amt_units (pol_WalletBalance p)),
       allocationCaps := (allocationCaps i)(k \<mapsto> amt_units (pol_AllocationCap p)),
       targets := (targets i)(k \<mapsto> amt_units (pol_Target p)),
       buffers := (buffers i)(k \<mapsto> amt_units (pol_Buffer p)),
       inFlightOut := (inFlightOut i)(k \<mapsto> amt_units (pol_InFlightOut p)),
       reserved := (reserved i)(k \<mapsto> 0)\<rparr>"
    using assms(4) by (auto simp: x install_policy_def policy_rejected_def split: if_splits)
  have "inv_shape i'" using inv(1) kc none by (simp add: i' inv_shape_def)
  moreover have "reserved i' k' = Some v \<Longrightarrow> v = held i' k'" for k' v
    using inv(8) none by (auto simp: i' held_def held_of_def split: if_splits)
  ultimately show ?thesis
    using inv(2-5) wf none by (simp add: inv_ok_def i' map_nonneg_update)
qed

lemma NewWithPolicies_inv_ok:
  assumes "policies_wf ps" and "NewWithPolicies ps = Inr i"
  shows "inv_ok i"
proof -
  have "inv_ok i \<and> reservations i = Map.empty"
  proof (rule foldM_invariant [where P = "\<lambda>i. inv_ok i \<and> reservations i = Map.empty"])
    show "foldM install_policy empty_inventory ps = Inr i" using assms(2) by (simp add: NewWithPolicies_def)
    show "inv_ok empty_inventory \<and> reservations empty_inventory = Map.empty"
      by (simp add: empty_inventory_def inv_ok_def inv_shape_def map_nonneg_def)
  qed (rule install_policy_inv_ok [OF _ assms(1)])
  then show ?thesis ..
qed

lemma inv_step_ok: "inv_step i i' \<Longrightarrow> inv_ok i \<Longrightarrow> inv_ok i'"
  by (induction rule: inv_step.induct)
    (blast intro: Reserve_inv_ok Release_inv_ok Observe_inv_ok ApplyEffects_inv_ok
      SetInFlightOut_inv_ok Adjust_inv_ok Settle_inv_ok)+

lemma reachable_inv_ok: "inv_reachable i \<Longrightarrow> inv_ok i"
  by (induction rule: inv_reachable.induct) (blast intro: NewWithPolicies_inv_ok inv_step_ok)+

lemma held_nonneg:
  assumes "inv_ok i"
  shows "0 \<le> held i k"
  unfolding held_def held_of_def
proof (rule sum_nonneg)
  fix rid
  assume "rid \<in> dom (reservations i)"
  then obtain r where r: "reservations i rid = Some r" by auto
  then have "reqs_wf (rsv_requirements r)"
    using inv_okD(6) [OF assms r] by (auto simp: reservation_ok_def requirement_ok_def reqs_wf_def less_imp_le)
  then show "0 \<le> need (rsv_requirements (the (reservations i rid))) k" by (simp add: r need_nonneg)
qed

text \<open>The spendable amount, as the policy states it.\<close>

definition spendable :: "Inventory \<Rightarrow> Key \<Rightarrow> int" where
  "spendable i k = min (the (balances i k)) (the (allocationCaps i k)) - the (buffers i k) - the (inFlightOut i k)"

lemma effective_spendable:
  assumes ok: "inv_ok i" and k: "balances i k = Some b"
  shows "effectiveAvailableLocked i k b = Some (max 0 (spendable i k - held i k))"
proof -
  from k have "k \<in> dom (balances i)" by auto
  then have "k \<in> dom (allocationCaps i) \<and> k \<in> dom (buffers i) \<and> k \<in> dom (inFlightOut i) \<and> k \<in> dom (reserved i)"
    using inv_okD(1) [OF ok] by (simp add: inv_shape_def)
  then obtain c f g r where v: "allocationCaps i k = Some c" "buffers i k = Some f"
    "inFlightOut i k = Some g" "reserved i k = Some r" by (auto simp: dom_def)
  have "r = held i k" by (rule inv_okD(8) [OF ok v(4)])
  then show ?thesis using v k by (auto simp: effectiveAvailableLocked_def Let_def spendable_def min_def max_def)
qed

subsection \<open>Fingerprints of effects\<close>

text \<open>Identifiers that contain neither of the two separators of the fingerprint.\<close>

definition separator_free :: "Effect \<Rightarrow> bool" where
  "separator_free e \<longleftrightarrow>
     (\<forall>s \<in> {key_Chain (eff_Key e), key_Account (eff_Key e), key_Token (eff_Key e)}.
        CHR ''/'' \<notin> set s \<and> CHR ''|'' \<notin> set s)"

lemma fingerprint_Inr:
  "effectFingerprint es = Inr fp \<longleftrightarrow>
     (\<forall>e \<in> set es. key_complete (eff_Key e) \<and> eff_Delta e \<noteq> None) \<and>
     fp = join_strings ''|'' (sort (map effect_part es))"
  by (auto simp: effectFingerprint_def check_eq_Inr first_error_None)

lemma effect_part_inject:
  assumes "separator_free d" "separator_free e" "eff_Delta d \<noteq> None" "eff_Delta e \<noteq> None"
    and "effect_part d = effect_part e"
  shows "d = e"
proof -
  have "[key_Chain (eff_Key d), key_Account (eff_Key d), key_Token (eff_Key d), int_string (the (eff_Delta d))]
      = [key_Chain (eff_Key e), key_Account (eff_Key e), key_Token (eff_Key e), int_string (the (eff_Delta e))]"
    using assms(1,2,5) int_string_no_separator(1)
    by (intro join_strings_inject [where c = "CHR ''/''"]) (auto simp: effect_part_def separator_free_def)
  then show ?thesis using assms(3,4)
    by (cases d; cases e; cases "eff_Key d"; cases "eff_Key e") (auto simp: int_string_inject)
qed

lemma effect_part_no_bar: "separator_free e \<Longrightarrow> CHR ''|'' \<notin> set (effect_part e)"
  using int_string_no_separator(2) by (auto simp: effect_part_def separator_free_def)

lemma mset_map_inj:
  assumes "image_mset f A = image_mset f B" and "inj_on f (set_mset A \<union> set_mset B)"
  shows "A = B"
  using assms(1)
proof (rule multiset.inj_map_strong [rotated])
  fix z za assume "z \<in># A" "za \<in># B" "f z = f za"
  then show "z = za" using assms(2) by (auto dest: inj_onD)
qed
lemma fingerprint_eq_iff:
  assumes "effectFingerprint ds = Inr fd" and "effectFingerprint es = Inr fe"
    and "\<forall>e \<in> set ds \<union> set es. separator_free e" and "ds \<noteq> []" "es \<noteq> []"
  shows "fd = fe \<longleftrightarrow> mset ds = mset es"
proof
  assume "mset ds = mset es"
  then have "mset (map effect_part ds) = mset (map effect_part es)" by simp
  then have "sort (map effect_part ds) = sort (map effect_part es)"
    by (metis mset_sort properties_for_sort sorted_sort)
  then show "fd = fe" using assms(1,2) by (simp add: fingerprint_Inr)
next
  assume "fd = fe"
  then have "join_strings ''|'' (sort (map effect_part ds)) = join_strings ''|'' (sort (map effect_part es))"
    using assms(1,2) by (simp add: fingerprint_Inr)
  moreover have "sort (map effect_part xs) \<noteq> []" if "xs \<noteq> []" for xs
    using that by (metis length_0_conv length_map length_sort)
  moreover have "\<forall>x \<in> set (sort (map effect_part ds)) \<union> set (sort (map effect_part es)). CHR ''|'' \<notin> set x"
    using assms(3) effect_part_no_bar by auto
  ultimately have "sort (map effect_part ds) = sort (map effect_part es)"
    using assms(4,5) by (intro join_strings_inject [where c = "CHR ''|''"]) simp_all
  then have "image_mset effect_part (mset ds) = image_mset effect_part (mset es)"
    by (metis mset_map mset_sort)
  moreover have "inj_on effect_part (set_mset (mset ds) \<union> set_mset (mset es))"
    using assms(1-3) by (auto intro!: inj_onI effect_part_inject simp: fingerprint_Inr)
  ultimately show "mset ds = mset es" by (rule mset_map_inj)
qed

section \<open>Properties\<close>

text \<open>A one-token inventory of 1000 units, cap 800, buffer 100, used in the examples.\<close>

definition sample_key :: Key where
  "sample_key = \<lparr>key_Chain = ''c'', key_Account = ''a'', key_Token = ''t''\<rparr>"

definition sample_amount :: "int \<Rightarrow> TokenAmount" where
  "sample_amount u = \<lparr>amt_token = ''t'', amt_units = u\<rparr>"

definition sample_policies :: "(Key \<times> BalancePolicy) list" where
  "sample_policies = [(sample_key,
     \<lparr>pol_WalletBalance = sample_amount 1000, pol_AllocationCap = sample_amount 800,
      pol_Target = sample_amount 500, pol_Buffer = sample_amount 100, pol_InFlightOut = sample_amount 0\<rparr>)]"

definition sample_inventory :: Inventory where
  "sample_inventory = \<lparr>balances = [sample_key \<mapsto> 1000], allocationCaps = [sample_key \<mapsto> 800],
     targets = [sample_key \<mapsto> 500], buffers = [sample_key \<mapsto> 100], inFlightOut = [sample_key \<mapsto> 0],
     reserved = [sample_key \<mapsto> 0], reservations = Map.empty, settled = Map.empty\<rparr>"

definition sample_requirement :: "int \<Rightarrow> Requirement" where
  "sample_requirement u = \<lparr>req_Key = sample_key, req_Amount = sample_amount u\<rparr>"

lemmas sample_defs = sample_key_def sample_amount_def sample_policies_def sample_inventory_def
  sample_requirement_def

lemmas inv_eval = Reserve_def AdjustReservation_def requirement_error_def AmountIsZero_def fit_error_def
  adjust_error_def Let_def combinedRequirements_def effectiveAvailableLocked_def NewReservation_def
  key_complete_def

lemma sample_reachable: "inv_reachable sample_inventory"
proof (rule reach_new)
  show "policies_wf sample_policies" by (simp add: sample_defs policies_wf_def)
  show "NewWithPolicies sample_policies = Inr sample_inventory"
    by (simp add: sample_defs NewWithPolicies_def install_policy_def policy_rejected_def
        key_complete_def empty_inventory_def)
qed

lemma sample_reserve:
  assumes "0 < u" "u \<le> 700"
  shows "Reserve ''r'' ''o'' [sample_requirement u] sample_inventory =
    (Inr \<lparr>rsv_ID = ''r'', rsv_Operation = ''o'', rsv_requirements = [sample_requirement u]\<rparr>,
     sample_inventory\<lparr>reserved := [sample_key \<mapsto> u],
       reservations := [''r'' \<mapsto>
         \<lparr>rsv_ID = ''r'', rsv_Operation = ''o'', rsv_requirements = [sample_requirement u]\<rparr>]\<rparr>)"
  using assms
  by (simp add: sample_defs inv_eval)

text \<open>
  C3: In every inventory that the exported methods can produce, the reserved counter of a
  key is exactly what the open reservations hold of it, no balance and no counter is
  negative, and no reservation is both open and settled.
\<close>

theorem inventory_reachable_invariant:
  assumes "inv_reachable i"
  shows "(\<forall>k v. reserved i k = Some v \<longrightarrow> v = held i k \<and> 0 \<le> v) \<and>
     (\<forall>k v. balances i k = Some v \<longrightarrow> 0 \<le> v) \<and>
     (\<forall>rid r. reservations i rid = Some r \<longrightarrow> reservation_ok i rid r \<and> settled i rid = None)"
  using reachable_inv_ok [OF assms] held_nonneg [OF reachable_inv_ok [OF assms]]
  unfolding inv_ok_def map_nonneg_def by (auto 0 3 simp: disjoint_iff domIff)

theorem inventory_reachable_invariant_witness:
  "inv_reachable sample_inventory \<and> reserved sample_inventory sample_key = Some 0 \<and>
   held sample_inventory sample_key = 0"
proof -
  have "reserved sample_inventory sample_key = Some 0" by (simp add: sample_inventory_def)
  then have "0 = held sample_inventory sample_key"
    using inventory_reachable_invariant [OF sample_reachable] by blast
  then show ?thesis using sample_reachable \<open>reserved sample_inventory sample_key = Some 0\<close> by simp
qed

text \<open>
  C1: A reservation is only granted within the policy: once it is open, all open
  reservations of each of its keys together fit in the capped wallet balance less the
  buffer and the in-flight amount, so that two operations never share the same units.
\<close>

theorem reserve_no_overcommit:
  assumes "inv_reachable i" and "reqs_wf reqs" and "reservations i rid = None"
    and "Reserve rid op reqs i = (Inr r, i')" and "q \<in> set reqs"
  shows "held i' (req_Key q) \<le> spendable i' (req_Key q)"
proof -
  note ok = reachable_inv_ok [OF assms(1)]
  from ok assms(4) show ?thesis
  proof (cases rule: Reserve_cases)
    case (opened r')
    from opened(6) assms(5) obtain b a where k: "balances i (req_Key q) = Some b"
      "effectiveAvailableLocked i (req_Key q) b = Some a" "need reqs (req_Key q) \<le> a"
      by (auto simp: fits_def)
    have a: "a = max 0 (spendable i (req_Key q) - held i (req_Key q))"
      using effective_spendable [OF ok k(1)] k(2) by simp
    have "0 < need reqs (req_Key q)"
    proof -
      have "0 < amt_units (req_Amount q)"
        using opened(2,5) assms(2,5) by (auto simp: reservation_ok_def requirement_ok_def)
      moreover have "(if req_Key q = req_Key q then amt_units (req_Amount q) else 0) \<le> need reqs (req_Key q)"
        unfolding need_def using assms(2,5) by (intro sum_by_member_le) (auto simp: reqs_wf_def)
      ultimately show ?thesis by simp
    qed
    then have "held i (req_Key q) + need reqs (req_Key q) \<le> spendable i (req_Key q)" using k(3) a by simp
    moreover have "held i' (req_Key q) = held i (req_Key q) + need reqs (req_Key q)"
      using opened inv_okD(9) [OF ok] by (simp add: held_def held_of_insert)
    moreover have "spendable i' (req_Key q) = spendable i (req_Key q)" using opened by (simp add: spendable_def)
    ultimately show ?thesis by simp
  qed (use assms(3) in auto)
qed

theorem reserve_no_overcommit_witness:
  "held (snd (Reserve ''r'' ''o'' [sample_requirement 700] sample_inventory)) sample_key \<le>
   spendable (snd (Reserve ''r'' ''o'' [sample_requirement 700] sample_inventory)) sample_key \<and>
   spendable sample_inventory sample_key = 700"
  using reserve_no_overcommit [OF sample_reachable, of "[sample_requirement 700]" "''r''" "''o''" _ _ "sample_requirement 700"]
    sample_reserve [of 700]
  by (simp add: sample_defs reqs_wf_def spendable_def)

text \<open>
  A refused reservation changes nothing: on every reachable inventory the state after
  an error is the state before it, and the nil-pointer and late-validation exits of the
  method are never taken.
\<close>

lemma reserve_refused_unchanged:
  assumes "inv_reachable i" and "Reserve rid op reqs i = (Inl e, i')"
  shows "i' = i \<and> e \<noteq> NilDereference"
  using reachable_inv_ok [OF assms(1)] assms(2) by (cases rule: Reserve_cases) auto

lemma reserve_refused_unchanged_example:
  "Reserve ''r'' ''o'' [sample_requirement 701] sample_inventory =
     (Inl (InsufficientInventory sample_key), sample_inventory)"
proof -
  obtain i' where run: "Reserve ''r'' ''o'' [sample_requirement 701] sample_inventory =
      (Inl (InsufficientInventory sample_key), i')"
    by (simp add: sample_defs inv_eval)
  from reserve_refused_unchanged [OF sample_reachable run] show ?thesis using run by simp
qed

text \<open>
  Releasing a reservation that was just opened restores the previous inventory
  exactly, every counter included.
\<close>

lemma reserve_release_restores:
  assumes "inv_reachable i" and "reqs_wf reqs" and "reservations i rid = None"
    and "Reserve rid op reqs i = (Inr r, i')"
  shows "Release rid i' = (None, i)"
proof -
  note ok = reachable_inv_ok [OF assms(1)]
  have ok': "inv_ok i'" by (rule Reserve_inv_ok [OF ok assms(2,4)])
  from ok assms(4) show ?thesis
  proof (cases rule: Reserve_cases)
    case (opened r')
    then have "reservations i' rid = Some r" by simp
    from Release_open [OF ok' this] opened(1,2,7) have "Release rid i' =
       (None, i\<lparr>reserved := add_to (add_to (reserved i) (need reqs)) (\<lambda>k. - need reqs k),
                reservations := (reservations i)(rid := None)\<rparr>)" by simp
    moreover have "add_to (add_to (reserved i) (need reqs)) (\<lambda>k. - need reqs k) = reserved i"
    proof
      fix k
      show "add_to (add_to (reserved i) (need reqs)) (\<lambda>k. - need reqs k) k = reserved i k"
        by (cases "reserved i k") (simp_all add: add_to_def)
    qed
    moreover have "(reservations i)(rid := None) = reservations i" using opened(3) by (simp add: fun_upd_idem)
    ultimately show ?thesis by simp
  qed (use assms(3) in auto)
qed

lemma reserve_release_restores_example:
  "Release ''r'' (snd (Reserve ''r'' ''o'' [sample_requirement 5] sample_inventory)) = (None, sample_inventory)"
  using reserve_release_restores [OF sample_reachable _ _ sample_reserve [of 5]] sample_reserve [of 5]
  by (simp add: sample_defs reqs_wf_def)

text \<open>
  C7: A settlement that closes its reservation moves every balance by exactly the net
  effect demonstrated for it, gives back exactly what the reservation held, and leaves
  all other reservations, policies and in-flight amounts alone.
\<close>

theorem settle_exact:
  assumes "inv_reachable i" and "reservations i rid = Some r" and "Settle rid es i = (None, i')"
  shows "balances i' k = map_option (\<lambda>b. b + net_effect es k) (balances i k) \<and>
    held i' k = held i k - need (rsv_requirements r) k \<and>
    reservations i' = (reservations i)(rid := None) \<and>
    allocationCaps i' = allocationCaps i \<and> buffers i' = buffers i \<and> inFlightOut i' = inFlightOut i"
proof -
  note ok = reachable_inv_ok [OF assms(1)]
  from ok assms(3) have "\<exists>fp. i' = i\<lparr>balances := add_to (balances i) (net_effect es),
             reserved := add_to (reserved i) (\<lambda>k. - need (rsv_requirements r) k),
             reservations := (reservations i)(rid := None), settled := (settled i)(rid \<mapsto> fp)\<rparr>"
    by (cases rule: Settle_cases) (use assms(2) in auto)
  then show ?thesis
    using held_of_delete [OF inv_okD(9) [OF ok] assms(2), of k] by (auto simp: add_to_apply held_def)
qed

definition sample_reserved :: Inventory where
  "sample_reserved = snd (Reserve ''r'' ''o'' [sample_requirement 5] sample_inventory)"

definition sample_effects :: "Effect list" where
  "sample_effects = [\<lparr>eff_Key = sample_key, eff_Delta = Some (- 5)\<rparr>, \<lparr>eff_Key = sample_key, eff_Delta = Some 7\<rparr>]"

lemma sample_reserved_reachable: "inv_reachable sample_reserved"
proof (rule reach_step [OF sample_reachable step_reserve])
  show "reqs_wf [sample_requirement 5]" by (simp add: sample_defs reqs_wf_def)
  show "Reserve ''r'' ''o'' [sample_requirement 5] sample_inventory =
      (fst (Reserve ''r'' ''o'' [sample_requirement 5] sample_inventory), sample_reserved)"
    by (simp add: sample_reserved_def)
qed

lemma sample_reserved_eq:
  "reservations sample_reserved = [''r'' \<mapsto>
     \<lparr>rsv_ID = ''r'', rsv_Operation = ''o'', rsv_requirements = [sample_requirement 5]\<rparr>]"
  "balances sample_reserved = [sample_key \<mapsto> 1000]"
  using sample_reserve [of 5] by (simp_all add: sample_reserved_def sample_inventory_def)

lemma sample_fingerprint: "\<exists>fp. effectFingerprint sample_effects = Inr fp"
  by (simp add: fingerprint_Inr sample_effects_def sample_key_def key_complete_def)

lemma sample_settle: "\<exists>i'. Settle ''r'' sample_effects sample_reserved = (None, i')"
proof -
  obtain fp where fp: "effectFingerprint sample_effects = Inr fp" using sample_fingerprint by blast
  note S = Settle_applies [OF reachable_inv_ok [OF sample_reserved_reachable], of "''r''"]
  show ?thesis
    by (intro exI, rule S [OF _ _ fp])
      (simp_all add: sample_reserved_eq sample_effects_def effect_error_def key_complete_def sample_key_def
        negative_error_def combinedEffects_def)
qed

theorem settle_exact_witness:
  "balances (snd (Settle ''r'' sample_effects sample_reserved)) sample_key = Some 1002"
proof -
  obtain i' where run: "Settle ''r'' sample_effects sample_reserved = (None, i')" using sample_settle by blast
  have "reservations sample_reserved ''r'' = Some
      \<lparr>rsv_ID = ''r'', rsv_Operation = ''o'', rsv_requirements = [sample_requirement 5]\<rparr>"
    by (simp add: sample_reserved_eq)
  from settle_exact [OF sample_reserved_reachable this run, of sample_key] run show ?thesis
    by (simp add: sample_reserved_eq net_effect_def sample_effects_def)
qed

lemma Settle_closed_replay:
  assumes "reservations i rid = None" and "settled i rid = Some fp" and "rid \<noteq> []" and "es \<noteq> []"
    and "effectFingerprint es = Inr fe"
  shows "Settle rid es i = (if fe = fp then None else Some SettledWithDifferentEffects, i)"
  using assms by (simp add: Settle_def)

text \<open>
  C6: Settling is idempotent and tamper-evident. Once a reservation is settled, a second
  settlement never changes the inventory, and it is accepted exactly when its effects are
  the settled ones in some order (for identifiers without the separators of the
  fingerprint, \<open>/\<close> and \<open>|\<close>).
\<close>

theorem settle_replay:
  assumes "inv_reachable i" and "reservations i rid = Some r" and "Settle rid es i = (None, i')"
    and "es' \<noteq> []" and "effectFingerprint es' = Inr fp'"
    and "\<forall>e \<in> set es \<union> set es'. separator_free e"
  shows "Settle rid es' i' = (if mset es' = mset es then None else Some SettledWithDifferentEffects, i')"
proof -
  note ok = reachable_inv_ok [OF assms(1)]
  from ok assms(3) show ?thesis
  proof (cases rule: Settle_cases)
    case (closed r' fp)
    have "rid \<noteq> []" using inv_okD(6) [OF ok assms(2)] by (simp add: reservation_ok_def)
    moreover have "fp' = fp \<longleftrightarrow> mset es' = mset es"
      using fingerprint_eq_iff [OF assms(5) closed(3)] assms(4,6) closed(4) by blast
    ultimately show ?thesis
      using Settle_closed_replay [of i' rid fp es' fp'] closed(7) assms(4,5) by simp
  qed (use assms(2) in auto)
qed

theorem settle_replay_witness:
  "Settle ''r'' (rev sample_effects) (snd (Settle ''r'' sample_effects sample_reserved)) =
     (None, snd (Settle ''r'' sample_effects sample_reserved)) \<and>
   Settle ''r'' [hd sample_effects] (snd (Settle ''r'' sample_effects sample_reserved)) =
     (Some SettledWithDifferentEffects, snd (Settle ''r'' sample_effects sample_reserved))"
proof -
  obtain i' where run: "Settle ''r'' sample_effects sample_reserved = (None, i')" using sample_settle by blast
  have res: "reservations sample_reserved ''r'' = Some
      \<lparr>rsv_ID = ''r'', rsv_Operation = ''o'', rsv_requirements = [sample_requirement 5]\<rparr>"
    by (simp add: sample_reserved_eq)
  note replay = settle_replay [OF sample_reserved_reachable res run]
  show ?thesis
    using replay [of "rev sample_effects"] replay [of "[hd sample_effects]"] run
    by (simp add: fingerprint_Inr separator_free_def sample_effects_def sample_key_def key_complete_def)
qed

lemma adjust_single:
  assumes ok: "inv_ok i" and c: "reservations i rid = Some c" and q: "requirement_ok i q"
  shows "fst (AdjustReservation rid [q] i) = Inl NilDereference \<longleftrightarrow>
    req_Key q \<notin> req_Key ` set (rsv_requirements c)"
proof -
  let ?old = "combinedRequirements (rsv_requirements c)"
  have rc: "reservation_ok i rid c" by (rule inv_okD(6) [OF ok c])
  have new: "NewReservation rid (rsv_Operation c) [q] =
      Inr \<lparr>rsv_ID = rid, rsv_Operation = rsv_Operation c, rsv_requirements = [q]\<rparr>"
    using rc q by (simp add: NewReservation_Inr reservation_ok_def requirement_ok_def)
  from q obtain b where b: "balances i (req_Key q) = Some b" by (auto simp: requirement_ok_def)
  note eff = effective_spendable [OF ok b]
  have comb: "combinedRequirements [q] = [(req_Key q, amt_units (req_Amount q))]"
    by (simp add: combinedRequirements_def)
  have keys: "map_of ?old (req_Key q) = None \<longleftrightarrow> req_Key q \<notin> req_Key ` set (rsv_requirements c)"
    by (simp add: map_of_eq_None_iff)
  have err: "first_error (adjust_error i ?old) (combinedRequirements [q]) = Some NilDereference \<longleftrightarrow>
      map_of ?old (req_Key q) = None"
    by (auto simp: comb adjust_error_def b eff split: option.splits)
  show ?thesis
  proof (cases "first_error (adjust_error i ?old) (combinedRequirements [q])")
    case None
    then show ?thesis using Adjust_applies [OF ok c new None] err keys by simp
  next
    case (Some e)
    have "fst (AdjustReservation rid [q] i) = Inl e"
      using rc by (simp add: AdjustReservation_def c new Let_def Some reservation_ok_def)
    then show ?thesis using err keys Some by simp
  qed
qed

text \<open>
  C24: Adjusting a reservation to a requirement on a funded key crashes exactly when the
  reservation does not hold that key yet: the sum \<open>available + old[key]\<close> then reads a
  nil pointer, although the inventory could serve the request.
\<close>

theorem adjust_new_key_crashes:
  assumes "inv_reachable i" and "reservations i rid = Some c" and "requirement_ok i q"
  shows "fst (AdjustReservation rid [q] i) = Inl NilDereference \<longleftrightarrow>
    req_Key q \<notin> req_Key ` set (rsv_requirements c)"
  by (rule adjust_single [OF reachable_inv_ok [OF assms(1)] assms(2,3)])

definition sample_key2 :: Key where
  "sample_key2 = \<lparr>key_Chain = ''d'', key_Account = ''b'', key_Token = ''t''\<rparr>"

definition sample_two :: Inventory where
  "sample_two = \<lparr>balances = [sample_key \<mapsto> 10, sample_key2 \<mapsto> 10],
     allocationCaps = [sample_key \<mapsto> 10, sample_key2 \<mapsto> 10], targets = [sample_key \<mapsto> 10, sample_key2 \<mapsto> 10],
     buffers = [sample_key \<mapsto> 0, sample_key2 \<mapsto> 0], inFlightOut = [sample_key \<mapsto> 0, sample_key2 \<mapsto> 0],
     reserved = [sample_key \<mapsto> 0, sample_key2 \<mapsto> 0], reservations = Map.empty, settled = Map.empty\<rparr>"

definition sample_two_reserved :: Inventory where
  "sample_two_reserved = snd (Reserve ''r'' ''o'' [sample_requirement 5] sample_two)"

lemma sample_two_reachable: "inv_reachable sample_two"
proof (rule reach_new)
  let ?p = "\<lparr>pol_WalletBalance = sample_amount 10, pol_AllocationCap = sample_amount 10,
      pol_Target = sample_amount 10, pol_Buffer = sample_amount 0, pol_InFlightOut = sample_amount 0\<rparr>"
  show "policies_wf [(sample_key, ?p), (sample_key2, ?p)]" by (simp add: sample_defs policies_wf_def)
  show "NewWithPolicies [(sample_key, ?p), (sample_key2, ?p)] = Inr sample_two"
    by (simp add: sample_defs sample_key2_def sample_two_def NewWithPolicies_def install_policy_def
        policy_rejected_def key_complete_def empty_inventory_def)
qed

lemma sample_two_reserve:
  "Reserve ''r'' ''o'' [sample_requirement 5] sample_two =
    (Inr \<lparr>rsv_ID = ''r'', rsv_Operation = ''o'', rsv_requirements = [sample_requirement 5]\<rparr>, sample_two_reserved) \<and>
   reservations sample_two_reserved ''r'' =
    Some \<lparr>rsv_ID = ''r'', rsv_Operation = ''o'', rsv_requirements = [sample_requirement 5]\<rparr> \<and>
   balances sample_two_reserved = balances sample_two"
  by (simp add: sample_two_reserved_def sample_two_def sample_key2_def sample_defs inv_eval)

theorem adjust_new_key_crashes_witness:
  "fst (AdjustReservation ''r'' [\<lparr>req_Key = sample_key2, req_Amount = sample_amount 5\<rparr>] sample_two_reserved)
     = Inl NilDereference"
proof -
  have "inv_reachable sample_two_reserved"
    by (rule reach_step [OF sample_two_reachable step_reserve [OF _ conjunct1 [OF sample_two_reserve]]])
      (simp add: reqs_wf_def sample_defs)
  from adjust_new_key_crashes [OF this conjunct1 [OF conjunct2 [OF sample_two_reserve]],
      of "\<lparr>req_Key = sample_key2, req_Amount = sample_amount 5\<rparr>"]
  show ?thesis
    using sample_two_reserve
    by (simp add: requirement_ok_def sample_two_def sample_defs sample_key2_def key_complete_def)
qed

text \<open>
  An adjustment within the keys already held is atomic: it either is refused without
  any change, or it replaces the reservation so that each of its keys either fits in the
  spendable amount or does not hold more than before.
\<close>

lemma adjust_atomic:
  assumes "inv_reachable i" and "reqs_wf reqs" and "AdjustReservation rid reqs i = (res, i')"
  shows "(\<exists>e. res = Inl e \<and> i' = i) \<or>
    (\<exists>c r. res = Inr r \<and> reservations i rid = Some c \<and> reservations i' = (reservations i)(rid \<mapsto> r) \<and>
       rsv_requirements r = reqs \<and> rsv_Operation r = rsv_Operation c \<and>
       (\<forall>q \<in> set reqs. held i' (req_Key q) \<le> max (spendable i' (req_Key q)) (held i (req_Key q))))"
proof -
  note ok = reachable_inv_ok [OF assms(1)]
  from ok assms(3) show ?thesis
  proof (cases rule: Adjust_cases)
    case (adjusted c r)
    have r: "rsv_requirements r = reqs" "rsv_Operation r = rsv_Operation c"
      using adjusted(3) by (auto simp: NewReservation_Inr)
    have "held i' (req_Key q) \<le> max (spendable i' (req_Key q)) (held i (req_Key q))" if q: "q \<in> set reqs" for q
    proof -
      let ?k = "req_Key q"
      obtain b a h where k: "balances i ?k = Some b" "effectiveAvailableLocked i ?k b = Some a"
        "map_of (combinedRequirements (rsv_requirements c)) ?k = Some h" "need reqs ?k \<le> a + h"
        using adjust_keys [OF adjusted(4) q] by blast
      have "h = need (rsv_requirements c) ?k"
        using map_of_total [OF distinct_combinedRequirements k(3)] by simp
      moreover have "a = max 0 (spendable i ?k - held i ?k)"
        using effective_spendable [OF ok k(1)] k(2) by simp
      moreover have "held i' ?k = held i ?k - need (rsv_requirements c) ?k + need reqs ?k"
        using held_of_replace [OF inv_okD(9) [OF ok] adjusted(2)] by (simp add: adjusted(5) held_def r)
      moreover have "spendable i' ?k = spendable i ?k" by (simp add: adjusted(5) spendable_def)
      ultimately show ?thesis using k(4) by simp
    qed
    then show ?thesis using adjusted r by auto
  qed auto
qed

lemma adjust_atomic_example:
  "\<exists>r i'. AdjustReservation ''r'' [sample_requirement 9] sample_two_reserved = (Inr r, i') \<and>
     held i' sample_key \<le> 10"
proof -
  have reach: "inv_reachable sample_two_reserved"
    by (rule reach_step [OF sample_two_reachable step_reserve [OF _ conjunct1 [OF sample_two_reserve]]])
      (simp add: reqs_wf_def sample_defs)
  have inv: "sample_two_reserved = sample_two\<lparr>reserved := [sample_key \<mapsto> 5, sample_key2 \<mapsto> 0],
      reservations := [''r'' \<mapsto> \<lparr>rsv_ID = ''r'', rsv_Operation = ''o'', rsv_requirements = [sample_requirement 5]\<rparr>]\<rparr>"
    by (auto simp: sample_two_reserved_def sample_two_def sample_key2_def sample_defs inv_eval fun_eq_iff)
  obtain r i' where run: "AdjustReservation ''r'' [sample_requirement 9] sample_two_reserved = (Inr r, i')"
    by (simp add: inv sample_two_def sample_key2_def sample_defs inv_eval)
  from adjust_atomic [OF reach _ run]
  have "held i' sample_key \<le> max (spendable i' sample_key) (held sample_two_reserved sample_key)"
    by (auto simp: reqs_wf_def sample_defs)
  moreover have "spendable i' sample_key = 10"
    using run by (auto simp: inv sample_two_def sample_key2_def sample_defs inv_eval spendable_def)
  moreover have "held sample_two_reserved sample_key = 5"
    by (simp add: held_def held_of_def inv need_def sample_defs)
  ultimately show ?thesis using run by auto
qed

end
