(* ===== verification/Market_Registry.thy ===== *)
theory Market_Registry
  imports Market_Amount
begin

text \<open>
  The validated catalogue of market identities, \<open>src/domain/market/registry.go\<close> over the
  entities of \<open>src/domain/market/entities.go\<close>. The registry is built once, entry by entry,
  and never changed; the defensive copies of token and hop slices are the identity here.
\<close>

section \<open>Entities\<close>

record Asset =
  ast_ID :: AssetID
  ast_Symbol :: string

record Chain =
  chn_ID :: ChainID

record Venue =
  ven_ID :: VenueID

record Pair =
  pair_ID :: PairID
  pair_BaseAsset :: AssetID
  pair_QuoteAsset :: AssetID

record Pool =
  pool_ID :: PoolID
  pool_Venue :: VenueID
  pool_Chain :: ChainID
  pool_Tokens :: "TokenID list"
  pool_Adapter :: string

record Hop =
  hop_Pool :: PoolID
  hop_TokenIn :: TokenID
  hop_TokenOut :: TokenID

record Path =
  path_ID :: PathID
  path_Chain :: ChainID
  path_Hops :: "Hop list"

record Market =
  mkt_ID :: MarketID
  mkt_Pair :: PairID
  mkt_Chain :: ChainID
  mkt_Path :: PathID
  mkt_BaseToken :: TokenID
  mkt_QuoteToken :: TokenID

record Catalog =
  cat_Chains :: "Chain list"
  cat_Assets :: "Asset list"
  cat_Tokens :: "Token list"
  cat_Venues :: "Venue list"
  cat_Pairs :: "Pair list"
  cat_Pools :: "Pool list"
  cat_Paths :: "Path list"
  cat_Markets :: "Market list"

record Registry =
  reg_chains :: "ChainID \<rightharpoonup> Chain"
  reg_assets :: "AssetID \<rightharpoonup> Asset"
  reg_tokens :: "TokenID \<rightharpoonup> Token"
  reg_venues :: "VenueID \<rightharpoonup> Venue"
  reg_pairs :: "PairID \<rightharpoonup> Pair"
  reg_pools :: "PoolID \<rightharpoonup> Pool"
  reg_paths :: "PathID \<rightharpoonup> Path"
  reg_markets :: "MarketID \<rightharpoonup> Market"

text \<open>Errors name the kind of entry, its identifier and what is wrong with it.\<close>

datatype reg_kind = KChain | KAsset | KToken | KVenue | KPair | KPool | KPath | KMarket

datatype reg_problem =
    Required
  | Duplicate
  | SameAssets
  | UnknownRef reg_kind string
  | TooFewTokens
  | WrongChain string
  | RepeatsToken TokenID
  | NoHop
  | InvalidHop nat
  | Discontinuous nat
  | AssetMismatch
  | EndpointMismatch

datatype reg_error = RegError reg_kind string reg_problem | IndexOutOfRange

section \<open>Construction\<close>

definition addChain :: "Registry \<Rightarrow> Chain \<Rightarrow> (reg_error, Registry) result" where
  "addChain r chain =
     (if chn_ID chain = [] then Inl (RegError KChain [] Required)
      else if chn_ID chain \<in> dom (reg_chains r) then Inl (RegError KChain (chn_ID chain) Duplicate)
      else Inr (r\<lparr>reg_chains := (reg_chains r)(chn_ID chain \<mapsto> chain)\<rparr>))"

definition addAsset :: "Registry \<Rightarrow> Asset \<Rightarrow> (reg_error, Registry) result" where
  "addAsset r asset =
     (if ast_ID asset = [] \<or> ast_Symbol asset = [] then Inl (RegError KAsset (ast_ID asset) Required)
      else if ast_ID asset \<in> dom (reg_assets r) then Inl (RegError KAsset (ast_ID asset) Duplicate)
      else Inr (r\<lparr>reg_assets := (reg_assets r)(ast_ID asset \<mapsto> asset)\<rparr>))"

definition addToken :: "Registry \<Rightarrow> Token \<Rightarrow> (reg_error, Registry) result" where
  "addToken r token =
     (if tok_ID token = [] \<or> tok_Symbol token = [] then Inl (RegError KToken (tok_ID token) Required)
      else if tok_ID token \<in> dom (reg_tokens r) then Inl (RegError KToken (tok_ID token) Duplicate)
      else if tok_Asset token \<notin> dom (reg_assets r) then Inl (RegError KToken (tok_ID token) (UnknownRef KAsset (tok_Asset token)))
      else if tok_Chain token \<notin> dom (reg_chains r) then Inl (RegError KToken (tok_ID token) (UnknownRef KChain (tok_Chain token)))
      else Inr (r\<lparr>reg_tokens := (reg_tokens r)(tok_ID token \<mapsto> token)\<rparr>))"

definition addVenue :: "Registry \<Rightarrow> Venue \<Rightarrow> (reg_error, Registry) result" where
  "addVenue r venue =
     (if ven_ID venue = [] then Inl (RegError KVenue [] Required)
      else if ven_ID venue \<in> dom (reg_venues r) then Inl (RegError KVenue (ven_ID venue) Duplicate)
      else Inr (r\<lparr>reg_venues := (reg_venues r)(ven_ID venue \<mapsto> venue)\<rparr>))"

definition addPair :: "Registry \<Rightarrow> Pair \<Rightarrow> (reg_error, Registry) result" where
  "addPair r pair =
     (if pair_ID pair = [] then Inl (RegError KPair [] Required)
      else if pair_ID pair \<in> dom (reg_pairs r) then Inl (RegError KPair (pair_ID pair) Duplicate)
      else if pair_BaseAsset pair = pair_QuoteAsset pair then Inl (RegError KPair (pair_ID pair) SameAssets)
      else if pair_BaseAsset pair \<notin> dom (reg_assets r) then Inl (RegError KPair (pair_ID pair) (UnknownRef KAsset (pair_BaseAsset pair)))
      else if pair_QuoteAsset pair \<notin> dom (reg_assets r) then Inl (RegError KPair (pair_ID pair) (UnknownRef KAsset (pair_QuoteAsset pair)))
      else Inr (r\<lparr>reg_pairs := (reg_pairs r)(pair_ID pair \<mapsto> pair)\<rparr>))"

text \<open>The loop over the tokens of a pool, with the tokens seen so far.\<close>

fun pool_tokens_error :: "Registry \<Rightarrow> Pool \<Rightarrow> TokenID list \<Rightarrow> TokenID list \<Rightarrow> reg_error option" where
  "pool_tokens_error r pool seen [] = None"
| "pool_tokens_error r pool seen (tid # rest) =
     (case reg_tokens r tid of
        None \<Rightarrow> Some (RegError KPool (pool_ID pool) (UnknownRef KToken tid))
      | Some token \<Rightarrow>
          if tok_Chain token \<noteq> pool_Chain pool then Some (RegError KPool (pool_ID pool) (WrongChain tid))
          else if tid \<in> set seen then Some (RegError KPool (pool_ID pool) (RepeatsToken tid))
          else pool_tokens_error r pool (tid # seen) rest)"

definition addPool :: "Registry \<Rightarrow> Pool \<Rightarrow> (reg_error, Registry) result" where
  "addPool r pool =
     (if pool_ID pool = [] \<or> pool_Adapter pool = [] then Inl (RegError KPool (pool_ID pool) Required)
      else if pool_ID pool \<in> dom (reg_pools r) then Inl (RegError KPool (pool_ID pool) Duplicate)
      else if pool_Venue pool \<notin> dom (reg_venues r) then Inl (RegError KPool (pool_ID pool) (UnknownRef KVenue (pool_Venue pool)))
      else if pool_Chain pool \<notin> dom (reg_chains r) then Inl (RegError KPool (pool_ID pool) (UnknownRef KChain (pool_Chain pool)))
      else if length (pool_Tokens pool) < 2 then Inl (RegError KPool (pool_ID pool) TooFewTokens)
      else check (pool_tokens_error r pool [] (pool_Tokens pool))
             (Inr (r\<lparr>reg_pools := (reg_pools r)(pool_ID pool \<mapsto> pool)\<rparr>)))"

definition poolContains :: "Pool \<Rightarrow> TokenID \<Rightarrow> bool" where
  "poolContains pool token \<longleftrightarrow> list_ex (\<lambda>candidate. candidate = token) (pool_Tokens pool)"

text \<open>The loop over the hops of a path, with the index and the previous hop.\<close>

fun path_hops_error :: "Registry \<Rightarrow> Path \<Rightarrow> nat \<Rightarrow> Hop option \<Rightarrow> Hop list \<Rightarrow> reg_error option" where
  "path_hops_error r path index previous [] = None"
| "path_hops_error r path index previous (hop # rest) =
     (case reg_pools r (hop_Pool hop) of
        None \<Rightarrow> Some (RegError KPath (path_ID path) (UnknownRef KPool (hop_Pool hop)))
      | Some pool \<Rightarrow>
          if pool_Chain pool \<noteq> path_Chain path then Some (RegError KPath (path_ID path) (WrongChain (pool_ID pool)))
          else if hop_TokenIn hop = hop_TokenOut hop \<or> \<not> poolContains pool (hop_TokenIn hop) \<or>
                  \<not> poolContains pool (hop_TokenOut hop)
          then Some (RegError KPath (path_ID path) (InvalidHop index))
          else if (case previous of None \<Rightarrow> False | Some p \<Rightarrow> hop_TokenOut p \<noteq> hop_TokenIn hop)
          then Some (RegError KPath (path_ID path) (Discontinuous index))
          else path_hops_error r path (Suc index) (Some hop) rest)"

definition addPath :: "Registry \<Rightarrow> Path \<Rightarrow> (reg_error, Registry) result" where
  "addPath r path =
     (if path_ID path = [] then Inl (RegError KPath [] Required)
      else if path_ID path \<in> dom (reg_paths r) then Inl (RegError KPath (path_ID path) Duplicate)
      else if path_Chain path \<notin> dom (reg_chains r) then Inl (RegError KPath (path_ID path) (UnknownRef KChain (path_Chain path)))
      else if path_Hops path = [] then Inl (RegError KPath (path_ID path) NoHop)
      else check (path_hops_error r path 0 None (path_Hops path))
             (Inr (r\<lparr>reg_paths := (reg_paths r)(path_ID path \<mapsto> path)\<rparr>)))"

definition addMarket :: "Registry \<Rightarrow> Market \<Rightarrow> (reg_error, Registry) result" where
  "addMarket r candidate =
     (let mid = mkt_ID candidate in
      if mid = [] then Inl (RegError KMarket [] Required)
      else if mid \<in> dom (reg_markets r) then Inl (RegError KMarket mid Duplicate)
      else case reg_pairs r (mkt_Pair candidate) of None \<Rightarrow> Inl (RegError KMarket mid (UnknownRef KPair (mkt_Pair candidate))) | Some pair \<Rightarrow>
      case reg_paths r (mkt_Path candidate) of None \<Rightarrow> Inl (RegError KMarket mid (UnknownRef KPath (mkt_Path candidate))) | Some path \<Rightarrow>
      if mkt_Chain candidate \<noteq> path_Chain path then Inl (RegError KMarket mid (WrongChain (path_ID path)))
      else case (reg_tokens r (mkt_BaseToken candidate), reg_tokens r (mkt_QuoteToken candidate)) of
        (Some base, Some quote) \<Rightarrow>
          if tok_Chain base \<noteq> mkt_Chain candidate \<or> tok_Chain quote \<noteq> mkt_Chain candidate
          then Inl (RegError KMarket mid (WrongChain (mkt_Chain candidate)))
          else if tok_Asset base \<noteq> pair_BaseAsset pair \<or> tok_Asset quote \<noteq> pair_QuoteAsset pair
          then Inl (RegError KMarket mid AssetMismatch)
          else if path_Hops path = [] then Inl IndexOutOfRange
          else if hop_TokenIn (hd (path_Hops path)) \<noteq> mkt_BaseToken candidate \<or>
                  hop_TokenOut (last (path_Hops path)) \<noteq> mkt_QuoteToken candidate
          then Inl (RegError KMarket mid EndpointMismatch)
          else Inr (r\<lparr>reg_markets := (reg_markets r)(mid \<mapsto> candidate)\<rparr>)
      | _ \<Rightarrow> Inl (RegError KMarket mid (UnknownRef KToken [])))"

definition empty_registry :: Registry where
  "empty_registry = \<lparr>reg_chains = Map.empty, reg_assets = Map.empty, reg_tokens = Map.empty,
     reg_venues = Map.empty, reg_pairs = Map.empty, reg_pools = Map.empty, reg_paths = Map.empty,
     reg_markets = Map.empty\<rparr>"

definition NewRegistry :: "Catalog \<Rightarrow> (reg_error, Registry) result" where
  "NewRegistry catalog =
     rbind (foldM addChain empty_registry (cat_Chains catalog)) (\<lambda>r.
     rbind (foldM addAsset r (cat_Assets catalog)) (\<lambda>r.
     rbind (foldM addToken r (cat_Tokens catalog)) (\<lambda>r.
     rbind (foldM addVenue r (cat_Venues catalog)) (\<lambda>r.
     rbind (foldM addPair r (cat_Pairs catalog)) (\<lambda>r.
     rbind (foldM addPool r (cat_Pools catalog)) (\<lambda>r.
     rbind (foldM addPath r (cat_Paths catalog)) (\<lambda>r.
     foldM addMarket r (cat_Markets catalog))))))))"

section \<open>What a registry guarantees\<close>

definition token_ok :: "Registry \<Rightarrow> TokenID \<Rightarrow> Token \<Rightarrow> bool" where
  "token_ok r tid t \<longleftrightarrow> tok_ID t = tid \<and> tid \<noteq> [] \<and>
     tok_Asset t \<in> dom (reg_assets r) \<and> tok_Chain t \<in> dom (reg_chains r)"

definition pair_ok :: "Registry \<Rightarrow> PairID \<Rightarrow> Pair \<Rightarrow> bool" where
  "pair_ok r pid p \<longleftrightarrow> pair_ID p = pid \<and> pair_BaseAsset p \<noteq> pair_QuoteAsset p \<and>
     pair_BaseAsset p \<in> dom (reg_assets r) \<and> pair_QuoteAsset p \<in> dom (reg_assets r)"

definition pool_ok :: "Registry \<Rightarrow> PoolID \<Rightarrow> Pool \<Rightarrow> bool" where
  "pool_ok r pid p \<longleftrightarrow> pool_ID p = pid \<and> pool_Venue p \<in> dom (reg_venues r) \<and>
     2 \<le> length (pool_Tokens p) \<and> distinct (pool_Tokens p) \<and>
     (\<forall>tid \<in> set (pool_Tokens p). \<exists>t. reg_tokens r tid = Some t \<and> tok_Chain t = pool_Chain p)"

definition hop_ok :: "Registry \<Rightarrow> Path \<Rightarrow> Hop \<Rightarrow> bool" where
  "hop_ok r path h \<longleftrightarrow> (\<exists>pool. reg_pools r (hop_Pool h) = Some pool \<and> pool_Chain pool = path_Chain path \<and>
     hop_TokenIn h \<noteq> hop_TokenOut h \<and> hop_TokenIn h \<in> set (pool_Tokens pool) \<and>
     hop_TokenOut h \<in> set (pool_Tokens pool))"

definition path_ok :: "Registry \<Rightarrow> PathID \<Rightarrow> Path \<Rightarrow> bool" where
  "path_ok r pid p \<longleftrightarrow> path_ID p = pid \<and> path_Hops p \<noteq> [] \<and>
     (\<forall>h \<in> set (path_Hops p). hop_ok r p h) \<and>
     (\<forall>n. Suc n < length (path_Hops p) \<longrightarrow>
        hop_TokenOut (path_Hops p ! n) = hop_TokenIn (path_Hops p ! Suc n))"

definition market_ok :: "Registry \<Rightarrow> MarketID \<Rightarrow> Market \<Rightarrow> bool" where
  "market_ok r mid m \<longleftrightarrow> mkt_ID m = mid \<and> (\<exists>pair path base quote.
     reg_pairs r (mkt_Pair m) = Some pair \<and> reg_paths r (mkt_Path m) = Some path \<and>
     reg_tokens r (mkt_BaseToken m) = Some base \<and> reg_tokens r (mkt_QuoteToken m) = Some quote \<and>
     path_Chain path = mkt_Chain m \<and> tok_Chain base = mkt_Chain m \<and> tok_Chain quote = mkt_Chain m \<and>
     tok_Asset base = pair_BaseAsset pair \<and> tok_Asset quote = pair_QuoteAsset pair \<and>
     hop_TokenIn (hd (path_Hops path)) = mkt_BaseToken m \<and>
     hop_TokenOut (last (path_Hops path)) = mkt_QuoteToken m)"

definition all_entries :: "('k \<rightharpoonup> 'v) \<Rightarrow> ('k \<Rightarrow> 'v \<Rightarrow> bool) \<Rightarrow> bool" where
  "all_entries m P \<longleftrightarrow> (\<forall>k v. m k = Some v \<longrightarrow> P k v)"

definition registry_ok :: "Registry \<Rightarrow> bool" where
  "registry_ok r \<longleftrightarrow>
     all_entries (reg_tokens r) (token_ok r) \<and> all_entries (reg_pairs r) (pair_ok r) \<and>
     all_entries (reg_pools r) (pool_ok r) \<and> all_entries (reg_paths r) (path_ok r) \<and>
     all_entries (reg_markets r) (market_ok r)"

text \<open>Every entry of one registry is an entry of the other.\<close>

definition reg_le :: "Registry \<Rightarrow> Registry \<Rightarrow> bool" where
  "reg_le r s \<longleftrightarrow>
     reg_chains r \<subseteq>\<^sub>m reg_chains s \<and> reg_assets r \<subseteq>\<^sub>m reg_assets s \<and> reg_tokens r \<subseteq>\<^sub>m reg_tokens s \<and>
     reg_venues r \<subseteq>\<^sub>m reg_venues s \<and> reg_pairs r \<subseteq>\<^sub>m reg_pairs s \<and> reg_pools r \<subseteq>\<^sub>m reg_pools s \<and>
     reg_paths r \<subseteq>\<^sub>m reg_paths s \<and> reg_markets r \<subseteq>\<^sub>m reg_markets s"

lemma map_le_fresh: "m \<subseteq>\<^sub>m m(k \<mapsto> v) \<longleftrightarrow> m k = None \<or> m k = Some v"
  by (auto simp: map_le_def)

lemma map_le_SomeD: "m \<subseteq>\<^sub>m n \<Longrightarrow> m k = Some v \<Longrightarrow> n k = Some v"
  by (metis domI map_le_def)

lemma reg_leD:
  assumes "reg_le r s"
  shows "reg_chains r k = Some c \<Longrightarrow> reg_chains s k = Some c"
    "reg_assets r k = Some a \<Longrightarrow> reg_assets s k = Some a"
    "reg_tokens r k = Some t \<Longrightarrow> reg_tokens s k = Some t"
    "reg_venues r k = Some v \<Longrightarrow> reg_venues s k = Some v"
    "reg_pairs r k = Some p \<Longrightarrow> reg_pairs s k = Some p"
    "reg_pools r k = Some q \<Longrightarrow> reg_pools s k = Some q"
    "reg_paths r k = Some h \<Longrightarrow> reg_paths s k = Some h"
    "reg_markets r k = Some m \<Longrightarrow> reg_markets s k = Some m"
  using assms by (auto simp: reg_le_def intro: map_le_SomeD)

lemma reg_le_refl [simp]: "reg_le r r"
  by (simp add: reg_le_def)

lemma reg_le_trans: "reg_le r s \<Longrightarrow> reg_le s t \<Longrightarrow> reg_le r t"
  unfolding reg_le_def by (meson map_le_trans)

lemma entries_mono:
  assumes "reg_le r s"
  shows "token_ok r i t \<Longrightarrow> token_ok s i t" "pair_ok r i p \<Longrightarrow> pair_ok s i p"
    "pool_ok r i q \<Longrightarrow> pool_ok s i q" "path_ok r i h \<Longrightarrow> path_ok s i h"
    "market_ok r i m \<Longrightarrow> market_ok s i m"
proof -
  note up = reg_leD [OF assms]
  show "token_ok r i t \<Longrightarrow> token_ok s i t" using up(1,2) by (fastforce simp: token_ok_def)
  show "pair_ok r i p \<Longrightarrow> pair_ok s i p" using up(2) by (fastforce simp: pair_ok_def)
  show "pool_ok r i q \<Longrightarrow> pool_ok s i q" using up(3,4) by (fastforce simp: pool_ok_def)
  show "path_ok r i h \<Longrightarrow> path_ok s i h" using up(6) by (fastforce simp: path_ok_def hop_ok_def)
  show "market_ok r i m \<Longrightarrow> market_ok s i m" unfolding market_ok_def using up(3,5,7) by meson
qed

section \<open>Loading a list of entries\<close>

text \<open>
  The eight loops of \<open>NewRegistry\<close> share one contract: adding an entry keeps the
  registry well formed, keeps every entry already stored, and stores the new one.
\<close>

locale registry_loader =
  fixes add :: "Registry \<Rightarrow> 'x \<Rightarrow> (reg_error, Registry) result"
    and stored :: "Registry \<Rightarrow> 'x \<Rightarrow> bool"
  assumes add_ok: "registry_ok r \<Longrightarrow> add r x = Inr r' \<Longrightarrow> registry_ok r'"
    and add_grows: "add r x = Inr r' \<Longrightarrow> reg_le r r'"
    and add_stores: "add r x = Inr r' \<Longrightarrow> stored r' x"
    and stored_mono: "stored r x \<Longrightarrow> reg_le r s \<Longrightarrow> stored s x"
begin

lemma load_grows: "foldM add r xs = Inr r' \<Longrightarrow> reg_le r r'"
proof (induction xs arbitrary: r)
  case (Cons x xs)
  then obtain t where "add r x = Inr t" "foldM add t xs = Inr r'" by (auto split: sum.splits)
  then show ?case using Cons.IH add_grows reg_le_trans by blast
qed simp

lemma load_ok: "foldM add r xs = Inr r' \<Longrightarrow> registry_ok r \<Longrightarrow> registry_ok r'"
proof (induction xs arbitrary: r)
  case (Cons x xs)
  then obtain t where "add r x = Inr t" "foldM add t xs = Inr r'" by (auto split: sum.splits)
  then show ?case using Cons.IH Cons.prems(2) add_ok by blast
qed simp

lemma load_stores: "foldM add r xs = Inr r' \<Longrightarrow> x \<in> set xs \<Longrightarrow> stored r' x"
proof (induction xs arbitrary: r)
  case (Cons y xs)
  then obtain t where t: "add r y = Inr t" "foldM add t xs = Inr r'" by (auto split: sum.splits)
  show ?case
  proof (cases "x = y")
    case True
    then show ?thesis using add_stores [OF t(1)] stored_mono load_grows [OF t(2)] by blast
  next
    case False
    then show ?thesis using Cons.IH [OF t(2)] Cons.prems(2) by simp
  qed
qed simp

end

text \<open>A registry that grew by well-formed entries is well formed.\<close>

lemma registry_ok_grow:
  assumes "registry_ok r" and le: "reg_le r s"
    and "\<And>k v. reg_tokens s k = Some v \<Longrightarrow> reg_tokens r k = Some v \<or> token_ok s k v"
    and "\<And>k v. reg_pairs s k = Some v \<Longrightarrow> reg_pairs r k = Some v \<or> pair_ok s k v"
    and "\<And>k v. reg_pools s k = Some v \<Longrightarrow> reg_pools r k = Some v \<or> pool_ok s k v"
    and "\<And>k v. reg_paths s k = Some v \<Longrightarrow> reg_paths r k = Some v \<or> path_ok s k v"
    and "\<And>k v. reg_markets s k = Some v \<Longrightarrow> reg_markets r k = Some v \<or> market_ok s k v"
  shows "registry_ok s"
proof -
  note mono = entries_mono [OF le]
  have old: "reg_tokens r k = Some t \<Longrightarrow> token_ok r k t" "reg_pairs r k = Some p \<Longrightarrow> pair_ok r k p"
    "reg_pools r k = Some q \<Longrightarrow> pool_ok r k q" "reg_paths r k = Some h \<Longrightarrow> path_ok r k h"
    "reg_markets r k = Some m \<Longrightarrow> market_ok r k m" for k t p q h m
    using assms(1) by (simp_all add: registry_ok_def all_entries_def)
  have "token_ok s k v" if "reg_tokens s k = Some v" for k v
    using assms(3) [OF that] old(1) mono(1) by blast
  moreover have "pair_ok s k v" if "reg_pairs s k = Some v" for k v
    using assms(4) [OF that] old(2) mono(2) by blast
  moreover have "pool_ok s k v" if "reg_pools s k = Some v" for k v
    using assms(5) [OF that] old(3) mono(3) by blast
  moreover have "path_ok s k v" if "reg_paths s k = Some v" for k v
    using assms(6) [OF that] old(4) mono(4) by blast
  moreover have "market_ok s k v" if "reg_markets s k = Some v" for k v
    using assms(7) [OF that] old(5) mono(5) by blast
  ultimately show ?thesis by (simp add: registry_ok_def all_entries_def)
qed

lemma pool_tokens_error_None:
  "pool_tokens_error r pool seen tids = None \<longleftrightarrow>
     (\<forall>tid \<in> set tids. \<exists>t. reg_tokens r tid = Some t \<and> tok_Chain t = pool_Chain pool) \<and>
     distinct tids \<and> set tids \<inter> set seen = {}"
  by (induction tids arbitrary: seen) (auto split: option.splits)

definition continuous :: "Hop list \<Rightarrow> bool" where
  "continuous hs \<longleftrightarrow> (\<forall>n. Suc n < length hs \<longrightarrow> hop_TokenOut (hs ! n) = hop_TokenIn (hs ! Suc n))"

lemma continuous_Cons:
  "continuous (h # hs) \<longleftrightarrow> (case hs of [] \<Rightarrow> True | g # _ \<Rightarrow> hop_TokenOut h = hop_TokenIn g) \<and> continuous hs"
proof (cases hs)
  case (Cons g gs)
  show ?thesis unfolding Cons continuous_def by (auto simp: less_Suc_eq_0_disj nth_Cons split: nat.splits)
qed (simp add: continuous_def)

lemma poolContains_iff: "poolContains pool t \<longleftrightarrow> t \<in> set (pool_Tokens pool)"
  by (auto simp: poolContains_def list_ex_iff)

lemma path_hops_error_None:
  "path_hops_error r path n prev hs = None \<Longrightarrow>
     (\<forall>h \<in> set hs. hop_ok r path h) \<and> continuous hs \<and>
     (\<forall>p h rest. prev = Some p \<longrightarrow> hs = h # rest \<longrightarrow> hop_TokenOut p = hop_TokenIn h)"
proof (induction r path n prev hs rule: path_hops_error.induct)
  case (1 r path n prev)
  show ?case by (simp add: continuous_def)
next
  case (2 r path n prev hop rest)
  from "2.prems" obtain pool where pool: "reg_pools r (hop_Pool hop) = Some pool"
    "pool_Chain pool = path_Chain path" "hop_TokenIn hop \<noteq> hop_TokenOut hop"
    "poolContains pool (hop_TokenIn hop)" "poolContains pool (hop_TokenOut hop)"
    "\<not> (case prev of None \<Rightarrow> False | Some p \<Rightarrow> hop_TokenOut p \<noteq> hop_TokenIn hop)"
    "path_hops_error r path (Suc n) (Some hop) rest = None"
    by (auto split: option.splits if_splits)
  then have "hop_ok r path hop" by (auto simp: hop_ok_def poolContains_iff)
  moreover have "(\<forall>h \<in> set rest. hop_ok r path h) \<and> continuous rest \<and>
      (\<forall>p h rs. Some hop = Some p \<longrightarrow> rest = h # rs \<longrightarrow> hop_TokenOut p = hop_TokenIn h)"
    using "2.IH" [OF pool(1)] pool(2-7) by simp
  ultimately show ?case using pool(6) by (auto simp: continuous_Cons split: option.splits list.splits)
qed

lemma path_ok_continuous:
  "path_ok r pid p \<longleftrightarrow> path_ID p = pid \<and> path_Hops p \<noteq> [] \<and> (\<forall>h \<in> set (path_Hops p). hop_ok r p h) \<and>
     continuous (path_Hops p)"
  by (auto simp: path_ok_def continuous_def)

named_theorems add_defs \<open>definitions of the eight adders\<close>
declare addChain_def [add_defs] addAsset_def [add_defs] addToken_def [add_defs] addVenue_def [add_defs]
  addPair_def [add_defs] addPool_def [add_defs] addPath_def [add_defs]

lemma addMarket_Inr:
  assumes "addMarket r m = Inr r'"
  shows "r' = r\<lparr>reg_markets := (reg_markets r)(mkt_ID m \<mapsto> m)\<rparr> \<and> mkt_ID m \<notin> dom (reg_markets r) \<and>
     market_ok r (mkt_ID m) m"
  using assms
  by (auto simp: addMarket_def Let_def market_ok_def split: if_splits option.splits)

interpretation chains: registry_loader addChain "\<lambda>r c. reg_chains r (chn_ID c) = Some c"
proof
  show "registry_ok r'" if "registry_ok r" "addChain r x = Inr r'" for r x r'
    by (rule registry_ok_grow [OF that(1)])
      (use that in \<open>auto simp: add_defs reg_le_def map_le_fresh split: if_splits\<close>)
qed (auto simp: add_defs reg_le_def map_le_fresh intro: map_le_SomeD split: if_splits)

interpretation assets: registry_loader addAsset "\<lambda>r a. reg_assets r (ast_ID a) = Some a"
proof
  show "registry_ok r'" if "registry_ok r" "addAsset r x = Inr r'" for r x r'
    by (rule registry_ok_grow [OF that(1)])
      (use that in \<open>auto simp: add_defs reg_le_def map_le_fresh split: if_splits\<close>)
qed (auto simp: add_defs reg_le_def map_le_fresh intro: map_le_SomeD split: if_splits)

interpretation venues: registry_loader addVenue "\<lambda>r v. reg_venues r (ven_ID v) = Some v"
proof
  show "registry_ok r'" if "registry_ok r" "addVenue r x = Inr r'" for r x r'
    by (rule registry_ok_grow [OF that(1)])
      (use that in \<open>auto simp: add_defs reg_le_def map_le_fresh split: if_splits\<close>)
qed (auto simp: add_defs reg_le_def map_le_fresh intro: map_le_SomeD split: if_splits)

interpretation tokens: registry_loader addToken "\<lambda>r t. reg_tokens r (tok_ID t) = Some t"
proof
  show "registry_ok r'" if "registry_ok r" "addToken r x = Inr r'" for r x r'
    by (rule registry_ok_grow [OF that(1)])
      (use that in \<open>auto simp: add_defs reg_le_def map_le_fresh token_ok_def split: if_splits\<close>)
qed (auto simp: add_defs reg_le_def map_le_fresh intro: map_le_SomeD split: if_splits)

interpretation pairs: registry_loader addPair "\<lambda>r p. reg_pairs r (pair_ID p) = Some p"
proof
  show "registry_ok r'" if "registry_ok r" "addPair r x = Inr r'" for r x r'
    by (rule registry_ok_grow [OF that(1)])
      (use that in \<open>auto simp: add_defs reg_le_def map_le_fresh pair_ok_def split: if_splits\<close>)
qed (auto simp: add_defs reg_le_def map_le_fresh intro: map_le_SomeD split: if_splits)

interpretation pools: registry_loader addPool "\<lambda>r p. reg_pools r (pool_ID p) = Some p"
proof
  show "registry_ok r'" if "registry_ok r" "addPool r x = Inr r'" for r x r'
    by (rule registry_ok_grow [OF that(1)])
      (use that in \<open>auto simp: add_defs reg_le_def map_le_fresh pool_ok_def check_eq_Inr
         pool_tokens_error_None split: if_splits\<close>)
qed (auto simp: add_defs reg_le_def map_le_fresh check_eq_Inr intro: map_le_SomeD split: if_splits)

interpretation paths: registry_loader addPath "\<lambda>r p. reg_paths r (path_ID p) = Some p"
proof
  show "registry_ok r'" if "registry_ok r" "addPath r x = Inr r'" for r x r'
  proof (rule registry_ok_grow [OF that(1)])
    show "reg_paths r k = Some v \<or> path_ok r' k v" if "reg_paths r' k = Some v" for k v
      using that \<open>addPath r x = Inr r'\<close>
      by (auto simp: add_defs path_ok_continuous check_eq_Inr hop_ok_def
          dest!: path_hops_error_None split: if_splits)
  qed (use that in \<open>auto simp: add_defs reg_le_def map_le_fresh check_eq_Inr split: if_splits\<close>)
qed (auto simp: add_defs reg_le_def map_le_fresh check_eq_Inr intro: map_le_SomeD split: if_splits)

interpretation markets: registry_loader addMarket "\<lambda>r m. reg_markets r (mkt_ID m) = Some m"
proof
  show "registry_ok r'" if "registry_ok r" "addMarket r x = Inr r'" for r x r'
    by (rule registry_ok_grow [OF that(1)])
      (use addMarket_Inr [OF that(2)] in \<open>auto simp: reg_le_def map_le_fresh market_ok_def split: if_splits\<close>)
qed (auto simp: reg_le_def map_le_fresh dest!: addMarket_Inr intro: map_le_SomeD)

section \<open>Properties\<close>

lemma empty_registry_ok: "registry_ok empty_registry"
  by (simp add: registry_ok_def all_entries_def empty_registry_def)

text \<open>
  C27: A registry that \<open>NewRegistry\<close> accepts is well formed: every reference resolves, pools
  have at least two distinct tokens of their own chain, paths are continuous chains of
  pool hops on one chain, and every market's path leads from its base to its quote token,
  whose assets are those of its pair.
\<close>

theorem new_registry_ok:
  assumes "NewRegistry c = Inr r"
  shows "registry_ok r"
  using assms empty_registry_ok unfolding NewRegistry_def rbind_eq_Inr
  by (elim exE conjE) (meson chains.load_ok assets.load_ok tokens.load_ok venues.load_ok pairs.load_ok
      pools.load_ok paths.load_ok markets.load_ok)

definition sample_catalog :: Catalog where
  "sample_catalog = \<lparr>cat_Chains = [\<lparr>chn_ID = ''c''\<rparr>],
     cat_Assets = [\<lparr>ast_ID = ''X'', ast_Symbol = ''X''\<rparr>, \<lparr>ast_ID = ''Y'', ast_Symbol = ''Y''\<rparr>],
     cat_Tokens = [
       \<lparr>tok_ID = ''x'', tok_Asset = ''X'', tok_Chain = ''c'', tok_Decimals = 18, tok_Symbol = ''X''\<rparr>,
       \<lparr>tok_ID = ''y'', tok_Asset = ''Y'', tok_Chain = ''c'', tok_Decimals = 6, tok_Symbol = ''Y''\<rparr>],
     cat_Venues = [\<lparr>ven_ID = ''v''\<rparr>],
     cat_Pairs = [\<lparr>pair_ID = ''p'', pair_BaseAsset = ''X'', pair_QuoteAsset = ''Y''\<rparr>],
     cat_Pools = [\<lparr>pool_ID = ''l'', pool_Venue = ''v'', pool_Chain = ''c'', pool_Tokens = [''x'', ''y''], pool_Adapter = ''a''\<rparr>],
     cat_Paths = [\<lparr>path_ID = ''h'', path_Chain = ''c'',
        path_Hops = [\<lparr>hop_Pool = ''l'', hop_TokenIn = ''x'', hop_TokenOut = ''y''\<rparr>]\<rparr>],
     cat_Markets = [\<lparr>mkt_ID = ''m'', mkt_Pair = ''p'', mkt_Chain = ''c'', mkt_Path = ''h'',
        mkt_BaseToken = ''x'', mkt_QuoteToken = ''y''\<rparr>]\<rparr>"

lemma sample_catalog_accepted: "\<exists>r. NewRegistry sample_catalog = Inr r"
  by (simp add: sample_catalog_def NewRegistry_def empty_registry_def add_defs addMarket_def Let_def
      poolContains_def)

theorem new_registry_ok_witness: "\<exists>r. NewRegistry sample_catalog = Inr r \<and> registry_ok r"
  using sample_catalog_accepted new_registry_ok by blast

text \<open>
  Nothing of an accepted catalogue is lost or replaced: every token, pool, path and
  market of it is found in the registry under its own identifier.
\<close>

lemma new_registry_complete:
  assumes "NewRegistry c = Inr r"
  shows "(\<forall>t \<in> set (cat_Tokens c). reg_tokens r (tok_ID t) = Some t) \<and>
    (\<forall>p \<in> set (cat_Pools c). reg_pools r (pool_ID p) = Some p) \<and>
    (\<forall>p \<in> set (cat_Paths c). reg_paths r (path_ID p) = Some p) \<and>
    (\<forall>m \<in> set (cat_Markets c). reg_markets r (mkt_ID m) = Some m)"
proof -
  from assms obtain r1 r2 r3 r4 r5 r6 r7 where
    3: "foldM addToken r2 (cat_Tokens c) = Inr r3" and 4: "foldM addVenue r3 (cat_Venues c) = Inr r4" and
    5: "foldM addPair r4 (cat_Pairs c) = Inr r5" and 6: "foldM addPool r5 (cat_Pools c) = Inr r6" and
    7: "foldM addPath r6 (cat_Paths c) = Inr r7" and 8: "foldM addMarket r7 (cat_Markets c) = Inr r"
    unfolding NewRegistry_def rbind_eq_Inr by blast
  have le7: "reg_le r7 r" by (rule markets.load_grows [OF 8])
  have le6: "reg_le r6 r" using paths.load_grows [OF 7] le7 by (rule reg_le_trans)
  have le3: "reg_le r3 r"
    using venues.load_grows [OF 4] pairs.load_grows [OF 5] pools.load_grows [OF 6] le6 by (meson reg_le_trans)
  show ?thesis
    using tokens.load_stores [OF 3] pools.load_stores [OF 6] paths.load_stores [OF 7]
      markets.load_stores [OF 8] reg_leD(3) [OF le3] reg_leD(6) [OF le6] reg_leD(7) [OF le7] by blast
qed

lemma new_registry_complete_example:
  "\<exists>r. NewRegistry sample_catalog = Inr r \<and>
     reg_markets r ''m'' = Some \<lparr>mkt_ID = ''m'', mkt_Pair = ''p'', mkt_Chain = ''c'', mkt_Path = ''h'',
        mkt_BaseToken = ''x'', mkt_QuoteToken = ''y''\<rparr>"
proof -
  obtain r where r: "NewRegistry sample_catalog = Inr r" using sample_catalog_accepted by blast
  from new_registry_complete [OF r] show ?thesis using r by (simp add: sample_catalog_def)
qed

end
