(* ===== verification/Market_State.thy ===== *)
theory Market_State
  imports Market_Amount
begin

text \<open>
  Market events, snapshots, quotes and price evidence:
  \<open>src/domain/market/state.go\<close>, \<open>quote.go\<close>, \<open>conversion.go\<close> and \<open>price.go\<close>.

  Go's string enumerations admit any string, so they are strings with named constants. The
  interfaces \<open>EventData\<close> and \<open>SnapshotData\<close> carry a kind and a payload that only their
  adapter interprets: the payload is a type variable, and a nil interface is \<open>None\<close>.
  SHA-256 is an argument of the functions that hash; nothing here depends on its bits.
\<close>

section \<open>Constants\<close>

abbreviation HealthHealthy :: string where "HealthHealthy \<equiv> ''healthy''"
abbreviation HealthDegraded :: string where "HealthDegraded \<equiv> ''degraded''"

abbreviation QuoteModeExactInput :: string where "QuoteModeExactInput \<equiv> ''exact_input''"
abbreviation QuoteModeExactOutput :: string where "QuoteModeExactOutput \<equiv> ''exact_output''"

abbreviation QuoteQualityExact :: string where "QuoteQualityExact \<equiv> ''exact''"
abbreviation QuoteQualityCachedExact :: string where "QuoteQualityCachedExact \<equiv> ''cached_exact''"
abbreviation QuoteQualityProportionalEstimate :: string where
  "QuoteQualityProportionalEstimate \<equiv> ''proportional_estimate''"

abbreviation QuoteFeeCost :: string where "QuoteFeeCost \<equiv> ''cost''"
abbreviation QuoteFeeCredit :: string where "QuoteFeeCredit \<equiv> ''credit''"

section \<open>Positions and references\<close>

record SourceReference =
  sr_Kind :: string
  sr_Value :: string

record SourcePosition =
  sp_Kind :: string
  sp_Value :: "64 word"

datatype market_error =
    ReferenceIncomplete
  | PositionWithoutKind
  | MarketSourceRequired
  | ReceivedAtRequired
  | EventDataRequired
  | SourceTimeZero
  | RouteRequired
  | ChildRequired
  | ChildInvalid
  | ChildDuplicate MarketID
  | VersionRequired
  | TimestampsRequired
  | InvalidHealth string
  | HealthChangedAtRequired
  | DegradedWithoutReason
  | HealthyWithReason
  | SnapshotDataRequired

datatype quote_error =
    QuoteFeeIncomplete
  | QuoteFeeEffectInvalid string
  | QuoteIdentityRequired
  | QuotePosition market_error
  | QuoteModeRequired
  | QuoteQualityInvalid string
  | QuoteAmountsRequired
  | QuoteFeeInvalid nat
  | ConversionIncomplete
  | PriceIncomplete

definition ReferenceKnown :: "SourceReference \<Rightarrow> bool" where
  "ReferenceKnown r \<longleftrightarrow> sr_Kind r \<noteq> []"

definition ReferenceValidate :: "SourceReference \<Rightarrow> market_error option" where
  "ReferenceValidate r = (if (sr_Kind r = []) \<noteq> (sr_Value r = []) then Some ReferenceIncomplete else None)"

definition PositionKnown :: "SourcePosition \<Rightarrow> bool" where
  "PositionKnown p \<longleftrightarrow> sp_Kind p \<noteq> []"

definition PositionValidate :: "SourcePosition \<Rightarrow> market_error option" where
  "PositionValidate p = (if sp_Kind p = [] \<and> sp_Value p \<noteq> 0 then Some PositionWithoutKind else None)"

definition PositionCompare :: "SourcePosition \<Rightarrow> SourcePosition \<Rightarrow> int \<times> bool" where
  "PositionCompare p other =
     (if \<not> PositionKnown p \<or> sp_Kind p \<noteq> sp_Kind other then (0, False)
      else if sp_Value p < sp_Value other then (-1, True)
      else if sp_Value p > sp_Value other then (1, True)
      else (0, True))"

section \<open>Events and snapshots\<close>

datatype 'e EventData = EventData (EventKind: string) (EventPayload: 'e)

record 'e MarketEvent =
  me_Market :: MarketID
  me_Source :: SourceID
  me_Position :: SourcePosition
  me_Reference :: SourceReference
  me_Finality :: string
  me_SourceTime :: gotime
  me_SourceTimeKnown :: bool
  me_ReceivedAt :: gotime
  me_Reverts :: bool
  me_Data :: "'e EventData option"

definition NewMarketEvent :: "'e MarketEvent \<Rightarrow> (market_error, 'e MarketEvent) result" where
  "NewMarketEvent event =
     (if me_Market event = [] \<or> me_Source event = [] then Inl MarketSourceRequired
      else check (PositionValidate (me_Position event))
        (check (ReferenceValidate (me_Reference event))
          (if IsZeroTime (me_ReceivedAt event) then Inl ReceivedAtRequired
           else if (case me_Data event of None \<Rightarrow> True | Some d \<Rightarrow> EventKind d = []) then Inl EventDataRequired
           else if me_SourceTimeKnown event \<and> IsZeroTime (me_SourceTime event) then Inl SourceTimeZero
           else Inr event)))"

record SnapshotMetadata =
  md_Market :: MarketID
  md_Source :: SourceID
  md_Version :: "64 word"
  md_EventPosition :: SourcePosition
  md_EventReference :: SourceReference
  md_Finality :: string
  md_SourceTime :: gotime
  md_SourceTimeKnown :: bool
  md_ReceivedAt :: gotime
  md_AppliedAt :: gotime
  md_Health :: string
  md_HealthReason :: string
  md_HealthChangedAt :: gotime
  md_StateHash :: string

text \<open>
  A snapshot is a metadata record with its data. The data is an adapter's, or the bundle
  of a multi-hop market: its route, the child snapshots, the largest child version and the
  hash of all of them.
\<close>

datatype 'p SnapshotData =
    ProtocolData string 'p
  | RouteBundle MarketID "(SnapshotMetadata \<times> 'p SnapshotData) list" "64 word" string

type_synonym 'p MarketSnapshot = "SnapshotMetadata \<times> 'p SnapshotData"

fun SnapshotKind :: "'p SnapshotData \<Rightarrow> string" where
  "SnapshotKind (ProtocolData k p) = k"
| "SnapshotKind (RouteBundle _ _ _ _) = ''market_snapshot_bundle/v1''"

definition uint64_be :: "64 word \<Rightarrow> string" where
  "uint64_be w = map (\<lambda>i. char_of (unat w div 256 ^ i)) [7, 6, 5, 4, 3, 2, 1, 0]"

text \<open>The loop of \<open>NewSnapshotBundle\<close>: markets seen, largest version, bytes hashed so far.\<close>

fun bundle_scan ::
  "MarketID list \<Rightarrow> 64 word \<Rightarrow> string \<Rightarrow> 'p MarketSnapshot list \<Rightarrow> (market_error, 64 word \<times> string) result" where
  "bundle_scan seen version bytes [] = Inr (version, bytes)"
| "bundle_scan seen version bytes ((md, data) # rest) =
     (if md_Market md = [] \<or> md_Version md = 0 then Inl ChildInvalid
      else if md_Market md \<in> set seen then Inl (ChildDuplicate (md_Market md))
      else bundle_scan (md_Market md # seen)
             (if md_Version md > version then md_Version md else version)
             (bytes @ md_Market md @ uint64_be (md_Version md) @ md_StateHash md @ md_Health md) rest)"

definition NewSnapshotBundle ::
  "(string \<Rightarrow> string) \<Rightarrow> MarketID \<Rightarrow> 'p MarketSnapshot list \<Rightarrow> (market_error, 'p SnapshotData) result" where
  "NewSnapshotBundle sha256 route snapshots =
     (if route = [] then Inl RouteRequired
      else if snapshots = [] then Inl ChildRequired
      else rbind (bundle_scan [] 0 route snapshots) (\<lambda>(version, bytes).
             if version = 0 then Inl VersionRequired
             else Inr (RouteBundle route snapshots version (sha256 bytes))))"

definition NewMarketSnapshot ::
  "SnapshotMetadata \<Rightarrow> 'p SnapshotData option \<Rightarrow> (market_error, 'p MarketSnapshot) result" where
  "NewMarketSnapshot metadata data =
     (if md_Market metadata = [] \<or> md_Source metadata = [] then Inl MarketSourceRequired
      else if md_Version metadata = 0 then Inl VersionRequired
      else check (PositionValidate (md_EventPosition metadata))
        (check (ReferenceValidate (md_EventReference metadata))
          (if IsZeroTime (md_ReceivedAt metadata) \<or> IsZeroTime (md_AppliedAt metadata) then Inl TimestampsRequired
           else if md_Health metadata \<noteq> HealthHealthy \<and> md_Health metadata \<noteq> HealthDegraded
           then Inl (InvalidHealth (md_Health metadata))
           else if IsZeroTime (md_HealthChangedAt metadata) then Inl HealthChangedAtRequired
           else if md_Health metadata = HealthDegraded \<and> md_HealthReason metadata = [] then Inl DegradedWithoutReason
           else if md_Health metadata = HealthHealthy \<and> md_HealthReason metadata \<noteq> [] then Inl HealthyWithReason
           else case data of
             None \<Rightarrow> Inl SnapshotDataRequired
           | Some d \<Rightarrow> if SnapshotKind d = [] then Inl SnapshotDataRequired else Inr (metadata, d))))"

section \<open>Quotes\<close>

record QuoteFee =
  qf_kind :: string
  qf_effect :: string
  qf_amount :: TokenAmount
  qf_includedInAmounts :: bool

record Quote =
  q_Source :: SourceID
  q_Market :: MarketID
  q_SnapshotVersion :: "64 word"
  q_SnapshotHash :: string
  q_SourcePosition :: SourcePosition
  q_ResponseHash :: string
  q_Purpose :: string
  q_Mode :: string
  q_Quality :: string
  q_AmountIn :: TokenAmount
  q_AmountOut :: TokenAmount
  q_QuotedAt :: gotime
  q_fees :: "QuoteFee list"

definition RequiresRefresh :: "string \<Rightarrow> bool" where
  "RequiresRefresh q \<longleftrightarrow> q = QuoteQualityCachedExact \<or> q = QuoteQualityProportionalEstimate"

definition NewQuoteFee :: "string \<Rightarrow> string \<Rightarrow> TokenAmount \<Rightarrow> bool \<Rightarrow> (quote_error, QuoteFee) result" where
  "NewQuoteFee kind effect amount included =
     (if kind = [] \<or> amt_token amount = [] then Inl QuoteFeeIncomplete
      else if effect \<noteq> QuoteFeeCost \<and> effect \<noteq> QuoteFeeCredit then Inl (QuoteFeeEffectInvalid effect)
      else Inr \<lparr>qf_kind = kind, qf_effect = effect, qf_amount = amount, qf_includedInAmounts = included\<rparr>)"

definition fee_invalid :: "QuoteFee \<Rightarrow> bool" where
  "fee_invalid fee \<longleftrightarrow> qf_kind fee = [] \<or> amt_token (qf_amount fee) = [] \<or>
     qf_effect fee \<noteq> QuoteFeeCost \<and> qf_effect fee \<noteq> QuoteFeeCredit"

definition NewQuote :: "Quote \<Rightarrow> QuoteFee list \<Rightarrow> (quote_error, Quote) result" where
  "NewQuote quote fees =
     (if q_Source quote = [] \<or> q_Market quote = [] \<or> q_SnapshotVersion quote = 0 then Inl QuoteIdentityRequired
      else check (map_option QuotePosition (PositionValidate (q_SourcePosition quote)))
        (if q_Purpose quote = [] \<or> IsZeroTime (q_QuotedAt quote) \<or>
            q_Mode quote \<noteq> QuoteModeExactInput \<and> q_Mode quote \<noteq> QuoteModeExactOutput
         then Inl QuoteModeRequired
         else
           (let quality = (if q_Quality quote = [] then QuoteQualityExact else q_Quality quote) in
            if quality \<noteq> QuoteQualityExact \<and> quality \<noteq> QuoteQualityCachedExact \<and>
               quality \<noteq> QuoteQualityProportionalEstimate
            then Inl (QuoteQualityInvalid quality)
            else if amt_token (q_AmountIn quote) = [] \<or> amt_token (q_AmountOut quote) = []
            then Inl QuoteAmountsRequired
            else check (first_error (\<lambda>(index, fee). if fee_invalid fee then Some (QuoteFeeInvalid index) else None)
                          (enumerate 0 fees))
                   (Inr (quote\<lparr>q_Quality := quality, q_fees := fees\<rparr>)))))"

section \<open>Conversion and price evidence\<close>

record QuoteConversionSnapshot =
  qc_Provider :: SourceID
  qc_Input :: TokenAmount
  qc_Output :: TokenAmount
  qc_ReceivedAt :: gotime
  qc_ExpiresAt :: gotime
  qc_Signature :: string

text \<open>\<open>big.Int.Bytes\<close>: big-endian without leading zeros.\<close>

fun nat_bytes :: "nat \<Rightarrow> string" where
  "nat_bytes n = (if n = 0 then [] else nat_bytes (n div 256) @ [char_of n])"

declare nat_bytes.simps [simp del]

text \<open>\<open>time.Time.UnixNano\<close> of an instant counted from Go's zero time.\<close>

definition UnixNano :: "gotime \<Rightarrow> 64 word" where
  "UnixNano t = word_of_int (t - 62135596800 * 10 ^ 9)"

definition NewQuoteConversionSnapshot ::
  "(string \<Rightarrow> string) \<Rightarrow> SourceID \<Rightarrow> TokenAmount \<Rightarrow> TokenAmount \<Rightarrow> gotime \<Rightarrow> gotime \<Rightarrow>
   (quote_error, QuoteConversionSnapshot) result" where
  "NewQuoteConversionSnapshot sha256 provider inp out receivedAt expiresAt =
     (if provider = [] \<or> AmountIsZero inp \<or> AmountIsZero out \<or> amt_token inp = amt_token out \<or>
         IsZeroTime receivedAt \<or> \<not> expiresAt > receivedAt
      then Inl ConversionIncomplete
      else Inr \<lparr>qc_Provider = provider, qc_Input = inp, qc_Output = out, qc_ReceivedAt = receivedAt,
                qc_ExpiresAt = expiresAt,
                qc_Signature = sha256 (provider @ amt_token inp @ nat_bytes (nat (amt_units inp)) @
                  amt_token out @ nat_bytes (nat (amt_units out)) @ uint64_be (UnixNano receivedAt))\<rparr>)"

definition ConversionValidAt :: "QuoteConversionSnapshot \<Rightarrow> gotime \<Rightarrow> bool" where
  "ConversionValidAt s when \<longleftrightarrow> qc_Provider s \<noteq> [] \<and> \<not> AmountIsZero (qc_Input s) \<and>
     \<not> AmountIsZero (qc_Output s) \<and> \<not> when > qc_ExpiresAt s"

record PriceObservation =
  po_source :: SourceID
  po_base :: AssetID
  po_quote :: AssetID
  po_value :: rat
  po_reference :: string
  po_sourceUpdatedAt :: gotime
  po_observedAt :: gotime

definition NewPriceObservation ::
  "SourceID \<Rightarrow> AssetID \<Rightarrow> AssetID \<Rightarrow> rat option \<Rightarrow> string \<Rightarrow> gotime \<Rightarrow> gotime \<Rightarrow>
   (quote_error, PriceObservation) result" where
  "NewPriceObservation source base quote value reference sourceUpdatedAt observedAt =
     (if source = [] \<or> base = [] \<or> quote = [] \<or> base = quote \<or>
         (case value of None \<Rightarrow> True | Some v \<Rightarrow> v \<le> 0) \<or> reference = [] \<or>
         IsZeroTime sourceUpdatedAt \<or> IsZeroTime observedAt
      then Inl PriceIncomplete
      else Inr \<lparr>po_source = source, po_base = base, po_quote = quote, po_value = the value,
                po_reference = reference, po_sourceUpdatedAt = sourceUpdatedAt, po_observedAt = observedAt\<rparr>)"

section \<open>Lemmas\<close>

text \<open>The metadata that a snapshot may carry.\<close>

definition metadata_ok :: "SnapshotMetadata \<Rightarrow> bool" where
  "metadata_ok md \<longleftrightarrow>
     md_Market md \<noteq> [] \<and> md_Source md \<noteq> [] \<and> md_Version md \<noteq> 0 \<and>
     PositionValidate (md_EventPosition md) = None \<and> ReferenceValidate (md_EventReference md) = None \<and>
     md_ReceivedAt md \<noteq> 0 \<and> md_AppliedAt md \<noteq> 0 \<and> md_HealthChangedAt md \<noteq> 0 \<and>
     (md_Health md = HealthHealthy \<and> md_HealthReason md = [] \<or>
      md_Health md = HealthDegraded \<and> md_HealthReason md \<noteq> [])"

lemma NewMarketSnapshot_Inr:
  "NewMarketSnapshot md data = Inr s \<longleftrightarrow>
     metadata_ok md \<and> (\<exists>d. data = Some d \<and> SnapshotKind d \<noteq> [] \<and> s = (md, d))"
  by (auto simp: NewMarketSnapshot_def metadata_ok_def check_eq_Inr IsZeroTime_def split: option.splits if_splits)

definition event_ok :: "'e MarketEvent \<Rightarrow> bool" where
  "event_ok e \<longleftrightarrow>
     me_Market e \<noteq> [] \<and> me_Source e \<noteq> [] \<and> PositionValidate (me_Position e) = None \<and>
     ReferenceValidate (me_Reference e) = None \<and> me_ReceivedAt e \<noteq> 0 \<and>
     (\<exists>d. me_Data e = Some d \<and> EventKind d \<noteq> [])"

lemma NewMarketEvent_Inr: "NewMarketEvent e = Inr e' \<Longrightarrow> e' = e \<and> event_ok e"
  by (auto simp: NewMarketEvent_def event_ok_def check_eq_Inr IsZeroTime_def split: option.splits if_splits)

lemma bundle_scan_Inr:
  "bundle_scan seen v b ss = Inr (v', b') \<Longrightarrow>
     distinct (map (md_Market \<circ> fst) ss) \<and> set (map (md_Market \<circ> fst) ss) \<inter> set seen = {} \<and>
     v \<le> v' \<and> (\<forall>s \<in> set ss. md_Version (fst s) \<le> v')"
proof (induction seen v b ss rule: bundle_scan.induct)
  case (2 seen v b md data rest)
  let ?v = "if md_Version md > v then md_Version md else v"
  from "2.prems" have c: "\<not> (md_Market md = [] \<or> md_Version md = 0)" "md_Market md \<notin> set seen"
    by (auto split: if_splits)
  have "distinct (map (md_Market \<circ> fst) rest) \<and>
      set (map (md_Market \<circ> fst) rest) \<inter> set (md_Market md # seen) = {} \<and>
      ?v \<le> v' \<and> (\<forall>s \<in> set rest. md_Version (fst s) \<le> v')"
    by (rule "2.IH" [OF c]) (use "2.prems" c in simp)
  moreover have "v \<le> ?v" "md_Version md \<le> ?v" by auto
  ultimately show ?case using c(2) by (auto simp: comp_def intro: order_trans)
qed simp

lemma NewQuote_Inr:
  assumes "NewQuote q fees = Inr q'"
  shows "q' = q\<lparr>q_Quality := q_Quality q', q_fees := fees\<rparr> \<and> q_SnapshotVersion q \<noteq> 0"
  using assms by (auto simp: NewQuote_def Let_def check_eq_Inr split: if_splits)

lemma conversion_valid_at_receipt:
  "NewQuoteConversionSnapshot sha p i u r e = Inr s \<Longrightarrow> ConversionValidAt s r"
  by (auto simp: NewQuoteConversionSnapshot_def ConversionValidAt_def split: if_splits)

end
