(* ===== verification/Market_Mirror.thy ===== *)
theory Market_Mirror
  imports Market_State
begin

text \<open>
  Market mirrors: \<open>src/core/marketstate/mirror.go\<close> and \<open>route.go\<close>, the contract of
  \<open>src/ports/feed\<close> and the ordering policies of \<open>src/adapters/feed/sourceorder\<close>.
  The children of a route bring their own reducer, ordering policy and clock reading.
  Every method runs under the mirror's mutex, so it is one transition. The clock reading
  and the error of the context are arguments; the reducer and the ordering policy, which
  each market supplies, are function arguments with their contracts as locales.
\<close>

section \<open>State\<close>

datatype mirror_error =
    CtxErr string
  | EventMismatch
  | ReduceErr string
  | SnapshotErr market_error
  | UpdateInvalidHealth string
  | UpdateTimestampRequired
  | UpdateReasonRequired
  | UpdateReasonUnexpected
  | MirrorIncomplete
  | ChildMirrorRequired
  | DuplicateChild MarketID
  | NotRouteChild MarketID
  | BatchEmpty
  | BatchMixesReferences
  | BatchEvent nat mirror_error
  | ChildHealthFailed MarketID mirror_error

record HealthUpdate =
  hu_Health :: string
  hu_Reason :: string
  hu_ObservedAt :: gotime

record 'p ApplyResult =
  ar_Disposition :: string
  ar_Reason :: string
  ar_Snapshot :: "'p MarketSnapshot option"

abbreviation ApplyDispositionApplied :: string where "ApplyDispositionApplied \<equiv> ''applied''"
abbreviation ApplyDispositionIgnoredStale :: string where "ApplyDispositionIgnoredStale \<equiv> ''ignored_stale''"

text \<open>
  \<open>hasState\<close> of a mirror is set together with \<open>current\<close> and never cleared, so the pair
  is an option.
\<close>

record 'p Mirror =
  mr_market :: MarketID
  mr_source :: SourceID
  mr_version :: "64 word"
  mr_current :: "'p MarketSnapshot option"
  mr_health :: string
  mr_healthReason :: string
  mr_healthChangedAt :: gotime

type_synonym ('e, 'p) reducer =
  "'p SnapshotData option \<Rightarrow> 'e EventData option \<Rightarrow> (string, 'p SnapshotData option \<times> string) result"

type_synonym 'e orderer = "SnapshotMetadata \<Rightarrow> 'e MarketEvent \<Rightarrow> bool \<times> string"

section \<open>The mirror of one market\<close>

definition NewMirror :: "MarketID \<Rightarrow> SourceID \<Rightarrow> gotime \<Rightarrow> (mirror_error, 'p Mirror) result" where
  "NewMirror marketID source now =
     (if marketID = [] \<or> source = [] then Inl MirrorIncomplete
      else Inr \<lparr>mr_market = marketID, mr_source = source, mr_version = 0, mr_current = None,
                mr_health = HealthHealthy, mr_healthReason = [], mr_healthChangedAt = now\<rparr>)"

definition event_metadata :: "'e MarketEvent \<Rightarrow> gotime \<Rightarrow> string \<Rightarrow> 'p Mirror \<Rightarrow> SnapshotMetadata" where
  "event_metadata event appliedAt stateHash m =
     \<lparr>md_Market = mr_market m, md_Source = mr_source m, md_Version = mr_version m,
      md_EventPosition = me_Position event, md_EventReference = me_Reference event,
      md_Finality = me_Finality event, md_SourceTime = me_SourceTime event,
      md_SourceTimeKnown = me_SourceTimeKnown event, md_ReceivedAt = me_ReceivedAt event,
      md_AppliedAt = appliedAt, md_Health = mr_health m, md_HealthReason = mr_healthReason m,
      md_HealthChangedAt = mr_healthChangedAt m, md_StateHash = stateHash\<rparr>"

definition stale_now :: "'e orderer \<Rightarrow> 'e MarketEvent \<Rightarrow> 'p Mirror \<Rightarrow> ('p MarketSnapshot \<times> string) option" where
  "stale_now stale event m =
     (case mr_current m of
        None \<Rightarrow> None
      | Some s \<Rightarrow> (case stale (fst s) event of (is_stale, reason) \<Rightarrow> if is_stale then Some (s, reason) else None))"

definition applyLocked ::
  "'e orderer \<Rightarrow> ('e, 'p) reducer \<Rightarrow> gotime \<Rightarrow> 'e MarketEvent \<Rightarrow> bool \<Rightarrow> 'p Mirror \<Rightarrow>
   (mirror_error, 'p ApplyResult) result \<times> 'p Mirror" where
  "applyLocked stale reduce now event reset m =
     (case (if reset then None else stale_now stale event m) of
        Some (s, reason) \<Rightarrow>
          (Inr \<lparr>ar_Disposition = ApplyDispositionIgnoredStale, ar_Reason = reason, ar_Snapshot = Some s\<rparr>, m)
      | None \<Rightarrow>
        (let previous = (if reset then None else map_option snd (mr_current m)) in
         case reduce previous (me_Data event) of
           Inl e \<Rightarrow> (Inl (ReduceErr e), m)
         | Inr (data, stateHash) \<Rightarrow>
             let m1 = m\<lparr>mr_version := mr_version m + 1,
                         mr_healthChangedAt :=
                           (if mr_health m \<noteq> HealthHealthy \<or> IsZeroTime (mr_healthChangedAt m) then now
                            else mr_healthChangedAt m),
                         mr_health := HealthHealthy, mr_healthReason := []\<rparr>
             in case NewMarketSnapshot (event_metadata event now stateHash m1) data of
                  Inl e \<Rightarrow> (Inl (SnapshotErr e), m1)
                | Inr snapshot \<Rightarrow>
                    (Inr \<lparr>ar_Disposition = ApplyDispositionApplied, ar_Reason = [], ar_Snapshot = Some snapshot\<rparr>,
                     m1\<lparr>mr_current := Some snapshot\<rparr>)))"

definition Apply ::
  "'e orderer \<Rightarrow> ('e, 'p) reducer \<Rightarrow> string option \<Rightarrow> gotime \<Rightarrow> 'e MarketEvent \<Rightarrow> 'p Mirror \<Rightarrow>
   (mirror_error, 'p ApplyResult) result \<times> 'p Mirror" where
  "Apply stale reduce ctxErr now event m =
     (case ctxErr of
        Some e \<Rightarrow> (Inl (CtxErr e), m)
      | None \<Rightarrow>
        if me_Market event \<noteq> mr_market m \<or> me_Source event \<noteq> mr_source m then (Inl EventMismatch, m)
        else case stale_now stale event m of
          Some (s, reason) \<Rightarrow>
            (Inr \<lparr>ar_Disposition = ApplyDispositionIgnoredStale, ar_Reason = reason, ar_Snapshot = Some s\<rparr>, m)
        | None \<Rightarrow> applyLocked stale reduce now event False m)"

definition Reset ::
  "'e orderer \<Rightarrow> ('e, 'p) reducer \<Rightarrow> string option \<Rightarrow> gotime \<Rightarrow> 'e MarketEvent \<Rightarrow> 'p Mirror \<Rightarrow>
   (mirror_error, 'p ApplyResult) result \<times> 'p Mirror" where
  "Reset stale reduce ctxErr now event m =
     (case ctxErr of
        Some e \<Rightarrow> (Inl (CtxErr e), m)
      | None \<Rightarrow>
        if me_Market event \<noteq> mr_market m \<or> me_Source event \<noteq> mr_source m then (Inl EventMismatch, m)
        else applyLocked stale reduce now event True m)"

definition HealthUpdateValidate :: "HealthUpdate \<Rightarrow> mirror_error option" where
  "HealthUpdateValidate u =
     (if hu_Health u \<noteq> HealthHealthy \<and> hu_Health u \<noteq> HealthDegraded then Some (UpdateInvalidHealth (hu_Health u))
      else if IsZeroTime (hu_ObservedAt u) then Some UpdateTimestampRequired
      else if hu_Health u = HealthDegraded \<and> hu_Reason u = [] then Some UpdateReasonRequired
      else if hu_Health u = HealthHealthy \<and> hu_Reason u \<noteq> [] then Some UpdateReasonUnexpected
      else None)"

definition SetHealth :: "string option \<Rightarrow> HealthUpdate \<Rightarrow> 'p Mirror \<Rightarrow> mirror_error option \<times> 'p Mirror" where
  "SetHealth ctxErr update m =
     (case ctxErr of
        Some e \<Rightarrow> (Some (CtxErr e), m)
      | None \<Rightarrow>
        case HealthUpdateValidate update of
          Some e \<Rightarrow> (Some e, m)
        | None \<Rightarrow>
          if mr_health m = hu_Health update \<and> mr_healthReason m = hu_Reason update then (None, m)
          else
            (let m1 = m\<lparr>mr_health := hu_Health update, mr_healthReason := hu_Reason update,
                        mr_healthChangedAt := hu_ObservedAt update\<rparr>
             in case mr_current m of
                  None \<Rightarrow> (None, m1)
                | Some (metadata, data) \<Rightarrow>
                    (case NewMarketSnapshot (metadata\<lparr>md_Health := hu_Health update,
                            md_HealthReason := hu_Reason update,
                            md_HealthChangedAt := hu_ObservedAt update\<rparr>) (Some data) of
                       Inl e \<Rightarrow> (Some (SnapshotErr e), m1)
                     | Inr snapshot \<Rightarrow> (None, m1\<lparr>mr_current := Some snapshot\<rparr>))))"

section \<open>Ordering policies\<close>

record Monotonic =
  mon_kind :: string
  mon_fallbackTimestamp :: bool

definition MonotonicStale :: "Monotonic \<Rightarrow> 'e orderer" where
  "MonotonicStale p current incoming =
     (if mon_kind p \<noteq> [] \<and> sp_Kind (me_Position incoming) = mon_kind p \<and>
         sp_Kind (md_EventPosition current) = mon_kind p
      then (if sp_Value (me_Position incoming) < sp_Value (md_EventPosition current)
            then (True, ''older_'' @ mon_kind p) else (False, []))
      else if mon_fallbackTimestamp p \<and> me_SourceTimeKnown incoming \<and> md_SourceTimeKnown current \<and>
              me_SourceTime incoming < md_SourceTime current
      then (True, ''older_source_timestamp'')
      else (False, []))"

definition ArrivalStale :: "'e orderer" where
  "ArrivalStale current incoming = (False, [])"

section \<open>The mirror of a multi-hop market\<close>

text \<open>
  The children are mirrors of single markets, kept in the order they were given. The map
  of children has exactly the keys of \<open>order\<close>, which is what the constructor builds.
\<close>

record 'p RouteMirror =
  rm_route :: MarketID
  rm_source :: SourceID
  rm_children :: "MarketID \<rightharpoonup> 'p Mirror"
  rm_order :: "MarketID list"
  rm_version :: "64 word"
  rm_current :: "'p MarketSnapshot option"
  rm_hasState :: bool
  rm_health :: string

definition add_child :: "'p RouteMirror \<Rightarrow> 'p Mirror \<Rightarrow> (mirror_error, 'p RouteMirror) result" where
  "add_child r child =
     (if mr_market child = [] then Inl ChildMirrorRequired
      else if mr_market child \<in> dom (rm_children r) then Inl (DuplicateChild (mr_market child))
      else Inr (r\<lparr>rm_children := (rm_children r)(mr_market child \<mapsto> child),
                  rm_order := rm_order r @ [mr_market child]\<rparr>))"

definition NewRouteMirror :: "MarketID \<Rightarrow> SourceID \<Rightarrow> 'p Mirror list \<Rightarrow> (mirror_error, 'p RouteMirror) result" where
  "NewRouteMirror route source children =
     (if route = [] \<or> source = [] \<or> children = [] then Inl MirrorIncomplete
      else foldM add_child
             \<lparr>rm_route = route, rm_source = source, rm_children = Map.empty, rm_order = [], rm_version = 0,
              rm_current = None, rm_hasState = False, rm_health = HealthHealthy\<rparr> children)"

text \<open>The snapshots of the children in order; \<open>None\<close> when one of them has no state yet.\<close>

fun child_snapshots :: "(MarketID \<rightharpoonup> 'p Mirror) \<Rightarrow> MarketID list \<Rightarrow> 'p MarketSnapshot list option" where
  "child_snapshots cs [] = Some []"
| "child_snapshots cs (mid # rest) =
     (case Option.bind (cs mid) mr_current of
        None \<Rightarrow> None
      | Some s \<Rightarrow> map_option ((#) s) (child_snapshots cs rest))"

definition child_degraded :: "(MarketID \<rightharpoonup> 'p Mirror) \<Rightarrow> MarketID \<Rightarrow> bool" where
  "child_degraded cs mid \<longleftrightarrow> map_option mr_health (cs mid) = Some HealthDegraded"

definition rebuildLocked ::
  "(string \<Rightarrow> string) \<Rightarrow> gotime \<Rightarrow> 'p MarketSnapshot option \<Rightarrow> 'p RouteMirror \<Rightarrow>
   mirror_error option \<times> 'p RouteMirror" where
  "rebuildLocked sha256 now trigger r =
     (case child_snapshots (rm_children r) (rm_order r) of
        None \<Rightarrow> (None, r\<lparr>rm_hasState := False\<rparr>)
      | Some snapshots \<Rightarrow>
        case NewSnapshotBundle sha256 (rm_route r) snapshots of
          Inl e \<Rightarrow> (Some (SnapshotErr e), r)
        | Inr bundle \<Rightarrow>
          (let degraded = list_ex (child_degraded (rm_children r)) (rm_order r);
               health = (if degraded then HealthDegraded else HealthHealthy);
               reason = (if degraded then ''route_child_degraded'' else []);
               r1 = r\<lparr>rm_health := health, rm_version := rm_version r + 1\<rparr>;
               base = (case trigger of Some t \<Rightarrow> fst t | None \<Rightarrow> fst (last snapshots));
               metadata = base\<lparr>md_Market := rm_route r, md_Source := rm_source r,
                 md_Version := rm_version r1, md_AppliedAt := now, md_Health := health,
                 md_HealthReason := reason, md_HealthChangedAt := now,
                 md_StateHash := (case bundle of RouteBundle _ _ _ h \<Rightarrow> h | _ \<Rightarrow> [])\<rparr>
           in case NewMarketSnapshot metadata (Some bundle) of
                Inl e \<Rightarrow> (Some (SnapshotErr e), r1)
              | Inr snapshot \<Rightarrow> (None, r1\<lparr>rm_current := Some snapshot, rm_hasState := True\<rparr>)))"

definition RouteApply ::
  "(string \<Rightarrow> string) \<Rightarrow> (MarketID \<Rightarrow> 'e orderer) \<Rightarrow> (MarketID \<Rightarrow> ('e, 'p) reducer) \<Rightarrow> string option \<Rightarrow>
   gotime \<Rightarrow> gotime \<Rightarrow> bool \<Rightarrow> 'e MarketEvent \<Rightarrow> 'p RouteMirror \<Rightarrow> (mirror_error, 'p ApplyResult) result \<times> 'p RouteMirror" where
  "RouteApply sha256 stale reduce ctxErr childNow now reset event r =
     (case rm_children r (me_Market event) of
        None \<Rightarrow> (Inl (NotRouteChild (me_Market event)), r)
      | Some child \<Rightarrow>
        case (if reset then Reset (stale (me_Market event)) (reduce (me_Market event)) ctxErr childNow event child
              else Apply (stale (me_Market event)) (reduce (me_Market event)) ctxErr childNow event child) of
          (res, child') \<Rightarrow>
            let r1 = r\<lparr>rm_children := (rm_children r)(me_Market event \<mapsto> child')\<rparr> in
            case res of
              Inl e \<Rightarrow> (Inl e, r1)
            | Inr result \<Rightarrow>
                if ar_Disposition result = ApplyDispositionIgnoredStale then (Inr result, r1)
                else case rebuildLocked sha256 now (ar_Snapshot result) r1 of
                  (Some e, r2) \<Rightarrow> (Inl e, r2)
                | (None, r2) \<Rightarrow> (Inr result, r2))"

text \<open>
  The loop of \<open>ApplyBatch\<close>: children advance one by one, the last result and whether any
  event was applied are remembered.
\<close>

fun batch_loop ::
  "(MarketID \<Rightarrow> 'e orderer) \<Rightarrow> (MarketID \<Rightarrow> ('e, 'p) reducer) \<Rightarrow> string option \<Rightarrow> (nat \<Rightarrow> gotime) \<Rightarrow>
   SourceReference \<Rightarrow> nat \<Rightarrow>
   'p ApplyResult option \<Rightarrow> bool \<Rightarrow> 'e MarketEvent list \<Rightarrow> 'p RouteMirror \<Rightarrow>
   (mirror_error, 'p ApplyResult option \<times> bool) result \<times> 'p RouteMirror" where
  "batch_loop stale reduce ctxErr childNow reference index lst applied [] r = (Inr (lst, applied), r)"
| "batch_loop stale reduce ctxErr childNow reference index lst applied (event # rest) r =
     (if ReferenceKnown reference \<and> me_Reference event \<noteq> reference then (Inl BatchMixesReferences, r)
      else case rm_children r (me_Market event) of
        None \<Rightarrow> (Inl (NotRouteChild (me_Market event)), r)
      | Some child \<Rightarrow>
        case Apply (stale (me_Market event)) (reduce (me_Market event)) ctxErr (childNow index) event child of
          (res, child') \<Rightarrow>
            let r1 = r\<lparr>rm_children := (rm_children r)(me_Market event \<mapsto> child')\<rparr> in
            case res of
              Inl e \<Rightarrow> (Inl (BatchEvent index e), r1)
            | Inr result \<Rightarrow>
                batch_loop stale reduce ctxErr childNow reference (Suc index) (Some result)
                  (applied \<or> ar_Disposition result = ApplyDispositionApplied) rest r1)"

definition ApplyBatch ::
  "(string \<Rightarrow> string) \<Rightarrow> (MarketID \<Rightarrow> 'e orderer) \<Rightarrow> (MarketID \<Rightarrow> ('e, 'p) reducer) \<Rightarrow> string option \<Rightarrow>
   (nat \<Rightarrow> gotime) \<Rightarrow> gotime \<Rightarrow> 'e MarketEvent list \<Rightarrow> 'p RouteMirror \<Rightarrow>
   (mirror_error, 'p ApplyResult option) result \<times> 'p RouteMirror" where
  "ApplyBatch sha256 stale reduce ctxErr childNow now events r =
     (case events of
        [] \<Rightarrow> (Inl BatchEmpty, r)
      | first # _ \<Rightarrow>
        case batch_loop stale reduce ctxErr childNow (me_Reference first) 0 None False events r of
          (Inl e, r1) \<Rightarrow> (Inl e, r1)
        | (Inr (lst, applied), r1) \<Rightarrow>
            if \<not> applied then (Inr lst, r1)
            else case rebuildLocked sha256 now (Option.bind lst ar_Snapshot) r1 of
              (Some e, r2) \<Rightarrow> (Inl e, r2)
            | (None, r2) \<Rightarrow>
                (Inr (Some \<lparr>ar_Disposition = ApplyDispositionApplied, ar_Reason = [],
                            ar_Snapshot = rm_current r2\<rparr>), r2))"

definition SetChildHealth ::
  "(string \<Rightarrow> string) \<Rightarrow> string option \<Rightarrow> MarketID \<Rightarrow> HealthUpdate \<Rightarrow> 'p RouteMirror \<Rightarrow>
   mirror_error option \<times> 'p RouteMirror" where
  "SetChildHealth sha256 ctxErr childID update r =
     (case rm_children r childID of
        None \<Rightarrow> (Some (NotRouteChild childID), r)
      | Some child \<Rightarrow>
        case SetHealth ctxErr update child of
          (Some e, child') \<Rightarrow> (Some e, r\<lparr>rm_children := (rm_children r)(childID \<mapsto> child')\<rparr>)
        | (None, child') \<Rightarrow>
            let r1 = r\<lparr>rm_children := (rm_children r)(childID \<mapsto> child')\<rparr> in
            if \<not> rm_hasState r1 then (None, r1)
            else rebuildLocked sha256 (hu_ObservedAt update) None r1)"

text \<open>
  A route-wide health update ranges over the map of children, whose iteration order Go
  leaves open: the order is the argument \<open>visit\<close>.
\<close>

fun set_all_health ::
  "string option \<Rightarrow> HealthUpdate \<Rightarrow> MarketID list \<Rightarrow> 'p RouteMirror \<Rightarrow> mirror_error option \<times> 'p RouteMirror" where
  "set_all_health ctxErr update [] r = (None, r)"
| "set_all_health ctxErr update (mid # rest) r =
     (case rm_children r mid of
        None \<Rightarrow> set_all_health ctxErr update rest r
      | Some child \<Rightarrow>
        case SetHealth ctxErr update child of
          (res, child') \<Rightarrow>
            let r1 = r\<lparr>rm_children := (rm_children r)(mid \<mapsto> child')\<rparr> in
            case res of
              Some e \<Rightarrow> (Some (ChildHealthFailed mid e), r1)
            | None \<Rightarrow> set_all_health ctxErr update rest r1)"

definition RouteSetHealth ::
  "(string \<Rightarrow> string) \<Rightarrow> string option \<Rightarrow> MarketID list \<Rightarrow> HealthUpdate \<Rightarrow> 'p RouteMirror \<Rightarrow> mirror_error option \<times> 'p RouteMirror" where
  "RouteSetHealth sha256 ctxErr visit update r =
     (case HealthUpdateValidate update of
        Some e \<Rightarrow> (Some e, r)
      | None \<Rightarrow>
        case set_all_health ctxErr update visit r of
          (Some e, r1) \<Rightarrow> (Some e, r1)
        | (None, r1) \<Rightarrow>
            if \<not> rm_hasState r1 then (None, r1)
            else rebuildLocked sha256 (hu_ObservedAt update) None r1)"

section \<open>What a mirror promises\<close>

definition health_ok :: "string \<Rightarrow> string \<Rightarrow> bool" where
  "health_ok health reason \<longleftrightarrow> health = HealthHealthy \<and> reason = [] \<or> health = HealthDegraded \<and> reason \<noteq> []"

definition mirror_ok :: "'p Mirror \<Rightarrow> bool" where
  "mirror_ok m \<longleftrightarrow>
     mr_market m \<noteq> [] \<and> mr_source m \<noteq> [] \<and> health_ok (mr_health m) (mr_healthReason m) \<and>
     (\<forall>s. mr_current m = Some s \<longrightarrow>
        metadata_ok (fst s) \<and> SnapshotKind (snd s) \<noteq> [] \<and> md_Market (fst s) = mr_market m \<and>
        md_Source (fst s) = mr_source m \<and> md_Version (fst s) \<le> mr_version m \<and>
        md_Health (fst s) = mr_health m \<and> md_HealthReason (fst s) = mr_healthReason m)"

text \<open>The contract of a reducer: what it returns is a snapshot payload with a kind.\<close>

locale event_reducer =
  fixes reduce :: "('e, 'p) reducer"
  assumes reduce_kind: "reduce previous event = Inr (data, h) \<Longrightarrow> \<exists>d. data = Some d \<and> SnapshotKind d \<noteq> []"
begin

text \<open>
  A delivered event has one of three outcomes: the reducer refuses it and the mirror is
  unchanged, it is stale and the mirror is unchanged, or a new healthy snapshot with the
  next version is published.
\<close>

lemma applyLocked_cases:
  assumes ok: "mirror_ok m" and ev: "event_ok event" and now: "now \<noteq> 0" and room: "mr_version m + 1 \<noteq> 0"
    and run: "applyLocked stale reduce now event rst m = (res, m')"
  obtains (refused) e where "res = Inl (ReduceErr e)" "m' = m"
  | (ignored) s reason where "\<not> rst" "stale_now stale event m = Some (s, reason)" "m' = m"
      "res = Inr \<lparr>ar_Disposition = ApplyDispositionIgnoredStale, ar_Reason = reason, ar_Snapshot = Some s\<rparr>"
  | (published) md d where "m' = m\<lparr>mr_version := mr_version m + 1, mr_healthChangedAt := md_HealthChangedAt md,
        mr_health := HealthHealthy, mr_healthReason := [], mr_current := Some (md, d)\<rparr>"
      "res = Inr \<lparr>ar_Disposition = ApplyDispositionApplied, ar_Reason = [], ar_Snapshot = Some (md, d)\<rparr>"
      "metadata_ok md" "SnapshotKind d \<noteq> []" "md_Market md = mr_market m" "md_Source md = mr_source m"
      "md_Version md = mr_version m + 1" "md_Health md = HealthHealthy" "md_HealthReason md = []"
      "md_EventPosition md = me_Position event" "rst \<or> stale_now stale event m = None"
proof (cases "if rst then None else stale_now stale event m")
  case (Some sr)
  obtain s reason where sr: "sr = (s, reason)" by (cases sr)
  have nr: "\<not> rst" "stale_now stale event m = Some (s, reason)" using Some sr by (simp_all split: if_splits)
  have out: "m' = m"
    "res = Inr \<lparr>ar_Disposition = ApplyDispositionIgnoredStale, ar_Reason = reason, ar_Snapshot = Some s\<rparr>"
    using run nr by (simp_all add: applyLocked_def)
  show ?thesis by (rule ignored [OF nr out])
next
  case None
  let ?prev = "if rst then None else map_option snd (mr_current m)"
  have order: "rst \<or> stale_now stale event m = None" using None by (cases rst) simp_all
  show ?thesis
  proof (cases "reduce ?prev (me_Data event)")
    case (Inl e)
    have "res = Inl (ReduceErr e)" "m' = m" using run unfolding applyLocked_def None Let_def Inl by simp_all
    then show ?thesis by (rule refused)
  next
    case (Inr dh)
    obtain data h where dh: "dh = (data, h)" by (cases dh)
    obtain d where d: "data = Some d" "SnapshotKind d \<noteq> []"
      using reduce_kind [of ?prev "me_Data event" data h] Inr dh by auto
    define m1 where "m1 = m\<lparr>mr_version := mr_version m + 1,
         mr_healthChangedAt := (if mr_health m \<noteq> HealthHealthy \<or> IsZeroTime (mr_healthChangedAt m) then now
            else mr_healthChangedAt m), mr_health := HealthHealthy, mr_healthReason := []\<rparr>"
    define md where "md = event_metadata event now h m1"
    have md: "metadata_ok md"
      using ok ev now room
      by (auto simp: metadata_ok_def md_def m1_def event_metadata_def mirror_ok_def event_ok_def IsZeroTime_def)
    then have snap: "NewMarketSnapshot md data = Inr (md, d)" using d by (simp add: NewMarketSnapshot_Inr)
    have eq: "(res, m') = (Inr \<lparr>ar_Disposition = ApplyDispositionApplied, ar_Reason = [],
        ar_Snapshot = Some (md, d)\<rparr>, m1\<lparr>mr_current := Some (md, d)\<rparr>)"
      using run [symmetric] unfolding applyLocked_def None Let_def Inr dh m1_def [symmetric] md_def [symmetric]
      by (simp add: Inr dh md_def [symmetric] m1_def [symmetric] snap)
    have eq': "res = Inr \<lparr>ar_Disposition = ApplyDispositionApplied, ar_Reason = [], ar_Snapshot = Some (md, d)\<rparr>"
      "m' = m1\<lparr>mr_current := Some (md, d)\<rparr>" using eq by simp_all
    show ?thesis
      by (rule published [of md d])
        (simp_all only: eq' md d order not_False_eq_True, simp_all add: md_def m1_def event_metadata_def)
  qed
qed

lemma applyLocked_ok:
  assumes "mirror_ok m" "event_ok event" "now \<noteq> 0" "mr_version m + 1 \<noteq> 0"
    and "applyLocked stale reduce now event rst m = (res, m')"
  shows "mirror_ok m'"
  using assms
proof (cases rule: applyLocked_cases)
  case (published md d)
  then show ?thesis using assms(1) by (simp add: mirror_ok_def health_ok_def)
qed (use assms in auto)

lemma Apply_ok:
  assumes "mirror_ok m" "event_ok event" "now \<noteq> 0" "mr_version m + 1 \<noteq> 0"
    and "Apply stale reduce ctxErr now event m = (res, m')"
  shows "mirror_ok m'"
proof -
  have "m' = m \<or> applyLocked stale reduce now event False m = (res, m')"
    using assms(5) by (auto simp: Apply_def split: option.splits if_splits)
  then show ?thesis using applyLocked_ok [OF assms(1-4)] assms(1) by blast
qed

lemma Reset_ok:
  assumes "mirror_ok m" "event_ok event" "now \<noteq> 0" "mr_version m + 1 \<noteq> 0"
    and "Reset stale reduce ctxErr now event m = (res, m')"
  shows "mirror_ok m'"
proof -
  have "m' = m \<or> applyLocked stale reduce now event True m = (res, m')"
    using assms(5) by (auto simp: Reset_def split: option.splits if_splits)
  then show ?thesis using applyLocked_ok [OF assms(1-4)] assms(1) by blast
qed

end

lemma HealthUpdateValidate_None:
  "HealthUpdateValidate u = None \<longleftrightarrow> hu_ObservedAt u \<noteq> 0 \<and> health_ok (hu_Health u) (hu_Reason u)"
  by (auto simp: HealthUpdateValidate_def health_ok_def IsZeroTime_def)

text \<open>A health update never touches the version or the payload of the published snapshot.\<close>

lemma SetHealth_cases:
  assumes ok: "mirror_ok m" and run: "SetHealth ctxErr u m = (res, m')"
  shows "(\<exists>e. res = Some e \<and> m' = m) \<or>
    (res = None \<and> mirror_ok m' \<and> mr_health m' = hu_Health u \<and> mr_healthReason m' = hu_Reason u \<and>
     mr_version m' = mr_version m \<and> map_option snd (mr_current m') = map_option snd (mr_current m))"
proof (cases "ctxErr = None \<and> HealthUpdateValidate u = None \<and>
    \<not> (mr_health m = hu_Health u \<and> mr_healthReason m = hu_Reason u)")
  case False
  then show ?thesis using run ok by (auto simp: SetHealth_def split: option.splits if_splits)
next
  case True
  then have u: "hu_ObservedAt u \<noteq> 0" "health_ok (hu_Health u) (hu_Reason u)" by (simp_all add: HealthUpdateValidate_None)
  let ?upd = "\<lambda>md. md\<lparr>md_Health := hu_Health u, md_HealthReason := hu_Reason u, md_HealthChangedAt := hu_ObservedAt u\<rparr>"
  have upd: "NewMarketSnapshot (?upd (fst s)) (Some (snd s)) = Inr (?upd (fst s), snd s)" if "mr_current m = Some s" for s
    using ok that u by (simp add: NewMarketSnapshot_Inr mirror_ok_def metadata_ok_def health_ok_def)
  have ctx: "ctxErr = None" "HealthUpdateValidate u = None" "\<not> (mr_health m = hu_Health u \<and> mr_healthReason m = hu_Reason u)"
    using True by blast+
  show ?thesis
  proof (cases "mr_current m")
    case None
    then show ?thesis using run ok u unfolding SetHealth_def ctx by (auto simp: ctx mirror_ok_def)
  next
    case (Some s)
    have "m' = m\<lparr>mr_health := hu_Health u, mr_healthReason := hu_Reason u, mr_healthChangedAt := hu_ObservedAt u,
        mr_current := Some (?upd (fst s), snd s)\<rparr>" "res = None"
      using run upd [OF Some] unfolding SetHealth_def ctx by (cases s; simp add: ctx Some)+
    then show ?thesis using ok u Some by (simp add: mirror_ok_def metadata_ok_def health_ok_def)
  qed
qed

lemma SetHealth_frame:
  "SetHealth ctxErr u m = (res, m') \<Longrightarrow> mr_market m' = mr_market m \<and> mr_source m' = mr_source m \<and>
     mr_version m' = mr_version m \<and>
     map_option (md_EventPosition \<circ> fst) (mr_current m') = map_option (md_EventPosition \<circ> fst) (mr_current m)"
  by (auto simp: SetHealth_def Let_def NewMarketSnapshot_Inr split: option.splits if_splits sum.splits)

subsection \<open>Ordering\<close>

text \<open>
  An ordering policy refuses only with evidence: the event is older than the snapshot in
  the policy's order, and there is a reason to report.
\<close>

locale ordering_policy =
  fixes stale :: "'e orderer" and older :: "'e MarketEvent \<Rightarrow> SnapshotMetadata \<Rightarrow> bool"
  assumes stale_iff_older: "fst (stale md e) \<longleftrightarrow> older e md"
    and stale_reason: "fst (stale md e) \<Longrightarrow> snd (stale md e) \<noteq> []"
begin

lemma stale_now_older:
  "stale_now stale e m = None \<Longrightarrow> mr_current m = Some s \<Longrightarrow> \<not> older e (fst s)"
  using stale_iff_older [of "fst s" e] by (auto simp: stale_now_def split: prod.splits if_splits)

lemma stale_now_Some:
  "stale_now stale e m = Some (s, reason) \<Longrightarrow> mr_current m = Some s \<and> older e (fst s) \<and> reason \<noteq> []"
  using stale_iff_older [of "fst s" e] stale_reason [of "fst s" e]
  by (auto simp: stale_now_def split: option.splits prod.splits if_splits)

end

definition older_than :: "Monotonic \<Rightarrow> 'e MarketEvent \<Rightarrow> SnapshotMetadata \<Rightarrow> bool" where
  "older_than p e md \<longleftrightarrow>
     (if mon_kind p \<noteq> [] \<and> sp_Kind (me_Position e) = mon_kind p \<and> sp_Kind (md_EventPosition md) = mon_kind p
      then sp_Value (me_Position e) < sp_Value (md_EventPosition md)
      else mon_fallbackTimestamp p \<and> me_SourceTimeKnown e \<and> md_SourceTimeKnown md \<and>
           me_SourceTime e < md_SourceTime md)"

interpretation monotonic: ordering_policy "MonotonicStale p" "older_than p" for p
  by unfold_locales (simp_all add: MonotonicStale_def older_than_def split: if_splits)

interpretation arrival: ordering_policy ArrivalStale "\<lambda>e md. False"
  by unfold_locales (simp_all add: ArrivalStale_def)

subsection \<open>Routes\<close>

lemma child_snapshots_Some:
  "child_snapshots cs order = Some ss \<longleftrightarrow>
     length ss = length order \<and> (\<forall>i < length order. Option.bind (cs (order ! i)) mr_current = Some (ss ! i))"
proof (induction order arbitrary: ss)
  case (Cons mid order)
  show ?case
  proof (cases ss)
    case (Cons s ss')
    have "(\<forall>i < Suc (length order). Option.bind (cs ((mid # order) ! i)) mr_current = Some ((s # ss') ! i)) \<longleftrightarrow>
        Option.bind (cs mid) mr_current = Some s \<and>
        (\<forall>i < length order. Option.bind (cs (order ! i)) mr_current = Some (ss' ! i))"
      by (simp add: All_less_Suc2)
    then show ?thesis using Cons.IH [of ss'] by (auto simp: Cons split: option.splits)
  qed (auto split: option.splits)
qed auto

lemma NewSnapshotBundle_Inr:
  assumes "NewSnapshotBundle sha256 route ss = Inr b"
  shows "\<exists>v bytes. b = RouteBundle route ss v (sha256 bytes) \<and> (\<forall>s \<in> set ss. md_Version (fst s) \<le> v)"
  using assms bundle_scan_Inr
  by (fastforce simp: NewSnapshotBundle_def rbind_eq_Inr split: if_splits)

definition route_health :: "'p RouteMirror \<Rightarrow> string" where
  "route_health r =
     (if list_ex (child_degraded (rm_children r)) (rm_order r) then HealthDegraded else HealthHealthy)"

text \<open>
  What a rebuild publishes: the children's current snapshots in order under the next
  version, with the health of the worst child.
\<close>

definition route_published :: "'p RouteMirror \<Rightarrow> 'p RouteMirror \<Rightarrow> bool" where
  "route_published r r' \<longleftrightarrow>
     (\<exists>md ss v. rm_current r' = Some (md, RouteBundle (rm_route r) ss v (md_StateHash md)) \<and>
        child_snapshots (rm_children r) (rm_order r) = Some ss \<and> (\<forall>s \<in> set ss. md_Version (fst s) \<le> v) \<and>
        md_Version md = rm_version r + 1 \<and> md_Health md = route_health r \<and> md_Market md = rm_route r) \<and>
     rm_hasState r' \<and> rm_version r' = rm_version r + 1 \<and> rm_health r' = route_health r \<and>
     rm_children r' = rm_children r \<and> rm_order r' = rm_order r \<and> rm_route r' = rm_route r"

lemma rebuildLocked_cases:
  assumes run: "rebuildLocked sha256 now trigger r = (None, r')"
  shows "r' = r\<lparr>rm_hasState := False\<rparr> \<and> child_snapshots (rm_children r) (rm_order r) = None \<or> route_published r r'"
proof (cases "child_snapshots (rm_children r) (rm_order r)")
  case None
  then show ?thesis using run by (simp add: rebuildLocked_def)
next
  case (Some ss)
  then obtain b where b: "NewSnapshotBundle sha256 (rm_route r) ss = Inr b"
    using run by (auto simp: rebuildLocked_def split: sum.splits)
  then obtain v bytes where v: "b = RouteBundle (rm_route r) ss v (sha256 bytes)" "\<forall>s \<in> set ss. md_Version (fst s) \<le> v"
    using NewSnapshotBundle_Inr by blast
  define md where "md = (case trigger of Some t \<Rightarrow> fst t | None \<Rightarrow> fst (last ss))\<lparr>md_Market := rm_route r,
    md_Source := rm_source r, md_Version := rm_version r + 1, md_AppliedAt := now, md_Health := route_health r,
    md_HealthReason := (if list_ex (child_degraded (rm_children r)) (rm_order r) then ''route_child_degraded'' else []),
    md_HealthChangedAt := now, md_StateHash := sha256 bytes\<rparr>"
  obtain snapshot where snap: "NewMarketSnapshot md (Some b) = Inr snapshot" and
    r': "r' = r\<lparr>rm_health := route_health r, rm_version := rm_version r + 1, rm_current := Some snapshot, rm_hasState := True\<rparr>"
    using run Some b v(1) unfolding rebuildLocked_def Let_def md_def [symmetric]
    by (simp add: route_health_def [symmetric] md_def [symmetric] split: sum.splits)
  have s: "snapshot = (md, b)" using snap by (simp add: NewMarketSnapshot_Inr)
  show ?thesis
    unfolding route_published_def r' s v(1) using Some v(2) by (auto simp: md_def)
qed

lemma batch_loop_frame:
  "batch_loop stale reduce ctxErr cn reference i lst applied events r = (res, r') \<Longrightarrow>
     \<exists>cs. r' = r\<lparr>rm_children := cs\<rparr> \<and> dom cs = dom (rm_children r)"
proof (induction stale reduce ctxErr cn reference i lst applied events r rule: batch_loop.induct)
  case (1 stale reduce ctxErr cn reference i lst applied r)
  then have "r' = r\<lparr>rm_children := rm_children r\<rparr>" by simp
  then show ?case by blast
next
  case (2 stale reduce ctxErr cn reference index lst applied event rest r)
  show ?case
  proof (cases "(ReferenceKnown reference \<and> me_Reference event \<noteq> reference) \<or> rm_children r (me_Market event) = None")
    case True
    then have "r' = r\<lparr>rm_children := rm_children r\<rparr>" using "2.prems" by (auto split: if_splits)
    then show ?thesis by blast
  next
    case False
    then obtain child where child: "rm_children r (me_Market event) = Some child" by blast
    obtain ares child' where ap: "Apply (stale (me_Market event)) (reduce (me_Market event)) ctxErr (cn index) event child
        = (ares, child')" by fastforce
    let ?r1 = "r\<lparr>rm_children := (rm_children r)(me_Market event \<mapsto> child')\<rparr>"
    show ?thesis
    proof (cases ares)
      case (Inl e)
      then have "r' = ?r1" using "2.prems" False child ap by (auto simp: Let_def)
      moreover have "dom ((rm_children r)(me_Market event \<mapsto> child')) = dom (rm_children r)" using child by auto
      ultimately show ?thesis by blast
    next
      case (Inr result)
      have "batch_loop stale reduce ctxErr cn reference (Suc index) (Some result)
          (applied \<or> ar_Disposition result = ApplyDispositionApplied) rest ?r1 = (res, r')"
        using "2.prems" False child ap Inr by (auto simp: Let_def split: if_splits)
      then obtain cs where "r' = ?r1\<lparr>rm_children := cs\<rparr>" "dom cs = dom (rm_children ?r1)"
        using "2.IH" [OF _ child ap [symmetric] refl Inr] False by blast
      then show ?thesis using child by (intro exI [of _ cs]) (auto simp: insert_absorb)
    qed
  qed
qed

section \<open>Runs of a mirror\<close>

text \<open>
  A run of a mirror under the monotonic ordering policy: events that satisfy \<open>good\<close> are
  delivered and health updates arrive, in any order. Resets, which a feed asks for when a
  chain reorganises, start a new run.
\<close>

inductive mirror_step ::
  "Monotonic \<Rightarrow> ('e, 'p) reducer \<Rightarrow> ('e MarketEvent \<Rightarrow> bool) \<Rightarrow> 'p Mirror \<Rightarrow> 'p Mirror \<Rightarrow> bool"
  for p reduce good where
  deliver: "event_ok event \<Longrightarrow> good event \<Longrightarrow> now \<noteq> 0 \<Longrightarrow> mr_version m + 1 \<noteq> 0 \<Longrightarrow>
     Apply (MonotonicStale p) reduce ctxErr now event m = (res, m') \<Longrightarrow> mirror_step p reduce good m m'"
| health: "SetHealth ctxErr u m = (hres, m') \<Longrightarrow> mirror_step p reduce good m m'"

inductive mirror_run ::
  "Monotonic \<Rightarrow> ('e, 'p) reducer \<Rightarrow> ('e MarketEvent \<Rightarrow> bool) \<Rightarrow> 'p Mirror \<Rightarrow> 'p Mirror \<Rightarrow> bool"
  for p reduce good where
  rest: "mirror_run p reduce good m m"
| step: "mirror_run p reduce good m m' \<Longrightarrow> mirror_step p reduce good m' m'' \<Longrightarrow> mirror_run p reduce good m m''"

inductive_cases mirror_stepE: "mirror_step p reduce good m m'"

text \<open>The position, time and version a mirror has published.\<close>

definition published_position :: "'p Mirror \<Rightarrow> SourcePosition option" where
  "published_position m = map_option (md_EventPosition \<circ> fst) (mr_current m)"

text \<open>\<open>advances p m m'\<close>: what every step of a run keeps or moves forward.\<close>

definition position_le :: "SourcePosition option \<Rightarrow> SourcePosition option \<Rightarrow> bool" where
  "position_le a b \<longleftrightarrow>
     (case a of None \<Rightarrow> True | Some x \<Rightarrow> (case b of None \<Rightarrow> False | Some y \<Rightarrow> sp_Value x \<le> sp_Value y))"

definition advances :: "'p Mirror \<Rightarrow> 'p Mirror \<Rightarrow> bool" where
  "advances m m' \<longleftrightarrow> mr_version m \<le> mr_version m' \<and> position_le (published_position m) (published_position m')"

lemma position_le_refl [simp]: "position_le a a"
  by (simp add: position_le_def split: option.split)

lemma advances_refl [simp]: "advances m m"
  by (simp add: advances_def)

lemma advances_trans: "advances a b \<Longrightarrow> advances b c \<Longrightarrow> advances a c"
  by (auto simp: advances_def position_le_def split: option.splits)

lemma word_le_plus_one: "(w :: 64 word) + 1 \<noteq> 0 \<Longrightarrow> w \<le> w + 1"
  by unat_arith

context event_reducer
begin

lemma Apply_cases:
  assumes "mirror_ok m" "event_ok event" "now \<noteq> 0" "mr_version m + 1 \<noteq> 0"
    and run: "Apply stale reduce ctxErr now event m = (res, m')"
  shows "m' = m \<or> (\<exists>md d. mr_current m' = Some (md, d) \<and> md_EventPosition md = me_Position event \<and>
    md_Version md = mr_version m + 1 \<and> mr_version m' = mr_version m + 1 \<and> stale_now stale event m = None \<and>
    mr_market m' = mr_market m \<and> mr_source m' = mr_source m)"
proof -
  have "m' = m \<or> applyLocked stale reduce now event False m = (res, m')"
    using run by (auto simp: Apply_def split: option.splits if_splits)
  then show ?thesis
  proof
    assume al: "applyLocked stale reduce now event False m = (res, m')"
    show ?thesis by (rule applyLocked_cases [OF assms(1-4) al]) auto
  qed simp
qed

lemma mirror_step_ok:
  assumes st: "mirror_step p reduce good m m'" and ok: "mirror_ok m"
  shows "mirror_ok m' \<and> mr_market m' = mr_market m \<and> mr_source m' = mr_source m"
  using st
proof (cases rule: mirror_step.cases)
  case (deliver event now ctxErr res)
  show ?thesis
    using Apply_ok [OF ok deliver(1,3,4,5)] Apply_cases [OF ok deliver(1,3,4,5)] by blast
next
  case (health ctxErr u hres)
  then show ?thesis using SetHealth_cases [OF ok health] SetHealth_frame [OF health] ok by auto
qed

lemma mirror_run_ok:
  "mirror_run p reduce good m m' \<Longrightarrow> mirror_ok m \<Longrightarrow>
     mirror_ok m' \<and> mr_market m' = mr_market m \<and> mr_source m' = mr_source m"
  by (induction rule: mirror_run.induct) (auto dest: mirror_step_ok)

text \<open>With events of the policy's kind only, every step keeps the kind and moves forward.\<close>

lemma mirror_step_advances:
  assumes st: "mirror_step p reduce (\<lambda>e. sp_Kind (me_Position e) = mon_kind p) m m'" and ok: "mirror_ok m"
    and kind: "mon_kind p \<noteq> []" "\<forall>s. mr_current m = Some s \<longrightarrow> sp_Kind (md_EventPosition (fst s)) = mon_kind p"
  shows "advances m m' \<and> (\<forall>s. mr_current m' = Some s \<longrightarrow> sp_Kind (md_EventPosition (fst s)) = mon_kind p)"
  using st
proof (cases rule: mirror_step.cases)
  case (deliver event now ctxErr res)
  from Apply_cases [OF ok deliver(1,3,4,5)] show ?thesis
  proof
    assume "m' = m" then show ?thesis using kind by simp
  next
    assume "\<exists>md d. mr_current m' = Some (md, d) \<and> md_EventPosition md = me_Position event \<and>
      md_Version md = mr_version m + 1 \<and> mr_version m' = mr_version m + 1 \<and>
      stale_now (MonotonicStale p) event m = None \<and> mr_market m' = mr_market m \<and> mr_source m' = mr_source m"
    then obtain md d where cur: "mr_current m' = Some (md, d)" "md_EventPosition md = me_Position event"
      "mr_version m' = mr_version m + 1" "stale_now (MonotonicStale p) event m = None" by blast
    have "sp_Value (md_EventPosition (fst s)) \<le> sp_Value (me_Position event)" if "mr_current m = Some s" for s
      using monotonic.stale_now_older [OF cur(4) that] kind(1) kind(2) [rule_format, OF that] deliver(2)
      by (simp add: older_than_def)
    then show ?thesis using cur deliver(2) word_le_plus_one [OF deliver(4)]
      by (auto simp: advances_def position_le_def published_position_def split: option.split)
  qed
next
  case (health ctxErr u hres)
  have frame: "mr_version m' = mr_version m" "published_position m' = published_position m"
    using SetHealth_frame [OF health] by (simp_all add: published_position_def)
  then have "sp_Kind (md_EventPosition (fst s)) = mon_kind p" if "mr_current m' = Some s" for s
    using kind(2) that by (cases "mr_current m") (auto simp: published_position_def)
  then show ?thesis using frame by (simp add: advances_def)
qed

lemma mirror_run_advances:
  "mirror_run p reduce (\<lambda>e. sp_Kind (me_Position e) = mon_kind p) m m' \<Longrightarrow> mirror_ok m \<Longrightarrow> mon_kind p \<noteq> [] \<Longrightarrow>
     \<forall>s. mr_current m = Some s \<longrightarrow> sp_Kind (md_EventPosition (fst s)) = mon_kind p \<Longrightarrow>
     advances m m' \<and> (\<forall>s. mr_current m' = Some s \<longrightarrow> sp_Kind (md_EventPosition (fst s)) = mon_kind p)"
proof (induction rule: mirror_run.induct)
  case (step m m' m'')
  have ok: "mirror_ok m'" using mirror_run_ok [OF step.hyps(1) step.prems(1)] by simp
  show ?case using mirror_step_advances [OF step.hyps(2) ok step.prems(2)] step.IH [OF step.prems] advances_trans by blast
qed simp

end

section \<open>Properties\<close>

lemma NewMirror_ok: "NewMirror mid src now = Inr m \<Longrightarrow> mirror_ok m \<and> mr_current m = None \<and> mr_market m = mid"
  by (auto simp: NewMirror_def mirror_ok_def health_ok_def split: if_splits)


text \<open>
  C8: Under the monotonic ordering policy, with events that carry the policy's position
  kind, no interleaving of deliveries, refusals and health updates moves the published
  position or the version of a mirror backwards.
\<close>

theorem mirror_position_monotone:
  assumes "event_reducer reduce" and "NewMirror mid src now = Inr m" and "mon_kind p \<noteq> []"
    and "mirror_run p reduce (\<lambda>e. sp_Kind (me_Position e) = mon_kind p) m m'"
    and "mirror_run p reduce (\<lambda>e. sp_Kind (me_Position e) = mon_kind p) m' m''"
  shows "mr_version m' \<le> mr_version m'' \<and> position_le (published_position m') (published_position m'')"
proof -
  have m: "mirror_ok m" "\<forall>s. mr_current m = Some s \<longrightarrow> sp_Kind (md_EventPosition (fst s)) = mon_kind p"
    using NewMirror_ok [OF assms(2)] by auto
  have "mirror_ok m'" using event_reducer.mirror_run_ok [OF assms(1,4) m(1)] by simp
  then have "advances m' m''"
    using event_reducer.mirror_run_advances [OF assms(1,5) _ assms(3)]
      event_reducer.mirror_run_advances [OF assms(1,4) m(1) assms(3) m(2)] by blast
  then show ?thesis by (simp add: advances_def)
qed


section \<open>Witnesses\<close>

definition sample_reduce :: "(nat, nat) reducer" where
  "sample_reduce previous event =
     (case event of None \<Rightarrow> Inl ''no payload'' | Some e \<Rightarrow> Inr (Some (ProtocolData ''sample/v1'' (EventPayload e)), ''h''))"

interpretation sample: event_reducer sample_reduce
  by unfold_locales (auto simp: sample_reduce_def split: option.splits)

definition sample_policy :: Monotonic where
  "sample_policy = \<lparr>mon_kind = ''slot'', mon_fallbackTimestamp = False\<rparr>"

definition sample_event :: "nat \<Rightarrow> 64 word \<Rightarrow> nat MarketEvent" where
  "sample_event payload slot =
     \<lparr>me_Market = ''m1'', me_Source = ''s1'', me_Position = \<lparr>sp_Kind = ''slot'', sp_Value = slot\<rparr>,
      me_Reference = \<lparr>sr_Kind = ''tx'', sr_Value = ''t1''\<rparr>, me_Finality = ''confirmed'', me_SourceTime = 0,
      me_SourceTimeKnown = False, me_ReceivedAt = 5, me_Reverts = False, me_Data = Some (EventData ''e/v1'' payload)\<rparr>"

definition sample_mirror :: "nat Mirror" where
  "sample_mirror = \<lparr>mr_market = ''m1'', mr_source = ''s1'', mr_version = 0, mr_current = None,
     mr_health = HealthHealthy, mr_healthReason = [], mr_healthChangedAt = 1\<rparr>"

definition sample_deliver :: "nat \<Rightarrow> 64 word \<Rightarrow> nat Mirror \<Rightarrow> nat Mirror" where
  "sample_deliver payload slot m =
     snd (Apply (MonotonicStale sample_policy) sample_reduce None 9 (sample_event payload slot) m)"

lemmas mirror_eval = sample_deliver_def Apply_def stale_now_def applyLocked_def Let_def sample_reduce_def
  event_metadata_def NewMarketSnapshot_def PositionValidate_def ReferenceValidate_def IsZeroTime_def check_def
  MonotonicStale_def sample_policy_def sample_event_def sample_mirror_def

lemma sample_step:
  assumes "mr_version m + 1 \<noteq> 0"
  shows "mirror_step sample_policy sample_reduce (\<lambda>e. sp_Kind (me_Position e) = mon_kind sample_policy) m
    (sample_deliver payload slot m)"
proof (rule mirror_step.deliver)
  show "event_ok (sample_event payload slot)"
    by (simp add: event_ok_def sample_event_def PositionValidate_def ReferenceValidate_def)
  show "Apply (MonotonicStale sample_policy) sample_reduce None 9 (sample_event payload slot) m =
      (fst (Apply (MonotonicStale sample_policy) sample_reduce None 9 (sample_event payload slot) m),
       sample_deliver payload slot m)" by (simp add: sample_deliver_def)
qed (use assms in \<open>simp_all add: sample_event_def sample_policy_def\<close>)

lemma sample_version: "mr_version (sample_deliver 7 10 sample_mirror) = 1"
  by (simp add: mirror_eval)

lemma sample_run:
  "mirror_run sample_policy sample_reduce (\<lambda>e. sp_Kind (me_Position e) = mon_kind sample_policy) sample_mirror
     (sample_deliver 7 10 sample_mirror)"
  by (rule mirror_run.step [OF mirror_run.rest]) (rule sample_step, simp add: sample_mirror_def)

lemma sample_run_late:
  "mirror_run sample_policy sample_reduce (\<lambda>e. sp_Kind (me_Position e) = mon_kind sample_policy)
     (sample_deliver 7 10 sample_mirror) (sample_deliver 8 4 (sample_deliver 7 10 sample_mirror))"
  by (rule mirror_run.step [OF mirror_run.rest]) (rule sample_step, simp add: sample_version)

lemma sample_new: "NewMirror ''m1'' ''s1'' 1 = Inr sample_mirror"
  by (simp add: NewMirror_def sample_mirror_def)


theorem mirror_position_monotone_witness:
  "mr_version (sample_deliver 7 10 sample_mirror) \<le> mr_version (sample_deliver 8 4 (sample_deliver 7 10 sample_mirror)) \<and>
   published_position (sample_deliver 7 10 sample_mirror) = Some \<lparr>sp_Kind = ''slot'', sp_Value = 10\<rparr>"
proof -
  have "mon_kind sample_policy \<noteq> []" by (simp add: sample_policy_def)
  from mirror_position_monotone [OF sample.event_reducer_axioms sample_new this sample_run sample_run_late]
  show ?thesis by (simp add: published_position_def mirror_eval)
qed

definition sample_route :: "nat RouteMirror" where
  "sample_route = \<lparr>rm_route = ''r'', rm_source = ''s'', rm_children = [''m1'' \<mapsto> sample_mirror], rm_order = [''m1''],
     rm_version = 3, rm_current = None, rm_hasState = False, rm_health = HealthHealthy\<rparr>"

definition sample_metadata :: SnapshotMetadata where
  "sample_metadata = event_metadata (sample_event 7 10) 9 ''h'' (sample_mirror\<lparr>mr_version := 1\<rparr>)"

definition sample_advanced :: "nat Mirror" where
  "sample_advanced = sample_mirror\<lparr>mr_version := 1, mr_current := Some (sample_metadata, ProtocolData ''sample/v1'' 7)\<rparr>"

definition sample_applied :: "nat ApplyResult" where
  "sample_applied = \<lparr>ar_Disposition = ApplyDispositionApplied, ar_Reason = [],
     ar_Snapshot = Some (sample_metadata, ProtocolData ''sample/v1'' 7)\<rparr>"

lemma sample_apply:
  "Apply ArrivalStale sample_reduce None 9 (sample_event 7 10) sample_mirror = (Inr sample_applied, sample_advanced)"
  by (simp add: mirror_eval ArrivalStale_def sample_metadata_def sample_advanced_def sample_applied_def)

definition sample_batch :: "(mirror_error, nat ApplyResult option) result \<times> nat RouteMirror" where
  "sample_batch = ApplyBatch (\<lambda>bytes. bytes) (\<lambda>_. ArrivalStale) (\<lambda>_. sample_reduce) None (\<lambda>_. 9) 11
     [sample_event 7 10] sample_route"

lemma sample_batch_loop:
  "batch_loop (\<lambda>_. ArrivalStale) (\<lambda>_. sample_reduce) None (\<lambda>_. 9) (me_Reference (sample_event 7 10)) 0 None False
     [sample_event 7 10] sample_route =
   (Inr (Some sample_applied, True), sample_route\<lparr>rm_children := [''m1'' \<mapsto> sample_advanced]\<rparr>)"
proof -
  have "me_Market (sample_event 7 10) = ''m1''" by (simp add: sample_event_def)
  then show ?thesis by (simp add: sample_route_def sample_apply) (simp add: sample_applied_def)
qed

lemma sample_rebuild:
  "\<exists>r'. rebuildLocked (\<lambda>bytes. bytes) 11 (ar_Snapshot sample_applied)
     (sample_route\<lparr>rm_children := [''m1'' \<mapsto> sample_advanced]\<rparr>) = (None, r') \<and> rm_version r' = 4 \<and> rm_hasState r'"
  by (simp add: rebuildLocked_def sample_route_def sample_advanced_def sample_applied_def sample_metadata_def mirror_eval
      NewSnapshotBundle_def child_degraded_def rbind_def)

lemma sample_batch_ok: "\<exists>res. fst sample_batch = Inr res" "rm_version (snd sample_batch) = 4" "rm_hasState (snd sample_batch)"
  using sample_rebuild sample_batch_loop by (auto simp: sample_batch_def ApplyBatch_def)


end
