(* ===== verification/Constant_Product.thy ===== *)
theory Constant_Product
  imports Market_Registry Market_Mirror
begin

text \<open>
  The constant-product market adapter, \<open>src/adapters/market/constantproduct\<close>, and the
  inputs of the quote port, \<open>src/ports/quote/quote.go\<close>. Event and snapshot payloads of
  other adapters, which Go's type assertions reject, are the second constructor of the
  payload types.
\<close>

section \<open>The quote port\<close>

record 'p QuoteInput =
  qi_Snapshot :: "'p MarketSnapshot"
  qi_TokenIn :: TokenID
  qi_TokenOut :: TokenID
  qi_AmountIn :: TokenAmount
  qi_Purpose :: string
  qi_QuotedAt :: gotime

record 'p ExactOutputInput =
  xo_Snapshot :: "'p MarketSnapshot"
  xo_TokenIn :: TokenID
  xo_TokenOut :: TokenID
  xo_AmountOut :: TokenAmount
  xo_Purpose :: string
  xo_QuotedAt :: gotime

section \<open>State\<close>

record ReserveUpdate =
  ru_baseReserve :: "int option"
  ru_quoteReserve :: "int option"
  ru_feeBPS :: "16 word"

record CPSnapshot =
  cp_schemaVersion :: "16 word"
  cp_baseReserve :: "int option"
  cp_quoteReserve :: "int option"
  cp_feeBPS :: "16 word"

datatype cp_event = ReserveUpdated ReserveUpdate | ForeignEvent
datatype cp_data = CPState CPSnapshot | ForeignState

datatype cp_error =
    CPContext string
  | ReservesNotPositive
  | FeeTooHigh
  | QuoterIncomplete
  | WrongMarket MarketID
  | IncompatibleSnapshot
  | AmountMismatch
  | UnsupportedDirection TokenID TokenID
  | ReserveExhausted
  | QuoteOutputRoundsToZero
  | CPAmount amount_error
  | CPQuote quote_error

abbreviation snapshotSchemaVersion :: "16 word" where "snapshotSchemaVersion \<equiv> 1"
abbreviation basisPoints :: int where "basisPoints \<equiv> 10000"
abbreviation cpSnapshotKind :: string where "cpSnapshotKind \<equiv> ''constant_product/v1''"
abbreviation cpEventKind :: string where "cpEventKind \<equiv> ''constant_product/reserves/v1''"

definition NewReserveUpdate :: "int option \<Rightarrow> int option \<Rightarrow> 16 word \<Rightarrow> (cp_error, ReserveUpdate) result" where
  "NewReserveUpdate baseReserve quoteReserve feeBPS =
     (case (baseReserve, quoteReserve) of
        (Some b, Some q) \<Rightarrow>
          if b \<le> 0 \<or> q \<le> 0 then Inl ReservesNotPositive
          else if feeBPS \<ge> 10000 then Inl FeeTooHigh
          else Inr \<lparr>ru_baseReserve = Some b, ru_quoteReserve = Some q, ru_feeBPS = feeBPS\<rparr>
      | _ \<Rightarrow> Inl ReservesNotPositive)"

text \<open>The accessors copy the reserve and read a nil pointer as zero.\<close>

definition reserve_value :: "int option \<Rightarrow> int" where
  "reserve_value r = (case r of None \<Rightarrow> 0 | Some v \<Rightarrow> v)"

definition update_invalid :: "ReserveUpdate \<Rightarrow> bool" where
  "update_invalid u \<longleftrightarrow> reserve_value (ru_baseReserve u) \<le> 0 \<or> reserve_value (ru_quoteReserve u) \<le> 0 \<or>
     ru_feeBPS u \<ge> 10000"

section \<open>The reducer\<close>

text \<open>The text that is hashed: the four fields in decimal, separated by bars.\<close>

definition state_payload :: "CPSnapshot \<Rightarrow> string" where
  "state_payload s = join_strings ''|''
     [int_string (uint (cp_schemaVersion s)), int_string (reserve_value (cp_baseReserve s)),
      int_string (reserve_value (cp_quoteReserve s)), int_string (uint (cp_feeBPS s))]"

definition cp_Reduce :: "(string \<Rightarrow> string) \<Rightarrow> string option \<Rightarrow> (cp_event, cp_data) reducer" where
  "cp_Reduce sha256 ctxErr previous data =
     (case ctxErr of
        Some e \<Rightarrow> Inl e
      | None \<Rightarrow>
        case data of
          Some (EventData _ (ReserveUpdated u)) \<Rightarrow>
            if update_invalid u then Inl ''invalid reserve update''
            else
              (let state = \<lparr>cp_schemaVersion = snapshotSchemaVersion,
                            cp_baseReserve = Some (reserve_value (ru_baseReserve u)),
                            cp_quoteReserve = Some (reserve_value (ru_quoteReserve u)), cp_feeBPS = ru_feeBPS u\<rparr>
               in Inr (Some (ProtocolData cpSnapshotKind (CPState state)), sha256 (state_payload state)))
        | _ \<Rightarrow> Inl ''unsupported constant-product event payload'')"

section \<open>The quoter\<close>

record Quoter =
  qt_id :: SourceID
  qt_market :: Market

definition NewQuoter :: "SourceID \<Rightarrow> Market \<Rightarrow> (cp_error, Quoter) result" where
  "NewQuoter srcID candidate =
     (if srcID = [] \<or> mkt_ID candidate = [] \<or> mkt_BaseToken candidate = [] \<or> mkt_QuoteToken candidate = []
      then Inl QuoterIncomplete else Inr \<lparr>qt_id = srcID, qt_market = candidate\<rparr>)"

definition reserves :: "Quoter \<Rightarrow> CPSnapshot \<Rightarrow> TokenID \<Rightarrow> TokenID \<Rightarrow> (cp_error, int \<times> int) result" where
  "reserves q state tokenIn tokenOut =
     (if tokenIn = mkt_QuoteToken (qt_market q) \<and> tokenOut = mkt_BaseToken (qt_market q)
      then Inr (reserve_value (cp_quoteReserve state), reserve_value (cp_baseReserve state))
      else if tokenIn = mkt_BaseToken (qt_market q) \<and> tokenOut = mkt_QuoteToken (qt_market q)
      then Inr (reserve_value (cp_baseReserve state), reserve_value (cp_quoteReserve state))
      else Inl (UnsupportedDirection tokenIn tokenOut))"

text \<open>The type assertion on the snapshot data, together with the schema check.\<close>

definition cp_state :: "cp_data SnapshotData \<Rightarrow> CPSnapshot option" where
  "cp_state data =
     (case data of
        ProtocolData _ (CPState s) \<Rightarrow> if cp_schemaVersion s = snapshotSchemaVersion then Some s else None
      | _ \<Rightarrow> None)"

definition lp_fee :: "TokenID \<Rightarrow> int \<Rightarrow> 16 word \<Rightarrow> (cp_error, QuoteFee) result" where
  "lp_fee tokenIn amountIn feeBPS =
     rbind (map_err CPAmount (NewTokenAmount tokenIn (Some (bigQuo (amountIn * uint feeBPS) basisPoints))))
       (\<lambda>fee. map_err CPQuote (NewQuoteFee ''liquidity_provider'' QuoteFeeCost fee True))"

definition quote_of ::
  "Quoter \<Rightarrow> SnapshotMetadata \<Rightarrow> string \<Rightarrow> string \<Rightarrow> TokenAmount \<Rightarrow> TokenAmount \<Rightarrow> gotime \<Rightarrow> Quote" where
  "quote_of q metadata purpose mode amountIn amountOut quotedAt =
     \<lparr>q_Source = qt_id q, q_Market = mkt_ID (qt_market q), q_SnapshotVersion = md_Version metadata,
      q_SnapshotHash = md_StateHash metadata, q_SourcePosition = \<lparr>sp_Kind = [], sp_Value = 0\<rparr>, q_ResponseHash = [],
      q_Purpose = purpose, q_Mode = mode, q_Quality = [], q_AmountIn = amountIn, q_AmountOut = amountOut,
      q_QuotedAt = quotedAt, q_fees = []\<rparr>"

definition cp_QuoteExactOutput ::
  "string option \<Rightarrow> Quoter \<Rightarrow> cp_data ExactOutputInput \<Rightarrow> (cp_error, Quote) result" where
  "cp_QuoteExactOutput ctxErr q inp =
     (case ctxErr of
        Some e \<Rightarrow> Inl (CPContext e)
      | None \<Rightarrow>
        let metadata = fst (xo_Snapshot inp) in
        if md_Market metadata \<noteq> mkt_ID (qt_market q) then Inl (WrongMarket (md_Market metadata))
        else case cp_state (snd (xo_Snapshot inp)) of
          None \<Rightarrow> Inl IncompatibleSnapshot
        | Some state \<Rightarrow>
          if amt_token (xo_AmountOut inp) \<noteq> xo_TokenOut inp \<or> AmountIsZero (xo_AmountOut inp)
          then Inl AmountMismatch
          else rbind (reserves q state (xo_TokenIn inp) (xo_TokenOut inp)) (\<lambda>(reserveIn, reserveOut).
            let amountOut = amt_units (xo_AmountOut inp) in
            if amountOut \<ge> reserveOut then Inl ReserveExhausted
            else
              let feeMultiplier = basisPoints - uint (cp_feeBPS state);
                  numerator = reserveIn * amountOut * basisPoints;
                  denominator = (reserveOut - amountOut) * feeMultiplier;
                  amountInUnits = bigQuo numerator denominator + 1
              in rbind (map_err CPAmount (NewTokenAmount (xo_TokenIn inp) (Some amountInUnits))) (\<lambda>amountIn.
                 rbind (lp_fee (xo_TokenIn inp) amountInUnits (cp_feeBPS state)) (\<lambda>feeComponent.
                 map_err CPQuote (NewQuote (quote_of q metadata (xo_Purpose inp) QuoteModeExactOutput amountIn
                   (xo_AmountOut inp) (xo_QuotedAt inp)) [feeComponent])))))"

definition cp_Quote :: "string option \<Rightarrow> Quoter \<Rightarrow> cp_data QuoteInput \<Rightarrow> (cp_error, Quote) result" where
  "cp_Quote ctxErr q inp =
     (case ctxErr of
        Some e \<Rightarrow> Inl (CPContext e)
      | None \<Rightarrow>
        let metadata = fst (qi_Snapshot inp) in
        if md_Market metadata \<noteq> mkt_ID (qt_market q) then Inl (WrongMarket (md_Market metadata))
        else case cp_state (snd (qi_Snapshot inp)) of
          None \<Rightarrow> Inl IncompatibleSnapshot
        | Some state \<Rightarrow>
          if amt_token (qi_AmountIn inp) \<noteq> qi_TokenIn inp \<or> AmountIsZero (qi_AmountIn inp)
          then Inl AmountMismatch
          else rbind (reserves q state (qi_TokenIn inp) (qi_TokenOut inp)) (\<lambda>(reserveIn, reserveOut).
            let amountIn = amt_units (qi_AmountIn inp);
                feeMultiplier = basisPoints - uint (cp_feeBPS state);
                amountInWithFee = amountIn * feeMultiplier;
                numerator = amountInWithFee * reserveOut;
                denominator = reserveIn * basisPoints + amountInWithFee;
                amountOutUnits = bigQuo numerator denominator
            in if amountOutUnits \<le> 0 then Inl QuoteOutputRoundsToZero
               else rbind (map_err CPAmount (NewTokenAmount (qi_TokenOut inp) (Some amountOutUnits))) (\<lambda>amountOut.
                 rbind (lp_fee (qi_TokenIn inp) amountIn (cp_feeBPS state)) (\<lambda>feeComponent.
                 map_err CPQuote (NewQuote (quote_of q metadata (qi_Purpose inp) QuoteModeExactInput (qi_AmountIn inp)
                   amountOut (qi_QuotedAt inp)) [feeComponent])))))"

section \<open>Lemmas\<close>

text \<open>The reducer keeps the mirror's contract, so every lemma about mirrors applies to it.\<close>

interpretation cp: event_reducer "cp_Reduce sha256 ctxErr" for sha256 ctxErr
  by unfold_locales
    (auto simp: cp_Reduce_def Let_def split: option.splits EventData.splits cp_event.splits if_splits)

text \<open>A state the reducer has produced: positive reserves and a fee below one hundred percent.\<close>

definition cp_state_ok :: "CPSnapshot \<Rightarrow> bool" where
  "cp_state_ok s \<longleftrightarrow> cp_schemaVersion s = snapshotSchemaVersion \<and> 0 < reserve_value (cp_baseReserve s) \<and>
     0 < reserve_value (cp_quoteReserve s) \<and> cp_feeBPS s < 10000"

lemma cp_Reduce_Inr:
  "cp_Reduce sha256 ctxErr previous data = Inr (out, h) \<Longrightarrow>
     \<exists>s. out = Some (ProtocolData cpSnapshotKind (CPState s)) \<and> cp_state_ok s \<and> h = sha256 (state_payload s)"
  by (auto simp: cp_Reduce_def Let_def cp_state_ok_def update_invalid_def not_le
      split: option.splits EventData.splits cp_event.splits if_splits) (simp_all add: reserve_value_def)

lemma NewQuote_amounts:
  "NewQuote quote fees = Inr r \<Longrightarrow> q_AmountIn r = q_AmountIn quote \<and> q_AmountOut r = q_AmountOut quote \<and>
     q_Mode r = q_Mode quote \<and> q_Market r = q_Market quote \<and> q_SnapshotVersion r = q_SnapshotVersion quote"
  by (auto simp: NewQuote_def Let_def check_eq_Inr split: if_splits)

text \<open>What a successful exact-input quote says: the output is the floor of the formula.\<close>

lemma cp_Quote_Inr:
  assumes "cp_Quote ctxErr q inp = Inr r"
  shows "\<exists>state x y. cp_state (snd (qi_Snapshot inp)) = Some state \<and>
    reserves q state (qi_TokenIn inp) (qi_TokenOut inp) = Inr (x, y) \<and>
    q_AmountIn r = qi_AmountIn inp \<and> amt_token (qi_AmountIn inp) = qi_TokenIn inp \<and>
    amt_token (q_AmountOut r) = qi_TokenOut inp \<and> q_Mode r = QuoteModeExactInput \<and>
    amt_units (q_AmountOut r) = bigQuo (amt_units (qi_AmountIn inp) * (basisPoints - uint (cp_feeBPS state)) * y)
      (x * basisPoints + amt_units (qi_AmountIn inp) * (basisPoints - uint (cp_feeBPS state))) \<and>
    0 < amt_units (q_AmountOut r)"
  using assms
  by (auto simp: cp_Quote_def Let_def rbind_eq_Inr map_err_eq_Inr NewTokenAmount_Inr quote_of_def
      dest!: NewQuote_amounts split: option.splits if_splits)

lemma cp_QuoteExactOutput_Inr:
  assumes "cp_QuoteExactOutput ctxErr q inp = Inr r"
  shows "\<exists>state x y. cp_state (snd (xo_Snapshot inp)) = Some state \<and>
    reserves q state (xo_TokenIn inp) (xo_TokenOut inp) = Inr (x, y) \<and>
    q_AmountOut r = xo_AmountOut inp \<and> amt_token (q_AmountIn r) = xo_TokenIn inp \<and>
    amt_token (xo_AmountOut inp) = xo_TokenOut inp \<and> q_Mode r = QuoteModeExactOutput \<and>
    amt_units (xo_AmountOut inp) \<noteq> 0 \<and> amt_units (xo_AmountOut inp) < y \<and>
    amt_units (q_AmountIn r) = bigQuo (x * amt_units (xo_AmountOut inp) * basisPoints)
      ((y - amt_units (xo_AmountOut inp)) * (basisPoints - uint (cp_feeBPS state))) + 1"
  using assms
  by (auto simp: cp_QuoteExactOutput_def Let_def rbind_eq_Inr map_err_eq_Inr NewTokenAmount_Inr quote_of_def AmountIsZero_def
      dest!: NewQuote_amounts split: option.splits if_splits)

subsection \<open>Arithmetic of the curve\<close>

text \<open>
  The output for \<open>a\<close> units against reserves \<open>x\<close> and \<open>y\<close> with the fee multiplier
  \<open>g\<close>, and when it reaches a target.
\<close>

definition cp_out :: "int \<Rightarrow> int \<Rightarrow> int \<Rightarrow> int \<Rightarrow> int" where
  "cp_out x y g a = bigQuo (a * g * y) (x * basisPoints + a * g)"

lemma cp_out_ge_iff:
  assumes "0 < x" "0 < y" "0 < g" "0 \<le> a"
  shows "t \<le> cp_out x y g a \<longleftrightarrow> t * x * basisPoints \<le> a * g * (y - t)"
proof -
  have "0 \<le> a * g * y" "0 < x * basisPoints + a * g" using assms by (simp_all add: add_pos_nonneg)
  from bigQuo_ge_iff [OF this, of t] show ?thesis by (simp add: cp_out_def algebra_simps)
qed

lemma cp_out_less:
  assumes "0 < x" "0 < y" "0 < g" "0 \<le> a"
  shows "cp_out x y g a < y"
proof -
  have "0 < y * x * basisPoints" using assms by simp
  then have "\<not> y \<le> cp_out x y g a" using cp_out_ge_iff [OF assms, of y] by simp
  then show ?thesis by simp
qed

lemma cp_out_mono:
  assumes pos: "0 < x" "0 < y" "0 < g" "0 \<le> a" and ab: "a \<le> b"
  shows "cp_out x y g a \<le> cp_out x y g b"
proof -
  let ?t = "cp_out x y g a"
  have "?t * x * basisPoints \<le> a * g * (y - ?t)" using cp_out_ge_iff [OF pos, of ?t] by simp
  also have "\<dots> \<le> b * g * (y - ?t)" using cp_out_less [OF pos] ab pos by (intro mult_right_mono) auto
  finally show ?thesis using cp_out_ge_iff [of x y g b ?t] pos ab by simp
qed

text \<open>The product of the reserves, with the fee credited to the pool.\<close>

lemma cp_out_product:
  assumes pos: "0 < x" "0 < y" "0 < g" "0 \<le> a" and fee: "g \<le> basisPoints"
  shows "x * y \<le> (x + a) * (y - cp_out x y g a)"
proof -
  let ?t = "cp_out x y g a"
  have "?t * x * basisPoints \<le> a * g * (y - ?t)" using cp_out_ge_iff [OF pos, of ?t] by simp
  also have "\<dots> \<le> a * basisPoints * (y - ?t)"
    using cp_out_less [OF pos] pos fee by (intro mult_right_mono mult_left_mono) auto
  finally have "?t * x \<le> a * (y - ?t)" by simp
  then show ?thesis by (simp add: algebra_simps)
qed

text \<open>The input the exact-output formula asks for, against the least one that is enough.\<close>

definition cp_in :: "int \<Rightarrow> int \<Rightarrow> int \<Rightarrow> int \<Rightarrow> int" where
  "cp_in x y g t = bigQuo (x * t * basisPoints) ((y - t) * g) + 1"

lemma cp_in_enough:
  assumes "0 < x" "0 < g" "0 < t" "t < y"
  shows "0 < cp_in x y g t" and "t \<le> cp_out x y g (cp_in x y g t)"
proof -
  have n: "0 \<le> x * t * basisPoints" "0 < (y - t) * g" using assms by simp_all
  show pos: "0 < cp_in x y g t" using bigQuo_bounds(3) [OF n] by (simp add: cp_in_def)
  have "x * t * basisPoints < cp_in x y g t * ((y - t) * g)" using bigQuo_bounds(2) [OF n] by (simp add: cp_in_def)
  then show "t \<le> cp_out x y g (cp_in x y g t)"
    using cp_out_ge_iff [of x y g "cp_in x y g t" t] assms pos by (simp add: algebra_simps)
qed

lemma cp_in_tight:
  assumes "0 < x" "0 < g" "0 < t" "t < y" "0 \<le> a" "a + 1 < cp_in x y g t"
  shows "cp_out x y g a < t"
proof -
  have n: "0 \<le> x * t * basisPoints" "0 < (y - t) * g" using assms by simp_all
  have "a + 1 \<le> bigQuo (x * t * basisPoints) ((y - t) * g)" using assms(6) by (simp add: cp_in_def)
  then have "(a + 1) * ((y - t) * g) \<le> x * t * basisPoints" using bigQuo_ge_iff [OF n] by simp
  moreover have "0 < (y - t) * g" by (rule n)
  ultimately have "a * ((y - t) * g) < x * t * basisPoints" by (simp add: algebra_simps)
  then show ?thesis using cp_out_ge_iff [of x y g a t] assms by (simp add: algebra_simps not_le [symmetric])
qed

lemma cp_state_Some: "cp_state d = Some s \<Longrightarrow> cp_schemaVersion s = snapshotSchemaVersion"
  by (auto simp: cp_state_def split: SnapshotData.splits cp_data.splits if_splits)

lemma cp_state_ok_reserves:
  assumes "cp_state_ok s" and "reserves q s tin tout = Inr (x, y)"
  shows "0 < x \<and> 0 < y \<and> 0 < basisPoints - uint (cp_feeBPS s) \<and> basisPoints - uint (cp_feeBPS s) \<le> basisPoints"
proof -
  have "uint (cp_feeBPS s) < 10000" using assms(1) by (simp add: cp_state_ok_def word_less_def)
  then show ?thesis using assms by (auto simp: cp_state_ok_def reserves_def split: if_splits)
qed

text \<open>When a quote is built: every field the constructor insists on is there.\<close>

lemma NewQuote_quote_of:
  "(\<exists>r. NewQuote (quote_of q md p mode ain aout t) [fee] = Inr r) \<longleftrightarrow>
     qt_id q \<noteq> [] \<and> mkt_ID (qt_market q) \<noteq> [] \<and> md_Version md \<noteq> 0 \<and> p \<noteq> [] \<and> t \<noteq> 0 \<and>
     mode \<in> {QuoteModeExactInput, QuoteModeExactOutput} \<and> amt_token ain \<noteq> [] \<and> amt_token aout \<noteq> [] \<and>
     \<not> fee_invalid fee"
  by (auto simp: NewQuote_def quote_of_def Let_def check_eq_Inr PositionValidate_def IsZeroTime_def enumerate_eq_zip)

lemma lp_fee_Inr:
  assumes "lp_fee token amount fee = Inr f" shows "token \<noteq> [] \<and> \<not> fee_invalid f"
  using assms
  by (auto simp: lp_fee_def rbind_eq_Inr map_err_eq_Inr NewQuoteFee_def NewTokenAmount_Inr fee_invalid_def split: if_splits)

lemma lp_fee_exists:
  assumes "token \<noteq> []" "0 \<le> amount" shows "\<exists>f. lp_fee token amount fee = Inr f \<and> \<not> fee_invalid f"
proof -
  have "0 \<le> bigQuo (amount * uint fee) basisPoints" using assms by (intro bigQuo_bounds(3)) simp_all
  then show ?thesis using assms by (simp add: lp_fee_def NewTokenAmount_def NewQuoteFee_def fee_invalid_def rbind_def)
qed

lemma cp_Quote_succeeds:
  assumes "md_Market (fst (qi_Snapshot inp)) = mkt_ID (qt_market q)" "cp_state (snd (qi_Snapshot inp)) = Some s"
    and "amt_token (qi_AmountIn inp) = qi_TokenIn inp" "0 < amt_units (qi_AmountIn inp)" "qi_TokenIn inp \<noteq> []"
    and "qi_TokenOut inp \<noteq> []" "reserves q s (qi_TokenIn inp) (qi_TokenOut inp) = Inr (x, y)"
    and "0 < cp_out x y (basisPoints - uint (cp_feeBPS s)) (amt_units (qi_AmountIn inp))"
    and "qt_id q \<noteq> []" "mkt_ID (qt_market q) \<noteq> []" "md_Version (fst (qi_Snapshot inp)) \<noteq> 0"
    and "qi_Purpose inp \<noteq> []" "qi_QuotedAt inp \<noteq> 0"
  shows "\<exists>r. cp_Quote None q inp = Inr r"
proof -
  let ?out = "cp_out x y (basisPoints - uint (cp_feeBPS s)) (amt_units (qi_AmountIn inp))"
  obtain f where f: "lp_fee (qi_TokenIn inp) (amt_units (qi_AmountIn inp)) (cp_feeBPS s) = Inr f" "\<not> fee_invalid f"
    using lp_fee_exists assms(4,5) by (metis less_imp_le)
  obtain r where "NewQuote (quote_of q (fst (qi_Snapshot inp)) (qi_Purpose inp) QuoteModeExactInput (qi_AmountIn inp)
      \<lparr>amt_token = qi_TokenOut inp, amt_units = ?out\<rparr> (qi_QuotedAt inp)) [f] = Inr r"
    using NewQuote_quote_of f(2) assms by fastforce
  then show ?thesis using assms f(1)
    by (simp add: cp_Quote_def Let_def rbind_def NewTokenAmount_def AmountIsZero_def cp_out_def [symmetric] not_le)
qed

lemma cp_QuoteExactOutput_side:
  assumes "cp_QuoteExactOutput ctxErr q xin = Inr r"
  shows "ctxErr = None \<and> md_Market (fst (xo_Snapshot xin)) = mkt_ID (qt_market q) \<and> xo_TokenIn xin \<noteq> [] \<and>
    xo_TokenOut xin \<noteq> [] \<and> qt_id q \<noteq> [] \<and> mkt_ID (qt_market q) \<noteq> [] \<and> md_Version (fst (xo_Snapshot xin)) \<noteq> 0 \<and>
    xo_Purpose xin \<noteq> [] \<and> xo_QuotedAt xin \<noteq> 0"
proof -
  from assms obtain ain f where "NewQuote (quote_of q (fst (xo_Snapshot xin)) (xo_Purpose xin) QuoteModeExactOutput ain
      (xo_AmountOut xin) (xo_QuotedAt xin)) [f] = Inr r" "amt_token ain = xo_TokenIn xin"
      "ctxErr = None" "md_Market (fst (xo_Snapshot xin)) = mkt_ID (qt_market q)"
      "amt_token (xo_AmountOut xin) = xo_TokenOut xin"
    by (auto simp: cp_QuoteExactOutput_def Let_def rbind_eq_Inr map_err_eq_Inr NewTokenAmount_Inr
        split: option.splits if_splits)
  then show ?thesis using NewQuote_quote_of by metis
qed

text \<open>A request for an exact output, and the exact-input request that spends what it asks for.\<close>

definition spend :: "cp_data ExactOutputInput \<Rightarrow> TokenAmount \<Rightarrow> cp_data QuoteInput" where
  "spend xin amount = \<lparr>qi_Snapshot = xo_Snapshot xin, qi_TokenIn = xo_TokenIn xin, qi_TokenOut = xo_TokenOut xin,
     qi_AmountIn = amount, qi_Purpose = xo_Purpose xin, qi_QuotedAt = xo_QuotedAt xin\<rparr>"

section \<open>Properties\<close>

text \<open>
  C9: An exact-input quote never costs the pool: against the reserves of a snapshot the
  reducer produced, the output leaves the pool non-empty and the product of the reserves
  after the trade is at least what it was; and the output is the largest that the fee
  allows, one unit more would take the fee-adjusted product below its old value.
\<close>

theorem cp_quote_keeps_product:
  assumes "cp_Quote ctxErr q inp = Inr r" and "cp_state (snd (qi_Snapshot inp)) = Some s" and "cp_state_ok s"
    and "reserves q s (qi_TokenIn inp) (qi_TokenOut inp) = Inr (x, y)" and "0 \<le> amt_units (qi_AmountIn inp)"
  shows "amt_units (q_AmountOut r) < y \<and>
    x * y \<le> (x + amt_units (q_AmountIn r)) * (y - amt_units (q_AmountOut r)) \<and>
    (x * basisPoints + amt_units (q_AmountIn r) * (basisPoints - uint (cp_feeBPS s))) *
      (y - (amt_units (q_AmountOut r) + 1)) < x * basisPoints * y"
proof -
  let ?g = "basisPoints - uint (cp_feeBPS s)" and ?a = "amt_units (qi_AmountIn inp)"
  have pos: "0 < x" "0 < y" "0 < ?g" "?g \<le> basisPoints" using cp_state_ok_reserves [OF assms(3,4)] by auto
  have r: "q_AmountIn r = qi_AmountIn inp" "amt_units (q_AmountOut r) = cp_out x y ?g ?a"
    using cp_Quote_Inr [OF assms(1)] assms(2,4) by (auto simp: cp_out_def)
  have "\<not> cp_out x y ?g ?a + 1 \<le> cp_out x y ?g ?a" by simp
  then have "\<not> (cp_out x y ?g ?a + 1) * x * basisPoints \<le> ?a * ?g * (y - (cp_out x y ?g ?a + 1))"
    using cp_out_ge_iff [OF pos(1-3) assms(5), of "cp_out x y ?g ?a + 1"] by simp
  then have "(x * basisPoints + ?a * ?g) * (y - (cp_out x y ?g ?a + 1)) < x * basisPoints * y"
    by (simp add: algebra_simps)
  then show ?thesis using r cp_out_less [OF pos(1-3) assms(5)] cp_out_product [OF pos(1-3) assms(5) pos(4)] by simp
qed

text \<open>
  An exact-output quote is sufficient and tight to one unit: spending the input it
  names as an exact-input quote on the same snapshot delivers at least the requested output,
  while every exact-input quote that spends at least two units less falls short of it.
\<close>

lemma cp_exact_output_sufficient:
  assumes "cp_QuoteExactOutput ctxErr q xin = Inr r" and "cp_state (snd (xo_Snapshot xin)) = Some s" and "cp_state_ok s"
    and "0 < amt_units (xo_AmountOut xin)"
  shows "(\<exists>r'. cp_Quote ctxErr q (spend xin (q_AmountIn r)) = Inr r' \<and>
      amt_units (xo_AmountOut xin) \<le> amt_units (q_AmountOut r')) \<and>
    (\<forall>less r'. 0 \<le> amt_units less \<and> amt_units less + 1 < amt_units (q_AmountIn r) \<and>
      cp_Quote ctxErr q (spend xin less) = Inr r' \<longrightarrow> amt_units (q_AmountOut r') < amt_units (xo_AmountOut xin))"
proof -
  let ?g = "basisPoints - uint (cp_feeBPS s)" and ?t = "amt_units (xo_AmountOut xin)"
  obtain x y where r: "reserves q s (xo_TokenIn xin) (xo_TokenOut xin) = Inr (x, y)"
      "amt_token (q_AmountIn r) = xo_TokenIn xin" "?t < y" "amt_units (q_AmountIn r) = cp_in x y ?g ?t"
    using cp_QuoteExactOutput_Inr [OF assms(1)] assms(2) by (auto simp: cp_in_def)
  have pos: "0 < x" "0 < ?g" using cp_state_ok_reserves [OF assms(3) r(1)] by auto
  note enough = cp_in_enough [OF pos assms(4) r(3)]
  note side = cp_QuoteExactOutput_side [OF assms(1)]
  obtain r' where r': "cp_Quote None q (spend xin (q_AmountIn r)) = Inr r'"
    using cp_Quote_succeeds [of "spend xin (q_AmountIn r)" q s x y] side assms(2,4) r enough by (auto simp: spend_def)
  have out: "amt_units (q_AmountOut r2) = cp_out x y ?g (amt_units amount)"
    if "cp_Quote None q (spend xin amount) = Inr r2" for amount r2
    using cp_Quote_Inr [OF that] assms(2) r(1) by (auto simp: cp_out_def spend_def)
  show ?thesis
    using r' out enough(2) cp_in_tight [OF pos assms(4) r(3)] r(4) side by fastforce
qed

text \<open>
  The payload that is hashed into the state hash determines the state: two reserve
  states with the same payload are equal, so equal hashes of different states could only
  come from a collision of the hash function.
\<close>

lemma state_payload_inject:
  assumes "state_payload s = state_payload t" and "cp_state_ok s" and "cp_state_ok t"
  shows "s = t"
proof -
  let ?fields = "\<lambda>u. [int_string (uint (cp_schemaVersion u)), int_string (reserve_value (cp_baseReserve u)),
      int_string (reserve_value (cp_quoteReserve u)), int_string (uint (cp_feeBPS u))]"
  have "?fields s = ?fields t"
    by (rule join_strings_inject [of "CHR ''|''"])
      (use assms(1) in \<open>auto simp: state_payload_def dest: int_string_no_separator(2) [THEN notE]\<close>)
  then have eq: "cp_schemaVersion s = cp_schemaVersion t" "cp_feeBPS s = cp_feeBPS t"
      "reserve_value (cp_baseReserve s) = reserve_value (cp_baseReserve t)"
      "reserve_value (cp_quoteReserve s) = reserve_value (cp_quoteReserve t)"
    by (simp_all add: int_string_inject word_uint_eq_iff)
  moreover have "cp_baseReserve u = Some (reserve_value (cp_baseReserve u))"
      "cp_quoteReserve u = Some (reserve_value (cp_quoteReserve u))" if "cp_state_ok u" for u
    using that by (auto simp: cp_state_ok_def reserve_value_def split: option.splits)
  ultimately show ?thesis using assms(2,3) by (metis CPSnapshot.surjective old.unit.exhaust)
qed

section \<open>Witnesses\<close>

definition sample_pool :: CPSnapshot where
  "sample_pool = \<lparr>cp_schemaVersion = 1, cp_baseReserve = Some 1000, cp_quoteReserve = Some 1000, cp_feeBPS = 0\<rparr>"

definition pool_metadata :: SnapshotMetadata where
  "pool_metadata = \<lparr>md_Market = ''m1'', md_Source = ''s1'', md_Version = 1,
     md_EventPosition = \<lparr>sp_Kind = ''slot'', sp_Value = 10\<rparr>, md_EventReference = \<lparr>sr_Kind = [], sr_Value = []\<rparr>,
     md_Finality = [], md_SourceTime = 0, md_SourceTimeKnown = False, md_ReceivedAt = 5, md_AppliedAt = 9,
     md_Health = HealthHealthy, md_HealthReason = [], md_HealthChangedAt = 1, md_StateHash = ''h''\<rparr>"

definition sample_quoter :: Quoter where
  "sample_quoter = \<lparr>qt_id = ''cp'', qt_market = \<lparr>mkt_ID = ''m1'', mkt_Pair = ''p'', mkt_Chain = ''c'', mkt_Path = ''x'',
     mkt_BaseToken = ''B'', mkt_QuoteToken = ''Q''\<rparr>\<rparr>"

definition sample_want :: "int \<Rightarrow> cp_data ExactOutputInput" where
  "sample_want t = \<lparr>xo_Snapshot = (pool_metadata, ProtocolData cpSnapshotKind (CPState sample_pool)), xo_TokenIn = ''Q'',
     xo_TokenOut = ''B'', xo_AmountOut = \<lparr>amt_token = ''B'', amt_units = t\<rparr>, xo_Purpose = ''research'', xo_QuotedAt = 7\<rparr>"

lemmas cp_eval = sample_pool_def pool_metadata_def sample_quoter_def sample_want_def spend_def cp_Quote_def
  cp_QuoteExactOutput_def cp_state_def reserves_def reserve_value_def Let_def rbind_def NewTokenAmount_def lp_fee_def
  NewQuoteFee_def NewQuote_def quote_of_def AmountIsZero_def PositionValidate_def IsZeroTime_def fee_invalid_def
  bigQuo_def enumerate_eq_zip map_err_def

definition sample_paid :: Quote where
  "sample_paid = quote_of sample_quoter pool_metadata ''research'' QuoteModeExactInput \<lparr>amt_token = ''Q'', amt_units = 100\<rparr>
     \<lparr>amt_token = ''B'', amt_units = 90\<rparr> 7
     \<lparr>q_Quality := QuoteQualityExact, q_fees := [\<lparr>qf_kind = ''liquidity_provider'', qf_effect = QuoteFeeCost,
       qf_amount = \<lparr>amt_token = ''Q'', amt_units = 0\<rparr>, qf_includedInAmounts = True\<rparr>]\<rparr>"

lemma sample_quote: "cp_Quote None sample_quoter (spend (sample_want 1) \<lparr>amt_token = ''Q'', amt_units = 100\<rparr>) = Inr sample_paid"
  by (simp add: cp_eval sample_paid_def)

lemma sample_pool_ok: "cp_state_ok sample_pool"
  by (simp add: cp_state_ok_def sample_pool_def reserve_value_def)

theorem cp_quote_keeps_product_witness:
  "amt_units (q_AmountOut sample_paid) = 90 \<and> amt_units (q_AmountOut sample_paid) < 1000 \<and>
   1000 * 1000 \<le> (1000 + amt_units (q_AmountIn sample_paid)) * (1000 - amt_units (q_AmountOut sample_paid))"
proof -
  have "cp_state (snd (qi_Snapshot (spend (sample_want 1) \<lparr>amt_token = ''Q'', amt_units = 100\<rparr>))) = Some sample_pool"
    "reserves sample_quoter sample_pool (qi_TokenIn (spend (sample_want 1) \<lparr>amt_token = ''Q'', amt_units = 100\<rparr>))
       (qi_TokenOut (spend (sample_want 1) \<lparr>amt_token = ''Q'', amt_units = 100\<rparr>)) = Inr (1000, 1000)"
    "0 \<le> amt_units (qi_AmountIn (spend (sample_want 1) \<lparr>amt_token = ''Q'', amt_units = 100\<rparr>))"
    by (simp_all add: cp_eval)
  from cp_quote_keeps_product [OF sample_quote this(1) sample_pool_ok this(2,3)]
  show ?thesis by (simp add: sample_paid_def quote_of_def)
qed

definition sample_exact :: Quote where
  "sample_exact = quote_of sample_quoter pool_metadata ''research'' QuoteModeExactOutput \<lparr>amt_token = ''Q'', amt_units = 1001\<rparr>
     \<lparr>amt_token = ''B'', amt_units = 500\<rparr> 7
     \<lparr>q_Quality := QuoteQualityExact, q_fees := [\<lparr>qf_kind = ''liquidity_provider'', qf_effect = QuoteFeeCost,
       qf_amount = \<lparr>amt_token = ''Q'', amt_units = 0\<rparr>, qf_includedInAmounts = True\<rparr>]\<rparr>"

lemma sample_exact_quote: "cp_QuoteExactOutput None sample_quoter (sample_want 500) = Inr sample_exact"
  by (simp add: cp_eval sample_exact_def)

lemma cp_exact_output_sufficient_example:
  "amt_units (q_AmountIn sample_exact) = 1001 \<and>
   (\<exists>r'. cp_Quote None sample_quoter (spend (sample_want 500) (q_AmountIn sample_exact)) = Inr r' \<and>
      500 \<le> amt_units (q_AmountOut r'))"
proof -
  have "cp_state (snd (xo_Snapshot (sample_want 500))) = Some sample_pool" "0 < amt_units (xo_AmountOut (sample_want 500))"
    by (simp_all add: cp_eval)
  from cp_exact_output_sufficient [OF sample_exact_quote this(1) sample_pool_ok this(2)]
  show ?thesis by (simp add: sample_want_def sample_exact_def quote_of_def)
qed

lemma state_payload_inject_example:
  "state_payload sample_pool = state_payload sample_pool \<and> sample_pool = sample_pool\<lparr>cp_feeBPS := 0\<rparr>"
proof -
  have "sample_pool\<lparr>cp_feeBPS := 0\<rparr> = sample_pool" by (simp add: sample_pool_def)
  then have "state_payload (sample_pool\<lparr>cp_feeBPS := 0\<rparr>) = state_payload sample_pool" "cp_state_ok (sample_pool\<lparr>cp_feeBPS := 0\<rparr>)"
    using sample_pool_ok by simp_all
  from state_payload_inject [OF this(1,2) sample_pool_ok] show ?thesis by simp
qed

end
