(* ===== verification/Exact_Output.thy ===== *)
theory Exact_Output
  imports Constant_Product "HOL-Library.Log_Nat"
begin

text \<open>
  Exact-output sizing, \<open>src/core/sizing/exact_output.go\<close>: the smallest exact-input quote
  that covers a target, by doubling and bisection over a quote source, or through the
  source's own exact-output capability when it has one.

  The source is an argument: its exact-input method, and its exact-output method when the
  Go type assertion to \<open>ExactOutputSource\<close> succeeds. The doubling loop has no counter; it is a
  \<open>partial_function\<close> with \<open>None\<close> for not returning, and it is proved to return.
\<close>

section \<open>The search\<close>

record 'p ExactOutputRequest =
  er_Snapshot :: "'p MarketSnapshot"
  er_TokenIn :: TokenID
  er_TokenOut :: TokenID
  er_TargetOut :: TokenAmount
  er_InitialHigh :: TokenAmount
  er_Purpose :: string
  er_QuotedAt :: gotime

datatype 'err sizing_error =
    InvalidSizingRequest
  | InconsistentNative
  | InconsistentQuote
  | ExceedsUint256
  | SizingAmount amount_error
  | SourceFailed 'err

record ('p, 'err) Source =
  src_Quote :: "'p QuoteInput \<Rightarrow> ('err, Quote) result"
  src_QuoteExactOutput :: "('p ExactOutputInput \<Rightarrow> ('err, Quote) result) option"

definition quoteAt :: "('p, 'err) Source \<Rightarrow> 'p ExactOutputRequest \<Rightarrow> int \<Rightarrow> ('err sizing_error, Quote) result" where
  "quoteAt source request units =
     rbind (map_err SizingAmount (NewTokenAmount (er_TokenIn request) (Some units))) (\<lambda>amount.
     rbind (map_err SourceFailed (src_Quote source
       \<lparr>qi_Snapshot = er_Snapshot request, qi_TokenIn = er_TokenIn request, qi_TokenOut = er_TokenOut request,
        qi_AmountIn = amount, qi_Purpose = er_Purpose request, qi_QuotedAt = er_QuotedAt request\<rparr>)) (\<lambda>candidate.
     if amt_token (q_AmountIn candidate) \<noteq> er_TokenIn request \<or> amt_units (q_AmountIn candidate) \<noteq> units \<or>
        amt_token (q_AmountOut candidate) \<noteq> er_TokenOut request \<or> q_Mode candidate \<noteq> QuoteModeExactInput
     then Inl InconsistentQuote else Inr candidate))"

text \<open>\<open>big.Int.BitLen\<close>: the bits of the absolute value.\<close>

definition bigBitLen :: "int \<Rightarrow> int" where
  "bigBitLen x = bitlen \<bar>x\<bar>"

partial_function (option) raise_high ::
  "(int \<Rightarrow> ('e sizing_error, Quote) result) \<Rightarrow> int \<Rightarrow> int \<Rightarrow> int \<Rightarrow> Quote \<Rightarrow>
   ('e sizing_error, int \<times> int \<times> Quote) result option" where
  [code]: "raise_high at_units target low high highQuote =
     (if amt_units (q_AmountOut highQuote) < target
      then (let high' = 2 * high in
            if bigBitLen high' > 256 then Some (Inl ExceedsUint256)
            else case at_units high' of
              Inl e \<Rightarrow> Some (Inl e)
            | Inr hq \<Rightarrow> raise_high at_units target high high' hq)
      else Some (Inr (low, high, highQuote)))"

function bisect ::
  "(int \<Rightarrow> ('e sizing_error, Quote) result) \<Rightarrow> int \<Rightarrow> int \<Rightarrow> int \<Rightarrow> Quote \<Rightarrow> ('e sizing_error, Quote) result" where
  "bisect at_units target low high highQuote =
     (if high - low > 1
      then (let middle = (low + high) div 2 in
            case at_units middle of
              Inl e \<Rightarrow> Inl e
            | Inr candidate \<Rightarrow>
                if amt_units (q_AmountOut candidate) \<ge> target
                then bisect at_units target low middle candidate
                else bisect at_units target middle high highQuote)
      else Inr highQuote)"
  by pat_completeness auto
termination
  by (relation "measure (\<lambda>(_, _, low, high, _). nat (high - low))") auto

declare bisect.simps [simp del]

definition MinimumInputForOutput ::
  "('p, 'err) Source option \<Rightarrow> 'p ExactOutputRequest \<Rightarrow> ('err sizing_error, Quote) result option" where
  "MinimumInputForOutput source request =
     (case source of
        None \<Rightarrow> Some (Inl InvalidSizingRequest)
      | Some src \<Rightarrow>
        if er_TokenIn request = [] \<or> er_TokenOut request = [] \<or> er_TokenIn request = er_TokenOut request \<or>
           amt_token (er_TargetOut request) \<noteq> er_TokenOut request \<or> AmountIsZero (er_TargetOut request) \<or>
           amt_token (er_InitialHigh request) \<noteq> er_TokenIn request \<or> AmountIsZero (er_InitialHigh request) \<or>
           er_Purpose request = [] \<or> IsZeroTime (er_QuotedAt request)
        then Some (Inl InvalidSizingRequest)
        else (case src_QuoteExactOutput src of
          Some native \<Rightarrow> Some (
            rbind (map_err SourceFailed (native
              \<lparr>xo_Snapshot = er_Snapshot request, xo_TokenIn = er_TokenIn request, xo_TokenOut = er_TokenOut request,
               xo_AmountOut = er_TargetOut request, xo_Purpose = er_Purpose request,
               xo_QuotedAt = er_QuotedAt request\<rparr>)) (\<lambda>candidate.
            if amt_token (q_AmountIn candidate) \<noteq> er_TokenIn request \<or> AmountIsZero (q_AmountIn candidate) \<or>
               amt_token (q_AmountOut candidate) \<noteq> er_TokenOut request \<or>
               amt_units (q_AmountOut candidate) \<noteq> amt_units (er_TargetOut request) \<or>
               q_Mode candidate \<noteq> QuoteModeExactOutput
            then Inl InconsistentNative else Inr candidate))
        | None \<Rightarrow>
          (let target = amt_units (er_TargetOut request); high = amt_units (er_InitialHigh request) in
           case quoteAt src request high of
             Inl e \<Rightarrow> Some (Inl e)
           | Inr highQuote \<Rightarrow>
             (case raise_high (quoteAt src request) target 0 high highQuote of
               None \<Rightarrow> None
             | Some (Inl e) \<Rightarrow> Some (Inl e)
             | Some (Inr (low, high', hq)) \<Rightarrow> Some (bisect (quoteAt src request) target low high' hq)))))"

lemma bitlen_le_256: "bigBitLen x \<le> 256 \<Longrightarrow> \<bar>x\<bar> < 2 ^ 256"
  using bitlen_bounds [of "\<bar>x\<bar>"] power_increasing [of "nat (bitlen \<bar>x\<bar>)" 256 "2 :: int"]
  by (cases "x = 0") (auto simp: bigBitLen_def nat_le_iff)

lemma bitlen_256: "0 < x \<Longrightarrow> x < 2 ^ 256 \<Longrightarrow> bigBitLen x \<le> 256"
proof -
  assume x: "0 < x" "x < 2 ^ 256"
  have "(2 :: int) ^ nat (bitlen x - 1) < 2 ^ 256" using bitlen_bounds [OF x(1)] x(2) by linarith
  then have "nat (bitlen x - 1) < 256" by (rule power_less_imp_less_exp [rotated]) simp
  then show ?thesis using x(1) by (simp add: bigBitLen_def)
qed

section \<open>The contract of a quote source\<close>

abbreviation out_units :: "Quote \<Rightarrow> int" where "out_units q \<equiv> amt_units (q_AmountOut q)"
abbreviation in_units :: "Quote \<Rightarrow> int" where "in_units q \<equiv> amt_units (q_AmountIn q)"

text \<open>
  A source as the search sees it, at one snapshot and direction: a quote spends what was
  asked, and spending more never buys less.
\<close>

locale monotone_source =
  fixes at_units :: "int \<Rightarrow> ('e sizing_error, Quote) result"
  assumes spends: "at_units u = Inr q \<Longrightarrow> in_units q = u"
    and monotone: "at_units u = Inr q \<Longrightarrow> at_units v = Inr q' \<Longrightarrow> 0 \<le> u \<Longrightarrow> u \<le> v \<Longrightarrow> out_units q \<le> out_units q'"
begin

text \<open>Both loops keep the target between the two ends of the interval.\<close>

definition bracket :: "int \<Rightarrow> int \<Rightarrow> int \<Rightarrow> Quote \<Rightarrow> bool" where
  "bracket target low high hq \<longleftrightarrow> 0 \<le> low \<and> low < high \<and> at_units high = Inr hq \<and> target \<le> out_units hq \<and>
     (\<forall>u q. 0 < u \<and> u \<le> low \<and> at_units u = Inr q \<longrightarrow> out_units q < target)"

lemma bracket_raise:
  assumes "at_units m = Inr q" "out_units q < target" "0 < u" "u \<le> m" "at_units u = Inr q'"
  shows "out_units q' < target"
  using monotone [OF assms(5,1)] assms by simp

lemma bisect_least:
  assumes "bracket target low high hq" and "bisect at_units target low high hq = Inr r"
  shows "at_units (in_units r) = Inr r \<and> 0 < in_units r \<and> target \<le> out_units r \<and>
    (\<forall>u q. 0 < u \<and> u < in_units r \<and> at_units u = Inr q \<longrightarrow> out_units q < target)"
  using assms
proof (induction "nat (high - low)" arbitrary: low high hq rule: less_induct)
  case less
  let ?m = "(low + high) div 2"
  show ?case
  proof (cases "high - low > 1")
    case False
    then have "r = hq" "high = low + 1" using less.prems by (auto simp: bisect.simps bracket_def)
    then show ?thesis using less.prems(1) spends [of high hq] by (auto simp: bracket_def)
  next
    case True
    then have m: "low < ?m" "?m < high" by auto
    obtain c where c: "at_units ?m = Inr c"
      using less.prems(2) True by (auto simp: bisect.simps [of at_units target low high hq] Let_def split: sum.splits)
    show ?thesis
    proof (cases "target \<le> out_units c")
      case True': True
      have "bisect at_units target low ?m c = Inr r"
        using less.prems(2) True c True' by (simp add: bisect.simps [of at_units target low high hq] Let_def)
      moreover have "bracket target low ?m c" using less.prems(1) c True' m by (simp add: bracket_def)
      ultimately show ?thesis using less.hyps [of ?m low c] m by simp
    next
      case False
      have "bisect at_units target ?m high hq = Inr r"
        using less.prems(2) True c False by (simp add: bisect.simps [of at_units target low high hq] Let_def)
      moreover have "bracket target ?m high hq"
        using less.prems(1) m bracket_raise [OF c] False unfolding bracket_def by fastforce
      ultimately show ?thesis using less.hyps [of high ?m hq] m by simp
    qed
  qed
qed

lemma raise_high_bracket:
  assumes "0 \<le> low" "low < high" "at_units high = Inr hq"
    and "\<forall>u q. 0 < u \<and> u \<le> low \<and> at_units u = Inr q \<longrightarrow> out_units q < target"
    and "raise_high at_units target low high hq = Some (Inr (low', high', hq'))"
  shows "bracket target low' high' hq'"
  using assms
proof (induction "nat (2 ^ 256 - high)" arbitrary: low high hq rule: less_induct)
  case less
  show ?case
  proof (cases "out_units hq < target")
    case False
    then show ?thesis using less.prems by (auto simp: raise_high.simps bracket_def)
  next
    case True
    note unfold = raise_high.simps [of at_units target low high hq]
    have small: "bigBitLen (2 * high) \<le> 256" using less.prems(5) True by (auto simp: unfold Let_def split: if_splits)
    then obtain hq2 where hq2: "at_units (2 * high) = Inr hq2"
      using less.prems(5) True by (auto simp: unfold Let_def split: sum.splits)
    have rec: "raise_high at_units target high (2 * high) hq2 = Some (Inr (low', high', hq'))"
      using less.prems(5) True small hq2 by (simp add: unfold Let_def)
    have "\<forall>u q. 0 < u \<and> u \<le> high \<and> at_units u = Inr q \<longrightarrow> out_units q < target"
      using bracket_raise [OF less.prems(3) True] by blast
    then show ?thesis
      using less.hyps [OF _ _ _ hq2 _ rec] bitlen_le_256 [OF small] less.prems(1,2) by simp
  qed
qed

end

text \<open>The doubling loop always returns when it starts from a positive input.\<close>

lemma raise_high_returns:
  assumes "0 < high"
  shows "\<exists>res. raise_high at_units target low high hq = Some res"
  using assms
proof (induction "nat (2 ^ 256 - high)" arbitrary: low high hq rule: less_induct)
  case less
  note unfold = raise_high.simps [of at_units target low high hq]
  show ?case
  proof (cases "out_units hq < target \<and> bigBitLen (2 * high) \<le> 256")
    case False
    then show ?thesis by (auto simp: unfold Let_def)
  next
    case True
    then show ?thesis
      using less.hyps [of "2 * high" high] bitlen_le_256 [of "2 * high"] less.prems
      by (cases "at_units (2 * high)") (auto simp: unfold Let_def)
  qed
qed

context monotone_source
begin

text \<open>
  When every input below the 256-bit limit can be quoted and some input of at most
  255 bits reaches the target, both loops succeed.
\<close>

lemma raise_high_succeeds:
  assumes total: "\<forall>u. 0 < u \<and> u < 2 ^ 256 \<longrightarrow> (\<exists>q. at_units u = Inr q)"
    and goal: "at_units u0 = Inr q0" "target \<le> out_units q0" "0 < u0" "u0 \<le> 2 ^ 255"
    and "0 < high" "at_units high = Inr hq"
  shows "\<exists>b. raise_high at_units target low high hq = Some (Inr b)"
  using assms(6,7)
proof (induction "nat (2 ^ 256 - high)" arbitrary: low high hq rule: less_induct)
  case less
  note unfold = raise_high.simps [of at_units target low high hq]
  show ?case
  proof (cases "out_units hq < target")
    case True
    have "\<not> u0 \<le> high" using monotone [OF goal(1) less.prems(2)] goal(2,3) True by linarith
    then have h: "2 * high < 2 ^ 256" using goal(4) by simp
    then obtain hq2 where hq2: "at_units (2 * high) = Inr hq2" using total less.prems(1) by force
    show ?thesis using less.hyps [OF _ _ hq2, of high] True h hq2 less.prems(1) bitlen_256 [of "2 * high"]
      by (simp add: unfold Let_def)
  qed (simp add: unfold)
qed

lemma bisect_succeeds:
  assumes "\<forall>u. 0 < u \<and> u < high \<longrightarrow> (\<exists>q. at_units u = Inr q)" and "0 \<le> low"
  shows "\<exists>r. bisect at_units target low high hq = Inr r"
  using assms
proof (induction "nat (high - low)" arbitrary: low high hq rule: less_induct)
  case less
  let ?m = "(low + high) div 2"
  note unfold = bisect.simps [of at_units target low high hq]
  show ?case
  proof (cases "high - low > 1")
    case True
    then have m: "low < ?m" "?m < high" by auto
    then obtain c where c: "at_units ?m = Inr c" using less.prems by force
    show ?thesis
      using less.hyps [of ?m low c] less.hyps [of high ?m hq] m c True less.prems
      by (auto simp: unfold Let_def)
  qed (simp add: unfold)
qed

end

text \<open>What the search does for a source without a native capability.\<close>

lemma MinimumInputForOutput_search:
  assumes "MinimumInputForOutput (Some src) request = Some (Inr r)" and "src_QuoteExactOutput src = None"
  shows "\<exists>hq low high hq'. quoteAt src request (amt_units (er_InitialHigh request)) = Inr hq \<and>
    raise_high (quoteAt src request) (amt_units (er_TargetOut request)) 0 (amt_units (er_InitialHigh request)) hq =
      Some (Inr (low, high, hq')) \<and>
    bisect (quoteAt src request) (amt_units (er_TargetOut request)) low high hq' = Inr r"
  using assms by (auto simp: MinimumInputForOutput_def Let_def split: if_splits sum.splits option.splits prod.splits)

lemma raise_high_bound:
  assumes "0 < high" "high < 2 ^ 256" "raise_high at_units target low high hq = Some (Inr (low', high', hq'))"
  shows "high' < 2 ^ 256"
  using assms
proof (induction "nat (2 ^ 256 - high)" arbitrary: low high hq rule: less_induct)
  case less
  note unfold = raise_high.simps [of at_units target low high hq]
  show ?case
  proof (cases "out_units hq < target \<and> bigBitLen (2 * high) \<le> 256")
    case True
    then obtain hq2 where "raise_high at_units target high (2 * high) hq2 = Some (Inr (low', high', hq'))"
      using less.prems(3) by (auto simp: unfold Let_def split: sum.splits)
    then show ?thesis using less.hyps [of "2 * high"] bitlen_le_256 [of "2 * high"] True less.prems(1) by simp
  qed (use less.prems in \<open>auto simp: unfold Let_def split: if_splits\<close>)
qed

section \<open>The constant-product source\<close>

definition cp_source :: "string option \<Rightarrow> Quoter \<Rightarrow> (cp_data, cp_error) Source" where
  "cp_source ctxErr q = \<lparr>src_Quote = cp_Quote ctxErr q, src_QuoteExactOutput = Some (cp_QuoteExactOutput ctxErr q)\<rparr>"

lemma quoteAt_Inr:
  "quoteAt src request u = Inr c \<Longrightarrow> 0 \<le> u \<and> in_units c = u \<and>
     src_Quote src \<lparr>qi_Snapshot = er_Snapshot request, qi_TokenIn = er_TokenIn request, qi_TokenOut = er_TokenOut request,
       qi_AmountIn = \<lparr>amt_token = er_TokenIn request, amt_units = u\<rparr>, qi_Purpose = er_Purpose request,
       qi_QuotedAt = er_QuotedAt request\<rparr> = Inr c"
  by (auto simp: quoteAt_def rbind_eq_Inr map_err_eq_Inr NewTokenAmount_Inr split: if_splits)

lemma cp_monotone_source:
  assumes "cp_state (snd (er_Snapshot request)) = Some s" and "cp_state_ok s" and src: "src_Quote src = cp_Quote ctxErr q"
  shows "monotone_source (quoteAt src request)"
proof
  fix u c assume "quoteAt src request u = Inr c"
  then show "in_units c = u" by (simp add: quoteAt_Inr)
next
  fix u v c d
  assume c: "quoteAt src request u = Inr c" and d: "quoteAt src request v = Inr d"
    and uv: "0 \<le> u" "u \<le> v"
  let ?g = "basisPoints - uint (cp_feeBPS s)"
  from cp_Quote_Inr [of ctxErr q _ c] quoteAt_Inr [OF c] assms(1)
  obtain x y where xy: "reserves q s (er_TokenIn request) (er_TokenOut request) = Inr (x, y)"
    and outc: "out_units c = cp_out x y ?g u" by (fastforce simp: src cp_out_def)
  have outd: "out_units d = cp_out x y ?g v"
    using cp_Quote_Inr [of ctxErr q _ d] quoteAt_Inr [OF d] assms(1) xy by (fastforce simp: src cp_out_def)
  show "out_units c \<le> out_units d"
    using cp_out_mono [of x y ?g u v] cp_state_ok_reserves [OF assms(2) xy] outc outd uv by simp
qed

text \<open>
  The source over what the reducer made of an event, refusing every input when the event
  was refused: the instance of the contract that a live constant-product market is.
\<close>

definition reduced_quoteAt ::
  "(string \<Rightarrow> string) \<Rightarrow> cp_event EventData \<Rightarrow> SnapshotMetadata \<Rightarrow> string option \<Rightarrow> Quoter \<Rightarrow>
   cp_data ExactOutputRequest \<Rightarrow> int \<Rightarrow> (cp_error sizing_error, Quote) result" where
  "reduced_quoteAt sha256 event md ctxErr q request u =
     (case cp_Reduce sha256 None None (Some event) of
        Inr (Some d, h) \<Rightarrow> quoteAt (cp_source ctxErr q) (request\<lparr>er_Snapshot := (md\<lparr>md_StateHash := h\<rparr>, d)\<rparr>) u
      | _ \<Rightarrow> Inl (SourceFailed IncompatibleSnapshot))"

interpretation reduced: monotone_source "reduced_quoteAt sha256 event md ctxErr q request"
  for sha256 event md ctxErr q request
proof -
  show "monotone_source (reduced_quoteAt sha256 event md ctxErr q request)"
  proof (cases "cp_Reduce sha256 None None (Some event)")
    case (Inl e)
    then show ?thesis by unfold_locales (simp_all add: reduced_quoteAt_def)
  next
    case (Inr dh)
    obtain s h where s: "dh = (Some (ProtocolData cpSnapshotKind (CPState s)), h)" "cp_state_ok s"
      using cp_Reduce_Inr [of sha256 None None "Some event" "fst dh" "snd dh"] Inr by (cases dh) auto
    then have "reduced_quoteAt sha256 event md ctxErr q request = quoteAt (cp_source ctxErr q)
        (request\<lparr>er_Snapshot := (md\<lparr>md_StateHash := h\<rparr>, ProtocolData cpSnapshotKind (CPState s))\<rparr>)"
      using Inr by (auto simp: reduced_quoteAt_def fun_eq_iff)
    then show ?thesis using cp_monotone_source [of _ s] s(2)
      by (simp add: cp_state_def cp_state_ok_def cp_source_def)
  qed
qed

section \<open>Properties\<close>

text \<open>
  C30: The search answers with the least sufficient input. For a source whose quotes spend
  what was asked and never shrink with the input, the returned quote reaches the target,
  is the source's own quote at its input, and no smaller positive input that the source
  quotes reaches the target.
\<close>

theorem minimum_input_least:
  assumes "monotone_source (quoteAt src request)" and "src_QuoteExactOutput src = None"
    and "0 < amt_units (er_InitialHigh request)" and "MinimumInputForOutput (Some src) request = Some (Inr r)"
  shows "amt_units (er_TargetOut request) \<le> amt_units (q_AmountOut r) \<and>
    quoteAt src request (amt_units (q_AmountIn r)) = Inr r \<and>
    (\<forall>u c. 0 < u \<and> u < amt_units (q_AmountIn r) \<and> quoteAt src request u = Inr c \<longrightarrow>
       amt_units (q_AmountOut c) < amt_units (er_TargetOut request))"
proof -
  obtain hq low high hq' where run: "quoteAt src request (amt_units (er_InitialHigh request)) = Inr hq"
      "raise_high (quoteAt src request) (amt_units (er_TargetOut request)) 0 (amt_units (er_InitialHigh request)) hq =
        Some (Inr (low, high, hq'))"
      "bisect (quoteAt src request) (amt_units (er_TargetOut request)) low high hq' = Inr r"
    using MinimumInputForOutput_search [OF assms(4,2)] by blast
  have "monotone_source.bracket (quoteAt src request) (amt_units (er_TargetOut request)) low high hq'"
    using monotone_source.raise_high_bracket [OF assms(1) _ assms(3) run(1) _ run(2)] by simp
  then show ?thesis using monotone_source.bisect_least [OF assms(1) _ run(3)] by simp
qed

text \<open>
  C31: The search always returns, with a quote or an error, whatever the source answers:
  doubling stops at 256 bits and bisection halves the interval.
\<close>

theorem minimum_input_returns:
  assumes "0 \<le> amt_units (er_InitialHigh request)"
  shows "\<exists>res. MinimumInputForOutput source request = Some res"
proof (cases "0 < amt_units (er_InitialHigh request)")
  case True
  have "False" if "raise_high f t l (amt_units (er_InitialHigh request)) hq = None" for f t l hq
    using raise_high_returns [OF True, of f t l hq] that by simp
  then show ?thesis
    by (auto simp: MinimumInputForOutput_def Let_def split: option.split sum.split)
next
  case False
  then have "AmountIsZero (er_InitialHigh request)" using assms by (simp add: AmountIsZero_def)
  then show ?thesis by (simp add: MinimumInputForOutput_def split: option.split)
qed

text \<open>
  The search does not give up while there is an answer: when the source quotes every
  input below 256 bits and some input of at most 255 bits reaches the target, a
  well-formed request is answered with a quote.
\<close>

lemma minimum_input_found:
  assumes "monotone_source (quoteAt src request)" and "src_QuoteExactOutput src = None"
    and "\<forall>u. 0 < u \<and> u < 2 ^ 256 \<longrightarrow> (\<exists>c. quoteAt src request u = Inr c)"
    and "quoteAt src request u0 = Inr c0" and "amt_units (er_TargetOut request) \<le> amt_units (q_AmountOut c0)"
    and "0 < u0" and "u0 \<le> 2 ^ 255" and "0 < amt_units (er_InitialHigh request)"
    and "amt_units (er_InitialHigh request) < 2 ^ 256"
    and "\<not> (er_TokenIn request = [] \<or> er_TokenOut request = [] \<or> er_TokenIn request = er_TokenOut request \<or>
           amt_token (er_TargetOut request) \<noteq> er_TokenOut request \<or> AmountIsZero (er_TargetOut request) \<or>
           amt_token (er_InitialHigh request) \<noteq> er_TokenIn request \<or>
           er_Purpose request = [] \<or> IsZeroTime (er_QuotedAt request))"
  shows "\<exists>r. MinimumInputForOutput (Some src) request = Some (Inr r)"
proof -
  let ?at = "quoteAt src request" and ?t = "amt_units (er_TargetOut request)" and ?h = "amt_units (er_InitialHigh request)"
  obtain hq where hq: "?at ?h = Inr hq" using assms(3,8,9) by blast
  obtain low high hq' where up: "raise_high ?at ?t 0 ?h hq = Some (Inr (low, high, hq'))"
    using monotone_source.raise_high_succeeds [OF assms(1,3-8) hq] by (metis prod_cases3)
  have br: "monotone_source.bracket ?at ?t low high hq'"
    using monotone_source.raise_high_bracket [OF assms(1) _ assms(8) hq _ up] by simp
  have "high < 2 ^ 256" using raise_high_bound [OF assms(8,9) up] .
  then have "\<forall>u. 0 < u \<and> u < high \<longrightarrow> (\<exists>c. ?at u = Inr c)" "0 \<le> low"
    using assms(3) br by (auto simp: monotone_source.bracket_def [OF assms(1)])
  then obtain r where r: "bisect ?at ?t low high hq' = Inr r"
    using monotone_source.bisect_succeeds [OF assms(1)] by blast
  have "\<not> AmountIsZero (er_InitialHigh request)" using assms(8) by (simp add: AmountIsZero_def)
  then show ?thesis using assms(2,10) hq up r by (simp add: MinimumInputForOutput_def Let_def)
qed

section \<open>Witnesses\<close>

definition sample_request :: "CPSnapshot \<Rightarrow> int \<Rightarrow> int \<Rightarrow> cp_data ExactOutputRequest" where
  "sample_request pool target high =
     \<lparr>er_Snapshot = (pool_metadata, ProtocolData cpSnapshotKind (CPState pool)), er_TokenIn = ''Q'', er_TokenOut = ''B'',
      er_TargetOut = \<lparr>amt_token = ''B'', amt_units = target\<rparr>, er_InitialHigh = \<lparr>amt_token = ''Q'', amt_units = high\<rparr>,
      er_Purpose = ''research'', er_QuotedAt = 7\<rparr>"

definition searched_source :: "(cp_data, cp_error) Source" where
  "searched_source = (cp_source None sample_quoter)\<lparr>src_QuoteExactOutput := None\<rparr>"

definition sample_fill :: "int \<Rightarrow> int \<Rightarrow> Quote" where
  "sample_fill u t = quote_of sample_quoter pool_metadata ''research'' QuoteModeExactInput \<lparr>amt_token = ''Q'', amt_units = u\<rparr>
     \<lparr>amt_token = ''B'', amt_units = t\<rparr> 7
     \<lparr>q_Quality := QuoteQualityExact, q_fees := [\<lparr>qf_kind = ''liquidity_provider'', qf_effect = QuoteFeeCost,
       qf_amount = \<lparr>amt_token = ''Q'', amt_units = 0\<rparr>, qf_includedInAmounts = True\<rparr>]\<rparr>"

lemma sample_fills:
  "quoteAt searched_source (sample_request sample_pool 5 4) 4 = Inr (sample_fill 4 3)"
  "quoteAt searched_source (sample_request sample_pool 5 4) 8 = Inr (sample_fill 8 7)"
  "quoteAt searched_source (sample_request sample_pool 5 4) 6 = Inr (sample_fill 6 5)"
  "quoteAt searched_source (sample_request sample_pool 5 4) 5 = Inr (sample_fill 5 4)"
  by (simp_all add: quoteAt_def searched_source_def cp_source_def sample_request_def sample_fill_def cp_eval)

lemma sample_fill_units [simp]: "amt_units (q_AmountOut (sample_fill u t)) = t" "amt_units (q_AmountIn (sample_fill u t)) = u"
  by (simp_all add: sample_fill_def quote_of_def)

lemma sample_raise:
  "raise_high (quoteAt searched_source (sample_request sample_pool 5 4)) 5 0 4 (sample_fill 4 3) =
     Some (Inr (4, 8, sample_fill 8 7))"
  using bitlen_256 [of 8] by (simp add: raise_high.simps sample_fills)

lemma sample_bisect:
  "bisect (quoteAt searched_source (sample_request sample_pool 5 4)) 5 4 8 (sample_fill 8 7) = Inr (sample_fill 6 5)"
  by (simp add: bisect.simps sample_fills)

lemma sample_search: "MinimumInputForOutput (Some searched_source) (sample_request sample_pool 5 4) = Some (Inr (sample_fill 6 5))"
proof -
  have "src_QuoteExactOutput searched_source = None" by (simp add: searched_source_def)
  then show ?thesis
    using sample_raise sample_bisect sample_fills(1)
    by (simp add: MinimumInputForOutput_def sample_request_def AmountIsZero_def IsZeroTime_def)
qed

lemma searched_monotone: "cp_state_ok pool \<Longrightarrow> monotone_source (quoteAt searched_source (sample_request pool t h))"
  by (rule cp_monotone_source [where s = pool and ctxErr = None and q = sample_quoter])
    (simp_all add: sample_request_def searched_source_def cp_source_def cp_state_def cp_state_ok_def)

theorem minimum_input_least_witness:
  "amt_units (q_AmountIn (sample_fill 6 5)) = 6 \<and>
   quoteAt searched_source (sample_request sample_pool 5 4) 6 = Inr (sample_fill 6 5)"
proof -
  have "src_QuoteExactOutput searched_source = None" "0 < amt_units (er_InitialHigh (sample_request sample_pool 5 4))"
    by (simp_all add: searched_source_def sample_request_def)
  from minimum_input_least [OF searched_monotone [OF sample_pool_ok] this sample_search]
  show ?thesis by simp
qed

theorem minimum_input_returns_witness:
  "\<exists>res. MinimumInputForOutput (Some (cp_source None sample_quoter)) (sample_request sample_pool 5 4) = Some res"
  using minimum_input_returns [of "sample_request sample_pool 5 4"] by (simp add: sample_request_def)

definition deep_pool :: CPSnapshot where
  "deep_pool = \<lparr>cp_schemaVersion = 1, cp_baseReserve = Some 1000000000, cp_quoteReserve = Some 1, cp_feeBPS = 0\<rparr>"

lemma deep_pool_ok: "cp_state_ok deep_pool"
  by (simp add: cp_state_ok_def deep_pool_def reserve_value_def)

lemma deep_pool_quotes:
  assumes "0 < u" shows "\<exists>c. quoteAt searched_source (sample_request deep_pool 5 4) u = Inr c \<and>
    amt_units (q_AmountOut c) = cp_out 1 1000000000 10000 u"
proof -
  define inp where "inp = spend (sample_want 1) \<lparr>amt_token = ''Q'', amt_units = u\<rparr>
    \<lparr>qi_Snapshot := (pool_metadata, ProtocolData cpSnapshotKind (CPState deep_pool))\<rparr>"
  have one: "1 \<le> cp_out 1 1000000000 10000 u" using cp_out_ge_iff [of 1 1000000000 10000 u 1] assms by simp
  have "\<exists>c. cp_Quote None sample_quoter inp = Inr c"
    by (rule cp_Quote_succeeds [where s = deep_pool and x = 1 and y = 1000000000])
      (use assms one in \<open>simp_all add: inp_def spend_def sample_want_def cp_state_def deep_pool_def pool_metadata_def
        sample_quoter_def reserves_def reserve_value_def\<close>)
  then obtain c where c: "cp_Quote None sample_quoter inp = Inr c" by blast
  have "q_AmountIn c = \<lparr>amt_token = ''Q'', amt_units = u\<rparr>" "amt_token (q_AmountOut c) = ''B''" "q_Mode c = QuoteModeExactInput"
    "amt_units (q_AmountOut c) = cp_out 1 1000000000 10000 u"
    using cp_Quote_Inr [OF c]
    by (auto simp: inp_def spend_def sample_want_def cp_state_def deep_pool_def reserves_def sample_quoter_def
        reserve_value_def cp_out_def)
  then show ?thesis using c assms
    by (simp add: quoteAt_def searched_source_def cp_source_def sample_request_def NewTokenAmount_def rbind_def
        inp_def spend_def sample_want_def)
qed

lemma minimum_input_found_example:
  "\<exists>r. MinimumInputForOutput (Some searched_source) (sample_request deep_pool 5 4) = Some (Inr r)"
proof -
  obtain c0 where c0: "quoteAt searched_source (sample_request deep_pool 5 4) 1 = Inr c0"
    "amt_units (q_AmountOut c0) = cp_out 1 1000000000 10000 1" using deep_pool_quotes [of 1] by auto
  have "5 \<le> cp_out 1 1000000000 10000 1" using cp_out_ge_iff [of 1 1000000000 10000 1 5] by simp
  then have target: "amt_units (er_TargetOut (sample_request deep_pool 5 4)) \<le> amt_units (q_AmountOut c0)"
    using c0(2) by (simp add: sample_request_def)
  have none: "src_QuoteExactOutput searched_source = None" by (simp add: searched_source_def)
  have total: "\<forall>u. 0 < u \<and> u < 2 ^ 256 \<longrightarrow> (\<exists>c. quoteAt searched_source (sample_request deep_pool 5 4) u = Inr c)"
    using deep_pool_quotes by blast
  show ?thesis
    by (rule minimum_input_found [OF searched_monotone [OF deep_pool_ok] none total c0(1) target])
      (simp_all add: sample_request_def AmountIsZero_def IsZeroTime_def)
qed

text \<open>
  The native exact-output path does not return the least input. On a pool of 1000 by
  1000 units without fee and a target of 500 the constant-product source answers 1001,
  although its own exact-input quote delivers 500 for 1000.
\<close>

lemma native_exact_output_not_least:
  "(\<exists>r. MinimumInputForOutput (Some (cp_source None sample_quoter)) (sample_request sample_pool 500 1) = Some (Inr r) \<and>
      amt_units (q_AmountIn r) = 1001) \<and>
   (\<exists>c. quoteAt (cp_source None sample_quoter) (sample_request sample_pool 500 1) 1000 = Inr c \<and>
      amt_units (q_AmountOut c) = 500)"
  by (simp add: MinimumInputForOutput_def quoteAt_def cp_source_def sample_request_def cp_eval)

end
