(* ===== verification/Sizing_Grid.thy ===== *)
theory Sizing_Grid
  imports Market_Amount "HOL-Library.Multiset"
begin

text \<open>
  Sizing grids, \<open>src/core/sizing/grid.go\<close> and \<open>range.go\<close>. \<open>sort.Slice\<close> orders by the
  comparison of quantities; quantities that compare equal are equal here, and the
  constructor refuses them, so the library's \<open>sort_key\<close> is the same list.
\<close>

section \<open>Definitions\<close>

datatype grid_error =
    GridEmpty
  | GridAssetRequired
  | GridValueInvalid AssetID
  | GridDuplicate AssetQuantity
  | RangeInvalid
  | RangeOrder
  | RangeAmount amount_error

fun duplicate_error :: "AssetQuantity list \<Rightarrow> grid_error option" where
  "duplicate_error (a # b # rest) = (if qty_value a = qty_value b then Some (GridDuplicate b) else duplicate_error (b # rest))"
| "duplicate_error _ = None"

definition NewGrid :: "AssetQuantity list \<Rightarrow> (grid_error, AssetQuantity list) result" where
  "NewGrid vals =
     (case vals of
        [] \<Rightarrow> Inl GridEmpty
      | first # _ \<Rightarrow>
        if qty_asset first = [] then Inl GridAssetRequired
        else if list_ex (\<lambda>v. qty_asset v \<noteq> qty_asset first \<or> QtySign v \<le> 0) vals
        then Inl (GridValueInvalid (qty_asset first))
        else let sorted_values = sort_key qty_value vals
             in check (duplicate_error sorted_values) (Inr sorted_values))"

definition GridAsset :: "AssetQuantity list \<Rightarrow> AssetID" where
  "GridAsset g = (case g of [] \<Rightarrow> [] | v # _ \<Rightarrow> qty_asset v)"

text \<open>The number of samples is an \<open>int\<close>; a length below two is refused first.\<close>

definition NewLinearRange :: "AssetQuantity \<Rightarrow> AssetQuantity \<Rightarrow> int \<Rightarrow> (grid_error, AssetQuantity list) result" where
  "NewLinearRange minimum maximum samples =
     (if qty_asset minimum = [] \<or> qty_asset minimum \<noteq> qty_asset maximum \<or> QtySign minimum \<le> 0 \<or> samples < 2
      then Inl RangeInvalid
      else case QtyCmp minimum maximum of
        Inl _ \<Rightarrow> Inl RangeOrder
      | Inr comparison \<Rightarrow>
        if comparison \<ge> 0 then Inl RangeOrder
        else
          let step = (qty_value maximum - qty_value minimum) / of_int (samples - 1)
          in rbind (foldM (\<lambda>acc index. rbind (map_err RangeAmount (NewAssetQuantity (qty_asset minimum)
                (Some (qty_value minimum + step * of_nat index)))) (\<lambda>q. Inr (acc @ [q]))) [] [0..<nat samples]) NewGrid)"

section \<open>Lemmas\<close>

text \<open>An abstract grid: positive quantities of one asset, strictly increasing.\<close>

definition grid_ok :: "AssetQuantity list \<Rightarrow> bool" where
  "grid_ok g \<longleftrightarrow> g \<noteq> [] \<and> GridAsset g \<noteq> [] \<and> (\<forall>v \<in> set g. qty_asset v = GridAsset g \<and> 0 < qty_value v) \<and>
     sorted_wrt (\<lambda>a b. qty_value a < qty_value b) g"

lemma QtySign_pos: "QtySign v \<le> 0 \<longleftrightarrow> qty_value v \<le> 0"
  by (simp add: QtySign_def)

lemma duplicate_error_None:
  "sorted (map qty_value g) \<Longrightarrow> duplicate_error g = None \<longleftrightarrow> sorted_wrt (\<lambda>a b. qty_value a < qty_value b) g"
proof (induction g rule: duplicate_error.induct)
  case (1 a b rest)
  have tr: "transp (\<lambda>a b. qty_value a < qty_value b)" by (auto simp: transp_def)
  have "qty_value a \<le> qty_value b" "sorted (map qty_value (b # rest))" using "1.prems" by simp_all
  then show ?case using "1.IH" by (cases "qty_value a = qty_value b") (simp_all add: sorted_wrt2 [OF tr] del: sorted_wrt.simps)
qed simp_all

lemma strict_grid_distinct: "sorted_wrt (\<lambda>a b. qty_value a < qty_value b) g \<Longrightarrow> distinct (map qty_value g)"
  by (induction g) auto

lemma strict_grid_sorted: "sorted_wrt (\<lambda>a b. qty_value a < qty_value b) g \<Longrightarrow> sorted (map qty_value g)"
  by (induction g) auto

lemma sort_key_strict:
  assumes "sorted_wrt (\<lambda>a b. qty_value a < qty_value b) g" and "mset vals = mset g"
  shows "sort_key qty_value vals = g"
proof (rule sort_key_inj_key_eq)
  show "inj_on qty_value (set vals)"
    using strict_grid_distinct [OF assms(1)] assms(2) by (metis distinct_map mset_eq_setD)
qed (use assms strict_grid_sorted in simp_all)

lemma grid_foldM:
  assumes "qty_asset m \<noteq> []"
  shows "foldM (\<lambda>acc index. rbind (map_err RangeAmount (NewAssetQuantity (qty_asset m) (Some (f index))))
      (\<lambda>q. Inr (acc @ [q]))) acc xs = Inr (acc @ map (\<lambda>index. \<lparr>qty_asset = qty_asset m, qty_value = f index\<rparr>) xs)"
  using assms by (induction xs arbitrary: acc) (simp_all add: NewAssetQuantity_def rbind_def)

lemma NewGrid_iff:
  "NewGrid vals = Inr g \<longleftrightarrow> vals \<noteq> [] \<and> qty_asset (hd vals) \<noteq> [] \<and>
     (\<forall>v \<in> set vals. qty_asset v = qty_asset (hd vals) \<and> 0 < qty_value v) \<and>
     duplicate_error (sort_key qty_value vals) = None \<and> g = sort_key qty_value vals"
proof (cases vals)
  case (Cons first rest)
  define elems where "elems \<longleftrightarrow> (\<forall>v \<in> set vals. qty_asset v = qty_asset (hd vals) \<and> 0 < qty_value v)"
  have "list_ex (\<lambda>v. qty_asset v \<noteq> qty_asset (hd vals) \<or> QtySign v \<le> 0) vals \<longleftrightarrow> \<not> elems"
    unfolding list_ex_iff QtySign_pos elems_def by (meson not_le)
  then have "NewGrid vals = (if qty_asset (hd vals) = [] then Inl GridAssetRequired
      else if \<not> elems then Inl (GridValueInvalid (qty_asset (hd vals)))
      else check (duplicate_error (sort_key qty_value vals)) (Inr (sort_key qty_value vals)))"
    unfolding NewGrid_def Let_def Cons list.case list.sel by (simp only: simp_thms)
  then show ?thesis unfolding elems_def [symmetric] using Cons by (auto simp: check_eq_Inr)
qed (simp add: NewGrid_def)

lemma NewGrid_sound:
  assumes "NewGrid vals = Inr g"
  shows "grid_ok g \<and> mset vals = mset g"
proof -
  have g: "vals \<noteq> []" "qty_asset (hd vals) \<noteq> []" "duplicate_error (sort_key qty_value vals) = None" "g = sort_key qty_value vals"
    and elems: "\<forall>v \<in> set vals. qty_asset v = qty_asset (hd vals) \<and> 0 < qty_value v"
    using assms unfolding NewGrid_iff by blast+
  have m: "mset vals = mset g" by (simp add: g(4))
  then have set: "set g = set vals" by (metis mset_eq_setD)
  have ne: "g \<noteq> []" using m g(1) by auto
  then have "hd g \<in> set vals" using set hd_in_set by blast
  then have asset: "GridAsset g = qty_asset (hd vals)" using elems ne
    by (cases g) (simp, simp add: GridAsset_def)
  have "sorted (map qty_value g)" "duplicate_error g = None" using g(3) by (simp_all add: g(4))
  then have "sorted_wrt (\<lambda>a b. qty_value a < qty_value b) g" using duplicate_error_None by blast
  then show ?thesis unfolding grid_ok_def asset set using m ne g(2) elems by blast
qed

lemma NewGrid_complete:
  assumes ok: "grid_ok g" and m: "mset vals = mset g"
  shows "NewGrid vals = Inr g"
proof -
  have set: "set vals = set g" using m by (metis mset_eq_setD)
  have ne: "vals \<noteq> []" using m ok by (auto simp: grid_ok_def)
  have strict: "sorted_wrt (\<lambda>a b. qty_value a < qty_value b) g" using ok by (simp add: grid_ok_def)
  have sk: "sort_key qty_value vals = g" by (rule sort_key_strict [OF strict m])
  have elems: "\<forall>v \<in> set vals. qty_asset v = GridAsset g \<and> 0 < qty_value v" "GridAsset g \<noteq> []"
    using ok unfolding set grid_ok_def by blast+
  have "duplicate_error g = None" using duplicate_error_None [OF strict_grid_sorted [OF strict]] strict by blast
  moreover have "qty_asset (hd vals) = GridAsset g" using elems(1) hd_in_set [OF ne] by blast
  ultimately show ?thesis using sk elems ne unfolding NewGrid_iff sk by simp
qed

section \<open>Properties\<close>

text \<open>
  C32: The grid constructor accepts exactly the lists that can be arranged into a grid,
  positive quantities of one asset without duplicates, and returns that arrangement.
\<close>

theorem new_grid_exact: "NewGrid vals = Inr g \<longleftrightarrow> grid_ok g \<and> mset vals = mset g"
  using NewGrid_sound NewGrid_complete by blast

text \<open>
  A linear range over a valid interval always yields a grid: as many values as asked
  for, from the minimum to the maximum inclusive, with one constant step between neighbours.
\<close>

lemma linear_range_exact:
  assumes "qty_asset lo \<noteq> []" and "qty_asset hi = qty_asset lo" and "0 < qty_value lo" and "qty_value lo < qty_value hi"
    and "2 \<le> samples"
  shows "\<exists>g. NewLinearRange lo hi samples = Inr g \<and> grid_ok g \<and> int (length g) = samples \<and>
    qty_value (hd g) = qty_value lo \<and> qty_value (last g) = qty_value hi \<and>
    (\<forall>i. Suc i < length g \<longrightarrow>
       qty_value (g ! Suc i) - qty_value (g ! i) = (qty_value hi - qty_value lo) / of_int (samples - 1))"
proof -
  define step where "step = (qty_value hi - qty_value lo) / of_int (samples - 1)"
  define g where "g = map (\<lambda>i. \<lparr>qty_asset = qty_asset lo, qty_value = qty_value lo + step * of_nat i\<rparr>) [0..<nat samples]"
  have step: "0 < step" "step * of_int (samples - 1) = qty_value hi - qty_value lo" using assms by (simp_all add: step_def)
  have len: "length g = nat samples" "g \<noteq> []" "0 < nat samples" using assms(5) by (simp_all add: g_def)
  have nth: "g ! i = \<lparr>qty_asset = qty_asset lo, qty_value = qty_value lo + step * of_nat i\<rparr>" if "i < nat samples" for i
    using that by (simp add: g_def)
  have strict: "sorted_wrt (\<lambda>a b. qty_value a < qty_value b) g"
    using step(1) len by (simp add: sorted_wrt_iff_nth_less nth)
  have asset: "GridAsset g = qty_asset lo" using nth [of 0] len by (cases g) (auto simp: GridAsset_def)
  have ok: "grid_ok g" unfolding grid_ok_def
    using asset strict len assms(1,3) step(1) by (auto simp: g_def add_pos_nonneg)
  then have "NewGrid g = Inr g" using NewGrid_complete by blast
  then have run: "NewLinearRange lo hi samples = Inr g"
    using assms grid_foldM [OF assms(1), of "\<lambda>i. qty_value lo + step * of_nat i" "[]" "[0..<nat samples]"]
    unfolding NewLinearRange_def Let_def step_def [symmetric] QtySign_pos QtyCmp_def
    by (simp add: g_def [symmetric] not_le)
  have "(of_nat (nat samples - 1) :: rat) = of_int (samples - 1)" using assms(5) by simp
  then have "qty_value (last g) = qty_value hi" using len step(2) by (simp add: last_conv_nth nth)
  moreover have "qty_value (hd g) = qty_value lo" using len by (simp add: hd_conv_nth nth)
  ultimately show ?thesis
    using run ok len assms(5) unfolding step_def [symmetric] by (intro exI [of _ g]) (auto simp: nth algebra_simps)
qed

lemma linear_range_exact_example:
  "\<exists>g. NewLinearRange \<lparr>qty_asset = ''usd'', qty_value = 1\<rparr> \<lparr>qty_asset = ''usd'', qty_value = 3\<rparr> 5 = Inr g \<and> length g = 5"
  using linear_range_exact [of "\<lparr>qty_asset = ''usd'', qty_value = 1\<rparr>" "\<lparr>qty_asset = ''usd'', qty_value = 3\<rparr>" 5] by auto

end
