(* ===== verification/Arbitrage_Types.thy ===== *)
theory Arbitrage_Types
  imports Market_Registry Market_State
begin

text \<open>
  The arbitrage domain: \<open>src/domain/arbitrage/types.go\<close>, \<open>live.go\<close> and \<open>windows.go\<close>.
  Setups and their directions, evaluations with their costs and conversions, candidates and
  opportunities, live opportunities, and the durable record of an opportunity window.
  Snapshot payloads are the type variable of \<open>Market_State\<close>.
\<close>

section \<open>Setups and directions\<close>

type_synonym SetupID = string
type_synonym ResearchRunID = string
type_synonym StrategyID = string
type_synonym EvaluationID = string
type_synonym WindowID = string

record Direction =
  dir_BuyMarket :: MarketID
  dir_SellMarket :: MarketID

record ArbitrageSetup =
  set_id :: SetupID
  set_pair :: PairID
  set_markets :: "MarketID list"
  set_directions :: "Direction list"

datatype arb_error =
    SetupIncomplete
  | SetupTooFewMarkets
  | SetupUnknownMarket MarketID
  | SetupWrongPair MarketID
  | SetupRepeatsMarket MarketID
  | EvaluationIdentity
  | EvaluationTooFewSnapshots
  | EvaluationCost
  | EvaluationTimestamps
  | EvaluationDuplicate MarketID
  | DirectionalInvalid
  | DirectionalCost Direction
  | DirectionalAsset
  | ConversionStale
  | ConversionDuplicate TokenID TokenID
  | ValuationInvalid
  | ValuationEvidence

datatype live_error = LiveIdentity | LiveQuotes | LiveQuantity | LiveCosts

definition market_seen_error ::
  "Registry \<Rightarrow> PairID \<Rightarrow> MarketID list \<Rightarrow> MarketID \<Rightarrow> (arb_error, MarketID list) result" where
  "market_seen_error registry pair seen mid =
     (case reg_markets registry mid of
        None \<Rightarrow> Inl (SetupUnknownMarket mid)
      | Some candidate \<Rightarrow>
          if mkt_Pair candidate \<noteq> pair then Inl (SetupWrongPair mid)
          else if mid \<in> set seen then Inl (SetupRepeatsMarket mid)
          else Inr (mid # seen))"

definition all_directions :: "MarketID list \<Rightarrow> Direction list" where
  "all_directions markets =
     concat (map (\<lambda>buy. map (\<lambda>sell. \<lparr>dir_BuyMarket = buy, dir_SellMarket = sell\<rparr>)
       (filter (\<lambda>sell. buy \<noteq> sell) markets)) markets)"

definition NewArbitrageSetup ::
  "SetupID \<Rightarrow> PairID \<Rightarrow> MarketID list \<Rightarrow> Registry option \<Rightarrow> (arb_error, ArbitrageSetup) result" where
  "NewArbitrageSetup sid pair markets registry =
     (case registry of
        None \<Rightarrow> Inl SetupIncomplete
      | Some reg \<Rightarrow>
          if sid = [] \<or> pair = [] then Inl SetupIncomplete
          else if length markets < 2 then Inl SetupTooFewMarkets
          else rbind (foldM (market_seen_error reg pair) [] markets) (\<lambda>_.
            Inr \<lparr>set_id = sid, set_pair = pair, set_markets = markets, set_directions = all_directions markets\<rparr>))"

section \<open>Evaluations\<close>

record CostSnapshot =
  cs_ID :: string
  cs_Amount :: AssetQuantity
  cs_CapturedAt :: gotime

record TriggerMetadata =
  tm_Market :: MarketID
  tm_Source :: SourceID
  tm_Position :: SourcePosition
  tm_Reference :: SourceReference
  tm_At :: gotime

record 'p Evaluation =
  ev_id :: EvaluationID
  ev_run :: ResearchRunID
  ev_strategy :: StrategyID
  ev_configHash :: string
  ev_snapshots :: "'p MarketSnapshot list"
  ev_cost :: CostSnapshot
  ev_costs :: "Direction \<rightharpoonup> CostSnapshot"
  ev_conversions :: "TokenID \<times> TokenID \<rightharpoonup> QuoteConversionSnapshot"
  ev_trigger :: "TriggerMetadata option"
  ev_triggeredAt :: gotime
  ev_startedAt :: gotime

definition cost_invalid :: "CostSnapshot \<Rightarrow> bool" where
  "cost_invalid c \<longleftrightarrow> cs_ID c = [] \<or> qty_asset (cs_Amount c) = [] \<or> IsZeroTime (cs_CapturedAt c)"

fun duplicate_snapshot :: "MarketID list \<Rightarrow> 'p MarketSnapshot list \<Rightarrow> arb_error option" where
  "duplicate_snapshot seen [] = None"
| "duplicate_snapshot seen (s # rest) =
     (if md_Market (fst s) \<in> set seen then Some (EvaluationDuplicate (md_Market (fst s)))
      else duplicate_snapshot (md_Market (fst s) # seen) rest)"

definition NewEvaluation ::
  "EvaluationID \<Rightarrow> ResearchRunID \<Rightarrow> StrategyID \<Rightarrow> string \<Rightarrow> 'p MarketSnapshot list \<Rightarrow> CostSnapshot \<Rightarrow>
   gotime \<Rightarrow> gotime \<Rightarrow> (arb_error, 'p Evaluation) result" where
  "NewEvaluation eid run strategy configHash snapshots cost triggeredAt startedAt =
     (if eid = [] \<or> run = [] \<or> strategy = [] \<or> configHash = [] then Inl EvaluationIdentity
      else if length snapshots < 2 then Inl EvaluationTooFewSnapshots
      else if cost_invalid cost then Inl EvaluationCost
      else if IsZeroTime triggeredAt \<or> IsZeroTime startedAt then Inl EvaluationTimestamps
      else check (duplicate_snapshot [] snapshots)
        (Inr \<lparr>ev_id = eid, ev_run = run, ev_strategy = strategy, ev_configHash = configHash, ev_snapshots = snapshots,
              ev_cost = cost, ev_costs = Map.empty, ev_conversions = Map.empty, ev_trigger = None,
              ev_triggeredAt = triggeredAt, ev_startedAt = startedAt\<rparr>))"

definition CostFor :: "'p Evaluation \<Rightarrow> Direction \<Rightarrow> CostSnapshot" where
  "CostFor e direction = (case ev_costs e direction of Some cost \<Rightarrow> cost | None \<Rightarrow> ev_cost e)"

definition WithTrigger :: "TriggerMetadata \<Rightarrow> 'p Evaluation \<Rightarrow> 'p Evaluation" where
  "WithTrigger trigger e = e\<lparr>ev_trigger := Some trigger\<rparr>"

text \<open>
  The directional costs are a Go map: a list of entries with distinct keys, in an
  unspecified order that only decides which of several faults is reported.
\<close>

definition directional_error :: "'p Evaluation \<Rightarrow> Direction \<times> CostSnapshot \<Rightarrow> arb_error option" where
  "directional_error e dc =
     (case dc of (direction, cost) \<Rightarrow>
        if dir_BuyMarket direction = [] \<or> dir_SellMarket direction = [] \<or>
           dir_BuyMarket direction = dir_SellMarket direction then Some DirectionalInvalid
        else if cost_invalid cost then Some (DirectionalCost direction)
        else if qty_asset (cs_Amount cost) \<noteq> qty_asset (cs_Amount (ev_cost e)) then Some DirectionalAsset
        else None)"

definition WithDirectionalCosts ::
  "(Direction \<times> CostSnapshot) list \<Rightarrow> 'p Evaluation \<Rightarrow> (arb_error, 'p Evaluation) result" where
  "WithDirectionalCosts costs e =
     check (first_error (directional_error e) costs) (Inr (e\<lparr>ev_costs := map_of costs\<rparr>))"

definition EvaluationSnapshot :: "'p Evaluation \<Rightarrow> MarketID \<Rightarrow> 'p MarketSnapshot option" where
  "EvaluationSnapshot e mid = find (\<lambda>s. md_Market (fst s) = mid) (ev_snapshots e)"

definition add_conversion ::
  "gotime \<Rightarrow> (TokenID \<times> TokenID \<rightharpoonup> QuoteConversionSnapshot) \<Rightarrow> QuoteConversionSnapshot \<Rightarrow>
   (arb_error, TokenID \<times> TokenID \<rightharpoonup> QuoteConversionSnapshot) result" where
  "add_conversion startedAt conversions s =
     (let pair = (amt_token (qc_Input s), amt_token (qc_Output s)) in
      if \<not> ConversionValidAt s startedAt then Inl ConversionStale
      else if pair \<in> dom conversions then Inl (ConversionDuplicate (fst pair) (snd pair))
      else Inr (conversions(pair \<mapsto> s)))"

definition WithQuoteConversions ::
  "QuoteConversionSnapshot list \<Rightarrow> 'p Evaluation \<Rightarrow> (arb_error, 'p Evaluation) result" where
  "WithQuoteConversions snapshots e =
     (if snapshots = [] then Inr e
      else rbind (foldM (add_conversion (ev_startedAt e)) Map.empty snapshots) (\<lambda>conversions.
             Inr (e\<lparr>ev_conversions := conversions\<rparr>)))"

definition QuoteConversion :: "'p Evaluation \<Rightarrow> TokenID \<Rightarrow> TokenID \<Rightarrow> QuoteConversionSnapshot option" where
  "QuoteConversion e inp out = ev_conversions e (inp, out)"

section \<open>Candidates and opportunities\<close>

abbreviation ClassificationNoSpread :: string where "ClassificationNoSpread \<equiv> ''no_spread''"
abbreviation ClassificationObservedSpread :: string where "ClassificationObservedSpread \<equiv> ''observed_spread''"
abbreviation ClassificationEconomic :: string where "ClassificationEconomic \<equiv> ''economic''"
abbreviation ClassificationPolicyQualified :: string where "ClassificationPolicyQualified \<equiv> ''policy_qualified''"
abbreviation ClassificationUnclassifiable :: string where "ClassificationUnclassifiable \<equiv> ''unclassifiable''"

text \<open>
  The price is never nil in a snapshot the constructor returned; the zero value has
  version 0, which every reader checks first.
\<close>

record ValuationSnapshot =
  vs_version :: "64 word"
  vs_base :: AssetID
  vs_quote :: AssetID
  vs_price :: rat
  vs_observations :: int
  vs_capturedAt :: gotime

definition NewValuationSnapshot ::
  "64 word \<Rightarrow> AssetID \<Rightarrow> AssetID \<Rightarrow> rat option \<Rightarrow> int \<Rightarrow> gotime \<Rightarrow> (arb_error, ValuationSnapshot) result" where
  "NewValuationSnapshot version base quote price observations capturedAt =
     (if version = 0 \<or> base = [] \<or> quote = [] \<or> base = quote \<or>
         (case price of None \<Rightarrow> True | Some p \<Rightarrow> p \<le> 0) then Inl ValuationInvalid
      else if observations < 1 \<or> IsZeroTime capturedAt then Inl ValuationEvidence
      else Inr \<lparr>vs_version = version, vs_base = base, vs_quote = quote, vs_price = the price,
                vs_observations = observations, vs_capturedAt = capturedAt\<rparr>)"

record Candidate =
  cd_Size :: AssetQuantity
  cd_Input :: AssetQuantity
  cd_Output :: AssetQuantity
  cd_GrossPnL :: AssetQuantity
  cd_Cost :: CostSnapshot
  cd_NetPnL :: AssetQuantity
  cd_FixedThreshold :: AssetQuantity
  cd_PercentageThreshold :: AssetQuantity
  cd_EffectiveThreshold :: AssetQuantity
  cd_BuyQuote :: Quote
  cd_SellQuote :: Quote
  cd_Valuation :: "ValuationSnapshot option"
  cd_QuoteConversion :: "QuoteConversionSnapshot option"

record Opportunity =
  op_Evaluation :: EvaluationID
  op_Run :: ResearchRunID
  op_ConfigHash :: string
  op_Strategy :: StrategyID
  op_Direction :: Direction
  op_Classification :: string
  op_Snapshots :: "SnapshotMetadata list"
  op_Candidates :: "Candidate list"
  op_SelectedIndex :: int
  op_Threshold :: AssetQuantity
  op_Reasons :: "string list"
  op_Trigger :: TriggerMetadata
  op_HasTrigger :: bool
  op_TriggeredAt :: gotime
  op_StartedAt :: gotime
  op_FinishedAt :: gotime

record LiveOpportunity =
  lo_ID :: string
  lo_Setup :: SetupID
  lo_Direction :: Direction
  lo_Valuation :: ValuationSnapshot
  lo_BuyQuote :: Quote
  lo_SellQuote :: Quote
  lo_QuoteDelta :: AssetQuantity
  lo_BaseDelta :: AssetQuantity
  lo_MarkedBase :: AssetQuantity
  lo_GrossPnL :: AssetQuantity
  lo_Cost :: AssetQuantity
  lo_NetPnL :: AssetQuantity
  lo_Threshold :: AssetQuantity
  lo_RiskBlock :: string
  lo_DiscoveredAt :: gotime
  lo_ValidatedAt :: gotime

definition Profitable :: "LiveOpportunity \<Rightarrow> bool" where
  "Profitable o' \<longleftrightarrow>
     (case QtyCmp (lo_NetPnL o') (lo_Threshold o') of
        Inl _ \<Rightarrow> False
      | Inr comparison \<Rightarrow> lo_RiskBlock o' = [] \<and> comparison \<ge> 0 \<and> QtySign (lo_NetPnL o') > 0)"

definition LiveOpportunityValidate :: "LiveOpportunity \<Rightarrow> live_error option" where
  "LiveOpportunityValidate o' =
     (if lo_ID o' = [] \<or> lo_Setup o' = [] \<or> dir_BuyMarket (lo_Direction o') = [] \<or>
         dir_SellMarket (lo_Direction o') = [] \<or>
         dir_BuyMarket (lo_Direction o') = dir_SellMarket (lo_Direction o') then Some LiveIdentity
      else if AmountIsZero (q_AmountIn (lo_BuyQuote o')) \<or> AmountIsZero (q_AmountOut (lo_BuyQuote o')) \<or>
              AmountIsZero (q_AmountIn (lo_SellQuote o')) \<or> AmountIsZero (q_AmountOut (lo_SellQuote o'))
      then Some LiveQuotes
      else if list_ex (\<lambda>q. qty_asset q = []) [lo_QuoteDelta o', lo_BaseDelta o', lo_MarkedBase o', lo_GrossPnL o',
                lo_Cost o', lo_NetPnL o', lo_Threshold o'] then Some LiveQuantity
      else if QtySign (lo_Cost o') < 0 \<or> QtySign (lo_Threshold o') < 0 \<or> IsZeroTime (lo_DiscoveredAt o')
      then Some LiveCosts
      else None)"

section \<open>Lemmas\<close>

lemma market_seen_error_Inr:
  "market_seen_error reg pair seen mid = Inr seen' \<longleftrightarrow>
     (\<exists>m. reg_markets reg mid = Some m \<and> mkt_Pair m = pair) \<and> mid \<notin> set seen \<and> seen' = mid # seen"
  by (auto simp: market_seen_error_def split: option.splits)

lemma market_seen_foldM:
  "foldM (market_seen_error reg pair) seen markets = Inr seen' \<Longrightarrow>
     seen' = rev markets @ seen \<and> distinct markets \<and> set markets \<inter> set seen = {} \<and>
     (\<forall>mid \<in> set markets. \<exists>m. reg_markets reg mid = Some m \<and> mkt_Pair m = pair)"
proof (induction markets arbitrary: seen)
  case (Cons mid rest)
  obtain m where m: "reg_markets reg mid = Some m" "mkt_Pair m = pair" "mid \<notin> set seen"
      "foldM (market_seen_error reg pair) (mid # seen) rest = Inr seen'"
    using Cons.prems by (auto simp: market_seen_error_Inr split: sum.splits)
  from Cons.IH [OF m(4)] m(1-3) show ?case by auto
qed simp

lemma set_all_directions:
  fixes markets :: "MarketID list"
  shows "set (all_directions markets) =
     {d. dir_BuyMarket d \<in> set markets \<and> dir_SellMarket d \<in> set markets \<and> dir_BuyMarket d \<noteq> dir_SellMarket d}"
proof (intro set_eqI iffI)
  fix d :: Direction
  assume "d \<in> {d. dir_BuyMarket d \<in> set markets \<and> dir_SellMarket d \<in> set markets \<and> dir_BuyMarket d \<noteq> dir_SellMarket d}"
  moreover have "d = \<lparr>dir_BuyMarket = dir_BuyMarket d, dir_SellMarket = dir_SellMarket d\<rparr>" by simp
  ultimately show "d \<in> set (all_directions markets)" unfolding all_directions_def by force
qed (auto simp: all_directions_def)

lemma length_filter_neq:
  assumes "distinct xs" "x \<in> set xs"
  shows "length (filter (\<lambda>y. x \<noteq> y) xs) = length xs - 1"
proof -
  have "filter (\<lambda>y. x \<noteq> y) xs = remove1 x xs"
    using assms by (simp add: distinct_remove1_removeAll removeAll_filter_not_eq)
  then show ?thesis using assms by (simp add: length_remove1)
qed

lemma length_all_directions:
  assumes "distinct markets"
  shows "length (all_directions markets) = length markets * (length markets - 1)"
proof -
  have "map (\<lambda>buy. length (filter (\<lambda>sell. buy \<noteq> sell) markets)) markets = map (\<lambda>_. length markets - 1) markets"
    using length_filter_neq [OF assms] by (intro map_cong) auto
  then have "sum_list (map (\<lambda>buy. length (filter (\<lambda>sell. buy \<noteq> sell) markets)) markets) =
      length markets * (length markets - 1)"
    by (simp only: sum_list_triv) simp
  then show ?thesis by (simp add: all_directions_def length_concat comp_def)
qed

lemma distinct_concat_map:
  assumes "distinct xs" and "\<And>x. distinct (f x)" and "\<And>x y. x \<noteq> y \<Longrightarrow> set (f x) \<inter> set (f y) = {}"
  shows "distinct (concat (map f xs))"
  using assms(1)
proof (induction xs)
  case (Cons x xs)
  have "set (f x) \<inter> set (f y) = {}" if "y \<in> set xs" for y using assms(3) that Cons.prems by force
  then show ?case using Cons assms(2) by auto
qed simp

lemma distinct_all_directions: "distinct markets \<Longrightarrow> distinct (all_directions markets)"
  unfolding all_directions_def
  by (rule distinct_concat_map) (auto simp: distinct_map inj_on_def)

section \<open>Properties\<close>

text \<open>
  A setup covers every ordered pair of different markets exactly once, and nothing
  else, and all its markets are registered for the setup's pair.
\<close>

lemma setup_directions_exact:
  assumes "NewArbitrageSetup sid pair markets (Some reg) = Inr s"
  shows "set (set_directions s) = {d. dir_BuyMarket d \<in> set markets \<and> dir_SellMarket d \<in> set markets \<and>
      dir_BuyMarket d \<noteq> dir_SellMarket d} \<and>
    distinct (set_directions s) \<and> length (set_directions s) = length markets * (length markets - 1) \<and>
    2 \<le> length (set_directions s) \<and>
    (\<forall>mid \<in> set markets. \<exists>m. reg_markets reg mid = Some m \<and> mkt_Pair m = pair)"
proof -
  obtain seen where s: "2 \<le> length markets" "foldM (market_seen_error reg pair) [] markets = Inr seen"
      "set_directions s = all_directions markets"
    using assms by (auto simp: NewArbitrageSetup_def rbind_eq_Inr split: if_splits)
  note loop = market_seen_foldM [OF s(2)]
  have "2 * 1 \<le> length markets * (length markets - 1)" using s(1) by (intro mult_le_mono) auto
  then show ?thesis
    using loop length_all_directions [of markets] distinct_all_directions [of markets] set_all_directions [of markets]
    by (simp add: s(3))
qed

definition pair_market :: "MarketID \<Rightarrow> Market" where
  "pair_market mid = \<lparr>mkt_ID = mid, mkt_Pair = ''p'', mkt_Chain = ''c'', mkt_Path = ''x'',
     mkt_BaseToken = ''B'', mkt_QuoteToken = ''Q''\<rparr>"

definition two_markets :: Registry where
  "two_markets = empty_registry\<lparr>reg_markets := [''m1'' \<mapsto> pair_market ''m1'', ''m2'' \<mapsto> pair_market ''m2'']\<rparr>"

definition two_market_setup :: ArbitrageSetup where
  "two_market_setup = \<lparr>set_id = ''s'', set_pair = ''p'', set_markets = [''m1'', ''m2''],
     set_directions = all_directions [''m1'', ''m2'']\<rparr>"

lemma setup_directions_exact_example:
  "length (set_directions two_market_setup) = 2 \<and>
   \<lparr>dir_BuyMarket = ''m2'', dir_SellMarket = ''m1''\<rparr> \<in> set (set_directions two_market_setup)"
proof -
  have "NewArbitrageSetup ''s'' ''p'' [''m1'', ''m2''] (Some two_markets) = Inr two_market_setup"
    by (simp add: NewArbitrageSetup_def two_markets_def pair_market_def two_market_setup_def market_seen_error_def rbind_def)
  from setup_directions_exact [OF this] show ?thesis by simp
qed

end
