(* ===== verification/Exec_Types.thy ===== *)
theory Exec_Types
  imports Arbitrage_Types
begin

text \<open>
  The execution domain: \<open>src/domain/execution/types.go\<close>, \<open>state.go\<close>, \<open>cost.go\<close>,
  \<open>event.go\<close> and \<open>allocation.go\<close>. Legs and saga plans, the durable state machines of an
  operation, its economics, measured costs and the executable allocation of a leg over
  several markets.
\<close>

section \<open>Constants\<close>

abbreviation LegBuy :: string where "LegBuy \<equiv> ''buy''"
abbreviation LegSell :: string where "LegSell \<equiv> ''sell''"

abbreviation StatePrepared :: string where "StatePrepared \<equiv> ''prepared''"
abbreviation StateCommitted :: string where "StateCommitted \<equiv> ''committed''"
abbreviation StateBroadcastRejected :: string where "StateBroadcastRejected \<equiv> ''broadcast_rejected''"
abbreviation StateBroadcastPossible :: string where "StateBroadcastPossible \<equiv> ''broadcast_possible''"
abbreviation StateConfirmedSuccess :: string where "StateConfirmedSuccess \<equiv> ''confirmed_success''"
abbreviation StateConfirmedRevert :: string where "StateConfirmedRevert \<equiv> ''confirmed_revert''"
abbreviation StateOutcomeUnknown :: string where "StateOutcomeUnknown \<equiv> ''outcome_unknown''"
abbreviation StateManualIntervention :: string where "StateManualIntervention \<equiv> ''manual_intervention_required''"
abbreviation StateNoExecution :: string where "StateNoExecution \<equiv> ''no_execution_proven''"

abbreviation EconomicReserved :: string where "EconomicReserved \<equiv> ''reserved''"
abbreviation EconomicEffectVerified :: string where "EconomicEffectVerified \<equiv> ''effect_verified''"
abbreviation EconomicEffectMismatch :: string where "EconomicEffectMismatch \<equiv> ''effect_mismatch''"
abbreviation EconomicExposureOpen :: string where "EconomicExposureOpen \<equiv> ''exposure_open''"
abbreviation EconomicSettled :: string where "EconomicSettled \<equiv> ''settled''"
abbreviation EconomicReleased :: string where "EconomicReleased \<equiv> ''released''"

datatype exec_error =
    LegIdentity
  | LegSideInvalid StepID string
  | LegAmounts StepID
  | PlanIncomplete
  | PlanOpportunity live_error
  | PlanRepeats string
  | PlanSides
  | TransactionIncomplete
  | EconomicsIncomplete
  | EconomicsAssets
  | EconomicsNegative
  | EconomicsMarked
  | EconomicsGross
  | EconomicsNet
  | OperationIncomplete
  | StepForeign StepID

datatype alloc_error =
    AllocEndpoints
  | AllocGroupIncomplete nat
  | AllocRepeatsGroup string
  | AllocOwnParent string
  | AllocBranchInvalid string nat
  | AllocRepeatsMarket string MarketID
  | AllocRootToken string
  | AllocParentOrder string
  | AllocDiscontinuous string
  | AllocParentOutput string
  | AllocConsumers string
  | AllocRootInput
  | AllocTerminalToken string
  | AllocTerminalOutput

section \<open>Legs and plans\<close>

record Leg =
  leg_ID :: StepID
  leg_Side :: string
  leg_Chain :: ChainID
  leg_Account :: AccountID
  leg_Market :: MarketID
  leg_Input :: TokenAmount
  leg_ExpectedOutput :: TokenAmount

definition LegValidate :: "Leg \<Rightarrow> exec_error option" where
  "LegValidate l =
     (if leg_ID l = [] \<or> leg_Chain l = [] \<or> leg_Account l = [] \<or> leg_Market l = [] then Some LegIdentity
      else if leg_Side l \<noteq> LegBuy \<and> leg_Side l \<noteq> LegSell then Some (LegSideInvalid (leg_ID l) (leg_Side l))
      else if amt_token (leg_Input l) = [] \<or> AmountIsZero (leg_Input l) \<or>
              amt_token (leg_ExpectedOutput l) = [] \<or> AmountIsZero (leg_ExpectedOutput l) then Some (LegAmounts (leg_ID l))
      else None)"

record SagaPlan =
  plan_id :: PlanID
  plan_opportunity :: LiveOpportunity
  plan_legs :: "Leg list"
  plan_createdAt :: gotime

definition leg_seen :: "string list \<Rightarrow> Leg \<Rightarrow> (exec_error, string list) result" where
  "leg_seen seen leg =
     (case LegValidate leg of
        Some e \<Rightarrow> Inl e
      | None \<Rightarrow> if leg_Side leg \<in> set seen then Inl (PlanRepeats (leg_Side leg)) else Inr (leg_Side leg # seen))"

definition NewSagaPlan ::
  "PlanID \<Rightarrow> LiveOpportunity \<Rightarrow> Leg list \<Rightarrow> gotime \<Rightarrow> (exec_error, SagaPlan) result" where
  "NewSagaPlan pid opportunity legs createdAt =
     (if pid = [] \<or> IsZeroTime createdAt \<or> length legs \<noteq> 2 then Inl PlanIncomplete
      else check (map_option PlanOpportunity (LiveOpportunityValidate opportunity))
        (rbind (foldM leg_seen [] legs) (\<lambda>seen.
           if LegBuy \<notin> set seen \<or> LegSell \<notin> set seen then Inl PlanSides
           else Inr \<lparr>plan_id = pid, plan_opportunity = opportunity, plan_legs = legs, plan_createdAt = createdAt\<rparr>)))"

section \<open>State machines\<close>

definition technical_allowed :: "string \<Rightarrow> string list" where
  "technical_allowed from =
     (if from = StatePrepared \<or> from = StateCommitted
      then [StateBroadcastRejected, StateBroadcastPossible, StateOutcomeUnknown, StateConfirmedSuccess,
            StateConfirmedRevert, StateNoExecution, StateManualIntervention]
      else if from = StateBroadcastPossible
      then [StateConfirmedSuccess, StateConfirmedRevert, StateOutcomeUnknown, StateNoExecution, StateManualIntervention]
      else if from = StateOutcomeUnknown
      then [StateConfirmedSuccess, StateConfirmedRevert, StateNoExecution, StateManualIntervention]
      else if from = StateBroadcastRejected then [StateNoExecution, StateManualIntervention]
      else [])"

definition ValidateTechnicalTransition :: "string \<Rightarrow> string \<Rightarrow> bool" where
  "ValidateTechnicalTransition from to \<longleftrightarrow> from = to \<or> to \<in> set (technical_allowed from)"

definition economic_allowed :: "string \<Rightarrow> string list" where
  "economic_allowed from =
     (if from = EconomicReserved
      then [EconomicEffectVerified, EconomicEffectMismatch, EconomicExposureOpen, EconomicReleased]
      else if from = EconomicEffectVerified then [EconomicSettled, EconomicExposureOpen]
      else if from = EconomicEffectMismatch then [EconomicExposureOpen]
      else [])"

definition ValidateEconomicTransition :: "string \<Rightarrow> string \<Rightarrow> bool" where
  "ValidateEconomicTransition from to \<longleftrightarrow> from = to \<or> to \<in> set (economic_allowed from)"

section \<open>Allocations\<close>

record RouteBranch =
  rb_Market :: MarketID
  rb_PlannedInput :: "int option"
  rb_ExpectedOutput :: "int option"

record RouteGroup =
  rg_ID :: string
  rg_Parent :: string
  rg_InputToken :: TokenID
  rg_OutputToken :: TokenID
  rg_Branches :: "RouteBranch list"

record RouteAllocation =
  ra_Input :: TokenAmount
  ra_ExpectedOutput :: TokenAmount
  ra_Groups :: "RouteGroup list"

definition bigint :: "int option \<Rightarrow> int" where
  "bigint v = (case v of None \<Rightarrow> 0 | Some x \<Rightarrow> x)"

definition sumExpectedOutput :: "RouteBranch list \<Rightarrow> int" where
  "sumExpectedOutput branches = sum_by (\<lambda>b. bigint (rb_ExpectedOutput b)) branches"

definition sumPlannedInput :: "RouteBranch list \<Rightarrow> int" where
  "sumPlannedInput branches = sum_by (\<lambda>b. bigint (rb_PlannedInput b)) branches"

text \<open>The loop over the branches of a group.\<close>

fun branch_error :: "string \<Rightarrow> nat \<Rightarrow> MarketID list \<Rightarrow> RouteBranch list \<Rightarrow> alloc_error option" where
  "branch_error gid index seen [] = None"
| "branch_error gid index seen (b # rest) =
     (if rb_Market b = [] \<or> (case rb_PlannedInput b of None \<Rightarrow> True | Some x \<Rightarrow> x \<le> 0) \<or>
         (case rb_ExpectedOutput b of None \<Rightarrow> True | Some x \<Rightarrow> x \<le> 0) then Some (AllocBranchInvalid gid index)
      else if rb_Market b \<in> set seen then Some (AllocRepeatsMarket gid (rb_Market b))
      else branch_error gid (Suc index) (rb_Market b # seen) rest)"

text \<open>
  The state of the loop over the groups: the groups seen so far by identifier, the number
  of consumers of each, and the sum of the root inputs.
\<close>

record alloc_scan =
  sc_groups :: "string \<rightharpoonup> RouteGroup"
  sc_children :: "string \<Rightarrow> nat"
  sc_rootInput :: int

definition scan_group :: "RouteAllocation \<Rightarrow> alloc_scan \<Rightarrow> nat \<times> RouteGroup \<Rightarrow> (alloc_error, alloc_scan) result" where
  "scan_group a st ig =
     (case ig of (index, grp) \<Rightarrow>
      let gid = rg_ID grp; plannedInput = sumPlannedInput (rg_Branches grp) in
      if gid = [] \<or> rg_InputToken grp = [] \<or> rg_OutputToken grp = [] \<or>
         rg_InputToken grp = rg_OutputToken grp \<or> rg_Branches grp = [] then Inl (AllocGroupIncomplete index)
      else if gid \<in> dom (sc_groups st) then Inl (AllocRepeatsGroup gid)
      else if rg_Parent grp = gid then Inl (AllocOwnParent gid)
      else check (branch_error gid 0 [] (rg_Branches grp))
        (if rg_Parent grp = []
         then (if rg_InputToken grp \<noteq> amt_token (ra_Input a) then Inl (AllocRootToken gid)
               else Inr (st\<lparr>sc_rootInput := sc_rootInput st + plannedInput,
                            sc_groups := (sc_groups st)(gid \<mapsto> grp)\<rparr>))
         else (case sc_groups st (rg_Parent grp) of
                 None \<Rightarrow> Inl (AllocParentOrder gid)
               | Some parent \<Rightarrow>
                   if rg_OutputToken parent \<noteq> rg_InputToken grp then Inl (AllocDiscontinuous gid)
                   else if plannedInput \<noteq> sumExpectedOutput (rg_Branches parent) then Inl (AllocParentOutput gid)
                   else
                     (let children = (sc_children st)(rg_Parent grp := sc_children st (rg_Parent grp) + 1)
                      in if children (rg_Parent grp) > 1 then Inl (AllocConsumers (rg_Parent grp))
                         else Inr (st\<lparr>sc_children := children, sc_groups := (sc_groups st)(gid \<mapsto> grp)\<rparr>)))))"

definition AllocationValidate :: "RouteAllocation \<Rightarrow> alloc_error option" where
  "AllocationValidate a =
     (if amt_token (ra_Input a) = [] \<or> AmountIsZero (ra_Input a) \<or> amt_token (ra_ExpectedOutput a) = [] \<or>
         AmountIsZero (ra_ExpectedOutput a) \<or> ra_Groups a = [] then Some AllocEndpoints
      else case foldM (scan_group a) \<lparr>sc_groups = Map.empty, sc_children = (\<lambda>_. 0), sc_rootInput = 0\<rparr>
                  (enumerate 0 (ra_Groups a)) of
        Inl e \<Rightarrow> Some e
      | Inr st \<Rightarrow>
          if sc_rootInput st \<noteq> amt_units (ra_Input a) then Some AllocRootInput
          else
            (let terminal = filter (\<lambda>g. sc_children st (rg_ID g) = 0) (ra_Groups a) in
             case first_error (\<lambda>g. if rg_OutputToken g \<noteq> amt_token (ra_ExpectedOutput a)
                               then Some (AllocTerminalToken (rg_ID g)) else None) terminal of
               Some e \<Rightarrow> Some e
             | None \<Rightarrow>
                 if sum_by (\<lambda>g. sumExpectedOutput (rg_Branches g)) terminal \<noteq> amt_units (ra_ExpectedOutput a)
                 then Some AllocTerminalOutput else None))"

section \<open>Operations\<close>

record TransactionIdentity =
  ti_Chain :: ChainID
  ti_Account :: AccountID
  ti_Hash :: string
  ti_Nonce :: "64 word option"
  ti_Blockhash :: string
  ti_LastValidBlockHeight :: "64 word"

definition IdentityValidate :: "TransactionIdentity \<Rightarrow> exec_error option" where
  "IdentityValidate i =
     (if ti_Chain i = [] \<or> ti_Account i = [] \<or> ti_Hash i = [] then Some TransactionIncomplete else None)"

record OperationStep =
  os_Operation :: OperationID
  os_Leg :: Leg
  os_Identity :: TransactionIdentity
  os_Allocation :: "RouteAllocation option"
  os_Technical :: string
  os_Economic :: string

record OperationEconomics =
  oe_Valuation :: ValuationSnapshot
  oe_QuoteDelta :: AssetQuantity
  oe_BaseDelta :: AssetQuantity
  oe_MarkedBase :: AssetQuantity
  oe_GrossPnL :: AssetQuantity
  oe_Cost :: AssetQuantity
  oe_NetPnL :: AssetQuantity
  oe_Threshold :: AssetQuantity
  oe_DiscoveredAt :: gotime
  oe_ValidatedAt :: gotime

definition EconomicsFromOpportunity :: "LiveOpportunity \<Rightarrow> OperationEconomics" where
  "EconomicsFromOpportunity o' =
     \<lparr>oe_Valuation = lo_Valuation o', oe_QuoteDelta = lo_QuoteDelta o', oe_BaseDelta = lo_BaseDelta o',
      oe_MarkedBase = lo_MarkedBase o', oe_GrossPnL = lo_GrossPnL o', oe_Cost = lo_Cost o', oe_NetPnL = lo_NetPnL o',
      oe_Threshold = lo_Threshold o', oe_DiscoveredAt = lo_DiscoveredAt o', oe_ValidatedAt = lo_ValidatedAt o'\<rparr>"

definition EconomicsValidate :: "OperationEconomics \<Rightarrow> exec_error option" where
  "EconomicsValidate e =
     (let quote = vs_quote (oe_Valuation e) in
      if vs_version (oe_Valuation e) = 0 \<or> vs_base (oe_Valuation e) = [] \<or> quote = [] \<or>
         IsZeroTime (oe_DiscoveredAt e) \<or> IsZeroTime (oe_ValidatedAt e) then Some EconomicsIncomplete
      else if qty_asset (oe_BaseDelta e) \<noteq> vs_base (oe_Valuation e) \<or> qty_asset (oe_QuoteDelta e) \<noteq> quote \<or>
              qty_asset (oe_MarkedBase e) \<noteq> quote \<or> qty_asset (oe_GrossPnL e) \<noteq> quote \<or>
              qty_asset (oe_Cost e) \<noteq> quote \<or> qty_asset (oe_NetPnL e) \<noteq> quote \<or> qty_asset (oe_Threshold e) \<noteq> quote
      then Some EconomicsAssets
      else if QtySign (oe_Cost e) < 0 \<or> QtySign (oe_Threshold e) < 0 then Some EconomicsNegative
      else if (case NewAssetQuantity quote (Some (qty_value (oe_BaseDelta e) * vs_price (oe_Valuation e))) of
                 Inl _ \<Rightarrow> True | Inr marked \<Rightarrow> qty_value marked \<noteq> qty_value (oe_MarkedBase e)) then Some EconomicsMarked
      else if (case QtyAdd (oe_QuoteDelta e) (oe_MarkedBase e) of
                 Inl _ \<Rightarrow> True | Inr gross \<Rightarrow> qty_value gross \<noteq> qty_value (oe_GrossPnL e)) then Some EconomicsGross
      else if (case QtySub (oe_GrossPnL e) (oe_Cost e) of
                 Inl _ \<Rightarrow> True | Inr net \<Rightarrow> qty_value net \<noteq> qty_value (oe_NetPnL e)) then Some EconomicsNet
      else None)"

record Operation =
  opn_ID :: OperationID
  opn_Plan :: PlanID
  opn_OpportunityID :: string
  opn_ConfigHash :: string
  opn_Steps :: "OperationStep list"
  opn_Economics :: OperationEconomics
  opn_Technical :: string
  opn_Economic :: string
  opn_CreatedAt :: gotime
  opn_CommittedAt :: gotime

datatype prepared_error =
    PreparedExec exec_error
  | PreparedAllocation StepID alloc_error
  | PreparedMismatch StepID

definition step_error :: "OperationID \<Rightarrow> OperationStep \<Rightarrow> prepared_error option" where
  "step_error oid step =
     (if os_Operation step \<noteq> [] \<and> os_Operation step \<noteq> oid then Some (PreparedExec (StepForeign (leg_ID (os_Leg step))))
      else case LegValidate (os_Leg step) of
        Some e \<Rightarrow> Some (PreparedExec e)
      | None \<Rightarrow>
        (case IdentityValidate (os_Identity step) of
           Some e \<Rightarrow> Some (PreparedExec e)
         | None \<Rightarrow>
           (case os_Allocation step of
              None \<Rightarrow> None
            | Some a \<Rightarrow>
              (case AllocationValidate a of
                 Some e \<Rightarrow> Some (PreparedAllocation (leg_ID (os_Leg step)) e)
               | None \<Rightarrow>
                   if amt_token (ra_Input a) \<noteq> amt_token (leg_Input (os_Leg step)) \<or>
                      amt_units (ra_Input a) \<noteq> amt_units (leg_Input (os_Leg step)) \<or>
                      amt_token (ra_ExpectedOutput a) \<noteq> amt_token (leg_ExpectedOutput (os_Leg step)) \<or>
                      amt_units (ra_ExpectedOutput a) \<noteq> amt_units (leg_ExpectedOutput (os_Leg step))
                   then Some (PreparedMismatch (leg_ID (os_Leg step))) else None))))"

definition ValidatePrepared :: "Operation \<Rightarrow> prepared_error option" where
  "ValidatePrepared o' =
     (if opn_ID o' = [] \<or> opn_Plan o' = [] \<or> opn_OpportunityID o' = [] \<or> opn_ConfigHash o' = [] \<or>
         length (opn_Steps o') \<noteq> 2 \<or> IsZeroTime (opn_CreatedAt o') then Some (PreparedExec OperationIncomplete)
      else case EconomicsValidate (opn_Economics o') of
        Some e \<Rightarrow> Some (PreparedExec e)
      | None \<Rightarrow> first_error (step_error (opn_ID o')) (opn_Steps o'))"

section \<open>Costs, settlements and events\<close>

record CostComponent =
  cc_Kind :: string
  cc_Chain :: ChainID
  cc_Amount :: AssetQuantity
  cc_QuoteValue :: AssetQuantity
  cc_IncludedInOutput :: bool
  cc_Evidence :: string

datatype cost_error = CostIncomplete | CostQuoteNegative | CostQuoteInvalid

definition CostValidate :: "CostComponent \<Rightarrow> cost_error option" where
  "CostValidate c =
     (if blank (cc_Kind c) \<or> cc_Chain c = [] \<or> qty_asset (cc_Amount c) = [] \<or> QtySign (cc_Amount c) < 0 \<or>
         blank (cc_Evidence c) then Some CostIncomplete
      else if qty_asset (cc_QuoteValue c) \<noteq> [] \<and> QtySign (cc_QuoteValue c) < 0 then Some CostQuoteNegative
      else None)"

definition WithQuoteValue :: "CostComponent \<Rightarrow> AssetQuantity \<Rightarrow> (cost_error, CostComponent) result" where
  "WithQuoteValue c value =
     (if qty_asset value = [] \<or> QtySign value < 0 then Inl CostQuoteInvalid
      else check (CostValidate (c\<lparr>cc_QuoteValue := value\<rparr>)) (Inr (c\<lparr>cc_QuoteValue := value\<rparr>)))"

record Settlement =
  stl_Operation :: OperationID
  stl_Step :: StepID
  stl_Identity :: TransactionIdentity
  stl_Technical :: string
  stl_Economic :: string
  stl_ActualIn :: TokenAmount
  stl_ActualOut :: TokenAmount
  stl_Costs :: "CostComponent list"
  stl_ObservedAt :: gotime
  stl_Evidence :: string

section \<open>Lemmas\<close>

subsection \<open>The state machines\<close>

text \<open>How far a technical state has progressed; every real transition moves forward.\<close>

definition technical_rank :: "string \<Rightarrow> nat" where
  "technical_rank s =
     (if s = StatePrepared \<or> s = StateCommitted then 0
      else if s = StateBroadcastRejected \<or> s = StateBroadcastPossible then 1
      else if s = StateOutcomeUnknown then 2 else 3)"

definition economic_rank :: "string \<Rightarrow> nat" where
  "economic_rank s = (if s = EconomicReserved then 0 else if s = EconomicEffectVerified \<or> s = EconomicEffectMismatch then 1 else 2)"

lemma technical_ranks:
  "list_all (\<lambda>from. list_all (\<lambda>to. technical_rank from < technical_rank to) (technical_allowed from))
     [StatePrepared, StateCommitted, StateBroadcastPossible, StateOutcomeUnknown, StateBroadcastRejected]"
  by code_simp

lemma economic_ranks:
  "list_all (\<lambda>from. list_all (\<lambda>to. economic_rank from < economic_rank to) (economic_allowed from))
     [EconomicReserved, EconomicEffectVerified, EconomicEffectMismatch]"
  by code_simp

lemma technical_sources:
  "from \<in> set [StatePrepared, StateCommitted, StateBroadcastPossible, StateOutcomeUnknown, StateBroadcastRejected] \<or>
   technical_allowed from = []"
  unfolding technical_allowed_def by (simp only: list.set insert_iff) (metis (full_types))

lemma economic_sources:
  "from \<in> set [EconomicReserved, EconomicEffectVerified, EconomicEffectMismatch] \<or> economic_allowed from = []"
  unfolding economic_allowed_def by (simp only: list.set insert_iff) (metis (full_types))

lemma technical_forward: "to \<in> set (technical_allowed from) \<Longrightarrow> technical_rank from < technical_rank to"
  using technical_ranks technical_sources [of "from"] unfolding list_all_iff by (metis empty_iff list.set(1))

lemma economic_forward: "to \<in> set (economic_allowed from) \<Longrightarrow> economic_rank from < economic_rank to"
  using economic_ranks economic_sources [of "from"] unfolding list_all_iff by (metis empty_iff list.set(1))

text \<open>A history is a list of states in which every step is an accepted change to another state.\<close>

fun history :: "('s \<Rightarrow> 's \<Rightarrow> bool) \<Rightarrow> 's list \<Rightarrow> bool" where
  "history ok (a # b # rest) \<longleftrightarrow> a \<noteq> b \<and> ok a b \<and> history ok (b # rest)"
| "history ok _ \<longleftrightarrow> True"

lemma history_rank:
  assumes "\<And>a b. ok a b \<Longrightarrow> a \<noteq> b \<Longrightarrow> rank a < (rank b :: nat)"
  shows "history ok (a # xs) \<Longrightarrow> rank a + length xs \<le> rank (last (a # xs)) \<and> (\<forall>x \<in> set xs. rank a < rank x) \<and> distinct (a # xs)"
proof (induction xs arbitrary: a)
  case (Cons b xs)
  have ab: "rank a < rank b" "history ok (b # xs)" using Cons.prems assms by simp_all
  from Cons.IH [OF ab(2)] ab(1) show ?case by (auto intro: less_trans)
qed simp

subsection \<open>Allocations\<close>

lemma foldM_prefix_invariant:
  assumes "foldM f s xs = Inr t" and "P [] s"
    and "\<And>ys y u v. P ys u \<Longrightarrow> f u y = Inr v \<Longrightarrow> P (ys @ [y]) v"
  shows "P xs t"
  using assms(1)
proof (induction xs arbitrary: t rule: rev_induct)
  case (snoc x xs)
  then obtain u where u: "foldM f s xs = Inr u" by (cases "foldM f s xs") (simp_all add: foldM_append)
  then have "f u x = Inr t" using snoc.prems by (cases "f u x") (simp_all add: foldM_append)
  then show ?case using snoc.IH [OF u] assms(3) by blast
qed (use assms(2) in simp)

lemma sum_by_filter_insert:
  "distinct xs \<Longrightarrow> p \<in> set xs \<Longrightarrow> \<not> Q p \<Longrightarrow> sum_by f (filter (\<lambda>x. Q x \<or> x = p) xs) = sum_by f (filter Q xs) + f p"
proof (induction xs)
  case (Cons x xs)
  show ?case
  proof (cases "x = p")
    case True
    then have "filter (\<lambda>x. Q x \<or> x = p) xs = filter Q xs" using Cons.prems by (intro filter_cong) auto
    then show ?thesis using True Cons.prems by simp
  qed (use Cons in auto)
qed simp

lemma sum_by_filter_split: "sum_by f (filter Q xs) + sum_by f (filter (\<lambda>x. \<not> Q x) xs) = sum_by f xs"
  by (induction xs) auto

text \<open>The flow through a group: what it plans to take in and what it expects to give out.\<close>

abbreviation taken :: "RouteGroup \<Rightarrow> int" where "taken g \<equiv> sumPlannedInput (rg_Branches g)"
abbreviation given :: "RouteGroup \<Rightarrow> int" where "given g \<equiv> sumExpectedOutput (rg_Branches g)"

definition branch_ok :: "RouteBranch \<Rightarrow> bool" where
  "branch_ok b \<longleftrightarrow> rb_Market b \<noteq> [] \<and> 0 < bigint (rb_PlannedInput b) \<and> 0 < bigint (rb_ExpectedOutput b)"

definition group_ok :: "RouteGroup \<Rightarrow> bool" where
  "group_ok g \<longleftrightarrow> rg_ID g \<noteq> [] \<and> rg_InputToken g \<noteq> [] \<and> rg_OutputToken g \<noteq> [] \<and> rg_InputToken g \<noteq> rg_OutputToken g \<and>
     rg_Branches g \<noteq> [] \<and> (\<forall>b \<in> set (rg_Branches g). branch_ok b) \<and> distinct (map rb_Market (rg_Branches g))"

lemma branch_error_None:
  "branch_error gid index seen bs = None \<longleftrightarrow>
     (\<forall>b \<in> set bs. branch_ok b) \<and> distinct (map rb_Market bs) \<and> set (map rb_Market bs) \<inter> set seen = {}"
  by (induction gid index seen bs rule: branch_error.induct)
    (auto simp: branch_ok_def bigint_def split: option.splits)

text \<open>Group \<open>i\<close> is a root on the leg's input token, or takes exactly what an earlier group gives.\<close>

definition link_ok :: "RouteAllocation \<Rightarrow> RouteGroup list \<Rightarrow> nat \<Rightarrow> bool" where
  "link_ok a gs i \<longleftrightarrow>
     (if rg_Parent (gs ! i) = [] then rg_InputToken (gs ! i) = amt_token (ra_Input a)
      else \<exists>j < i. rg_ID (gs ! j) = rg_Parent (gs ! i) \<and> rg_OutputToken (gs ! j) = rg_InputToken (gs ! i) \<and>
             taken (gs ! i) = given (gs ! j))"

definition consumed :: "RouteGroup list \<Rightarrow> string \<Rightarrow> bool" where
  "consumed gs gid \<longleftrightarrow> gid \<noteq> [] \<and> (\<exists>h \<in> set gs. rg_Parent h = gid)"

definition alloc_inv :: "RouteAllocation \<Rightarrow> RouteGroup list \<Rightarrow> alloc_scan \<Rightarrow> bool" where
  "alloc_inv a gs st \<longleftrightarrow>
     distinct (map rg_ID gs) \<and>
     (\<forall>gid g. sc_groups st gid = Some g \<longleftrightarrow> g \<in> set gs \<and> rg_ID g = gid) \<and>
     (\<forall>g \<in> set gs. group_ok g) \<and>
     (\<forall>i < length gs. link_ok a gs i) \<and>
     (\<forall>gid. sc_children st gid = (if consumed gs gid then 1 else 0)) \<and>
     distinct (filter (\<lambda>p. p \<noteq> []) (map rg_Parent gs)) \<and>
     sc_rootInput st = sum_by taken (filter (\<lambda>g. rg_Parent g = []) gs) \<and>
     sc_rootInput st + sum_by given (filter (\<lambda>g. consumed gs (rg_ID g)) gs) = sum_by taken gs"

text \<open>What one accepted group adds to the scan.\<close>

lemma scan_group_Inr:
  assumes "scan_group a st (index, g) = Inr st'"
  shows "group_ok g \<and> rg_ID g \<notin> dom (sc_groups st) \<and> rg_Parent g \<noteq> rg_ID g \<and> sc_groups st' = (sc_groups st)(rg_ID g \<mapsto> g) \<and>
    (if rg_Parent g = [] then rg_InputToken g = amt_token (ra_Input a) \<and> sc_children st' = sc_children st \<and>
        sc_rootInput st' = sc_rootInput st + taken g
     else \<exists>p. sc_groups st (rg_Parent g) = Some p \<and> rg_OutputToken p = rg_InputToken g \<and> taken g = given p \<and>
        sc_children st (rg_Parent g) = 0 \<and> sc_children st' = (sc_children st)(rg_Parent g := 1) \<and>
        sc_rootInput st' = sc_rootInput st)"
  using assms
  by (auto simp: scan_group_def Let_def check_eq_Inr branch_error_None group_ok_def split: if_splits option.splits)

lemma link_ok_append:
  assumes "i < length gs"
  shows "link_ok a (gs @ [g]) i \<longleftrightarrow> link_ok a gs i"
proof -
  have "(gs @ [g]) ! j = gs ! j" if "j \<le> i" for j using assms that by (simp add: nth_append)
  then show ?thesis unfolding link_ok_def by (metis less_imp_le order_refl)
qed

lemma consumed_append: "consumed (gs @ [g]) gid \<longleftrightarrow> consumed gs gid \<or> (gid \<noteq> [] \<and> rg_Parent g = gid)"
  by (auto simp: consumed_def)

text \<open>No group of the prefix consumes a group that is not in it.\<close>

lemma alloc_inv_consumed:
  assumes "alloc_inv a gs st" and "consumed gs gid"
  shows "\<exists>p \<in> set gs. rg_ID p = gid"
proof -
  obtain i where i: "i < length gs" "rg_Parent (gs ! i) = gid" "gid \<noteq> []"
    using assms(2) by (auto simp: consumed_def in_set_conv_nth)
  then have "link_ok a gs i" using assms(1) by (simp add: alloc_inv_def)
  then obtain j where "j < i" "rg_ID (gs ! j) = gid" using i by (auto simp: link_ok_def)
  then show ?thesis using i(1) by (metis less_trans nth_mem)
qed

lemma alloc_inv_root:
  assumes inv: "alloc_inv a gs st" and step: "scan_group a st (index, g) = Inr st'" and root: "rg_Parent g = []"
  shows "alloc_inv a (gs @ [g]) st'"
proof -
  note g = scan_group_Inr [OF step]
  have new: "rg_ID g \<notin> set (map rg_ID gs)" using inv g by (auto simp: alloc_inv_def dom_def)
  have same: "consumed (gs @ [g]) = consumed gs" using root by (auto simp: consumed_append fun_eq_iff)
  have fresh: "\<not> consumed gs (rg_ID g)" using alloc_inv_consumed [OF inv, of "rg_ID g"] new by (metis image_eqI set_map)
  have links: "\<forall>i < length (gs @ [g]). link_ok a (gs @ [g]) i"
    using inv g root by (auto simp: alloc_inv_def less_Suc_eq link_ok_append) (simp add: link_ok_def)
  have grps: "\<forall>gid h. sc_groups st' gid = Some h \<longleftrightarrow> h \<in> set (gs @ [g]) \<and> rg_ID h = gid"
    using inv g new by (auto simp: alloc_inv_def)
  show ?thesis
    unfolding alloc_inv_def same
    using inv g root new fresh links grps by (simp add: alloc_inv_def)
qed

lemma alloc_inv_child:
  assumes inv: "alloc_inv a gs st" and step: "scan_group a st (index, g) = Inr st'" and child: "rg_Parent g \<noteq> []"
  shows "alloc_inv a (gs @ [g]) st'"
proof -
  obtain p where g: "group_ok g" "rg_ID g \<notin> dom (sc_groups st)" "rg_Parent g \<noteq> rg_ID g" "sc_groups st' = (sc_groups st)(rg_ID g \<mapsto> g)"
      "sc_groups st (rg_Parent g) = Some p" "rg_OutputToken p = rg_InputToken g" "taken g = given p"
      "sc_children st (rg_Parent g) = 0" "sc_children st' = (sc_children st)(rg_Parent g := 1)" "sc_rootInput st' = sc_rootInput st"
    using scan_group_Inr [OF step] child by auto
  have p: "p \<in> set gs" "rg_ID p = rg_Parent g" using inv g(5) by (auto simp: alloc_inv_def)
  have new: "rg_ID g \<notin> set (map rg_ID gs)" using inv g(2) by (auto simp: alloc_inv_def dom_def)
  have fresh: "\<not> consumed gs (rg_ID g)" using alloc_inv_consumed [OF inv, of "rg_ID g"] new by (metis image_eqI set_map)
  have first: "\<not> consumed gs (rg_Parent g)" using inv g(8) by (auto simp: alloc_inv_def split: if_splits)
  have now: "consumed (gs @ [g]) gid \<longleftrightarrow> consumed gs gid \<or> gid = rg_Parent g" for gid using child by (auto simp: consumed_append)
  have links: "\<forall>i < length (gs @ [g]). link_ok a (gs @ [g]) i"
  proof -
    obtain j where "j < length gs" "gs ! j = p" using p(1) by (auto simp: in_set_conv_nth)
    then have "link_ok a (gs @ [g]) (length gs)" using p g child by (auto simp: link_ok_def nth_append)
    then show ?thesis using inv by (auto simp: alloc_inv_def less_Suc_eq link_ok_append)
  qed
  have grps: "\<forall>gid h. sc_groups st' gid = Some h \<longleftrightarrow> h \<in> set (gs @ [g]) \<and> rg_ID h = gid"
  proof -
    have "sc_groups st gid = Some h \<longleftrightarrow> h \<in> set gs \<and> rg_ID h = gid" for gid h using inv by (simp add: alloc_inv_def)
    moreover have "rg_ID h \<noteq> rg_ID g" if "h \<in> set gs" for h using new that by (metis image_eqI set_map)
    ultimately show ?thesis by (auto simp: g(4))
  qed
  have ids: "distinct gs" "distinct (map rg_ID gs)" using inv by (auto simp: alloc_inv_def distinct_map)
  have "filter (\<lambda>h. consumed (gs @ [g]) (rg_ID h)) gs = filter (\<lambda>h. consumed gs (rg_ID h) \<or> h = p) gs"
    using p ids(2) by (intro filter_cong) (auto simp: now distinct_map inj_on_def)
  then have flow: "sum_by given (filter (\<lambda>h. consumed (gs @ [g]) (rg_ID h)) (gs @ [g])) =
      sum_by given (filter (\<lambda>h. consumed gs (rg_ID h)) gs) + given p"
    using sum_by_filter_insert [OF ids(1) p(1), of "\<lambda>h. consumed gs (rg_ID h)" given] first p(2) fresh g(3)
    by (simp add: now)
  have parents: "distinct (filter (\<lambda>q. q \<noteq> []) (map rg_Parent (gs @ [g])))"
    using inv first child by (auto simp: alloc_inv_def consumed_def)
  have children: "\<forall>gid. sc_children st' gid = (if consumed (gs @ [g]) gid then 1 else 0)"
    using inv g(9) by (simp add: alloc_inv_def now)
  have "sc_rootInput st + sum_by given (filter (\<lambda>h. consumed gs (rg_ID h)) gs) = sum_by taken gs"
    "sc_rootInput st = sum_by taken (filter (\<lambda>h. rg_Parent h = []) gs)" "\<forall>h \<in> set gs. group_ok h"
    using inv by (simp_all add: alloc_inv_def)
  then show ?thesis
    unfolding alloc_inv_def flow
    using g(1,7,10) new links grps parents children ids(2) child by simp
qed

lemma alloc_inv_step:
  "alloc_inv a gs st \<Longrightarrow> scan_group a st (index, g) = Inr st' \<Longrightarrow> alloc_inv a (gs @ [g]) st'"
  using alloc_inv_root alloc_inv_child by blast

lemma alloc_scan_inv:
  assumes "foldM (scan_group a) \<lparr>sc_groups = Map.empty, sc_children = (\<lambda>_. 0), sc_rootInput = 0\<rparr> (enumerate n gs) = Inr st"
  shows "alloc_inv a gs st"
proof -
  have "alloc_inv a (map snd (enumerate n gs)) st"
  proof (rule foldM_prefix_invariant [OF assms, where P = "\<lambda>xs st. alloc_inv a (map snd xs) st"])
    show "alloc_inv a (map snd []) \<lparr>sc_groups = Map.empty, sc_children = (\<lambda>_. 0), sc_rootInput = 0\<rparr>"
      by (simp add: alloc_inv_def consumed_def)
  next
    fix ys :: "(nat \<times> RouteGroup) list" and y u v
    assume "alloc_inv a (map snd ys) u" "scan_group a u y = Inr v"
    then show "alloc_inv a (map snd (ys @ [y])) v" using alloc_inv_step [of a "map snd ys" u "fst y" "snd y" v] by simp
  qed
  then show ?thesis by simp
qed

text \<open>An accepted allocation, as a specification.\<close>

definition allocation_ok :: "RouteAllocation \<Rightarrow> bool" where
  "allocation_ok a \<longleftrightarrow>
     (let gs = ra_Groups a; terminal = filter (\<lambda>g. \<not> consumed gs (rg_ID g)) gs in
      distinct (map rg_ID gs) \<and> (\<forall>g \<in> set gs. group_ok g) \<and> (\<forall>i < length gs. link_ok a gs i) \<and>
      distinct (filter (\<lambda>p. p \<noteq> []) (map rg_Parent gs)) \<and>
      sum_by taken (filter (\<lambda>g. rg_Parent g = []) gs) = amt_units (ra_Input a) \<and>
      (\<forall>g \<in> set terminal. rg_OutputToken g = amt_token (ra_ExpectedOutput a)) \<and>
      sum_by given terminal = amt_units (ra_ExpectedOutput a))"

lemma AllocationValidate_scan:
  assumes "AllocationValidate a = None"
  shows "\<exists>st. alloc_inv a (ra_Groups a) st \<and> sc_rootInput st = amt_units (ra_Input a) \<and>
    (\<forall>g \<in> set (ra_Groups a). \<not> consumed (ra_Groups a) (rg_ID g) \<longrightarrow> rg_OutputToken g = amt_token (ra_ExpectedOutput a)) \<and>
    sum_by given (filter (\<lambda>g. \<not> consumed (ra_Groups a) (rg_ID g)) (ra_Groups a)) = amt_units (ra_ExpectedOutput a)"
proof -
  from assms obtain st where st: "foldM (scan_group a) \<lparr>sc_groups = Map.empty, sc_children = (\<lambda>_. 0), sc_rootInput = 0\<rparr>
      (enumerate 0 (ra_Groups a)) = Inr st"
    by (auto simp: AllocationValidate_def split: if_splits sum.splits)
  note inv = alloc_scan_inv [OF st]
  have ch: "sc_children st gid = 0 \<longleftrightarrow> \<not> consumed (ra_Groups a) gid" for gid using inv by (simp add: alloc_inv_def)
  show ?thesis
    using assms st inv unfolding AllocationValidate_def Let_def ch
    by (auto simp: ch first_error_None split: if_splits option.splits)
qed

lemma AllocationValidate_ok: "AllocationValidate a = None \<Longrightarrow> allocation_ok a"
  using AllocationValidate_scan [of a] by (auto simp: allocation_ok_def Let_def alloc_inv_def)

lemma economics_identity:
  assumes "EconomicsValidate e = None"
  shows "qty_value (oe_NetPnL e) = qty_value (oe_QuoteDelta e) + qty_value (oe_BaseDelta e) * vs_price (oe_Valuation e) -
      qty_value (oe_Cost e) \<and> 0 \<le> qty_value (oe_Cost e)"
  using assms
  by (auto simp: EconomicsValidate_def Let_def NewAssetQuantity_def QtyAdd_def QtySub_def QtySign_def
      split: if_splits)

section \<open>Properties\<close>

text \<open>
  C4: An accepted allocation conserves flow. Its groups form a forest in which every group
  comes after the one it feeds on and no output is consumed twice; the root groups take
  exactly the leg's input, the unconsumed groups give exactly the expected output in its
  token, and across all groups what is taken plus the expected output equals what is given
  plus the leg's input.
\<close>

theorem allocation_conserves:
  assumes "AllocationValidate a = None"
  shows "allocation_ok a \<and>
    sum_by taken (ra_Groups a) + amt_units (ra_ExpectedOutput a) = sum_by given (ra_Groups a) + amt_units (ra_Input a)"
proof -
  let ?gs = "ra_Groups a"
  obtain st where st: "alloc_inv a ?gs st" "sc_rootInput st = amt_units (ra_Input a)"
      "\<forall>g \<in> set ?gs. \<not> consumed ?gs (rg_ID g) \<longrightarrow> rg_OutputToken g = amt_token (ra_ExpectedOutput a)"
      "sum_by given (filter (\<lambda>g. \<not> consumed ?gs (rg_ID g)) ?gs) = amt_units (ra_ExpectedOutput a)"
    using AllocationValidate_scan [OF assms] by blast
  have flow: "amt_units (ra_Input a) + sum_by given (filter (\<lambda>g. consumed ?gs (rg_ID g)) ?gs) = sum_by taken ?gs"
    "sum_by taken (filter (\<lambda>g. rg_Parent g = []) ?gs) = amt_units (ra_Input a)"
    using st(1,2) by (simp_all add: alloc_inv_def)
  have "allocation_ok a" using st flow(2) by (simp add: allocation_ok_def Let_def alloc_inv_def)
  then show ?thesis
    using flow(1) st(4) sum_by_filter_split [of given "\<lambda>g. consumed ?gs (rg_ID g)" ?gs] by linarith
qed

text \<open>
  An operation can only be prepared with consistent books: its two legs are complete,
  every allocation moves exactly the leg's amounts, and the recorded net result is the
  quote delta plus the marked base delta less a non-negative cost.
\<close>

lemma prepared_operation_consistent:
  assumes "ValidatePrepared o' = None"
  shows "length (opn_Steps o') = 2 \<and>
    qty_value (oe_NetPnL (opn_Economics o')) = qty_value (oe_QuoteDelta (opn_Economics o')) +
      qty_value (oe_BaseDelta (opn_Economics o')) * vs_price (oe_Valuation (opn_Economics o')) -
      qty_value (oe_Cost (opn_Economics o')) \<and> 0 \<le> qty_value (oe_Cost (opn_Economics o')) \<and>
    (\<forall>step \<in> set (opn_Steps o'). LegValidate (os_Leg step) = None \<and>
       (\<forall>a. os_Allocation step = Some a \<longrightarrow> allocation_ok a \<and>
          ra_Input a = leg_Input (os_Leg step) \<and> ra_ExpectedOutput a = leg_ExpectedOutput (os_Leg step)))"
proof -
  have parts: "length (opn_Steps o') = 2" "EconomicsValidate (opn_Economics o') = None"
      "\<forall>step \<in> set (opn_Steps o'). step_error (opn_ID o') step = None"
    using assms by (auto simp: ValidatePrepared_def first_error_None split: if_splits option.splits)
  have "LegValidate (os_Leg step) = None \<and> (\<forall>a. os_Allocation step = Some a \<longrightarrow> AllocationValidate a = None \<and>
      ra_Input a = leg_Input (os_Leg step) \<and> ra_ExpectedOutput a = leg_ExpectedOutput (os_Leg step))"
    if "step_error oid step = None" for oid step
    using that by (auto simp: step_error_def split: if_splits option.splits)
  then show ?thesis using parts economics_identity [OF parts(2)] AllocationValidate_ok by blast
qed

lemma technical_rank_bound: "technical_rank s \<le> 3" and economic_rank_bound: "economic_rank s \<le> 2"
  by (simp_all add: technical_rank_def economic_rank_def)

lemma technical_terminal:
  "list_all (\<lambda>s. technical_allowed s = []) [StateConfirmedSuccess, StateConfirmedRevert, StateNoExecution, StateManualIntervention]"
  by code_simp

lemma technical_final:
  assumes "s \<in> {StateConfirmedSuccess, StateConfirmedRevert, StateNoExecution, StateManualIntervention}"
  shows "technical_allowed s = []"
  using technical_terminal [unfolded list_all_iff list.set] assms by (rule bspec)

lemma history_stuck: "history ok (s # xs) \<Longrightarrow> (\<And>t. ok s t \<Longrightarrow> t = s) \<Longrightarrow> xs = []"
  by (cases xs) auto

text \<open>
  C34: The durable state machines make progress. However an operation evolves through
  accepted changes, its technical state changes at most three times and its economic state
  at most twice, no state is ever revisited, and a confirmed, disproved or manual outcome
  is final.
\<close>

theorem durable_states_progress:
  assumes "history ValidateTechnicalTransition (s # xs)" and "history ValidateEconomicTransition (e # ys)"
  shows "length xs \<le> 3 \<and> distinct (s # xs) \<and> length ys \<le> 2 \<and> distinct (e # ys) \<and>
    (s \<in> {StateConfirmedSuccess, StateConfirmedRevert, StateNoExecution, StateManualIntervention} \<longrightarrow> xs = [])"
proof -
  have t: "technical_rank a < technical_rank b" if "ValidateTechnicalTransition a b" "a \<noteq> b" for a b
    using that technical_forward by (simp add: ValidateTechnicalTransition_def)
  have ec: "economic_rank a < economic_rank b" if "ValidateEconomicTransition a b" "a \<noteq> b" for a b
    using that economic_forward by (simp add: ValidateEconomicTransition_def)
  have ht: "technical_rank s + length xs \<le> technical_rank (last (s # xs))" "distinct (s # xs)"
    using history_rank [of ValidateTechnicalTransition technical_rank s xs] t assms(1) by metis+
  have he: "economic_rank e + length ys \<le> economic_rank (last (e # ys))" "distinct (e # ys)"
    using history_rank [of ValidateEconomicTransition economic_rank e ys] ec assms(2) by metis+
  have bounds: "length xs \<le> 3" "length ys \<le> 2"
    using ht(1) he(1) technical_rank_bound [of "last (s # xs)"] economic_rank_bound [of "last (e # ys)"] by linarith+
  show ?thesis
  proof (intro conjI impI)
    assume "s \<in> {StateConfirmedSuccess, StateConfirmedRevert, StateNoExecution, StateManualIntervention}"
    from technical_final [OF this] show "xs = []"
      by (intro history_stuck [OF assms(1)]) (simp only: ValidateTechnicalTransition_def list.set empty_iff simp_thms)
  next
    show "distinct (s # xs)" by (fact ht(2))
  next
    show "distinct (e # ys)" by (fact he(2))
  qed (fact bounds)+
qed

text \<open>
  C35: A parallel saga plan has exactly one complete buy leg and one complete sell leg, and
  a pair of complete legs is accepted with any valid opportunity exactly when their sides differ.
\<close>

theorem saga_plan_sides:
  assumes "pid \<noteq> []" and "createdAt \<noteq> 0" and "LiveOpportunityValidate opp = None"
  shows "(\<exists>plan. NewSagaPlan pid opp legs createdAt = Inr plan) \<longleftrightarrow>
    (\<exists>a b. legs = [a, b] \<and> LegValidate a = None \<and> LegValidate b = None \<and> leg_Side a \<noteq> leg_Side b)"
proof (cases "\<exists>a b. legs = [a, b]")
  case False
  then have "length legs \<noteq> 2" by (auto simp: numeral_2_eq_2 length_Suc_conv)
  then show ?thesis using False by (simp add: NewSagaPlan_def)
next
  case True
  then obtain a b where legs: "legs = [a, b]" by blast
  have side: "LegValidate l = None \<Longrightarrow> leg_Side l = LegBuy \<or> leg_Side l = LegSell" for l
    by (auto simp: LegValidate_def split: if_splits)
  have run: "NewSagaPlan pid opp legs createdAt = rbind (foldM leg_seen [] [a, b]) (\<lambda>seen.
      if LegBuy \<notin> set seen \<or> LegSell \<notin> set seen then Inl PlanSides
      else Inr \<lparr>plan_id = pid, plan_opportunity = opp, plan_legs = [a, b], plan_createdAt = createdAt\<rparr>)"
    using assms by (simp add: NewSagaPlan_def legs IsZeroTime_def)
  show ?thesis
    unfolding run using side [of a] side [of b]
    by (cases "LegValidate a"; cases "LegValidate b") (auto simp: legs leg_seen_def rbind_def)
qed

section \<open>Witnesses\<close>

definition exec_branch :: "MarketID \<Rightarrow> int \<Rightarrow> int \<Rightarrow> RouteBranch" where
  "exec_branch m i out = \<lparr>rb_Market = m, rb_PlannedInput = Some i, rb_ExpectedOutput = Some out\<rparr>"

definition exec_allocation :: RouteAllocation where
  "exec_allocation = \<lparr>ra_Input = \<lparr>amt_token = ''X'', amt_units = 100\<rparr>,
     ra_ExpectedOutput = \<lparr>amt_token = ''Z'', amt_units = 94\<rparr>,
     ra_Groups = [
       \<lparr>rg_ID = ''d'', rg_Parent = [], rg_InputToken = ''X'', rg_OutputToken = ''Z'', rg_Branches = [exec_branch ''m1'' 60 55]\<rparr>,
       \<lparr>rg_ID = ''f'', rg_Parent = [], rg_InputToken = ''X'', rg_OutputToken = ''Y'', rg_Branches = [exec_branch ''m2'' 40 42]\<rparr>,
       \<lparr>rg_ID = ''g'', rg_Parent = ''f'', rg_InputToken = ''Y'', rg_OutputToken = ''Z'',
        rg_Branches = [exec_branch ''m3'' 20 18, exec_branch ''m4'' 22 21]\<rparr>]\<rparr>"

lemma exec_allocation_valid: "AllocationValidate exec_allocation = None"
  by (simp add: AllocationValidate_def exec_allocation_def exec_branch_def AmountIsZero_def enumerate_eq_zip
      scan_group_def Let_def sumPlannedInput_def sumExpectedOutput_def bigint_def)

theorem allocation_conserves_witness:
  "allocation_ok exec_allocation \<and> sum_by taken (ra_Groups exec_allocation) = 142"
  using allocation_conserves [OF exec_allocation_valid]
  by (simp add: exec_allocation_def exec_branch_def sumPlannedInput_def sumExpectedOutput_def bigint_def)

definition exec_leg :: "StepID \<Rightarrow> string \<Rightarrow> Leg" where
  "exec_leg sid side = \<lparr>leg_ID = sid, leg_Side = side, leg_Chain = ''c'', leg_Account = ''acc'', leg_Market = ''m1'',
     leg_Input = \<lparr>amt_token = ''X'', amt_units = 100\<rparr>, leg_ExpectedOutput = \<lparr>amt_token = ''Z'', amt_units = 94\<rparr>\<rparr>"

definition dollars :: "rat \<Rightarrow> AssetQuantity" where
  "dollars v = \<lparr>qty_asset = ''usd'', qty_value = v\<rparr>"

definition exec_economics :: OperationEconomics where
  "exec_economics = \<lparr>oe_Valuation = \<lparr>vs_version = 1, vs_base = ''eth'', vs_quote = ''usd'', vs_price = 2,
       vs_observations = 1, vs_capturedAt = 1\<rparr>,
     oe_QuoteDelta = dollars 5, oe_BaseDelta = \<lparr>qty_asset = ''eth'', qty_value = 1\<rparr>, oe_MarkedBase = dollars 2,
     oe_GrossPnL = dollars 7, oe_Cost = dollars 3, oe_NetPnL = dollars 4, oe_Threshold = dollars 1,
     oe_DiscoveredAt = 1, oe_ValidatedAt = 2\<rparr>"

definition exec_step :: "StepID \<Rightarrow> string \<Rightarrow> OperationStep" where
  "exec_step sid side = \<lparr>os_Operation = [], os_Leg = exec_leg sid side,
     os_Identity = \<lparr>ti_Chain = ''c'', ti_Account = ''acc'', ti_Hash = ''0x1'', ti_Nonce = None, ti_Blockhash = [],
       ti_LastValidBlockHeight = 0\<rparr>, os_Allocation = Some exec_allocation, os_Technical = StatePrepared, os_Economic = EconomicReserved\<rparr>"

definition exec_operation :: Operation where
  "exec_operation = \<lparr>opn_ID = ''op'', opn_Plan = ''plan'', opn_OpportunityID = ''o'', opn_ConfigHash = ''cfg'',
     opn_Steps = [exec_step ''s1'' LegBuy, exec_step ''s2'' LegSell], opn_Economics = exec_economics,
     opn_Technical = StatePrepared, opn_Economic = EconomicReserved, opn_CreatedAt = 3, opn_CommittedAt = 0\<rparr>"

lemma exec_leg_valid: "side = LegBuy \<or> side = LegSell \<Longrightarrow> sid \<noteq> [] \<Longrightarrow> LegValidate (exec_leg sid side) = None"
  by (simp add: LegValidate_def exec_leg_def AmountIsZero_def)

lemma exec_economics_valid: "EconomicsValidate exec_economics = None"
  by (simp add: EconomicsValidate_def exec_economics_def dollars_def IsZeroTime_def QtySign_def NewAssetQuantity_def QtyAdd_def QtySub_def)

lemma exec_operation_valid: "ValidatePrepared exec_operation = None"
proof -
  have "step_error ''op'' (exec_step sid side) = None" if "side = LegBuy \<or> side = LegSell" "sid \<noteq> []" for sid side
    using exec_leg_valid [OF that] exec_allocation_valid
    by (simp add: step_error_def exec_step_def IdentityValidate_def) (simp add: exec_allocation_def exec_leg_def)
  then show ?thesis
    using exec_economics_valid by (simp add: ValidatePrepared_def exec_operation_def IsZeroTime_def)
qed

lemma prepared_operation_consistent_example: "qty_value (oe_NetPnL (opn_Economics exec_operation)) = 5 + 1 * 2 - 3"
  using prepared_operation_consistent [OF exec_operation_valid]
  by (simp add: exec_operation_def exec_economics_def dollars_def)

theorem durable_states_progress_witness:
  "length [StateBroadcastPossible, StateOutcomeUnknown, StateConfirmedRevert] \<le> 3 \<and>
   distinct [EconomicReserved, EconomicEffectVerified, EconomicSettled]"
proof -
  have "history ValidateTechnicalTransition [StatePrepared, StateBroadcastPossible, StateOutcomeUnknown, StateConfirmedRevert]"
    "history ValidateEconomicTransition [EconomicReserved, EconomicEffectVerified, EconomicSettled]"
    by code_simp+
  from durable_states_progress [OF this] show ?thesis by simp
qed

definition exec_live :: LiveOpportunity where
  "exec_live = (let a = \<lparr>amt_token = ''X'', amt_units = 100\<rparr>;
       q = \<lparr>q_Source = ''s'', q_Market = ''m1'', q_SnapshotVersion = 1, q_SnapshotHash = [],
         q_SourcePosition = \<lparr>sp_Kind = [], sp_Value = 0\<rparr>, q_ResponseHash = [], q_Purpose = [], q_Mode = [], q_Quality = [],
         q_AmountIn = a, q_AmountOut = a, q_QuotedAt = 1, q_fees = []\<rparr>
     in \<lparr>lo_ID = ''o'', lo_Setup = ''set'', lo_Direction = \<lparr>dir_BuyMarket = ''m1'', dir_SellMarket = ''m2''\<rparr>,
         lo_Valuation = oe_Valuation exec_economics, lo_BuyQuote = q, lo_SellQuote = q, lo_QuoteDelta = dollars 5,
         lo_BaseDelta = dollars 1, lo_MarkedBase = dollars 2, lo_GrossPnL = dollars 7, lo_Cost = dollars 3, lo_NetPnL = dollars 4,
         lo_Threshold = dollars 1, lo_RiskBlock = [], lo_DiscoveredAt = 1, lo_ValidatedAt = 2\<rparr>)"

theorem saga_plan_sides_witness:
  "\<exists>plan. NewSagaPlan ''plan'' exec_live [exec_leg ''s1'' LegBuy, exec_leg ''s2'' LegSell] 3 = Inr plan"
proof -
  have "LiveOpportunityValidate exec_live = None"
    by (simp add: LiveOpportunityValidate_def exec_live_def Let_def AmountIsZero_def dollars_def QtySign_def IsZeroTime_def)
  from saga_plan_sides [OF _ _ this, of "''plan''" 3 "[exec_leg ''s1'' LegBuy, exec_leg ''s2'' LegSell]"]
  show ?thesis using exec_leg_valid by (simp add: exec_leg_def)
qed

end
