(* ===== verification/Sizing_Split.thy ===== *)
theory Sizing_Split
  imports Exec_Types "HOL-Library.List_Lexorder" "HOL-Library.Char_ord"
begin

text \<open>
  The division of one input over several pools, \<open>src/core/sizing/split.go\<close>, and the
  executable allocation built from it, \<open>src/core/sizing/execution_allocation.go\<close>. A curve is an
  immutable output function of one pool snapshot, a parameter. The optimiser searches integer
  allocations: exhaustively when there are few, otherwise by pairwise line searches from several
  starts. The context is read once at the start; the counters of \<open>SplitMetrics\<close> are left out.
\<close>

section \<open>Curves\<close>

datatype curve_failure = OutputRoundsToZero | QuoteFailed

datatype split_failure =
    SplitContext
  | SplitTotalInput
  | SplitNoCurves
  | SplitStages
  | SplitLimits
  | SplitCurveInvalid nat
  | SplitDuplicate string
  | SplitCurveInput string
  | SplitCurveQuote string
  | SplitCurveOutput string
  | SplitCoordinates
  | SplitConserve
  | SplitObjective
  | SplitInt64
  | SplitConverge nat
  | SplitNoOutput
  | SplitNoFeasible

record SplitCurve =
  crv_ID :: string
  crv_Quote :: "(int \<Rightarrow> (curve_failure, int option) result) option"

record memoCurve =
  mc_id :: string
  mc_quote :: "int \<Rightarrow> (curve_failure, int option) result"
  mc_cache :: "(string \<rightharpoonup> int) option"
  mc_calls :: int
  mc_hits :: int

record SplitAllocation =
  sa_CurveID :: string
  sa_AmountIn :: "int option"
  sa_AmountOut :: "int option"

fun curves_of :: "bool \<Rightarrow> nat \<Rightarrow> SplitCurve list \<Rightarrow> (split_failure, memoCurve list) result" where
  "curves_of cacheEnabled index [] = Inr []"
| "curves_of cacheEnabled index (curve # rest) =
     (case crv_Quote curve of
        None \<Rightarrow> Inl (SplitCurveInvalid index)
      | Some quote \<Rightarrow>
          if blank (crv_ID curve) then Inl (SplitCurveInvalid index)
          else rbind (curves_of cacheEnabled (Suc index) rest) (\<lambda>curves.
            Inr (\<lparr>mc_id = crv_ID curve, mc_quote = quote, mc_cache = (if cacheEnabled then Some Map.empty else None),
                  mc_calls = 0, mc_hits = 0\<rparr> # curves)))"

definition newCurves :: "SplitCurve list \<Rightarrow> bool \<Rightarrow> (split_failure, memoCurve list) result" where
  "newCurves configured cacheEnabled = curves_of cacheEnabled 0 (sort_key crv_ID configured)"

definition newMemoCurves :: "SplitCurve list \<Rightarrow> (split_failure, memoCurve list) result" where
  "newMemoCurves configured = newCurves configured True"

definition newUncachedCurves :: "SplitCurve list \<Rightarrow> (split_failure, memoCurve list) result" where
  "newUncachedCurves configured = newCurves configured False"

definition seen_curve :: "string list \<Rightarrow> memoCurve \<Rightarrow> (split_failure, string list) result" where
  "seen_curve seen c = (if mc_id c \<in> set seen then Inl (SplitDuplicate (mc_id c)) else Inr (mc_id c # seen))"

definition uniqueCurveIDs :: "memoCurve list list \<Rightarrow> split_failure option" where
  "uniqueCurveIDs groups = (case foldM seen_curve [] (concat groups) of Inl e \<Rightarrow> Some e | Inr _ \<Rightarrow> None)"

text \<open>\<open>memoCurve.at\<close> with its cache and counters.\<close>

definition memo_at :: "memoCurve \<Rightarrow> int \<Rightarrow> (split_failure, int) result \<times> memoCurve" where
  "memo_at c amount =
     (if amount < 0 then (Inl (SplitCurveInput (mc_id c)), c)
      else if amount = 0 then (Inr 0, c)
      else
        let key = int_string amount in
        case Option.bind (mc_cache c) (\<lambda>cache. cache key) of
          Some value \<Rightarrow> (Inr value, c\<lparr>mc_hits := mc_hits c + 1\<rparr>)
        | None \<Rightarrow>
            (let store = (\<lambda>value. (Inr value, c\<lparr>mc_calls := mc_calls c + 1,
                   mc_cache := map_option (\<lambda>cache. cache(key \<mapsto> value)) (mc_cache c)\<rparr>)) in
             case mc_quote c amount of
               Inl OutputRoundsToZero \<Rightarrow> store 0
             | Inl QuoteFailed \<Rightarrow> (Inl (SplitCurveQuote (mc_id c)), c)
             | Inr None \<Rightarrow> (Inl (SplitCurveOutput (mc_id c)), c)
             | Inr (Some value) \<Rightarrow> if value < 0 then (Inl (SplitCurveOutput (mc_id c)), c) else store value))"

text \<open>The value that \<open>at\<close> returns. A curve is a function of its input, so that the cache never shows.\<close>

definition curve_at :: "memoCurve \<Rightarrow> int \<Rightarrow> (split_failure, int) result" where
  "curve_at c amount =
     (if amount < 0 then Inl (SplitCurveInput (mc_id c))
      else if amount = 0 then Inr 0
      else case mc_quote c amount of
        Inl OutputRoundsToZero \<Rightarrow> Inr 0
      | Inl QuoteFailed \<Rightarrow> Inl (SplitCurveQuote (mc_id c))
      | Inr None \<Rightarrow> Inl (SplitCurveOutput (mc_id c))
      | Inr (Some value) \<Rightarrow> if value < 0 then Inl (SplitCurveOutput (mc_id c)) else Inr value)"

definition cache_ok :: "memoCurve \<Rightarrow> bool" where
  "cache_ok c \<longleftrightarrow> (\<forall>cache amount value. mc_cache c = Some cache \<longrightarrow> cache (int_string amount) = Some value \<longrightarrow> 0 < amount \<longrightarrow>
     curve_at c amount = Inr value)"

section \<open>Allocations\<close>

definition zeroAllocation :: "nat \<Rightarrow> int list" where
  "zeroAllocation count = replicate count 0"

definition allocationKey :: "int list \<Rightarrow> string" where
  "allocationKey allocation = join_strings '','' (map int_string allocation)"

definition allocationConserves :: "int list \<Rightarrow> int \<Rightarrow> bool" where
  "allocationConserves allocation amount \<longleftrightarrow> list_all (\<lambda>a. 0 \<le> a) allocation \<and> sum_list allocation = amount"

definition allocatedPositive :: "int list \<Rightarrow> bool" where
  "allocatedPositive allocation = list_ex (\<lambda>a. 0 < a) allocation"

text \<open>The sum of the outputs of a family of curves, in their order.\<close>

definition add_output :: "int \<Rightarrow> memoCurve \<times> int \<Rightarrow> (split_failure, int) result" where
  "add_output acc ca = rbind (curve_at (fst ca) (snd ca)) (\<lambda>value. Inr (acc + value))"

definition family_output :: "memoCurve list \<Rightarrow> int list \<Rightarrow> (split_failure, int) result" where
  "family_output curves amounts = foldM add_output 0 (zip curves amounts)"

fun materializeAllocations :: "memoCurve list \<Rightarrow> int list \<Rightarrow> (split_failure, SplitAllocation list) result" where
  "materializeAllocations (c # cs) (a # as) =
     rbind (curve_at c a) (\<lambda>out. rbind (materializeAllocations cs as) (\<lambda>rest.
       Inr (\<lparr>sa_CurveID = mc_id c, sa_AmountIn = Some a, sa_AmountOut = Some out\<rparr> # rest)))"
| "materializeAllocations _ _ = Inr []"

section \<open>Search\<close>

type_synonym evaluator = "int list \<Rightarrow> (split_failure, int) result"
type_synonym best_of = "(int list \<times> int) option"

definition evaluate_with :: "(int list \<Rightarrow> (split_failure, int) result) \<Rightarrow> int \<Rightarrow> evaluator" where
  "evaluate_with objective amount allocation =
     (if \<not> allocationConserves allocation amount then Inl SplitConserve
      else rbind (objective allocation) (\<lambda>value. if value < 0 then Inl SplitObjective else Inr value))"

definition keep_better :: "best_of \<Rightarrow> int list \<Rightarrow> int \<Rightarrow> best_of" where
  "keep_better best allocation value =
     (case best of
        None \<Rightarrow> Some (allocation, value)
      | Some (bestAllocation, bestValue) \<Rightarrow>
          if value > bestValue \<or> value = bestValue \<and> allocationKey allocation < allocationKey bestAllocation
          then Some (allocation, value) else best)"

fun composition_loop :: "int \<Rightarrow> int \<Rightarrow> nat list \<Rightarrow> int \<Rightarrow> bool" where
  "composition_loop amount limit [] combinations = True"
| "composition_loop amount limit (i # rest) combinations =
     (let c = bigQuo (combinations * (amount + int i)) (int i) in
      if c > limit then False else composition_loop amount limit rest c)"

definition compositionCountAtMost :: "int \<Rightarrow> nat \<Rightarrow> int \<Rightarrow> bool" where
  "compositionCountAtMost amount count limit =
     (if amount < 0 \<or> count < 1 then False
      else if count = 1 then limit \<ge> 1
      else composition_loop amount limit [1..<count] 1)"

text \<open>The recursion of \<open>exhaustiveCoordinates\<close>; the number is how many positions follow this one.\<close>

primrec walk :: "nat \<Rightarrow> evaluator \<Rightarrow> int list \<Rightarrow> int \<Rightarrow> best_of \<Rightarrow> (split_failure, best_of) result" where
  "walk 0 evaluate prefix remaining best =
     rbind (evaluate (prefix @ [remaining])) (\<lambda>value. Inr (keep_better best (prefix @ [remaining]) value))"
| "walk (Suc k) evaluate prefix remaining best =
     foldM (\<lambda>b value. walk k evaluate (prefix @ [value]) (remaining - value) b) best [0..remaining]"

definition exhaustiveCoordinates :: "int \<Rightarrow> nat \<Rightarrow> evaluator \<Rightarrow> (split_failure, best_of) result" where
  "exhaustiveCoordinates amount count evaluate =
     (if amount < - (2 ^ 63) \<or> 2 ^ 63 \<le> amount then Inl SplitInt64
      else walk (count - 1) evaluate [] amount None)"

definition add_start :: "int list list \<Rightarrow> int list \<Rightarrow> int list list" where
  "add_start starts candidate =
     (if allocationKey candidate \<in> set (map allocationKey starts) then starts else starts @ [candidate])"

definition coordinateStarts :: "int \<Rightarrow> nat \<Rightarrow> int list list" where
  "coordinateStarts amount count =
     (let single = map (\<lambda>i. (zeroAllocation count)[i := amount]) [0..<count];
          share = bigQuo amount (int count); remainder = bigRem amount (int count);
          equal = map (\<lambda>i. if int i < remainder then share + 1 else share) [0..<count];
          halves = concat (map (\<lambda>left. map (\<lambda>right. (zeroAllocation count)[left := amount div 2, right := amount - amount div 2])
            [Suc left..<count]) [0..<count])
      in foldl add_start [] (single @ [equal] @ halves))"

function pair_climb :: "(int \<Rightarrow> (split_failure, int) result) \<Rightarrow> int \<Rightarrow> int \<Rightarrow> (split_failure, int) result" where
  "pair_climb value_at low high =
     (if low < high then
        (case value_at ((low + high) div 2) of
           Inl e \<Rightarrow> Inl e
         | Inr middleValue \<Rightarrow>
           (case value_at ((low + high) div 2 + 1) of
              Inl e \<Rightarrow> Inl e
            | Inr nextValue \<Rightarrow>
                if nextValue \<ge> middleValue then pair_climb value_at ((low + high) div 2 + 1) high
                else pair_climb value_at low ((low + high) div 2)))
      else Inr low)"
  by pat_completeness auto
termination
  by (relation "measure (\<lambda>(_, low, high). nat (high - low))") auto

declare pair_climb.simps [simp del]

definition near_best :: "(int \<Rightarrow> (split_failure, int) result) \<Rightarrow> int \<times> int \<Rightarrow> int \<Rightarrow> (split_failure, int \<times> int) result" where
  "near_best value_at acc candidate =
     rbind (value_at candidate) (\<lambda>value. Inr (case acc of (best, bestValue) \<Rightarrow>
       if value > bestValue \<or> value = bestValue \<and> candidate < best then (candidate, value) else acc))"

definition maximizePair :: "int list \<Rightarrow> nat \<Rightarrow> nat \<Rightarrow> int \<Rightarrow> evaluator \<Rightarrow> int \<Rightarrow> (split_failure, int \<times> int) result" where
  "maximizePair base left right amount evaluate neighborhood =
     (let value_at = (\<lambda>value. evaluate (base[left := value, right := amount - value])) in
      rbind (pair_climb value_at 0 amount) (\<lambda>best.
      rbind (value_at best) (\<lambda>bestValue.
        foldM (near_best value_at) (best, bestValue) [max 0 (best - neighborhood)..min amount (best + neighborhood)])))"

definition sweep_pair ::
  "evaluator \<Rightarrow> int \<Rightarrow> int list \<times> int \<times> bool \<Rightarrow> nat \<times> nat \<Rightarrow> (split_failure, int list \<times> int \<times> bool) result" where
  "sweep_pair evaluate neighborhood st lr =
     (case (st, lr) of ((allocation, current, improved), (left, right)) \<Rightarrow>
      let pairTotal = allocation ! left + allocation ! right in
      rbind (maximizePair allocation left right pairTotal evaluate neighborhood) (\<lambda>(best, pairValue).
        Inr (if pairValue > current then (allocation[left := best, right := pairTotal - best], pairValue, True) else st)))"

definition all_pairs :: "nat \<Rightarrow> (nat \<times> nat) list" where
  "all_pairs count = concat (map (\<lambda>left. map (\<lambda>right. (left, right)) [Suc left..<count]) [0..<count])"

text \<open>The sweeps from one start; the first number is how many are left, \<open>maxSweeps\<close> at first.\<close>

primrec sweep_loop ::
  "nat \<Rightarrow> nat \<Rightarrow> evaluator \<Rightarrow> int \<Rightarrow> nat \<Rightarrow> nat \<Rightarrow> int list \<Rightarrow> int \<Rightarrow> (split_failure, int list \<times> int \<times> nat) result" where
  "sweep_loop 0 maxSweeps evaluate neighborhood count swept allocation current = Inl (SplitConverge maxSweeps)"
| "sweep_loop (Suc n) maxSweeps evaluate neighborhood count swept allocation current =
     rbind (foldM (sweep_pair evaluate neighborhood) (allocation, current, False) (all_pairs count)) (\<lambda>(allocation', current', improved).
       if improved then sweep_loop n maxSweeps evaluate neighborhood count (Suc swept) allocation' current'
       else Inr (allocation', current', Suc swept))"

record coordinateSettings =
  cs_maxSweeps :: int
  cs_maxStarts :: int
  cs_neighborhood :: int
  cs_exhaustiveLimit :: int

record coordinateResult =
  cr_allocation :: "int list"
  cr_value :: int
  cr_sweeps :: nat
  cr_pairwiseOptimal :: bool
  cr_exhaustive :: bool

text \<open>
  A search without any candidate cannot happen: the exhaustive one visits an allocation and
  \<open>maxStarts\<close> is at least one. It is an error here, a result without allocation in the code.
\<close>

definition rank_start :: "evaluator \<Rightarrow> (int list \<times> int) list \<Rightarrow> int list \<Rightarrow> (split_failure, (int list \<times> int) list) result" where
  "rank_start evaluate acc start = rbind (evaluate start) (\<lambda>value. Inr (acc @ [(start, value)]))"

definition run_start ::
  "evaluator \<Rightarrow> coordinateSettings \<Rightarrow> nat \<Rightarrow> best_of \<times> nat \<Rightarrow> int list \<times> int \<Rightarrow> (split_failure, best_of \<times> nat) result" where
  "run_start evaluate settings count acc start =
     rbind (evaluate (fst start)) (\<lambda>current.
     rbind (sweep_loop (nat (cs_maxSweeps settings)) (nat (cs_maxSweeps settings)) evaluate (cs_neighborhood settings) count 0 (fst start) current)
       (\<lambda>(allocation, value, sweeps). Inr (keep_better (fst acc) allocation value, snd acc + sweeps)))"

definition coordinateOptimize ::
  "int \<Rightarrow> nat \<Rightarrow> (int list \<Rightarrow> (split_failure, int) result) \<Rightarrow> coordinateSettings \<Rightarrow> (split_failure, coordinateResult) result" where
  "coordinateOptimize amount count objective settings =
     (let evaluate = evaluate_with objective amount;
          result = (\<lambda>allocation value sweeps exhaustive. \<lparr>cr_allocation = allocation, cr_value = value, cr_sweeps = sweeps,
            cr_pairwiseOptimal = True, cr_exhaustive = exhaustive\<rparr>);
          of_best = (\<lambda>best sweeps exhaustive. case best of
            None \<Rightarrow> Inl SplitCoordinates | Some (allocation, value) \<Rightarrow> Inr (result allocation value sweeps exhaustive)) in
      if count < 1 \<or> amount < 0 then Inl SplitCoordinates
      else if count = 1 then rbind (evaluate [amount]) (\<lambda>value. Inr (result [amount] value 1 True))
      else if compositionCountAtMost amount count (cs_exhaustiveLimit settings)
      then rbind (exhaustiveCoordinates amount count evaluate) (\<lambda>best. of_best best 1 True)
      else if count = 2
      then rbind (maximizePair [0, amount] 0 1 amount evaluate (cs_neighborhood settings)) (\<lambda>(best, value).
        Inr (result [best, amount - best] value 1 False))
      else
        rbind (foldM (rank_start evaluate) [] (coordinateStarts amount count)) (\<lambda>ranked.
        rbind (foldM (run_start evaluate settings count) (None, 0)
                (take (nat (cs_maxStarts settings)) (sort_key (\<lambda>s. - snd s) (sort_key (\<lambda>s. allocationKey (fst s)) ranked))))
          (\<lambda>(best, sweeps). of_best best sweeps False)))"

section \<open>Two stages\<close>

record stagePlan =
  sg_allocations :: "int list"
  sg_output :: int
  sg_sweeps :: nat
  sg_exhaustive :: bool

definition optimizeIndependent :: "int \<Rightarrow> memoCurve list \<Rightarrow> coordinateSettings \<Rightarrow> (split_failure, stagePlan) result" where
  "optimizeIndependent amount curves settings =
     (if curves = [] then
        if amount = 0 then Inr \<lparr>sg_allocations = [], sg_output = 0, sg_sweeps = 0, sg_exhaustive = False\<rparr> else Inl SplitNoOutput
      else rbind (coordinateOptimize amount (length curves) (family_output curves) settings) (\<lambda>r.
        Inr \<lparr>sg_allocations = cr_allocation r, sg_output = cr_value r, sg_sweeps = cr_sweeps r, sg_exhaustive = cr_exhaustive r\<rparr>))"

definition optimizeSecond :: "memoCurve list \<Rightarrow> coordinateSettings \<Rightarrow> int \<Rightarrow> (split_failure, stagePlan) result" where
  "optimizeSecond second settings amount =
     (if amount = 0
      then Inr \<lparr>sg_allocations = zeroAllocation (length second), sg_output = 0, sg_sweeps = 0, sg_exhaustive = True\<rparr>
      else optimizeIndependent amount second settings)"

record flowEvaluation =
  fe_output :: int
  fe_directOut :: int
  fe_intermediate :: int
  fe_second :: stagePlan

definition evaluateFlow ::
  "memoCurve list \<Rightarrow> memoCurve list \<Rightarrow> memoCurve list \<Rightarrow> coordinateSettings \<Rightarrow> int list \<Rightarrow> (split_failure, flowEvaluation) result" where
  "evaluateFlow direct first second settings allocation =
     rbind (family_output direct (take (length direct) allocation)) (\<lambda>directOut.
     rbind (family_output first (drop (length direct) allocation)) (\<lambda>intermediate.
     rbind (optimizeSecond second settings intermediate) (\<lambda>plan.
       Inr \<lparr>fe_output = directOut + sg_output plan, fe_directOut = directOut, fe_intermediate = intermediate, fe_second = plan\<rparr>)))"

record TwoStageSplitRequest =
  tr_TotalInput :: "int option"
  tr_Direct :: "SplitCurve list"
  tr_FirstStage :: "SplitCurve list"
  tr_SecondStage :: "SplitCurve list"
  tr_MaxSweeps :: int
  tr_MaxStarts :: int
  tr_Neighborhood :: int
  tr_ExhaustiveLimit :: int

record TwoStageSplitResult =
  ts_Direct :: "SplitAllocation list"
  ts_FirstStage :: "SplitAllocation list"
  ts_SecondStage :: "SplitAllocation list"
  ts_TotalInput :: "int option"
  ts_IntermediateOut :: "int option"
  ts_TotalOutput :: "int option"
  ts_InputResolution :: "int option"
  ts_GridDivisions :: nat
  ts_GridVerified :: bool
  ts_PairwiseOptimal :: bool
  ts_GloballyVerified :: bool

definition split_settings :: "TwoStageSplitRequest \<Rightarrow> (split_failure, coordinateSettings) result" where
  "split_settings r =
     (let settings = \<lparr>cs_maxSweeps = if tr_MaxSweeps r = 0 then 64 else tr_MaxSweeps r,
            cs_maxStarts = if tr_MaxStarts r = 0 then 3 else tr_MaxStarts r,
            cs_neighborhood = if tr_Neighborhood r = 0 then 32 else tr_Neighborhood r,
            cs_exhaustiveLimit = if tr_ExhaustiveLimit r = 0 then 10000 else tr_ExhaustiveLimit r\<rparr> in
      if cs_maxSweeps settings < 1 \<or> cs_maxSweeps settings > 1024 \<or> cs_maxStarts settings < 1 \<or> cs_maxStarts settings > 128 \<or>
         cs_neighborhood settings < 1 \<or> cs_neighborhood settings > 4096 \<or>
         cs_exhaustiveLimit settings < 1 \<or> cs_exhaustiveLimit settings > 10000000 then Inl SplitLimits
      else Inr settings)"

text \<open>
  All allocations of an amount over a number of curves: those an exhaustive search evaluates.
\<close>

primrec compositions :: "nat \<Rightarrow> int \<Rightarrow> int list list" where
  "compositions 0 amount = [[amount]]"
| "compositions (Suc k) amount = concat (map (\<lambda>v. map ((#) v) (compositions k (amount - v))) [0..amount])"

text \<open>
  Whether every second stage that the outer search solved was solved exhaustively. The flag
  only matters after an exhaustive outer search, which has evaluated all allocations; the
  evaluations after it repeat one of them or have nothing for the second stage.
\<close>

definition second_verified ::
  "memoCurve list \<Rightarrow> memoCurve list \<Rightarrow> memoCurve list \<Rightarrow> coordinateSettings \<Rightarrow> int \<Rightarrow> bool" where
  "second_verified direct first second settings amount =
     list_all (\<lambda>allocation. case evaluateFlow direct first second settings allocation of
        Inl _ \<Rightarrow> False | Inr flow \<Rightarrow> sg_exhaustive (fe_second flow))
       (compositions (length direct + length first - 1) amount)"

text \<open>A dust-sized intermediate branch falls back to the best direct-only allocation.\<close>

definition needs_direct_only :: "memoCurve list \<Rightarrow> int list \<Rightarrow> flowEvaluation \<Rightarrow> bool" where
  "needs_direct_only direct allocation flow \<longleftrightarrow> direct \<noteq> [] \<and>
     (0 < fe_intermediate flow \<and> sg_output (fe_second flow) = 0 \<or>
      allocatedPositive (drop (length direct) allocation) \<and> fe_intermediate flow = 0)"

definition final_flow ::
  "memoCurve list \<Rightarrow> memoCurve list \<Rightarrow> memoCurve list \<Rightarrow> coordinateSettings \<Rightarrow> int \<Rightarrow> int list \<Rightarrow>
   (split_failure, int list \<times> flowEvaluation) result" where
  "final_flow direct first second settings amount allocation =
     rbind (evaluateFlow direct first second settings allocation) (\<lambda>flow.
       if needs_direct_only direct allocation flow then
         rbind (optimizeIndependent amount direct settings) (\<lambda>plan.
         let allocation' = sg_allocations plan @ zeroAllocation (length first) in
         rbind (evaluateFlow direct first second settings allocation') (\<lambda>flow'. Inr (allocation', flow')))
       else Inr (allocation, flow))"

definition split_result ::
  "memoCurve list \<Rightarrow> memoCurve list \<Rightarrow> memoCurve list \<Rightarrow> coordinateSettings \<Rightarrow> int \<Rightarrow> coordinateResult \<Rightarrow>
   int list \<times> flowEvaluation \<Rightarrow> (split_failure, TwoStageSplitResult) result" where
  "split_result direct first second settings amount outer final =
     (case final of (allocation, flow) \<Rightarrow>
      rbind (materializeAllocations direct (take (length direct) allocation)) (\<lambda>directAllocations.
      rbind (materializeAllocations first (drop (length direct) allocation)) (\<lambda>firstAllocations.
      rbind (materializeAllocations second (sg_allocations (fe_second flow))) (\<lambda>secondAllocations.
        Inr \<lparr>ts_Direct = directAllocations, ts_FirstStage = firstAllocations, ts_SecondStage = secondAllocations,
          ts_TotalInput = Some amount, ts_IntermediateOut = Some (fe_intermediate flow), ts_TotalOutput = Some (fe_output flow),
          ts_InputResolution = Some 1, ts_GridDivisions = 0, ts_GridVerified = False,
          ts_PairwiseOptimal = cr_pairwiseOptimal outer,
          ts_GloballyVerified = (cr_exhaustive outer \<and> second_verified direct first second settings amount)\<rparr>))))"

definition OptimizeTwoStageSplit :: "bool \<Rightarrow> TwoStageSplitRequest \<Rightarrow> (split_failure, TwoStageSplitResult) result" where
  "OptimizeTwoStageSplit ctxErr r =
     (if ctxErr then Inl SplitContext
      else case tr_TotalInput r of
        None \<Rightarrow> Inl SplitTotalInput
      | Some amount \<Rightarrow>
          if amount \<le> 0 then Inl SplitTotalInput
          else if tr_Direct r = [] \<and> tr_FirstStage r = [] then Inl SplitNoCurves
          else if (tr_FirstStage r = []) \<noteq> (tr_SecondStage r = []) then Inl SplitStages
          else
            rbind (split_settings r) (\<lambda>settings.
            rbind (newMemoCurves (tr_Direct r)) (\<lambda>direct.
            rbind (newMemoCurves (tr_FirstStage r)) (\<lambda>first.
            rbind (newMemoCurves (tr_SecondStage r)) (\<lambda>second.
            check (uniqueCurveIDs [direct, first, second])
              (rbind (coordinateOptimize amount (length direct + length first)
                 (\<lambda>allocation. rbind (evaluateFlow direct first second settings allocation) (\<lambda>flow. Inr (fe_output flow))) settings) (\<lambda>outer.
               rbind (final_flow direct first second settings amount (cr_allocation outer)) (\<lambda>final.
                 split_result direct first second settings amount outer final)))))))) "

section \<open>Executable allocations\<close>

definition executionBranches :: "SplitAllocation list \<Rightarrow> RouteBranch list" where
  "executionBranches allocations =
     map (\<lambda>a. \<lparr>rb_Market = sa_CurveID a, rb_PlannedInput = sa_AmountIn a, rb_ExpectedOutput = sa_AmountOut a\<rparr>)
       (filter (\<lambda>a. \<not> (case sa_AmountIn a of None \<Rightarrow> True | Some x \<Rightarrow> x = 0)) allocations)"

datatype build_error = BuildEndpoints | BuildAmount amount_error | BuildIntermediate | BuildInvalid alloc_error

definition route_groups ::
  "TwoStageSplitResult \<Rightarrow> TokenID \<Rightarrow> TokenID \<Rightarrow> TokenID \<Rightarrow> (build_error, RouteGroup list) result" where
  "route_groups result inputToken intermediateToken outputToken =
     (let branches = executionBranches (ts_Direct result); first = executionBranches (ts_FirstStage result);
          second = executionBranches (ts_SecondStage result);
          grp = (\<lambda>gid parent i out bs. \<lparr>rg_ID = gid, rg_Parent = parent, rg_InputToken = i, rg_OutputToken = out, rg_Branches = bs\<rparr>);
          direct = (if branches = [] then [] else [grp ''direct'' [] inputToken outputToken branches]) in
      if first = [] \<and> second = [] then Inr direct
      else if intermediateToken = [] \<or> intermediateToken = inputToken \<or> intermediateToken = outputToken \<or> first = [] \<or> second = []
      then Inl BuildIntermediate
      else Inr (direct @ [grp ''intermediate_input'' [] inputToken intermediateToken first,
                          grp ''intermediate_output'' ''intermediate_input'' intermediateToken outputToken second]))"

definition BuildRouteAllocation ::
  "TwoStageSplitResult \<Rightarrow> TokenID \<Rightarrow> TokenID \<Rightarrow> TokenID \<Rightarrow> (build_error, RouteAllocation) result" where
  "BuildRouteAllocation result inputToken intermediateToken outputToken =
     (if inputToken = [] \<or> outputToken = [] \<or> inputToken = outputToken \<or> ts_TotalInput result = None \<or> ts_TotalOutput result = None
      then Inl BuildEndpoints
      else
        rbind (map_err BuildAmount (NewTokenAmount inputToken (ts_TotalInput result))) (\<lambda>inp.
        rbind (map_err BuildAmount (NewTokenAmount outputToken (ts_TotalOutput result))) (\<lambda>out.
        rbind (route_groups result inputToken intermediateToken outputToken) (\<lambda>groups.
          let allocation = \<lparr>ra_Input = inp, ra_ExpectedOutput = out, ra_Groups = groups\<rparr> in
          check (map_option BuildInvalid (AllocationValidate allocation)) (Inr allocation)))))"

section \<open>Lemmas on curves\<close>

lemma memo_at_transparent:
  assumes "cache_ok c"
  shows "fst (memo_at c amount) = curve_at c amount"
proof (cases "0 < amount")
  case False
  then show ?thesis by (auto simp: memo_at_def curve_at_def)
next
  case True
  show ?thesis
  proof (cases "Option.bind (mc_cache c) (\<lambda>cache. cache (int_string amount))")
    case (Some v)
    then have "curve_at c amount = Inr v" using assms True by (auto simp: cache_ok_def bind_eq_Some_conv)
    then show ?thesis using Some True by (simp add: memo_at_def Let_def)
  next
    case None
    then show ?thesis using True
      by (auto simp: memo_at_def curve_at_def Let_def split: sum.splits option.splits curve_failure.splits)
  qed
qed

lemma curve_at_cong: "mc_id c' = mc_id c \<Longrightarrow> mc_quote c' = mc_quote c \<Longrightarrow> curve_at c' = curve_at c"
  by (rule ext) (auto simp: curve_at_def split: sum.splits option.splits curve_failure.splits)

lemma memo_at_keeps:
  assumes "cache_ok c"
  shows "mc_id (snd (memo_at c amount)) = mc_id c" "mc_quote (snd (memo_at c amount)) = mc_quote c" "cache_ok (snd (memo_at c amount))"
proof -
  show same: "mc_id (snd (memo_at c amount)) = mc_id c" "mc_quote (snd (memo_at c amount)) = mc_quote c"
    by (auto simp: memo_at_def Let_def split: sum.splits option.splits curve_failure.splits)
  let ?c = "snd (memo_at c amount)"
  have eq: "curve_at ?c = curve_at c" by (rule curve_at_cong [OF same])
  have stored: "mc_cache ?c = mc_cache c \<or>
      (\<exists>cache value. mc_cache c = Some cache \<and> mc_cache ?c = Some (cache(int_string amount \<mapsto> value)) \<and> curve_at c amount = Inr value)"
    using memo_at_transparent [OF assms, of amount]
    by (cases "mc_cache c") (auto simp: memo_at_def Let_def split: sum.splits option.splits curve_failure.splits if_splits)
  then show "cache_ok ?c"
    using assms unfolding cache_ok_def eq by (auto simp: int_string_inject split: if_splits)
qed

lemma curve_at_nonneg: "curve_at c a = Inr v \<Longrightarrow> 0 \<le> v \<and> 0 \<le> a"
  by (auto simp: curve_at_def split: if_splits sum.splits option.splits curve_failure.splits)

lemma foldM_concat: "foldM f s (concat xss) = foldM (\<lambda>s xs. foldM f s xs) s xss"
  by (induction xss arbitrary: s) (auto simp: foldM_append rbind_def split: sum.splits)

lemma foldM_map: "foldM f s (map g xs) = foldM (\<lambda>s x. f s (g x)) s xs"
  by (induction xs arbitrary: s) (auto split: sum.splits)

lemma foldM_cong: "(\<And>s x. x \<in> set xs \<Longrightarrow> f s x = g s x) \<Longrightarrow> foldM f s xs = foldM g s xs"
  by (induction xs arbitrary: s) (auto split: sum.splits)

section \<open>The exhaustive search\<close>

lemma compositions_set:
  assumes "0 \<le> n"
  shows "xs \<in> set (compositions k n) \<longleftrightarrow> length xs = Suc k \<and> allocationConserves xs n"
  using assms
proof (induction k arbitrary: n xs)
  case 0
  then show ?case by (auto simp: allocationConserves_def length_Suc_conv)
next
  case (Suc k)
  show ?case
  proof
    assume "xs \<in> set (compositions (Suc k) n)"
    then obtain v ys where v: "0 \<le> v" "v \<le> n" "ys \<in> set (compositions k (n - v))" "xs = v # ys" by auto
    then show "length xs = Suc (Suc k) \<and> allocationConserves xs n" using Suc.IH [of "n - v" ys] by (simp add: allocationConserves_def)
  next
    assume xs: "length xs = Suc (Suc k) \<and> allocationConserves xs n"
    then obtain v ys where ys: "xs = v # ys" "length ys = Suc k" by (auto simp: length_Suc_conv)
    with xs have c: "0 \<le> v" "allocationConserves ys (n - v)" by (auto simp: allocationConserves_def)
    then have "v \<le> n" using sum_list_nonneg [of ys] by (auto simp: allocationConserves_def list_all_iff)
    with c ys Suc.IH [of "n - v" ys] show "xs \<in> set (compositions (Suc k) n)" by auto
  qed
qed

definition visit :: "evaluator \<Rightarrow> int list \<Rightarrow> best_of \<Rightarrow> int list \<Rightarrow> (split_failure, best_of) result" where
  "visit evaluate prefix best xs = rbind (evaluate (prefix @ xs)) (\<lambda>value. Inr (keep_better best (prefix @ xs) value))"

lemma walk_compositions: "walk k evaluate prefix remaining best = foldM (visit evaluate prefix) best (compositions k remaining)"
proof (induction k arbitrary: prefix remaining best)
  case 0
  then show ?case by (simp add: visit_def rbind_def split: sum.splits)
next
  case (Suc k)
  have "visit evaluate (prefix @ [v]) = (\<lambda>b xs. visit evaluate prefix b (v # xs))" for v
    by (intro ext) (simp add: visit_def)
  then show ?case by (simp add: Suc foldM_concat foldM_map)
qed

lemma keep_better_max:
  "\<exists>a' b'. keep_better best a v = Some (a', b') \<and> v \<le> b' \<and> (\<forall>x y. best = Some (x, y) \<longrightarrow> y \<le> b')"
  by (auto simp: keep_better_def split: option.splits)

lemma visit_max:
  assumes "foldM (visit evaluate []) best xs = Inr best'"
  shows "(\<forall>x \<in> set xs. \<exists>v a b. evaluate x = Inr v \<and> best' = Some (a, b) \<and> v \<le> b) \<and>
    (\<forall>x y. best = Some (x, y) \<longrightarrow> (\<exists>a b. best' = Some (a, b) \<and> y \<le> b)) \<and>
    (best' = best \<or> (\<exists>x \<in> set xs. \<exists>v. evaluate x = Inr v \<and> best' = Some (x, v)))"
  using assms
proof (induction xs arbitrary: best)
  case Nil
  then show ?case by simp
next
  case (Cons x xs)
  have step: "visit evaluate [] best x = rbind (evaluate x) (\<lambda>value. Inr (keep_better best x value))" by (simp add: visit_def)
  obtain v where v: "evaluate x = Inr v" and rest: "foldM (visit evaluate []) (keep_better best x v) xs = Inr best'"
    using Cons.prems by (cases "evaluate x") (simp_all add: step rbind_def)
  obtain a' b' where k: "keep_better best x v = Some (a', b')" "v \<le> b'" "\<forall>z y. best = Some (z, y) \<longrightarrow> y \<le> b'"
    using keep_better_max [of best x v] by (elim exE conjE) simp
  have new: "keep_better best x v = best \<or> keep_better best x v = Some (x, v)"
    by (auto simp: keep_better_def split: option.splits)
  from Cons.IH [OF rest] have ih: "\<forall>y \<in> set xs. \<exists>w a b. evaluate y = Inr w \<and> best' = Some (a, b) \<and> w \<le> b"
    and kept: "\<exists>a b. best' = Some (a, b) \<and> b' \<le> b"
    and from_xs: "best' = keep_better best x v \<or> (\<exists>y \<in> set xs. \<exists>w. evaluate y = Inr w \<and> best' = Some (y, w))"
    unfolding k(1) by simp_all
  from kept obtain a b where ab: "best' = Some (a, b)" "b' \<le> b" by blast
  have all: "\<forall>y \<in> set (x # xs). \<exists>w a b. evaluate y = Inr w \<and> best' = Some (a, b) \<and> w \<le> b"
    using ih ab k(2) v by simp
  have old: "\<forall>z y. best = Some (z, y) \<longrightarrow> (\<exists>a b. best' = Some (a, b) \<and> y \<le> b)"
    using k(3) ab by auto
  have "best' = best \<or> (\<exists>y \<in> set (x # xs). \<exists>w. evaluate y = Inr w \<and> best' = Some (y, w))"
    using from_xs new v by (elim disjE) auto
  with all old show ?case by blast
qed

lemma exhaustive_best:
  assumes "exhaustiveCoordinates n count evaluate = Inr best" and "0 \<le> n" and "1 \<le> count"
  obtains a v where "best = Some (a, v)" "evaluate a = Inr v" "length a = count" "allocationConserves a n"
    "\<And>x. length x = count \<Longrightarrow> allocationConserves x n \<Longrightarrow> \<exists>w. evaluate x = Inr w \<and> w \<le> v"
proof -
  have run: "foldM (visit evaluate []) None (compositions (count - 1) n) = Inr best"
    using assms(1) by (simp add: exhaustiveCoordinates_def walk_compositions split: if_splits)
  have mem: "x \<in> set (compositions (count - 1) n) \<longleftrightarrow> length x = count \<and> allocationConserves x n" for x
    using compositions_set [OF assms(2), of x "count - 1"] assms(3) by (simp del: One_nat_def)
  have "allocationConserves (n # replicate (count - 1) 0) n" "length (n # replicate (count - 1) (0 :: int)) = count"
    using assms(2,3) by (simp_all add: allocationConserves_def list_all_iff sum_list_replicate)
  then have "n # replicate (count - 1) 0 \<in> set (compositions (count - 1) n)" by (simp only: mem)
  with visit_max [OF run] obtain a b where ab: "best = Some (a, b)" by blast
  with visit_max [OF run] have "a \<in> set (compositions (count - 1) n)" "evaluate a = Inr b"
    "\<And>x. x \<in> set (compositions (count - 1) n) \<Longrightarrow> \<exists>w. evaluate x = Inr w \<and> w \<le> b" by auto
  then show thesis using that ab mem by auto
qed

section \<open>The number of allocations\<close>

lemma compositions_length: "length (compositions k (int n)) = (n + k) choose k"
proof (induction k arbitrary: n)
  case (Suc k)
  have len: "length (compositions (Suc k) (int n)) = (\<Sum>v \<leftarrow> [0..int n]. length (compositions k (int n - v)))"
    by (simp add: length_concat comp_def)
  have "[0..int n] = map int [0..<Suc n]" by (induction n) (simp_all add: upto_rec2)
  then have "length (compositions (Suc k) (int n)) = (\<Sum>v \<leftarrow> [0..<Suc n]. length (compositions k (int n - int v)))"
    unfolding len by (simp add: comp_def del: upt_Suc)
  also have "\<dots> = (\<Sum>v \<leftarrow> [0..<Suc n]. length (compositions k (int (n - v))))"
    by (rule arg_cong [where f = sum_list], rule map_cong) (auto simp: of_nat_diff)
  also have "\<dots> = (\<Sum>v \<leftarrow> [0..<Suc n]. (n - v + k) choose k)" by (simp add: Suc del: upt_Suc)
  also have "\<dots> = (\<Sum>v \<le> n. (n - v + k) choose k)" by (simp add: sum_list_distinct_conv_sum_set atLeast0LessThan lessThan_Suc_atMost del: upt_Suc)
  also have "\<dots> = (\<Sum>v \<le> n. (v + k) choose k)" 
    using sum.nat_diff_reindex [of "\<lambda>v. (v + k) choose k" "Suc n"] by (simp add: lessThan_Suc_atMost)
  also have "\<dots> = (\<Sum>v \<le> n. (k + v) choose v)"
    using binomial_symmetric [of k "v + k" for v] by (intro sum.cong) (simp_all add: add.commute)
  also have "\<dots> = Suc (k + n) choose n" by (rule sum_choose_lower)
  also have "\<dots> = (n + Suc k) choose Suc k" by (subst binomial_symmetric) (simp_all add: add.commute)
  finally show ?case .
qed simp

lemma composition_step:
  assumes "0 < i"
  shows "bigQuo (int ((n + (i - 1)) choose (i - 1)) * (int n + int i)) (int i) = int ((n + i) choose i)"
proof -
  from assms obtain j where j: "i = Suc j" by (cases i) auto
  have "Suc j * (Suc (n + j) choose Suc j) = Suc (n + j) * ((n + j) choose j)"
    using Suc_times_binomial [of j "n + j"] by (simp only: mult.commute)
  then have "int ((n + j) choose j) * (int n + int i) = int ((n + i) choose i) * int i"
    unfolding j by (simp flip: of_nat_mult of_nat_add of_nat_Suc add: mult.commute)
  then show ?thesis using j by (simp add: bigQuo_nonneg del: of_nat_Suc binomial_Suc_Suc)
qed

lemma binomial_count_mono: "i \<le> j \<Longrightarrow> (n + i) choose i \<le> (n + j) choose j"
proof (induction j rule: dec_induct)
  case (step m)
  have "(n + m) choose m \<le> (n + Suc m) choose Suc m" by simp
  with step.IH show ?case by (rule order_trans)
qed simp

lemma composition_loop_binomial:
  "i \<le> count \<Longrightarrow> composition_loop (int n) limit [Suc i..<Suc count] (int ((n + i) choose i)) \<longleftrightarrow>
    (i < count \<longrightarrow> int ((n + count) choose count) \<le> limit)"
proof (induction "count - i" arbitrary: i)
  case (Suc d)
  then have "i < count" "[Suc i..<Suc count] = Suc i # [Suc (Suc i)..<Suc count]" by (simp_all add: upt_conv_Cons del: upt_Suc)
  moreover have "int ((n + Suc i) choose Suc i) \<le> int ((n + count) choose count)"
    using binomial_count_mono [of "Suc i" count n] \<open>i < count\<close> by (simp only: of_nat_le_iff Suc_leI)
  ultimately show ?case
    using Suc.hyps(1) [of "Suc i"] Suc.hyps(2) composition_step [of "Suc i" n]
    by (cases "Suc i = count") (auto simp: Let_def simp del: upt_Suc binomial_Suc_Suc)
qed simp

lemma compositions_counted:
  "compositionCountAtMost (int n) (Suc (Suc k)) limit \<longleftrightarrow> int (length (compositions (Suc k) (int n))) \<le> limit"
  using composition_loop_binomial [of 0 "Suc k" n limit]
  by (simp add: compositionCountAtMost_def compositions_length del: upt_Suc binomial_Suc_Suc compositions.simps)

lemma exhaustive_limit:
  "compositionCountAtMost amount count limit \<longleftrightarrow>
    0 \<le> amount \<and> 1 \<le> count \<and> int (length (compositions (count - 1) amount)) \<le> limit"
proof (cases "0 \<le> amount \<and> 1 \<le> count")
  case True
  then obtain n where n: "amount = int n" using zero_le_imp_eq_int by auto
  consider "count = 1" | k where "count = Suc (Suc k)" using True by (metis One_nat_def Suc_le_D not0_implies_Suc)
  then show ?thesis using True n compositions_counted by cases (auto simp: compositionCountAtMost_def)
qed (auto simp: compositionCountAtMost_def)

section \<open>Every search returns an evaluated allocation\<close>

definition evaluated :: "evaluator \<Rightarrow> nat \<Rightarrow> int list \<Rightarrow> int \<Rightarrow> bool" where
  "evaluated evaluate count allocation v \<longleftrightarrow> length allocation = count \<and> evaluate allocation = Inr v"

lemma near_best_evaluated:
  assumes "foldM (near_best value_at) (best, v) xs = Inr (best', v')" and "value_at best = Inr v"
  shows "value_at best' = Inr v'"
proof -
  have "case (best', v') of (b, w) \<Rightarrow> value_at b = Inr w"
    by (rule foldM_invariant [OF assms(1), where P = "\<lambda>(b, w). value_at b = Inr w"])
      (use assms(2) in \<open>auto simp: near_best_def rbind_def split: sum.splits if_splits\<close>)
  then show ?thesis by simp
qed

lemma maximizePair_evaluated:
  assumes "maximizePair base left right amount evaluate nb = Inr (best, v)"
  shows "evaluate (base[left := best, right := amount - best]) = Inr v"
  using assms near_best_evaluated [where value_at = "\<lambda>value. evaluate (base[left := value, right := amount - value])"]
  by (auto simp: maximizePair_def Let_def rbind_def split: sum.splits)

lemma sweep_pair_evaluated:
  assumes "sweep_pair evaluate nb (a, v, i) lr = Inr (a', v', i')" and "evaluated evaluate count a v"
  shows "evaluated evaluate count a' v'"
  using assms maximizePair_evaluated
  by (cases lr) (auto simp: sweep_pair_def Let_def rbind_def evaluated_def split: sum.splits if_splits)

lemma sweep_evaluated:
  assumes "foldM (sweep_pair evaluate nb) (a, v, i) xs = Inr (a', v', i')" and "evaluated evaluate count a v"
  shows "evaluated evaluate count a' v'"
proof -
  have "case (a', v', i') of (b, w, j) \<Rightarrow> evaluated evaluate count b w"
    by (rule foldM_invariant [OF assms(1), where P = "\<lambda>(b, w, j). evaluated evaluate count b w"])
      (use assms(2) sweep_pair_evaluated in \<open>auto split: prod.splits\<close>)
  then show ?thesis by simp
qed

lemma sweep_loop_evaluated:
  "sweep_loop n m evaluate nb c swept a v = Inr (a', v', k) \<Longrightarrow> evaluated evaluate count a v \<Longrightarrow> evaluated evaluate count a' v'"
proof (induction n arbitrary: swept a v)
  case (Suc n)
  then show ?case using sweep_evaluated by (fastforce simp: rbind_def split: sum.splits if_splits prod.splits)
qed simp

lemma run_start_evaluated:
  assumes "run_start evaluate st c (best, k) start = Inr (best', k')" and "length (fst start) = count"
    and "\<forall>(a, v) \<in> set_option best. evaluated evaluate count a v"
  shows "\<forall>(a, v) \<in> set_option best'. evaluated evaluate count a v"
proof -
  obtain w a' v' n where run: "evaluate (fst start) = Inr w"
      "sweep_loop (nat (cs_maxSweeps st)) (nat (cs_maxSweeps st)) evaluate (cs_neighborhood st) c 0 (fst start) w = Inr (a', v', n)"
      "best' = keep_better best a' v'"
    using assms(1) by (auto simp: run_start_def rbind_def split: sum.splits prod.splits)
  have "evaluated evaluate count (fst start) w" using assms(2) run(1) by (simp add: evaluated_def)
  then have "evaluated evaluate count a' v'" using run(2) sweep_loop_evaluated by blast
  then show ?thesis using assms(3) run(3) by (auto simp: keep_better_def split: option.splits if_splits prod.splits)
qed

lemma run_starts_evaluated:
  assumes "foldM (run_start evaluate st c) (None, k) starts = Inr (Some (a, v), k')" and "\<And>s. s \<in> set starts \<Longrightarrow> length (fst s) = count"
  shows "evaluated evaluate count a v"
proof -
  have "case (Some (a, v), k') of (b, _) \<Rightarrow> \<forall>(a, v) \<in> set_option b. evaluated evaluate count a v"
    by (rule foldM_invariant [OF assms(1), where P = "\<lambda>(b, _). \<forall>(a, v) \<in> set_option b. evaluated evaluate count a v"])
      (use assms(2) run_start_evaluated in \<open>simp, fast\<close>)
  then show ?thesis by simp
qed

lemma coordinateStarts_length:
  assumes "s \<in> set (coordinateStarts amount count)"
  shows "length s = count"
proof -
  have sub: "set (foldl add_start acc xs) \<subseteq> set acc \<union> set xs" for acc xs
    by (induction xs arbitrary: acc) (fastforce simp: add_start_def split: if_splits)+
  have "t \<in> set (foldl add_start [] xs) \<Longrightarrow> t \<in> set xs" for t xs using sub [of "[]" xs] by auto
  from this [OF assms [unfolded coordinateStarts_def Let_def]] show ?thesis by (auto simp: zeroAllocation_def)
qed

lemma rank_start_set:
  assumes "foldM (rank_start evaluate) acc starts = Inr ranked"
  shows "map fst ranked = map fst acc @ starts"
  using assms
  by (induction starts arbitrary: acc) (auto simp: rank_start_def rbind_def split: sum.splits)

lemma coordinateOptimize_evaluated:
  assumes "coordinateOptimize amount count objective settings = Inr r"
  shows "evaluated (evaluate_with objective amount) count (cr_allocation r) (cr_value r) \<and>
    (cr_exhaustive r \<longrightarrow> (\<forall>x. length x = count \<longrightarrow> allocationConserves x amount \<longrightarrow>
      (\<exists>w. evaluate_with objective amount x = Inr w \<and> w \<le> cr_value r)))"
proof -
  let ?e = "evaluate_with objective amount"
  have pos: "1 \<le> count" "0 \<le> amount" using assms by (cases "count < 1 \<or> amount < 0"; simp add: coordinateOptimize_def Let_def)+
  consider (one) "count = 1" | (all) "count \<noteq> 1" "compositionCountAtMost amount count (cs_exhaustiveLimit settings)"
    | (pair) "count = 2" "\<not> compositionCountAtMost amount count (cs_exhaustiveLimit settings)"
    | (many) "count \<noteq> 1" "count \<noteq> 2" "\<not> compositionCountAtMost amount count (cs_exhaustiveLimit settings)" by auto
  then show ?thesis
  proof cases
    case one
    have "rbind (?e [amount]) (\<lambda>value. Inr \<lparr>cr_allocation = [amount], cr_value = value, cr_sweeps = 1,
        cr_pairwiseOptimal = True, cr_exhaustive = True\<rparr>) = Inr r"
      using assms pos one by (simp add: coordinateOptimize_def Let_def)
    then have v: "?e [amount] = Inr (cr_value r)" "cr_allocation r = [amount]" by (auto simp: rbind_def split: sum.splits)
    have "length x = 1 \<Longrightarrow> allocationConserves x amount \<Longrightarrow> x = [amount]" for x
      by (auto simp: length_Suc_conv allocationConserves_def)
    then show ?thesis using v one by (auto simp: evaluated_def)
  next
    case all
    have "rbind (exhaustiveCoordinates amount count ?e) (\<lambda>best. case best of None \<Rightarrow> Inl SplitCoordinates
        | Some (a, v) \<Rightarrow> Inr \<lparr>cr_allocation = a, cr_value = v, cr_sweeps = 1, cr_pairwiseOptimal = True, cr_exhaustive = True\<rparr>) = Inr r"
      using assms pos all by (simp add: coordinateOptimize_def Let_def del: One_nat_def)
    then have best: "exhaustiveCoordinates amount count ?e = Inr (Some (cr_allocation r, cr_value r))"
      by (auto simp: rbind_def split: sum.splits option.splits prod.splits)
    show ?thesis by (rule exhaustive_best [OF best pos(2,1)]) (simp add: evaluated_def)
  next
    case pair
    have "rbind (maximizePair [0, amount] 0 1 amount ?e (cs_neighborhood settings)) (\<lambda>(best, value).
        Inr \<lparr>cr_allocation = [best, amount - best], cr_value = value, cr_sweeps = 1, cr_pairwiseOptimal = True, cr_exhaustive = False\<rparr>) = Inr r"
      using assms pos pair by (simp add: coordinateOptimize_def Let_def del: One_nat_def)
    then obtain b where "maximizePair [0, amount] 0 1 amount ?e (cs_neighborhood settings) = Inr (b, cr_value r)"
        "cr_allocation r = [b, amount - b]" "\<not> cr_exhaustive r"
      by (auto simp: rbind_def split: sum.splits prod.splits)
    then show ?thesis using maximizePair_evaluated [of "[0, amount]" 0 1 amount ?e] pair by (simp add: evaluated_def)
  next
    case many
    let ?sorted = "\<lambda>ranked. take (nat (cs_maxStarts settings)) (sort_key (\<lambda>s. - snd s) (sort_key (\<lambda>s. allocationKey (fst s)) ranked))"
    have "rbind (foldM (rank_start ?e) [] (coordinateStarts amount count)) (\<lambda>ranked.
        rbind (foldM (run_start ?e settings count) (None, 0) (?sorted ranked)) (\<lambda>(best, sweeps). case best of None \<Rightarrow> Inl SplitCoordinates
        | Some (a, v) \<Rightarrow> Inr \<lparr>cr_allocation = a, cr_value = v, cr_sweeps = sweeps, cr_pairwiseOptimal = True, cr_exhaustive = False\<rparr>)) = Inr r"
      using assms pos many by (simp add: coordinateOptimize_def Let_def)
    then obtain ranked k where run: "foldM (rank_start ?e) [] (coordinateStarts amount count) = Inr ranked"
        "foldM (run_start ?e settings count) (None, 0) (?sorted ranked) = Inr (Some (cr_allocation r, cr_value r), k)" "\<not> cr_exhaustive r"
      by (auto simp: rbind_def split: sum.splits option.splits prod.splits)
    have "set (map fst ranked) = set (coordinateStarts amount count)" using rank_start_set [OF run(1)] by simp
    then have "length (fst s) = count" if "s \<in> set ranked" for s using that coordinateStarts_length by force
    then have "length (fst s) = count" if "s \<in> set (?sorted ranked)" for s using in_set_takeD [OF that] by simp
    then show ?thesis using run_starts_evaluated [OF run(2)] run(3) by simp
  qed
qed

section \<open>Flows\<close>

lemma add_output_shift: "foldM add_output s zs = rbind (foldM add_output 0 zs) (\<lambda>v. Inr (s + v))"
proof (induction zs arbitrary: s)
  case (Cons z zs)
  show ?case
  proof (cases "curve_at (fst z) (snd z)")
    case (Inr v)
    then show ?thesis using Cons.IH [of "s + v"] Cons.IH [of v] by (simp add: add_output_def rbind_def split: sum.splits)
  qed (simp add: add_output_def rbind_def)
qed (simp add: rbind_def)

lemma family_output_simps [simp]:
  "family_output [] xs = Inr 0" "family_output cs [] = Inr 0"
  "family_output (c # cs) (x # xs) = rbind (curve_at c x) (\<lambda>v. rbind (family_output cs xs) (\<lambda>w. Inr (v + w)))"
proof -
  show "family_output (c # cs) (x # xs) = rbind (curve_at c x) (\<lambda>v. rbind (family_output cs xs) (\<lambda>w. Inr (v + w)))"
  proof (cases "curve_at c x")
    case (Inr v)
    then show ?thesis using add_output_shift [of v "zip cs xs"] by (simp add: family_output_def add_output_def rbind_def)
  qed (simp add: family_output_def add_output_def rbind_def)
qed (simp_all add: family_output_def)

lemma family_output_nonneg: "family_output cs xs = Inr v \<Longrightarrow> 0 \<le> v"
proof (induction cs arbitrary: xs v)
  case (Cons c cs)
  then show ?case by (cases xs) (fastforce simp: rbind_def dest: curve_at_nonneg split: sum.splits)+
qed simp

lemma family_output_zero: "family_output cs (zeroAllocation (length cs)) = Inr 0"
  by (induction cs) (auto simp: zeroAllocation_def curve_at_def rbind_def)

lemma zeroAllocation_conserves: "allocationConserves (zeroAllocation n) 0"
  by (simp add: allocationConserves_def zeroAllocation_def list_all_iff sum_list_replicate)

lemma conserves_zero: "allocationConserves xs 0 \<Longrightarrow> xs = zeroAllocation (length xs)"
proof (induction xs)
  case (Cons x xs)
  then have "0 \<le> x" "list_all (\<lambda>a. 0 \<le> a) xs" "x + sum_list xs = 0" by (simp_all add: allocationConserves_def)
  moreover from this have "0 \<le> sum_list xs" by (auto simp: list_all_iff intro: sum_list_nonneg)
  ultimately have "x = 0" "allocationConserves xs 0" by (simp_all add: allocationConserves_def)
  then show ?case using Cons.IH by (simp add: zeroAllocation_def)
qed (simp add: zeroAllocation_def)

lemma evaluate_with_Inr: "evaluate_with obj n xs = Inr v \<longleftrightarrow> allocationConserves xs n \<and> obj xs = Inr v \<and> 0 \<le> v"
  by (auto simp: evaluate_with_def rbind_def split: sum.splits if_splits)

text \<open>A plan divides the amount over all curves and states their output; an exhaustive one is a maximum.\<close>

definition plan_ok :: "memoCurve list \<Rightarrow> int \<Rightarrow> stagePlan \<Rightarrow> bool" where
  "plan_ok curves amount p \<longleftrightarrow> length (sg_allocations p) = length curves \<and> allocationConserves (sg_allocations p) amount \<and>
     family_output curves (sg_allocations p) = Inr (sg_output p) \<and>
     (sg_exhaustive p \<longrightarrow> (\<forall>x w. length x = length curves \<longrightarrow> allocationConserves x amount \<longrightarrow>
        family_output curves x = Inr w \<longrightarrow> w \<le> sg_output p))"

lemma optimizeIndependent_ok:
  assumes "optimizeIndependent amount curves settings = Inr p"
  shows "plan_ok curves amount p"
proof (cases "curves = []")
  case True
  then show ?thesis using assms by (auto simp: optimizeIndependent_def plan_ok_def allocationConserves_def split: if_splits)
next
  case False
  with assms obtain r where r: "coordinateOptimize amount (length curves) (family_output curves) settings = Inr r"
      "p = \<lparr>sg_allocations = cr_allocation r, sg_output = cr_value r, sg_sweeps = cr_sweeps r, sg_exhaustive = cr_exhaustive r\<rparr>"
    by (auto simp: optimizeIndependent_def rbind_def split: sum.splits)
  show ?thesis using coordinateOptimize_evaluated [OF r(1)] unfolding r(2)
    by (auto simp: plan_ok_def evaluated_def evaluate_with_Inr)
qed

lemma optimizeSecond_ok:
  assumes "optimizeSecond second settings amount = Inr p"
  shows "plan_ok second amount p"
proof (cases "amount = 0")
  case True
  have "family_output second x = Inr 0" if "length x = length second" "allocationConserves x 0" for x
    using conserves_zero [OF that(2)] that(1) family_output_zero [of second] by simp
  then show ?thesis using assms True zeroAllocation_conserves [of "length second"] family_output_zero [of second]
    by (auto simp: optimizeSecond_def plan_ok_def zeroAllocation_def)
qed (use assms optimizeIndependent_ok in \<open>auto simp: optimizeSecond_def\<close>)

definition flow_ok :: "memoCurve list \<Rightarrow> memoCurve list \<Rightarrow> memoCurve list \<Rightarrow> int list \<Rightarrow> flowEvaluation \<Rightarrow> bool" where
  "flow_ok direct first second allocation flow \<longleftrightarrow>
     family_output direct (take (length direct) allocation) = Inr (fe_directOut flow) \<and>
     family_output first (drop (length direct) allocation) = Inr (fe_intermediate flow) \<and>
     plan_ok second (fe_intermediate flow) (fe_second flow) \<and> fe_output flow = fe_directOut flow + sg_output (fe_second flow)"

lemma evaluateFlow_ok:
  "evaluateFlow direct first second settings allocation = Inr flow \<Longrightarrow> flow_ok direct first second allocation flow"
  by (auto simp: evaluateFlow_def flow_ok_def rbind_def dest: optimizeSecond_ok split: sum.splits)

abbreviation amount_in :: "SplitAllocation \<Rightarrow> int" where "amount_in a \<equiv> the (sa_AmountIn a)"
abbreviation amount_out :: "SplitAllocation \<Rightarrow> int" where "amount_out a \<equiv> the (sa_AmountOut a)"

text \<open>An allocation of a family: one entry for each curve, with the curve's quote of its input.\<close>

definition quoted_by :: "SplitCurve list \<Rightarrow> SplitAllocation list \<Rightarrow> bool" where
  "quoted_by configured allocations \<longleftrightarrow> map sa_CurveID allocations = sort (map crv_ID configured) \<and>
     (\<forall>a \<in> set allocations. \<exists>x out curve quote. sa_AmountIn a = Some x \<and> sa_AmountOut a = Some out \<and> 0 \<le> x \<and> 0 \<le> out \<and>
        curve \<in> set configured \<and> crv_ID curve = sa_CurveID a \<and> crv_Quote curve = Some quote \<and>
        crv_ID curve \<noteq> [] \<and> (0 < out \<longrightarrow> 0 < x \<and> quote x = Inr (Some out)))"

lemma materialize_sums:
  assumes "materializeAllocations cs xs = Inr as" and "length xs = length cs"
  shows "map sa_CurveID as = map mc_id cs \<and> sum_by amount_in as = sum_list xs \<and> family_output cs xs = Inr (sum_by amount_out as)"
  using assms
proof (induction cs xs arbitrary: as rule: materializeAllocations.induct)
  case (1 c cs x xs)
  then show ?case by (auto simp: rbind_def split: sum.splits)
qed auto

lemma materialize_quotes:
  "materializeAllocations cs xs = Inr as \<Longrightarrow> a \<in> set as \<Longrightarrow>
    \<exists>c \<in> set cs. \<exists>x out. sa_CurveID a = mc_id c \<and> sa_AmountIn a = Some x \<and> sa_AmountOut a = Some out \<and> curve_at c x = Inr out"
proof (induction cs xs arbitrary: as rule: materializeAllocations.induct)
  case (1 c cs x xs)
  then show ?case by (fastforce simp: rbind_def split: sum.splits)
qed auto

lemma map_insort_key: "map f (insort_key f x xs) = insort (f x) (map f xs)"
  by (induction xs) auto

lemma map_sort_key: "map f (sort_key f xs) = sort (map f xs)"
  by (induction xs) (auto simp: map_insort_key)

lemma curves_of_Inr:
  "curves_of b i cs = Inr ms \<Longrightarrow> list_all2 (\<lambda>m c. crv_ID c = mc_id m \<and> crv_Quote c = Some (mc_quote m) \<and> crv_ID c \<noteq> []) ms cs"
  by (induction cs arbitrary: i ms) (auto simp: rbind_def split: option.splits if_splits sum.splits)

lemma newCurves_Inr:
  assumes "newCurves cs b = Inr ms"
  shows "map mc_id ms = sort (map crv_ID cs)" "length ms = length cs"
    "\<And>m. m \<in> set ms \<Longrightarrow> \<exists>c \<in> set cs. crv_ID c = mc_id m \<and> crv_Quote c = Some (mc_quote m) \<and> crv_ID c \<noteq> []"
proof -
  have rel: "list_all2 (\<lambda>m c. crv_ID c = mc_id m \<and> crv_Quote c = Some (mc_quote m) \<and> crv_ID c \<noteq> []) ms (sort_key crv_ID cs)"
    using assms curves_of_Inr by (simp add: newCurves_def)
  then have "map mc_id ms = map crv_ID (sort_key crv_ID cs)"
    by (induction rule: list_all2_induct) auto
  then show "map mc_id ms = sort (map crv_ID cs)" by (simp add: map_sort_key)
  show "length ms = length cs" using list_all2_lengthD [OF rel] by simp
  show "\<exists>c \<in> set cs. crv_ID c = mc_id m \<and> crv_Quote c = Some (mc_quote m) \<and> crv_ID c \<noteq> []" if "m \<in> set ms" for m
  proof -
    have "\<exists>c \<in> set (sort_key crv_ID cs). crv_ID c = mc_id m \<and> crv_Quote c = Some (mc_quote m) \<and> crv_ID c \<noteq> []"
      using rel that by (induction rule: list_all2_induct) auto
    then show ?thesis by simp
  qed
qed

lemma materialize_quoted_by:
  assumes ms: "newCurves cs b = Inr ms" and as: "materializeAllocations ms xs = Inr as" and len: "length xs = length ms"
  shows "quoted_by cs as"
  unfolding quoted_by_def
proof (intro conjI ballI)
  show "map sa_CurveID as = sort (map crv_ID cs)" using materialize_sums [OF as len] newCurves_Inr(1) [OF ms] by simp
next
  fix a assume "a \<in> set as"
  then obtain c x out where c: "c \<in> set ms" "sa_CurveID a = mc_id c" "sa_AmountIn a = Some x" "sa_AmountOut a = Some out" "curve_at c x = Inr out"
    using materialize_quotes [OF as] by blast
  from newCurves_Inr(3) [OF ms c(1)] obtain curve where curve: "curve \<in> set cs" "crv_ID curve = mc_id c" "crv_Quote curve = Some (mc_quote c)" "crv_ID curve \<noteq> []"
    by blast
  have "0 < out \<Longrightarrow> 0 < x \<and> mc_quote c x = Inr (Some out)"
    using c(5) by (auto simp: curve_at_def split: if_splits sum.splits option.splits curve_failure.splits)
  then show "\<exists>x out curve quote. sa_AmountIn a = Some x \<and> sa_AmountOut a = Some out \<and> 0 \<le> x \<and> 0 \<le> out \<and>
      curve \<in> set cs \<and> crv_ID curve = sa_CurveID a \<and> crv_Quote curve = Some quote \<and> crv_ID curve \<noteq> [] \<and>
      (0 < out \<longrightarrow> 0 < x \<and> quote x = Inr (Some out))"
    using c curve curve_at_nonneg [OF c(5)] by auto
qed

lemma final_flow_ok:
  assumes "final_flow direct first second settings amount allocation = Inr (a, flow)"
    and "length allocation = length direct + length first" and "allocationConserves allocation amount"
  shows "flow_ok direct first second a flow \<and> length a = length direct + length first \<and> allocationConserves a amount"
proof -
  obtain flow0 where flow0: "evaluateFlow direct first second settings allocation = Inr flow0"
    using assms(1) by (auto simp: final_flow_def rbind_def split: sum.splits)
  show ?thesis
  proof (cases "needs_direct_only direct allocation flow0")
    case True
    then obtain plan where plan: "optimizeIndependent amount direct settings = Inr plan"
        "a = sg_allocations plan @ zeroAllocation (length first)" "evaluateFlow direct first second settings a = Inr flow"
      using assms(1) flow0 by (auto simp: final_flow_def rbind_def Let_def split: sum.splits)
    show ?thesis using optimizeIndependent_ok [OF plan(1)] evaluateFlow_ok [OF plan(3)] zeroAllocation_conserves [of "length first"]
      by (simp add: plan(2) plan_ok_def allocationConserves_def zeroAllocation_def)
  next
    case False
    then show ?thesis using assms flow0 evaluateFlow_ok by (auto simp: final_flow_def rbind_def)
  qed
qed

section \<open>Results\<close>

lemma OptimizeTwoStageSplit_run:
  assumes "OptimizeTwoStageSplit ctxErr r = Inr res"
  obtains amount settings direct first second outer a flow where
    "tr_TotalInput r = Some amount" "0 < amount" "newMemoCurves (tr_Direct r) = Inr direct"
    "newMemoCurves (tr_FirstStage r) = Inr first" "newMemoCurves (tr_SecondStage r) = Inr second"
    "coordinateOptimize amount (length direct + length first)
       (\<lambda>allocation. rbind (evaluateFlow direct first second settings allocation) (\<lambda>flow. Inr (fe_output flow))) settings = Inr outer"
    "final_flow direct first second settings amount (cr_allocation outer) = Inr (a, flow)"
    "split_result direct first second settings amount outer (a, flow) = Inr res"
  using assms
  by (auto simp: OptimizeTwoStageSplit_def rbind_def check_def split: if_splits option.splits sum.splits)

lemma flow_objective:
  "rbind (evaluateFlow d f s st a) (\<lambda>flow. Inr (fe_output flow)) = Inr v \<longleftrightarrow>
    (\<exists>flow. evaluateFlow d f s st a = Inr flow \<and> v = fe_output flow)"
  by (auto simp: rbind_def split: sum.splits)

lemma split_result_Inr:
  assumes "split_result direct first second settings amount outer (a, flow) = Inr res"
  shows "materializeAllocations direct (take (length direct) a) = Inr (ts_Direct res)"
    "materializeAllocations first (drop (length direct) a) = Inr (ts_FirstStage res)"
    "materializeAllocations second (sg_allocations (fe_second flow)) = Inr (ts_SecondStage res)"
    "ts_TotalInput res = Some amount" "ts_IntermediateOut res = Some (fe_intermediate flow)" "ts_TotalOutput res = Some (fe_output flow)"
    "ts_GloballyVerified res \<longleftrightarrow> cr_exhaustive outer \<and> second_verified direct first second settings amount"
  using assms by (auto simp: split_result_def rbind_def split: sum.splits)

lemma split_flow:
  assumes "OptimizeTwoStageSplit ctxErr r = Inr res"
  shows "ts_TotalInput res = tr_TotalInput r \<and>
    ts_TotalInput res = Some (sum_by amount_in (ts_Direct res) + sum_by amount_in (ts_FirstStage res)) \<and>
    ts_IntermediateOut res = Some (sum_by amount_out (ts_FirstStage res)) \<and>
    ts_IntermediateOut res = Some (sum_by amount_in (ts_SecondStage res)) \<and>
    ts_TotalOutput res = Some (sum_by amount_out (ts_Direct res) + sum_by amount_out (ts_SecondStage res)) \<and>
    quoted_by (tr_Direct r) (ts_Direct res) \<and> quoted_by (tr_FirstStage r) (ts_FirstStage res) \<and> quoted_by (tr_SecondStage r) (ts_SecondStage res)"
proof -
  obtain amount settings direct first second outer a flow where run:
    "tr_TotalInput r = Some amount" "0 < amount" "newMemoCurves (tr_Direct r) = Inr direct"
    "newMemoCurves (tr_FirstStage r) = Inr first" "newMemoCurves (tr_SecondStage r) = Inr second"
    "coordinateOptimize amount (length direct + length first)
       (\<lambda>allocation. rbind (evaluateFlow direct first second settings allocation) (\<lambda>flow. Inr (fe_output flow))) settings = Inr outer"
    "final_flow direct first second settings amount (cr_allocation outer) = Inr (a, flow)"
    and res: "split_result direct first second settings amount outer (a, flow) = Inr res"
    by (rule OptimizeTwoStageSplit_run [OF assms])
  have "length (cr_allocation outer) = length direct + length first" "allocationConserves (cr_allocation outer) amount"
    using coordinateOptimize_evaluated [OF run(6)] by (simp_all add: evaluated_def evaluate_with_Inr)
  from final_flow_ok [OF run(7) this] have flow: "flow_ok direct first second a flow" and len: "length a = length direct + length first"
    and cons: "sum_list a = amount" by (simp_all add: allocationConserves_def)
  have lens: "length (take (length direct) a) = length direct" "length (drop (length direct) a) = length first"
      "length (sg_allocations (fe_second flow)) = length second"
    using len flow by (simp_all add: flow_ok_def plan_ok_def)
  have parts: "sum_list a = sum_list (take (length direct) a) + sum_list (drop (length direct) a)"
    by (metis append_take_drop_id sum_list_append)
  note m = split_result_Inr [OF res]
  note sums = materialize_sums [OF m(1) lens(1)] materialize_sums [OF m(2) lens(2)] materialize_sums [OF m(3) lens(3)]
  have "fe_directOut flow = sum_by amount_out (ts_Direct res)" "fe_intermediate flow = sum_by amount_out (ts_FirstStage res)"
      "sg_output (fe_second flow) = sum_by amount_out (ts_SecondStage res)" "fe_intermediate flow = sum_by amount_in (ts_SecondStage res)"
    using flow sums by (simp_all add: flow_ok_def plan_ok_def allocationConserves_def)
  then show ?thesis
    using run(1) m(4-6) sums parts cons flow materialize_quoted_by [OF run(3) [unfolded newMemoCurves_def] m(1) lens(1)]
      materialize_quoted_by [OF run(4) [unfolded newMemoCurves_def] m(2) lens(2)] materialize_quoted_by [OF run(5) [unfolded newMemoCurves_def] m(3) lens(3)]
    by (simp add: flow_ok_def)
qed

text \<open>
  C39: a split accounts for every input unit: the direct and the first-stage inputs add up to the
  requested input, the second stage divides exactly what the first stage gives, the total output
  is the sum of the outputs, and every output is a configured curve's own quote of its input.
\<close>

theorem split_conserves_flow:
  assumes "OptimizeTwoStageSplit ctxErr r = Inr res"
  shows "ts_TotalInput res = tr_TotalInput r \<and>
    ts_TotalInput res = Some (sum_by amount_in (ts_Direct res) + sum_by amount_in (ts_FirstStage res)) \<and>
    ts_IntermediateOut res = Some (sum_by amount_out (ts_FirstStage res)) \<and>
    ts_IntermediateOut res = Some (sum_by amount_in (ts_SecondStage res)) \<and>
    ts_TotalOutput res = Some (sum_by amount_out (ts_Direct res) + sum_by amount_out (ts_SecondStage res)) \<and>
    quoted_by (tr_Direct r) (ts_Direct res) \<and> quoted_by (tr_FirstStage r) (ts_FirstStage res) \<and> quoted_by (tr_SecondStage r) (ts_SecondStage res)"
  by (rule split_flow [OF assms])

section \<open>Verified optimality\<close>

lemma coordinateOptimize_exhaustive:
  assumes "coordinateOptimize amount count objective settings = Inr r"
  shows "cr_exhaustive r \<longleftrightarrow> count = 1 \<or> compositionCountAtMost amount count (cs_exhaustiveLimit settings)"
  using assms unfolding coordinateOptimize_def Let_def
  by (auto simp: rbind_eq_Inr split: if_splits option.splits prod.splits)

lemma compositionCountAtMost_fewer:
  assumes "compositionCountAtMost amount count limit" and "1 \<le> fewer" and "fewer \<le> count"
  shows "compositionCountAtMost amount fewer limit"
proof -
  have c: "0 \<le> amount" "int (length (compositions (count - 1) amount)) \<le> limit"
    using assms(1) by (simp_all add: exhaustive_limit)
  then obtain n where n: "amount = int n" using zero_le_imp_eq_int by auto
  have "length (compositions (fewer - 1) amount) \<le> length (compositions (count - 1) amount)"
    unfolding n compositions_length using assms(3) by (intro binomial_count_mono) simp
  then show ?thesis using c assms(2) by (simp add: exhaustive_limit)
qed

definition monotone_at :: "memoCurve \<Rightarrow> bool" where
  "monotone_at c \<longleftrightarrow> (\<forall>x y v w. x \<le> y \<longrightarrow> curve_at c x = Inr v \<longrightarrow> curve_at c y = Inr w \<longrightarrow> v \<le> w)"

lemma shift_to_direct:
  assumes "direct \<noteq> []" "length xs = length direct" "\<forall>c \<in> set direct. monotone_at c" "0 \<le> extra"
    and "family_output direct xs = Inr v" and "allocationConserves xs amount"
  obtains ys where "length ys = length direct" "allocationConserves ys (amount + extra)"
    "\<And>w. family_output direct ys = Inr w \<Longrightarrow> v \<le> w"
proof -
  obtain c cs x rest where split: "direct = c # cs" "xs = x # rest" using assms(1,2) by (cases direct; cases xs) auto
  have "allocationConserves ((x + extra) # rest) (amount + extra)" using assms(4,6) split by (auto simp: allocationConserves_def)
  moreover have "v \<le> w" if "family_output direct ((x + extra) # rest) = Inr w" for w
  proof -
    from assms(5) obtain v1 v2 where v: "curve_at c x = Inr v1" "family_output cs rest = Inr v2" "v = v1 + v2"
      by (auto simp: split rbind_eq_Inr)
    from that v(2) obtain w1 where w: "curve_at c (x + extra) = Inr w1" "w = w1 + v2" by (auto simp: split rbind_eq_Inr)
    have "monotone_at c" "x \<le> x + extra" using assms(3,4) split by auto
    then have "v1 \<le> w1" using v(1) w(1) unfolding monotone_at_def by blast
    then show ?thesis using v(3) w(2) by simp
  qed
  moreover have "length ((x + extra) # rest) = length direct" using assms(2) split by simp
  ultimately show thesis using that by blast
qed

text \<open>What an exhaustive outer search knows of every allocation.\<close>

lemma outer_bound:
  assumes outer: "coordinateOptimize amount (length direct + length first)
      (\<lambda>allocation. rbind (evaluateFlow direct first second settings allocation) (\<lambda>flow. Inr (fe_output flow))) settings = Inr outer"
    and "cr_exhaustive outer" and x: "length x = length direct + length first" "allocationConserves x amount"
  obtains flow where "evaluateFlow direct first second settings x = Inr flow" "fe_output flow \<le> cr_value outer"
  using coordinateOptimize_evaluated [OF outer] assms(2) x by (auto simp: evaluate_with_Inr flow_objective)

text \<open>The direct-only fallback of an exhaustive search loses no output.\<close>

lemma fallback_output:
  assumes outer: "coordinateOptimize amount (length direct + length first)
      (\<lambda>allocation. rbind (evaluateFlow direct first second settings allocation) (\<lambda>flow. Inr (fe_output flow))) settings = Inr outer"
    and exh: "cr_exhaustive outer" and mono: "\<forall>c \<in> set direct. monotone_at c"
    and flow0: "evaluateFlow direct first second settings (cr_allocation outer) = Inr flow0" "fe_output flow0 = cr_value outer"
    and dust: "needs_direct_only direct (cr_allocation outer) flow0"
    and plan: "optimizeIndependent amount direct settings = Inr plan"
    and flow: "evaluateFlow direct first second settings (sg_allocations plan @ zeroAllocation (length first)) = Inr flow"
  shows "cr_value outer \<le> fe_output flow"
proof -
  have some: "direct \<noteq> []" "0 < length direct" using dust by (auto simp: needs_direct_only_def)
  have a: "length (cr_allocation outer) = length direct + length first" "allocationConserves (cr_allocation outer) amount"
    using coordinateOptimize_evaluated [OF outer] by (simp_all add: evaluated_def evaluate_with_Inr)
  let ?d = "take (length direct) (cr_allocation outer)" and ?f = "drop (length direct) (cr_allocation outer)"
  have ok0: "flow_ok direct first second (cr_allocation outer) flow0" by (rule evaluateFlow_ok [OF flow0(1)])
  have "sg_output (fe_second flow0) = 0"
  proof (cases "fe_intermediate flow0 = 0")
    case True
    then have "family_output second (sg_allocations (fe_second flow0)) = Inr (sg_output (fe_second flow0))"
        "sg_allocations (fe_second flow0) = zeroAllocation (length second)"
      using ok0 conserves_zero [of "sg_allocations (fe_second flow0)"] by (simp_all add: flow_ok_def plan_ok_def)
    then show ?thesis using family_output_zero [of second] by simp
  qed (use dust in \<open>auto simp: needs_direct_only_def\<close>)
  then have v: "family_output direct ?d = Inr (cr_value outer)" using ok0 flow0(2) by (simp add: flow_ok_def)
  have parts: "sum_list ?d + sum_list ?f = amount" "list_all (\<lambda>a. 0 \<le> a) ?d" "list_all (\<lambda>a. 0 \<le> a) ?f"
    using a(2) unfolding allocationConserves_def
    by (auto simp: list_all_iff dest: in_set_takeD in_set_dropD simp flip: sum_list_append)
  have extra: "0 \<le> sum_list ?f" using parts(3) by (auto simp: list_all_iff intro: sum_list_nonneg)
  obtain ys where ys: "length ys = length direct" "allocationConserves ys amount"
      "\<And>w. family_output direct ys = Inr w \<Longrightarrow> cr_value outer \<le> w"
    using shift_to_direct [OF some(1) _ mono extra v, of "sum_list ?d"] a(1) parts(1,2) by (auto simp: allocationConserves_def)
  have all: "allocationConserves (ys @ zeroAllocation (length first)) amount"
    using ys(2) zeroAllocation_conserves [of "length first"] by (simp add: allocationConserves_def)
  obtain g where "evaluateFlow direct first second settings (ys @ zeroAllocation (length first)) = Inr g"
    using outer_bound [OF outer exh _ all] ys(1) by (auto simp: zeroAllocation_def)
  from evaluateFlow_ok [OF this] have w: "family_output direct ys = Inr (fe_directOut g)" by (simp add: flow_ok_def ys(1))
  have "sg_exhaustive plan"
    using plan some exh coordinateOptimize_exhaustive [OF outer] compositionCountAtMost_fewer [of amount "length direct + length first" _ "length direct"]
    by (auto simp: optimizeIndependent_def rbind_eq_Inr coordinateOptimize_exhaustive Suc_le_eq add_is_1)
  then have "fe_directOut g \<le> sg_output plan" using optimizeIndependent_ok [OF plan] ys w by (simp add: plan_ok_def)
  moreover have "fe_directOut flow = sg_output plan" "0 \<le> sg_output (fe_second flow)" "fe_output flow = fe_directOut flow + sg_output (fe_second flow)"
    using evaluateFlow_ok [OF flow] optimizeIndependent_ok [OF plan] by (auto simp: flow_ok_def plan_ok_def dest: family_output_nonneg)
  ultimately show ?thesis using ys(3) [OF w] by linarith
qed

lemma final_flow_output:
  assumes outer: "coordinateOptimize amount (length direct + length first)
      (\<lambda>allocation. rbind (evaluateFlow direct first second settings allocation) (\<lambda>flow. Inr (fe_output flow))) settings = Inr outer"
    and exh: "cr_exhaustive outer" and mono: "\<forall>c \<in> set direct. monotone_at c"
    and final: "final_flow direct first second settings amount (cr_allocation outer) = Inr (a, flow)"
  shows "cr_value outer \<le> fe_output flow"
proof -
  from coordinateOptimize_evaluated [OF outer]
  obtain flow0 where flow0: "evaluateFlow direct first second settings (cr_allocation outer) = Inr flow0" "fe_output flow0 = cr_value outer"
    by (auto simp: evaluated_def evaluate_with_Inr flow_objective)
  show ?thesis
  proof (cases "needs_direct_only direct (cr_allocation outer) flow0")
    case True
    then show ?thesis using final flow0 fallback_output [OF outer exh mono flow0 True] by (auto simp: final_flow_def Let_def rbind_eq_Inr)
  qed (use final flow0 in \<open>auto simp: final_flow_def\<close>)
qed

lemma second_verified_bound:
  assumes "second_verified direct first second settings amount" "0 \<le> amount"
    and "length x = length direct + length first" "allocationConserves x amount" "0 < length x"
    and "evaluateFlow direct first second settings x = Inr flow"
    and "length y = length second" "allocationConserves y (fe_intermediate flow)" "family_output second y = Inr w"
  shows "fe_directOut flow + w \<le> fe_output flow"
proof -
  have "x \<in> set (compositions (length direct + length first - 1) amount)"
    using compositions_set [OF assms(2), of x "length direct + length first - 1"] assms(3-5) by (simp del: One_nat_def)
  then have "sg_exhaustive (fe_second flow)" using assms(1,6) by (auto simp: second_verified_def list_all_iff)
  then show ?thesis using evaluateFlow_ok [OF assms(6)] assms(7-9) by (auto simp: flow_ok_def plan_ok_def)
qed

text \<open>
  C15: a result with \<open>GloballyVerified\<close> is the best there is: no division of the input over the
  direct and first-stage curves, with any division of what the first stage gives over the second
  stage, has a larger output. The direct curves are monotone in their input, as pools are.
\<close>

theorem globally_verified_optimal:
  assumes run: "OptimizeTwoStageSplit ctxErr r = Inr res" and verified: "ts_GloballyVerified res"
    and curves: "newMemoCurves (tr_Direct r) = Inr direct" "newMemoCurves (tr_FirstStage r) = Inr first"
      "newMemoCurves (tr_SecondStage r) = Inr second"
    and mono: "\<forall>c \<in> set direct. monotone_at c"
    and inputs: "length x = length direct + length first" "tr_TotalInput r = Some amount" "allocationConserves x amount"
    and outs: "family_output direct (take (length direct) x) = Inr directOut" "family_output first (drop (length direct) x) = Inr m"
    and seconds: "length y = length second" "allocationConserves y m" "family_output second y = Inr w"
  shows "\<exists>best. ts_TotalOutput res = Some best \<and> directOut + w \<le> best"
proof -
  from run obtain amount' settings direct' first' second' outer a flow where r:
    "tr_TotalInput r = Some amount'" "0 < amount'" "newMemoCurves (tr_Direct r) = Inr direct'"
    "newMemoCurves (tr_FirstStage r) = Inr first'" "newMemoCurves (tr_SecondStage r) = Inr second'"
    "coordinateOptimize amount' (length direct' + length first')
       (\<lambda>allocation. rbind (evaluateFlow direct' first' second' settings allocation) (\<lambda>flow. Inr (fe_output flow))) settings = Inr outer"
    "final_flow direct' first' second' settings amount' (cr_allocation outer) = Inr (a, flow)"
    and res: "split_result direct' first' second' settings amount' outer (a, flow) = Inr res"
    by (rule OptimizeTwoStageSplit_run)
  have same: "amount' = amount" "direct' = direct" "first' = first" "second' = second" using r(1,3-5) curves inputs(2) by simp_all
  note r = r [unfolded same] and m = split_result_Inr [OF res [unfolded same]]
  have exh: "cr_exhaustive outer" "second_verified direct first second settings amount" using m(7) verified by simp_all
  obtain g where g: "evaluateFlow direct first second settings x = Inr g" "fe_output g \<le> cr_value outer"
    by (rule outer_bound [OF r(6) exh(1) inputs(1,3)])
  have parts: "fe_directOut g = directOut" "fe_intermediate g = m" using evaluateFlow_ok [OF g(1)] outs by (simp_all add: flow_ok_def)
  have "x \<noteq> []" using inputs(3) r(2) by (auto simp: allocationConserves_def)
  then have "directOut + w \<le> fe_output g"
    using second_verified_bound [OF exh(2) _ inputs(1,3) _ g(1) seconds(1) _ seconds(3)] parts r(2) seconds(2) by simp
  also have "\<dots> \<le> fe_output flow" using g(2) final_flow_output [OF r(6) exh(1) mono r(7)] by simp
  finally show ?thesis using m(6) by simp
qed

section \<open>Executable routes\<close>

lemma seen_curve_distinct:
  "foldM seen_curve seen cs = Inr seen' \<Longrightarrow> distinct (map mc_id cs) \<and> set (map mc_id cs) \<inter> set seen = {}"
proof (induction cs arbitrary: seen)
  case (Cons c cs)
  then have "mc_id c \<notin> set seen" "foldM seen_curve (mc_id c # seen) cs = Inr seen'"
    using seen_curve_def [of seen c] by (simp_all split: if_splits)
  then show ?case using Cons.IH [of "mc_id c # seen"] by auto
qed simp

lemma uniqueCurveIDs_distinct: "uniqueCurveIDs groups = None \<Longrightarrow> distinct (map mc_id (concat groups))"
  using seen_curve_distinct by (auto simp: uniqueCurveIDs_def split: sum.splits)

lemma unique_ids_configured:
  assumes ms: "newCurves c0 b = Inr m0" "newCurves c1 b = Inr m1" "newCurves c2 b = Inr m2" and u: "uniqueCurveIDs [m0, m1, m2] = None"
  shows "distinct (map crv_ID c0)" "distinct (map crv_ID c1)" "distinct (map crv_ID c2)"
proof -
  have d: "distinct (map mc_id m0)" "distinct (map mc_id m1)" "distinct (map mc_id m2)"
    using uniqueCurveIDs_distinct [OF u] by simp_all
  show "distinct (map crv_ID c0)" "distinct (map crv_ID c1)" "distinct (map crv_ID c2)"
    using d newCurves_Inr(1) [OF ms(1)] newCurves_Inr(1) [OF ms(2)] newCurves_Inr(1) [OF ms(3)] by (metis distinct_sort)+
qed

lemma split_ids_distinct:
  assumes "OptimizeTwoStageSplit ctxErr r = Inr res"
  shows "distinct (map crv_ID (tr_Direct r))" "distinct (map crv_ID (tr_FirstStage r))" "distinct (map crv_ID (tr_SecondStage r))"
proof -
  obtain direct first second where ms: "newMemoCurves (tr_Direct r) = Inr direct" "newMemoCurves (tr_FirstStage r) = Inr first"
      "newMemoCurves (tr_SecondStage r) = Inr second" and u: "uniqueCurveIDs [direct, first, second] = None"
    using assms by (auto simp: OptimizeTwoStageSplit_def rbind_eq_Inr check_eq_Inr split: if_splits option.splits)
  from unique_ids_configured [OF ms [unfolded newMemoCurves_def] u]
  show "distinct (map crv_ID (tr_Direct r))" "distinct (map crv_ID (tr_FirstStage r))" "distinct (map crv_ID (tr_SecondStage r))" .
qed

definition gives_output :: "SplitAllocation list \<Rightarrow> bool" where
  "gives_output as \<longleftrightarrow> list_all (\<lambda>a. 0 < amount_in a \<longrightarrow> 0 < amount_out a) as"

lemma executionBranches_simps [simp]:
  "executionBranches [] = []"
  "executionBranches (a # as) = (case sa_AmountIn a of None \<Rightarrow> executionBranches as | Some x \<Rightarrow>
     if x = 0 then executionBranches as
     else \<lparr>rb_Market = sa_CurveID a, rb_PlannedInput = sa_AmountIn a, rb_ExpectedOutput = sa_AmountOut a\<rparr> # executionBranches as)"
  by (auto simp: executionBranches_def split: option.splits)

lemma executionBranches_sums:
  assumes "\<And>a. a \<in> set as \<Longrightarrow> \<exists>x out. sa_AmountIn a = Some x \<and> sa_AmountOut a = Some out \<and> 0 \<le> x \<and> 0 \<le> out \<and> (0 < out \<longrightarrow> 0 < x)"
  shows "sumPlannedInput (executionBranches as) = sum_by amount_in as" "sumExpectedOutput (executionBranches as) = sum_by amount_out as"
  using assms
  by (induction as) (fastforce simp: sumPlannedInput_def sumExpectedOutput_def bigint_def split: option.splits)+

lemma quoted_branches:
  assumes q: "quoted_by cs as" and d: "distinct (map crv_ID cs)" and g: "gives_output as"
  shows "sumPlannedInput (executionBranches as) = sum_by amount_in as" "sumExpectedOutput (executionBranches as) = sum_by amount_out as"
    "branch_error gid k [] (executionBranches as) = None"
proof -
  have ex: "\<exists>x out. sa_AmountIn a = Some x \<and> sa_AmountOut a = Some out \<and> 0 \<le> x \<and> 0 \<le> out \<and> (0 < out \<longrightarrow> 0 < x) \<and> sa_CurveID a \<noteq> []"
    if "a \<in> set as" for a using q that unfolding quoted_by_def by metis
  then show sums: "sumPlannedInput (executionBranches as) = sum_by amount_in as" "sumExpectedOutput (executionBranches as) = sum_by amount_out as"
    by (intro executionBranches_sums; blast)+
  have "distinct (map sa_CurveID as)" using q d by (metis quoted_by_def distinct_sort)
  then have "distinct (map rb_Market (executionBranches as))"
    by (auto simp: executionBranches_def comp_def intro: distinct_map_filter)
  moreover have ok: "branch_ok b" if "b \<in> set (executionBranches as)" for b
  proof -
    from that obtain a where a: "a \<in> set as" "sa_AmountIn a \<noteq> Some 0"
        "b = \<lparr>rb_Market = sa_CurveID a, rb_PlannedInput = sa_AmountIn a, rb_ExpectedOutput = sa_AmountOut a\<rparr>"
      by (auto simp: executionBranches_def split: option.splits)
    from g a(1) have "0 < amount_in a \<longrightarrow> 0 < amount_out a" by (auto simp: gives_output_def list_all_iff)
    with ex [OF a(1)] a(2) show ?thesis by (auto simp: a(3) branch_ok_def bigint_def)
  qed
  ultimately show "branch_error gid k [] (executionBranches as) = None" by (simp add: branch_error_None)
qed

lemma branch_sums_positive:
  assumes "branch_error gid k [] bs = None" and "bs \<noteq> []"
  shows "0 < sumPlannedInput bs" "0 < sumExpectedOutput bs"
proof -
  have "\<forall>b \<in> set bs. branch_ok b" using assms(1) by (simp add: branch_error_None)
  with assms(2) show "0 < sumPlannedInput bs" "0 < sumExpectedOutput bs"
    by (induction bs rule: list_nonempty_induct) (auto simp: branch_ok_def sumPlannedInput_def sumExpectedOutput_def)
qed

lemma branch_sums_Nil: "sumPlannedInput [] = 0" "sumExpectedOutput [] = 0"
  by (simp_all add: sumPlannedInput_def sumExpectedOutput_def)

lemma direct_route_valid:
  assumes "branch_error ''direct'' 0 [] d = None" "d \<noteq> []" "i \<noteq> []" "out \<noteq> []" "i \<noteq> out"
    and "sumPlannedInput d = x" "sumExpectedOutput d = y" "0 < x" "0 < y"
  shows "AllocationValidate \<lparr>ra_Input = \<lparr>amt_token = i, amt_units = x\<rparr>, ra_ExpectedOutput = \<lparr>amt_token = out, amt_units = y\<rparr>,
    ra_Groups = [\<lparr>rg_ID = ''direct'', rg_Parent = [], rg_InputToken = i, rg_OutputToken = out, rg_Branches = d\<rparr>]\<rparr> = None"
  using assms by (simp add: AllocationValidate_def scan_group_def AmountIsZero_def Let_def)

lemma two_stage_route_valid:
  assumes "branch_error ''intermediate_input'' 0 [] f = None" "branch_error ''intermediate_output'' 0 [] s = None" "f \<noteq> []" "s \<noteq> []"
    and "branch_error ''direct'' 0 [] d = None" "i \<noteq> []" "out \<noteq> []" "i \<noteq> out" "m \<noteq> []" "m \<noteq> i" "m \<noteq> out"
    and "sumPlannedInput d + sumPlannedInput f = x" "sumExpectedOutput f = sumPlannedInput s"
    and "sumExpectedOutput d + sumExpectedOutput s = y" "0 < x" "0 < y"
  shows "AllocationValidate \<lparr>ra_Input = \<lparr>amt_token = i, amt_units = x\<rparr>, ra_ExpectedOutput = \<lparr>amt_token = out, amt_units = y\<rparr>,
    ra_Groups = (if d = [] then [] else [\<lparr>rg_ID = ''direct'', rg_Parent = [], rg_InputToken = i, rg_OutputToken = out, rg_Branches = d\<rparr>]) @
      [\<lparr>rg_ID = ''intermediate_input'', rg_Parent = [], rg_InputToken = i, rg_OutputToken = m, rg_Branches = f\<rparr>,
       \<lparr>rg_ID = ''intermediate_output'', rg_Parent = ''intermediate_input'', rg_InputToken = m, rg_OutputToken = out, rg_Branches = s\<rparr>]\<rparr> = None"
  using assms
  by (cases "d = []") (simp_all add: AllocationValidate_def scan_group_def AmountIsZero_def sumPlannedInput_def sumExpectedOutput_def Let_def)

text \<open>
  a split whose used curves all give something becomes an executable route: with distinct
  tokens, \<open>BuildRouteAllocation\<close> accepts the result and its allocation carries the whole input
  and the whole output.
\<close>

lemma split_route_accepted:
  assumes run: "OptimizeTwoStageSplit ctxErr r = Inr res"
    and tokens: "inputToken \<noteq> []" "outputToken \<noteq> []" "inputToken \<noteq> outputToken"
    and middle: "tr_FirstStage r = [] \<or> intermediateToken \<noteq> [] \<and> intermediateToken \<noteq> inputToken \<and> intermediateToken \<noteq> outputToken"
    and outputs: "gives_output (ts_Direct res)" "gives_output (ts_FirstStage res)" "gives_output (ts_SecondStage res)"
  shows "\<exists>allocation. BuildRouteAllocation res inputToken intermediateToken outputToken = Inr allocation \<and>
    Some (amt_units (ra_Input allocation)) = tr_TotalInput r \<and> Some (amt_units (ra_ExpectedOutput allocation)) = ts_TotalOutput res"
proof -
  let ?d = "executionBranches (ts_Direct res)" and ?f = "executionBranches (ts_FirstStage res)" and ?s = "executionBranches (ts_SecondStage res)"
  obtain x where x: "tr_TotalInput r = Some x" "0 < x" by (rule OptimizeTwoStageSplit_run [OF run])
  note flow = split_flow [OF run]
  obtain y where y: "ts_TotalOutput res = Some y" using flow by blast
  have q: "quoted_by (tr_Direct r) (ts_Direct res)" "quoted_by (tr_FirstStage r) (ts_FirstStage res)" "quoted_by (tr_SecondStage r) (ts_SecondStage res)"
    using flow by simp_all
  note d = quoted_branches [OF q(1) split_ids_distinct(1) [OF run] outputs(1)] and f = quoted_branches [OF q(2) split_ids_distinct(2) [OF run] outputs(2)]
    and s = quoted_branches [OF q(3) split_ids_distinct(3) [OF run] outputs(3)]
  note pos = branch_sums_positive [OF d(3)] branch_sums_positive [OF f(3)] branch_sums_positive [OF s(3)]
  have sums: "sumPlannedInput ?d + sumPlannedInput ?f = x" "sumExpectedOutput ?f = sumPlannedInput ?s" "sumExpectedOutput ?d + sumExpectedOutput ?s = y"
    using flow x y d(1,2) f(1,2) s(1,2) by auto
  note build = BuildRouteAllocation_def route_groups_def NewTokenAmount_def x(1) y flow [THEN conjunct1]
  have both: "?f = [] \<longleftrightarrow> ?s = []"
    using sums(2) pos(4,5) by (cases "?f = []"; cases "?s = []") (simp_all add: branch_sums_Nil)
  show ?thesis
  proof (cases "?f = []")
    case True
    then have some: "?d \<noteq> []" using sums x(2) by (auto simp: branch_sums_Nil)
    then have "0 < y" using True both sums(3) pos(2) by (simp add: branch_sums_Nil)
    with some show ?thesis
      using True both tokens x(2) sums direct_route_valid [OF d(3), of inputToken outputToken x y] by (simp add: build Let_def branch_sums_Nil)
  next
    case False
    then have "ts_FirstStage res \<noteq> []" by auto
    then have "tr_FirstStage r \<noteq> []" using q(2) by (auto simp: quoted_by_def)
    with middle have m: "intermediateToken \<noteq> []" "intermediateToken \<noteq> inputToken" "intermediateToken \<noteq> outputToken" by simp_all
    have "0 \<le> sumExpectedOutput ?d" using pos(2) by (cases "?d = []") (simp_all add: branch_sums_Nil)
    then have "0 < y" using sums(3) both False pos(6) by simp
    then show ?thesis
      using False both tokens m x(2) sums two_stage_route_valid [OF f(3) s(3) _ _ d(3) tokens(1,2,3) m, of x y]
      by (simp add: build Let_def)
  qed
qed

section \<open>Examples\<close>

text \<open>Two pools on a direct route: the first one gives one unit for any input, the second one nothing.\<close>

definition flat_curve :: SplitCurve where
  "flat_curve = \<lparr>crv_ID = ''a'', crv_Quote = Some (\<lambda>x. Inr (Some 1))\<rparr>"

definition dust_curve :: SplitCurve where
  "dust_curve = \<lparr>crv_ID = ''b'', crv_Quote = Some (\<lambda>x. Inl OutputRoundsToZero)\<rparr>"

definition double_curve :: SplitCurve where
  "double_curve = \<lparr>crv_ID = ''c'', crv_Quote = Some (\<lambda>x. Inr (Some (2 * x)))\<rparr>"

definition dust_request :: TwoStageSplitRequest where
  "dust_request = \<lparr>tr_TotalInput = Some 2, tr_Direct = [flat_curve, dust_curve], tr_FirstStage = [], tr_SecondStage = [],
     tr_MaxSweeps = 0, tr_MaxStarts = 0, tr_Neighborhood = 0, tr_ExhaustiveLimit = 0\<rparr>"

definition entry :: "string \<Rightarrow> int \<Rightarrow> int \<Rightarrow> SplitAllocation" where
  "entry i x out = \<lparr>sa_CurveID = i, sa_AmountIn = Some x, sa_AmountOut = Some out\<rparr>"

definition dust_result :: TwoStageSplitResult where
  "dust_result = \<lparr>ts_Direct = [entry ''a'' 1 1, entry ''b'' 1 0], ts_FirstStage = [], ts_SecondStage = [], ts_TotalInput = Some 2,
     ts_IntermediateOut = Some 0, ts_TotalOutput = Some 1, ts_InputResolution = Some 1, ts_GridDivisions = 0,
     ts_GridVerified = False, ts_PairwiseOptimal = True, ts_GloballyVerified = True\<rparr>"

lemma dust_run: "OptimizeTwoStageSplit False dust_request = Inr dust_result"
  by code_simp

text \<open>
  The search breaks ties by the text of the allocation, so that it can end in a pool that gives
  nothing for its share. The route is then refused, although the allocation that leaves the pool
  out has the same output and is executable.
\<close>

lemma dust_split_refused:
  "OptimizeTwoStageSplit False dust_request = Inr dust_result \<and> ts_GloballyVerified dust_result \<and>
   BuildRouteAllocation dust_result ''in'' [] ''out'' = Inl (BuildInvalid (AllocBranchInvalid ''direct'' 1)) \<and>
   rbind (newMemoCurves (tr_Direct dust_request)) (\<lambda>cs. family_output cs [2, 0]) = Inr 1 \<and>
   (\<exists>allocation. BuildRouteAllocation (dust_result\<lparr>ts_Direct := [entry ''a'' 2 1, entry ''b'' 0 0]\<rparr>) ''in'' [] ''out'' = Inr allocation)"
proof (intro conjI)
  have "case BuildRouteAllocation (dust_result\<lparr>ts_Direct := [entry ''a'' 2 1, entry ''b'' 0 0]\<rparr>) ''in'' [] ''out'' of Inl _ \<Rightarrow> False | Inr _ \<Rightarrow> True"
    by code_simp
  then show "\<exists>allocation. BuildRouteAllocation (dust_result\<lparr>ts_Direct := [entry ''a'' 2 1, entry ''b'' 0 0]\<rparr>) ''in'' [] ''out'' = Inr allocation"
    by (simp split: sum.splits)
  show "BuildRouteAllocation dust_result ''in'' [] ''out'' = Inl (BuildInvalid (AllocBranchInvalid ''direct'' 1))" by code_simp
  show "rbind (newMemoCurves (tr_Direct dust_request)) (\<lambda>cs. family_output cs [2, 0]) = Inr 1" by code_simp
qed (simp_all add: dust_run dust_result_def)

text \<open>One direct pool and a route through an intermediate token.\<close>

definition stage_request :: TwoStageSplitRequest where
  "stage_request = \<lparr>tr_TotalInput = Some 2, tr_Direct = [flat_curve], tr_FirstStage = [double_curve],
     tr_SecondStage = [\<lparr>crv_ID = ''d'', crv_Quote = Some (\<lambda>x. Inr (Some x))\<rparr>],
     tr_MaxSweeps = 0, tr_MaxStarts = 0, tr_Neighborhood = 0, tr_ExhaustiveLimit = 0\<rparr>"

definition stage_result :: TwoStageSplitResult where
  "stage_result = \<lparr>ts_Direct = [entry ''a'' 0 0], ts_FirstStage = [entry ''c'' 2 4], ts_SecondStage = [entry ''d'' 4 4], ts_TotalInput = Some 2,
     ts_IntermediateOut = Some 4, ts_TotalOutput = Some 4, ts_InputResolution = Some 1, ts_GridDivisions = 0,
     ts_GridVerified = False, ts_PairwiseOptimal = True, ts_GloballyVerified = True\<rparr>"

lemma stage_run: "OptimizeTwoStageSplit False stage_request = Inr stage_result"
  by code_simp

definition stage_curve :: "SplitCurve \<Rightarrow> memoCurve" where
  "stage_curve c = \<lparr>mc_id = crv_ID c, mc_quote = the (crv_Quote c), mc_cache = Some Map.empty, mc_calls = 0, mc_hits = 0\<rparr>"

lemma stage_curves:
  "newMemoCurves (tr_Direct stage_request) = Inr [stage_curve flat_curve]"
  "newMemoCurves (tr_FirstStage stage_request) = Inr [stage_curve double_curve]"
  "newMemoCurves (tr_SecondStage stage_request) = Inr [stage_curve (hd (tr_SecondStage stage_request))]"
  by (simp_all add: stage_request_def newMemoCurves_def newCurves_def flat_curve_def double_curve_def blank_def stage_curve_def)

lemma flat_curve_monotone: "monotone_at (stage_curve flat_curve)"
  by (auto simp: monotone_at_def curve_at_def stage_curve_def flat_curve_def split: if_splits)

theorem split_conserves_flow_witness:
  "ts_TotalInput stage_result = tr_TotalInput stage_request \<and>
   ts_IntermediateOut stage_result = Some (sum_by amount_in (ts_SecondStage stage_result)) \<and>
   quoted_by (tr_FirstStage stage_request) (ts_FirstStage stage_result)"
  using split_conserves_flow [OF stage_run] by blast

theorem globally_verified_optimal_witness:
  "\<exists>best. ts_TotalOutput stage_result = Some best \<and> 1 + 2 \<le> best"
proof -
  have "family_output [stage_curve flat_curve] (take 1 [1, 1]) = Inr 1" "family_output [stage_curve double_curve] (drop 1 [1, 1]) = Inr 2"
      "family_output [stage_curve (hd (tr_SecondStage stage_request))] [2] = Inr 2"
    by (simp_all add: curve_at_def stage_curve_def flat_curve_def double_curve_def stage_request_def)
  moreover have "allocationConserves [1, 1] 2" "allocationConserves [2] 2" "tr_TotalInput stage_request = Some 2" "ts_GloballyVerified stage_result"
    by (simp_all add: allocationConserves_def stage_request_def stage_result_def)
  ultimately show ?thesis
    using globally_verified_optimal [OF stage_run _ stage_curves, where x = "[1, 1]" and y = "[2]"] flat_curve_monotone by simp
qed

lemma split_route_accepted_example:
  "\<exists>allocation. BuildRouteAllocation stage_result ''in'' ''mid'' ''out'' = Inr allocation \<and>
    Some (amt_units (ra_Input allocation)) = tr_TotalInput stage_request \<and>
    Some (amt_units (ra_ExpectedOutput allocation)) = ts_TotalOutput stage_result"
  by (rule split_route_accepted [OF stage_run]) (simp_all add: stage_result_def entry_def gives_output_def)

end
