(* ===== verification/Sizing_Grid_Split.thy ===== *)
theory Sizing_Grid_Split
  imports Sizing_Split
begin

text \<open>
  The bounded-cost split of \<open>src/core/sizing/grid_split.go\<close>: dynamic programming over a number of
  equal input steps for each family of curves. An invalid \<open>gridPlan\<close> is \<open>None\<close>. The workers of the
  outer loop only fill the slot of their own job from immutable curves, so that the loop is a map
  over the jobs.
\<close>

section \<open>Plans\<close>

record gridPlan =
  gp_amounts :: "int list"
  gp_output :: int

record gridFlow =
  gf_direct :: gridPlan
  gf_first :: gridPlan
  gf_second :: gridPlan
  gf_intermediate :: int
  gf_output :: int

record GridTwoStageSplitRequest =
  gr_TotalInput :: "int option"
  gr_Direct :: "SplitCurve list"
  gr_FirstStage :: "SplitCurve list"
  gr_SecondStage :: "SplitCurve list"
  gr_Divisions :: int

definition effectiveGridDivisions :: "int \<Rightarrow> nat \<Rightarrow> nat" where
  "effectiveGridDivisions amount requested =
     (if - (2 ^ 63) \<le> amount \<and> amount < 2 ^ 63 \<and> amount < int requested then nat amount else requested)"

definition betterGridPlan :: "gridPlan option \<Rightarrow> gridPlan option \<Rightarrow> bool" where
  "betterGridPlan candidate current =
     (case candidate of
        None \<Rightarrow> False
      | Some p \<Rightarrow>
          (case current of
             None \<Rightarrow> True
           | Some q \<Rightarrow> gp_output p > gp_output q \<or>
               gp_output p = gp_output q \<and> allocationKey (gp_amounts p) < allocationKey (gp_amounts q)))"

definition betterGridFlow :: "gridFlow option \<Rightarrow> gridFlow option \<Rightarrow> bool" where
  "betterGridFlow candidate current =
     (case candidate of
        None \<Rightarrow> False
      | Some p \<Rightarrow>
          (case current of
             None \<Rightarrow> True
           | Some q \<Rightarrow>
               if gf_output p \<noteq> gf_output q then gf_output p > gf_output q
               else allocationKey (gp_amounts (gf_direct p) @ gp_amounts (gf_first p)) <
                    allocationKey (gp_amounts (gf_direct q) @ gp_amounts (gf_first q))))"

definition sumGridOutputs :: "memoCurve list \<Rightarrow> int list \<Rightarrow> (split_failure, int) result" where
  "sumGridOutputs curves amounts = foldM add_output 0 (zip curves amounts)"

section \<open>Families\<close>

text \<open>The quotes of one curve at every number of units, with the amount of each.\<close>

fun quote_units :: "memoCurve \<Rightarrow> (nat \<Rightarrow> int) \<Rightarrow> nat list \<Rightarrow> (split_failure, (int \<times> int) list) result" where
  "quote_units curve amount_of [] = Inr []"
| "quote_units curve amount_of (units # rest) =
     rbind (curve_at curve (amount_of units)) (\<lambda>out. rbind (quote_units curve amount_of rest) (\<lambda>row. Inr ((amount_of units, out) # row)))"

definition unit_amount :: "int \<Rightarrow> int option \<Rightarrow> bool \<Rightarrow> nat \<Rightarrow> int" where
  "unit_amount quantum remainder recipient units =
     quantum * int units + (if recipient then (case remainder of None \<Rightarrow> 0 | Some x \<Rightarrow> x) else 0)"

fun quote_rows ::
  "int \<Rightarrow> int option \<Rightarrow> nat \<Rightarrow> nat option \<Rightarrow> nat \<Rightarrow> memoCurve list \<Rightarrow> (split_failure, (int \<times> int) list list) result" where
  "quote_rows quantum remainder divisions recipient index [] = Inr []"
| "quote_rows quantum remainder divisions recipient index (curve # rest) =
     rbind (quote_units curve (unit_amount quantum remainder (recipient = Some index)) [0..<Suc divisions]) (\<lambda>row.
     rbind (quote_rows quantum remainder divisions recipient (Suc index) rest) (\<lambda>rows. Inr (row # rows)))"

definition try_units :: "gridPlan option list \<Rightarrow> (int \<times> int) list \<Rightarrow> nat \<Rightarrow> gridPlan option \<Rightarrow> nat \<Rightarrow> gridPlan option" where
  "try_units previous row totalUnits current curveUnits =
     (case previous ! (totalUnits - curveUnits) of
        None \<Rightarrow> current
      | Some prefix \<Rightarrow>
          let candidate = Some \<lparr>gp_amounts = gp_amounts prefix @ [fst (row ! curveUnits)], gp_output = gp_output prefix + snd (row ! curveUnits)\<rparr>
          in if betterGridPlan candidate current then candidate else current)"

definition grid_cell :: "gridPlan option list \<Rightarrow> (int \<times> int) list \<Rightarrow> nat \<Rightarrow> gridPlan option" where
  "grid_cell previous row totalUnits = foldl (try_units previous row totalUnits) None [0..<Suc totalUnits]"

definition grid_step :: "nat \<Rightarrow> gridPlan option list \<Rightarrow> (int \<times> int) list \<Rightarrow> gridPlan option list" where
  "grid_step divisions previous row = map (grid_cell previous row) [0..<Suc divisions]"

definition no_curve_plans :: "nat \<Rightarrow> gridPlan option list" where
  "no_curve_plans divisions = Some \<lparr>gp_amounts = [], gp_output = 0\<rparr> # replicate divisions None"

definition gridFamilyPlansWithRemainder ::
  "int \<Rightarrow> int option \<Rightarrow> nat \<Rightarrow> memoCurve list \<Rightarrow> nat option \<Rightarrow> (split_failure, gridPlan option list) result" where
  "gridFamilyPlansWithRemainder quantum remainder divisions curves recipient =
     (if curves = [] then Inr (no_curve_plans divisions)
      else rbind (quote_rows quantum remainder divisions recipient 0 curves) (\<lambda>rows.
        Inr (foldl (grid_step divisions) (no_curve_plans divisions) rows)))"

definition gridFamilyPlans :: "int \<Rightarrow> nat \<Rightarrow> memoCurve list \<Rightarrow> (split_failure, gridPlan option list) result" where
  "gridFamilyPlans quantum divisions curves =
     (if curves = [] then Inr (no_curve_plans divisions)
      else rbind (quote_rows quantum None divisions None 0 curves) (\<lambda>rows.
        Inr (foldl (grid_step divisions) (no_curve_plans divisions) rows)))"

text \<open>The direct loop for two curves.\<close>

definition try_pair ::
  "memoCurve \<Rightarrow> memoCurve \<Rightarrow> int \<Rightarrow> int \<Rightarrow> nat \<Rightarrow> gridPlan option \<Rightarrow> nat option \<times> nat \<Rightarrow> (split_failure, gridPlan option) result" where
  "try_pair c0 c1 quantum remainder divisions best choice =
     (case choice of (recipient, leftUnits) \<Rightarrow>
      let left = quantum * int leftUnits + (if recipient = Some 0 then remainder else 0);
          right = quantum * int (divisions - leftUnits) + (if recipient = Some 1 then remainder else 0) in
      rbind (curve_at c0 left) (\<lambda>leftOutput.
      rbind (curve_at c1 right) (\<lambda>rightOutput.
        let candidate = Some \<lparr>gp_amounts = [left, right], gp_output = leftOutput + rightOutput\<rparr> in
        Inr (if betterGridPlan candidate best then candidate else best))))"

definition try_recipient ::
  "int \<Rightarrow> int \<Rightarrow> nat \<Rightarrow> memoCurve list \<Rightarrow> gridPlan option \<Rightarrow> nat \<Rightarrow> (split_failure, gridPlan option) result" where
  "try_recipient quantum remainder divisions curves best recipient =
     rbind (gridFamilyPlansWithRemainder quantum (Some remainder) divisions curves (Some recipient)) (\<lambda>plans.
       Inr (if betterGridPlan (plans ! divisions) best then plans ! divisions else best))"

definition gridFamilyBestWithRemainder ::
  "int \<Rightarrow> int \<Rightarrow> nat \<Rightarrow> memoCurve list \<Rightarrow> (split_failure, gridPlan option) result" where
  "gridFamilyBestWithRemainder quantum remainder divisions curves =
     (case curves of
        [] \<Rightarrow> Inl SplitNoOutput
      | [curve] \<Rightarrow>
          let amount = quantum * int divisions + remainder in
          rbind (curve_at curve amount) (\<lambda>out. Inr (Some \<lparr>gp_amounts = [amount], gp_output = out\<rparr>))
      | [c0, c1] \<Rightarrow>
          foldM (try_pair c0 c1 quantum remainder divisions) None
            (concat (map (\<lambda>recipient. map (\<lambda>leftUnits. (recipient, leftUnits)) [0..<Suc divisions])
              (if remainder > 0 then [Some 0, Some 1] else [None])))
      | _ \<Rightarrow>
          if remainder = 0
          then rbind (gridFamilyPlansWithRemainder quantum None divisions curves None) (\<lambda>plans. Inr (plans ! divisions))
          else foldM (try_recipient quantum remainder divisions curves) None [0..<length curves])"

definition gridFamilyBest :: "int \<Rightarrow> nat \<Rightarrow> memoCurve list \<Rightarrow> (split_failure, gridPlan option \<times> bool) result" where
  "gridFamilyBest amount divisions curves =
     (if amount = 0 then Inr (Some \<lparr>gp_amounts = zeroAllocation (length curves), gp_output = 0\<rparr>, True)
      else
        let effective = effectiveGridDivisions amount divisions;
            quantum = bigQuo amount (int effective); remainder = bigRem amount (int effective) in
        rbind (gridFamilyBestWithRemainder quantum remainder effective curves) (\<lambda>best. Inr (best, quantum = 1)))"

section \<open>Two stages\<close>

text \<open>
  The evaluation of a pair of plans, with whether its second stage is exact. The best plan of a
  family with curves is always valid; should it not be, the flow has no output.
\<close>

definition evaluate_grid ::
  "nat \<Rightarrow> memoCurve list \<Rightarrow> gridPlan option \<Rightarrow> gridPlan option \<Rightarrow> (split_failure, gridFlow option \<times> bool) result" where
  "evaluate_grid divisions second directPlan firstPlan =
     (case (directPlan, firstPlan) of
        (Some d, Some f) \<Rightarrow>
          let flow = (\<lambda>s. \<lparr>gf_direct = d, gf_first = f, gf_second = s, gf_intermediate = gp_output f, gf_output = gp_output d + gp_output s\<rparr>) in
          if gp_output f > 0
          then rbind (gridFamilyBest (gp_output f) divisions second) (\<lambda>(plan, exact). Inr (map_option flow plan, exact))
          else Inr (Some (flow \<lparr>gp_amounts = zeroAllocation (length second), gp_output = 0\<rparr>), True)
      | _ \<Rightarrow> Inr (None, True))"

definition keep_flow :: "gridFlow option \<times> bool \<Rightarrow> gridFlow option \<times> bool \<Rightarrow> gridFlow option \<times> bool" where
  "keep_flow acc current =
     (if fst current = None then acc
      else (if betterGridFlow (fst current) (fst acc) then fst current else fst acc, snd acc \<and> snd current))"

definition try_flow ::
  "nat \<Rightarrow> memoCurve list \<Rightarrow> gridFlow option \<times> bool \<Rightarrow> gridPlan option \<times> gridPlan option \<Rightarrow> (split_failure, gridFlow option \<times> bool) result" where
  "try_flow divisions second acc plans = rbind (evaluate_grid divisions second (fst plans) (snd plans)) (\<lambda>current. Inr (keep_flow acc current))"

definition add_at :: "gridPlan \<Rightarrow> nat \<Rightarrow> int \<Rightarrow> int list" where
  "add_at plan index amount = (gp_amounts plan)[index := gp_amounts plan ! index + amount]"

definition try_direct_remainder ::
  "nat \<Rightarrow> memoCurve list \<Rightarrow> memoCurve list \<Rightarrow> int \<Rightarrow> gridFlow \<Rightarrow> gridFlow option \<times> bool \<Rightarrow> nat \<Rightarrow> (split_failure, gridFlow option \<times> bool) result" where
  "try_direct_remainder divisions direct second remainder base acc index =
     (let amounts = add_at (gf_direct base) index remainder in
      rbind (sumGridOutputs direct amounts) (\<lambda>out.
        try_flow divisions second acc (Some \<lparr>gp_amounts = amounts, gp_output = out\<rparr>, Some (gf_first base))))"

definition try_first_remainder ::
  "nat \<Rightarrow> memoCurve list \<Rightarrow> memoCurve list \<Rightarrow> int \<Rightarrow> gridFlow \<Rightarrow> gridFlow option \<times> bool \<Rightarrow> nat \<Rightarrow> (split_failure, gridFlow option \<times> bool) result" where
  "try_first_remainder divisions first second remainder base acc index =
     (let amounts = add_at (gf_first base) index remainder in
      rbind (sumGridOutputs first amounts) (\<lambda>out.
        try_flow divisions second acc (Some (gf_direct base), Some \<lparr>gp_amounts = amounts, gp_output = out\<rparr>)))"

definition place_remainder ::
  "nat \<Rightarrow> memoCurve list \<Rightarrow> memoCurve list \<Rightarrow> memoCurve list \<Rightarrow> int \<Rightarrow> gridFlow \<Rightarrow> bool \<Rightarrow> (split_failure, gridFlow option \<times> bool) result" where
  "place_remainder divisions direct first second remainder base exact =
     (if remainder > 0 then
        rbind (foldM (try_direct_remainder divisions direct second remainder base) (Some base, exact) [0..<length direct]) (\<lambda>acc.
          foldM (try_first_remainder divisions first second remainder base) acc [0..<length first])
      else Inr (Some base, exact))"

definition grid_result ::
  "memoCurve list \<Rightarrow> memoCurve list \<Rightarrow> memoCurve list \<Rightarrow> int \<Rightarrow> nat \<Rightarrow> gridFlow \<Rightarrow> bool \<Rightarrow> (split_failure, TwoStageSplitResult) result" where
  "grid_result direct first second amount effective best exact =
     (let quantum = bigQuo amount (int effective); remainder = bigRem amount (int effective) in
      rbind (materializeAllocations direct (gp_amounts (gf_direct best))) (\<lambda>directAllocations.
      rbind (materializeAllocations first (gp_amounts (gf_first best))) (\<lambda>firstAllocations.
      rbind (materializeAllocations second (gp_amounts (gf_second best))) (\<lambda>secondAllocations.
        Inr \<lparr>ts_Direct = directAllocations, ts_FirstStage = firstAllocations, ts_SecondStage = secondAllocations,
          ts_TotalInput = Some amount, ts_IntermediateOut = Some (gf_intermediate best), ts_TotalOutput = Some (gf_output best),
          ts_InputResolution = Some quantum, ts_GridDivisions = effective, ts_GridVerified = (remainder = 0),
          ts_PairwiseOptimal = False, ts_GloballyVerified = (quantum = 1 \<and> exact)\<rparr>))))"

definition grid_search ::
  "memoCurve list \<Rightarrow> memoCurve list \<Rightarrow> memoCurve list \<Rightarrow> int \<Rightarrow> nat \<Rightarrow> (split_failure, TwoStageSplitResult) result" where
  "grid_search direct first second amount divisions =
     (let effective = effectiveGridDivisions amount divisions;
          quantum = bigQuo amount (int effective); remainder = bigRem amount (int effective) in
      rbind (gridFamilyPlans quantum effective direct) (\<lambda>directPlans.
      rbind (gridFamilyPlans quantum effective first) (\<lambda>firstPlans.
      rbind (foldM (try_flow divisions second) (None, True)
               (map (\<lambda>firstUnits. (directPlans ! (effective - firstUnits), firstPlans ! firstUnits)) [0..<Suc effective])) (\<lambda>(best, exact).
        case best of
          None \<Rightarrow> Inl SplitNoFeasible
        | Some base \<Rightarrow>
            rbind (place_remainder divisions direct first second remainder base exact) (\<lambda>(final, exact').
              case final of
                None \<Rightarrow> Inl SplitNoFeasible
              | Some flow \<Rightarrow> grid_result direct first second amount effective flow exact')))))"

definition OptimizeTwoStageSplitGrid :: "bool \<Rightarrow> GridTwoStageSplitRequest \<Rightarrow> (split_failure, TwoStageSplitResult) result" where
  "OptimizeTwoStageSplitGrid ctxErr r =
     (if ctxErr then Inl SplitContext
      else case gr_TotalInput r of
        None \<Rightarrow> Inl SplitTotalInput
      | Some amount \<Rightarrow>
          if amount \<le> 0 then Inl SplitTotalInput
          else if gr_Direct r = [] \<and> gr_FirstStage r = [] then Inl SplitNoCurves
          else if (gr_FirstStage r = []) \<noteq> (gr_SecondStage r = []) then Inl SplitStages
          else
            let divisions = (if gr_Divisions r = 0 then 32 else gr_Divisions r) in
            if divisions < 2 \<or> divisions > 1024 then Inl SplitLimits
            else
              rbind (newUncachedCurves (gr_Direct r)) (\<lambda>direct.
              rbind (newUncachedCurves (gr_FirstStage r)) (\<lambda>first.
              rbind (newUncachedCurves (gr_SecondStage r)) (\<lambda>second.
              check (uniqueCurveIDs [direct, first, second]) (grid_search direct first second amount (nat divisions))))))"

section \<open>Folds that keep the better candidate\<close>

text \<open>
  Plans and flows are compared alike: an absent candidate never wins, any candidate beats an absent
  one, and otherwise the larger output wins, with some rule for ties.
\<close>

locale better_order =
  fixes better :: "'a option \<Rightarrow> 'a option \<Rightarrow> bool" and val :: "'a \<Rightarrow> int"
  assumes absent: "\<not> better None b"
    and beats_absent: "better (Some p) None"
    and wins: "better (Some p) (Some q) \<Longrightarrow> val q \<le> val p"
    and loses: "\<not> better (Some p) (Some q) \<Longrightarrow> val p \<le> val q"
begin

definition at_most :: "'a option \<Rightarrow> 'a option \<Rightarrow> bool" where
  "at_most a b \<longleftrightarrow> (\<forall>p. a = Some p \<longrightarrow> (\<exists>q. b = Some q \<and> val p \<le> val q))"

lemma at_most_refl: "at_most a a"
  by (simp add: at_most_def)

lemma at_most_trans: "at_most a b \<Longrightarrow> at_most b c \<Longrightarrow> at_most a c"
  by (fastforce simp: at_most_def)

lemma keeps: "at_most a (if better c a then c else a)" "at_most c (if better c a then c else a)"
  by (cases a; cases c; auto simp: at_most_def absent beats_absent intro: wins loses)+

lemma fold_best:
  assumes "foldM (\<lambda>acc x. rbind (h x) (\<lambda>c. Inr (upd acc c))) acc xs = Inr r"
    and upd: "\<And>acc c. best (upd acc c) = (if better (cand c) (best acc) then cand c else best acc)"
  shows "at_most (best acc) (best r) \<and> (\<forall>x \<in> set xs. \<exists>c. h x = Inr c \<and> at_most (cand c) (best r)) \<and>
    (best r = best acc \<or> (\<exists>x \<in> set xs. \<exists>c. h x = Inr c \<and> best r = cand c))"
  using assms(1)
proof (induction xs arbitrary: acc)
  case (Cons x xs)
  obtain c where c: "h x = Inr c" using Cons.prems by (cases "h x") simp_all
  with Cons.prems have "foldM (\<lambda>acc x. rbind (h x) (\<lambda>c. Inr (upd acc c))) (upd acc c) xs = Inr r" by simp
  note ih = Cons.IH [OF this]
  have "at_most (best acc) (best (upd acc c))" "at_most (cand c) (best (upd acc c))" unfolding upd by (rule keeps)+
  moreover have "best (upd acc c) = best acc \<or> best (upd acc c) = cand c" by (simp add: upd)
  ultimately show ?case using ih c by (auto intro: at_most_trans)
qed (simp add: at_most_refl)

lemma foldl_best:
  fixes g :: "'x \<Rightarrow> 'a option"
  defines "r acc xs \<equiv> foldl (\<lambda>acc x. if better (g x) acc then g x else acc) acc xs"
  shows "at_most acc (r acc xs)" "x \<in> set xs \<Longrightarrow> at_most (g x) (r acc xs)" "r acc xs = acc \<or> (\<exists>x \<in> set xs. r acc xs = g x)"
proof -
  have "foldM (\<lambda>acc x. rbind (Inr (g x) :: (unit, _) result) (\<lambda>c. Inr (if better c acc then c else acc))) acc xs = Inr (r acc xs)"
    unfolding r_def by (induction xs arbitrary: acc) simp_all
  from fold_best [OF this, where best = "\<lambda>x. x" and cand = "\<lambda>x. x"]
  show "at_most acc (r acc xs)" "x \<in> set xs \<Longrightarrow> at_most (g x) (r acc xs)" "r acc xs = acc \<or> (\<exists>x \<in> set xs. r acc xs = g x)"
    by (auto dest: sym)
qed

end

interpretation plans: better_order betterGridPlan gp_output
  by unfold_locales (auto simp: betterGridPlan_def)

interpretation flows: better_order betterGridFlow gf_output
  by unfold_locales (auto simp: betterGridFlow_def split: if_splits)

section \<open>Dynamic programming\<close>

text \<open>The amounts and the output of a choice of units, one number for each row of quotes.\<close>

definition chosen_amounts :: "(int \<times> int) list list \<Rightarrow> nat list \<Rightarrow> int list" where
  "chosen_amounts rows us = map2 (\<lambda>row u. fst (row ! u)) rows us"

definition chosen_output :: "(int \<times> int) list list \<Rightarrow> nat list \<Rightarrow> int" where
  "chosen_output rows us = sum_list (map2 (\<lambda>row u. snd (row ! u)) rows us)"

definition cell_ok :: "(int \<times> int) list list \<Rightarrow> nat \<Rightarrow> gridPlan option \<Rightarrow> bool" where
  "cell_ok rows t plan \<longleftrightarrow>
     (\<forall>p. plan = Some p \<longrightarrow> (\<exists>us. length us = length rows \<and> sum_list us = t \<and>
        gp_amounts p = chosen_amounts rows us \<and> gp_output p = chosen_output rows us)) \<and>
     (\<forall>us. length us = length rows \<longrightarrow> sum_list us = t \<longrightarrow> (\<exists>p. plan = Some p \<and> chosen_output rows us \<le> gp_output p))"

lemma chosen_snoc:
  assumes "length us = length rows"
  shows "chosen_amounts (rows @ [row]) (us @ [u]) = chosen_amounts rows us @ [fst (row ! u)]"
    "chosen_output (rows @ [row]) (us @ [u]) = chosen_output rows us + snd (row ! u)"
  using assms by (simp_all add: chosen_amounts_def chosen_output_def)

definition extended :: "(int \<times> int) list \<Rightarrow> nat \<Rightarrow> gridPlan \<Rightarrow> gridPlan" where
  "extended row u prefix = \<lparr>gp_amounts = gp_amounts prefix @ [fst (row ! u)], gp_output = gp_output prefix + snd (row ! u)\<rparr>"

lemma try_units_better:
  "try_units previous row t = (\<lambda>acc u. if betterGridPlan (map_option (extended row u) (previous ! (t - u))) acc
     then map_option (extended row u) (previous ! (t - u)) else acc)"
  by (intro ext) (auto simp: try_units_def extended_def Let_def betterGridPlan_def split: option.splits)

lemma grid_cell_ok:
  assumes prev: "\<And>s. s \<le> t \<Longrightarrow> cell_ok rows s (previous ! s)"
  shows "cell_ok (rows @ [row]) t (grid_cell previous row t)"
proof -
  let ?g = "\<lambda>u. map_option (extended row u) (previous ! (t - u))"
  let ?r = "grid_cell previous row t"
  have r: "?r = foldl (\<lambda>acc u. if betterGridPlan (?g u) acc then ?g u else acc) None [0..<Suc t]"
    by (simp only: grid_cell_def try_units_better)
  have sound: "\<exists>us. length us = length (rows @ [row]) \<and> sum_list us = t \<and> gp_amounts p = chosen_amounts (rows @ [row]) us \<and>
      gp_output p = chosen_output (rows @ [row]) us" if p: "?r = Some p" for p
  proof -
    from plans.foldl_best(3) [of ?g None "[0..<Suc t]", folded r] p
    obtain u where "u \<in> set [0..<Suc t]" "?g u = Some p" by (metis option.distinct(1))
    then have u: "u \<le> t" "?g u = Some p" by auto
    then obtain q where q: "previous ! (t - u) = Some q" "p = extended row u q" by auto
    with prev [of "t - u"] obtain us where us: "length us = length rows" "sum_list us = t - u"
      "gp_amounts q = chosen_amounts rows us" "gp_output q = chosen_output rows us" by (auto simp: cell_ok_def)
    then show ?thesis using u(1) q(2) by (intro exI [of _ "us @ [u]"]) (simp add: chosen_snoc extended_def)
  qed
  have best: "\<exists>p. ?r = Some p \<and> chosen_output (rows @ [row]) us \<le> gp_output p"
    if len: "length us = length (rows @ [row])" and total_units: "sum_list us = t" for us
  proof -
    obtain vs u where us: "us = vs @ [u]" "length vs = length rows" using len by (cases us rule: rev_cases) auto
    with total_units have sums: "u \<le> t" "sum_list vs = t - u" by auto
    with us(2) prev [of "t - u"] obtain q where q: "previous ! (t - u) = Some q" "chosen_output rows vs \<le> gp_output q"
      by (auto simp: cell_ok_def)
    have "plans.at_most (?g u) ?r" using plans.foldl_best(2) [of u "[0..<Suc t]" ?g None, folded r] sums(1) by (simp del: upt_Suc)
    with q us show ?thesis by (auto simp: plans.at_most_def chosen_snoc extended_def)
  qed
  from sound best show ?thesis by (simp add: cell_ok_def)
qed

lemma no_curve_plans_ok: "t \<le> d \<Longrightarrow> cell_ok [] t (no_curve_plans d ! t)"
  by (cases t) (auto simp: cell_ok_def no_curve_plans_def chosen_amounts_def chosen_output_def)

lemma grid_steps_ok:
  "t \<le> d \<Longrightarrow> cell_ok rows t (foldl (grid_step d) (no_curve_plans d) rows ! t)"
proof (induction rows arbitrary: t rule: rev_induct)
  case (snoc row rows)
  have "cell_ok (rows @ [row]) t (grid_cell (foldl (grid_step d) (no_curve_plans d) rows) row t)"
    using snoc by (intro grid_cell_ok) simp
  then show ?case using snoc.prems grid_step_def [of d "foldl (grid_step d) (no_curve_plans d) rows" row] by (simp del: upt_Suc)
qed (simp add: no_curve_plans_ok)

section \<open>Grids of allocations\<close>

fun grid_amounts :: "int \<Rightarrow> int option \<Rightarrow> nat option \<Rightarrow> nat \<Rightarrow> nat list \<Rightarrow> int list" where
  "grid_amounts q rm recipient i [] = []"
| "grid_amounts q rm recipient i (u # us) = unit_amount q rm (recipient = Some i) u # grid_amounts q rm recipient (Suc i) us"

definition unit_grid :: "int \<Rightarrow> int option \<Rightarrow> nat option \<Rightarrow> nat \<Rightarrow> nat \<Rightarrow> int list set" where
  "unit_grid q rm recipient n t = grid_amounts q rm recipient 0 ` {us. length us = n \<and> sum_list us = t}"

text \<open>The declared grid of a family: every division into steps, with the remainder on one curve.\<close>

definition declared_grid :: "int \<Rightarrow> int \<Rightarrow> nat \<Rightarrow> nat \<Rightarrow> int list set" where
  "declared_grid q rm n t = (\<Union>recipient < n. unit_grid q (Some rm) (Some recipient) n t)"

definition best_for :: "memoCurve list \<Rightarrow> int list set \<Rightarrow> gridPlan option \<Rightarrow> bool" where
  "best_for curves A plan \<longleftrightarrow>
     (\<forall>p. plan = Some p \<longrightarrow> gp_amounts p \<in> A \<and> family_output curves (gp_amounts p) = Inr (gp_output p)) \<and>
     (\<forall>xs \<in> A. \<exists>p w. plan = Some p \<and> family_output curves xs = Inr w \<and> w \<le> gp_output p)"

lemma quote_units_nth:
  "quote_units c f ns = Inr row \<Longrightarrow> k < length ns \<Longrightarrow> fst (row ! k) = f (ns ! k) \<and> curve_at c (f (ns ! k)) = Inr (snd (row ! k))"
proof (induction ns arbitrary: row k)
  case (Cons n ns)
  from Cons.prems(1) obtain out rest where run: "curve_at c (f n) = Inr out" "quote_units c f ns = Inr rest" "row = (f n, out) # rest"
    by (auto simp: rbind_eq_Inr)
  then show ?case using Cons.IH [OF run(2)] Cons.prems(2) by (cases k) simp_all
qed simp

lemma quote_rows_chosen:
  assumes "quote_rows q rm d recipient i cs = Inr rows" and "length us = length cs" and "\<forall>u \<in> set us. u \<le> d"
  shows "length rows = length cs \<and> chosen_amounts rows us = grid_amounts q rm recipient i us \<and>
    family_output cs (grid_amounts q rm recipient i us) = Inr (chosen_output rows us)"
  using assms
proof (induction cs arbitrary: i rows us)
  case Nil
  then show ?case by (simp add: chosen_amounts_def chosen_output_def)
next
  case (Cons c cs)
  from Cons.prems(1) obtain row rest where run: "quote_units c (unit_amount q rm (recipient = Some i)) [0..<Suc d] = Inr row"
      "quote_rows q rm d recipient (Suc i) cs = Inr rest" "rows = row # rest"
    by (auto simp: rbind_eq_Inr)
  obtain u vs where us: "us = u # vs" "length vs = length cs" "u \<le> d" using Cons.prems(2,3) by (cases us) auto
  have "fst (row ! u) = unit_amount q rm (recipient = Some i) u \<and> curve_at c (unit_amount q rm (recipient = Some i) u) = Inr (snd (row ! u))"
    using quote_units_nth [OF run(1), of u] us(3) by (simp del: upt_Suc)
  then show ?case using Cons.IH [OF run(2), of vs] Cons.prems(3) us run(3) by (simp add: chosen_amounts_def chosen_output_def)
qed

lemma sum_list_member_le: "u \<in> set us \<Longrightarrow> u \<le> sum_list (us :: nat list)"
  by (rule member_le_sum_list) simp_all

lemma family_plans_best:
  assumes plans: "gridFamilyPlansWithRemainder q rm d curves recipient = Inr plans" and t: "t \<le> d"
  shows "best_for curves (unit_grid q rm recipient (length curves) t) (plans ! t)"
proof (cases "curves = []")
  case True
  then show ?thesis using plans t no_curve_plans_ok [OF t]
    by (auto simp: gridFamilyPlansWithRemainder_def best_for_def unit_grid_def cell_ok_def chosen_amounts_def chosen_output_def)
next
  case False
  then obtain rows where rows: "quote_rows q rm d recipient 0 curves = Inr rows" "plans = foldl (grid_step d) (no_curve_plans d) rows"
    using plans by (auto simp: gridFamilyPlansWithRemainder_def rbind_eq_Inr)
  have chosen: "length rows = length curves \<and> chosen_amounts rows us = grid_amounts q rm recipient 0 us \<and>
      family_output curves (grid_amounts q rm recipient 0 us) = Inr (chosen_output rows us)"
    if "length us = length curves" "sum_list us = t" for us
    using quote_rows_chosen [OF rows(1) that(1)] that(2) t sum_list_member_le by (metis order_trans)
  have "length rows = length curves" using quote_rows_chosen [OF rows(1), of "replicate (length curves) 0"] by simp
  then show ?thesis using grid_steps_ok [OF t, of rows] chosen
    unfolding best_for_def unit_grid_def cell_ok_def rows(2) [symmetric] by (auto 0 3)
qed

lemma sum_grid_amounts:
  "sum_list (grid_amounts q rm recipient i us) = q * int (sum_list us) +
    (case (recipient, rm) of (Some j, Some x) \<Rightarrow> if i \<le> j \<and> j < i + length us then x else 0 | _ \<Rightarrow> 0)"
  by (induction us arbitrary: i) (auto simp: unit_amount_def algebra_simps split: option.splits)

lemma length_grid_amounts [simp]: "length (grid_amounts q rm recipient i us) = length us"
  by (induction us arbitrary: i) simp_all

lemma grid_amounts_zero: "rm \<in> {None, Some 0} \<Longrightarrow> grid_amounts q rm recipient i us = map (\<lambda>u. q * int u) us"
  by (induction us arbitrary: i) (auto simp: unit_amount_def)

lemma unit_grid_plain: "rm \<in> {None, Some 0} \<Longrightarrow> unit_grid q rm recipient n t = (\<lambda>us. map (\<lambda>u. q * int u) us) ` {us. length us = n \<and> sum_list us = t}"
  by (simp add: unit_grid_def grid_amounts_zero)

lemma declared_grid_no_remainder: "0 < n \<Longrightarrow> declared_grid q 0 n t = unit_grid q None None n t"
  by (auto simp: declared_grid_def unit_grid_plain)

lemma best_for_UN:
  assumes best: "foldM (\<lambda>acc x. rbind (h x) (\<lambda>c. Inr (if betterGridPlan c acc then c else acc))) None xs = Inr r"
    and each: "\<And>x c. x \<in> set xs \<Longrightarrow> h x = Inr c \<Longrightarrow> best_for curves (A x) c"
  shows "best_for curves (\<Union>x \<in> set xs. A x) r"
proof -
  note f = plans.fold_best [OF best, where best = "\<lambda>x. x" and cand = "\<lambda>x. x", OF refl]
  have "gp_amounts p \<in> (\<Union>x \<in> set xs. A x) \<and> family_output curves (gp_amounts p) = Inr (gp_output p)" if "r = Some p" for p
    using f each that unfolding best_for_def by blast
  moreover have "\<exists>p w. r = Some p \<and> family_output curves ys = Inr w \<and> w \<le> gp_output p" if ys: "x \<in> set xs" "ys \<in> A x" for x ys
  proof -
    from f ys(1) obtain c where c: "h x = Inr c" "plans.at_most c r" by blast
    from each [OF ys(1) c(1)] ys(2) obtain p w where "c = Some p" "family_output curves ys = Inr w" "w \<le> gp_output p"
      unfolding best_for_def by blast
    with c(2) show ?thesis by (fastforce simp: plans.at_most_def)
  qed
  ultimately show ?thesis unfolding best_for_def by blast
qed

lemma two_units: "{us. length us = 2 \<and> sum_list us = (d :: nat)} = (\<lambda>u. [u, d - u]) ` {..d}"
  by (fastforce simp: numeral_2_eq_2 length_Suc_conv)

text \<open>One choice of the direct loop for two curves is the best of a singleton.\<close>

lemma rbind_assoc: "rbind (rbind m f) g = rbind m (\<lambda>x. rbind (f x) g)"
  by (cases m) simp_all

lemma unit_amount_Some: "unit_amount q (Some rm) b u = q * int u + (if b then rm else 0)"
  by (simp add: unit_amount_def)

lemma try_pair_form:
  "try_pair c0 c1 q rm d = (\<lambda>best x. rbind (case x of (recipient, u) \<Rightarrow>
     rbind (family_output [c0, c1] (grid_amounts q (Some rm) recipient 0 [u, d - u])) (\<lambda>out.
       Inr (Some \<lparr>gp_amounts = grid_amounts q (Some rm) recipient 0 [u, d - u], gp_output = out\<rparr>)))
     (\<lambda>c. Inr (if betterGridPlan c best then c else best)))"
  by (intro ext) (simp add: try_pair_def unit_amount_Some rbind_assoc Let_def split_beta)

lemma pair_best:
  assumes "foldM (try_pair c0 c1 q rm d) None (concat (map (\<lambda>recipient. map (\<lambda>u. (recipient, u)) [0..<Suc d]) recipients)) = Inr r"
  shows "best_for [c0, c1] (\<Union>recipient \<in> set recipients. unit_grid q (Some rm) recipient 2 d) r"
proof -
  let ?A = "\<lambda>x. case x of (recipient, u) \<Rightarrow> {grid_amounts q (Some rm) recipient 0 [u, d - u]}"
  have "best_for [c0, c1] (\<Union>x \<in> set (concat (map (\<lambda>recipient. map (\<lambda>u. (recipient, u)) [0..<Suc d]) recipients)). ?A x) r"
    by (rule best_for_UN [OF assms [unfolded try_pair_form]])
      (auto simp: best_for_def rbind_eq_Inr simp del: grid_amounts.simps family_output_simps)
  moreover have "(\<Union>x \<in> set (concat (map (\<lambda>recipient. map (\<lambda>u. (recipient, u)) [0..<Suc d]) recipients)). ?A x) =
      (\<Union>recipient \<in> set recipients. unit_grid q (Some rm) recipient 2 d)"
  proof -
    have "set [0..<Suc d] = {..d}" by auto
    then show ?thesis by (simp add: unit_grid_def two_units image_image UN_singleton del: grid_amounts.simps upt_Suc) blast
  qed
  ultimately show ?thesis by simp
qed

lemma recipients_best:
  assumes "foldM (try_recipient q rm d curves) None [0..<length curves] = Inr r"
  shows "best_for curves (declared_grid q rm (length curves) d) r"
proof -
  have form: "try_recipient q rm d curves = (\<lambda>best j. rbind (rbind (gridFamilyPlansWithRemainder q (Some rm) d curves (Some j))
      (\<lambda>plans. Inr (plans ! d))) (\<lambda>c. Inr (if betterGridPlan c best then c else best)))"
    by (intro ext) (simp add: try_recipient_def rbind_def split: sum.splits)
  have "best_for curves (\<Union>j \<in> set [0..<length curves]. unit_grid q (Some rm) (Some j) (length curves) d) r"
    by (rule best_for_UN [OF assms [unfolded form]]) (auto simp: rbind_eq_Inr intro: family_plans_best)
  then show ?thesis by (simp add: declared_grid_def atLeast0LessThan lessThan_def)
qed

lemma up_to_two_cases [case_names 1 2 3 4]:
  obtains "xs = []" | x where "xs = [x]" | x y where "xs = [x, y]" | x y z zs where "xs = x # y # z # zs"
proof (cases xs)
  case (Cons x ys)
  then show ?thesis using that by (cases ys; cases "tl ys") simp_all
qed (rule that(1))

lemma family_best_one:
  assumes "gridFamilyBestWithRemainder q rm d [c] = Inr r"
  shows "best_for [c] (declared_grid q rm 1 d) r"
proof -
  have "{us. length us = Suc 0 \<and> sum_list us = d} = {[d]}" by (auto simp: length_Suc_conv)
  then have grid: "declared_grid q rm 1 d = {[q * int d + rm]}" by (simp add: declared_grid_def unit_grid_def unit_amount_def lessThan_Suc)
  from assms obtain out where "curve_at c (q * int d + rm) = Inr out" "r = Some \<lparr>gp_amounts = [q * int d + rm], gp_output = out\<rparr>"
    unfolding gridFamilyBestWithRemainder_def list.case Let_def by (auto simp: rbind_eq_Inr)
  then show ?thesis unfolding grid best_for_def by simp
qed

lemma family_best_two:
  assumes "gridFamilyBestWithRemainder q rm d [c0, c1] = Inr r" and "0 \<le> rm"
  shows "best_for [c0, c1] (declared_grid q rm 2 d) r"
proof -
  have "foldM (try_pair c0 c1 q rm d) None (concat (map (\<lambda>recipient. map (\<lambda>u. (recipient, u)) [0..<Suc d])
      (if rm > 0 then [Some 0, Some 1] else [None]))) = Inr r"
    using assms(1) unfolding gridFamilyBestWithRemainder_def list.case .
  note best = pair_best [OF this]
  have two: "{..<2 :: nat} = {0, 1}" by auto
  show ?thesis
  proof (cases "rm = 0")
    case True
    then show ?thesis using best by (simp add: declared_grid_no_remainder unit_grid_plain)
  next
    case False
    then show ?thesis using best assms(2) by (simp add: declared_grid_def two)
  qed
qed

lemma family_best_more:
  assumes run: "gridFamilyBestWithRemainder q rm d (c0 # c1 # c2 # cs) = Inr r"
  shows "best_for (c0 # c1 # c2 # cs) (declared_grid q rm (length (c0 # c1 # c2 # cs)) d) r"
proof -
  define curves where "curves = c0 # c1 # c2 # cs"
  have "gridFamilyBestWithRemainder q rm d curves =
      (if rm = 0 then rbind (gridFamilyPlansWithRemainder q None d curves None) (\<lambda>plans. Inr (plans ! d))
       else foldM (try_recipient q rm d curves) None [0..<length curves])"
    unfolding gridFamilyBestWithRemainder_def curves_def list.case ..
  note many = run [folded curves_def, unfolded this]
  have some: "curves \<noteq> []" "0 < length curves" by (simp_all add: curves_def)
  show ?thesis unfolding curves_def [symmetric]
  proof (cases "rm = 0")
    case True
    then obtain plans where "gridFamilyPlansWithRemainder q None d curves None = Inr plans" "r = plans ! d"
      using many by (auto simp: rbind_eq_Inr)
    then show "best_for curves (declared_grid q rm (length curves) d) r"
      using some True family_plans_best [of q None d curves None plans d] by (simp add: declared_grid_no_remainder)
  next
    case False
    then show "best_for curves (declared_grid q rm (length curves) d) r" using many recipients_best by simp
  qed
qed

lemma family_best_with_remainder:
  assumes "gridFamilyBestWithRemainder q rm d curves = Inr r" and "0 \<le> rm"
  shows "curves \<noteq> [] \<and> best_for curves (declared_grid q rm (length curves) d) r"
proof (cases curves rule: up_to_two_cases)
  case 1
  then show ?thesis using assms(1) by (simp add: gridFamilyBestWithRemainder_def)
next
  case (2 c)
  then show ?thesis using family_best_one assms(1) by simp
next
  case (3 c0 c1)
  then show ?thesis using family_best_two [of q rm d c0 c1] assms by (simp add: numeral_2_eq_2)
next
  case (4 c0 c1 c2 cs)
  show ?thesis unfolding 4 using family_best_more assms(1) 4 by blast
qed

lemma effective_bounds:
  assumes "0 < amount" and "0 < d"
  shows "0 < effectiveGridDivisions amount d" "effectiveGridDivisions amount d \<le> d" "int (effectiveGridDivisions amount d) \<le> amount \<or> effectiveGridDivisions amount d = d"
  using assms by (auto simp: effectiveGridDivisions_def)

lemma bigQuo_bigRem: "0 \<le> a \<Longrightarrow> 0 < n \<Longrightarrow> bigQuo a (int n) = a div int n \<and> bigRem a (int n) = a mod int n"
  by (simp add: bigQuo_nonneg bigRem_def minus_mult_div_eq_mod)

lemma declared_grid_sum:
  assumes "xs \<in> declared_grid q rm n t"
  shows "sum_list xs = q * int t + rm \<and> length xs = n"
proof -
  obtain j us where "j < n" "length us = n" "sum_list us = t" "xs = grid_amounts q (Some rm) (Some j) 0 us"
    using assms by (auto simp: declared_grid_def unit_grid_def)
  then show ?thesis by (simp add: sum_grid_amounts)
qed

lemma grid_amounts_nonneg: "0 \<le> q \<Longrightarrow> (\<forall>x. rm = Some x \<longrightarrow> 0 \<le> x) \<Longrightarrow> list_all (\<lambda>a. 0 \<le> a) (grid_amounts q rm recipient i us)"
  by (induction us arbitrary: i) (auto simp: unit_amount_def split: option.splits)

lemma declared_grid_nonempty:
  assumes "0 < n"
  shows "grid_amounts q (Some rm) (Some 0) 0 (t # replicate (n - 1) 0) \<in> declared_grid q rm n t"
  using assms unfolding declared_grid_def unit_grid_def
  by (intro UN_I [of 0] imageI) (auto simp: sum_list_replicate)

lemma family_best:
  assumes run: "gridFamilyBest amount d curves = Inr (plan, exact)" and pos: "0 < amount" "0 < d"
  defines "n \<equiv> effectiveGridDivisions amount d"
  obtains p where "plan = Some p" "curves \<noteq> []" "best_for curves (declared_grid (amount div int n) (amount mod int n) (length curves) n) plan"
    "length (gp_amounts p) = length curves" "allocationConserves (gp_amounts p) amount" "family_output curves (gp_amounts p) = Inr (gp_output p)"
proof -
  have n: "0 < n" unfolding n_def by (rule effective_bounds(1) [OF pos])
  let ?q = "amount div int n" and ?r = "amount mod int n"
  have "gridFamilyBestWithRemainder ?q ?r n curves = Inr plan"
    using run pos n bigQuo_bigRem [of amount n] by (auto simp: gridFamilyBest_def Let_def rbind_eq_Inr n_def [symmetric])
  then have best: "curves \<noteq> []" "best_for curves (declared_grid ?q ?r (length curves) n) plan"
    using family_best_with_remainder n by auto
  then obtain p where p: "plan = Some p" using declared_grid_nonempty [of "length curves" ?q ?r n] by (auto simp: best_for_def)
  have member: "gp_amounts p \<in> declared_grid ?q ?r (length curves) n" "family_output curves (gp_amounts p) = Inr (gp_output p)"
    using best(2) p by (auto simp: best_for_def)
  have "sum_list (gp_amounts p) = amount" "length (gp_amounts p) = length curves"
    using declared_grid_sum [OF member(1)] by simp_all
  moreover have "list_all (\<lambda>a. 0 \<le> a) (gp_amounts p)"
    using member(1) pos n by (auto simp: declared_grid_def unit_grid_def intro!: grid_amounts_nonneg pos_imp_zdiv_nonneg_iff [THEN iffD2])
  ultimately show thesis using that p best member(2) by (simp add: allocationConserves_def)
qed

text \<open>
  C16: the dynamic programme of one stage is exhaustive on its declared grid: it divides the whole
  amount, quotes it exactly, and no division into equal steps with the indivisible remainder on
  any one curve gives more, for every number of curves and through each of its three code paths.
\<close>

theorem grid_family_optimal:
  assumes "gridFamilyBest amount d curves = Inr (plan, exact)" and "0 < amount" and "0 < d"
  shows "\<exists>p. plan = Some p \<and> length (gp_amounts p) = length curves \<and> allocationConserves (gp_amounts p) amount \<and>
    family_output curves (gp_amounts p) = Inr (gp_output p) \<and>
    (let n = effectiveGridDivisions amount d in
     gp_amounts p \<in> declared_grid (amount div int n) (amount mod int n) (length curves) n \<and>
     (\<forall>xs \<in> declared_grid (amount div int n) (amount mod int n) (length curves) n.
        \<exists>w. family_output curves xs = Inr w \<and> w \<le> gp_output p))"
  by (rule family_best [OF assms]) (auto simp: best_for_def Let_def)

section \<open>Flows\<close>

definition priced :: "memoCurve list \<Rightarrow> gridPlan \<Rightarrow> int \<Rightarrow> bool" where
  "priced curves p amount \<longleftrightarrow> length (gp_amounts p) = length curves \<and> allocationConserves (gp_amounts p) amount \<and>
     family_output curves (gp_amounts p) = Inr (gp_output p)"

text \<open>The divisions that the second stage of a flow is searched over.\<close>

definition second_grid :: "nat \<Rightarrow> int \<Rightarrow> nat \<Rightarrow> int list set" where
  "second_grid d m k = (if m = 0 then {zeroAllocation k}
     else let n = effectiveGridDivisions m d in declared_grid (m div int n) (m mod int n) k n)"

definition grid_flow_ok :: "nat \<Rightarrow> memoCurve list \<Rightarrow> gridPlan \<Rightarrow> gridPlan \<Rightarrow> gridFlow \<Rightarrow> bool" where
  "grid_flow_ok d second dp fp flow \<longleftrightarrow> gf_direct flow = dp \<and> gf_first flow = fp \<and> gf_intermediate flow = gp_output fp \<and>
     priced second (gf_second flow) (gp_output fp) \<and> gf_output flow = gp_output dp + gp_output (gf_second flow) \<and>
     (\<forall>zs \<in> second_grid d (gp_output fp) (length second). \<forall>w. family_output second zs = Inr w \<longrightarrow> w \<le> gp_output (gf_second flow))"

lemma evaluate_grid_ok:
  assumes run: "evaluate_grid d second (Some dp) (Some fp) = Inr (flow, exact)" and pos: "0 < d" "0 \<le> gp_output fp"
  shows "\<exists>g. flow = Some g \<and> grid_flow_ok d second dp fp g"
proof (cases "gp_output fp = 0")
  case True
  then show ?thesis using run family_output_zero [of second] zeroAllocation_conserves [of "length second"]
    by (auto simp: evaluate_grid_def grid_flow_ok_def priced_def second_grid_def zeroAllocation_def)
next
  case False
  then obtain plan where plan: "gridFamilyBest (gp_output fp) d second = Inr (plan, exact)"
      "flow = map_option (\<lambda>s. \<lparr>gf_direct = dp, gf_first = fp, gf_second = s, gf_intermediate = gp_output fp, gf_output = gp_output dp + gp_output s\<rparr>) plan"
    using run pos(2) by (auto simp: evaluate_grid_def rbind_eq_Inr Let_def)
  have "0 < gp_output fp" using False pos(2) by simp
  obtain p where p: "plan = Some p" "best_for second (second_grid d (gp_output fp) (length second)) plan" "priced second p (gp_output fp)"
    by (rule family_best [OF plan(1) \<open>0 < gp_output fp\<close> pos(1)]) (simp add: priced_def second_grid_def Let_def False)
  have "\<forall>zs \<in> second_grid d (gp_output fp) (length second). \<forall>w. family_output second zs = Inr w \<longrightarrow> w \<le> gp_output p"
    using p(1,2) by (fastforce simp: best_for_def)
  then show ?thesis using plan(2) p(1,3) by (simp add: grid_flow_ok_def)
qed

lemma try_flow_form: "try_flow d second = (\<lambda>acc x. rbind (evaluate_grid d second (fst x) (snd x)) (\<lambda>c. Inr (keep_flow acc c)))"
  by (intro ext) (simp add: try_flow_def)

lemma keep_flow_best: "fst (keep_flow acc c) = (if betterGridFlow (fst c) (fst acc) then fst c else fst acc)"
  by (auto simp: keep_flow_def betterGridFlow_def)

lemmas try_flow_best = flows.fold_best [where best = fst and cand = fst and upd = keep_flow, OF _ keep_flow_best]

lemma gridFamilyPlans_None: "gridFamilyPlans q d curves = gridFamilyPlansWithRemainder q None d curves None"
  by (simp add: gridFamilyPlans_def gridFamilyPlansWithRemainder_def)

lemma plan_priced:
  assumes "gridFamilyPlans q d curves = Inr plans" "t \<le> d" "plans ! t = Some p" "0 \<le> q"
  shows "priced curves p (q * int t)"
proof -
  have "best_for curves (unit_grid q None None (length curves) t) (Some p)"
    using family_plans_best [of q None d curves None plans t] assms(1-3) by (simp add: gridFamilyPlans_None)
  then obtain us where us: "length us = length curves" "sum_list us = t" "gp_amounts p = grid_amounts q None None 0 us"
      "family_output curves (gp_amounts p) = Inr (gp_output p)"
    by (auto simp: best_for_def unit_grid_def)
  then show ?thesis using grid_amounts_nonneg [OF assms(4), of None None 0 us]
    by (simp add: priced_def allocationConserves_def sum_grid_amounts)
qed

lemma priced_nonneg: "priced curves p amount \<Longrightarrow> 0 \<le> gp_output p"
  by (auto simp: priced_def dest: family_output_nonneg)

text \<open>The outer loop: what it keeps is a flow of one of its jobs, and at least as good as all of them.\<close>

definition jobs :: "gridPlan option list \<Rightarrow> gridPlan option list \<Rightarrow> nat \<Rightarrow> (gridPlan option \<times> gridPlan option) list" where
  "jobs directPlans firstPlans n = map (\<lambda>u. (directPlans ! (n - u), firstPlans ! u)) [0..<Suc n]"

lemma jobs_best:
  assumes run: "foldM (try_flow d second) (None, True) (jobs dps fps n) = Inr (Some base, exact)"
    and plans: "gridFamilyPlans q n direct = Inr dps" "gridFamilyPlans q n first = Inr fps" and pos: "0 < d" "0 \<le> q"
  shows "\<exists>u dp fp. u \<le> n \<and> dps ! (n - u) = Some dp \<and> fps ! u = Some fp \<and> grid_flow_ok d second dp fp base"
    "u \<le> n \<Longrightarrow> dps ! (n - u) = Some dp \<Longrightarrow> fps ! u = Some fp \<Longrightarrow> \<exists>g. grid_flow_ok d second dp fp g \<and> gf_output g \<le> gf_output base"
proof -
  note f = try_flow_best [OF run [unfolded try_flow_form]]
  have job: "\<exists>g. c = Some g \<and> grid_flow_ok d second dp fp g" if "fps ! u = Some fp" "u \<le> n" "evaluate_grid d second (Some dp) (Some fp) = Inr (c, e)" for u c e dp fp
    using evaluate_grid_ok [OF that(3) pos(1)] plan_priced [OF plans(2) that(2,1) pos(2), THEN priced_nonneg] by simp
  from f obtain x c e where x: "x \<in> set (jobs dps fps n)" "evaluate_grid d second (fst x) (snd x) = Inr (c, e)" "c = Some base" by fastforce
  from x(1) obtain v where v: "v \<le> n" "x = (dps ! (n - v), fps ! v)" by (auto simp: jobs_def less_Suc_eq_le simp del: upt_Suc)
  from x(2,3) v obtain da fa where "dps ! (n - v) = Some da" "fps ! v = Some fa" by (auto simp: evaluate_grid_def split: option.splits)
  then show "\<exists>u dp fp. u \<le> n \<and> dps ! (n - u) = Some dp \<and> fps ! u = Some fp \<and> grid_flow_ok d second dp fp base"
    using job [of v fa da c e] x v by auto
  show "\<exists>g. grid_flow_ok d second dp fp g \<and> gf_output g \<le> gf_output base" if u: "u \<le> n" "dps ! (n - u) = Some dp" "fps ! u = Some fp"
  proof -
    have "(dps ! (n - u), fps ! u) \<in> set (jobs dps fps n)" using u(1) by (auto simp: jobs_def simp del: upt_Suc)
    with f obtain c e where c: "evaluate_grid d second (Some dp) (Some fp) = Inr (c, e)" "flows.at_most c (Some base)" using u(2,3) by fastforce
    then show ?thesis using job [OF u(3,1) c(1)] by (auto simp: flows.at_most_def)
  qed
qed

section \<open>The remainder and the result\<close>

lemma sumGridOutputs_family: "sumGridOutputs = family_output"
  by (intro ext) (simp add: sumGridOutputs_def family_output_def)

text \<open>A flow with \<open>amount\<close> on the direct and first-stage curves together.\<close>

definition flow_over :: "nat \<Rightarrow> memoCurve list \<Rightarrow> memoCurve list \<Rightarrow> memoCurve list \<Rightarrow> int \<Rightarrow> gridFlow \<Rightarrow> bool" where
  "flow_over d direct first second amount g \<longleftrightarrow> (\<exists>x y. priced direct (gf_direct g) x \<and> priced first (gf_first g) y \<and> x + y = amount \<and>
     grid_flow_ok d second (gf_direct g) (gf_first g) g)"

lemma sum_list_update_int: "i < length xs \<Longrightarrow> sum_list (xs[i := v]) = sum_list xs - xs ! i + (v :: int)"
proof (induction xs arbitrary: i)
  case (Cons x xs)
  then show ?case by (cases i) simp_all
qed simp

lemma add_at_conserves:
  assumes "allocationConserves (gp_amounts p) x" "i < length (gp_amounts p)" "0 \<le> rm"
  shows "allocationConserves (add_at p i rm) (x + rm)"
proof -
  have "list_all (\<lambda>a. 0 \<le> a) (add_at p i rm)" using assms by (auto simp: allocationConserves_def add_at_def list_all_length nth_list_update)
  then show ?thesis using assms by (simp add: allocationConserves_def add_at_def sum_list_update_int)
qed

lemma remainder_flow:
  assumes base: "flow_over d direct first second x g" and pos: "0 < d" "0 \<le> rm"
  shows "i < length direct \<Longrightarrow> family_output direct (add_at (gf_direct g) i rm) = Inr out \<Longrightarrow>
      evaluate_grid d second (Some \<lparr>gp_amounts = add_at (gf_direct g) i rm, gp_output = out\<rparr>) (Some (gf_first g)) = Inr (c, e) \<Longrightarrow>
      \<exists>h. c = Some h \<and> flow_over d direct first second (x + rm) h"
    "i < length first \<Longrightarrow> family_output first (add_at (gf_first g) i rm) = Inr out \<Longrightarrow>
      evaluate_grid d second (Some (gf_direct g)) (Some \<lparr>gp_amounts = add_at (gf_first g) i rm, gp_output = out\<rparr>) = Inr (c, e) \<Longrightarrow>
      \<exists>h. c = Some h \<and> flow_over d direct first second (x + rm) h"
proof -
  from base obtain xd xf where parts: "priced direct (gf_direct g) xd" "priced first (gf_first g) xf" "xd + xf = x" by (auto simp: flow_over_def)
  show "\<exists>h. c = Some h \<and> flow_over d direct first second (x + rm) h"
    if run: "i < length direct" "family_output direct (add_at (gf_direct g) i rm) = Inr out"
      "evaluate_grid d second (Some \<lparr>gp_amounts = add_at (gf_direct g) i rm, gp_output = out\<rparr>) (Some (gf_first g)) = Inr (c, e)"
  proof -
    let ?p = "\<lparr>gp_amounts = add_at (gf_direct g) i rm, gp_output = out\<rparr>"
    have p: "priced direct ?p (xd + rm)"
      using parts(1) run(1,2) add_at_conserves pos(2) by (simp add: priced_def add_at_def [of _ i rm, THEN arg_cong [where f = length]])
    obtain h where "c = Some h" "grid_flow_ok d second ?p (gf_first g) h"
      using evaluate_grid_ok [OF run(3) pos(1) priced_nonneg [OF parts(2)]] by blast
    moreover from this have "gf_direct h = ?p" "gf_first h = gf_first g" by (simp_all add: grid_flow_ok_def)
    ultimately show ?thesis using p parts(2,3) unfolding flow_over_def
      by (intro exI [of _ h] conjI exI [of _ "xd + rm"] exI [of _ xf]) simp_all
  qed
  show "\<exists>h. c = Some h \<and> flow_over d direct first second (x + rm) h"
    if run: "i < length first" "family_output first (add_at (gf_first g) i rm) = Inr out"
      "evaluate_grid d second (Some (gf_direct g)) (Some \<lparr>gp_amounts = add_at (gf_first g) i rm, gp_output = out\<rparr>) = Inr (c, e)"
  proof -
    let ?p = "\<lparr>gp_amounts = add_at (gf_first g) i rm, gp_output = out\<rparr>"
    have p: "priced first ?p (xf + rm)"
      using parts(2) run(1,2) add_at_conserves pos(2) by (simp add: priced_def add_at_def [of _ i rm, THEN arg_cong [where f = length]])
    obtain h where "c = Some h" "grid_flow_ok d second (gf_direct g) ?p h"
      using evaluate_grid_ok [OF run(3) pos(1) priced_nonneg [OF p]] by blast
    moreover from this have "gf_direct h = gf_direct g" "gf_first h = ?p" by (simp_all add: grid_flow_ok_def)
    ultimately show ?thesis using p parts(1,3) unfolding flow_over_def
      by (intro exI [of _ h] conjI exI [of _ xd] exI [of _ "xf + rm"]) simp_all
  qed
qed

lemma try_flow_step:
  assumes "try_flow d second acc plans = Inr acc'"
  shows "fst acc' = fst acc \<or> (\<exists>e. evaluate_grid d second (fst plans) (snd plans) = Inr (fst acc', e))"
  using assms by (auto simp: try_flow_def rbind_eq_Inr keep_flow_best split: if_splits)

lemma place_remainder_flow:
  assumes run: "place_remainder d direct first second rm base exact = Inr (Some g, exact')"
    and base: "flow_over d direct first second x base" and pos: "0 < d" "0 \<le> rm"
  shows "g = base \<or> 0 < rm \<and> flow_over d direct first second (x + rm) g"
proof (cases "0 < rm")
  case False
  then show ?thesis using run by (simp add: place_remainder_def)
next
  case True
  let ?P = "\<lambda>acc :: gridFlow option \<times> bool. fst acc = Some base \<or> (\<exists>h. fst acc = Some h \<and> flow_over d direct first second (x + rm) h)"
  from run True obtain acc where acc: "foldM (try_direct_remainder d direct second rm base) (Some base, exact) [0..<length direct] = Inr acc"
      "foldM (try_first_remainder d first second rm base) acc [0..<length first] = Inr (Some g, exact')"
    by (auto simp: place_remainder_def rbind_eq_Inr)
  have "?P acc"
    by (rule foldM_invariant [OF acc(1), where P = ?P])
      (auto simp: try_direct_remainder_def Let_def rbind_eq_Inr sumGridOutputs_family dest!: try_flow_step dest: remainder_flow(1) [OF base pos])
  then have "?P (Some g, exact')"
    by (rule foldM_invariant [OF acc(2), where P = ?P])
      (auto simp: try_first_remainder_def Let_def rbind_eq_Inr sumGridOutputs_family dest!: try_flow_step dest: remainder_flow(2) [OF base pos])
  then show ?thesis using True by auto
qed

lemma place_remainder_none: "place_remainder d direct first second 0 base exact = Inr (Some base, exact)"
  by (simp add: place_remainder_def)

definition grid_divisions :: "GridTwoStageSplitRequest \<Rightarrow> nat" where
  "grid_divisions r = nat (if gr_Divisions r = 0 then 32 else gr_Divisions r)"

lemma grid_run:
  assumes "OptimizeTwoStageSplitGrid ctxErr r = Inr res"
  obtains amount n direct first second dps fps base exact g exact' where
    "gr_TotalInput r = Some amount" "0 < amount" "0 < grid_divisions r" "n = effectiveGridDivisions amount (grid_divisions r)" "0 < n"
    "newUncachedCurves (gr_Direct r) = Inr direct" "newUncachedCurves (gr_FirstStage r) = Inr first" "newUncachedCurves (gr_SecondStage r) = Inr second"
    "gridFamilyPlans (amount div int n) n direct = Inr dps" "gridFamilyPlans (amount div int n) n first = Inr fps"
    "foldM (try_flow (grid_divisions r) second) (None, True) (jobs dps fps n) = Inr (Some base, exact)"
    "place_remainder (grid_divisions r) direct first second (amount mod int n) base exact = Inr (Some g, exact')"
    "grid_result direct first second amount n g exact' = Inr res"
proof -
  from assms obtain amount direct first second where a: "gr_TotalInput r = Some amount" "0 < amount" "0 < grid_divisions r"
      "newUncachedCurves (gr_Direct r) = Inr direct" "newUncachedCurves (gr_FirstStage r) = Inr first" "newUncachedCurves (gr_SecondStage r) = Inr second"
      and search: "grid_search direct first second amount (grid_divisions r) = Inr res"
    by (auto simp: OptimizeTwoStageSplitGrid_def grid_divisions_def Let_def rbind_eq_Inr check_eq_Inr split: if_splits option.splits)
  define n where "n = effectiveGridDivisions amount (grid_divisions r)"
  have n: "0 < n" unfolding n_def by (rule effective_bounds(1) [OF a(2,3)])
  have q: "bigQuo amount (int n) = amount div int n" "bigRem amount (int n) = amount mod int n" using bigQuo_bigRem [of amount n] a(2) n by simp_all
  from search obtain dps fps base exact g exact' where
    "gridFamilyPlans (amount div int n) n direct = Inr dps" "gridFamilyPlans (amount div int n) n first = Inr fps"
    "foldM (try_flow (grid_divisions r) second) (None, True) (jobs dps fps n) = Inr (Some base, exact)"
    "place_remainder (grid_divisions r) direct first second (amount mod int n) base exact = Inr (Some g, exact')"
    "grid_result direct first second amount n g exact' = Inr res"
    unfolding grid_search_def n_def [symmetric] Let_def q jobs_def
    by (auto simp: rbind_eq_Inr split: option.splits simp del: upt_Suc)
  then show thesis using that a n n_def by blast
qed

lemma grid_result_Inr:
  assumes "grid_result direct first second amount n g exact = Inr res" and "0 \<le> amount" "0 < n"
  shows "materializeAllocations direct (gp_amounts (gf_direct g)) = Inr (ts_Direct res)"
    "materializeAllocations first (gp_amounts (gf_first g)) = Inr (ts_FirstStage res)"
    "materializeAllocations second (gp_amounts (gf_second g)) = Inr (ts_SecondStage res)"
    "ts_TotalInput res = Some amount" "ts_IntermediateOut res = Some (gf_intermediate g)" "ts_TotalOutput res = Some (gf_output g)"
    "ts_InputResolution res = Some (amount div int n)" "ts_GridDivisions res = n" "ts_GridVerified res \<longleftrightarrow> amount mod int n = 0"
  using assms bigQuo_bigRem [of amount n] by (auto simp: grid_result_def rbind_eq_Inr Let_def)

lemma base_flow_over:
  assumes run: "foldM (try_flow d second) (None, True) (jobs dps fps n) = Inr (Some base, exact)"
    and plans: "gridFamilyPlans q n direct = Inr dps" "gridFamilyPlans q n first = Inr fps" and pos: "0 < d" "0 \<le> q"
  shows "flow_over d direct first second (q * int n) base"
proof -
  obtain u dp fp where u: "u \<le> n" "dps ! (n - u) = Some dp" "fps ! u = Some fp" and ok: "grid_flow_ok d second dp fp base"
    using jobs_best(1) [OF run plans pos] by blast
  then have same: "gf_direct base = dp" "gf_first base = fp" by (simp_all add: grid_flow_ok_def)
  have "q * int (n - u) + q * int u = q * int n" using u(1) by (simp add: of_nat_diff flip: distrib_left)
  then show ?thesis unfolding flow_over_def same
    using plan_priced [OF plans(1) _ u(2) pos(2)] plan_priced [OF plans(2) u(1,3) pos(2)] ok
    by (intro exI [of _ "q * int (n - u)"] exI [of _ "q * int u"]) simp
qed

lemma grid_result_sums:
  assumes res: "grid_result direct first second amount n g exact = Inr res" and pos: "0 \<le> amount" "0 < n"
    and flow: "flow_over d direct first second x g"
  shows "sum_by amount_in (ts_Direct res) + sum_by amount_in (ts_FirstStage res) = x"
    "gf_intermediate g = sum_by amount_out (ts_FirstStage res)" "gf_intermediate g = sum_by amount_in (ts_SecondStage res)"
    "gf_output g = sum_by amount_out (ts_Direct res) + sum_by amount_out (ts_SecondStage res)"
    "length (gp_amounts (gf_direct g)) = length direct" "length (gp_amounts (gf_first g)) = length first" "length (gp_amounts (gf_second g)) = length second"
proof -
  note m = grid_result_Inr [OF res pos]
  from flow obtain xd xf where p: "priced direct (gf_direct g) xd" "priced first (gf_first g) xf" "xd + xf = x"
      "priced second (gf_second g) (gp_output (gf_first g))" "gf_intermediate g = gp_output (gf_first g)"
      "gf_output g = gp_output (gf_direct g) + gp_output (gf_second g)"
    by (auto simp: flow_over_def grid_flow_ok_def)
  then show len: "length (gp_amounts (gf_direct g)) = length direct" "length (gp_amounts (gf_first g)) = length first" "length (gp_amounts (gf_second g)) = length second"
    by (simp_all add: priced_def)
  note sums = materialize_sums [OF m(1) len(1)] materialize_sums [OF m(2) len(2)] materialize_sums [OF m(3) len(3)]
  show "sum_by amount_in (ts_Direct res) + sum_by amount_in (ts_FirstStage res) = x"
    "gf_intermediate g = sum_by amount_out (ts_FirstStage res)" "gf_intermediate g = sum_by amount_in (ts_SecondStage res)"
    "gf_output g = sum_by amount_out (ts_Direct res) + sum_by amount_out (ts_SecondStage res)"
    using sums p by (simp_all add: priced_def allocationConserves_def)
qed

text \<open>
  a grid split quotes its allocations with the configured curves and passes exactly the
  intermediate amount on. It accounts for the whole input when the grid divides it; otherwise it
  accounts for the whole input or leaves out exactly the indivisible remainder.
\<close>

lemma grid_split_accounts:
  assumes run: "OptimizeTwoStageSplitGrid ctxErr r = Inr res" and amount: "gr_TotalInput r = Some amount"
  shows "(let placed = sum_by amount_in (ts_Direct res) + sum_by amount_in (ts_FirstStage res) in
      placed = amount \<or> \<not> ts_GridVerified res \<and> placed = amount - amount mod int (ts_GridDivisions res)) \<and>
    ts_IntermediateOut res = Some (sum_by amount_out (ts_FirstStage res)) \<and>
    ts_IntermediateOut res = Some (sum_by amount_in (ts_SecondStage res)) \<and>
    ts_TotalOutput res = Some (sum_by amount_out (ts_Direct res) + sum_by amount_out (ts_SecondStage res)) \<and>
    quoted_by (gr_Direct r) (ts_Direct res) \<and> quoted_by (gr_FirstStage r) (ts_FirstStage res) \<and> quoted_by (gr_SecondStage r) (ts_SecondStage res)"
proof -
  obtain amount' n direct first second dps fps base exact g exact' where g:
    "gr_TotalInput r = Some amount'" "0 < amount'" "0 < grid_divisions r" "n = effectiveGridDivisions amount' (grid_divisions r)" "0 < n"
    "newUncachedCurves (gr_Direct r) = Inr direct" "newUncachedCurves (gr_FirstStage r) = Inr first" "newUncachedCurves (gr_SecondStage r) = Inr second"
    "gridFamilyPlans (amount' div int n) n direct = Inr dps" "gridFamilyPlans (amount' div int n) n first = Inr fps"
    "foldM (try_flow (grid_divisions r) second) (None, True) (jobs dps fps n) = Inr (Some base, exact)"
    "place_remainder (grid_divisions r) direct first second (amount' mod int n) base exact = Inr (Some g, exact')"
    "grid_result direct first second amount' n g exact' = Inr res"
    by (rule grid_run [OF run])
  have same: "amount' = amount" using g(1) amount by simp
  note g = g [unfolded same]
  have q: "0 \<le> amount div int n" "0 \<le> amount mod int n" using g(2,5) by (simp_all add: pos_imp_zdiv_nonneg_iff)
  have base: "flow_over (grid_divisions r) direct first second (amount - amount mod int n) base"
    using base_flow_over [OF g(11,9,10,3) q(1)] by (simp add: minus_mod_eq_div_mult)
  obtain x where x: "flow_over (grid_divisions r) direct first second x g" "x = amount \<or> amount mod int n \<noteq> 0 \<and> x = amount - amount mod int n"
    using place_remainder_flow [OF g(12) base g(3) q(2)] base by (cases "amount mod int n = 0") auto
  have pos: "0 \<le> amount" using g(2) by simp
  note m = grid_result_Inr [OF g(13) pos g(5)] and sums = grid_result_sums [OF g(13) pos g(5) x(1)]
  show ?thesis
    using m(5,6,8,9) sums(1-4) x(2) materialize_quoted_by [OF g(6) [unfolded newUncachedCurves_def] m(1) sums(5)]
      materialize_quoted_by [OF g(7) [unfolded newUncachedCurves_def] m(2) sums(6)]
      materialize_quoted_by [OF g(8) [unfolded newUncachedCurves_def] m(3) sums(7)]
    by (auto simp: Let_def)
qed

text \<open>
  a result with \<open>GridVerified\<close> has the largest output among the flows of the grid whose first
  stage gives as much of the intermediate token as its number of steps allows, over all divisions
  of the direct steps and of the intermediate amount. The largest first stage alone is compared.
\<close>

lemma grid_verified_optimal:
  assumes run: "OptimizeTwoStageSplitGrid ctxErr r = Inr res" and verified: "ts_GridVerified res"
    and curves: "newUncachedCurves (gr_Direct r) = Inr direct" "newUncachedCurves (gr_FirstStage r) = Inr first"
      "newUncachedCurves (gr_SecondStage r) = Inr second"
    and units: "length us = length direct" "length vs = length first" "sum_list us + sum_list vs = ts_GridDivisions res"
    and q: "ts_InputResolution res = Some q"
    and outs: "family_output direct (map (\<lambda>u. q * int u) us) = Inr x" "family_output first (map (\<lambda>u. q * int u) vs) = Inr m"
    and largest: "\<And>vs' m'. length vs' = length first \<Longrightarrow> sum_list vs' = sum_list vs \<Longrightarrow>
      family_output first (map (\<lambda>u. q * int u) vs') = Inr m' \<Longrightarrow> m' \<le> m"
    and second: "zs \<in> second_grid (grid_divisions r) m (length second)" "family_output second zs = Inr w"
  shows "\<exists>best. ts_TotalOutput res = Some best \<and> x + w \<le> best"
proof -
  obtain amount n direct' first' second' dps fps base exact g exact' where g:
    "gr_TotalInput r = Some amount" "0 < amount" "0 < grid_divisions r" "n = effectiveGridDivisions amount (grid_divisions r)" "0 < n"
    "newUncachedCurves (gr_Direct r) = Inr direct'" "newUncachedCurves (gr_FirstStage r) = Inr first'" "newUncachedCurves (gr_SecondStage r) = Inr second'"
    "gridFamilyPlans (amount div int n) n direct' = Inr dps" "gridFamilyPlans (amount div int n) n first' = Inr fps"
    "foldM (try_flow (grid_divisions r) second') (None, True) (jobs dps fps n) = Inr (Some base, exact)"
    "place_remainder (grid_divisions r) direct' first' second' (amount mod int n) base exact = Inr (Some g, exact')"
    "grid_result direct' first' second' amount n g exact' = Inr res"
    by (rule grid_run [OF run])
  have same: "direct' = direct" "first' = first" "second' = second" using g(6-8) curves by simp_all
  note g = g [unfolded same]
  have pos: "0 \<le> amount" using g(2) by simp
  note m = grid_result_Inr [OF g(13) pos g(5)]
  have qn: "amount div int n = q" "0 \<le> q" "ts_GridDivisions res = n" "g = base"
    using m(7-9) q verified g(2,5,12) by (auto simp: pos_imp_zdiv_nonneg_iff place_remainder_none)
  note g = g [unfolded qn(1)]
  let ?u = "sum_list vs"
  have u: "?u \<le> n" "sum_list us = n - ?u" using units(3) qn(3) by simp_all
  have grid: "map (\<lambda>u. q * int u) us \<in> unit_grid q None None (length direct) (n - ?u)" "map (\<lambda>u. q * int u) vs \<in> unit_grid q None None (length first) ?u"
    using units(1,2) u(2) by (auto simp: unit_grid_plain)
  obtain dp where dp: "dps ! (n - ?u) = Some dp" "x \<le> gp_output dp"
    using family_plans_best [of q None n direct None dps "n - ?u"] g(9) grid(1) outs(1) by (force simp: gridFamilyPlans_None best_for_def)
  obtain fp where fp: "fps ! ?u = Some fp" "m \<le> gp_output fp" "gp_amounts fp \<in> unit_grid q None None (length first) ?u"
      "family_output first (gp_amounts fp) = Inr (gp_output fp)"
    using family_plans_best [of q None n first None fps ?u] g(10) grid(2) outs(2) u(1) by (force simp: gridFamilyPlans_None best_for_def)
  have "gp_output fp = m" using fp(2-4) largest by (fastforce simp: unit_grid_plain)
  moreover obtain h where "grid_flow_ok (grid_divisions r) second dp fp h" "gf_output h \<le> gf_output base"
    using jobs_best(2) [OF g(11,9,10,3) qn(2) u(1) dp(1) fp(1)] by blast
  ultimately have "x + w \<le> gf_output base" using second dp(2) by (fastforce simp: grid_flow_ok_def)
  then show ?thesis using m(6) qn(4) by simp
qed

section \<open>Examples\<close>

text \<open>A pool that gives one unit for any input, on an input that the grid does not divide.\<close>

definition indivisible_request :: GridTwoStageSplitRequest where
  "indivisible_request = \<lparr>gr_TotalInput = Some 3, gr_Direct = [flat_curve], gr_FirstStage = [], gr_SecondStage = [], gr_Divisions = 2\<rparr>"

definition indivisible_result :: TwoStageSplitResult where
  "indivisible_result = \<lparr>ts_Direct = [entry ''a'' 2 1], ts_FirstStage = [], ts_SecondStage = [], ts_TotalInput = Some 3,
     ts_IntermediateOut = Some 0, ts_TotalOutput = Some 1, ts_InputResolution = Some 1, ts_GridDivisions = 2,
     ts_GridVerified = False, ts_PairwiseOptimal = False, ts_GloballyVerified = True\<rparr>"

text \<open>
  The flow without the remainder competes with the flows that place it, and wins when the
  remainder buys nothing. The result then claims an input of three units, allocates two of them
  and is refused as an executable route.
\<close>

lemma remainder_dropped:
  "OptimizeTwoStageSplitGrid False indivisible_request = Inr indivisible_result"
  "BuildRouteAllocation indivisible_result ''in'' [] ''out'' = Inl (BuildInvalid AllocRootInput)"
  by code_simp+

text \<open>Two steps through an intermediate token; the smaller intermediate amount divides better.\<close>

definition step_curve :: "string \<Rightarrow> int \<Rightarrow> int \<Rightarrow> SplitCurve" where
  "step_curve i bound out = \<lparr>crv_ID = i, crv_Quote = Some (\<lambda>x. Inr (Some (if x \<ge> bound then out else 0)))\<rparr>"

definition bent_request :: GridTwoStageSplitRequest where
  "bent_request = \<lparr>gr_TotalInput = Some 2, gr_Direct = [],
     gr_FirstStage = [\<lparr>crv_ID = ''f'', crv_Quote = Some (\<lambda>x. Inr (Some (3 * x)))\<rparr>, \<lparr>crv_ID = ''g'', crv_Quote = Some (\<lambda>x. Inr (Some (2 * x)))\<rparr>],
     gr_SecondStage = [step_curve ''s'' 1 10, step_curve ''t'' 4 10], gr_Divisions = 2\<rparr>"

lemma larger_intermediate_not_better:
  "(case OptimizeTwoStageSplitGrid False bent_request of Inl _ \<Rightarrow> False | Inr res \<Rightarrow> ts_GridVerified res \<and> ts_TotalOutput res = Some 10)"
  "rbind (newUncachedCurves (gr_FirstStage bent_request)) (\<lambda>first. family_output first [1, 1]) = Inr 5"
  "rbind (newUncachedCurves (gr_SecondStage bent_request)) (\<lambda>second. family_output second [1, 4]) = Inr 20"
  by code_simp+

lemma second_grid_member:
  assumes "m \<noteq> 0" "length us = k" "sum_list us = effectiveGridDivisions m d" "j < k"
  shows "grid_amounts (m div int (effectiveGridDivisions m d)) (Some (m mod int (effectiveGridDivisions m d))) (Some j) 0 us \<in> second_grid d m k"
  using assms unfolding second_grid_def declared_grid_def unit_grid_def Let_def by auto

lemma smaller_intermediate_on_grid: "[1, 4] \<in> second_grid 2 5 2"
  using second_grid_member [of 5 "[0, 2]" 2 2 0] by (simp add: effectiveGridDivisions_def unit_amount_def)

definition grid_request :: GridTwoStageSplitRequest where
  "grid_request = \<lparr>gr_TotalInput = Some 2, gr_Direct = tr_Direct stage_request, gr_FirstStage = tr_FirstStage stage_request,
     gr_SecondStage = tr_SecondStage stage_request, gr_Divisions = 2\<rparr>"

definition grid_example :: TwoStageSplitResult where
  "grid_example = stage_result\<lparr>ts_GridDivisions := 2, ts_GridVerified := True, ts_PairwiseOptimal := False, ts_GloballyVerified := False\<rparr>"

lemma grid_example_run: "OptimizeTwoStageSplitGrid False grid_request = Inr grid_example"
  by code_simp

definition plain_curve :: "SplitCurve \<Rightarrow> memoCurve" where
  "plain_curve c = (stage_curve c)\<lparr>mc_cache := None\<rparr>"

lemma grid_curves:
  "newUncachedCurves (gr_Direct grid_request) = Inr [plain_curve flat_curve]"
  "newUncachedCurves (gr_FirstStage grid_request) = Inr [plain_curve double_curve]"
  "newUncachedCurves (gr_SecondStage grid_request) = Inr [plain_curve (hd (tr_SecondStage stage_request))]"
  by (simp_all add: grid_request_def stage_request_def newUncachedCurves_def newCurves_def flat_curve_def double_curve_def blank_def
      plain_curve_def stage_curve_def)

lemma grid_split_accounts_example:
  "sum_by amount_in (ts_Direct grid_example) + sum_by amount_in (ts_FirstStage grid_example) = 2 \<and>
   quoted_by (gr_Direct grid_request) (ts_Direct grid_example)"
proof -
  have "gr_TotalInput grid_request = Some 2" "ts_GridVerified grid_example" by (simp_all add: grid_request_def grid_example_def)
  then show ?thesis using grid_split_accounts [OF grid_example_run, of 2] by (auto simp: Let_def)
qed

lemma grid_verified_optimal_example:
  "\<exists>best. ts_TotalOutput grid_example = Some best \<and> 1 + 2 \<le> best"
proof -
  have outs: "family_output [plain_curve flat_curve] (map (\<lambda>u. 1 * int u) [1]) = Inr 1" "family_output [plain_curve double_curve] (map (\<lambda>u. 1 * int u) [1]) = Inr 2"
      "family_output [plain_curve (hd (tr_SecondStage stage_request))] [2] = Inr 2"
    by (simp_all add: curve_at_def plain_curve_def stage_curve_def flat_curve_def double_curve_def stage_request_def)
  have grid: "[2] \<in> second_grid (grid_divisions grid_request) 2 (length [plain_curve (hd (tr_SecondStage stage_request))])"
    using second_grid_member [of 2 "[2]" 1 2 0] by (simp add: effectiveGridDivisions_def unit_amount_def grid_divisions_def grid_request_def)
  have only: "m' \<le> 2" if "length vs' = length [plain_curve double_curve]" "sum_list vs' = sum_list [1 :: nat]"
    "family_output [plain_curve double_curve] (map (\<lambda>u. 1 * int u) vs') = Inr m'" for vs' m'
    using that outs(2) by (auto simp: length_Suc_conv)
  show ?thesis
    using grid_verified_optimal [OF grid_example_run _ grid_curves _ _ _ _ outs(1,2) only grid outs(3)]
    by (simp add: grid_example_def stage_result_def)
qed

theorem grid_family_optimal_witness:
  "\<exists>p. Some \<lparr>gp_amounts = [0, 3], gp_output = 6\<rparr> = Some p \<and> allocationConserves (gp_amounts p) 3"
proof -
  have "gridFamilyBest 3 2 [plain_curve flat_curve, plain_curve double_curve] = Inr (Some \<lparr>gp_amounts = [0, 3], gp_output = 6\<rparr>, True)"
    by code_simp
  from grid_family_optimal [OF this] show ?thesis by auto
qed

end
