(* ===== verification/Window_Store.thy ===== *)
theory Window_Store
  imports Arbitrage_Types
begin

text \<open>
  Opportunity windows and their durable store: \<open>src/domain/arbitrage/windows.go\<close>, the
  window part of \<open>src/ports/persistence/persistence.go\<close> and of
  \<open>src/adapters/persistence/sqlite/store.go\<close>.

  The table of windows is a map from the primary key to a row, the table of observations a
  list of rows. A method of the store is one transaction: it commits or leaves the tables
  as they were. A failure of the database itself is the argument \<open>dbErr\<close>. Columns hold the
  values that the Go code formats and parses back: times at full precision, quantities as
  exact fractions. The text of a time and SHA-256 are arguments; \<open>julianday\<close>, the floating-point
  function of SQLite that computes the duration of a dangling window, is one too.
\<close>

section \<open>Windows\<close>

abbreviation WindowStatusOpen :: string where "WindowStatusOpen \<equiv> ''open''"
abbreviation WindowStatusClosed :: string where "WindowStatusClosed \<equiv> ''closed''"
abbreviation WindowStatusFailed :: string where "WindowStatusFailed \<equiv> ''failed''"

record WindowKey =
  wk_Run :: ResearchRunID
  wk_Strategy :: StrategyID
  wk_ConfigHash :: string
  wk_Direction :: Direction

record WindowCandidate =
  wc_Size :: AssetQuantity
  wc_GrossPnL :: AssetQuantity
  wc_NetPnL :: AssetQuantity
  wc_Cost :: AssetQuantity

record OpportunityWindow =
  ow_ID :: WindowID
  ow_Run :: ResearchRunID
  ow_Strategy :: StrategyID
  ow_ConfigHash :: string
  ow_Direction :: Direction
  ow_Trigger :: TriggerMetadata
  ow_HasTrigger :: bool
  ow_OpenedAt :: gotime
  ow_FirstProfitableAt :: gotime
  ow_LastProfitableAt :: gotime
  ow_ClosedAt :: gotime
  ow_Best :: WindowCandidate
  ow_HasBest :: bool
  ow_Threshold :: AssetQuantity
  ow_Classification :: string
  ow_Status :: string
  ow_CloseReason :: string
  ow_Degraded :: bool

record WindowObservation =
  wo_ID :: string
  wo_WindowID :: WindowID
  wo_Evaluation :: EvaluationID
  wo_ObservedAt :: gotime
  wo_Classification :: string
  wo_Candidate :: WindowCandidate
  wo_HasCandidate :: bool
  wo_Best :: bool

record WindowClosing =
  wl_WindowID :: WindowID
  wl_ClosedAt :: gotime
  wl_LastProfitableAt :: gotime
  wl_Classification :: string
  wl_Reason :: string
  wl_Degraded :: bool

record WindowFailure =
  wf_WindowID :: WindowID
  wf_ClosedAt :: gotime
  wf_LastProfitableAt :: gotime
  wf_Reason :: string

datatype window_error =
    TriggerIdentity
  | TriggerMarket market_error
  | TriggerTimestamp
  | CandidateRequired
  | CandidateAssets
  | CandidateNegative
  | WindowIdentity
  | WindowDirection
  | WindowTimestamps
  | WindowOrder
  | WindowBest
  | WindowThreshold
  | WindowClassification
  | WindowCloseState
  | WindowStatusInvalid string
  | ObservationIdentity

definition TriggerValidate :: "TriggerMetadata \<Rightarrow> window_error option" where
  "TriggerValidate t =
     (if tm_Market t = [] \<or> tm_Source t = [] then Some TriggerIdentity
      else case PositionValidate (tm_Position t) of
        Some e \<Rightarrow> Some (TriggerMarket e)
      | None \<Rightarrow> (case ReferenceValidate (tm_Reference t) of
          Some e \<Rightarrow> Some (TriggerMarket e)
        | None \<Rightarrow> if IsZeroTime (tm_At t) then Some TriggerTimestamp else None))"

definition WindowCandidateValidate :: "WindowCandidate \<Rightarrow> window_error option" where
  "WindowCandidateValidate c =
     (if qty_asset (wc_Size c) = [] \<or> qty_asset (wc_GrossPnL c) = [] \<or> qty_asset (wc_NetPnL c) = [] \<or>
         qty_asset (wc_Cost c) = [] then Some CandidateRequired
      else if qty_asset (wc_Size c) \<noteq> qty_asset (wc_GrossPnL c) \<or> qty_asset (wc_Size c) \<noteq> qty_asset (wc_NetPnL c) \<or>
              qty_asset (wc_Size c) \<noteq> qty_asset (wc_Cost c) then Some CandidateAssets
      else if QtySign (wc_Size c) < 0 \<or> QtySign (wc_Cost c) < 0 then Some CandidateNegative
      else None)"

definition KeyOf :: "OpportunityWindow \<Rightarrow> WindowKey" where
  "KeyOf w = \<lparr>wk_Run = ow_Run w, wk_Strategy = ow_Strategy w, wk_ConfigHash = ow_ConfigHash w,
     wk_Direction = ow_Direction w\<rparr>"

definition WindowDuration :: "OpportunityWindow \<Rightarrow> duration" where
  "WindowDuration w =
     (let finish = (if IsZeroTime (ow_ClosedAt w) then ow_LastProfitableAt w else ow_ClosedAt w) in
      if IsZeroTime (ow_OpenedAt w) \<or> finish < ow_OpenedAt w then 0 else TimeSub finish (ow_OpenedAt w))"

definition status_error :: "OpportunityWindow \<Rightarrow> window_error option" where
  "status_error w =
     (if ow_Status w = WindowStatusOpen
      then (if \<not> IsZeroTime (ow_ClosedAt w) \<or> ow_CloseReason w \<noteq> [] \<or> ow_Degraded w then Some WindowCloseState else None)
      else if ow_Status w = WindowStatusClosed \<or> ow_Status w = WindowStatusFailed
      then (if IsZeroTime (ow_ClosedAt w) \<or> ow_CloseReason w = [] then Some WindowCloseState
            else if ow_ClosedAt w < ow_LastProfitableAt w then Some WindowOrder else None)
      else Some (WindowStatusInvalid (ow_Status w)))"

definition WindowValidate :: "OpportunityWindow \<Rightarrow> window_error option" where
  "WindowValidate w =
     (if ow_ID w = [] \<or> ow_Run w = [] \<or> ow_Strategy w = [] \<or> ow_ConfigHash w = [] then Some WindowIdentity
      else if dir_BuyMarket (ow_Direction w) = [] \<or> dir_SellMarket (ow_Direction w) = [] \<or>
              dir_BuyMarket (ow_Direction w) = dir_SellMarket (ow_Direction w) then Some WindowDirection
      else if IsZeroTime (ow_OpenedAt w) \<or> IsZeroTime (ow_FirstProfitableAt w) \<or> IsZeroTime (ow_LastProfitableAt w)
      then Some WindowTimestamps
      else if ow_FirstProfitableAt w < ow_OpenedAt w \<or> ow_LastProfitableAt w < ow_FirstProfitableAt w
      then Some WindowOrder
      else (case (if ow_HasTrigger w then TriggerValidate (ow_Trigger w) else None) of
        Some e \<Rightarrow> Some e
      | None \<Rightarrow>
        (case (if ow_HasBest w then WindowCandidateValidate (ow_Best w) else Some WindowBest) of
           Some e \<Rightarrow> Some e
         | None \<Rightarrow>
           if qty_asset (ow_Threshold w) = [] \<or> qty_asset (ow_Threshold w) \<noteq> qty_asset (wc_NetPnL (ow_Best w)) \<or>
              QtySign (ow_Threshold w) < 0 then Some WindowThreshold
           else if ow_Classification w \<noteq> ClassificationEconomic \<and> ow_Classification w \<noteq> ClassificationPolicyQualified
           then Some WindowClassification
           else status_error w)))"

definition ObservationValidate :: "WindowObservation \<Rightarrow> window_error option" where
  "ObservationValidate ob =
     (if wo_ID ob = [] \<or> wo_WindowID ob = [] \<or> wo_Evaluation ob = [] \<or> IsZeroTime (wo_ObservedAt ob)
      then Some ObservationIdentity
      else if wo_Classification ob \<noteq> ClassificationEconomic \<and> wo_Classification ob \<noteq> ClassificationPolicyQualified
      then Some WindowClassification
      else case (if wo_HasCandidate ob then WindowCandidateValidate (wo_Candidate ob) else None) of
        Some e \<Rightarrow> Some e
      | None \<Rightarrow> if wo_Best ob \<and> \<not> wo_HasCandidate ob then Some WindowBest else None)"

subsection \<open>Text\<close>

text \<open>\<open>big.Rat.RatString\<close>: the denominator is left out when it is 1.\<close>

definition QtyString :: "AssetQuantity \<Rightarrow> string" where
  "QtyString q = (case quotient_of (qty_value q) of (a, b) \<Rightarrow>
     if b = 1 then int_string a else int_string a @ ''/'' @ int_string b)"

definition FormatBool :: "bool \<Rightarrow> string" where
  "FormatBool b = (if b then ''true'' else ''false'')"

definition hex_digit :: "nat \<Rightarrow> char" where
  "hex_digit n = ''0123456789abcdef'' ! (n mod 16)"

definition hexEncode :: "string \<Rightarrow> string" where
  "hexEncode bytes = concat (map (\<lambda>c. [hex_digit (of_char c div 16), hex_digit (of_char c)]) bytes)"

definition WindowFingerprint :: "(string \<Rightarrow> string) \<Rightarrow> (gotime \<Rightarrow> string) \<Rightarrow> OpportunityWindow \<Rightarrow> string" where
  "WindowFingerprint sha256 rfc3339 w = hexEncode (sha256 (join_strings [CHR 0x00]
     [ow_ID w, ow_Run w, ow_Strategy w, ow_ConfigHash w,
      dir_BuyMarket (ow_Direction w), dir_SellMarket (ow_Direction w),
      FormatBool (ow_HasTrigger w), tm_Market (ow_Trigger w), tm_Source (ow_Trigger w),
      sp_Kind (tm_Position (ow_Trigger w)), int_string (uint (sp_Value (tm_Position (ow_Trigger w)))),
      sr_Kind (tm_Reference (ow_Trigger w)), sr_Value (tm_Reference (ow_Trigger w)), rfc3339 (tm_At (ow_Trigger w)),
      rfc3339 (ow_OpenedAt w), rfc3339 (ow_FirstProfitableAt w),
      rfc3339 (ow_LastProfitableAt w), ow_Classification w, ow_Status w, ow_CloseReason w,
      FormatBool (ow_Degraded w), FormatBool (ow_HasBest w), qty_asset (wc_Size (ow_Best w)), QtyString (wc_Size (ow_Best w)),
      qty_asset (wc_GrossPnL (ow_Best w)), QtyString (wc_GrossPnL (ow_Best w)),
      qty_asset (wc_NetPnL (ow_Best w)), QtyString (wc_NetPnL (ow_Best w)),
      qty_asset (wc_Cost (ow_Best w)), QtyString (wc_Cost (ow_Best w)),
      qty_asset (ow_Threshold w), QtyString (ow_Threshold w)]))"

definition observationFingerprint :: "(gotime \<Rightarrow> string) \<Rightarrow> WindowObservation \<Rightarrow> string" where
  "observationFingerprint rfc3339 ob = join_strings ''|''
     [wo_ID ob, wo_WindowID ob, wo_Evaluation ob, rfc3339 (wo_ObservedAt ob), wo_Classification ob,
      FormatBool (wo_HasCandidate ob), FormatBool (wo_Best ob), QtyString (wc_Size (wo_Candidate ob)),
      QtyString (wc_GrossPnL (wo_Candidate ob)), QtyString (wc_NetPnL (wo_Candidate ob)),
      QtyString (wc_Cost (wo_Candidate ob)), qty_asset (wc_Size (wo_Candidate ob)),
      qty_asset (wc_GrossPnL (wo_Candidate ob)), qty_asset (wc_NetPnL (wo_Candidate ob)),
      qty_asset (wc_Cost (wo_Candidate ob))]"

section \<open>The SQLite store\<close>

record WindowRow =
  wr_window :: OpportunityWindow
  wr_duration :: int
  wr_identity :: string

record ObservationRow =
  obr_observation :: WindowObservation
  obr_fingerprint :: string

record WindowTables =
  wt_windows :: "WindowID \<rightharpoonup> WindowRow"
  wt_observations :: "ObservationRow list"

datatype store_error =
    DBError string
  | InvalidWindow window_error
  | WindowExists WindowID
  | InvalidObservation window_error
  | ObservationExists string
  | WindowUnknown WindowID
  | WindowNotOpen WindowID
  | ObservationPrecedes
  | UniqueViolated
  | CloseIncomplete
  | ClosesBeforeLast
  | WindowFinalized WindowID
  | ClosesBeforeOpening
  | DanglingTimestamp

definition zero_trigger :: TriggerMetadata where
  "zero_trigger = \<lparr>tm_Market = [], tm_Source = [], tm_Position = \<lparr>sp_Kind = [], sp_Value = 0\<rparr>,
     tm_Reference = \<lparr>sr_Kind = [], sr_Value = []\<rparr>, tm_At = 0\<rparr>"

text \<open>The columns of an inserted window: trigger columns stay empty without a trigger.\<close>

definition stored_window :: "OpportunityWindow \<Rightarrow> OpportunityWindow" where
  "stored_window w = w\<lparr>ow_Trigger := (if ow_HasTrigger w then ow_Trigger w else zero_trigger),
     ow_ClosedAt := 0, ow_CloseReason := [], ow_Degraded := False\<rparr>"

definition OpenWindow ::
  "(string \<Rightarrow> string) \<Rightarrow> (gotime \<Rightarrow> string) \<Rightarrow> string option \<Rightarrow> OpportunityWindow \<Rightarrow> WindowTables \<Rightarrow>
   store_error option \<times> WindowTables" where
  "OpenWindow sha256 rfc3339 dbErr w s =
     (case WindowValidate w of
        Some e \<Rightarrow> (Some (InvalidWindow e), s)
      | None \<Rightarrow>
        (case dbErr of
           Some e \<Rightarrow> (Some (DBError e), s)
         | None \<Rightarrow>
           (case wt_windows s (ow_ID w) of
              None \<Rightarrow> (None, s\<lparr>wt_windows := (wt_windows s)(ow_ID w \<mapsto>
                \<lparr>wr_window = stored_window w, wr_duration = 0, wr_identity = WindowFingerprint sha256 rfc3339 w\<rparr>)\<rparr>)
            | Some row \<Rightarrow>
                if wr_identity row \<noteq> WindowFingerprint sha256 rfc3339 w then (Some (WindowExists (ow_ID w)), s)
                else (None, s))))"

text \<open>The columns that an observation updates.\<close>

definition improved_window :: "WindowObservation \<Rightarrow> OpportunityWindow \<Rightarrow> OpportunityWindow" where
  "improved_window ob w = w\<lparr>ow_LastProfitableAt := wo_ObservedAt ob, ow_Classification := wo_Classification ob,
     ow_Best := (if wo_Best ob then wo_Candidate ob else ow_Best w)\<rparr>"

definition RecordImprovement ::
  "(gotime \<Rightarrow> string) \<Rightarrow> string option \<Rightarrow> WindowObservation \<Rightarrow> WindowTables \<Rightarrow> store_error option \<times> WindowTables" where
  "RecordImprovement rfc3339 dbErr ob s =
     (case ObservationValidate ob of
        Some e \<Rightarrow> (Some (InvalidObservation e), s)
      | None \<Rightarrow>
        (case dbErr of
           Some e \<Rightarrow> (Some (DBError e), s)
         | None \<Rightarrow>
           (case find (\<lambda>row. wo_ID (obr_observation row) = wo_ID ob) (wt_observations s) of
              Some row \<Rightarrow>
                if obr_fingerprint row \<noteq> observationFingerprint rfc3339 ob then (Some (ObservationExists (wo_ID ob)), s)
                else (None, s)
            | None \<Rightarrow>
              (case wt_windows s (wo_WindowID ob) of
                 None \<Rightarrow> (Some (WindowUnknown (wo_WindowID ob)), s)
               | Some row \<Rightarrow>
                   if ow_Status (wr_window row) \<noteq> WindowStatusOpen then (Some (WindowNotOpen (wo_WindowID ob)), s)
                   else if wo_ObservedAt ob < ow_LastProfitableAt (wr_window row) then (Some ObservationPrecedes, s)
                   else if wo_Best ob \<and> list_ex (\<lambda>r. wo_WindowID (obr_observation r) = wo_WindowID ob \<and>
                             wo_Evaluation (obr_observation r) = wo_Evaluation ob) (wt_observations s)
                   then (Some UniqueViolated, s)
                   else
                     (None, s\<lparr>wt_windows := (wt_windows s)(wo_WindowID ob \<mapsto>
                                row\<lparr>wr_window := improved_window ob (wr_window row)\<rparr>),
                              wt_observations := wt_observations s @ (if wo_Best ob
                                then [\<lparr>obr_observation = ob, obr_fingerprint = observationFingerprint rfc3339 ob\<rparr>]
                                else [])\<rparr>)))))"

definition finishWindow ::
  "string option \<Rightarrow> WindowID \<Rightarrow> gotime \<Rightarrow> gotime \<Rightarrow> string \<Rightarrow> string \<Rightarrow> bool \<Rightarrow> WindowTables \<Rightarrow>
   store_error option \<times> WindowTables" where
  "finishWindow dbErr wid closedAt lastProfitableAt status reason degraded s =
     (if wid = [] \<or> IsZeroTime closedAt \<or> IsZeroTime lastProfitableAt \<or> reason = [] then (Some CloseIncomplete, s)
      else if closedAt < lastProfitableAt then (Some ClosesBeforeLast, s)
      else (case dbErr of
        Some e \<Rightarrow> (Some (DBError e), s)
      | None \<Rightarrow>
        (case wt_windows s wid of
           None \<Rightarrow> (Some (WindowUnknown wid), s)
         | Some row \<Rightarrow>
             let w = wr_window row in
             if ow_Status w \<noteq> WindowStatusOpen
             then (if ow_Status w = status \<and> ow_CloseReason w = reason \<and> ow_Degraded w = degraded \<and>
                      ow_ClosedAt w = closedAt \<and> ow_LastProfitableAt w = lastProfitableAt
                   then (None, s) else (Some (WindowFinalized wid), s))
             else if closedAt < ow_OpenedAt w then (Some ClosesBeforeOpening, s)
             else (None, s\<lparr>wt_windows := (wt_windows s)(wid \<mapsto>
                    row\<lparr>wr_window := w\<lparr>ow_LastProfitableAt := lastProfitableAt, ow_ClosedAt := closedAt,
                                        ow_Status := status, ow_CloseReason := reason, ow_Degraded := degraded\<rparr>,
                        wr_duration := TimeSub closedAt (ow_OpenedAt w)\<rparr>)\<rparr>))))"

definition CloseWindow :: "string option \<Rightarrow> WindowClosing \<Rightarrow> WindowTables \<Rightarrow> store_error option \<times> WindowTables" where
  "CloseWindow dbErr c = finishWindow dbErr (wl_WindowID c) (wl_ClosedAt c) (wl_LastProfitableAt c)
     WindowStatusClosed (wl_Reason c) (wl_Degraded c)"

definition FailWindow :: "string option \<Rightarrow> WindowFailure \<Rightarrow> WindowTables \<Rightarrow> store_error option \<times> WindowTables" where
  "FailWindow dbErr f = finishWindow dbErr (wf_WindowID f) (wf_ClosedAt f) (wf_LastProfitableAt f)
     WindowStatusFailed (wf_Reason f) True"

definition FinalizeDangling ::
  "(gotime \<Rightarrow> gotime \<Rightarrow> int) \<Rightarrow> string option \<Rightarrow> gotime \<Rightarrow> WindowTables \<Rightarrow> store_error option \<times> WindowTables" where
  "FinalizeDangling julianDuration dbErr observedAt s =
     (if IsZeroTime observedAt then (Some DanglingTimestamp, s)
      else (case dbErr of
        Some e \<Rightarrow> (Some (DBError e), s)
      | None \<Rightarrow> (None, s\<lparr>wt_windows := (\<lambda>wid. map_option (\<lambda>row.
          if ow_Status (wr_window row) = WindowStatusOpen
          then row\<lparr>wr_window := (wr_window row)\<lparr>ow_ClosedAt := observedAt, ow_Status := WindowStatusFailed,
                     ow_CloseReason := ''process_interrupted'', ow_Degraded := True\<rparr>,
                   wr_duration := julianDuration (ow_OpenedAt (wr_window row)) observedAt\<rparr>
          else row) (wt_windows s wid))\<rparr>)))"

section \<open>The store as the tracker sees it\<close>

record 's OpportunityStore =
  os_OpenWindow :: "OpportunityWindow \<Rightarrow> 's \<Rightarrow> store_error option \<times> 's"
  os_RecordImprovement :: "WindowObservation \<Rightarrow> 's \<Rightarrow> store_error option \<times> 's"
  os_CloseWindow :: "WindowClosing \<Rightarrow> 's \<Rightarrow> store_error option \<times> 's"
  os_FailWindow :: "WindowFailure \<Rightarrow> 's \<Rightarrow> store_error option \<times> 's"
  os_FinalizeDangling :: "gotime \<Rightarrow> 's \<Rightarrow> store_error option \<times> 's"

text \<open>
  The contract of the port: a failed operation changes nothing; the open windows change
  as the operation says. The two freshness predicates say that an identifier was never used.
\<close>

locale window_store =
  fixes ops :: "'s OpportunityStore"
    and open_windows :: "'s \<Rightarrow> WindowID \<rightharpoonup> OpportunityWindow"
    and fresh_window :: "'s \<Rightarrow> WindowID \<Rightarrow> bool"
    and fresh_observation :: "'s \<Rightarrow> string \<Rightarrow> bool"
  assumes fresh_not_open: "fresh_window s wid \<Longrightarrow> open_windows s wid = None"
    and open_fails: "os_OpenWindow ops w s = (Some e, s') \<Longrightarrow> s' = s"
    and open_succeeds: "os_OpenWindow ops w s = (None, s') \<Longrightarrow> fresh_window s (ow_ID w) \<Longrightarrow> ow_Status w = WindowStatusOpen \<Longrightarrow>
      WindowValidate w = None \<and> open_windows s' = (open_windows s)(ow_ID w \<mapsto> stored_window w)"
    and record_fails: "os_RecordImprovement ops ob s = (Some e, s') \<Longrightarrow> s' = s"
    and record_succeeds: "os_RecordImprovement ops ob s = (None, s') \<Longrightarrow> fresh_observation s (wo_ID ob) \<Longrightarrow>
      ObservationValidate ob = None \<and> (\<exists>w. open_windows s (wo_WindowID ob) = Some w \<and>
        open_windows s' = (open_windows s)(wo_WindowID ob \<mapsto> improved_window ob w))"
    and close_fails: "os_CloseWindow ops c s = (Some e, s') \<Longrightarrow> s' = s"
    and close_succeeds: "os_CloseWindow ops c s = (None, s') \<Longrightarrow> open_windows s' = (open_windows s)(wl_WindowID c := None)"
    and fail_fails: "os_FailWindow ops f s = (Some e, s') \<Longrightarrow> s' = s"
    and fail_succeeds: "os_FailWindow ops f s = (None, s') \<Longrightarrow> open_windows s' = (open_windows s)(wf_WindowID f := None)"
    and finalize_fails: "os_FinalizeDangling ops at' s = (Some e, s') \<Longrightarrow> s' = s"
    and finalize_succeeds: "os_FinalizeDangling ops at' s = (None, s') \<Longrightarrow> open_windows s' = Map.empty"

definition sqlite_store ::
  "(string \<Rightarrow> string) \<Rightarrow> (gotime \<Rightarrow> string) \<Rightarrow> (gotime \<Rightarrow> gotime \<Rightarrow> int) \<Rightarrow> string option \<Rightarrow> WindowTables OpportunityStore" where
  "sqlite_store sha256 rfc3339 julianDuration dbErr =
     \<lparr>os_OpenWindow = OpenWindow sha256 rfc3339 dbErr, os_RecordImprovement = RecordImprovement rfc3339 dbErr,
      os_CloseWindow = CloseWindow dbErr, os_FailWindow = FailWindow dbErr,
      os_FinalizeDangling = FinalizeDangling julianDuration dbErr\<rparr>"

definition open_rows :: "WindowTables \<Rightarrow> WindowID \<rightharpoonup> OpportunityWindow" where
  "open_rows s wid = (case wt_windows s wid of
     None \<Rightarrow> None
   | Some row \<Rightarrow> if ow_Status (wr_window row) = WindowStatusOpen then Some (wr_window row) else None)"

definition window_unused :: "WindowTables \<Rightarrow> WindowID \<Rightarrow> bool" where
  "window_unused s wid \<longleftrightarrow> wt_windows s wid = None"

definition observation_unused :: "WindowTables \<Rightarrow> string \<Rightarrow> bool" where
  "observation_unused s oid \<longleftrightarrow> \<not> list_ex (\<lambda>row. wo_ID (obr_observation row) = oid) (wt_observations s)"

lemma open_rows_update:
  "wt_windows s' = (wt_windows s)(wid \<mapsto> row) \<Longrightarrow>
     open_rows s' = (open_rows s)(wid := if ow_Status (wr_window row) = WindowStatusOpen then Some (wr_window row) else None)"
  by (auto simp: open_rows_def fun_eq_iff)

lemma stored_status [simp]: "ow_Status (stored_window w) = ow_Status w"
  by (simp add: stored_window_def)

lemma finishWindow_cases:
  assumes "finishWindow dbErr wid closedAt lst status reason degraded s = (res, s')"
  shows "s' = s \<and> (res = None \<longrightarrow> open_rows s wid = None) \<or>
    (\<exists>row. res = None \<and> wt_windows s wid = Some row \<and> ow_Status (wr_window row) = WindowStatusOpen \<and> s' = s\<lparr>wt_windows := (wt_windows s)(wid \<mapsto>
       row\<lparr>wr_window := (wr_window row)\<lparr>ow_LastProfitableAt := lst, ow_ClosedAt := closedAt, ow_Status := status,
         ow_CloseReason := reason, ow_Degraded := degraded\<rparr>, wr_duration := TimeSub closedAt (ow_OpenedAt (wr_window row))\<rparr>)\<rparr>)"
  using assms
  by (auto simp: finishWindow_def open_rows_def Let_def split: if_splits option.splits)

lemma finishWindow_open_rows:
  assumes "finishWindow dbErr wid closedAt lst status reason degraded s = (None, s')" and "status \<noteq> WindowStatusOpen"
  shows "open_rows s' = (open_rows s)(wid := None)"
  using finishWindow_cases [OF assms(1)] assms(2) by (auto simp: open_rows_def fun_eq_iff)

lemma finishWindow_fails: "finishWindow dbErr wid closedAt lst status reason degraded s = (Some e, s') \<Longrightarrow> s' = s"
  by (auto dest: finishWindow_cases)

interpretation sqlite: window_store "sqlite_store sha256 rfc3339 julianDuration dbErr" open_rows window_unused observation_unused
  for sha256 rfc3339 julianDuration dbErr
proof
  fix s wid
  assume "window_unused s wid"
  then show "open_rows s wid = None" by (simp add: window_unused_def open_rows_def)
next
  fix w s e s'
  assume "os_OpenWindow (sqlite_store sha256 rfc3339 julianDuration dbErr) w s = (Some e, s')"
  then show "s' = s" by (auto simp: sqlite_store_def OpenWindow_def split: option.splits if_splits)
next
  fix w s s'
  assume "os_OpenWindow (sqlite_store sha256 rfc3339 julianDuration dbErr) w s = (None, s')" "window_unused s (ow_ID w)"
    "ow_Status w = WindowStatusOpen"
  then show "WindowValidate w = None \<and> open_rows s' = (open_rows s)(ow_ID w \<mapsto> stored_window w)"
    by (auto simp: sqlite_store_def OpenWindow_def window_unused_def open_rows_update [of _ s "ow_ID w"] split: option.splits)
next
  fix ob s e s'
  assume "os_RecordImprovement (sqlite_store sha256 rfc3339 julianDuration dbErr) ob s = (Some e, s')"
  then show "s' = s" by (auto simp: sqlite_store_def RecordImprovement_def split: option.splits if_splits)
next
  fix ob s s'
  assume run: "os_RecordImprovement (sqlite_store sha256 rfc3339 julianDuration dbErr) ob s = (None, s')"
    and fresh: "observation_unused s (wo_ID ob)"
  have "find (\<lambda>row. wo_ID (obr_observation row) = wo_ID ob) (wt_observations s) = None"
    using fresh by (auto simp: observation_unused_def list_ex_iff find_None_iff)
  with run obtain row where row: "ObservationValidate ob = None" "wt_windows s (wo_WindowID ob) = Some row"
      "ow_Status (wr_window row) = WindowStatusOpen"
      "wt_windows s' = (wt_windows s)(wo_WindowID ob \<mapsto> row\<lparr>wr_window := improved_window ob (wr_window row)\<rparr>)"
    by (auto simp: sqlite_store_def RecordImprovement_def split: option.splits if_splits)
  then show "ObservationValidate ob = None \<and> (\<exists>w. open_rows s (wo_WindowID ob) = Some w \<and>
      open_rows s' = (open_rows s)(wo_WindowID ob \<mapsto> improved_window ob w))"
    by (auto simp: open_rows_def improved_window_def fun_eq_iff)
qed (auto simp: sqlite_store_def CloseWindow_def FailWindow_def FinalizeDangling_def open_rows_def
      dest: finishWindow_fails intro!: finishWindow_open_rows split: option.splits if_splits)

end
