(* ===== verification/Window_Tracker.thy ===== *)
theory Window_Tracker
  imports Window_Store
begin

text \<open>
  The lifecycle of opportunity windows, \<open>src/core/research/window_tracker.go\<close>. The tracker
  keeps the active windows by key and writes every change through an opportunity store. The
  store is an argument, the record of its operations, and its state is threaded through;
  the clock reading is an argument.
\<close>

section \<open>The tracker\<close>

record WindowTracker =
  tr_session :: string
  tr_qualification :: string
  tr_active :: "WindowKey \<rightharpoonup> OpportunityWindow"

datatype transition_kind = WindowTransitionNone | WindowTransitionOpened | WindowTransitionImproved | WindowTransitionClosed

record WindowTransition =
  wx_Kind :: transition_kind
  wx_Window :: "OpportunityWindow option"
  wx_Opportunity :: Opportunity

datatype tracker_error =
    TrackerIncomplete
  | UnsupportedQualification string
  | OpportunityIdentity
  | NoSelectedCandidate
  | TrackedWindow window_error
  | TrackedStore store_error
  | FailureReasonRequired

definition newWindowTracker :: "string \<Rightarrow> string \<Rightarrow> (tracker_error, WindowTracker) result" where
  "newWindowTracker session qualification =
     (if blank session then Inl TrackerIncomplete
      else if qualification \<noteq> ''economic'' \<and> qualification \<noteq> ''policy_qualified''
      then Inl (UnsupportedQualification qualification)
      else Inr \<lparr>tr_session = session, tr_qualification = qualification, tr_active = Map.empty\<rparr>)"

definition TrackerStart :: "'s OpportunityStore \<Rightarrow> gotime \<Rightarrow> 's \<Rightarrow> store_error option \<times> 's" where
  "TrackerStart ops now s = os_FinalizeDangling ops now s"

definition key_of_opportunity :: "Opportunity \<Rightarrow> WindowKey" where
  "key_of_opportunity opp = \<lparr>wk_Run = op_Run opp, wk_Strategy = op_Strategy opp, wk_ConfigHash = op_ConfigHash opp,
     wk_Direction = op_Direction opp\<rparr>"

definition opportunityTime :: "Opportunity \<Rightarrow> gotime \<Rightarrow> gotime" where
  "opportunityTime opp fallback =
     (if \<not> IsZeroTime (op_FinishedAt opp) then op_FinishedAt opp
      else if \<not> IsZeroTime (op_StartedAt opp) then op_StartedAt opp
      else fallback)"

definition selectedCandidate :: "Opportunity \<Rightarrow> WindowCandidate option" where
  "selectedCandidate opp =
     (if op_SelectedIndex opp < 0 \<or> op_SelectedIndex opp \<ge> int (length (op_Candidates opp)) then None
      else let c = op_Candidates opp ! nat (op_SelectedIndex opp)
           in Some \<lparr>wc_Size = cd_Size c, wc_GrossPnL = cd_GrossPnL c, wc_NetPnL = cd_NetPnL c, wc_Cost = cs_Amount (cd_Cost c)\<rparr>)"

definition isFavorable :: "WindowTracker \<Rightarrow> string \<Rightarrow> bool" where
  "isFavorable t classification \<longleftrightarrow>
     (if tr_qualification t = ''policy_qualified'' then classification = ClassificationPolicyQualified
      else classification = ClassificationEconomic \<or> classification = ClassificationPolicyQualified)"

definition isFailure :: "Opportunity \<Rightarrow> bool" where
  "isFailure opp \<longleftrightarrow> op_Classification opp = ClassificationUnclassifiable \<and>
     list_ex (\<lambda>reason. contains reason ''degraded_market_snapshot'' \<or> contains reason ''websocket_disconnected'')
       (op_Reasons opp)"

definition closeReason :: "Opportunity \<Rightarrow> string" where
  "closeReason opp =
     (if isFailure opp then ''websocket_disconnected''
      else if op_Classification opp = ClassificationUnclassifiable then ''unclassifiable''
      else ''profitability_lost'')"

definition greater_qty :: "AssetQuantity \<Rightarrow> AssetQuantity \<Rightarrow> bool" where
  "greater_qty left right = (case QtyCmp left right of Inl _ \<Rightarrow> False | Inr comparison \<Rightarrow> comparison > 0)"

definition windowID :: "(string \<Rightarrow> string) \<Rightarrow> (gotime \<Rightarrow> string) \<Rightarrow> string \<Rightarrow> Opportunity \<Rightarrow> WindowID" where
  "windowID sha256 rfc3339 session opp = ''window-'' @ hexEncode (take 16 (sha256 (join_strings ''|''
     [session, op_Run opp, op_Strategy opp, op_ConfigHash opp, dir_BuyMarket (op_Direction opp),
      dir_SellMarket (op_Direction opp), op_Evaluation opp, rfc3339 (op_TriggeredAt opp),
      sr_Kind (tm_Reference (op_Trigger opp)), sr_Value (tm_Reference (op_Trigger opp))])))"

definition observationID :: "(string \<Rightarrow> string) \<Rightarrow> WindowID \<Rightarrow> EvaluationID \<Rightarrow> string" where
  "observationID sha256 window evaluation =
     ''observation-'' @ hexEncode (take 16 (sha256 (window @ ''|'' @ evaluation)))"

definition opening_window ::
  "(string \<Rightarrow> string) \<Rightarrow> (gotime \<Rightarrow> string) \<Rightarrow> gotime \<Rightarrow> WindowTracker \<Rightarrow> Opportunity \<Rightarrow>
   (tracker_error, OpportunityWindow) result" where
  "opening_window sha256 rfc3339 now t opp =
     (let observed = opportunityTime opp now;
          openedAt = (if IsZeroTime (op_TriggeredAt opp) then observed else op_TriggeredAt opp);
          observedAt = (if observed < openedAt then openedAt else observed)
      in case selectedCandidate opp of
           None \<Rightarrow> Inl NoSelectedCandidate
         | Some candidate \<Rightarrow>
             let trigger = op_Trigger opp;
                 window = \<lparr>ow_ID = windowID sha256 rfc3339 (tr_session t) opp, ow_Run = op_Run opp,
                   ow_Strategy = op_Strategy opp, ow_ConfigHash = op_ConfigHash opp, ow_Direction = op_Direction opp,
                   ow_Trigger = (if op_HasTrigger opp \<and> IsZeroTime (tm_At trigger) then trigger\<lparr>tm_At := openedAt\<rparr> else trigger),
                   ow_HasTrigger = op_HasTrigger opp, ow_OpenedAt = openedAt, ow_FirstProfitableAt = observedAt,
                   ow_LastProfitableAt = observedAt, ow_ClosedAt = 0, ow_Best = candidate, ow_HasBest = True,
                   ow_Threshold = op_Threshold opp, ow_Classification = op_Classification opp,
                   ow_Status = WindowStatusOpen, ow_CloseReason = [], ow_Degraded = False\<rparr>
             in check (map_option TrackedWindow (WindowValidate window)) (Inr window))"

text \<open>The next window, and the observation that reports it.\<close>

definition improvement ::
  "(string \<Rightarrow> string) \<Rightarrow> gotime \<Rightarrow> OpportunityWindow \<Rightarrow> Opportunity \<Rightarrow> OpportunityWindow \<times> WindowObservation" where
  "improvement sha256 now current opp =
     (let time = opportunityTime opp now;
          at_time = (if time < ow_LastProfitableAt current then ow_LastProfitableAt current else time);
          improved = (case selectedCandidate opp of
             None \<Rightarrow> False
           | Some c \<Rightarrow> \<not> ow_HasBest current \<or> greater_qty (wc_NetPnL c) (wc_NetPnL (ow_Best current)));
          nextBest = (if improved then the (selectedCandidate opp) else ow_Best current);
          next = current\<lparr>ow_LastProfitableAt := at_time, ow_Classification := op_Classification opp,
                   ow_Best := nextBest, ow_HasBest := (if improved then True else ow_HasBest current)\<rparr>
      in (next, \<lparr>wo_ID = observationID sha256 (ow_ID current) (op_Evaluation opp), wo_WindowID = ow_ID current,
                 wo_Evaluation = op_Evaluation opp, wo_ObservedAt = at_time,
                 wo_Classification = op_Classification opp, wo_Candidate = nextBest,
                 wo_HasCandidate = ow_HasBest next, wo_Best = improved\<rparr>))"

definition close_window ::
  "'s OpportunityStore \<Rightarrow> gotime \<Rightarrow> OpportunityWindow \<Rightarrow> Opportunity \<Rightarrow> 's \<Rightarrow> store_error option \<times> 's" where
  "close_window ops now current opp s =
     (let closed0 = (if IsZeroTime (op_TriggeredAt opp) then opportunityTime opp now else op_TriggeredAt opp);
          closedAt = (if closed0 < ow_LastProfitableAt current then ow_LastProfitableAt current else closed0);
          reason = closeReason opp
      in if isFailure opp
         then os_FailWindow ops \<lparr>wf_WindowID = ow_ID current, wf_ClosedAt = closedAt,
                wf_LastProfitableAt = ow_LastProfitableAt current, wf_Reason = reason\<rparr> s
         else os_CloseWindow ops \<lparr>wl_WindowID = ow_ID current, wl_ClosedAt = closedAt,
                wl_LastProfitableAt = ow_LastProfitableAt current, wl_Classification = op_Classification opp,
                wl_Reason = reason, wl_Degraded = False\<rparr> s)"

definition Observe ::
  "(string \<Rightarrow> string) \<Rightarrow> (gotime \<Rightarrow> string) \<Rightarrow> 's OpportunityStore \<Rightarrow> gotime \<Rightarrow> Opportunity \<Rightarrow> WindowTracker \<Rightarrow> 's \<Rightarrow>
   (tracker_error, WindowTransition) result \<times> WindowTracker \<times> 's" where
  "Observe sha256 rfc3339 ops now opp t s =
     (let key = key_of_opportunity opp in
      if wk_Run key = [] \<or> wk_Strategy key = [] \<or> wk_ConfigHash key = [] then (Inl OpportunityIdentity, t, s)
      else if isFavorable t (op_Classification opp)
      then (case tr_active t key of
          None \<Rightarrow>
            (case opening_window sha256 rfc3339 now t opp of
               Inl e \<Rightarrow> (Inl e, t, s)
             | Inr window \<Rightarrow>
               (case os_OpenWindow ops window s of
                  (Some e, s') \<Rightarrow> (Inl (TrackedStore e), t, s')
                | (None, s') \<Rightarrow>
                    (Inr \<lparr>wx_Kind = WindowTransitionOpened, wx_Window = Some window, wx_Opportunity = opp\<rparr>,
                     t\<lparr>tr_active := (tr_active t)(key \<mapsto> window)\<rparr>, s')))
        | Some active \<Rightarrow>
            (case improvement sha256 now active opp of
               (next, observation) \<Rightarrow>
               (case os_RecordImprovement ops observation s of
                  (Some e, s') \<Rightarrow> (Inl (TrackedStore e), t, s')
                | (None, s') \<Rightarrow>
                    (Inr \<lparr>wx_Kind = WindowTransitionImproved, wx_Window = Some next, wx_Opportunity = opp\<rparr>,
                     t\<lparr>tr_active := (tr_active t)(key \<mapsto> next)\<rparr>, s'))))
      else (case tr_active t key of
          None \<Rightarrow> (Inr \<lparr>wx_Kind = WindowTransitionNone, wx_Window = None, wx_Opportunity = opp\<rparr>, t, s)
        | Some active \<Rightarrow>
            (case close_window ops now active opp s of
               (Some e, s') \<Rightarrow> (Inl (TrackedStore e), t, s')
             | (None, s') \<Rightarrow>
                 (Inr \<lparr>wx_Kind = WindowTransitionClosed, wx_Window = Some active, wx_Opportunity = opp\<rparr>,
                  t\<lparr>tr_active := (tr_active t)(key := None)\<rparr>, s'))))"

text \<open>
  \<open>FailMarket\<close> ranges over the map of active windows while it deletes from it; the order
  in which Go visits the keys is the argument \<open>visit\<close>.
\<close>

fun fail_keys ::
  "'s OpportunityStore \<Rightarrow> MarketID \<Rightarrow> string \<Rightarrow> gotime \<Rightarrow> WindowKey list \<Rightarrow> WindowTracker \<Rightarrow> 's \<Rightarrow>
   tracker_error option \<times> WindowTracker \<times> 's" where
  "fail_keys ops mid reason at_time [] t s = (None, t, s)"
| "fail_keys ops mid reason at_time (key # rest) t s =
     (case tr_active t key of
        None \<Rightarrow> fail_keys ops mid reason at_time rest t s
      | Some window \<Rightarrow>
          if mid \<noteq> [] \<and> dir_BuyMarket (wk_Direction key) \<noteq> mid \<and> dir_SellMarket (wk_Direction key) \<noteq> mid
          then fail_keys ops mid reason at_time rest t s
          else
            (let closedAt = (if at_time < ow_LastProfitableAt window then ow_LastProfitableAt window else at_time)
             in case os_FailWindow ops \<lparr>wf_WindowID = ow_ID window, wf_ClosedAt = closedAt,
                       wf_LastProfitableAt = ow_LastProfitableAt window, wf_Reason = reason\<rparr> s of
                  (Some e, s') \<Rightarrow> (Some (TrackedStore e), t, s')
                | (None, s') \<Rightarrow>
                    fail_keys ops mid reason at_time rest (t\<lparr>tr_active := (tr_active t)(key := None)\<rparr>) s'))"

definition FailMarket ::
  "'s OpportunityStore \<Rightarrow> gotime \<Rightarrow> MarketID \<Rightarrow> string \<Rightarrow> gotime \<Rightarrow> WindowKey list \<Rightarrow> WindowTracker \<Rightarrow> 's \<Rightarrow>
   tracker_error option \<times> WindowTracker \<times> 's" where
  "FailMarket ops now mid reason at_time visit t s =
     (if blank reason then (Some FailureReasonRequired, t, s)
      else fail_keys ops mid reason (if IsZeroTime at_time then now else at_time) visit t s)"

section \<open>The tracker and the store agree\<close>

text \<open>
  The relation between the tracker's memory and the durable state: every active window is
  a valid open window filed under its own key, and the open windows of the store are
  exactly the active ones.
\<close>

lemma stored_key [simp]: "KeyOf (stored_window w) = KeyOf w"
  by (simp add: KeyOf_def stored_window_def)

context window_store
begin

definition tracks :: "WindowTracker \<Rightarrow> 's \<Rightarrow> bool" where
  "tracks t s \<longleftrightarrow>
     (\<forall>k w. tr_active t k = Some w \<longrightarrow> KeyOf w = k \<and> WindowValidate w = None \<and> ow_Status w = WindowStatusOpen) \<and>
     (\<forall>wid w'. open_windows s wid = Some w' \<longleftrightarrow> (\<exists>k w. tr_active t k = Some w \<and> ow_ID w = wid \<and> w' = stored_window w))"

lemma tracksI:
  assumes "\<And>k w. tr_active t k = Some w \<Longrightarrow> KeyOf w = k \<and> WindowValidate w = None \<and> ow_Status w = WindowStatusOpen"
    and "\<And>wid w'. open_windows s wid = Some w' \<Longrightarrow> \<exists>k w. tr_active t k = Some w \<and> ow_ID w = wid \<and> w' = stored_window w"
    and "\<And>k w. tr_active t k = Some w \<Longrightarrow> open_windows s (ow_ID w) = Some (stored_window w)"
  shows "tracks t s"
  using assms unfolding tracks_def by blast

lemma tracksD:
  assumes "tracks t s"
  shows "tr_active t k = Some w \<Longrightarrow> KeyOf w = k \<and> WindowValidate w = None \<and> ow_Status w = WindowStatusOpen"
    and "open_windows s wid = Some w' \<Longrightarrow> \<exists>k w. tr_active t k = Some w \<and> ow_ID w = wid \<and> w' = stored_window w"
    and "tr_active t k = Some w \<Longrightarrow> open_windows s (ow_ID w) = Some (stored_window w)"
  using assms unfolding tracks_def by blast+

text \<open>Two active windows never share an identifier.\<close>

lemma tracks_unique_id:
  assumes "tracks t s" "tr_active t k = Some w" "tr_active t k' = Some w'" "ow_ID w = ow_ID w'"
  shows "k = k'"
proof -
  have "stored_window w = stored_window w'"
    using tracksD(3) [OF assms(1,2)] tracksD(3) [OF assms(1,3)] assms(4) by simp
  then have "KeyOf w = KeyOf w'" by (metis stored_key)
  then show ?thesis using tracksD(1) [OF assms(1)] assms(2,3) by metis
qed

lemma tracks_close:
  assumes tr: "tracks t s" "tr_active t k = Some w" and s': "open_windows s' = (open_windows s)(ow_ID w := None)"
  shows "tracks (t\<lparr>tr_active := (tr_active t)(k := None)\<rparr>) s'"
proof (rule tracksI)
  fix wid w' assume "open_windows s' wid = Some w'"
  then have "open_windows s wid = Some w'" "wid \<noteq> ow_ID w" using s' by (auto split: if_splits)
  then obtain j v where j: "tr_active t j = Some v" "ow_ID v = wid" "w' = stored_window v" "wid \<noteq> ow_ID w"
    using tracksD(2) [OF tr(1)] by metis
  then have "j \<noteq> k" using tr(2) by auto
  then show "\<exists>j v. tr_active (t\<lparr>tr_active := (tr_active t)(k := None)\<rparr>) j = Some v \<and> ow_ID v = wid \<and> w' = stored_window v"
    using j by (intro exI [of _ j] exI [of _ v]) simp
next
  fix j v assume "tr_active (t\<lparr>tr_active := (tr_active t)(k := None)\<rparr>) j = Some v"
  then have jv: "j \<noteq> k" "tr_active t j = Some v" by (auto split: if_splits)
  have "ow_ID v \<noteq> ow_ID w" using tracks_unique_id [OF tr(1) jv(2) tr(2)] jv(1) by blast
  then show "open_windows s' (ow_ID v) = Some (stored_window v)" using tracksD(3) [OF tr(1) jv(2)] s' by simp
qed (use tracksD(1) [OF tr(1)] in \<open>auto split: if_splits\<close>)

lemma tracks_put:
  assumes tr: "tracks t s" and w: "KeyOf w = k" "WindowValidate w = None" "ow_Status w = WindowStatusOpen"
    and slot: "case tr_active t k of None \<Rightarrow> open_windows s (ow_ID w) = None | Some v \<Rightarrow> ow_ID v = ow_ID w"
    and s': "open_windows s' = (open_windows s)(ow_ID w \<mapsto> stored_window w)"
  shows "tracks (t\<lparr>tr_active := (tr_active t)(k \<mapsto> w)\<rparr>) s'"
proof (rule tracksI)
  fix j v assume "tr_active (t\<lparr>tr_active := (tr_active t)(k \<mapsto> w)\<rparr>) j = Some v"
  then consider "j = k" "v = w" | "j \<noteq> k" "tr_active t j = Some v" by (auto split: if_splits)
  then show "open_windows s' (ow_ID v) = Some (stored_window v)"
  proof cases
    case 2
    have "ow_ID v \<noteq> ow_ID w"
    proof (cases "tr_active t k")
      case None
      then show ?thesis using slot tracksD(3) [OF tr 2(2)] by auto
    next
      case (Some u)
      then show ?thesis using slot tracks_unique_id [OF tr 2(2) Some] 2(1) by auto
    qed
    then show ?thesis using tracksD(3) [OF tr 2(2)] s' by simp
  qed (simp add: s')
next
  fix wid w' assume "open_windows s' wid = Some w'"
  then consider "wid = ow_ID w" "w' = stored_window w" | "wid \<noteq> ow_ID w" "open_windows s wid = Some w'"
    using s' by (auto split: if_splits)
  then show "\<exists>j v. tr_active (t\<lparr>tr_active := (tr_active t)(k \<mapsto> w)\<rparr>) j = Some v \<and> ow_ID v = wid \<and> w' = stored_window v"
  proof cases
    case 2
    then obtain j v where j: "tr_active t j = Some v" "ow_ID v = wid" "w' = stored_window v"
      using tracksD(2) [OF tr] by metis
    moreover have "j \<noteq> k" using slot j(1,2) 2(1) by auto
    ultimately show ?thesis by (intro exI [of _ j] exI [of _ v]) simp
  qed (intro exI [of _ k] exI [of _ w], simp)
qed (use tracksD(1) [OF tr] w in \<open>auto split: if_splits\<close>)

end

text \<open>What an opening produces, and that an improvement keeps a window valid.\<close>

lemma opening_window_Inr:
  assumes "opening_window sha256 rfc3339 now t opp = Inr w"
  shows "KeyOf w = key_of_opportunity opp \<and> WindowValidate w = None \<and> ow_Status w = WindowStatusOpen"
  using assms
  by (auto simp: opening_window_def Let_def check_eq_Inr KeyOf_def key_of_opportunity_def split: option.splits)

lemma isFavorable_class:
  "isFavorable t c \<Longrightarrow> c = ClassificationEconomic \<or> c = ClassificationPolicyQualified"
  by (auto simp: isFavorable_def split: if_splits)

lemma greater_qty_asset: "greater_qty a b \<Longrightarrow> qty_asset a = qty_asset b \<and> qty_value b < qty_value a"
  by (auto simp: greater_qty_def QtyCmp_def split: if_splits)

definition window_shape :: "OpportunityWindow \<Rightarrow> bool" where
  "window_shape w \<longleftrightarrow>
     ow_ID w \<noteq> [] \<and> ow_Run w \<noteq> [] \<and> ow_Strategy w \<noteq> [] \<and> ow_ConfigHash w \<noteq> [] \<and>
     dir_BuyMarket (ow_Direction w) \<noteq> [] \<and> dir_SellMarket (ow_Direction w) \<noteq> [] \<and>
     dir_BuyMarket (ow_Direction w) \<noteq> dir_SellMarket (ow_Direction w) \<and>
     ow_OpenedAt w \<noteq> 0 \<and> ow_FirstProfitableAt w \<noteq> 0 \<and> ow_LastProfitableAt w \<noteq> 0 \<and>
     ow_OpenedAt w \<le> ow_FirstProfitableAt w \<and> ow_FirstProfitableAt w \<le> ow_LastProfitableAt w \<and>
     (ow_HasTrigger w \<longrightarrow> TriggerValidate (ow_Trigger w) = None) \<and>
     ow_HasBest w \<and> WindowCandidateValidate (ow_Best w) = None \<and>
     qty_asset (ow_Threshold w) \<noteq> [] \<and> qty_asset (ow_Threshold w) = qty_asset (wc_NetPnL (ow_Best w)) \<and>
     \<not> QtySign (ow_Threshold w) < 0 \<and>
     (ow_Classification w = ClassificationEconomic \<or> ow_Classification w = ClassificationPolicyQualified) \<and>
     status_error w = None"

lemma WindowValidate_None: "WindowValidate w = None \<longleftrightarrow> window_shape w"
  by (simp add: WindowValidate_def window_shape_def IsZeroTime_def split: option.split) linarith

text \<open>An improvement moves the last profitable time forward and replaces the best candidate only by a better one.\<close>

lemma improvement_shape:
  assumes imp: "improvement sha256 now w opp = (w', ob)" and best: "ow_HasBest w"
  obtains time b better where
    "w' = w\<lparr>ow_LastProfitableAt := time, ow_Classification := op_Classification opp, ow_Best := b\<rparr>"
    "ob = \<lparr>wo_ID = observationID sha256 (ow_ID w) (op_Evaluation opp), wo_WindowID = ow_ID w,
       wo_Evaluation = op_Evaluation opp, wo_ObservedAt = time, wo_Classification = op_Classification opp,
       wo_Candidate = b, wo_HasCandidate = True, wo_Best = better\<rparr>"
    "ow_LastProfitableAt w \<le> time"
    "if better then greater_qty (wc_NetPnL b) (wc_NetPnL (ow_Best w)) else b = ow_Best w"
proof -
  define time where "time = (if opportunityTime opp now < ow_LastProfitableAt w then ow_LastProfitableAt w else opportunityTime opp now)"
  define better where "better \<longleftrightarrow> (case selectedCandidate opp of None \<Rightarrow> False
    | Some c \<Rightarrow> \<not> ow_HasBest w \<or> greater_qty (wc_NetPnL c) (wc_NetPnL (ow_Best w)))"
  define b where "b = (if better then the (selectedCandidate opp) else ow_Best w)"
  have keep: "w\<lparr>ow_LastProfitableAt := x, ow_Classification := y, ow_Best := z, ow_HasBest := True\<rparr> =
      w\<lparr>ow_LastProfitableAt := x, ow_Classification := y, ow_Best := z\<rparr>" for x y z using best by (cases w) simp
  have eq: "(w', ob) = (w\<lparr>ow_LastProfitableAt := time, ow_Classification := op_Classification opp, ow_Best := b, ow_HasBest := True\<rparr>,
     \<lparr>wo_ID = observationID sha256 (ow_ID w) (op_Evaluation opp), wo_WindowID = ow_ID w,
       wo_Evaluation = op_Evaluation opp, wo_ObservedAt = time, wo_Classification = op_Classification opp,
       wo_Candidate = b, wo_HasCandidate = True, wo_Best = better\<rparr>)"
    unfolding imp [symmetric] improvement_def Let_def better_def [symmetric] b_def [symmetric] time_def [symmetric]
    using best by simp
  have cand: "if better then greater_qty (wc_NetPnL b) (wc_NetPnL (ow_Best w)) else b = ow_Best w"
    using best by (auto simp: b_def better_def split: option.splits)
  have "ow_LastProfitableAt w \<le> time" by (simp add: time_def)
  then show thesis using that [of b time better] eq cand unfolding keep by blast
qed

lemma improvement_frame:
  assumes imp: "improvement sha256 now w opp = (w', ob)" and best: "ow_HasBest w"
  shows "KeyOf w' = KeyOf w \<and> ow_ID w' = ow_ID w \<and> ow_Status w' = ow_Status w \<and> wo_WindowID ob = ow_ID w \<and>
    wo_ID ob = observationID sha256 (ow_ID w) (op_Evaluation opp) \<and> stored_window w' = improved_window ob (stored_window w)"
  by (rule improvement_shape [OF imp best])
    (simp add: KeyOf_def stored_window_def improved_window_def split: if_splits)

lemma improvement_valid:
  assumes imp: "improvement sha256 now w opp = (w', ob)" and ok: "WindowValidate w = None"
    and st: "ow_Status w = WindowStatusOpen" and obs: "ObservationValidate ob = None"
  shows "WindowValidate w' = None"
proof -
  note w = ok [unfolded WindowValidate_None window_shape_def]
  have best: "ow_HasBest w" using w by blast
  obtain time b better where shape:
    "w' = w\<lparr>ow_LastProfitableAt := time, ow_Classification := op_Classification opp, ow_Best := b\<rparr>"
    "ob = \<lparr>wo_ID = observationID sha256 (ow_ID w) (op_Evaluation opp), wo_WindowID = ow_ID w,
       wo_Evaluation = op_Evaluation opp, wo_ObservedAt = time, wo_Classification = op_Classification opp,
       wo_Candidate = b, wo_HasCandidate = True, wo_Best = better\<rparr>"
    "ow_LastProfitableAt w \<le> time"
    "if better then greater_qty (wc_NetPnL b) (wc_NetPnL (ow_Best w)) else b = ow_Best w"
    by (rule improvement_shape [OF imp best])
  have ob: "WindowCandidateValidate b = None" "time \<noteq> 0"
    "op_Classification opp = ClassificationEconomic \<or> op_Classification opp = ClassificationPolicyQualified"
    using obs by (auto simp: shape(2) ObservationValidate_def IsZeroTime_def split: if_splits option.splits)
  have asset: "qty_asset (wc_NetPnL b) = qty_asset (wc_NetPnL (ow_Best w))"
    using shape(4) greater_qty_asset by (metis (full_types))
  have status: "status_error w' = status_error w" by (simp add: shape(1) status_error_def st)
  have order: "ow_FirstProfitableAt w \<le> time" using w shape(3) by linarith
  show ?thesis
    unfolding WindowValidate_None window_shape_def status
    using w ob order asset by (auto simp: shape(1))
qed

text \<open>The windows that \<open>FailMarket\<close> leaves alone.\<close>

definition unrelated :: "MarketID \<Rightarrow> WindowKey \<Rightarrow> bool" where
  "unrelated mid k \<longleftrightarrow> mid \<noteq> [] \<and> dir_BuyMarket (wk_Direction k) \<noteq> mid \<and> dir_SellMarket (wk_Direction k) \<noteq> mid"

lemma fail_keys_keeps:
  "fail_keys ops mid reason at_time visit t s = (res, t', s') \<Longrightarrow> tr_active t k = Some w \<Longrightarrow> unrelated mid k \<Longrightarrow>
     tr_active t' k = Some w"
proof (induction visit arbitrary: t s)
  case (Cons key rest)
  show ?case
  proof (cases "key = k")
    case True
    then show ?thesis using Cons by (simp add: unrelated_def)
  next
    case False
    have next_key: "tr_active (t\<lparr>tr_active := (tr_active t)(key := None)\<rparr>) k = Some w" using False Cons.prems(2) by simp
    show ?thesis
      using Cons.prems(1) Cons.IH [OF _ Cons.prems(2,3)] Cons.IH [OF _ next_key Cons.prems(3)] Cons.prems(2)
      by (auto simp: Let_def split: option.splits if_splits prod.splits)
  qed
qed simp

context window_store
begin

lemma close_window_result:
  assumes "close_window ops now w opp s = (res, s')"
  shows "(case res of Some e \<Rightarrow> s' = s | None \<Rightarrow> open_windows s' = (open_windows s)(ow_ID w := None))"
  using assms fail_fails close_fails fail_succeeds close_succeeds
  by (auto simp: close_window_def Let_def split: option.split if_splits)

lemma Observe_tracks:
  assumes tr: "tracks t s" and run: "Observe sha256 rfc3339 ops now opp t s = (res, t', s')"
    and fresh_w: "fresh_window s (windowID sha256 rfc3339 (tr_session t) opp)"
    and fresh_o: "\<And>w. tr_active t (key_of_opportunity opp) = Some w \<Longrightarrow>
      fresh_observation s (observationID sha256 (ow_ID w) (op_Evaluation opp))"
  shows "tracks t' s'"
proof -
  let ?k = "key_of_opportunity opp"
  consider (same) "t' = t" "s' = s"
    | (opened) w where "tr_active t ?k = None" "opening_window sha256 rfc3339 now t opp = Inr w"
        "os_OpenWindow ops w s = (None, s')" "t' = t\<lparr>tr_active := (tr_active t)(?k \<mapsto> w)\<rparr>"
    | (improved) w w' ob where "tr_active t ?k = Some w" "improvement sha256 now w opp = (w', ob)"
        "os_RecordImprovement ops ob s = (None, s')" "t' = t\<lparr>tr_active := (tr_active t)(?k \<mapsto> w')\<rparr>"
    | (closed) w where "tr_active t ?k = Some w" "close_window ops now w opp s = (None, s')"
        "t' = t\<lparr>tr_active := (tr_active t)(?k := None)\<rparr>"
    using run open_fails record_fails close_window_result
    by (fastforce simp: Observe_def Let_def split: if_splits option.splits sum.splits prod.splits)
  then show ?thesis
  proof cases
    case opened
    have w: "KeyOf w = ?k \<and> WindowValidate w = None \<and> ow_Status w = WindowStatusOpen" by (rule opening_window_Inr [OF opened(2)])
    have wid: "ow_ID w = windowID sha256 rfc3339 (tr_session t) opp"
      using opened(2) by (auto simp: opening_window_def Let_def check_eq_Inr split: option.splits)
    have "open_windows s' = (open_windows s)(ow_ID w \<mapsto> stored_window w)"
      using open_succeeds [OF opened(3)] fresh_w w wid by simp
    then show ?thesis unfolding opened(4)
      using w opened(1) fresh_not_open [OF fresh_w] by (intro tracks_put [OF tr]) (simp_all add: wid)
  next
    case improved
    note w = tracksD(1) [OF tr improved(1)]
    have best: "ow_HasBest w" using w by (auto simp: WindowValidate_None window_shape_def)
    note frame = improvement_frame [OF improved(2) best]
    have obs: "ObservationValidate ob = None" and s': "open_windows s' = (open_windows s)(ow_ID w \<mapsto> stored_window w')"
      using record_succeeds [OF improved(3)] fresh_o [OF improved(1)] frame tracksD(3) [OF tr improved(1)] by auto
    have "WindowValidate w' = None" using improvement_valid [OF improved(2) _ _ obs] w by simp
    then show ?thesis unfolding improved(4)
      using w frame s' improved(1) by (intro tracks_put [OF tr]) simp_all
  next
    case closed
    then show ?thesis using tracks_close [OF tr closed(1)] close_window_result [OF closed(2)] by simp
  qed (use tr in simp)
qed

lemma fail_keys_tracks:
  "fail_keys ops mid reason at_time visit t s = (res, t', s') \<Longrightarrow> tracks t s \<Longrightarrow>
     tracks t' s' \<and> (\<forall>k w. tr_active t' k = Some w \<longrightarrow> tr_active t k = Some w \<and>
       (res = None \<and> k \<in> set visit \<longrightarrow> unrelated mid k))"
proof (induction visit arbitrary: t s)
  case (Cons key rest)
  show ?case
  proof (cases "case tr_active t key of None \<Rightarrow> True | Some _ \<Rightarrow> unrelated mid key")
    case True
    have "fail_keys ops mid reason at_time rest t s = (res, t', s')"
      using Cons.prems(1) True by (auto simp: unrelated_def split: option.splits)
    from Cons.IH [OF this Cons.prems(2)] show ?thesis using True by (auto split: option.splits)
  next
    case False
    then obtain w where w: "tr_active t key = Some w" "\<not> unrelated mid key" by (auto split: option.splits)
    define f where "f = \<lparr>wf_WindowID = ow_ID w,
      wf_ClosedAt = (if at_time < ow_LastProfitableAt w then ow_LastProfitableAt w else at_time),
      wf_LastProfitableAt = ow_LastProfitableAt w, wf_Reason = reason\<rparr>"
    obtain fres s1 where f: "os_FailWindow ops f s = (fres, s1)" by fastforce
    let ?t = "t\<lparr>tr_active := (tr_active t)(key := None)\<rparr>"
    show ?thesis
    proof (cases fres)
      case (Some e)
      then have "t' = t" "s' = s" "res \<noteq> None"
        using Cons.prems(1) w f fail_fails [of f s e s1] by (auto simp: f_def [symmetric] unrelated_def Let_def)
      then show ?thesis using Cons.prems(2) by auto
    next
      case None
      have rec: "fail_keys ops mid reason at_time rest ?t s1 = (res, t', s')"
        using Cons.prems(1) w f None by (auto simp: f_def [symmetric] unrelated_def Let_def)
      have "wf_WindowID f = ow_ID w" by (simp add: f_def)
      then have "tracks ?t s1" using fail_succeeds f None tracks_close [OF Cons.prems(2) w(1)] by simp
      from Cons.IH [OF rec this] have ih: "tracks t' s'"
        "\<And>k w. tr_active t' k = Some w \<Longrightarrow> tr_active ?t k = Some w \<and> (res = None \<and> k \<in> set rest \<longrightarrow> unrelated mid k)"
        by blast+
      have "tr_active t k = Some w \<and> (res = None \<and> k \<in> set (key # rest) \<longrightarrow> unrelated mid k)"
        if "tr_active t' k = Some w" for k w using ih(2) [OF that] by (auto split: if_splits)
      then show ?thesis using ih(1) by blast
    qed
  qed
qed simp

lemma FailMarket_tracks:
  assumes "FailMarket ops now mid reason at_time visit t s = (res, t', s')" and "tracks t s"
  shows "tracks t' s' \<and> (\<forall>k w. tr_active t' k = Some w \<longrightarrow> tr_active t k = Some w \<and>
       (res = None \<and> k \<in> set visit \<longrightarrow> unrelated mid k))"
  using assms fail_keys_tracks [of mid reason _ visit t s res t' s'] by (auto simp: FailMarket_def split: if_splits)

end

section \<open>Runs\<close>

text \<open>
  One use of the tracker over the SQLite store. Every use may meet a database failure.
  Evaluation identifiers are unique in a session, so a window or observation identifier
  is unused when it is first derived.
\<close>

inductive tracker_step ::
  "(string \<Rightarrow> string) \<Rightarrow> (gotime \<Rightarrow> string) \<Rightarrow> (gotime \<Rightarrow> gotime \<Rightarrow> int) \<Rightarrow>
   WindowTracker \<times> WindowTables \<Rightarrow> WindowTracker \<times> WindowTables \<Rightarrow> bool"
  for sha256 rfc3339 julianDuration where
  observe: "Observe sha256 rfc3339 (sqlite_store sha256 rfc3339 julianDuration dbErr) now opp t s = (res, t', s') \<Longrightarrow>
     window_unused s (windowID sha256 rfc3339 (tr_session t) opp) \<Longrightarrow>
     (\<And>w. tr_active t (key_of_opportunity opp) = Some w \<Longrightarrow>
        observation_unused s (observationID sha256 (ow_ID w) (op_Evaluation opp))) \<Longrightarrow>
     tracker_step sha256 rfc3339 julianDuration (t, s) (t', s')"
| fail_market: "FailMarket (sqlite_store sha256 rfc3339 julianDuration dbErr) now mid reason at_time visit t s = (fres, t', s') \<Longrightarrow>
     tracker_step sha256 rfc3339 julianDuration (t, s) (t', s')"

inductive tracker_run ::
  "(string \<Rightarrow> string) \<Rightarrow> (gotime \<Rightarrow> string) \<Rightarrow> (gotime \<Rightarrow> gotime \<Rightarrow> int) \<Rightarrow>
   WindowTracker \<times> WindowTables \<Rightarrow> WindowTracker \<times> WindowTables \<Rightarrow> bool"
  for sha256 rfc3339 julianDuration where
  start: "newWindowTracker session qualification = Inr t \<Longrightarrow>
     TrackerStart (sqlite_store sha256 rfc3339 julianDuration dbErr) now s0 = (None, s) \<Longrightarrow>
     tracker_run sha256 rfc3339 julianDuration (t, s) (t, s)"
| continue: "tracker_run sha256 rfc3339 julianDuration a b \<Longrightarrow> tracker_step sha256 rfc3339 julianDuration b c \<Longrightarrow>
     tracker_run sha256 rfc3339 julianDuration a c"

lemma tracker_run_tracks:
  "tracker_run sha256 rfc3339 julianDuration a b \<Longrightarrow> sqlite.tracks (fst b) (snd b)"
proof (induction rule: tracker_run.induct)
  case (start session qualification t dbErr now s0 s)
  have "open_rows s = Map.empty" "tr_active t = Map.empty"
    using start sqlite.finalize_succeeds [of sha256 rfc3339 julianDuration dbErr now s0 s]
    by (auto simp: TrackerStart_def newWindowTracker_def split: if_splits)
  then show ?case by (simp add: sqlite.tracks_def)
next
  case (continue a b c)
  from continue.hyps(2) show ?case
  proof cases
    case (observe dbErr now opp t s res t' s')
    then show ?thesis using sqlite.Observe_tracks [of t s] continue.IH by simp
  next
    case (fail_market dbErr now mid reason at_time visit t s fres t' s')
    then show ?thesis using sqlite.FailMarket_tracks [OF fail_market(3)] continue.IH by simp
  qed
qed

section \<open>Properties\<close>

text \<open>
  C33: Whatever opportunities, market failures and database failures a research session
  meets, the tracker's memory and the durable store agree: an active window is a valid open
  window filed under its own key, and the rows with status open are exactly the active
  windows, column by column.
\<close>

theorem tracker_store_agree:
  assumes "tracker_run sha256 rfc3339 julianDuration a (t, s)"
  shows "(\<forall>k w. tr_active t k = Some w \<longrightarrow> KeyOf w = k \<and> WindowValidate w = None \<and> ow_Status w = WindowStatusOpen) \<and>
    (\<forall>wid w'. open_rows s wid = Some w' \<longleftrightarrow> (\<exists>k w. tr_active t k = Some w \<and> ow_ID w = wid \<and> w' = stored_window w))"
  using tracker_run_tracks [OF assms] by (simp add: sqlite.tracks_def)

text \<open>
  A successful \<open>FailMarket\<close> leaves no window of that market open, in memory or in the
  store, and closes no window of another market, in whatever order the map of active
  windows is visited.
\<close>

lemma fail_market_closes:
  assumes "tracker_run sha256 rfc3339 julianDuration a (t, s)"
    and "FailMarket (sqlite_store sha256 rfc3339 julianDuration dbErr) now mid reason at_time visit t s = (None, t', s')"
    and "dom (tr_active t) \<subseteq> set visit"
  shows "(\<forall>k w. tr_active t' k = Some w \<longleftrightarrow> tr_active t k = Some w \<and> mid \<noteq> [] \<and>
      dir_BuyMarket (wk_Direction k) \<noteq> mid \<and> dir_SellMarket (wk_Direction k) \<noteq> mid) \<and>
    (\<forall>wid w. open_rows s' wid = Some w \<longrightarrow> mid \<noteq> [] \<and>
      dir_BuyMarket (ow_Direction w) \<noteq> mid \<and> dir_SellMarket (ow_Direction w) \<noteq> mid)"
proof -
  note tr = tracker_run_tracks [OF assms(1), simplified]
  note step = sqlite.FailMarket_tracks [OF assms(2) tr]
  obtain at' where run: "fail_keys (sqlite_store sha256 rfc3339 julianDuration dbErr) mid reason at' visit t s = (None, t', s')"
    using assms(2) by (auto simp: FailMarket_def split: if_splits)
  have keys: "tr_active t' k = Some w \<longleftrightarrow> tr_active t k = Some w \<and> unrelated mid k" for k w
    using step fail_keys_keeps [OF run] assms(3) by blast
  have "unrelated mid (KeyOf w)" if row: "open_rows s' wid = Some w" for wid w
  proof -
    obtain k v where kv: "tr_active t' k = Some v" "w = stored_window v" using sqlite.tracksD(2) [OF _ row] step by blast
    then have "KeyOf v = k" using sqlite.tracksD(1) [of t' s' k v] step by blast
    then show ?thesis using keys kv by simp
  qed
  then have "\<forall>wid w. open_rows s' wid = Some w \<longrightarrow> unrelated mid (KeyOf w)" by blast
  then show ?thesis by (simp add: keys) (simp add: unrelated_def KeyOf_def)
qed

section \<open>Witnesses\<close>

definition usd :: "rat \<Rightarrow> AssetQuantity" where
  "usd v = \<lparr>qty_asset = ''usd'', qty_value = v\<rparr>"

definition no_quote :: Quote where
  "no_quote = \<lparr>q_Source = [], q_Market = [], q_SnapshotVersion = 0, q_SnapshotHash = [],
     q_SourcePosition = \<lparr>sp_Kind = [], sp_Value = 0\<rparr>, q_ResponseHash = [], q_Purpose = [], q_Mode = [], q_Quality = [],
     q_AmountIn = \<lparr>amt_token = [], amt_units = 0\<rparr>, q_AmountOut = \<lparr>amt_token = [], amt_units = 0\<rparr>, q_QuotedAt = 0, q_fees = []\<rparr>"

definition sample_candidate :: Candidate where
  "sample_candidate = \<lparr>cd_Size = usd 100, cd_Input = usd 100, cd_Output = usd 103, cd_GrossPnL = usd 3,
     cd_Cost = \<lparr>cs_ID = ''c'', cs_Amount = usd 1, cs_CapturedAt = 1\<rparr>, cd_NetPnL = usd 2, cd_FixedThreshold = usd 1,
     cd_PercentageThreshold = usd 1, cd_EffectiveThreshold = usd 1, cd_BuyQuote = no_quote, cd_SellQuote = no_quote,
     cd_Valuation = None, cd_QuoteConversion = None\<rparr>"

definition sample_opportunity :: Opportunity where
  "sample_opportunity = \<lparr>op_Evaluation = ''e1'', op_Run = ''run'', op_ConfigHash = ''cfg'', op_Strategy = ''s'',
     op_Direction = \<lparr>dir_BuyMarket = ''m1'', dir_SellMarket = ''m2''\<rparr>, op_Classification = ClassificationEconomic,
     op_Snapshots = [], op_Candidates = [sample_candidate], op_SelectedIndex = 0, op_Threshold = usd 1, op_Reasons = [],
     op_Trigger = zero_trigger, op_HasTrigger = False, op_TriggeredAt = 10, op_StartedAt = 11, op_FinishedAt = 12\<rparr>"

definition empty_tables :: WindowTables where
  "empty_tables = \<lparr>wt_windows = Map.empty, wt_observations = []\<rparr>"

definition sample_tracker :: WindowTracker where
  "sample_tracker = \<lparr>tr_session = ''session'', tr_qualification = ''economic'', tr_active = Map.empty\<rparr>"

abbreviation sample_ops :: "WindowTables OpportunityStore" where
  "sample_ops \<equiv> sqlite_store (\<lambda>_. []) (\<lambda>_. []) (\<lambda>_ _. 0) None"

definition sample_window :: OpportunityWindow where
  "sample_window = \<lparr>ow_ID = ''window-'', ow_Run = ''run'', ow_Strategy = ''s'', ow_ConfigHash = ''cfg'',
     ow_Direction = \<lparr>dir_BuyMarket = ''m1'', dir_SellMarket = ''m2''\<rparr>, ow_Trigger = zero_trigger, ow_HasTrigger = False,
     ow_OpenedAt = 10, ow_FirstProfitableAt = 12, ow_LastProfitableAt = 12, ow_ClosedAt = 0,
     ow_Best = \<lparr>wc_Size = usd 100, wc_GrossPnL = usd 3, wc_NetPnL = usd 2, wc_Cost = usd 1\<rparr>, ow_HasBest = True,
     ow_Threshold = usd 1, ow_Classification = ClassificationEconomic, ow_Status = WindowStatusOpen,
     ow_CloseReason = [], ow_Degraded = False\<rparr>"

definition tracker_open :: "WindowTracker" where
  "tracker_open = sample_tracker\<lparr>tr_active := [KeyOf sample_window \<mapsto> sample_window]\<rparr>"

definition tables_open :: WindowTables where
  "tables_open = empty_tables\<lparr>wt_windows := [''window-'' \<mapsto> \<lparr>wr_window = sample_window, wr_duration = 0,
     wr_identity = WindowFingerprint (\<lambda>_. []) (\<lambda>_. []) sample_window\<rparr>]\<rparr>"

lemma sample_window_valid: "WindowValidate sample_window = None"
  by (simp add: WindowValidate_def sample_window_def usd_def IsZeroTime_def WindowCandidateValidate_def QtySign_def status_error_def)

lemma sample_key: "key_of_opportunity sample_opportunity = KeyOf sample_window"
  by (simp add: key_of_opportunity_def sample_opportunity_def KeyOf_def sample_window_def)

lemma sample_opening: "opening_window (\<lambda>_. []) (\<lambda>_. []) 20 sample_tracker sample_opportunity = Inr sample_window"
proof -
  have "windowID (\<lambda>_. []) (\<lambda>_. []) (tr_session sample_tracker) sample_opportunity = ''window-''"
    by (simp add: windowID_def hexEncode_def)
  moreover have "selectedCandidate sample_opportunity = Some (ow_Best sample_window)"
    by (simp add: selectedCandidate_def sample_opportunity_def sample_candidate_def sample_window_def)
  ultimately have "opening_window (\<lambda>_. []) (\<lambda>_. []) 20 sample_tracker sample_opportunity =
      check (map_option TrackedWindow (WindowValidate sample_window)) (Inr sample_window)"
    unfolding opening_window_def by (simp add: opportunityTime_def IsZeroTime_def) (simp add: sample_opportunity_def sample_window_def Let_def)
  then show ?thesis by (simp add: sample_window_valid)
qed

lemma sample_observe:
  "Observe (\<lambda>_. []) (\<lambda>_. []) sample_ops 20 sample_opportunity sample_tracker empty_tables =
     (Inr \<lparr>wx_Kind = WindowTransitionOpened, wx_Window = Some sample_window, wx_Opportunity = sample_opportunity\<rparr>,
      tracker_open, tables_open)"
proof -
  have fav: "isFavorable sample_tracker (op_Classification sample_opportunity)"
    by (simp add: isFavorable_def sample_tracker_def sample_opportunity_def)
  have "os_OpenWindow sample_ops sample_window empty_tables = (None, tables_open)"
    by (simp add: sqlite_store_def OpenWindow_def sample_window_valid empty_tables_def tables_open_def stored_window_def)
      (simp add: sample_window_def)
  then show ?thesis
    unfolding Observe_def Let_def sample_key using sample_opening fav
    by (simp add: KeyOf_def) (simp add: sample_window_def sample_tracker_def tracker_open_def KeyOf_def)
qed

lemma window_run: "tracker_run (\<lambda>_. []) (\<lambda>_. []) (\<lambda>_ _. 0) (sample_tracker, empty_tables) (tracker_open, tables_open)"
proof (rule tracker_run.continue)
  show "tracker_run (\<lambda>_. []) (\<lambda>_. []) (\<lambda>_ _. 0) (sample_tracker, empty_tables) (sample_tracker, empty_tables)"
  proof (rule tracker_run.start)
    show "newWindowTracker ''session'' ''economic'' = Inr sample_tracker"
      by (simp add: newWindowTracker_def blank_def sample_tracker_def)
    show "TrackerStart sample_ops 5 empty_tables = (None, empty_tables)"
      by (simp add: TrackerStart_def sqlite_store_def FinalizeDangling_def IsZeroTime_def empty_tables_def)
  qed
  show "tracker_step (\<lambda>_. []) (\<lambda>_. []) (\<lambda>_ _. 0) (sample_tracker, empty_tables) (tracker_open, tables_open)"
    by (rule tracker_step.observe [OF sample_observe]) (simp_all add: window_unused_def empty_tables_def sample_tracker_def)
qed

theorem tracker_store_agree_witness: "open_rows tables_open ''window-'' = Some (stored_window sample_window)"
proof -
  have "tr_active tracker_open (KeyOf sample_window) = Some sample_window" "ow_ID sample_window = ''window-''"
    by (simp_all add: tracker_open_def sample_window_def)
  then show ?thesis using tracker_store_agree [OF window_run] by blast
qed

definition fail_result :: "tracker_error option \<times> WindowTracker \<times> WindowTables" where
  "fail_result = FailMarket sample_ops 20 ''m2'' ''feed lost'' 30 [KeyOf sample_window] tracker_open tables_open"

lemma fail_result_ok: "fst fail_result = None"
  by (simp add: fail_result_def FailMarket_def blank_def IsZeroTime_def tracker_open_def)
    (simp add: sqlite_store_def FailWindow_def finishWindow_def IsZeroTime_def tables_open_def KeyOf_def sample_window_def)

lemma fail_market_closes_example: "tr_active (fst (snd fail_result)) = Map.empty"
proof -
  have run: "FailMarket sample_ops 20 ''m2'' ''feed lost'' 30 [KeyOf sample_window] tracker_open tables_open =
      (None, fst (snd fail_result), snd (snd fail_result))"
    using fail_result_ok unfolding fail_result_def by (metis prod.collapse)
  have "dom (tr_active tracker_open) \<subseteq> set [KeyOf sample_window]" by (simp add: tracker_open_def)
  note closes = fail_market_closes [OF window_run run this]
  have "tr_active (fst (snd fail_result)) k = None" for k
    using closes by (cases "tr_active (fst (snd fail_result)) k") (auto simp: tracker_open_def KeyOf_def sample_window_def split: if_splits)
  then show ?thesis by blast
qed

end
