(* ===== verification/Exec_Sequential.thy ===== *)
theory Exec_Sequential
  imports Exec_Types "HOL-Library.Multiset"
begin

text \<open>
  Dependent execution plans: \<open>src/domain/execution/sequential.go\<close>. Stage plans with their
  dependencies and input references, the three constructors of plans, the input of a stage,
  the exit that returns to the purchase chain, and the validation of requests, settlements
  and exit decisions.
\<close>

section \<open>Constants\<close>

abbreviation PolicyTransportedSequential :: string where "PolicyTransportedSequential \<equiv> ''transported_sequential''"
abbreviation PolicyPrefundedSequential :: string where "PolicyPrefundedSequential \<equiv> ''prefunded_sequential''"
abbreviation PolicyPrefundedParallel :: string where "PolicyPrefundedParallel \<equiv> ''prefunded_parallel''"
abbreviation PolicyPrefundedTriggerFirst :: string where "PolicyPrefundedTriggerFirst \<equiv> ''prefunded_trigger_first''"

abbreviation StageBuy :: string where "StageBuy \<equiv> ''buy''"
abbreviation StageBridgeBase :: string where "StageBridgeBase \<equiv> ''bridge_base''"
abbreviation StageSell :: string where "StageSell \<equiv> ''sell''"
abbreviation StageBridgeQuoteReturn :: string where "StageBridgeQuoteReturn \<equiv> ''bridge_quote_return''"

abbreviation BranchMain :: string where "BranchMain \<equiv> ''main''"
abbreviation BranchCircuitBreaker :: string where "BranchCircuitBreaker \<equiv> ''circuit_breaker''"

abbreviation ExitSellAtDestination :: string where "ExitSellAtDestination \<equiv> ''sell_at_destination''"
abbreviation ExitReturnToOrigin :: string where "ExitReturnToOrigin \<equiv> ''return_to_origin''"
abbreviation ExitSellAtOrigin :: string where "ExitSellAtOrigin \<equiv> ''sell_at_origin''"

abbreviation SequentialRunning :: string where "SequentialRunning \<equiv> ''running''"
abbreviation SequentialRecovering :: string where "SequentialRecovering \<equiv> ''recovering''"
abbreviation SequentialRecoveryBlocked :: string where "SequentialRecoveryBlocked \<equiv> ''recovery_blocked''"
abbreviation SequentialCompleted :: string where "SequentialCompleted \<equiv> ''completed''"
abbreviation SequentialAborted :: string where "SequentialAborted \<equiv> ''aborted''"
abbreviation SequentialManualIntervention :: string where "SequentialManualIntervention \<equiv> ''manual_intervention_required''"

datatype seq_error =
    StageIncomplete int
  | StageBranch int string
  | StageInputReference int
  | StageDependency int
  | StageRepeatsDependency int int
  | SwapMarket int
  | SwapDestination int
  | BridgeChains int
  | BridgeMarket int
  | StageUnsupported string
  | PlanStages
  | PlanPolicy string
  | PlanOrdinal int
  | ParallelDependencies int
  | InputUnavailable int
  | ParallelSell
  | NoReturnExit
  | ExitDecisionInvalid string

datatype request_error =
    RequestIdentity
  | RequestStage seq_error
  | RequestInput int
  | SettlementInput int
  | SettlementOutput int
  | SettlementSource int
  | SettlementDestination int
  | SettlementBalances int
  | SettlementObservation int
  | SettlementCost int nat

section \<open>Stage plans\<close>

record SequentialStagePlan =
  st_Ordinal :: int
  st_Stage :: string
  st_Branch :: string
  st_DependsOn :: "int list"
  st_InputFromOrdinal :: int
  st_SourceChain :: ChainID
  st_DestinationChain :: ChainID
  st_InputToken :: TokenID
  st_OutputToken :: TokenID
  st_Market :: MarketID

text \<open>The loop over the dependencies, with the dependencies seen so far.\<close>

fun dependency_error :: "int \<Rightarrow> int list \<Rightarrow> int list \<Rightarrow> seq_error option" where
  "dependency_error ordinal seen [] = None"
| "dependency_error ordinal seen (d # rest) =
     (if d < 1 \<or> d \<ge> ordinal then Some (StageDependency ordinal)
      else if d \<in> set seen then Some (StageRepeatsDependency ordinal d)
      else dependency_error ordinal (d # seen) rest)"

definition StageValidate :: "SequentialStagePlan \<Rightarrow> seq_error option" where
  "StageValidate s =
     (let ordinal = st_Ordinal s; branch = (if st_Branch s = [] then BranchMain else st_Branch s) in
      if ordinal < 1 \<or> st_Stage s = [] \<or> st_SourceChain s = [] \<or> st_InputToken s = [] \<or> st_OutputToken s = []
      then Some (StageIncomplete ordinal)
      else if branch \<noteq> BranchMain \<and> branch \<noteq> BranchCircuitBreaker then Some (StageBranch ordinal branch)
      else if st_InputFromOrdinal s < 0 \<or> st_InputFromOrdinal s \<ge> ordinal then Some (StageInputReference ordinal)
      else case dependency_error ordinal [] (st_DependsOn s) of
        Some e \<Rightarrow> Some e
      | None \<Rightarrow>
          if st_Stage s = StageBuy \<or> st_Stage s = StageSell
          then (if st_Market s = [] then Some (SwapMarket ordinal)
                else if st_DestinationChain s \<noteq> [] then Some (SwapDestination ordinal) else None)
          else if st_Stage s = StageBridgeBase \<or> st_Stage s = StageBridgeQuoteReturn
          then (if st_DestinationChain s = [] \<or> st_DestinationChain s = st_SourceChain s then Some (BridgeChains ordinal)
                else if st_Market s \<noteq> [] then Some (BridgeMarket ordinal) else None)
          else Some (StageUnsupported (st_Stage s)))"

section \<open>Plans\<close>

text \<open>The token decimals are a Go map, of which the sources use the length and the lookup.\<close>

record SequentialPlan =
  sp_ID :: PlanID
  sp_Policy :: string
  sp_Opportunity :: Opportunity
  sp_InitialInput :: TokenAmount
  sp_Stages :: "SequentialStagePlan list"
  sp_CircuitBreaker :: "SequentialStagePlan list"
  sp_DiscoveryAmount :: TokenAmount
  sp_BaseAsset :: AssetID
  sp_QuoteAsset :: AssetID
  sp_TokenDecimals :: "(TokenID \<times> 8 word) list"
  sp_CreatedAt :: gotime

definition EffectivePolicy :: "SequentialPlan \<Rightarrow> string" where
  "EffectivePolicy p = (if sp_Policy p = [] then PolicyTransportedSequential else sp_Policy p)"

definition IsPrefundedDualInventory :: "SequentialPlan \<Rightarrow> bool" where
  "IsPrefundedDualInventory p \<longleftrightarrow>
     EffectivePolicy p = PolicyPrefundedParallel \<or> EffectivePolicy p = PolicyPrefundedTriggerFirst"

definition sameOrdinals :: "int list \<Rightarrow> int list \<Rightarrow> bool" where
  "sameOrdinals left right \<longleftrightarrow> length left = length right \<and> list_all2 (=) left right"

text \<open>
  The expected stage, input reference and dependencies per index of a dual-inventory plan.
  A validated plan has four stages, so that no index of the Go slices is out of range.
\<close>

definition expected_parallel :: "(string \<times> int \<times> int list) list" where
  "expected_parallel = [(StageBuy, 0, []), (StageSell, 0, []), (StageBridgeBase, 1, [1]), (StageBridgeQuoteReturn, 2, [2])]"

fun parallel_stages_error :: "nat \<Rightarrow> SequentialStagePlan list \<Rightarrow> (string \<times> int \<times> int list) list \<Rightarrow> seq_error option" where
  "parallel_stages_error index (stage # stages) ((kind, inp, deps) # expected) =
     (if st_Ordinal stage \<noteq> int index + 1 \<or> st_Stage stage \<noteq> kind \<or> st_InputFromOrdinal stage \<noteq> inp \<or>
         \<not> sameOrdinals (st_DependsOn stage) deps then Some (ParallelDependencies (st_Ordinal stage))
      else parallel_stages_error (Suc index) stages expected)"
| "parallel_stages_error index _ _ = None"

definition validateParallelDependencies :: "SequentialPlan \<Rightarrow> seq_error option" where
  "validateParallelDependencies p = parallel_stages_error 0 (sp_Stages p) expected_parallel"

fun ordinals_error :: "int list \<Rightarrow> SequentialStagePlan list \<Rightarrow> seq_error option" where
  "ordinals_error seen [] = None"
| "ordinals_error seen (stage # rest) =
     (case StageValidate stage of
        Some e \<Rightarrow> Some e
      | None \<Rightarrow> if st_Ordinal stage \<in> set seen then Some (PlanOrdinal (st_Ordinal stage))
                else ordinals_error (st_Ordinal stage # seen) rest)"

definition policy_error :: "SequentialPlan \<Rightarrow> seq_error option" where
  "policy_error p =
     (let policy = EffectivePolicy p in
      if policy = PolicyTransportedSequential then (if length (sp_Stages p) \<noteq> 4 then Some PlanStages else None)
      else if policy = PolicyPrefundedSequential \<or> policy = PolicyPrefundedParallel \<or> policy = PolicyPrefundedTriggerFirst
      then (if length (sp_Stages p) \<noteq> 4 \<or> length (sp_CircuitBreaker p) \<noteq> 1 then Some PlanStages
            else if IsPrefundedDualInventory p \<and>
                    (sp_BaseAsset p = [] \<or> sp_QuoteAsset p = [] \<or> sp_TokenDecimals p = []) then Some PlanStages
            else None)
      else Some (PlanPolicy (sp_Policy p)))"

definition SequentialPlanValidate :: "SequentialPlan \<Rightarrow> seq_error option" where
  "SequentialPlanValidate p =
     (if sp_ID p = [] \<or> AmountIsZero (sp_InitialInput p) \<or> IsZeroTime (sp_CreatedAt p) \<or> sp_Stages p = []
      then Some PlanStages
      else case policy_error p of
        Some e \<Rightarrow> Some e
      | None \<Rightarrow>
        (case ordinals_error [] (sp_Stages p @ sp_CircuitBreaker p) of
           Some e \<Rightarrow> Some e
         | None \<Rightarrow> if IsPrefundedDualInventory p then validateParallelDependencies p else None))"

text \<open>A candidate index of the source: in range, or the early return of its guard.\<close>

definition selected :: "Opportunity \<Rightarrow> Candidate option" where
  "selected o' =
     (if op_SelectedIndex o' < 0 \<or> op_SelectedIndex o' \<ge> int (length (op_Candidates o')) then None
      else Some (op_Candidates o' ! nat (op_SelectedIndex o')))"

definition ParallelSellInput :: "SequentialPlan \<Rightarrow> (seq_error, TokenAmount) result" where
  "ParallelSellInput p =
     (case (if IsPrefundedDualInventory p then selected (sp_Opportunity p) else None) of
        None \<Rightarrow> Inl ParallelSell
      | Some candidate \<Rightarrow>
          (let buyIn = q_AmountIn (cd_BuyQuote candidate); sellIn = q_AmountIn (cd_SellQuote candidate) in
           if AmountIsZero buyIn \<or> AmountIsZero sellIn \<or> AmountIsZero (sp_InitialInput p) then Inl ParallelSell
           else
             (let units = bigQuo (amt_units sellIn * amt_units (sp_InitialInput p)) (amt_units buyIn) in
              if units \<le> 0 then Inl ParallelSell
              else map_err (\<lambda>_. ParallelSell) (NewTokenAmount (amt_token sellIn) (Some units)))))"

definition InputFor ::
  "SequentialPlan \<Rightarrow> SequentialStagePlan \<Rightarrow> (int \<rightharpoonup> TokenAmount) \<Rightarrow> (seq_error, TokenAmount) result" where
  "InputFor p stage outputs =
     (if IsPrefundedDualInventory p \<and> st_Ordinal stage = 2 \<and> st_Stage stage = StageSell then ParallelSellInput p
      else if st_InputFromOrdinal stage = 0
      then (if st_Ordinal stage \<noteq> 1 then Inl (InputUnavailable (st_Ordinal stage))
            else if amt_token (sp_InitialInput p) \<noteq> st_InputToken stage then Inl (InputUnavailable 1)
            else Inr (sp_InitialInput p))
      else case outputs (st_InputFromOrdinal stage) of
        None \<Rightarrow> Inl (InputUnavailable (st_Ordinal stage))
      | Some source \<Rightarrow> if AmountIsZero source then Inl (InputUnavailable (st_Ordinal stage)) else Inr source)"

definition ReturnExitStages :: "SequentialPlan \<Rightarrow> (seq_error, SequentialStagePlan list) result" where
  "ReturnExitStages p =
     (if map st_Stage (sp_Stages p) \<noteq> [StageBuy, StageBridgeBase, StageSell, StageBridgeQuoteReturn] then Inl NoReturnExit
      else
        (let buy = sp_Stages p ! 0; firstBridge = sp_Stages p ! 1;
             stages = [
               \<lparr>st_Ordinal = 3, st_Stage = StageBridgeBase, st_Branch = [], st_DependsOn = [], st_InputFromOrdinal = 0,
                st_SourceChain = st_DestinationChain firstBridge, st_DestinationChain = st_SourceChain firstBridge,
                st_InputToken = st_OutputToken firstBridge, st_OutputToken = st_InputToken firstBridge, st_Market = []\<rparr>,
               \<lparr>st_Ordinal = 4, st_Stage = StageSell, st_Branch = [], st_DependsOn = [], st_InputFromOrdinal = 0,
                st_SourceChain = st_SourceChain buy, st_DestinationChain = [], st_InputToken = st_OutputToken buy,
                st_OutputToken = st_InputToken buy, st_Market = st_Market buy\<rparr>]
         in check (first_error StageValidate stages) (Inr stages)))"

section \<open>Exit decisions\<close>

record SequentialExitDecision =
  ed_Operation :: OperationID
  ed_Route :: string
  ed_DestinationOutput :: TokenAmount
  ed_ReturnOutput :: TokenAmount
  ed_DestinationRecovery :: AssetQuantity
  ed_ReturnRecovery :: AssetQuantity
  ed_SafetyMargin :: AssetQuantity
  ed_DestinationQualified :: bool
  ed_CostEvidenceAvailable :: bool
  ed_DecidedAt :: gotime
  ed_Evidence :: string

definition ExitDecisionValidate :: "SequentialExitDecision \<Rightarrow> seq_error option" where
  "ExitDecisionValidate d =
     (if ed_Operation d = [] \<or> IsZeroTime (ed_DecidedAt d) \<or> ed_Evidence d = [] \<or> qty_asset (ed_DestinationRecovery d) = [] \<or>
         qty_asset (ed_SafetyMargin d) \<noteq> qty_asset (ed_DestinationRecovery d) \<or> QtySign (ed_SafetyMargin d) < 0
      then Some (ExitDecisionInvalid ''incomplete'')
      else if ed_Route d = ExitSellAtDestination
      then (if AmountIsZero (ed_DestinationOutput d) then Some (ExitDecisionInvalid ''output'') else None)
      else if ed_Route d = ExitReturnToOrigin \<or> ed_Route d = ExitSellAtOrigin
      then (if AmountIsZero (ed_ReturnOutput d) \<or> qty_asset (ed_ReturnRecovery d) \<noteq> qty_asset (ed_DestinationRecovery d)
            then Some (ExitDecisionInvalid ''recovery'') else None)
      else Some (ExitDecisionInvalid (ed_Route d)))"

section \<open>Constructors\<close>

text \<open>
  \<open>NewSequentialPlan\<close> returns the plan together with the error of its last validation; its
  callers drop the plan when the error is not nil, so that the error is the result here.
\<close>

definition transported_stages :: "Candidate \<Rightarrow> Direction \<Rightarrow> ChainID \<Rightarrow> ChainID \<Rightarrow> SequentialStagePlan list" where
  "transported_stages candidate direction buyChain sellChain =
     (let buyIn = amt_token (q_AmountIn (cd_BuyQuote candidate)); buyOut = amt_token (q_AmountOut (cd_BuyQuote candidate));
          sellIn = amt_token (q_AmountIn (cd_SellQuote candidate)); sellOut = amt_token (q_AmountOut (cd_SellQuote candidate)) in
      [\<lparr>st_Ordinal = 1, st_Stage = StageBuy, st_Branch = [], st_DependsOn = [], st_InputFromOrdinal = 0,
        st_SourceChain = buyChain, st_DestinationChain = [], st_InputToken = buyIn, st_OutputToken = buyOut,
        st_Market = dir_BuyMarket direction\<rparr>,
       \<lparr>st_Ordinal = 2, st_Stage = StageBridgeBase, st_Branch = [], st_DependsOn = [], st_InputFromOrdinal = 0,
        st_SourceChain = buyChain, st_DestinationChain = sellChain, st_InputToken = buyOut, st_OutputToken = sellIn,
        st_Market = []\<rparr>,
       \<lparr>st_Ordinal = 3, st_Stage = StageSell, st_Branch = [], st_DependsOn = [], st_InputFromOrdinal = 0,
        st_SourceChain = sellChain, st_DestinationChain = [], st_InputToken = sellIn, st_OutputToken = sellOut,
        st_Market = dir_SellMarket direction\<rparr>,
       \<lparr>st_Ordinal = 4, st_Stage = StageBridgeQuoteReturn, st_Branch = [], st_DependsOn = [], st_InputFromOrdinal = 0,
        st_SourceChain = sellChain, st_DestinationChain = buyChain, st_InputToken = sellOut, st_OutputToken = buyIn,
        st_Market = []\<rparr>])"

definition NewSequentialPlan ::
  "PlanID \<Rightarrow> Opportunity \<Rightarrow> TokenAmount \<Rightarrow> ChainID \<Rightarrow> ChainID \<Rightarrow> gotime \<Rightarrow> (seq_error, SequentialPlan) result" where
  "NewSequentialPlan pid opportunity initialInput buyChain sellChain createdAt =
     (if pid = [] \<or> IsZeroTime createdAt then Inl PlanStages
      else if op_Classification opportunity \<noteq> ClassificationPolicyQualified then Inl PlanStages
      else case selected opportunity of
        None \<Rightarrow> Inl PlanStages
      | Some candidate \<Rightarrow>
          if buyChain = [] \<or> sellChain = [] \<or> buyChain = sellChain then Inl PlanStages
          else if AmountIsZero initialInput \<or> amt_token initialInput \<noteq> amt_token (q_AmountIn (cd_BuyQuote candidate))
          then Inl PlanStages
          else
            (let stages = transported_stages candidate (op_Direction opportunity) buyChain sellChain;
                 plan = \<lparr>sp_ID = pid, sp_Policy = PolicyTransportedSequential, sp_Opportunity = opportunity,
                         sp_InitialInput = initialInput, sp_Stages = stages, sp_CircuitBreaker = [],
                         sp_DiscoveryAmount = q_AmountIn (cd_BuyQuote candidate), sp_BaseAsset = [], sp_QuoteAsset = [],
                         sp_TokenDecimals = [], sp_CreatedAt = createdAt\<rparr>
             in check (first_error StageValidate stages) (check (SequentialPlanValidate plan) (Inr plan))))"

definition prefunded_stages :: "Candidate \<Rightarrow> Direction \<Rightarrow> ChainID \<Rightarrow> ChainID \<Rightarrow> SequentialStagePlan list" where
  "prefunded_stages candidate direction buyChain sellChain =
     (let buyIn = amt_token (q_AmountIn (cd_BuyQuote candidate)); buyOut = amt_token (q_AmountOut (cd_BuyQuote candidate));
          sellIn = amt_token (q_AmountIn (cd_SellQuote candidate)); sellOut = amt_token (q_AmountOut (cd_SellQuote candidate)) in
      [\<lparr>st_Ordinal = 1, st_Stage = StageBuy, st_Branch = BranchMain, st_DependsOn = [], st_InputFromOrdinal = 0,
        st_SourceChain = buyChain, st_DestinationChain = [], st_InputToken = buyIn, st_OutputToken = buyOut,
        st_Market = dir_BuyMarket direction\<rparr>,
       \<lparr>st_Ordinal = 2, st_Stage = StageSell, st_Branch = BranchMain, st_DependsOn = [1], st_InputFromOrdinal = 1,
        st_SourceChain = sellChain, st_DestinationChain = [], st_InputToken = sellIn, st_OutputToken = sellOut,
        st_Market = dir_SellMarket direction\<rparr>,
       \<lparr>st_Ordinal = 3, st_Stage = StageBridgeBase, st_Branch = BranchMain, st_DependsOn = [1, 2], st_InputFromOrdinal = 1,
        st_SourceChain = buyChain, st_DestinationChain = sellChain, st_InputToken = buyOut, st_OutputToken = sellIn,
        st_Market = []\<rparr>,
       \<lparr>st_Ordinal = 4, st_Stage = StageBridgeQuoteReturn, st_Branch = BranchMain, st_DependsOn = [2, 3],
        st_InputFromOrdinal = 2, st_SourceChain = sellChain, st_DestinationChain = buyChain, st_InputToken = sellOut,
        st_OutputToken = buyIn, st_Market = []\<rparr>])"

definition circuit_stages :: "Candidate \<Rightarrow> Direction \<Rightarrow> ChainID \<Rightarrow> SequentialStagePlan list" where
  "circuit_stages candidate direction buyChain =
     [\<lparr>st_Ordinal = 5, st_Stage = StageSell, st_Branch = BranchCircuitBreaker, st_DependsOn = [1], st_InputFromOrdinal = 1,
       st_SourceChain = buyChain, st_DestinationChain = [], st_InputToken = amt_token (q_AmountOut (cd_BuyQuote candidate)),
       st_OutputToken = amt_token (q_AmountIn (cd_BuyQuote candidate)), st_Market = dir_BuyMarket direction\<rparr>]"

definition NewPrefundedSequentialPlan ::
  "PlanID \<Rightarrow> Opportunity \<Rightarrow> TokenAmount \<Rightarrow> ChainID \<Rightarrow> ChainID \<Rightarrow> gotime \<Rightarrow> (seq_error, SequentialPlan) result" where
  "NewPrefundedSequentialPlan pid opportunity initialInput buyChain sellChain createdAt =
     rbind (NewSequentialPlan pid opportunity initialInput buyChain sellChain createdAt) (\<lambda>transported.
       let candidate = op_Candidates opportunity ! nat (op_SelectedIndex opportunity);
           plan = transported\<lparr>sp_Policy := PolicyPrefundedSequential,
             sp_Stages := prefunded_stages candidate (op_Direction opportunity) buyChain sellChain,
             sp_CircuitBreaker := circuit_stages candidate (op_Direction opportunity) buyChain\<rparr>
       in check (SequentialPlanValidate plan) (Inr plan))"

definition NewPrefundedParallelPlan ::
  "PlanID \<Rightarrow> Opportunity \<Rightarrow> TokenAmount \<Rightarrow> ChainID \<Rightarrow> ChainID \<Rightarrow> gotime \<Rightarrow> (seq_error, SequentialPlan) result" where
  "NewPrefundedParallelPlan pid opportunity initialInput buyChain sellChain createdAt =
     rbind (NewPrefundedSequentialPlan pid opportunity initialInput buyChain sellChain createdAt) (\<lambda>plan.
       Inr (plan\<lparr>sp_Policy := PolicyPrefundedParallel,
         sp_Stages := (sp_Stages plan)
           [1 := (sp_Stages plan ! 1)\<lparr>st_DependsOn := [], st_InputFromOrdinal := 0\<rparr>,
            2 := (sp_Stages plan ! 2)\<lparr>st_DependsOn := [1]\<rparr>,
            3 := (sp_Stages plan ! 3)\<lparr>st_DependsOn := [2]\<rparr>]\<rparr>))"

section \<open>Requests and settlements\<close>

record SequentialStageRequest =
  sr_Operation :: OperationID
  sr_Plan :: PlanID
  sr_Stage :: SequentialStagePlan
  sr_Input :: TokenAmount

definition RequestValidate :: "SequentialStageRequest \<Rightarrow> request_error option" where
  "RequestValidate r =
     (if sr_Operation r = [] \<or> sr_Plan r = [] then Some RequestIdentity
      else case StageValidate (sr_Stage r) of
        Some e \<Rightarrow> Some (RequestStage e)
      | None \<Rightarrow>
          if AmountIsZero (sr_Input r) \<or> amt_token (sr_Input r) \<noteq> st_InputToken (sr_Stage r)
          then Some (RequestInput (st_Ordinal (sr_Stage r))) else None)"

record SequentialStageSettlement =
  ss_Request :: SequentialStageRequest
  ss_ActualInput :: TokenAmount
  ss_ActualOutput :: TokenAmount
  ss_Costs :: "CostComponent list"
  ss_SourceIdentity :: TransactionIdentity
  ss_DestinationIdentity :: "TransactionIdentity option"
  ss_DestinationBalanceBefore :: "int option"
  ss_DestinationBalanceAfter :: "int option"
  ss_ObservedAt :: gotime
  ss_Evidence :: string

definition balance_evidence_error :: "int \<Rightarrow> int option \<Rightarrow> int option \<Rightarrow> request_error option" where
  "balance_evidence_error ordinal before after =
     (case (before, after) of
        (None, None) \<Rightarrow> None
      | (Some b, Some a) \<Rightarrow> if b < 0 \<or> a < b then Some (SettlementBalances ordinal) else None
      | _ \<Rightarrow> Some (SettlementBalances ordinal))"

definition destination_error :: "SequentialStageSettlement \<Rightarrow> request_error option" where
  "destination_error s =
     (let ordinal = st_Ordinal (sr_Stage (ss_Request s)) in
      if st_DestinationChain (sr_Stage (ss_Request s)) = [] then None
      else case ss_DestinationIdentity s of
        None \<Rightarrow> Some (SettlementDestination ordinal)
      | Some identity \<Rightarrow>
          (case balance_evidence_error ordinal (ss_DestinationBalanceBefore s) (ss_DestinationBalanceAfter s) of
             Some e \<Rightarrow> Some e
           | None \<Rightarrow> if IdentityValidate identity \<noteq> None then Some (SettlementDestination ordinal) else None))"

definition SettlementValidate :: "SequentialStageSettlement \<Rightarrow> request_error option" where
  "SettlementValidate s =
     (let stage = sr_Stage (ss_Request s) in
      case RequestValidate (ss_Request s) of
        Some e \<Rightarrow> Some e
      | None \<Rightarrow>
          if AmountIsZero (ss_ActualInput s) \<or> amt_token (ss_ActualInput s) \<noteq> st_InputToken stage
          then Some (SettlementInput (st_Ordinal stage))
          else if AmountIsZero (ss_ActualOutput s) \<or> amt_token (ss_ActualOutput s) \<noteq> st_OutputToken stage
          then Some (SettlementOutput (st_Ordinal stage))
          else if IdentityValidate (ss_SourceIdentity s) \<noteq> None then Some (SettlementSource (st_Ordinal stage))
          else case destination_error s of
            Some e \<Rightarrow> Some e
          | None \<Rightarrow>
              if IsZeroTime (ss_ObservedAt s) \<or> ss_Evidence s = [] then Some (SettlementObservation (st_Ordinal stage))
              else first_error (\<lambda>ic. if CostValidate (snd ic) \<noteq> None then Some (SettlementCost (st_Ordinal stage) (fst ic)) else None)
                     (enumerate 0 (ss_Costs s)))"

record SequentialOperation =
  sq_ID :: OperationID
  sq_Plan :: PlanID
  sq_OpportunityID :: string
  sq_ConfigHash :: string
  sq_State :: string
  sq_CurrentStage :: int
  sq_CurrentAmount :: TokenAmount
  sq_StartedAt :: gotime
  sq_UpdatedAt :: gotime
  sq_LastError :: string

section \<open>Balanced plans\<close>

text \<open>
  A stage takes a token from one chain and gives a token on the same chain (a swap) or on
  another one (a bridge). A set of stages is balanced when every position it draws on is
  filled again by one of its stages, so that a complete run leaves no inventory stranded.
\<close>

definition leaves_at :: "SequentialStagePlan \<Rightarrow> ChainID \<times> TokenID" where
  "leaves_at s = (st_SourceChain s, st_InputToken s)"

definition arrives_at :: "SequentialStagePlan \<Rightarrow> ChainID \<times> TokenID" where
  "arrives_at s = (if st_DestinationChain s = [] then st_SourceChain s else st_DestinationChain s, st_OutputToken s)"

definition balanced :: "SequentialStagePlan list \<Rightarrow> bool" where
  "balanced stages \<longleftrightarrow> mset (map leaves_at stages) = mset (map arrives_at stages)"

text \<open>Every dependency and every input reference names a stage of the plan.\<close>

definition references_resolve :: "SequentialPlan \<Rightarrow> bool" where
  "references_resolve p \<longleftrightarrow>
     list_all (\<lambda>s. list_all (\<lambda>d. d = 0 \<or> d \<in> set (map st_Ordinal (sp_Stages p))) (st_InputFromOrdinal s # st_DependsOn s))
       (sp_Stages p @ sp_CircuitBreaker p)"

lemmas stage_defs = transported_stages_def prefunded_stages_def circuit_stages_def Let_def

lemma NewSequentialPlan_Inr:
  assumes "NewSequentialPlan pid opp inp b s t = Inr plan"
  obtains candidate where "selected opp = Some candidate" "b \<noteq> []" "s \<noteq> []" "b \<noteq> s"
    "amt_token inp = amt_token (q_AmountIn (cd_BuyQuote candidate))"
    "sp_Stages plan = transported_stages candidate (op_Direction opp) b s" "sp_CircuitBreaker plan = []"
    "sp_Policy plan = PolicyTransportedSequential" "SequentialPlanValidate plan = None"
    "sp_InitialInput plan = inp" "sp_Opportunity plan = opp"
  using assms
  by (auto simp: NewSequentialPlan_def Let_def check_eq_Inr split: if_splits option.splits)

lemma selected_nth: "selected opp = Some c \<Longrightarrow> op_Candidates opp ! nat (op_SelectedIndex opp) = c"
  by (simp add: selected_def split: if_splits)

lemma NewPrefundedSequentialPlan_Inr:
  assumes "NewPrefundedSequentialPlan pid opp inp b s t = Inr plan"
  obtains candidate where "selected opp = Some candidate" "b \<noteq> []" "s \<noteq> []" "b \<noteq> s"
    "amt_token inp = amt_token (q_AmountIn (cd_BuyQuote candidate))"
    "sp_Stages plan = prefunded_stages candidate (op_Direction opp) b s"
    "sp_CircuitBreaker plan = circuit_stages candidate (op_Direction opp) b"
    "sp_Policy plan = PolicyPrefundedSequential" "SequentialPlanValidate plan = None"
    "sp_InitialInput plan = inp" "sp_Opportunity plan = opp"
proof -
  from assms obtain tr where tr: "NewSequentialPlan pid opp inp b s t = Inr tr"
    by (auto simp: NewPrefundedSequentialPlan_def rbind_eq_Inr)
  obtain candidate where c: "selected opp = Some candidate" "b \<noteq> []" "s \<noteq> []" "b \<noteq> s"
      "amt_token inp = amt_token (q_AmountIn (cd_BuyQuote candidate))"
      "sp_InitialInput tr = inp" "sp_Opportunity tr = opp"
    using NewSequentialPlan_Inr [OF tr] by metis
  show thesis
    by (rule that [of candidate])
      (use assms tr c selected_nth [OF c(1)] in \<open>auto simp: NewPrefundedSequentialPlan_def Let_def check_eq_Inr\<close>)
qed

lemma NewPrefundedParallelPlan_Inr:
  assumes "NewPrefundedParallelPlan pid opp inp b s t = Inr plan"
  obtains candidate sequential where "NewPrefundedSequentialPlan pid opp inp b s t = Inr sequential"
    "plan = sequential\<lparr>sp_Policy := PolicyPrefundedParallel, sp_Stages := (sp_Stages sequential)
           [1 := (sp_Stages sequential ! 1)\<lparr>st_DependsOn := [], st_InputFromOrdinal := 0\<rparr>,
            2 := (sp_Stages sequential ! 2)\<lparr>st_DependsOn := [1]\<rparr>,
            3 := (sp_Stages sequential ! 3)\<lparr>st_DependsOn := [2]\<rparr>]\<rparr>"
    "selected opp = Some candidate" "sp_Stages sequential = prefunded_stages candidate (op_Direction opp) b s"
  using assms NewPrefundedSequentialPlan_Inr
  by (auto simp: NewPrefundedParallelPlan_def rbind_eq_Inr) metis

lemma transported_balanced:
  assumes "b \<noteq> []" and "s \<noteq> []"
  shows "balanced (transported_stages c dir b s)"
  using assms by (simp add: balanced_def stage_defs leaves_at_def arrives_at_def add_mset_commute)

lemma prefunded_balanced:
  assumes "b \<noteq> []" and "s \<noteq> []"
  shows "balanced (prefunded_stages c dir b s)" "balanced (take 1 (prefunded_stages c dir b s) @ circuit_stages c dir b)"
  using assms by (simp_all add: balanced_def stage_defs leaves_at_def arrives_at_def add_mset_commute)

text \<open>Stages that differ only in their dependencies and input references are balanced alike.\<close>

lemma balanced_cong:
  "map leaves_at xs = map leaves_at ys \<Longrightarrow> map arrives_at xs = map arrives_at ys \<Longrightarrow> balanced xs = balanced ys"
  by (simp add: balanced_def)

lemma StageValidate_reference:
  "StageValidate (stage\<lparr>st_DependsOn := [], st_InputFromOrdinal := 0\<rparr>) = None" if "StageValidate stage = None"
  using that by (auto simp: StageValidate_def Let_def split: if_splits option.splits)

lemma StageValidate_depends:
  "StageValidate (stage\<lparr>st_DependsOn := [d]\<rparr>) = None" if "StageValidate stage = None" "1 \<le> d" "d < st_Ordinal stage"
  using that by (auto simp: StageValidate_def Let_def split: if_splits option.splits)

lemma ordinals_error_None:
  "ordinals_error seen stages = None \<longleftrightarrow>
     (\<forall>s \<in> set stages. StageValidate s = None) \<and> distinct (map st_Ordinal stages) \<and> set (map st_Ordinal stages) \<inter> set seen = {}"
  by (induction seen stages rule: ordinals_error.induct) (auto split: option.splits)

lemma plan_stages_valid:
  "SequentialPlanValidate p = None \<Longrightarrow> s \<in> set (sp_Stages p @ sp_CircuitBreaker p) \<Longrightarrow> StageValidate s = None"
  by (auto simp: SequentialPlanValidate_def ordinals_error_None split: if_splits option.splits)

lemma return_exit:
  assumes "sp_Stages plan = transported_stages c dir b s" and "SequentialPlanValidate plan = None"
    and "b \<noteq> []" and "s \<noteq> []"
  obtains exit where "ReturnExitStages plan = Inr exit" "balanced (take 2 (sp_Stages plan) @ exit)"
proof -
  have "StageValidate (sp_Stages plan ! 0) = None" "StageValidate (sp_Stages plan ! 1) = None"
    by (intro plan_stages_valid [OF assms(2)]; simp add: assms(1) stage_defs)+
  then show thesis
    using that assms(3,4)
    by (simp add: ReturnExitStages_def assms(1) stage_defs balanced_def leaves_at_def arrives_at_def StageValidate_def
        add_mset_commute split: if_splits)
qed

lemma transported_references:
  "sp_Stages p = transported_stages c dir b s \<Longrightarrow> sp_CircuitBreaker p = [] \<Longrightarrow> references_resolve p"
  by (simp add: references_resolve_def stage_defs)

lemma prefunded_references:
  "sp_Stages p = prefunded_stages c dir b s \<Longrightarrow> sp_CircuitBreaker p = circuit_stages c dir b \<Longrightarrow> references_resolve p"
  by (simp add: references_resolve_def stage_defs)

text \<open>The parallel plan with the valuation metadata that the planner of the runtime supplies.\<close>

definition with_metadata :: "SequentialPlan \<Rightarrow> AssetID \<Rightarrow> AssetID \<Rightarrow> (TokenID \<times> 8 word) list \<Rightarrow> SequentialPlan" where
  "with_metadata p base quote decimals = p\<lparr>sp_BaseAsset := base, sp_QuoteAsset := quote, sp_TokenDecimals := decimals\<rparr>"

lemma parallel_plan_shape:
  assumes "NewPrefundedParallelPlan pid opp inp b s t = Inr plan"
  shows "references_resolve plan \<and> balanced (sp_Stages plan) \<and> balanced (take 1 (sp_Stages plan) @ sp_CircuitBreaker plan)"
proof -
  obtain c sq where sq: "NewPrefundedSequentialPlan pid opp inp b s t = Inr sq"
      "plan = sq\<lparr>sp_Policy := PolicyPrefundedParallel, sp_Stages := (sp_Stages sq)
           [1 := (sp_Stages sq ! 1)\<lparr>st_DependsOn := [], st_InputFromOrdinal := 0\<rparr>,
            2 := (sp_Stages sq ! 2)\<lparr>st_DependsOn := [1]\<rparr>,
            3 := (sp_Stages sq ! 3)\<lparr>st_DependsOn := [2]\<rparr>]\<rparr>"
      "selected opp = Some c" "sp_Stages sq = prefunded_stages c (op_Direction opp) b s"
    by (rule NewPrefundedParallelPlan_Inr [OF assms])
  have q: "b \<noteq> []" "s \<noteq> []" "sp_CircuitBreaker sq = circuit_stages c (op_Direction opp) b"
    using NewPrefundedSequentialPlan_Inr [OF sq(1)] sq(3) by (metis option.inject)+
  have "balanced (sp_Stages plan) = balanced (prefunded_stages c (op_Direction opp) b s)"
    by (rule balanced_cong) (simp_all add: sq(2,4) stage_defs leaves_at_def arrives_at_def)
  moreover have "take 1 (sp_Stages plan) = take 1 (prefunded_stages c (op_Direction opp) b s)"
    by (simp add: sq(2,4) stage_defs)
  moreover have "references_resolve plan" by (simp add: references_resolve_def sq(2,4) q(3) stage_defs)
  ultimately show ?thesis using prefunded_balanced [OF q(1,2)] by (simp add: sq(2) q(3))
qed

lemma parallel_plan_validates:
  assumes "NewPrefundedParallelPlan pid opp inp b s t = Inr plan" and "base \<noteq> []" "quote \<noteq> []" "decimals \<noteq> []"
  shows "SequentialPlanValidate (with_metadata plan base quote decimals) = None"
proof -
  obtain c sq where sq: "NewPrefundedSequentialPlan pid opp inp b s t = Inr sq"
      "plan = sq\<lparr>sp_Policy := PolicyPrefundedParallel, sp_Stages := (sp_Stages sq)
           [1 := (sp_Stages sq ! 1)\<lparr>st_DependsOn := [], st_InputFromOrdinal := 0\<rparr>,
            2 := (sp_Stages sq ! 2)\<lparr>st_DependsOn := [1]\<rparr>,
            3 := (sp_Stages sq ! 3)\<lparr>st_DependsOn := [2]\<rparr>]\<rparr>"
      "selected opp = Some c" "sp_Stages sq = prefunded_stages c (op_Direction opp) b s"
    by (rule NewPrefundedParallelPlan_Inr [OF assms(1)])
  have q: "sp_CircuitBreaker sq = circuit_stages c (op_Direction opp) b" "SequentialPlanValidate sq = None"
    using NewPrefundedSequentialPlan_Inr [OF sq(1)] sq(3) by (metis option.inject)+
  let ?p = "with_metadata plan base quote decimals"
  obtain s0 s1 s2 s3 cb where st: "sp_Stages sq = [s0, s1, s2, s3]" "sp_CircuitBreaker sq = [cb]"
      "st_Ordinal s0 = 1" "st_Ordinal s1 = 2" "st_Ordinal s2 = 3" "st_Ordinal s3 = 4" "st_Ordinal cb = 5"
      "st_Stage s0 = StageBuy" "st_Stage s1 = StageSell" "st_Stage s2 = StageBridgeBase" "st_Stage s3 = StageBridgeQuoteReturn"
      "st_InputFromOrdinal s0 = 0" "st_InputFromOrdinal s2 = 1" "st_InputFromOrdinal s3 = 2" "st_DependsOn s0 = []"
    by (simp add: sq(4) q(1) stage_defs)
  have valid: "StageValidate x = None" if "x \<in> {s0, s1, s2, s3, cb}" for x
    using plan_stages_valid [OF q(2)] that st by auto
  have stages: "sp_Stages ?p = [s0, s1\<lparr>st_DependsOn := [], st_InputFromOrdinal := 0\<rparr>, s2\<lparr>st_DependsOn := [1]\<rparr>, s3\<lparr>st_DependsOn := [2]\<rparr>]"
    by (simp add: with_metadata_def sq(2) st(1))
  have breaker: "sp_CircuitBreaker ?p = [cb]" by (simp add: with_metadata_def sq(2) st(2))
  have dual: "IsPrefundedDualInventory ?p" by (simp add: IsPrefundedDualInventory_def EffectivePolicy_def with_metadata_def sq(2))
  have "ordinals_error [] (sp_Stages ?p @ sp_CircuitBreaker ?p) = None"
    unfolding ordinals_error_None stages breaker
    using valid [of s0] StageValidate_reference [OF valid [of s1]] StageValidate_depends [OF valid [of s2], of 1]
      StageValidate_depends [OF valid [of s3], of 2] valid [of cb] st by simp
  moreover have "policy_error ?p = None"
    using dual assms(2-4) by (simp add: policy_error_def stages breaker EffectivePolicy_def)
      (simp add: with_metadata_def sq(2))
  moreover have "validateParallelDependencies ?p = None"
    by (simp add: validateParallelDependencies_def expected_parallel_def stages st sameOrdinals_def)
  moreover have "sp_ID ?p \<noteq> [] \<and> \<not> AmountIsZero (sp_InitialInput ?p) \<and> \<not> IsZeroTime (sp_CreatedAt ?p)"
    using q(2) by (auto simp: SequentialPlanValidate_def with_metadata_def sq(2) split: if_splits)
  ultimately show ?thesis using dual by (simp add: SequentialPlanValidate_def stages)
qed

lemma validated_parallel_sell:
  assumes "SequentialPlanValidate p = None" and "IsPrefundedDualInventory p"
  shows "st_Ordinal (sp_Stages p ! 1) = 2 \<and> st_Stage (sp_Stages p ! 1) = StageSell"
proof -
  have "length (sp_Stages p) = 4" "validateParallelDependencies p = None"
    using assms by (auto simp: SequentialPlanValidate_def policy_error_def Let_def IsPrefundedDualInventory_def
        split: if_splits option.splits)
  then show ?thesis
    by (auto simp: validateParallelDependencies_def expected_parallel_def numeral_eq_Suc length_Suc_conv split: if_splits)
qed

section \<open>Properties\<close>

text \<open>
  C10: Every plan that a constructor accepts is balanced. Its references name stages of the
  plan, its four stages fill again every position they draw on, and so do the early exits:
  the purchase followed by the circuit breaker, and for a transported plan the purchase and
  the first bridge followed by the derived return to the origin. A plan of the first two
  constructors passes the validation of the executor, a parallel plan does once it carries
  its valuation metadata.
\<close>

theorem sequential_plans_balanced:
  assumes "NewSequentialPlan pid opp inp b s t = Inr plan \<or> NewPrefundedSequentialPlan pid opp inp b s t = Inr plan \<or>
    NewPrefundedParallelPlan pid opp inp b s t = Inr plan"
  shows "references_resolve plan \<and> balanced (sp_Stages plan) \<and>
    (sp_CircuitBreaker plan \<noteq> [] \<longrightarrow> balanced (take 1 (sp_Stages plan) @ sp_CircuitBreaker plan)) \<and>
    (sp_Policy plan = PolicyTransportedSequential \<longrightarrow>
       (\<exists>exit. ReturnExitStages plan = Inr exit \<and> balanced (take 2 (sp_Stages plan) @ exit))) \<and>
    (if IsPrefundedDualInventory plan
     then \<forall>base quote decimals. base \<noteq> [] \<and> quote \<noteq> [] \<and> decimals \<noteq> [] \<longrightarrow>
       SequentialPlanValidate (with_metadata plan base quote decimals) = None
     else SequentialPlanValidate plan = None)"
  using assms
proof (elim disjE)
  assume plan: "NewSequentialPlan pid opp inp b s t = Inr plan"
  from NewSequentialPlan_Inr [OF plan] obtain c where c: "b \<noteq> []" "s \<noteq> []"
      "sp_Stages plan = transported_stages c (op_Direction opp) b s" "sp_CircuitBreaker plan = []"
      "SequentialPlanValidate plan = None" "sp_Policy plan = PolicyTransportedSequential"
    by metis
  have "\<not> IsPrefundedDualInventory plan" by (simp add: IsPrefundedDualInventory_def EffectivePolicy_def c(6))
  then show ?thesis
    using c transported_references [OF c(3,4)] transported_balanced [OF c(1,2)] return_exit [OF c(3,5,1,2)] by metis
next
  assume plan: "NewPrefundedSequentialPlan pid opp inp b s t = Inr plan"
  from NewPrefundedSequentialPlan_Inr [OF plan] obtain c where c: "b \<noteq> []" "s \<noteq> []"
      "sp_Stages plan = prefunded_stages c (op_Direction opp) b s" "sp_CircuitBreaker plan = circuit_stages c (op_Direction opp) b"
      "SequentialPlanValidate plan = None" "sp_Policy plan = PolicyPrefundedSequential"
    by metis
  have "\<not> IsPrefundedDualInventory plan" "sp_Policy plan \<noteq> PolicyTransportedSequential"
    by (simp_all add: IsPrefundedDualInventory_def EffectivePolicy_def c(6))
  then show ?thesis using c prefunded_references [OF c(3,4)] prefunded_balanced [OF c(1,2)] by metis
next
  assume plan: "NewPrefundedParallelPlan pid opp inp b s t = Inr plan"
  then have policy: "sp_Policy plan = PolicyPrefundedParallel" by (auto elim!: NewPrefundedParallelPlan_Inr)
  then have "IsPrefundedDualInventory plan" "sp_Policy plan \<noteq> PolicyTransportedSequential"
    by (simp_all add: IsPrefundedDualInventory_def EffectivePolicy_def)
  then show ?thesis using parallel_plan_shape [OF plan] parallel_plan_validates [OF plan] by metis
qed

text \<open>
  The sale of a dual-inventory plan is sized from the discovery alone. Whatever the
  purchase settles to, its input is the largest amount that keeps the discovered ratio of
  sale to purchase at the configured notional, and the plan is refused exactly when that
  amount is zero.
\<close>

lemma parallel_sell_input_proportional:
  assumes "SequentialPlanValidate p = None" and "IsPrefundedDualInventory p"
    and "selected (sp_Opportunity p) = Some c"
    and "0 < amt_units (q_AmountIn (cd_BuyQuote c))" and "0 < amt_units (q_AmountIn (cd_SellQuote c))"
    and "0 < amt_units (sp_InitialInput p)" and "amt_token (q_AmountIn (cd_SellQuote c)) \<noteq> []"
  shows "(\<forall>outputs. InputFor p (sp_Stages p ! 1) outputs = ParallelSellInput p) \<and>
    (case ParallelSellInput p of
       Inl _ \<Rightarrow> amt_units (q_AmountIn (cd_SellQuote c)) * amt_units (sp_InitialInput p) < amt_units (q_AmountIn (cd_BuyQuote c))
     | Inr amount \<Rightarrow> amt_token amount = amt_token (q_AmountIn (cd_SellQuote c)) \<and> 0 < amt_units amount \<and>
         (\<forall>n. n \<le> amt_units amount \<longleftrightarrow>
            n * amt_units (q_AmountIn (cd_BuyQuote c)) \<le> amt_units (q_AmountIn (cd_SellQuote c)) * amt_units (sp_InitialInput p)))"
proof -
  let ?b = "amt_units (q_AmountIn (cd_BuyQuote c))" and ?s = "amt_units (q_AmountIn (cd_SellQuote c)) * amt_units (sp_InitialInput p)"
  have "0 \<le> ?s" using assms(5,6) by simp
  note ge = bigQuo_ge_iff [OF this assms(4)]
  have inp: "InputFor p (sp_Stages p ! 1) outputs = ParallelSellInput p" for outputs
    using validated_parallel_sell [OF assms(1,2)] assms(2) by (simp add: InputFor_def)
  have run: "ParallelSellInput p = (if bigQuo ?s ?b \<le> 0 then Inl ParallelSell
      else Inr \<lparr>amt_token = amt_token (q_AmountIn (cd_SellQuote c)), amt_units = bigQuo ?s ?b\<rparr>)"
    using assms(2-7) by (simp add: ParallelSellInput_def AmountIsZero_def NewTokenAmount_def Let_def)
  show ?thesis
  proof (cases "bigQuo ?s ?b \<le> 0")
    case True
    then have "?s < ?b" using ge [of 1] by linarith
    then show ?thesis using True inp by (simp add: run)
  qed (use inp ge in \<open>auto simp: run\<close>)
qed

section \<open>Witnesses\<close>

definition plan_quote :: "TokenID \<Rightarrow> int \<Rightarrow> TokenID \<Rightarrow> int \<Rightarrow> Quote" where
  "plan_quote x i y out = (lo_BuyQuote exec_live)\<lparr>q_AmountIn := \<lparr>amt_token = x, amt_units = i\<rparr>, q_AmountOut := \<lparr>amt_token = y, amt_units = out\<rparr>\<rparr>"

definition plan_candidate :: Candidate where
  "plan_candidate = \<lparr>cd_Size = dollars 100, cd_Input = dollars 100, cd_Output = dollars 103, cd_GrossPnL = dollars 3,
     cd_Cost = \<lparr>cs_ID = ''c'', cs_Amount = dollars 1, cs_CapturedAt = 1\<rparr>, cd_NetPnL = dollars 2, cd_FixedThreshold = dollars 1,
     cd_PercentageThreshold = dollars 1, cd_EffectiveThreshold = dollars 1, cd_BuyQuote = plan_quote ''usd-a'' 100 ''eth-a'' 50,
     cd_SellQuote = plan_quote ''eth-b'' 49 ''usd-b'' 103, cd_Valuation = None, cd_QuoteConversion = None\<rparr>"

definition plan_opportunity_sample :: Opportunity where
  "plan_opportunity_sample = \<lparr>op_Evaluation = ''e'', op_Run = ''r'', op_ConfigHash = ''cfg'', op_Strategy = ''s'',
     op_Direction = \<lparr>dir_BuyMarket = ''ma'', dir_SellMarket = ''mb''\<rparr>, op_Classification = ClassificationPolicyQualified,
     op_Snapshots = [], op_Candidates = [plan_candidate], op_SelectedIndex = 0, op_Threshold = dollars 1, op_Reasons = [],
     op_Trigger = \<lparr>tm_Market = [], tm_Source = [], tm_Position = \<lparr>sp_Kind = [], sp_Value = 0\<rparr>, tm_Reference = \<lparr>sr_Kind = [], sr_Value = []\<rparr>, tm_At = 0\<rparr>,
     op_HasTrigger = False, op_TriggeredAt = 1, op_StartedAt = 1, op_FinishedAt = 2\<rparr>"

lemmas plan_sample_defs = plan_opportunity_sample_def plan_candidate_def plan_quote_def

definition plan_sample :: SequentialPlan where
  "plan_sample = \<lparr>sp_ID = ''p'', sp_Policy = PolicyPrefundedSequential, sp_Opportunity = plan_opportunity_sample,
     sp_InitialInput = \<lparr>amt_token = ''usd-a'', amt_units = 30\<rparr>,
     sp_Stages = prefunded_stages plan_candidate (op_Direction plan_opportunity_sample) ''A'' ''B'',
     sp_CircuitBreaker = circuit_stages plan_candidate (op_Direction plan_opportunity_sample) ''A'',
     sp_DiscoveryAmount = \<lparr>amt_token = ''usd-a'', amt_units = 100\<rparr>, sp_BaseAsset = [], sp_QuoteAsset = [],
     sp_TokenDecimals = [], sp_CreatedAt = 3\<rparr>"

lemma transported_sample:
  "\<exists>plan. NewSequentialPlan ''p'' plan_opportunity_sample \<lparr>amt_token = ''usd-a'', amt_units = 30\<rparr> ''A'' ''B'' 3 = Inr plan \<and>
     sp_Policy plan = PolicyTransportedSequential"
  by (simp add: NewSequentialPlan_def selected_def plan_sample_defs stage_defs IsZeroTime_def AmountIsZero_def StageValidate_def
      SequentialPlanValidate_def policy_error_def EffectivePolicy_def IsPrefundedDualInventory_def)

theorem sequential_plans_balanced_witness:
  "\<exists>plan exit. NewSequentialPlan ''p'' plan_opportunity_sample \<lparr>amt_token = ''usd-a'', amt_units = 30\<rparr> ''A'' ''B'' 3 = Inr plan \<and>
     balanced (sp_Stages plan) \<and> ReturnExitStages plan = Inr exit \<and> balanced (take 2 (sp_Stages plan) @ exit)"
proof -
  obtain plan where plan: "NewSequentialPlan ''p'' plan_opportunity_sample \<lparr>amt_token = ''usd-a'', amt_units = 30\<rparr> ''A'' ''B'' 3 = Inr plan"
      "sp_Policy plan = PolicyTransportedSequential"
    using transported_sample by blast
  from sequential_plans_balanced [OF disjI1 [OF plan(1)]] plan show ?thesis by metis
qed

definition parallel_sample :: SequentialPlan where
  "parallel_sample = plan_sample\<lparr>sp_Policy := PolicyPrefundedParallel, sp_BaseAsset := ''eth'', sp_QuoteAsset := ''usd'',
     sp_TokenDecimals := [(''usd-a'', 6)], sp_Stages := (sp_Stages plan_sample)
       [1 := (sp_Stages plan_sample ! 1)\<lparr>st_DependsOn := [], st_InputFromOrdinal := 0\<rparr>,
        2 := (sp_Stages plan_sample ! 2)\<lparr>st_DependsOn := [1]\<rparr>, 3 := (sp_Stages plan_sample ! 3)\<lparr>st_DependsOn := [2]\<rparr>]\<rparr>"

lemma parallel_sample_stages:
  "sp_Stages parallel_sample = [(sp_Stages plan_sample ! 0),
     (sp_Stages plan_sample ! 1)\<lparr>st_DependsOn := [], st_InputFromOrdinal := 0\<rparr>,
     (sp_Stages plan_sample ! 2)\<lparr>st_DependsOn := [1]\<rparr>, (sp_Stages plan_sample ! 3)\<lparr>st_DependsOn := [2]\<rparr>]"
  by (simp add: parallel_sample_def plan_sample_def stage_defs)

lemma parallel_sample_valid: "SequentialPlanValidate parallel_sample = None" "IsPrefundedDualInventory parallel_sample"
proof -
  show dual: "IsPrefundedDualInventory parallel_sample"
    by (simp add: IsPrefundedDualInventory_def EffectivePolicy_def parallel_sample_def)
  have "ordinals_error [] (sp_Stages parallel_sample @ sp_CircuitBreaker parallel_sample) = None"
    unfolding parallel_sample_stages
    by (simp add: parallel_sample_def plan_sample_def stage_defs StageValidate_def plan_sample_defs)
  moreover have "policy_error parallel_sample = None"
    using dual by (simp add: policy_error_def parallel_sample_stages EffectivePolicy_def)
      (simp add: parallel_sample_def plan_sample_def circuit_stages_def)
  moreover have "validateParallelDependencies parallel_sample = None"
    by (simp add: validateParallelDependencies_def expected_parallel_def parallel_sample_stages sameOrdinals_def)
      (simp add: plan_sample_def stage_defs)
  ultimately show "SequentialPlanValidate parallel_sample = None"
    using dual by (simp add: SequentialPlanValidate_def parallel_sample_stages)
      (simp add: parallel_sample_def plan_sample_def AmountIsZero_def IsZeroTime_def)
qed

lemma parallel_sell_input_proportional_example:
  "ParallelSellInput parallel_sample = Inr \<lparr>amt_token = ''eth-b'', amt_units = 14\<rparr> \<and>
   InputFor parallel_sample (sp_Stages parallel_sample ! 1) (\<lambda>_. None) = ParallelSellInput parallel_sample"
proof -
  have c: "selected (sp_Opportunity parallel_sample) = Some plan_candidate"
    by (simp add: selected_def parallel_sample_def plan_sample_def plan_opportunity_sample_def)
  have "InputFor parallel_sample (sp_Stages parallel_sample ! 1) (\<lambda>_. None) = ParallelSellInput parallel_sample"
    using parallel_sell_input_proportional [OF parallel_sample_valid c]
    by (simp add: plan_candidate_def plan_quote_def parallel_sample_def plan_sample_def)
  moreover have "ParallelSellInput parallel_sample = Inr \<lparr>amt_token = ''eth-b'', amt_units = 14\<rparr>"
    using parallel_sample_valid(2) c
    by (simp add: ParallelSellInput_def) (simp add: parallel_sample_def plan_sample_def plan_candidate_def plan_quote_def
      AmountIsZero_def NewTokenAmount_def bigQuo_def)
  ultimately show ?thesis by simp
qed

end
