(* ===== verification/Saga_Ports.thy ===== *)
theory Saga_Ports
  imports Exec_Sequential
begin

text \<open>
  The ports of the dependent executor (\<open>src/ports/execution/sequential.go\<close>) and the helpers of
  \<open>src/core/saga/sequential_executor.go\<close> that its two lifecycles share. The journal, the stage drivers and the exit selector
  are Go interfaces: here they are a record of functions on a world of any type, and an
  optional interface that the code finds by a type assertion is an option. The world is
  threaded through every call in the order of the code.

  Beside the world a run keeps a trace of what it did outside the process: the durable
  creation of the operation, every call of a stage driver with its outcome, every recorded
  settlement and exit decision, and the recorded end. The trace is written, never read, by the
  model, and it is what the properties speak about. The observer of the executor gets the
  same events; its panics are recovered and it returns nothing, so it has no other place here.
\<close>

section \<open>Errors of the ports\<close>

abbreviation DispositionRejected :: string where "DispositionRejected \<equiv> ''rejected''"
abbreviation DispositionPossible :: string where "DispositionPossible \<equiv> ''possible''"
abbreviation DispositionConfirmedFailure :: string where "DispositionConfirmedFailure \<equiv> ''confirmed_failure''"

text \<open>
  An error of a port as far as the executor inspects it: the stage error that \<open>errors.As\<close>
  finds in its chain, if any, and whether it carries a simulation invariant.
\<close>

record PortError =
  pe_stage :: "(string \<times> CostComponent list) option"
  pe_invariant :: bool
  pe_text :: string

definition ErrorDisposition :: "PortError \<Rightarrow> string" where
  "ErrorDisposition err = (case pe_stage err of Some (d, _) \<Rightarrow> d | None \<Rightarrow> DispositionPossible)"

definition IsDefinitiveFailure :: "PortError \<Rightarrow> bool" where
  "IsDefinitiveFailure err \<longleftrightarrow>
     ErrorDisposition err = DispositionRejected \<or> ErrorDisposition err = DispositionConfirmedFailure"

definition ErrorCosts :: "PortError \<Rightarrow> CostComponent list" where
  "ErrorCosts err = (case pe_stage err of Some (_, costs) \<Rightarrow> costs | None \<Rightarrow> [])"

definition NewStageError :: "string \<Rightarrow> PortError \<Rightarrow> PortError" where
  "NewStageError disposition err = err\<lparr>pe_stage := Some (disposition, [])\<rparr>"

text \<open>A Go error value of the executor; \<open>errors.Join\<close> is concatenation and nil is the empty list.\<close>

datatype saga_error =
    SagaBusy
  | SagaIncomplete
  | SagaPlan seq_error
  | SagaActive OperationID
  | SagaRequest request_error
  | SagaPort PortError
  | SagaDependency int int
  | SagaInput seq_error
  | SagaDriver string
  | SagaConverter int
  | SagaSelector
  | SagaJournal
  | SagaExit seq_error
  | SagaRoute string
  | SagaEconomics
  | SagaSettlements
  | SagaPanic

section \<open>Results and traces\<close>

definition no_amount :: TokenAmount where "no_amount = \<lparr>amt_token = [], amt_units = 0\<rparr>"
definition no_quantity :: AssetQuantity where "no_quantity = \<lparr>qty_asset = [], qty_value = 0\<rparr>"

record SequentialResult =
  res_Operation :: OperationID
  res_FinalAmount :: TokenAmount
  res_ExitDecision :: "SequentialExitDecision option"
  res_Settlements :: "SequentialStageSettlement list"
  res_Costs :: "CostComponent list"
  res_ExecutionCost :: AssetQuantity
  res_ExternalCost :: AssetQuantity
  res_RealizedGross :: AssetQuantity
  res_RealizedNetPnL :: AssetQuantity
  res_QuoteDelta :: AssetQuantity
  res_BaseDelta :: AssetQuantity
  res_MarkedBase :: AssetQuantity
  res_MarkPrice :: "rat option"

definition empty_result :: "OperationID \<Rightarrow> SequentialResult" where
  "empty_result oid = \<lparr>res_Operation = oid, res_FinalAmount = no_amount, res_ExitDecision = None, res_Settlements = [],
     res_Costs = [], res_ExecutionCost = no_quantity, res_ExternalCost = no_quantity, res_RealizedGross = no_quantity,
     res_RealizedNetPnL = no_quantity, res_QuoteDelta = no_quantity, res_BaseDelta = no_quantity,
     res_MarkedBase = no_quantity, res_MarkPrice = None\<rparr>"

datatype seq_event =
    EvCreated OperationID
  | EvBlocked OperationID
  | EvExecute SequentialStageRequest "PortError option"
  | EvSwaps OperationID
  | EvSettled SequentialStageSettlement
  | EvExit SequentialExitDecision
  | EvFinished string

record 'w Run =
  rn_world :: 'w
  rn_trace :: "seq_event list"

definition call :: "('w \<Rightarrow> 'r \<times> 'w) \<Rightarrow> 'w Run \<Rightarrow> 'r \<times> 'w Run" where
  "call f run = (case f (rn_world run) of (r, w) \<Rightarrow> (r, run\<lparr>rn_world := w\<rparr>))"

definition emit :: "seq_event \<Rightarrow> 'w Run \<Rightarrow> 'w Run" where
  "emit ev run = run\<lparr>rn_trace := rn_trace run @ [ev]\<rparr>"

section \<open>Ports\<close>

record 'w Driver =
  dr_ExecuteStage :: "SequentialStageRequest \<Rightarrow> 'w \<Rightarrow> (PortError, SequentialStageSettlement) result \<times> 'w"
  dr_ConvertStageInput :: "(SequentialStagePlan \<Rightarrow> TokenAmount \<Rightarrow> (PortError, TokenAmount) result) option"

type_synonym 'w select = "OperationID \<Rightarrow> SequentialPlan \<Rightarrow> TokenAmount \<Rightarrow> CostComponent list \<Rightarrow> 'w \<Rightarrow>
  (PortError, SequentialExitDecision) result \<times> 'w"

record 'w Selector =
  sl_SelectExit :: "'w select"
  sl_SelectRecoveryExit :: "'w select option"
  sl_Prefunded :: "('w select \<times> (PortError \<Rightarrow> 'w select)) option"

record 'w DriverSet =
  ds_Buy :: "'w Driver option"
  ds_BridgeBase :: "'w Driver option"
  ds_Sell :: "'w Driver option"
  ds_BridgeQuoteReturn :: "'w Driver option"
  ds_ExitSelector :: "'w Selector option"

definition DriverFor :: "'w DriverSet \<Rightarrow> string \<Rightarrow> (saga_error, 'w Driver) result" where
  "DriverFor d stage =
     (let driver = (if stage = StageBuy then ds_Buy d
                    else if stage = StageBridgeBase then ds_BridgeBase d
                    else if stage = StageSell then ds_Sell d
                    else if stage = StageBridgeQuoteReturn then ds_BridgeQuoteReturn d else None)
      in case driver of None \<Rightarrow> Inl (SagaDriver stage) | Some dr \<Rightarrow> Inr dr)"

text \<open>
  The journal. \<open>jn_Recovery\<close> is the recovery journal: its creation stores the plan with the
  operation in one commit, its second function records a recovery state.
\<close>

record 'w Journal =
  jn_Create :: "SequentialOperation \<Rightarrow> 'w \<Rightarrow> PortError option \<times> 'w"
  jn_RecordStageSettlement :: "SequentialStageSettlement \<Rightarrow> 'w \<Rightarrow> PortError option \<times> 'w"
  jn_Finish :: "OperationID \<Rightarrow> string \<Rightarrow> saga_error list \<Rightarrow> 'w \<Rightarrow> PortError option \<times> 'w"
  jn_Active :: "'w \<Rightarrow> (PortError, OperationID option) result \<times> 'w"
  jn_Recovery :: "((SequentialOperation \<Rightarrow> SequentialPlan \<Rightarrow> 'w \<Rightarrow> PortError option \<times> 'w) \<times>
                   (OperationID \<Rightarrow> string \<Rightarrow> PortError \<Rightarrow> 'w \<Rightarrow> PortError option \<times> 'w)) option"
  jn_Result :: "(SequentialResult \<Rightarrow> 'w \<Rightarrow> PortError option \<times> 'w) option"
  jn_ExitDecision :: "(SequentialExitDecision \<Rightarrow> 'w \<Rightarrow> PortError option \<times> 'w) option"
  jn_StageFailure :: "(OperationID \<Rightarrow> int \<Rightarrow> CostComponent list \<Rightarrow> 'w \<Rightarrow> PortError option \<times> 'w) option"

text \<open>
  The interfaces the executor may find on its purchase driver: a preflight with the release
  of what it retains, the parallel swaps, and the triggered swaps with the test that selects
  them. The restorer takes over the return of the quote token.
\<close>

type_synonym 'w swaps = "OperationID \<Rightarrow> SequentialPlan \<Rightarrow> 'w \<Rightarrow> (SequentialStageSettlement list \<times> PortError option) \<times> 'w"

record 'w Restorer =
  rs_BeginBase :: "OperationID \<Rightarrow> 'w \<Rightarrow> PortError option \<times> 'w"
  rs_Start :: "SequentialStageRequest \<Rightarrow> 'w \<Rightarrow> PortError option \<times> 'w"
  rs_CompleteBase :: "OperationID \<Rightarrow> PortError option \<Rightarrow> 'w \<Rightarrow> PortError option \<times> 'w"

record 'w Executor =
  ex_journal :: "'w Journal"
  ex_drivers :: "'w DriverSet"
  ex_clock :: "'w \<Rightarrow> gotime \<times> 'w"
  ex_asyncQuote :: "'w Restorer option"
  ex_preflight :: "((OperationID \<Rightarrow> SequentialPlan \<Rightarrow> 'w \<Rightarrow> PortError option \<times> 'w) \<times> (OperationID \<Rightarrow> 'w \<Rightarrow> 'w)) option"
  ex_parallel :: "'w swaps option"
  ex_triggered :: "((SequentialPlan \<Rightarrow> bool) \<times> 'w swaps) option"

text \<open>
  \<open>NewSequentialExecutorWithObserver\<close>: every stage needs a driver. The nil tests on the
  journal and the clock have no counterpart, neither is optional here.
\<close>

definition NewSequentialExecutor :: "'w Executor \<Rightarrow> (saga_error, 'w Executor) result" where
  "NewSequentialExecutor e =
     check (first_error (\<lambda>stage. case DriverFor (ex_drivers e) stage of Inl err \<Rightarrow> Some err | Inr _ \<Rightarrow> None)
              [StageBuy, StageBridgeBase, StageSell, StageBridgeQuoteReturn])
       (Inr (e\<lparr>ex_asyncQuote := None\<rparr>))"

definition SetAsyncQuoteRestorer :: "'w Executor \<Rightarrow> 'w Restorer option \<Rightarrow> 'w Executor" where
  "SetAsyncQuoteRestorer e restorer = e\<lparr>ex_asyncQuote := restorer\<rparr>"

section \<open>Helpers of the executor\<close>

definition finish ::
  "'w Executor \<Rightarrow> SequentialOperation \<Rightarrow> string \<Rightarrow> saga_error list \<Rightarrow> 'w Run \<Rightarrow> saga_error list \<times> 'w Run" where
  "finish e operation state cause run =
     (case call (jn_Finish (ex_journal e) (sq_ID operation) state cause) run of
        (Some err, run') \<Rightarrow> ([SagaPort err], run')
      | (None, run') \<Rightarrow> ([], emit (EvFinished state) (snd (call (ex_clock e) run'))))"

definition resolveInput ::
  "'w Executor \<Rightarrow> SequentialPlan \<Rightarrow> SequentialStagePlan \<Rightarrow> TokenAmount \<Rightarrow> (int \<rightharpoonup> TokenAmount) \<Rightarrow>
   (saga_error, TokenAmount) result" where
  "resolveInput e plan stage legacyCurrent outputs =
     (case find (\<lambda>d. outputs d = None) (st_DependsOn stage) of
        Some d \<Rightarrow> Inl (SagaDependency (st_Ordinal stage) d)
      | None \<Rightarrow>
          rbind (if st_InputFromOrdinal stage = 0 \<and> st_Ordinal stage > 1 then Inr legacyCurrent
                 else map_err SagaInput (InputFor plan stage outputs)) (\<lambda>inp.
            if amt_token inp = st_InputToken stage then Inr inp
            else rbind (DriverFor (ex_drivers e) (st_Stage stage)) (\<lambda>driver.
              case dr_ConvertStageInput driver of
                None \<Rightarrow> Inl (SagaConverter (st_Ordinal stage))
              | Some convert \<Rightarrow> map_err SagaPort (convert stage inp))))"

definition persistExitDecision ::
  "'w Executor \<Rightarrow> SequentialExitDecision \<Rightarrow> 'w Run \<Rightarrow> saga_error list \<times> 'w Run" where
  "persistExitDecision e decision run =
     (case ExitDecisionValidate decision of
        Some err \<Rightarrow> ([SagaExit err], run)
      | None \<Rightarrow>
        (case jn_ExitDecision (ex_journal e) of
           None \<Rightarrow> ([SagaJournal], run)
         | Some record \<Rightarrow>
           (case call (record decision) run of
              (Some err, run') \<Rightarrow> ([SagaPort err], run')
            | (None, run') \<Rightarrow> ([], emit (EvExit decision) run'))))"

type_synonym exit_choice = "(saga_error list, SequentialStagePlan list \<times> SequentialExitDecision) result"

definition selectPrefundedRecoveryExit ::
  "'w Executor \<Rightarrow> OperationID \<Rightarrow> SequentialPlan \<Rightarrow> TokenAmount \<Rightarrow> CostComponent list \<Rightarrow> PortError \<Rightarrow> 'w Run \<Rightarrow>
   exit_choice \<times> 'w Run" where
  "selectPrefundedRecoveryExit e oid plan bought costs cause run =
     (case Option.bind (ds_ExitSelector (ex_drivers e)) sl_Prefunded of
        None \<Rightarrow> (Inl [SagaSelector], run)
      | Some (_, select) \<Rightarrow>
        (case call (select cause oid plan bought costs) run of
           (Inl err, run') \<Rightarrow> (Inl [SagaPort err], run')
         | (Inr decision, run') \<Rightarrow>
           (case persistExitDecision e decision run' of
              (err # errs, run'') \<Rightarrow> (Inl (err # errs), run'')
            | ([], run'') \<Rightarrow>
                (if ed_Route decision = ExitSellAtDestination then Inr (drop 1 (sp_Stages plan), decision)
                 else if ed_Route decision = ExitSellAtOrigin then Inr (sp_CircuitBreaker plan, decision)
                 else Inl [SagaRoute (ed_Route decision)], run''))))"

definition canAutomaticallyRecoverSwap ::
  "SequentialPlan \<Rightarrow> SequentialStagePlan \<Rightarrow> PortError \<Rightarrow> nat \<Rightarrow> bool" where
  "canAutomaticallyRecoverSwap plan stage err attempts \<longleftrightarrow>
     \<not> (attempts \<ge> 1 \<or> st_Stage stage \<noteq> StageSell) \<and>
     \<not> (EffectivePolicy plan = PolicyPrefundedSequential \<and> st_Ordinal stage \<noteq> 2) \<and>
     (ErrorDisposition err = DispositionRejected \<or> ErrorDisposition err = DispositionConfirmedFailure)"

definition reselectPostBridgeExit ::
  "'w Executor \<Rightarrow> OperationID \<Rightarrow> SequentialPlan \<Rightarrow> TokenAmount \<Rightarrow> CostComponent list \<Rightarrow> PortError \<Rightarrow> 'w Run \<Rightarrow>
   exit_choice \<times> 'w Run" where
  "reselectPostBridgeExit e oid plan current costs cause run =
     (case Option.bind (ds_ExitSelector (ex_drivers e)) sl_SelectRecoveryExit of
        None \<Rightarrow> (Inl [SagaSelector], run)
      | Some select \<Rightarrow>
        (case call (select oid plan current costs) run of
           (Inl err, run') \<Rightarrow> (Inl [SagaPort err], run')
         | (Inr chosen, run') \<Rightarrow>
           (let decision = chosen\<lparr>ed_Evidence := ed_Evidence chosen @ ''+automatic_recovery_after_'' @ ErrorDisposition cause\<rparr> in
            case persistExitDecision e decision run' of
              (err # errs, run'') \<Rightarrow> (Inl (err # errs), run'')
            | ([], run'') \<Rightarrow>
                (if ed_Route decision = ExitReturnToOrigin
                 then (case ReturnExitStages plan of Inl err \<Rightarrow> Inl [SagaExit err] | Inr stages \<Rightarrow> Inr (stages, decision))
                 else Inr (drop 2 (sp_Stages plan), decision), run''))))"

text \<open>The loop over the costs of a result: the sum of all quote values and of the external ones.\<close>

definition add_cost ::
  "AssetID \<Rightarrow> AssetQuantity \<times> AssetQuantity \<Rightarrow> CostComponent \<Rightarrow> (saga_error, AssetQuantity \<times> AssetQuantity) result" where
  "add_cost asset acc cost =
     (case acc of (allCosts, external) \<Rightarrow>
      if qty_asset (cc_QuoteValue cost) \<noteq> asset then Inl SagaEconomics
      else rbind (map_err (\<lambda>_. SagaEconomics) (QtyAdd allCosts (cc_QuoteValue cost))) (\<lambda>allCosts'.
        if cc_IncludedInOutput cost then Inr (allCosts', external)
        else rbind (map_err (\<lambda>_. SagaEconomics) (QtyAdd external (cc_QuoteValue cost))) (\<lambda>external'.
          Inr (allCosts', external'))))"

definition calculateSequentialEconomics ::
  "SequentialPlan \<Rightarrow> SequentialResult \<Rightarrow> (saga_error, SequentialResult) result" where
  "calculateSequentialEconomics plan result =
     (case (if AmountIsZero (res_FinalAmount result) then None else selected (sp_Opportunity plan)) of
        None \<Rightarrow> Inl SagaEconomics
      | Some candidate \<Rightarrow>
          (let asset = qty_asset (cd_Input candidate); buyIn = q_AmountIn (cd_BuyQuote candidate) in
           if asset = [] \<or> QtySign (cd_Input candidate) \<le> 0 \<or> AmountIsZero buyIn then Inr result
           else
             (let unitValue = qty_value (cd_Input candidate) / of_int (amt_units buyIn);
                  quantity = (\<lambda>v. map_err (\<lambda>_. SagaEconomics) (NewAssetQuantity asset (Some v))) in
              rbind (quantity (of_int (amt_units (sp_InitialInput plan)) * unitValue)) (\<lambda>initial.
              rbind (quantity (of_int (amt_units (res_FinalAmount result)) * unitValue)) (\<lambda>final.
              rbind (quantity 0) (\<lambda>zero.
              rbind (foldM (add_cost asset) (zero, zero) (res_Costs result)) (\<lambda>(allCosts, external).
              rbind (map_err (\<lambda>_. SagaEconomics) (QtySub final initial)) (\<lambda>gross.
              rbind (map_err (\<lambda>_. SagaEconomics) (QtySub gross external)) (\<lambda>net.
                Inr (result\<lparr>res_ExecutionCost := allCosts, res_ExternalCost := external, res_RealizedGross := gross,
                            res_RealizedNetPnL := net\<rparr>))))))))))"

text \<open>The end of a failing path: record the end, and join its error to the cause.\<close>

definition stop_with ::
  "'w Executor \<Rightarrow> SequentialOperation \<Rightarrow> string \<Rightarrow> SequentialResult \<Rightarrow> saga_error list \<Rightarrow> 'w Run \<Rightarrow>
   SequentialResult \<times> saga_error list \<times> 'w Run" where
  "stop_with e operation state result cause run =
     (case finish e operation state cause run of (errs, run') \<Rightarrow> (result, cause @ errs, run'))"

text \<open>A call of a stage driver, with its outcome in the trace.\<close>

definition execute_stage ::
  "'w Driver \<Rightarrow> SequentialStageRequest \<Rightarrow> 'w Run \<Rightarrow> (PortError, SequentialStageSettlement) result \<times> 'w Run" where
  "execute_stage driver request run =
     (case call (dr_ExecuteStage driver request) run of
        (Inl err, run') \<Rightarrow> (Inl err, emit (EvExecute request (Some err)) run')
      | (Inr settlement, run') \<Rightarrow> (Inr settlement, emit (EvExecute request None) run'))"

text \<open>The optional result journal, asked before the operation ends as completed.\<close>

definition record_result :: "'w Executor \<Rightarrow> SequentialResult \<Rightarrow> 'w Run \<Rightarrow> PortError option \<times> 'w Run" where
  "record_result e result run =
     (case jn_Result (ex_journal e) of None \<Rightarrow> (None, run) | Some record \<Rightarrow> call (record result) run)"

section \<open>Observations of a trace\<close>

text \<open>
  The ordinals of the stages a trace executed; those among them that may have had an effect,
  which is every execution that did not fail definitively; the recorded settlements and ends.
\<close>

abbreviation request_ordinal :: "SequentialStageRequest \<Rightarrow> int" where
  "request_ordinal r \<equiv> st_Ordinal (sr_Stage r)"

definition executions :: "seq_event list \<Rightarrow> int list" where
  "executions tr = concat (map (\<lambda>ev. case ev of EvExecute r _ \<Rightarrow> [request_ordinal r] | _ \<Rightarrow> []) tr)"

definition done_of :: "seq_event list \<Rightarrow> int list" where
  "done_of tr = concat (map (\<lambda>ev. case ev of
       EvExecute r (Some err) \<Rightarrow> if IsDefinitiveFailure err then [] else [request_ordinal r]
     | EvExecute r None \<Rightarrow> [request_ordinal r] | _ \<Rightarrow> []) tr)"

definition settled_of :: "seq_event list \<Rightarrow> SequentialStageSettlement list" where
  "settled_of tr = concat (map (\<lambda>ev. case ev of EvSettled s \<Rightarrow> [s] | _ \<Rightarrow> []) tr)"

definition finals :: "seq_event list \<Rightarrow> string list" where
  "finals tr = concat (map (\<lambda>ev. case ev of EvFinished s \<Rightarrow> [s] | _ \<Rightarrow> []) tr)"

lemma trace_append [simp]:
  "executions (xs @ ys) = executions xs @ executions ys" "done_of (xs @ ys) = done_of xs @ done_of ys"
  "settled_of (xs @ ys) = settled_of xs @ settled_of ys" "finals (xs @ ys) = finals xs @ finals ys"
  by (simp_all add: executions_def done_of_def settled_of_def finals_def)

lemma trace_events [simp]:
  "executions [] = []" "done_of [] = []" "settled_of [] = []" "finals [] = []"
  "executions (EvExecute r out # tr) = request_ordinal r # executions tr"
  "executions (EvSettled s # tr) = executions tr" "executions (EvFinished f # tr) = executions tr"
  "executions (EvSwaps oid # tr) = executions tr" "executions (EvExit d # tr) = executions tr"
  "executions (EvCreated oid # tr) = executions tr"
  "done_of (EvExecute r None # tr) = request_ordinal r # done_of tr"
  "done_of (EvExecute r (Some err) # tr) = (if IsDefinitiveFailure err then [] else [request_ordinal r]) @ done_of tr"
  "done_of (EvSettled s # tr) = done_of tr" "done_of (EvFinished f # tr) = done_of tr"
  "done_of (EvSwaps oid # tr) = done_of tr" "done_of (EvExit d # tr) = done_of tr" "done_of (EvCreated oid # tr) = done_of tr"
  "settled_of (EvExecute r out # tr) = settled_of tr" "settled_of (EvSettled s # tr) = s # settled_of tr"
  "settled_of (EvFinished f # tr) = settled_of tr" "settled_of (EvSwaps oid # tr) = settled_of tr"
  "settled_of (EvExit d # tr) = settled_of tr" "settled_of (EvCreated oid # tr) = settled_of tr"
  "finals (EvExecute r out # tr) = finals tr" "finals (EvSettled s # tr) = finals tr"
  "finals (EvFinished f # tr) = f # finals tr" "finals (EvSwaps oid # tr) = finals tr"
  "finals (EvExit d # tr) = finals tr" "finals (EvCreated oid # tr) = finals tr"
  by (simp_all add: executions_def done_of_def settled_of_def finals_def)

lemma trace_exits [simp]:
  "executions (map EvExit ds) = []" "done_of (map EvExit ds) = []" "settled_of (map EvExit ds) = []" "finals (map EvExit ds) = []"
  by (induction ds) simp_all

section \<open>Lemmas on the helpers\<close>

lemma call_trace: "call f run = (r, run') \<Longrightarrow> rn_trace run' = rn_trace run"
  by (auto simp: call_def split: prod.splits)

lemma call_snd_trace [simp]: "rn_trace (snd (call f run)) = rn_trace run"
  by (simp add: call_def split: prod.splits)

lemma emit_trace [simp]: "rn_trace (emit ev run) = rn_trace run @ [ev]"
  by (simp add: emit_def)

lemma finish_trace:
  "finish e operation state cause run = (errs, run') \<Longrightarrow>
     (errs = [] \<and> rn_trace run' = rn_trace run @ [EvFinished state]) \<or> (errs \<noteq> [] \<and> rn_trace run' = rn_trace run)"
  by (auto simp: finish_def split: prod.splits option.splits dest: call_trace)

lemma stop_with_trace:
  "stop_with e operation state result cause run = (r, errs, run') \<Longrightarrow>
     r = result \<and> (\<exists>ferrs. errs = cause @ ferrs \<and>
       ((ferrs = [] \<and> rn_trace run' = rn_trace run @ [EvFinished state]) \<or> (ferrs \<noteq> [] \<and> rn_trace run' = rn_trace run)))"
  by (auto simp: stop_with_def split: prod.splits dest: finish_trace)

lemma execute_stage_trace:
  "execute_stage driver request run = (out, run') \<Longrightarrow>
     rn_trace run' = rn_trace run @ [EvExecute request (case out of Inl err \<Rightarrow> Some err | Inr _ \<Rightarrow> None)]"
  by (auto simp: execute_stage_def split: prod.splits sum.splits dest: call_trace)

lemma record_result_trace: "record_result e result run = (err, run') \<Longrightarrow> rn_trace run' = rn_trace run"
  by (auto simp: record_result_def split: option.splits dest: call_trace)

lemma persistExitDecision_trace:
  "persistExitDecision e decision run = (errs, run') \<Longrightarrow>
     rn_trace run' = rn_trace run @ (if errs = [] then [EvExit decision] else [])"
  by (auto simp: persistExitDecision_def split: prod.splits option.splits dest: call_trace)

lemma selectPrefundedRecoveryExit_trace:
  assumes "selectPrefundedRecoveryExit e oid plan bought costs cause run = (choice, run')"
  shows "(\<exists>ds. rn_trace run' = rn_trace run @ map EvExit ds) \<and>
    (\<forall>stages decision. choice = Inr (stages, decision) \<longrightarrow> stages = drop 1 (sp_Stages plan) \<or> stages = sp_CircuitBreaker plan) \<and>
    choice \<noteq> Inl []"
  using assms
  by (auto simp: selectPrefundedRecoveryExit_def split: option.splits prod.splits sum.splits list.splits if_splits
      dest!: call_trace persistExitDecision_trace intro: exI [of _ "[]"] exI [of _ "[d]" for d])

lemma reselectPostBridgeExit_trace:
  assumes "reselectPostBridgeExit e oid plan current costs cause run = (choice, run')"
  shows "(\<exists>ds. rn_trace run' = rn_trace run @ map EvExit ds) \<and>
    (\<forall>stages decision. choice = Inr (stages, decision) \<longrightarrow> stages = drop 2 (sp_Stages plan) \<or> ReturnExitStages plan = Inr stages) \<and>
    choice \<noteq> Inl []"
  using assms
  by (auto simp: reselectPostBridgeExit_def Let_def split: option.splits prod.splits sum.splits list.splits if_splits
      dest!: call_trace persistExitDecision_trace intro: exI [of _ "[]"] exI [of _ "[d]" for d])

section \<open>Realized economics\<close>

abbreviation qty :: "AssetID \<Rightarrow> rat \<Rightarrow> AssetQuantity" where
  "qty asset v \<equiv> \<lparr>qty_asset = asset, qty_value = v\<rparr>"

definition cost_total :: "CostComponent list \<Rightarrow> rat" where
  "cost_total costs = sum_list (map (\<lambda>c. qty_value (cc_QuoteValue c)) costs)"

definition external_total :: "CostComponent list \<Rightarrow> rat" where
  "external_total costs = sum_list (map (\<lambda>c. if cc_IncludedInOutput c then 0 else qty_value (cc_QuoteValue c)) costs)"

definition valued_in :: "AssetID \<Rightarrow> CostComponent list \<Rightarrow> bool" where
  "valued_in asset costs \<longleftrightarrow> list_all (\<lambda>c. qty_asset (cc_QuoteValue c) = asset) costs"

lemma cost_totals [simp]:
  "cost_total [] = 0" "external_total [] = 0" "valued_in asset []"
  "cost_total (c # cs) = qty_value (cc_QuoteValue c) + cost_total cs"
  "external_total (c # cs) = (if cc_IncludedInOutput c then 0 else qty_value (cc_QuoteValue c)) + external_total cs"
  "valued_in asset (c # cs) \<longleftrightarrow> qty_asset (cc_QuoteValue c) = asset \<and> valued_in asset cs"
  by (simp_all add: cost_total_def external_total_def valued_in_def)

lemma add_cost_fold:
  "asset \<noteq> [] \<Longrightarrow> foldM (add_cost asset) (qty asset a, qty asset b) costs =
     (if valued_in asset costs then Inr (qty asset (a + cost_total costs), qty asset (b + external_total costs)) else Inl SagaEconomics)"
proof (induction costs arbitrary: a b)
  case (Cons c cs)
  show ?case
  proof (cases "qty_asset (cc_QuoteValue c) = asset")
    case True
    then have "add_cost asset (qty asset a, qty asset b) c =
        Inr (qty asset (a + qty_value (cc_QuoteValue c)), qty asset (b + (if cc_IncludedInOutput c then 0 else qty_value (cc_QuoteValue c))))"
      using Cons.prems by (simp add: add_cost_def QtyAdd_def NewAssetQuantity_def)
    then show ?thesis using Cons True by (simp add: add.assoc)
  qed (simp add: add_cost_def)
qed simp

section \<open>Properties\<close>

text \<open>
  C36: The realized result of a sequential operation is exact. Unless a cost is not valued in the
  asset of the candidate, which is the only error, the gross result is the difference of the
  final and the initial amount at the discovered unit value, the net result is the gross result
  less the costs that the output does not already include, and nothing else changes.
\<close>

theorem sequential_economics_exact:
  fixes plan result
  assumes "selected (sp_Opportunity plan) = Some c" and "qty_asset (cd_Input c) \<noteq> []" and "0 < qty_value (cd_Input c)"
    and "amt_units (q_AmountIn (cd_BuyQuote c)) \<noteq> 0" and "amt_units (res_FinalAmount result) \<noteq> 0"
  shows "calculateSequentialEconomics plan result =
    (let asset = qty_asset (cd_Input c);
         gross = of_int (amt_units (res_FinalAmount result) - amt_units (sp_InitialInput plan)) *
           (qty_value (cd_Input c) / of_int (amt_units (q_AmountIn (cd_BuyQuote c)))) in
     if valued_in asset (res_Costs result)
     then Inr (result\<lparr>res_ExecutionCost := qty asset (cost_total (res_Costs result)),
       res_ExternalCost := qty asset (external_total (res_Costs result)), res_RealizedGross := qty asset gross,
       res_RealizedNetPnL := qty asset (gross - external_total (res_Costs result))\<rparr>)
     else Inl SagaEconomics)"
  using assms add_cost_fold [OF assms(2), of 0 0 "res_Costs result"]
  by (simp add: calculateSequentialEconomics_def Let_def AmountIsZero_def NewAssetQuantity_def QtySub_def left_diff_distrib diff_divide_distrib)

section \<open>Witnesses\<close>

definition final_sample :: SequentialResult where
  "final_sample = (empty_result ''op'')\<lparr>res_FinalAmount := \<lparr>amt_token = ''usd-a'', amt_units = 33\<rparr>,
     res_Costs := [\<lparr>cc_Kind = ''gas'', cc_Chain = ''A'', cc_Amount = qty ''eth'' 1, cc_QuoteValue = qty ''usd'' 2,
       cc_IncludedInOutput = False, cc_Evidence = ''tx''\<rparr>]\<rparr>"

theorem sequential_economics_exact_witness:
  "\<exists>result'. calculateSequentialEconomics plan_sample final_sample = Inr result' \<and> qty_value (res_RealizedNetPnL result') = 1"
proof -
  have c: "selected (sp_Opportunity plan_sample) = Some plan_candidate"
    by (simp add: selected_def plan_sample_def plan_opportunity_sample_def)
  have v: "qty_asset (cd_Input plan_candidate) = ''usd''" "qty_value (cd_Input plan_candidate) = 100"
      "amt_units (q_AmountIn (cd_BuyQuote plan_candidate)) = 100" "amt_units (res_FinalAmount final_sample) = 33"
      "amt_units (sp_InitialInput plan_sample) = 30"
    by (simp_all add: plan_candidate_def plan_quote_def dollars_def final_sample_def plan_sample_def)
  have costs: "valued_in ''usd'' (res_Costs final_sample)" "external_total (res_Costs final_sample) = 2"
    by (simp_all add: final_sample_def)
  from sequential_economics_exact [OF c, of final_sample] show ?thesis by (simp add: v costs Let_def)
qed

text \<open>An executor on the world of one point: the journal accepts everything, every driver rejects.\<close>

definition rejection :: PortError where
  "rejection = \<lparr>pe_stage = Some (DispositionRejected, []), pe_invariant = False, pe_text = []\<rparr>"

definition accepting_journal :: "unit Journal" where
  "accepting_journal = \<lparr>jn_Create = (\<lambda>_ w. (None, w)), jn_RecordStageSettlement = (\<lambda>_ w. (None, w)), jn_Finish = (\<lambda>_ _ _ w. (None, w)),
     jn_Active = (\<lambda>w. (Inr None, w)), jn_Recovery = None, jn_Result = None, jn_ExitDecision = None, jn_StageFailure = None\<rparr>"

definition rejecting_driver :: "unit Driver" where
  "rejecting_driver = \<lparr>dr_ExecuteStage = (\<lambda>_ w. (Inl rejection, w)), dr_ConvertStageInput = None\<rparr>"

definition rejecting_executor :: "unit Executor" where
  "rejecting_executor = \<lparr>ex_journal = accepting_journal, ex_drivers = \<lparr>ds_Buy = Some rejecting_driver, ds_BridgeBase = Some rejecting_driver,
       ds_Sell = Some rejecting_driver, ds_BridgeQuoteReturn = Some rejecting_driver, ds_ExitSelector = None\<rparr>,
     ex_clock = (\<lambda>w. (5, w)), ex_asyncQuote = None, ex_preflight = None,
     ex_parallel = Some (\<lambda>_ _ w. (([], Some rejection), w)), ex_triggered = None\<rparr>"

lemmas rejecting_defs = rejecting_executor_def rejecting_driver_def accepting_journal_def rejection_def

lemma rejection_definitive: "IsDefinitiveFailure rejection" "ErrorCosts rejection = []"
  by (simp_all add: IsDefinitiveFailure_def ErrorDisposition_def ErrorCosts_def rejection_def)

end
