(* ===== verification/Saga_Parallel.thy ===== *)
theory Saga_Parallel
  imports Saga_Ports
begin

text \<open>
  The prefunded parallel lifecycle of the dependent executor:
  \<open>src/core/saga/sequential_parallel.go\<close>. Both swaps are one call of the swap driver, the two
  bridges run concurrently. The drivers of the bridges are called as atomic steps in an order
  that the scheduler chooses, which is the argument \<open>quoteFirst\<close>.
\<close>

section \<open>Economics\<close>

definition parallelHumanAmount :: "SequentialPlan \<Rightarrow> TokenAmount \<Rightarrow> (saga_error, rat) result" where
  "parallelHumanAmount plan amount =
     (case map_of (sp_TokenDecimals plan) (amt_token amount) of
        None \<Rightarrow> Inl SagaEconomics
      | Some decimals \<Rightarrow> Inr (of_int (amt_units amount) / of_int (10 ^ unat decimals)))"

text \<open>The last purchase and the sales among the settlements, in their order.\<close>

definition pick_settlement ::
  "SequentialStageSettlement option \<times> SequentialStageSettlement list \<Rightarrow> SequentialStageSettlement \<Rightarrow>
   SequentialStageSettlement option \<times> SequentialStageSettlement list" where
  "pick_settlement acc s =
     (case acc of (buy, sales) \<Rightarrow>
      let stage = sr_Stage (ss_Request s) in
      if st_Ordinal stage = 1 then (Some s, sales)
      else if st_Ordinal stage = 2 \<or> st_Stage stage = StageSell \<and> st_Branch stage = BranchCircuitBreaker then (buy, sales @ [s])
      else (buy, sales))"

definition add_sale ::
  "SequentialPlan \<Rightarrow> rat \<times> rat \<Rightarrow> SequentialStageSettlement \<Rightarrow> (saga_error, rat \<times> rat) result" where
  "add_sale plan acc sale =
     rbind (parallelHumanAmount plan (ss_ActualOutput sale)) (\<lambda>saleQuote.
     rbind (parallelHumanAmount plan (ss_ActualInput sale)) (\<lambda>saleBase.
       Inr (fst acc + saleQuote, snd acc + saleBase)))"

definition add_parallel_cost ::
  "AssetID \<Rightarrow> rat \<times> rat \<Rightarrow> CostComponent \<Rightarrow> (saga_error, rat \<times> rat) result" where
  "add_parallel_cost asset acc cost =
     (if qty_asset (cc_QuoteValue cost) \<noteq> asset then Inl SagaEconomics
      else Inr (fst acc + qty_value (cc_QuoteValue cost),
                snd acc + (if cc_IncludedInOutput cost then 0 else qty_value (cc_QuoteValue cost))))"

text \<open>
  The quantities are in the quote and base asset of the plan, which are not empty here, so
  that the constructors and sums whose error the code drops cannot fail. \<open>big.Rat.Quo\<close>
  panics on a zero divisor.
\<close>

definition calculateParallelEconomics ::
  "SequentialPlan \<Rightarrow> SequentialResult \<Rightarrow> (saga_error, SequentialResult) result" where
  "calculateParallelEconomics plan result =
     (if length (res_Settlements result) < 2 \<or> sp_BaseAsset plan = [] \<or> sp_QuoteAsset plan = [] then Inl SagaEconomics
      else case foldl pick_settlement (None, []) (res_Settlements result) of
        (None, _) \<Rightarrow> Inl SagaSettlements
      | (Some buy, sales) \<Rightarrow>
          if AmountIsZero (ss_ActualOutput buy) \<or> sales = [] then Inl SagaSettlements
          else
            rbind (parallelHumanAmount plan (ss_ActualInput buy)) (\<lambda>qIn.
            rbind (parallelHumanAmount plan (ss_ActualOutput buy)) (\<lambda>bBuy.
            rbind (foldM (add_sale plan) (0, 0) sales) (\<lambda>(qOut, bSell).
              if bBuy = 0 \<or> bSell = 0 then Inl SagaPanic
              else
                (let quote = sp_QuoteAsset plan; quoteDelta = qOut - qIn; baseDelta = bBuy - bSell;
                     mark = (qIn / bBuy + qOut / bSell) / 2; marked = baseDelta * mark; gross = quoteDelta + marked in
                 rbind (foldM (add_parallel_cost quote) (0, 0) (res_Costs result)) (\<lambda>(allCosts, external).
                   Inr (result\<lparr>res_FinalAmount := ss_ActualOutput (last sales),
                     res_QuoteDelta := \<lparr>qty_asset = quote, qty_value = quoteDelta\<rparr>,
                     res_BaseDelta := \<lparr>qty_asset = sp_BaseAsset plan, qty_value = baseDelta\<rparr>,
                     res_MarkedBase := \<lparr>qty_asset = quote, qty_value = marked\<rparr>, res_MarkPrice := Some mark,
                     res_ExecutionCost := \<lparr>qty_asset = quote, qty_value = allCosts\<rparr>,
                     res_ExternalCost := \<lparr>qty_asset = quote, qty_value = external\<rparr>,
                     res_RealizedGross := \<lparr>qty_asset = quote, qty_value = gross\<rparr>,
                     res_RealizedNetPnL := \<lparr>qty_asset = quote, qty_value = gross - external\<rparr>\<rparr>)))))))"

section \<open>The lifecycle\<close>

text \<open>The operation and the result that \<open>recordParallelSettlement\<close> updates through pointers.\<close>

definition recordParallelSettlement ::
  "'w Executor \<Rightarrow> SequentialStageSettlement \<Rightarrow> SequentialOperation \<times> SequentialResult \<times> 'w Run \<Rightarrow>
   saga_error list \<times> SequentialOperation \<times> SequentialResult \<times> 'w Run" where
  "recordParallelSettlement e settlement st =
     (case st of (operation, result, run) \<Rightarrow>
      case SettlementValidate settlement of
        Some err \<Rightarrow> ([SagaRequest err], operation, result, run)
      | None \<Rightarrow>
        (case call (jn_RecordStageSettlement (ex_journal e) settlement) run of
           (Some err, run') \<Rightarrow> ([SagaPort err], operation, result, run')
         | (None, run') \<Rightarrow>
           (let stage = sr_Stage (ss_Request settlement);
                operation' = (if st_Ordinal stage \<ge> sq_CurrentStage operation
                  then operation\<lparr>sq_CurrentStage := st_Ordinal stage, sq_CurrentAmount := ss_ActualOutput settlement\<rparr>
                  else operation)
            in ([], operation'\<lparr>sq_UpdatedAt := ss_ObservedAt settlement\<rparr>,
                result\<lparr>res_Settlements := res_Settlements result @ [settlement], res_Costs := res_Costs result @ ss_Costs settlement\<rparr>,
                emit (EvSettled settlement) run'))))"

fun record_settlements ::
  "'w Executor \<Rightarrow> SequentialStageSettlement list \<Rightarrow> SequentialOperation \<times> SequentialResult \<times> 'w Run \<Rightarrow>
   saga_error list \<times> SequentialOperation \<times> SequentialResult \<times> 'w Run" where
  "record_settlements e [] st = ([], st)"
| "record_settlements e (s # rest) st =
     (case recordParallelSettlement e s st of
        ([], st') \<Rightarrow> record_settlements e rest st'
      | (errs, st') \<Rightarrow> (errs, st'))"

definition parallel_swaps :: "'w Executor \<Rightarrow> 'w swaps \<Rightarrow> SequentialPlan \<Rightarrow> 'w swaps" where
  "parallel_swaps e parallel plan =
     (case ex_triggered e of
        Some (stagedFor, triggered) \<Rightarrow> if stagedFor plan then triggered else parallel
      | None \<Rightarrow> parallel)"

definition prepare_bridge ::
  "'w Executor \<Rightarrow> OperationID \<Rightarrow> SequentialPlan \<Rightarrow> (int \<rightharpoonup> TokenAmount) \<Rightarrow> SequentialStagePlan \<Rightarrow>
   (saga_error, SequentialStageRequest \<times> 'w Driver) result" where
  "prepare_bridge e oid plan outputs stage =
     rbind (resolveInput e plan stage (sp_InitialInput plan) outputs) (\<lambda>inp.
     rbind (DriverFor (ex_drivers e) (st_Stage stage)) (\<lambda>driver.
       Inr (\<lparr>sr_Operation = oid, sr_Plan = sp_ID plan, sr_Stage = stage, sr_Input = inp\<rparr>, driver)))"

text \<open>The common end of the two variants: economics, result journal, recorded end.\<close>

definition complete_parallel ::
  "'w Executor \<Rightarrow> SequentialPlan \<Rightarrow> SequentialOperation \<times> SequentialResult \<times> 'w Run \<Rightarrow>
   SequentialResult \<times> saga_error list \<times> 'w Run" where
  "complete_parallel e plan st =
     (case st of (operation, result, run) \<Rightarrow>
      case calculateParallelEconomics plan result of
        Inl err \<Rightarrow> stop_with e operation SequentialManualIntervention result [err] run
      | Inr result' \<Rightarrow>
        (case record_result e result' run of
           (Some err, run') \<Rightarrow> (result', [SagaPort err], run')
         | (None, run') \<Rightarrow> stop_with e operation SequentialCompleted result' [] run'))"

definition restore_async ::
  "'w Executor \<Rightarrow> 'w Restorer \<Rightarrow> SequentialPlan \<Rightarrow> SequentialStageRequest \<times> 'w Driver \<Rightarrow> SequentialStageRequest \<times> 'w Driver \<Rightarrow>
   SequentialOperation \<times> SequentialResult \<times> 'w Run \<Rightarrow> SequentialResult \<times> saga_error list \<times> 'w Run" where
  "restore_async e restorer plan base quote st =
     (case st of (operation, result, run) \<Rightarrow>
      case call (rs_BeginBase restorer (sq_ID operation)) run of
        (Some err, run1) \<Rightarrow> (result, [SagaPort err], run1)
      | (None, run1) \<Rightarrow>
        (case call (rs_Start restorer (fst quote)) run1 of
           (Some err, run2) \<Rightarrow>
             (result, [SagaPort err], snd (call (rs_CompleteBase restorer (sq_ID operation) (Some err)) run2))
         | (None, run2) \<Rightarrow>
           (case execute_stage (snd base) (fst base) run2 of (outcome, run3) \<Rightarrow>
            case call (rs_CompleteBase restorer (sq_ID operation)
                        (case outcome of Inl err \<Rightarrow> Some err | Inr _ \<Rightarrow> None)) run3 of (completeErr, run4) \<Rightarrow>
            let errs = (case outcome of Inl err \<Rightarrow> [SagaPort err] | Inr _ \<Rightarrow> []) @
                       (case completeErr of Some err \<Rightarrow> [SagaPort err] | None \<Rightarrow> []) in
            case outcome of
              Inr settlement \<Rightarrow>
                if errs \<noteq> [] then stop_with e operation SequentialManualIntervention result errs run4
                else (case recordParallelSettlement e settlement (operation, result, run4) of
                        ([], st') \<Rightarrow> complete_parallel e plan st'
                      | (errs', operation', result', run') \<Rightarrow>
                          stop_with e operation' SequentialManualIntervention result' errs' run')
            | Inl _ \<Rightarrow> stop_with e operation SequentialManualIntervention result errs run4)))"

text \<open>The outcome of one bridge: its error, or the error of recording its settlement.\<close>

definition settle_bridge ::
  "'w Executor \<Rightarrow> (PortError, SequentialStageSettlement) result \<Rightarrow>
   saga_error list \<times> SequentialOperation \<times> SequentialResult \<times> 'w Run \<Rightarrow>
   saga_error list \<times> SequentialOperation \<times> SequentialResult \<times> 'w Run" where
  "settle_bridge e outcome acc =
     (case acc of (errs, st) \<Rightarrow>
      case outcome of
        Inl err \<Rightarrow> (errs @ [SagaPort err], st)
      | Inr settlement \<Rightarrow> (case recordParallelSettlement e settlement st of (errs', st') \<Rightarrow> (errs @ errs', st')))"

definition bridge_both ::
  "'w Executor \<Rightarrow> bool \<Rightarrow> SequentialPlan \<Rightarrow> SequentialStageRequest \<times> 'w Driver \<Rightarrow> SequentialStageRequest \<times> 'w Driver \<Rightarrow>
   SequentialOperation \<times> SequentialResult \<times> 'w Run \<Rightarrow> SequentialResult \<times> saga_error list \<times> 'w Run" where
  "bridge_both e quoteFirst plan base quote st =
     (case st of (operation, result, run) \<Rightarrow>
      case (if quoteFirst
            then (case execute_stage (snd quote) (fst quote) run of (q, run1) \<Rightarrow>
                  case execute_stage (snd base) (fst base) run1 of (b, run2) \<Rightarrow> (b, q, run2))
            else (case execute_stage (snd base) (fst base) run of (b, run1) \<Rightarrow>
                  case execute_stage (snd quote) (fst quote) run1 of (q, run2) \<Rightarrow> (b, q, run2))) of
        (b, q, run') \<Rightarrow>
          (case settle_bridge e q (settle_bridge e b ([], operation, result, run')) of
             ([], st') \<Rightarrow> complete_parallel e plan st'
           | (errs, operation', result', run'') \<Rightarrow>
               stop_with e operation' SequentialManualIntervention result' errs run''))"

text \<open>What follows the recorded settlements of the swaps.\<close>

definition after_swaps ::
  "'w Executor \<Rightarrow> bool \<Rightarrow> SequentialPlan \<Rightarrow> SequentialStageSettlement list \<Rightarrow> PortError option \<Rightarrow>
   SequentialOperation \<times> SequentialResult \<times> 'w Run \<Rightarrow> SequentialResult \<times> saga_error list \<times> 'w Run" where
  "after_swaps e quoteFirst plan settlements swapErr st =
     (case st of (operation, result, run) \<Rightarrow>
      case swapErr of
        Some err \<Rightarrow>
          stop_with e operation
            (if settlements = [] \<and> IsDefinitiveFailure err then SequentialAborted else SequentialManualIntervention)
            result [SagaPort err] run
      | None \<Rightarrow>
          if length settlements \<noteq> 2 then (result, [SagaSettlements], run)
          else
            (let outputs = map_of (rev (map (\<lambda>s. (st_Ordinal (sr_Stage (ss_Request s)), ss_ActualOutput s)) settlements)) in
             case prepare_bridge e (sq_ID operation) plan outputs (sp_Stages plan ! 2) of
               Inl err \<Rightarrow> (result, [err], run)
             | Inr base \<Rightarrow>
               (case prepare_bridge e (sq_ID operation) plan outputs (sp_Stages plan ! 3) of
                  Inl err \<Rightarrow> (result, [err], run)
                | Inr quote \<Rightarrow>
                  (case ex_asyncQuote e of
                     Some restorer \<Rightarrow> restore_async e restorer plan base quote (operation, result, run)
                   | None \<Rightarrow> bridge_both e quoteFirst plan base quote (operation, result, run)))))"

definition executePrefundedParallel ::
  "'w Executor \<Rightarrow> bool \<Rightarrow> SequentialOperation \<Rightarrow> SequentialPlan \<Rightarrow> SequentialResult \<Rightarrow> 'w Run \<Rightarrow>
   SequentialResult \<times> saga_error list \<times> 'w Run" where
  "executePrefundedParallel e quoteFirst operation plan result run =
     (case ex_parallel e of
        None \<Rightarrow> (result, [SagaDriver StageBuy], run)
      | Some parallel \<Rightarrow>
        (case ParallelSellInput plan of
           Inl err \<Rightarrow> (result, [SagaInput err], run)
         | Inr sellInput \<Rightarrow>
           (case first_error RequestValidate
                   [\<lparr>sr_Operation = sq_ID operation, sr_Plan = sp_ID plan, sr_Stage = sp_Stages plan ! 0, sr_Input = sp_InitialInput plan\<rparr>,
                    \<lparr>sr_Operation = sq_ID operation, sr_Plan = sp_ID plan, sr_Stage = sp_Stages plan ! 1, sr_Input = sellInput\<rparr>] of
              Some err \<Rightarrow> (result, [SagaRequest err], run)
            | None \<Rightarrow>
              (case call (parallel_swaps e parallel plan (sq_ID operation) plan) run of ((settlements, swapErr), run1) \<Rightarrow>
               case record_settlements e settlements (operation, result, emit (EvSwaps (sq_ID operation)) run1) of
                 (err # errs, operation', result', run2) \<Rightarrow>
                   stop_with e operation' SequentialManualIntervention result' (err # errs) run2
               | ([], st) \<Rightarrow> after_swaps e quoteFirst plan settlements swapErr st))))"

section \<open>Traces\<close>

lemma trace_settled [simp]:
  "executions (map EvSettled ss) = []" "done_of (map EvSettled ss) = []" "settled_of (map EvSettled ss) = ss" "finals (map EvSettled ss) = []"
  by (induction ss) simp_all

lemma recordParallelSettlement_trace:
  assumes "recordParallelSettlement e s (operation, result, run) = (errs, operation', result', run')"
  shows "rn_trace run' = rn_trace run @ (if errs = [] then [EvSettled s] else [])"
  using assms by (auto simp: recordParallelSettlement_def Let_def split: option.splits prod.splits dest!: call_trace)

lemma record_settlements_trace:
  "record_settlements e ss (operation, result, run) = (errs, operation', result', run') \<Longrightarrow>
     \<exists>recorded. rn_trace run' = rn_trace run @ map EvSettled recorded \<and> (errs = [] \<longrightarrow> recorded = ss)"
proof (induction ss arbitrary: operation result run)
  case (Cons s ss)
  obtain es op1 res1 run1 where r: "recordParallelSettlement e s (operation, result, run) = (es, op1, res1, run1)"
    by (metis prod_cases4)
  note t = recordParallelSettlement_trace [OF r]
  show ?case
  proof (cases es)
    case Nil
    then have "record_settlements e ss (op1, res1, run1) = (errs, operation', result', run')" using Cons.prems r by simp
    from Cons.IH [OF this] t Nil show ?thesis by (auto intro: exI [of _ "s # x" for x])
  next
    case c: (Cons x xs)
    then show ?thesis using Cons.prems r t by (auto intro: exI [of _ "[]"])
  qed
qed (auto intro: exI [of _ "[]"])

text \<open>The end of a path behind the trace \<open>tr\<close>.\<close>

definition ended :: "seq_event list \<Rightarrow> saga_error list \<Rightarrow> seq_event list \<Rightarrow> bool" where
  "ended tr errs tr' \<longleftrightarrow>
     errs = [] \<and> tr' = tr @ [EvFinished SequentialCompleted] \<or>
     errs \<noteq> [] \<and> (tr' = tr \<or> tr' = tr @ [EvFinished SequentialManualIntervention])"

text \<open>What completes has its last settlement recorded; what fails may have lost it.\<close>

definition failed_after :: "seq_event list \<Rightarrow> saga_error list \<Rightarrow> seq_event list \<Rightarrow> bool" where
  "failed_after tr errs tr' \<longleftrightarrow> errs \<noteq> [] \<and> (tr' = tr \<or> tr' = tr @ [EvFinished SequentialManualIntervention])"

lemma stop_manual:
  "stop_with e operation SequentialManualIntervention result cause run = (r, errs, run') \<Longrightarrow> cause \<noteq> [] \<Longrightarrow>
     failed_after (rn_trace run) errs (rn_trace run')"
  by (drule stop_with_trace) (auto simp: failed_after_def)

lemma complete_parallel_trace:
  assumes "complete_parallel e plan (operation, result, run) = (r, errs, run')"
  shows "ended (rn_trace run) errs (rn_trace run')"
proof (cases "calculateParallelEconomics plan result")
  case (Inl err)
  then show ?thesis using assms stop_manual [of e operation result "[err]" run r errs run']
    by (simp add: complete_parallel_def ended_def failed_after_def)
next
  case (Inr result1)
  obtain err run1 where rec: "record_result e result1 run = (err, run1)" by fastforce
  show ?thesis
  proof (cases err)
    case None
    then have "stop_with e operation SequentialCompleted result1 [] run1 = (r, errs, run')"
      using assms Inr rec by (simp add: complete_parallel_def)
    from stop_with_trace [OF this] show ?thesis using record_result_trace [OF rec] by (auto simp: ended_def)
  next
    case (Some x)
    then show ?thesis using assms Inr rec record_result_trace [OF rec] by (auto simp: complete_parallel_def ended_def)
  qed
qed

lemma restore_async_trace:
  assumes "restore_async e restorer plan base quote (operation, result, run) = (r, errs, run')"
  shows "(\<exists>mid. (mid = [] \<or> (\<exists>out. mid = [EvExecute (fst base) out])) \<and> failed_after (rn_trace run @ mid) errs (rn_trace run')) \<or>
    (\<exists>s. ended (rn_trace run @ [EvExecute (fst base) None, EvSettled s]) errs (rn_trace run'))"
proof -
  obtain err1 run1 where b: "call (rs_BeginBase restorer (sq_ID operation)) run = (err1, run1)" by fastforce
  obtain err2 run2 where st: "call (rs_Start restorer (fst quote)) run1 = (err2, run2)" by fastforce
  obtain out run3 where ex: "execute_stage (snd base) (fst base) run2 = (out, run3)" by fastforce
  define baseErr where "baseErr = (case out of Inl err \<Rightarrow> Some err | Inr _ \<Rightarrow> None)"
  obtain cerr run4 where c: "call (rs_CompleteBase restorer (sq_ID operation) baseErr) run3 = (cerr, run4)" by fastforce
  have t: "rn_trace run2 = rn_trace run" "rn_trace run4 = rn_trace run @ [EvExecute (fst base) baseErr]"
    using call_trace [OF b] call_trace [OF st] call_trace [OF c] execute_stage_trace [OF ex] by (simp_all add: baseErr_def)
  show ?thesis
  proof (cases "err1 = None \<and> err2 = None")
    case False
    then show ?thesis using assms b st call_trace [OF b] call_trace [OF st]
      by (auto simp: restore_async_def failed_after_def intro!: exI [of _ "[]"] split: option.splits)
  next
    case True
    define errs1 where "errs1 = (case out of Inl err \<Rightarrow> [SagaPort err] | Inr _ \<Rightarrow> []) @ (case cerr of Some err \<Rightarrow> [SagaPort err] | None \<Rightarrow> [])"
    show ?thesis
    proof (cases "errs1 = []")
      case False
      then have "stop_with e operation SequentialManualIntervention result errs1 run4 = (r, errs, run')"
        using assms b st ex c True unfolding restore_async_def errs1_def baseErr_def by (cases out) (simp_all add: Let_def)
      from stop_manual [OF this False] show ?thesis unfolding t(2) by blast
    next
      case ok: True
      then obtain s where s: "out = Inr s" "cerr = None" by (cases out; cases cerr) (simp_all add: errs1_def)
      obtain es op1 res1 run5 where rec: "recordParallelSettlement e s (operation, result, run4) = (es, op1, res1, run5)"
        by (metis prod_cases4)
      note t5 = recordParallelSettlement_trace [OF rec]
      show ?thesis
      proof (cases es)
        case Nil
        then have "complete_parallel e plan (op1, res1, run5) = (r, errs, run')"
          using assms b st ex c True s rec by (simp add: restore_async_def baseErr_def)
        from complete_parallel_trace [OF this] show ?thesis using t(2) t5 Nil s(1) by (auto simp: baseErr_def)
      next
        case (Cons x xs)
        then have "stop_with e op1 SequentialManualIntervention res1 (x # xs) run5 = (r, errs, run')"
          using assms b st ex c True s rec by (simp add: restore_async_def baseErr_def)
        from stop_manual [OF this] show ?thesis using t(2) t5 Cons by auto
      qed
    qed
  qed
qed

lemma settle_bridge_trace:
  assumes "settle_bridge e out (errs, operation, result, run) = (errs', operation', result', run')"
  shows "\<exists>rs. rn_trace run' = rn_trace run @ map EvSettled rs \<and> (errs' = [] \<longrightarrow> errs = [] \<and> length rs = 1)"
proof (cases out)
  case (Inl err)
  then show ?thesis using assms by (auto simp: settle_bridge_def intro!: exI [of _ "[]"])
next
  case (Inr s)
  obtain es op1 res1 run1 where rec: "recordParallelSettlement e s (operation, result, run) = (es, op1, res1, run1)"
    by (metis prod_cases4)
  have "errs' = errs @ es" "run' = run1" using assms Inr rec by (simp_all add: settle_bridge_def)
  then show ?thesis using recordParallelSettlement_trace [OF rec]
    by (cases "es = []") (auto intro: exI [of _ "[s]"] exI [of _ "[]"])
qed

lemma bridge_both_trace:
  assumes "bridge_both e quoteFirst plan base quote (operation, result, run) = (r, errs, run')"
  shows "\<exists>b q rs ex. (ex = [EvExecute (fst base) b, EvExecute (fst quote) q] \<or> ex = [EvExecute (fst quote) q, EvExecute (fst base) b]) \<and>
    (failed_after (rn_trace run @ ex @ map EvSettled rs) errs (rn_trace run') \<or>
     length rs = 2 \<and> ended (rn_trace run @ ex @ map EvSettled rs) errs (rn_trace run'))"
proof -
  define pair where "pair = (if quoteFirst
      then (case execute_stage (snd quote) (fst quote) run of (q, run1) \<Rightarrow>
            case execute_stage (snd base) (fst base) run1 of (b, run2) \<Rightarrow> (b, q, run2))
      else (case execute_stage (snd base) (fst base) run of (b, run1) \<Rightarrow>
            case execute_stage (snd quote) (fst quote) run1 of (q, run2) \<Rightarrow> (b, q, run2)))"
  obtain b q run2 where p: "pair = (b, q, run2)" by (metis prod_cases3)
  define err_of :: "(PortError, SequentialStageSettlement) result \<Rightarrow> PortError option" where
    "err_of = (\<lambda>out. case out of Inl err \<Rightarrow> Some err | Inr _ \<Rightarrow> None)"
  have "rn_trace run2 = rn_trace run @ [EvExecute (fst base) (err_of b), EvExecute (fst quote) (err_of q)] \<or>
      rn_trace run2 = rn_trace run @ [EvExecute (fst quote) (err_of q), EvExecute (fst base) (err_of b)]"
    using p by (auto simp: pair_def err_of_def split: if_splits prod.splits dest!: execute_stage_trace)
  then have ex: "\<exists>b' q' ex. (ex = [EvExecute (fst base) b', EvExecute (fst quote) q'] \<or> ex = [EvExecute (fst quote) q', EvExecute (fst base) b']) \<and>
      rn_trace run2 = rn_trace run @ ex" by blast
  obtain es op1 res1 run3 where s1: "settle_bridge e b ([], operation, result, run2) = (es, op1, res1, run3)" by (metis prod_cases4)
  obtain es' op2 res2 run4 where s2: "settle_bridge e q (es, op1, res1, run3) = (es', op2, res2, run4)" by (metis prod_cases4)
  have rs: "\<exists>rs. rn_trace run4 = rn_trace run2 @ map EvSettled rs \<and> (es' = [] \<longrightarrow> length rs = 2)"
    using settle_bridge_trace [OF s1] settle_bridge_trace [OF s2] by (auto intro: exI [of _ "x @ y" for x y])
  have eq: "bridge_both e quoteFirst plan base quote (operation, result, run) = (case pair of (b, q, run') \<Rightarrow>
      (case settle_bridge e q (settle_bridge e b ([], operation, result, run')) of
         ([], st') \<Rightarrow> complete_parallel e plan st'
       | (errs, operation', result', run'') \<Rightarrow> stop_with e operation' SequentialManualIntervention result' errs run''))"
    unfolding bridge_both_def pair_def prod.case ..
  have "(case es' of [] \<Rightarrow> complete_parallel e plan (op2, res2, run4)
      | _ \<Rightarrow> stop_with e op2 SequentialManualIntervention res2 es' run4) = (r, errs, run')"
    using assms s1 s2 unfolding eq p by (simp split: list.splits)
  then have "failed_after (rn_trace run4) errs (rn_trace run') \<or> es' = [] \<and> ended (rn_trace run4) errs (rn_trace run')"
    using complete_parallel_trace stop_manual by (cases es') (simp_all, blast+)
  then show ?thesis using ex rs by (metis append.assoc)
qed

lemma prepare_bridge_stage:
  "prepare_bridge e oid plan outputs stage = Inr (request, driver) \<Longrightarrow> sr_Stage request = stage"
  by (auto simp: prepare_bridge_def rbind_eq_Inr)

text \<open>
  The trace of a whole parallel run behind \<open>tr\<close>: nothing, or the swaps with what was recorded of
  them and, once both are recorded, the bridges.
\<close>

definition parallel_ok :: "SequentialPlan \<Rightarrow> saga_error list \<Rightarrow> seq_event list \<Rightarrow> bool" where
  "parallel_ok plan errs tr \<longleftrightarrow>
     distinct (executions tr) \<and> set (executions tr) \<subseteq> {3, 4} \<and>
     (executions tr \<noteq> [] \<longrightarrow> 2 \<le> length (settled_of tr)) \<and>
     (finals tr = [] \<and> errs \<noteq> [] \<or>
      (\<exists>state. finals tr = [state] \<and> last tr = EvFinished state \<and>
         (if errs = [] then state = SequentialCompleted \<and> 3 \<in> set (executions tr) \<and>
            length (settled_of tr) = 2 + length (executions tr)
          else state = SequentialManualIntervention \<or> state = SequentialAborted \<and> executions tr = [] \<and> settled_of tr = [])))"

lemma failed_after_ok:
  assumes "failed_after tr errs tr'" and "finals tr = []" "distinct (executions tr)" "set (executions tr) \<subseteq> {3, 4}"
    "executions tr \<noteq> [] \<longrightarrow> 2 \<le> length (settled_of tr)"
  shows "parallel_ok plan errs tr'"
  using assms unfolding parallel_ok_def failed_after_def by auto

lemma ended_ok:
  assumes "ended tr errs tr'" and "finals tr = []" "distinct (executions tr)" "set (executions tr) \<subseteq> {3, 4}"
    "3 \<in> set (executions tr)" "length (settled_of tr) = 2 + length (executions tr)"
  shows "parallel_ok plan errs tr'"
  using assms unfolding parallel_ok_def ended_def by auto

lemma restore_ok:
  assumes "restore_async e restorer plan base quote (operation, result, run) = (r, errs, run')"
    and "request_ordinal (fst base) = 3" and "finals (rn_trace run) = []" "executions (rn_trace run) = []" "length (settled_of (rn_trace run)) = 2"
  shows "parallel_ok plan errs (rn_trace run')"
  using restore_async_trace [OF assms(1)]
proof (elim disjE exE conjE)
  fix mid
  assume "mid = []" "failed_after (rn_trace run @ mid) errs (rn_trace run')"
  then show ?thesis using assms(3-5) by (intro failed_after_ok [of "rn_trace run @ mid"]) simp_all
next
  fix mid out
  assume "mid = [EvExecute (fst base) out]" "failed_after (rn_trace run @ mid) errs (rn_trace run')"
  then show ?thesis using assms(2-5) by (intro failed_after_ok [of "rn_trace run @ mid"]) simp_all
next
  fix s
  assume "ended (rn_trace run @ [EvExecute (fst base) None, EvSettled s]) errs (rn_trace run')"
  then show ?thesis by (rule ended_ok) (use assms(2-5) in simp_all)
qed

lemma bridge_ok:
  assumes "bridge_both e quoteFirst plan base quote (operation, result, run) = (r, errs, run')"
    and "request_ordinal (fst base) = 3" "request_ordinal (fst quote) = 4"
    and "finals (rn_trace run) = []" "executions (rn_trace run) = []" "length (settled_of (rn_trace run)) = 2"
  shows "parallel_ok plan errs (rn_trace run')"
proof -
  obtain b q rs ex where ex: "ex = [EvExecute (fst base) b, EvExecute (fst quote) q] \<or> ex = [EvExecute (fst quote) q, EvExecute (fst base) b]"
      "failed_after (rn_trace run @ ex @ map EvSettled rs) errs (rn_trace run') \<or>
       length rs = 2 \<and> ended (rn_trace run @ ex @ map EvSettled rs) errs (rn_trace run')"
    using bridge_both_trace [OF assms(1)] by blast
  have tr: "finals (rn_trace run @ ex @ map EvSettled rs) = []" "distinct (executions (rn_trace run @ ex @ map EvSettled rs))"
      "set (executions (rn_trace run @ ex @ map EvSettled rs)) = {3, 4}"
      "settled_of (rn_trace run @ ex @ map EvSettled rs) = settled_of (rn_trace run) @ rs"
      "length (executions (rn_trace run @ ex @ map EvSettled rs)) = 2"
    using ex(1) assms(2-5) by auto
  from ex(2) show ?thesis
  proof
    assume "failed_after (rn_trace run @ ex @ map EvSettled rs) errs (rn_trace run')"
    then show ?thesis by (rule failed_after_ok) (use tr assms(6) in simp_all)
  next
    assume e: "length rs = 2 \<and> ended (rn_trace run @ ex @ map EvSettled rs) errs (rn_trace run')"
    show ?thesis
      by (rule ended_ok [OF conjunct2 [OF e] tr(1,2)]) (simp_all only: tr(3-5), use e assms(6) in simp_all)
  qed
qed

lemma swaps_ok:
  assumes "stop_with e operation state result [SagaPort err] run = (r, errs, run')"
    and "finals (rn_trace run) = []" "executions (rn_trace run) = []"
    and "state = SequentialManualIntervention \<or> state = SequentialAborted \<and> settled_of (rn_trace run) = []"
  shows "parallel_ok plan errs (rn_trace run')"
  using stop_with_trace [OF assms(1)] assms(2-4) unfolding parallel_ok_def by auto

lemma quiet_ok:
  "errs \<noteq> [] \<Longrightarrow> finals tr = [] \<Longrightarrow> executions tr = [] \<Longrightarrow> parallel_ok plan errs tr"
  by (simp add: parallel_ok_def)

lemma validated_parallel_bridges:
  assumes "SequentialPlanValidate p = None" and "IsPrefundedDualInventory p"
  shows "st_Ordinal (sp_Stages p ! 2) = 3" "st_Ordinal (sp_Stages p ! 3) = 4"
proof -
  have "length (sp_Stages p) = 4" "validateParallelDependencies p = None"
    using assms by (auto simp: SequentialPlanValidate_def policy_error_def Let_def IsPrefundedDualInventory_def
        split: if_splits option.splits)
  then show "st_Ordinal (sp_Stages p ! 2) = 3" "st_Ordinal (sp_Stages p ! 3) = 4"
    by (auto simp: validateParallelDependencies_def expected_parallel_def numeral_eq_Suc length_Suc_conv split: if_splits)
qed

lemma after_swaps_ok:
  assumes "after_swaps e quoteFirst plan ss swapErr (operation, result, run) = (r, errs, run')"
    and plan: "SequentialPlanValidate plan = None" "IsPrefundedDualInventory plan"
    and tr: "finals (rn_trace run) = []" "executions (rn_trace run) = []" "settled_of (rn_trace run) = ss"
  shows "parallel_ok plan errs (rn_trace run')"
proof (cases swapErr)
  case (Some err)
  then have "stop_with e operation (if ss = [] \<and> IsDefinitiveFailure err then SequentialAborted else SequentialManualIntervention)
      result [SagaPort err] run = (r, errs, run')" using assms(1) by (simp add: after_swaps_def)
  then show ?thesis by (rule swaps_ok) (use tr in auto)
next
  case None
  define outputs where "outputs = map_of (rev (map (\<lambda>s. (st_Ordinal (sr_Stage (ss_Request s)), ss_ActualOutput s)) ss))"
  show ?thesis
  proof (cases "length ss = 2 \<and> is_ok (prepare_bridge e (sq_ID operation) plan outputs (sp_Stages plan ! 2)) \<and>
      is_ok (prepare_bridge e (sq_ID operation) plan outputs (sp_Stages plan ! 3))")
    case False
    then have "errs \<noteq> [] \<and> run' = run"
      using assms(1) None by (auto simp: after_swaps_def outputs_def [symmetric] is_ok_def split: if_splits sum.splits)
    then show ?thesis using tr by (simp add: quiet_ok)
  next
    case True
    then obtain b bd q qd where p: "prepare_bridge e (sq_ID operation) plan outputs (sp_Stages plan ! 2) = Inr (b, bd)"
        "prepare_bridge e (sq_ID operation) plan outputs (sp_Stages plan ! 3) = Inr (q, qd)"
      by (auto simp: is_ok_def split: sum.splits)
    have ord: "request_ordinal (fst (b, bd)) = 3" "request_ordinal (fst (q, qd)) = 4"
      using prepare_bridge_stage [OF p(1)] prepare_bridge_stage [OF p(2)] validated_parallel_bridges [OF plan] by simp_all
    have two: "length (settled_of (rn_trace run)) = 2" using True tr(3) by simp
    have run: "(case ex_asyncQuote e of Some restorer \<Rightarrow> restore_async e restorer plan (b, bd) (q, qd) (operation, result, run)
        | None \<Rightarrow> bridge_both e quoteFirst plan (b, bd) (q, qd) (operation, result, run)) = (r, errs, run')"
      using assms(1) None True p by (simp add: after_swaps_def outputs_def [symmetric])
    show ?thesis
    proof (cases "ex_asyncQuote e")
      case None
      then show ?thesis using run bridge_ok [OF _ ord tr(1,2) two] by simp
    next
      case (Some restorer)
      then show ?thesis using run restore_ok [OF _ ord(1) tr(1,2) two] by simp
    qed
  qed
qed

lemma parallel_start [consumes 1]:
  assumes run: "executePrefundedParallel e quoteFirst operation plan result run = (r, errs, run')"
  obtains (refused) "errs \<noteq> []" "run' = run"
  | (swapped) ss swapErr es op1 res1 run2 recorded where
      "rn_trace run2 = rn_trace run @ EvSwaps (sq_ID operation) # map EvSettled recorded" "es = [] \<longrightarrow> recorded = ss"
      "(if es = [] then after_swaps e quoteFirst plan ss swapErr (op1, res1, run2)
        else stop_with e op1 SequentialManualIntervention res1 es run2) = (r, errs, run')"
proof -
  define requests where "requests = (\<lambda>sellInput. [\<lparr>sr_Operation = sq_ID operation, sr_Plan = sp_ID plan, sr_Stage = sp_Stages plan ! 0, sr_Input = sp_InitialInput plan\<rparr>,
        \<lparr>sr_Operation = sq_ID operation, sr_Plan = sp_ID plan, sr_Stage = sp_Stages plan ! 1, sr_Input = sellInput\<rparr>])"
  show thesis
  proof (cases "\<exists>swaps sellInput. ex_parallel e = Some swaps \<and> ParallelSellInput plan = Inr sellInput \<and>
      first_error RequestValidate (requests sellInput) = None")
    case False
    then show thesis using run refused
      by (auto simp: executePrefundedParallel_def requests_def split: option.splits sum.splits)
  next
    case True
    then obtain swaps sellInput where ok: "ex_parallel e = Some swaps" "ParallelSellInput plan = Inr sellInput"
        "first_error RequestValidate (requests sellInput) = None" by blast
    obtain ss swapErr run1 where sw: "call (parallel_swaps e swaps plan (sq_ID operation) plan) run = ((ss, swapErr), run1)"
      by (metis prod.collapse)
    obtain es op1 res1 run2 where rec: "record_settlements e ss (operation, result, emit (EvSwaps (sq_ID operation)) run1) = (es, op1, res1, run2)"
      by (metis prod_cases4)
    obtain recorded where tr: "rn_trace run2 = rn_trace run @ EvSwaps (sq_ID operation) # map EvSettled recorded" "es = [] \<longrightarrow> recorded = ss"
      using record_settlements_trace [OF rec] call_trace [OF sw] by auto
    show thesis using swapped [OF tr] run ok sw rec by (simp add: executePrefundedParallel_def requests_def split: list.splits)
  qed
qed

section \<open>Properties\<close>

text \<open>
  C11: The parallel lifecycle executes each bridge at most once, in either order, and only after
  both swaps are recorded. Its end is recorded at most once and last: without an error it is
  completed and every executed bridge is settled, the base bridge among them; it is aborted only
  when no swap settled; anything else asks for manual intervention.
\<close>

theorem parallel_execution_outcome:
  assumes "SequentialPlanValidate plan = None" and "IsPrefundedDualInventory plan" and "rn_trace run = [EvCreated oid]"
    and "executePrefundedParallel e quoteFirst operation plan result run = (r, errs, run')"
  shows "distinct (executions (rn_trace run')) \<and> set (executions (rn_trace run')) \<subseteq> {3, 4} \<and>
    (executions (rn_trace run') \<noteq> [] \<longrightarrow> 2 \<le> length (settled_of (rn_trace run'))) \<and>
    (finals (rn_trace run') = [] \<and> errs \<noteq> [] \<or>
     (\<exists>state. finals (rn_trace run') = [state] \<and> last (rn_trace run') = EvFinished state \<and>
        (if errs = [] then state = SequentialCompleted \<and> 3 \<in> set (executions (rn_trace run')) \<and>
           length (settled_of (rn_trace run')) = 2 + length (executions (rn_trace run'))
         else state = SequentialManualIntervention \<or>
           state = SequentialAborted \<and> executions (rn_trace run') = [] \<and> settled_of (rn_trace run') = [])))"
proof -
  from assms(4) have "parallel_ok plan errs (rn_trace run')"
  proof (cases rule: parallel_start)
    case refused
    then show ?thesis using assms(3) by (simp add: quiet_ok)
  next
    case (swapped ss swapErr es op1 res1 run2 recorded)
    have tr: "finals (rn_trace run2) = []" "executions (rn_trace run2) = []" "settled_of (rn_trace run2) = recorded"
      using swapped(1) assms(3) by simp_all
    show ?thesis
    proof (cases "es = []")
      case True
      then show ?thesis using swapped(2,3) tr by (intro after_swaps_ok [OF _ assms(1,2)]) simp_all
    next
      case False
      then have "stop_with e op1 SequentialManualIntervention res1 es run2 = (r, errs, run')" using swapped(3) by simp
      from stop_manual [OF this False] show ?thesis by (rule failed_after_ok) (use tr in simp_all)
    qed
  qed
  then show ?thesis unfolding parallel_ok_def .
qed

lemma midpoint_spread:
  fixes qIn bBuy qOut bSell :: rat
  assumes "bBuy \<noteq> 0" and "bSell \<noteq> 0"
  shows "qOut - qIn + (bBuy - bSell) * ((qIn / bBuy + qOut / bSell) / 2) = (bBuy + bSell) / 2 * (qOut / bSell - qIn / bBuy)"
  using assms by (simp add: field_simps)

lemma parallel_cost_fold:
  "foldM (add_parallel_cost asset) (a, b) costs =
     (if valued_in asset costs then Inr (a + cost_total costs, b + external_total costs) else Inl SagaEconomics)"
  by (induction costs arbitrary: a b) (simp_all add: add_parallel_cost_def add.assoc)

text \<open>
  The realized gross result of a parallel operation is the spread of its two prices times
  the mean base volume. It is marked at the midpoint of the realized purchase and sale price, so
  that inventory left over or taken from the base asset earns nothing by itself; the net result
  subtracts the external costs.
\<close>

lemma parallel_gross_is_spread:
  assumes "calculateParallelEconomics plan result = Inr result'"
  shows "\<exists>buy sales qIn bBuy qOut bSell.
    foldl pick_settlement (None, []) (res_Settlements result) = (Some buy, sales) \<and>
    parallelHumanAmount plan (ss_ActualInput buy) = Inr qIn \<and> parallelHumanAmount plan (ss_ActualOutput buy) = Inr bBuy \<and>
    foldM (add_sale plan) (0, 0) sales = Inr (qOut, bSell) \<and>
    res_QuoteDelta result' = qty (sp_QuoteAsset plan) (qOut - qIn) \<and> res_BaseDelta result' = qty (sp_BaseAsset plan) (bBuy - bSell) \<and>
    res_RealizedGross result' = qty (sp_QuoteAsset plan) ((bBuy + bSell) / 2 * (qOut / bSell - qIn / bBuy)) \<and>
    qty_value (res_RealizedNetPnL result') = qty_value (res_RealizedGross result') - external_total (res_Costs result)"
proof -
  obtain buy sales where pick: "foldl pick_settlement (None, []) (res_Settlements result) = (Some buy, sales)"
    using assms by (auto simp: calculateParallelEconomics_def split: if_splits prod.splits option.splits)
  obtain qIn bBuy qOut bSell where h: "parallelHumanAmount plan (ss_ActualInput buy) = Inr qIn"
      "parallelHumanAmount plan (ss_ActualOutput buy) = Inr bBuy" "foldM (add_sale plan) (0, 0) sales = Inr (qOut, bSell)"
      "bBuy \<noteq> 0" "bSell \<noteq> 0"
    using assms pick by (auto simp: calculateParallelEconomics_def rbind_eq_Inr split: if_splits)
  show ?thesis
    using assms pick h midpoint_spread [OF h(4,5), of qOut qIn]
    by (auto simp: calculateParallelEconomics_def Let_def parallel_cost_fold split: if_splits)
qed

section \<open>Witnesses\<close>

lemma parallel_sample_requests:
  "first_error RequestValidate
     [\<lparr>sr_Operation = ''op'', sr_Plan = ''p'', sr_Stage = sp_Stages parallel_sample ! 0, sr_Input = sp_InitialInput parallel_sample\<rparr>,
      \<lparr>sr_Operation = ''op'', sr_Plan = ''p'', sr_Stage = sp_Stages parallel_sample ! 1, sr_Input = \<lparr>amt_token = ''eth-b'', amt_units = 14\<rparr>\<rparr>] = None"
  unfolding parallel_sample_stages
  by (simp add: RequestValidate_def StageValidate_def parallel_sample_def plan_sample_def stage_defs AmountIsZero_def plan_sample_defs)

definition operation_sample :: SequentialOperation where
  "operation_sample = \<lparr>sq_ID = ''op'', sq_Plan = ''p'', sq_OpportunityID = ''e'', sq_ConfigHash = ''cfg'', sq_State = SequentialRunning,
     sq_CurrentStage = 0, sq_CurrentAmount = no_amount, sq_StartedAt = 1, sq_UpdatedAt = 1, sq_LastError = []\<rparr>"

lemma parallel_sample_input: "ParallelSellInput parallel_sample = Inr \<lparr>amt_token = ''eth-b'', amt_units = 14\<rparr>"
proof -
  have "selected (sp_Opportunity parallel_sample) = Some plan_candidate"
    by (simp add: selected_def parallel_sample_def plan_sample_def plan_opportunity_sample_def)
  then show ?thesis using parallel_sample_valid(2)
    by (simp add: ParallelSellInput_def) (simp add: parallel_sample_def plan_sample_def plan_candidate_def plan_quote_def
      AmountIsZero_def NewTokenAmount_def bigQuo_def)
qed

lemma rejected_parallel_run:
  "executePrefundedParallel rejecting_executor False operation_sample parallel_sample (empty_result ''op'')
     \<lparr>rn_world = (), rn_trace = [EvCreated ''op'']\<rparr> =
   (empty_result ''op'', [SagaPort rejection],
    \<lparr>rn_world = (), rn_trace = [EvCreated ''op'', EvSwaps ''op'', EvFinished SequentialAborted]\<rparr>)"
proof -
  have pid: "sp_ID parallel_sample = ''p''" "sq_ID operation_sample = ''op''"
    by (simp_all add: parallel_sample_def plan_sample_def operation_sample_def)
  have "ex_parallel rejecting_executor = Some (\<lambda>_ _ w. (([], Some rejection), w))" by (simp add: rejecting_executor_def)
  then show ?thesis
    using parallel_sample_requests parallel_sample_input rejection_definitive(1)
    by (simp add: executePrefundedParallel_def pid after_swaps_def parallel_swaps_def call_def emit_def stop_with_def finish_def
        del: first_error.simps One_nat_def)
      (simp add: rejecting_executor_def accepting_journal_def after_swaps_def stop_with_def finish_def call_def emit_def pid)
qed

theorem parallel_execution_outcome_witness:
  "\<exists>run'. executePrefundedParallel rejecting_executor False operation_sample parallel_sample (empty_result ''op'')
     \<lparr>rn_world = (), rn_trace = [EvCreated ''op'']\<rparr> = (empty_result ''op'', [SagaPort rejection], run') \<and>
     distinct (executions (rn_trace run')) \<and> finals (rn_trace run') = [SequentialAborted]"
  using parallel_execution_outcome [OF parallel_sample_valid, of "\<lparr>rn_world = (), rn_trace = [EvCreated ''op'']\<rparr>" "''op''" rejecting_executor False
      operation_sample "empty_result ''op''"] rejected_parallel_run by simp

definition swap_sample :: "nat \<Rightarrow> TokenAmount \<Rightarrow> TokenAmount \<Rightarrow> SequentialStageSettlement" where
  "swap_sample k inp out = \<lparr>ss_Request = \<lparr>sr_Operation = ''op'', sr_Plan = ''p'', sr_Stage = sp_Stages plan_sample ! k, sr_Input = inp\<rparr>,
     ss_ActualInput = inp, ss_ActualOutput = out, ss_Costs = [], ss_SourceIdentity = os_Identity (exec_step ''s'' LegBuy),
     ss_DestinationIdentity = None, ss_DestinationBalanceBefore = None, ss_DestinationBalanceAfter = None, ss_ObservedAt = 4, ss_Evidence = ''tx''\<rparr>"

definition swapped_sample :: SequentialResult where
  "swapped_sample = (empty_result ''op'')\<lparr>res_Settlements :=
     [swap_sample 0 \<lparr>amt_token = ''usd-a'', amt_units = 100\<rparr> \<lparr>amt_token = ''eth-a'', amt_units = 50\<rparr>,
      swap_sample 1 \<lparr>amt_token = ''eth-b'', amt_units = 40\<rparr> \<lparr>amt_token = ''usd-b'', amt_units = 84\<rparr>]\<rparr>"

definition valued_sample :: SequentialPlan where
  "valued_sample = with_metadata parallel_sample ''eth'' ''usd'' [(''usd-a'', 0), (''eth-a'', 0), (''eth-b'', 0), (''usd-b'', 0)]"

lemma swapped_pick:
  "foldl pick_settlement (None, []) (res_Settlements swapped_sample) =
     (Some (swap_sample 0 \<lparr>amt_token = ''usd-a'', amt_units = 100\<rparr> \<lparr>amt_token = ''eth-a'', amt_units = 50\<rparr>),
      [swap_sample 1 \<lparr>amt_token = ''eth-b'', amt_units = 40\<rparr> \<lparr>amt_token = ''usd-b'', amt_units = 84\<rparr>])"
  by (simp add: swapped_sample_def pick_settlement_def swap_sample_def plan_sample_def prefunded_stages_def Let_def)

lemma swapped_amounts:
  "parallelHumanAmount valued_sample \<lparr>amt_token = ''usd-a'', amt_units = a\<rparr> = Inr (of_int a)"
  "parallelHumanAmount valued_sample \<lparr>amt_token = ''eth-a'', amt_units = a\<rparr> = Inr (of_int a)"
  "parallelHumanAmount valued_sample \<lparr>amt_token = ''eth-b'', amt_units = a\<rparr> = Inr (of_int a)"
  "parallelHumanAmount valued_sample \<lparr>amt_token = ''usd-b'', amt_units = a\<rparr> = Inr (of_int a)"
  by (simp_all add: parallelHumanAmount_def valued_sample_def with_metadata_def)

lemma swapped_sales:
  "foldM (add_sale valued_sample) (0, 0) [swap_sample 1 \<lparr>amt_token = ''eth-b'', amt_units = 40\<rparr> \<lparr>amt_token = ''usd-b'', amt_units = 84\<rparr>] =
     Inr (84, 40)"
  by (simp add: add_sale_def swap_sample_def swapped_amounts)

lemma swapped_economics: "\<exists>result'. calculateParallelEconomics valued_sample swapped_sample = Inr result'"
proof -
  have "length (res_Settlements swapped_sample) = 2" "res_Costs swapped_sample = []" "sp_BaseAsset valued_sample \<noteq> []" "sp_QuoteAsset valued_sample \<noteq> []"
    by (simp_all add: swapped_sample_def empty_result_def valued_sample_def with_metadata_def)
  then show ?thesis using swapped_sales
    by (simp add: calculateParallelEconomics_def swapped_pick del: foldM.simps)
      (simp add: swap_sample_def swapped_amounts AmountIsZero_def Let_def)
qed

lemma parallel_gross_is_spread_example:
  "\<exists>result'. calculateParallelEconomics valued_sample swapped_sample = Inr result' \<and> qty_value (res_RealizedGross result') = 9 / 2"
proof -
  obtain result' where r: "calculateParallelEconomics valued_sample swapped_sample = Inr result'" using swapped_economics by blast
  have "qty_value (res_RealizedGross result') = (50 + 40) / 2 * (84 / 40 - 100 / 50)"
    using parallel_gross_is_spread [OF r] swapped_sales by (auto simp: swapped_pick swapped_amounts simp del: foldM.simps) (auto simp: swap_sample_def swapped_amounts)
  then show ?thesis using r by auto
qed

end
