(* ===== verification/Saga_Sequential.thy ===== *)
theory Saga_Sequential
  imports Saga_Parallel
begin

text \<open>
  The dependent executor: \<open>SequentialExecutor.Execute\<close> of
  \<open>src/core/saga/sequential_executor.go\<close>. The loop over the stages keeps the Go variables in
  a record; one iteration either goes on with the next values of these variables or returns.
  The loop has fuel, and \<open>None\<close> means that the fuel ran out: the code has no such bound, and
  the properties show that for every plan of the constructors six iterations and the test that
  ends the loop are enough, so that the result with any larger fuel is the result of the code.
\<close>

section \<open>The loop\<close>

record Loop =
  lp_stages :: "SequentialStagePlan list"
  lp_index :: nat
  lp_current :: TokenAmount
  lp_outputs :: "int \<rightharpoonup> TokenAmount"
  lp_attempts :: "int \<Rightarrow> nat"
  lp_result :: SequentialResult
  lp_operation :: SequentialOperation

datatype 'w step =
    Next Loop "'w Run"
  | Stop SequentialResult "saga_error list" "'w Run"

definition halt :: "'w Executor \<Rightarrow> Loop \<Rightarrow> string \<Rightarrow> saga_error list \<Rightarrow> 'w Run \<Rightarrow> 'w step" where
  "halt e lp state cause run =
     (case stop_with e (lp_operation lp) state (lp_result lp) cause run of (result, errs, run') \<Rightarrow> Stop result errs run')"

text \<open>The failure costs of a stage go to the journal before anything else happens.\<close>

definition persist_failure_costs ::
  "'w Executor \<Rightarrow> Loop \<Rightarrow> SequentialStagePlan \<Rightarrow> PortError \<Rightarrow> 'w Run \<Rightarrow> 'w step" where
  "persist_failure_costs e lp stage err run =
     (let costs = ErrorCosts err in
      if costs = [] then Next lp run
      else case jn_StageFailure (ex_journal e) of
        None \<Rightarrow> halt e lp SequentialManualIntervention [SagaJournal, SagaPort err] run
      | Some record \<Rightarrow>
        (case call (record (sq_ID (lp_operation lp)) (st_Ordinal stage) costs) run of
           (Some persistErr, run') \<Rightarrow> halt e lp SequentialManualIntervention [SagaPort persistErr] run'
         | (None, run') \<Rightarrow> Next (lp\<lparr>lp_result := (lp_result lp)\<lparr>res_Costs := res_Costs (lp_result lp) @ costs\<rparr>\<rparr>) run'))"

definition output_of :: "Loop \<Rightarrow> int \<Rightarrow> TokenAmount" where
  "output_of lp ordinal = (case lp_outputs lp ordinal of Some amount \<Rightarrow> amount | None \<Rightarrow> no_amount)"

definition recover_swap ::
  "'w Executor \<Rightarrow> SequentialPlan \<Rightarrow> Loop \<Rightarrow> SequentialStagePlan \<Rightarrow> PortError \<Rightarrow> 'w Run \<Rightarrow> 'w step" where
  "recover_swap e plan lp stage err run =
     (let oid = sq_ID (lp_operation lp);
          lp' = lp\<lparr>lp_attempts := (lp_attempts lp)(st_Ordinal stage := lp_attempts lp (st_Ordinal stage) + 1)\<rparr>;
          costs = res_Costs (lp_result lp) in
      if EffectivePolicy plan = PolicyPrefundedSequential \<and> st_Ordinal stage = 2
      then (case selectPrefundedRecoveryExit e oid plan (output_of lp 1) costs err run of
              (Inl errs, run') \<Rightarrow> halt e lp' SequentialManualIntervention (SagaPort err # errs) run'
            | (Inr (stages, decision), run') \<Rightarrow>
                Next (lp'\<lparr>lp_stages := stages, lp_index := 0,
                          lp_result := (lp_result lp)\<lparr>res_ExitDecision := Some decision\<rparr>\<rparr>) run')
      else if st_Ordinal stage = 3
      then (case reselectPostBridgeExit e oid plan (lp_current lp) costs err run of
              (Inl errs, run') \<Rightarrow> halt e lp' SequentialManualIntervention (SagaPort err # errs) run'
            | (Inr (stages, decision), run') \<Rightarrow>
                Next (lp'\<lparr>lp_stages := take 2 (lp_stages lp) @ stages,
                          lp_result := (lp_result lp)\<lparr>res_ExitDecision := Some decision\<rparr>\<rparr>) run')
      else Next lp' run)"

definition stage_failed ::
  "'w Executor \<Rightarrow> SequentialPlan \<Rightarrow> Loop \<Rightarrow> SequentialStagePlan \<Rightarrow> PortError \<Rightarrow> 'w Run \<Rightarrow> 'w step" where
  "stage_failed e plan lp stage err run =
     (case persist_failure_costs e lp stage err run of
        Stop result errs run' \<Rightarrow> Stop result errs run'
      | Next lp' run' \<Rightarrow>
          if canAutomaticallyRecoverSwap plan stage err (lp_attempts lp' (st_Ordinal stage))
          then recover_swap e plan lp' stage err run'
          else halt e lp'
                 (if st_Ordinal stage = 1 \<and> IsDefinitiveFailure err then SequentialAborted else SequentialManualIntervention)
                 [SagaPort err] run')"

text \<open>After the purchase of a prefunded plan the selector prepares its exit.\<close>

definition prefunded_exit :: "'w Executor \<Rightarrow> SequentialPlan \<Rightarrow> Loop \<Rightarrow> 'w Run \<Rightarrow> 'w step" where
  "prefunded_exit e plan lp run =
     (case Option.bind (ds_ExitSelector (ex_drivers e)) sl_Prefunded of
        None \<Rightarrow> halt e lp SequentialManualIntervention [SagaSelector] run
      | Some (select, _) \<Rightarrow>
        (case call (select (sq_ID (lp_operation lp)) plan (lp_current lp) (res_Costs (lp_result lp))) run of
           (Inl err, run1) \<Rightarrow> halt e lp SequentialManualIntervention [SagaPort err] run1
         | (Inr decision, run1) \<Rightarrow>
           (case persistExitDecision e decision run1 of
              (err # errs, run2) \<Rightarrow> halt e lp SequentialManualIntervention (err # errs) run2
            | ([], run2) \<Rightarrow>
                Next (lp\<lparr>lp_result := (lp_result lp)\<lparr>res_ExitDecision := Some decision\<rparr>,
                         lp_stages := (if ed_Route decision = ExitSellAtOrigin
                           then take (lp_index lp + 1) (lp_stages lp) @ sp_CircuitBreaker plan else lp_stages lp)\<rparr>) run2)))"

text \<open>After the first bridge of a transported plan the selector revalidates the liquidation.\<close>

definition post_bridge_exit :: "'w Executor \<Rightarrow> 'w Selector \<Rightarrow> SequentialPlan \<Rightarrow> Loop \<Rightarrow> 'w Run \<Rightarrow> 'w step" where
  "post_bridge_exit e selector plan lp run =
     (case call (sl_SelectExit selector (sq_ID (lp_operation lp)) plan (lp_current lp) (res_Costs (lp_result lp))) run of
        (Inl err, run1) \<Rightarrow> halt e lp SequentialManualIntervention [SagaPort err] run1
      | (Inr decision, run1) \<Rightarrow>
        (case ExitDecisionValidate decision of
           Some err \<Rightarrow> halt e lp SequentialManualIntervention [SagaExit err] run1
         | None \<Rightarrow>
           (case persistExitDecision e decision run1 of
              (err # errs, run2) \<Rightarrow> halt e lp SequentialManualIntervention (err # errs) run2
            | ([], run2) \<Rightarrow>
                (let lp' = lp\<lparr>lp_result := (lp_result lp)\<lparr>res_ExitDecision := Some decision\<rparr>\<rparr> in
                 if ed_Route decision = ExitReturnToOrigin
                 then (case ReturnExitStages plan of
                         Inl err \<Rightarrow> halt e lp' SequentialManualIntervention [SagaExit err] run2
                       | Inr stages \<Rightarrow> Next (lp'\<lparr>lp_stages := take 2 (lp_stages lp) @ stages\<rparr>) run2)
                 else Next lp' run2))))"

definition settled_loop :: "Loop \<Rightarrow> SequentialStagePlan \<Rightarrow> SequentialStageSettlement \<Rightarrow> Loop" where
  "settled_loop lp stage settlement =
     lp\<lparr>lp_current := ss_ActualOutput settlement,
        lp_outputs := (lp_outputs lp)(st_Ordinal stage \<mapsto> ss_ActualOutput settlement),
        lp_result := (lp_result lp)\<lparr>res_Settlements := res_Settlements (lp_result lp) @ [settlement],
                                   res_Costs := res_Costs (lp_result lp) @ ss_Costs settlement\<rparr>,
        lp_operation := (lp_operation lp)\<lparr>sq_CurrentStage := st_Ordinal stage, sq_CurrentAmount := ss_ActualOutput settlement,
                                         sq_UpdatedAt := ss_ObservedAt settlement\<rparr>\<rparr>"

definition advance :: "'w step \<Rightarrow> 'w step" where
  "advance s = (case s of Next lp run \<Rightarrow> Next (lp\<lparr>lp_index := lp_index lp + 1\<rparr>) run | Stop r errs run \<Rightarrow> Stop r errs run)"

definition stage_settled ::
  "'w Executor \<Rightarrow> SequentialPlan \<Rightarrow> Loop \<Rightarrow> SequentialStagePlan \<Rightarrow> SequentialStageSettlement \<Rightarrow> 'w Run \<Rightarrow> 'w step" where
  "stage_settled e plan lp stage settlement run =
     (case SettlementValidate settlement of
        Some err \<Rightarrow> halt e lp SequentialManualIntervention [SagaRequest err] run
      | None \<Rightarrow>
        (case call (jn_RecordStageSettlement (ex_journal e) settlement) run of
           (Some err, run1) \<Rightarrow> halt e lp SequentialManualIntervention [SagaPort err] run1
         | (None, run1) \<Rightarrow>
           (let lp' = settled_loop lp stage settlement; run2 = emit (EvSettled settlement) run1 in
            advance
              (if EffectivePolicy plan = PolicyPrefundedSequential \<and> st_Ordinal stage = 1 then prefunded_exit e plan lp' run2
               else if EffectivePolicy plan = PolicyTransportedSequential \<and> st_Ordinal stage = 2
               then (case ds_ExitSelector (ex_drivers e) of
                       None \<Rightarrow> Next lp' run2
                     | Some selector \<Rightarrow> post_bridge_exit e selector plan lp' run2)
               else Next lp' run2))))"

definition stage_iteration :: "'w Executor \<Rightarrow> SequentialPlan \<Rightarrow> Loop \<Rightarrow> 'w Run \<Rightarrow> 'w step" where
  "stage_iteration e plan lp run =
     (let stage = lp_stages lp ! lp_index lp in
      case resolveInput e plan stage (lp_current lp) (lp_outputs lp) of
        Inl err \<Rightarrow> halt e lp SequentialManualIntervention [err] run
      | Inr inp \<Rightarrow>
        (let request = \<lparr>sr_Operation = sq_ID (lp_operation lp), sr_Plan = sp_ID plan, sr_Stage = stage, sr_Input = inp\<rparr> in
         case RequestValidate request of
           Some err \<Rightarrow> halt e lp SequentialManualIntervention [SagaRequest err] run
         | None \<Rightarrow>
           (case DriverFor (ex_drivers e) (st_Stage stage) of
              Inl err \<Rightarrow> halt e lp SequentialManualIntervention [err] run
            | Inr driver \<Rightarrow>
              (case execute_stage driver request run of
                 (Inl err, run') \<Rightarrow> stage_failed e plan lp stage err run'
               | (Inr settlement, run') \<Rightarrow> stage_settled e plan lp stage settlement run'))))"

definition complete_sequential :: "'w Executor \<Rightarrow> SequentialPlan \<Rightarrow> Loop \<Rightarrow> 'w Run \<Rightarrow> SequentialResult \<times> saga_error list \<times> 'w Run" where
  "complete_sequential e plan lp run =
     (let result = (lp_result lp)\<lparr>res_FinalAmount := lp_current lp\<rparr> in
      case calculateSequentialEconomics plan result of
        Inl err \<Rightarrow> stop_with e (lp_operation lp) SequentialManualIntervention result [err] run
      | Inr result' \<Rightarrow>
        (case record_result e result' run of
           (Some err, run') \<Rightarrow> stop_with e (lp_operation lp) SequentialManualIntervention result' [SagaPort err] run'
         | (None, run') \<Rightarrow> stop_with e (lp_operation lp) SequentialCompleted result' [] run'))"

fun stage_loop ::
  "nat \<Rightarrow> 'w Executor \<Rightarrow> SequentialPlan \<Rightarrow> Loop \<Rightarrow> 'w Run \<Rightarrow> (SequentialResult \<times> saga_error list \<times> 'w Run) option" where
  "stage_loop 0 e plan lp run = None"
| "stage_loop (Suc fuel) e plan lp run =
     (if lp_index lp < length (lp_stages lp)
      then case stage_iteration e plan lp run of
             Next lp' run' \<Rightarrow> stage_loop fuel e plan lp' run'
           | Stop result errs run' \<Rightarrow> Some (result, errs, run')
      else Some (complete_sequential e plan lp run))"

section \<open>Execution\<close>

definition new_operation :: "OperationID \<Rightarrow> SequentialPlan \<Rightarrow> gotime \<Rightarrow> SequentialOperation" where
  "new_operation oid plan now =
     \<lparr>sq_ID = oid, sq_Plan = sp_ID plan, sq_OpportunityID = op_Evaluation (sp_Opportunity plan),
      sq_ConfigHash = op_ConfigHash (sp_Opportunity plan), sq_State = SequentialRunning, sq_CurrentStage = 0,
      sq_CurrentAmount = sp_InitialInput plan, sq_StartedAt = now, sq_UpdatedAt = now, sq_LastError = []\<rparr>"

text \<open>A failed preflight is a definitive rejection; one that broke an invariant is kept as a blocked operation.\<close>

definition preflight_failed ::
  "'w Executor \<Rightarrow> OperationID \<Rightarrow> SequentialPlan \<Rightarrow> PortError \<Rightarrow> 'w Run \<Rightarrow> saga_error list \<times> 'w Run" where
  "preflight_failed e oid plan err run =
     (let rejected = [SagaPort (NewStageError DispositionRejected err)] in
      if \<not> pe_invariant err then (rejected, run)
      else
        (case call (ex_clock e) run of (blockedAt, run1) \<Rightarrow>
         case jn_Recovery (ex_journal e) of
           None \<Rightarrow> (rejected, run1)
         | Some (create, setState) \<Rightarrow>
           (case call (create (new_operation oid plan blockedAt) plan) run1 of
              (Some persistErr, run2) \<Rightarrow> ([SagaPort err, SagaPort persistErr], run2)
            | (None, run2) \<Rightarrow>
              (case call (setState oid SequentialRecoveryBlocked err) run2 of
                 (Some persistErr, run3) \<Rightarrow> ([SagaPort err, SagaPort persistErr], run3)
               | (None, run3) \<Rightarrow> (rejected, emit (EvBlocked oid) run3)))))"

definition create_operation ::
  "'w Executor \<Rightarrow> SequentialPlan \<Rightarrow> SequentialOperation \<Rightarrow> 'w Run \<Rightarrow> PortError option \<times> 'w Run" where
  "create_operation e plan operation run =
     (case (case jn_Recovery (ex_journal e) of
              Some (create, _) \<Rightarrow> call (create operation plan) run
            | None \<Rightarrow> call (jn_Create (ex_journal e) operation) run) of
        (Some err, run') \<Rightarrow> (Some err, run')
      | (None, run') \<Rightarrow> (None, emit (EvCreated (sq_ID operation)) run'))"

definition start_loop :: "SequentialPlan \<Rightarrow> SequentialOperation \<Rightarrow> Loop" where
  "start_loop plan operation =
     \<lparr>lp_stages = sp_Stages plan, lp_index = 0, lp_current = sp_InitialInput plan, lp_outputs = Map.empty,
      lp_attempts = (\<lambda>_. 0), lp_result = empty_result (sq_ID operation), lp_operation = operation\<rparr>"

definition run_operation ::
  "nat \<Rightarrow> bool \<Rightarrow> 'w Executor \<Rightarrow> OperationID \<Rightarrow> SequentialPlan \<Rightarrow> 'w Run \<Rightarrow> (SequentialResult \<times> saga_error list \<times> 'w Run) option" where
  "run_operation fuel quoteFirst e oid plan run =
     (case call (ex_clock e) run of (now, run1) \<Rightarrow>
      let operation = new_operation oid plan now in
      case create_operation e plan operation run1 of
        (Some err, run2) \<Rightarrow> Some (empty_result [], [SagaPort err], run2)
      | (None, run2) \<Rightarrow>
          if IsPrefundedDualInventory plan
          then Some (executePrefundedParallel e quoteFirst operation plan (empty_result oid) run2)
          else stage_loop fuel e plan (start_loop plan operation) run2)"

text \<open>
  \<open>running\<close> is the flag under the mutex: a call that finds another one active returns at once.
  The deferred \<open>DiscardPreflight\<close> runs on every path after a successful preflight.
\<close>

definition Execute ::
  "nat \<Rightarrow> bool \<Rightarrow> 'w Executor \<Rightarrow> bool \<Rightarrow> OperationID \<Rightarrow> SequentialPlan \<Rightarrow> 'w Run \<Rightarrow>
   (SequentialResult \<times> saga_error list \<times> 'w Run) option" where
  "Execute fuel quoteFirst e running oid plan run =
     (if running then Some (empty_result [], [SagaBusy], run)
      else if oid = [] then Some (empty_result [], [SagaIncomplete], run)
      else case SequentialPlanValidate plan of
        Some err \<Rightarrow> Some (empty_result [], [SagaPlan err], run)
      | None \<Rightarrow>
        (case call (jn_Active (ex_journal e)) run of
           (Inl err, run1) \<Rightarrow> Some (empty_result [], [SagaPort err], run1)
         | (Inr (Some active), run1) \<Rightarrow> Some (empty_result [], [SagaActive active], run1)
         | (Inr None, run1) \<Rightarrow>
           (case ex_preflight e of
              None \<Rightarrow> run_operation fuel quoteFirst e oid plan run1
            | Some (preflight, discard) \<Rightarrow>
              (case call (preflight oid plan) run1 of
                 (Some err, run2) \<Rightarrow>
                   (case preflight_failed e oid plan err run2 of (errs, run3) \<Rightarrow> Some (empty_result oid, errs, run3))
               | (None, run2) \<Rightarrow>
                   map_option (\<lambda>(result, errs, run3). (result, errs, run3\<lparr>rn_world := discard oid (rn_world run3)\<rparr>))
                     (run_operation fuel quoteFirst e oid plan run2)))))"

section \<open>One iteration\<close>

text \<open>
  An iteration that returns has an error to report; after what the trace holds it adds at most
  recorded exit decisions and one recorded end.
\<close>

definition stopped :: "seq_event list \<Rightarrow> string \<Rightarrow> 'w step \<Rightarrow> bool" where
  "stopped tr state s \<longleftrightarrow>
     (\<exists>r errs run' ds fin. s = Stop r errs run' \<and> errs \<noteq> [] \<and> rn_trace run' = tr @ map EvExit ds @ fin \<and>
        (fin = [] \<or> fin = [EvFinished state]))"

lemma stopped_Next [simp]: "\<not> stopped tr state (Next lp run)"
  by (simp add: stopped_def)

lemma halt_stopped:
  assumes "rn_trace run = tr @ map EvExit ds" and "cause \<noteq> []"
  shows "stopped tr state (halt e lp state cause run)"
proof -
  obtain r errs run' where s: "stop_with e (lp_operation lp) state (lp_result lp) cause run = (r, errs, run')"
    by (metis prod_cases3)
  from stop_with_trace [OF s] have "errs \<noteq> [] \<and> (\<exists>fin. rn_trace run' = tr @ map EvExit ds @ fin \<and> (fin = [] \<or> fin = [EvFinished state]))"
    using assms by auto
  then show ?thesis by (auto simp: stopped_def halt_def s)
qed

lemma halt_stopped0: "cause \<noteq> [] \<Longrightarrow> stopped (rn_trace run) state (halt e lp state cause run)"
  by (rule halt_stopped [where ds = "[]"]) simp_all

lemma persist_failure_costs_cases:
  assumes "rn_trace run = tr"
  shows "stopped tr SequentialManualIntervention (persist_failure_costs e lp stage err run) \<or>
    (\<exists>lp' run'. persist_failure_costs e lp stage err run = Next lp' run' \<and> rn_trace run' = tr \<and>
       lp_stages lp' = lp_stages lp \<and> lp_index lp' = lp_index lp \<and> lp_attempts lp' = lp_attempts lp)"
  using assms
  by (auto simp: persist_failure_costs_def Let_def split: option.splits prod.splits
      dest!: call_trace intro: halt_stopped [where ds = "[]"])

text \<open>What a recovery may do with the stages.\<close>

definition rerouted :: "SequentialPlan \<Rightarrow> Loop \<Rightarrow> SequentialStagePlan \<Rightarrow> Loop \<Rightarrow> bool" where
  "rerouted plan lp stage lp' \<longleftrightarrow>
     lp_attempts lp' = (lp_attempts lp)(st_Ordinal stage := lp_attempts lp (st_Ordinal stage) + 1) \<and>
     (if EffectivePolicy plan = PolicyPrefundedSequential \<and> st_Ordinal stage = 2
      then lp_index lp' = 0 \<and> (lp_stages lp' = drop 1 (sp_Stages plan) \<or> lp_stages lp' = sp_CircuitBreaker plan)
      else lp_index lp' = lp_index lp \<and>
        (lp_stages lp' = lp_stages lp \<or> lp_stages lp' = take 2 (lp_stages lp) @ drop 2 (sp_Stages plan) \<or>
         (\<exists>exit. ReturnExitStages plan = Inr exit \<and> lp_stages lp' = take 2 (lp_stages lp) @ exit)))"

lemma recover_swap_cases:
  assumes "rn_trace run = tr"
  shows "stopped tr SequentialManualIntervention (recover_swap e plan lp stage err run) \<or>
    (\<exists>lp' run' ds. recover_swap e plan lp stage err run = Next lp' run' \<and> rn_trace run' = tr @ map EvExit ds \<and> rerouted plan lp stage lp')"
proof (cases "EffectivePolicy plan = PolicyPrefundedSequential \<and> st_Ordinal stage = 2")
  case True
  obtain choice run' where c: "selectPrefundedRecoveryExit e (sq_ID (lp_operation lp)) plan (output_of lp 1)
      (res_Costs (lp_result lp)) err run = (choice, run')" by fastforce
  obtain ds where ds: "rn_trace run' = tr @ map EvExit ds" using selectPrefundedRecoveryExit_trace [OF c] assms by blast
  show ?thesis
  proof (cases choice)
    case (Inl errs)
    then show ?thesis using True c halt_stopped [OF ds] by (simp add: recover_swap_def)
  next
    case (Inr b)
    then show ?thesis using True c ds selectPrefundedRecoveryExit_trace [OF c]
      by (cases b) (auto simp: recover_swap_def rerouted_def)
  qed
next
  case False
  show ?thesis
  proof (cases "st_Ordinal stage = 3")
    case three: True
    obtain choice run' where c: "reselectPostBridgeExit e (sq_ID (lp_operation lp)) plan (lp_current lp)
        (res_Costs (lp_result lp)) err run = (choice, run')" by fastforce
    obtain ds where ds: "rn_trace run' = tr @ map EvExit ds" using reselectPostBridgeExit_trace [OF c] assms by blast
    show ?thesis
    proof (cases choice)
      case (Inl errs)
      then show ?thesis using False three c halt_stopped [OF ds] by (simp add: recover_swap_def)
    next
      case (Inr b)
      then show ?thesis using False three c ds reselectPostBridgeExit_trace [OF c]
        by (cases b) (auto simp: recover_swap_def rerouted_def)
    qed
  next
    case other: False
    then have "recover_swap e plan lp stage err run =
        Next (lp\<lparr>lp_attempts := (lp_attempts lp)(st_Ordinal stage := lp_attempts lp (st_Ordinal stage) + 1)\<rparr>) run"
      using False unfolding recover_swap_def Let_def by (simp only: if_False)
    then show ?thesis using False other assms by (auto simp: rerouted_def intro: exI [of _ "[]"])
  qed
qed

lemma stage_failed_cases:
  assumes "rn_trace run = tr"
  shows "stopped tr SequentialManualIntervention (stage_failed e plan lp stage err run) \<or>
    (st_Ordinal stage = 1 \<and> IsDefinitiveFailure err \<and> stopped tr SequentialAborted (stage_failed e plan lp stage err run)) \<or>
    (canAutomaticallyRecoverSwap plan stage err (lp_attempts lp (st_Ordinal stage)) \<and>
     (\<exists>lp' run' ds. stage_failed e plan lp stage err run = Next lp' run' \<and> rn_trace run' = tr @ map EvExit ds \<and> rerouted plan lp stage lp'))"
proof (cases "persist_failure_costs e lp stage err run")
  case (Stop r errs run1)
  then show ?thesis using persist_failure_costs_cases [OF assms, of e lp stage err] by (simp add: stage_failed_def)
next
  case (Next lp1 run1)
  then have lp1: "rn_trace run1 = tr" "lp_stages lp1 = lp_stages lp" "lp_index lp1 = lp_index lp" "lp_attempts lp1 = lp_attempts lp"
    using persist_failure_costs_cases [OF assms, of e lp stage err] by auto
  have same: "rerouted plan lp1 stage lp' = rerouted plan lp stage lp'" for lp' by (simp add: rerouted_def lp1)
  show ?thesis
  proof (cases "canAutomaticallyRecoverSwap plan stage err (lp_attempts lp (st_Ordinal stage))")
    case True
    then have "stage_failed e plan lp stage err run = recover_swap e plan lp1 stage err run1"
      by (simp add: stage_failed_def Next lp1)
    then show ?thesis using True recover_swap_cases [OF lp1(1), of e plan lp1 stage err] same by auto
  next
    case False
    then have "stage_failed e plan lp stage err run = halt e lp1
        (if st_Ordinal stage = 1 \<and> IsDefinitiveFailure err then SequentialAborted else SequentialManualIntervention) [SagaPort err] run1"
      by (simp add: stage_failed_def Next lp1)
    then show ?thesis using halt_stopped0 [of "[SagaPort err]" run1] lp1(1) by simp
  qed
qed

text \<open>What the choice of an exit after a settlement may do with the stages.\<close>

definition routed :: "SequentialPlan \<Rightarrow> Loop \<Rightarrow> SequentialStagePlan \<Rightarrow> Loop \<Rightarrow> bool" where
  "routed plan lp stage lp' \<longleftrightarrow>
     lp_attempts lp' = lp_attempts lp \<and>
     (lp_stages lp' = lp_stages lp \<or>
      EffectivePolicy plan = PolicyPrefundedSequential \<and> st_Ordinal stage = 1 \<and>
        lp_stages lp' = take (lp_index lp + 1) (lp_stages lp) @ sp_CircuitBreaker plan \<or>
      EffectivePolicy plan = PolicyTransportedSequential \<and> st_Ordinal stage = 2 \<and>
        (\<exists>exit. ReturnExitStages plan = Inr exit \<and> lp_stages lp' = take 2 (lp_stages lp) @ exit))"

lemma persistExitDecision_extends:
  assumes "persistExitDecision e decision run = (errs, run')"
  obtains ds where "rn_trace run' = rn_trace run @ map EvExit ds"
  using persistExitDecision_trace [OF assms] that [of "[]"] that [of "[decision]"] by (auto split: if_splits)

lemma prefunded_exit_cases:
  assumes "rn_trace run = tr" and "EffectivePolicy plan = PolicyPrefundedSequential" and "st_Ordinal stage = 1"
  shows "stopped tr SequentialManualIntervention (prefunded_exit e plan lp run) \<or>
    (\<exists>lp' run' ds. prefunded_exit e plan lp run = Next lp' run' \<and> rn_trace run' = tr @ map EvExit ds \<and>
       lp_index lp' = lp_index lp \<and> routed plan lp stage lp')"
proof (cases "Option.bind (ds_ExitSelector (ex_drivers e)) sl_Prefunded")
  case None
  then show ?thesis using halt_stopped0 [of "[SagaSelector]" run] assms(1) by (simp add: prefunded_exit_def)
next
  case (Some a)
  obtain select rest where a: "a = (select, rest)" by fastforce
  obtain out run1 where c: "call (select (sq_ID (lp_operation lp)) plan (lp_current lp) (res_Costs (lp_result lp))) run = (out, run1)"
    by fastforce
  have run1: "rn_trace run1 = tr" using call_trace [OF c] assms(1) by simp
  show ?thesis
  proof (cases out)
    case (Inl err)
    then show ?thesis using Some a c run1 halt_stopped0 [of "[SagaPort err]" run1] by (simp add: prefunded_exit_def)
  next
    case (Inr decision)
    obtain errs run2 where p: "persistExitDecision e decision run1 = (errs, run2)" by fastforce
    obtain ds where ds: "rn_trace run2 = tr @ map EvExit ds"
      using persistExitDecision_extends [OF p] run1 by metis
    show ?thesis
    proof (cases errs)
      case Nil
      then show ?thesis using Some a c Inr p ds assms(2,3) by (auto simp: prefunded_exit_def routed_def)
    next
      case (Cons x xs)
      then show ?thesis using Some a c Inr p halt_stopped [OF ds] by (simp add: prefunded_exit_def)
    qed
  qed
qed

lemma post_bridge_exit_cases:
  assumes "rn_trace run = tr" and "EffectivePolicy plan = PolicyTransportedSequential" and "st_Ordinal stage = 2"
  shows "stopped tr SequentialManualIntervention (post_bridge_exit e selector plan lp run) \<or>
    (\<exists>lp' run' ds. post_bridge_exit e selector plan lp run = Next lp' run' \<and> rn_trace run' = tr @ map EvExit ds \<and>
       lp_index lp' = lp_index lp \<and> routed plan lp stage lp')"
proof -
  obtain out run1 where c: "call (sl_SelectExit selector (sq_ID (lp_operation lp)) plan (lp_current lp) (res_Costs (lp_result lp))) run = (out, run1)"
    by fastforce
  have run1: "rn_trace run1 = tr" using call_trace [OF c] assms(1) by simp
  show ?thesis
  proof (cases out)
    case (Inl err)
    then show ?thesis using c run1 halt_stopped0 [of "[SagaPort err]" run1] by (simp add: post_bridge_exit_def)
  next
    case (Inr decision)
    show ?thesis
    proof (cases "ExitDecisionValidate decision")
      case (Some err)
      then show ?thesis using c Inr run1 halt_stopped0 [of "[SagaExit err]" run1] by (simp add: post_bridge_exit_def)
    next
      case None
      obtain errs run2 where p: "persistExitDecision e decision run1 = (errs, run2)" by fastforce
      obtain ds where ds: "rn_trace run2 = tr @ map EvExit ds"
        using persistExitDecision_extends [OF p] run1 by metis
      show ?thesis
      proof (cases errs)
        case Nil
        then show ?thesis using None c Inr p ds assms(2,3) halt_stopped [OF ds]
          by (cases "ReturnExitStages plan") (simp_all add: post_bridge_exit_def routed_def Let_def, blast+)
      next
        case (Cons x xs)
        then show ?thesis using None c Inr p halt_stopped [OF ds] by (simp add: post_bridge_exit_def)
      qed
    qed
  qed
qed

lemma advance_stopped [simp]: "stopped tr state (advance s) = stopped tr state s"
  by (cases s) (auto simp: advance_def stopped_def)

lemma advance_Next: "advance (Next lp run) = Next (lp\<lparr>lp_index := lp_index lp + 1\<rparr>) run"
  by (simp add: advance_def)

lemma routed_settled:
  "routed plan (settled_loop lp stage settlement) stage lp' = routed plan lp stage lp'"
  by (simp add: routed_def settled_loop_def)

lemma settled_loop_index [simp]: "lp_index (settled_loop lp stage settlement) = lp_index lp"
  by (simp add: settled_loop_def)

lemma routed_advance [simp]: "routed plan lp stage (lp'\<lparr>lp_index := i\<rparr>) = routed plan lp stage lp'"
  by (simp add: routed_def)

lemma stage_settled_cases:
  assumes "rn_trace run = tr"
  shows "stopped tr SequentialManualIntervention (stage_settled e plan lp stage settlement run) \<or>
    stopped (tr @ [EvSettled settlement]) SequentialManualIntervention (stage_settled e plan lp stage settlement run) \<or>
    (\<exists>lp' run' ds. stage_settled e plan lp stage settlement run = Next lp' run' \<and>
       rn_trace run' = tr @ EvSettled settlement # map EvExit ds \<and> lp_index lp' = lp_index lp + 1 \<and> routed plan lp stage lp')"
proof (cases "SettlementValidate settlement")
  case (Some err)
  then show ?thesis using halt_stopped0 [of "[SagaRequest err]" run] assms by (simp add: stage_settled_def)
next
  case None
  obtain out run1 where c: "call (jn_RecordStageSettlement (ex_journal e) settlement) run = (out, run1)" by fastforce
  have run1: "rn_trace run1 = tr" using call_trace [OF c] assms by simp
  show ?thesis
  proof (cases out)
    case (Some err)
    then show ?thesis using None c run1 halt_stopped0 [of "[SagaPort err]" run1] by (simp add: stage_settled_def)
  next
    case out: None
    define lp1 where "lp1 = settled_loop lp stage settlement"
    define run2 where "run2 = emit (EvSettled settlement) run1"
    define s where "s = (if EffectivePolicy plan = PolicyPrefundedSequential \<and> st_Ordinal stage = 1 then prefunded_exit e plan lp1 run2
        else if EffectivePolicy plan = PolicyTransportedSequential \<and> st_Ordinal stage = 2
        then (case ds_ExitSelector (ex_drivers e) of None \<Rightarrow> Next lp1 run2 | Some selector \<Rightarrow> post_bridge_exit e selector plan lp1 run2)
        else Next lp1 run2)"
    have eq: "stage_settled e plan lp stage settlement run = advance s"
      unfolding stage_settled_def s_def lp1_def run2_def Let_def using None c out by simp
    have run2: "rn_trace run2 = tr @ [EvSettled settlement]" by (simp add: run2_def run1)
    have stay: "routed plan lp1 stage lp1" by (simp add: routed_def)
    have "stopped (tr @ [EvSettled settlement]) SequentialManualIntervention s \<or>
        (\<exists>lp' run' ds. s = Next lp' run' \<and> rn_trace run' = (tr @ [EvSettled settlement]) @ map EvExit ds \<and>
           lp_index lp' = lp_index lp1 \<and> routed plan lp1 stage lp')"
      unfolding s_def
      using prefunded_exit_cases [OF run2, of plan stage e lp1] post_bridge_exit_cases [OF run2, of plan stage e _ lp1] stay run2
      by (auto split: option.splits intro: exI [of _ "[]"])
    then show ?thesis unfolding eq by (auto simp: advance_Next lp1_def routed_settled)
  qed
qed

text \<open>
  An iteration at stage \<open>n\<close> adds nothing to the trace and stops, or executes the stage once and
  then stops, goes on behind it, or prepares its repetition after a definitive failure.
\<close>

lemma stage_iteration_cases [consumes 1]:
  assumes stage_def: "stage = lp_stages lp ! lp_index lp"
  obtains
    (early) "stopped (rn_trace run) SequentialManualIntervention (stage_iteration e plan lp run)"
  | (failed) r err where "sr_Stage r = stage"
      "stopped (rn_trace run @ [EvExecute r (Some err)]) SequentialManualIntervention (stage_iteration e plan lp run)"
  | (aborted) r err where "sr_Stage r = stage" "st_Ordinal stage = 1" "IsDefinitiveFailure err"
      "stopped (rn_trace run @ [EvExecute r (Some err)]) SequentialAborted (stage_iteration e plan lp run)"
  | (retried) r err lp' run' ds where "sr_Stage r = stage" "stage_iteration e plan lp run = Next lp' run'"
      "canAutomaticallyRecoverSwap plan stage err (lp_attempts lp (st_Ordinal stage))"
      "rn_trace run' = rn_trace run @ EvExecute r (Some err) # map EvExit ds" "rerouted plan lp stage lp'"
  | (unrecorded) r where "sr_Stage r = stage"
      "stopped (rn_trace run @ [EvExecute r None]) SequentialManualIntervention (stage_iteration e plan lp run)"
  | (unrouted) r settlement where "sr_Stage r = stage"
      "stopped (rn_trace run @ [EvExecute r None, EvSettled settlement]) SequentialManualIntervention (stage_iteration e plan lp run)"
  | (settled) r settlement lp' run' ds where "sr_Stage r = stage" "stage_iteration e plan lp run = Next lp' run'"
      "rn_trace run' = rn_trace run @ EvExecute r None # EvSettled settlement # map EvExit ds"
      "lp_index lp' = lp_index lp + 1" "routed plan lp stage lp'"
proof (cases "resolveInput e plan stage (lp_current lp) (lp_outputs lp)")
  case (Inl err)
  then show thesis using early halt_stopped0 [of "[err]" run] by (simp add: stage_iteration_def stage_def)
next
  case (Inr inp)
  define r where "r = \<lparr>sr_Operation = sq_ID (lp_operation lp), sr_Plan = sp_ID plan, sr_Stage = stage, sr_Input = inp\<rparr>"
  have r: "sr_Stage r = stage" by (simp add: r_def)
  show thesis
  proof (cases "RequestValidate r")
    case (Some err)
    then show thesis using early Inr halt_stopped0 [of "[SagaRequest err]" run]
      by (simp add: stage_iteration_def stage_def r_def)
  next
    case valid: None
    show thesis
    proof (cases "DriverFor (ex_drivers e) (st_Stage stage)")
      case (Inl err)
      then show thesis using early \<open>resolveInput _ _ _ _ _ = Inr inp\<close> valid halt_stopped0 [of "[err]" run]
        by (simp add: stage_iteration_def stage_def r_def)
    next
      case driver: (Inr driver)
      obtain out run1 where c: "execute_stage driver r run = (out, run1)" by fastforce
      note tr = execute_stage_trace [OF c]
      have eq: "stage_iteration e plan lp run = (case out of Inl err \<Rightarrow> stage_failed e plan lp stage err run1
          | Inr settlement \<Rightarrow> stage_settled e plan lp stage settlement run1)"
        using Inr valid driver c by (simp add: stage_iteration_def stage_def r_def split: sum.splits)
      show thesis
      proof (cases out)
        case (Inl err)
        have t: "rn_trace run1 = rn_trace run @ [EvExecute r (Some err)]" using tr Inl by simp
        have eq': "stage_iteration e plan lp run = stage_failed e plan lp stage err run1" using eq Inl by simp
        from stage_failed_cases [OF t, of e plan lp stage err, folded eq'] show thesis
        proof (elim disjE exE conjE)
          fix lp' run' ds
          assume "stage_iteration e plan lp run = Next lp' run'" "rerouted plan lp stage lp'"
            "canAutomaticallyRecoverSwap plan stage err (lp_attempts lp (st_Ordinal stage))"
            "rn_trace run' = (rn_trace run @ [EvExecute r (Some err)]) @ map EvExit ds"
          then show thesis using retried [OF r] by simp
        qed (rule failed [OF r] aborted [OF r]; assumption)+
      next
        case (Inr settlement)
        have t: "rn_trace run1 = rn_trace run @ [EvExecute r None]" using tr Inr by simp
        have eq': "stage_iteration e plan lp run = stage_settled e plan lp stage settlement run1" using eq Inr by simp
        from stage_settled_cases [OF t, of e plan lp stage settlement, folded eq'] show thesis
        proof (elim disjE exE conjE)
          fix lp' run' ds
          assume "stage_iteration e plan lp run = Next lp' run'" "lp_index lp' = lp_index lp + 1" "routed plan lp stage lp'"
            "rn_trace run' = (rn_trace run @ [EvExecute r None]) @ EvSettled settlement # map EvExit ds"
          then show thesis using settled [OF r] by simp
        next
          assume "stopped ((rn_trace run @ [EvExecute r None]) @ [EvSettled settlement]) SequentialManualIntervention
            (stage_iteration e plan lp run)"
          then show thesis using unrouted [OF r] by simp
        qed (rule unrecorded [OF r]; assumption)
      qed
    qed
  qed
qed

section \<open>The invariant of the loop\<close>

definition transported :: "SequentialPlan \<Rightarrow> bool" where
  "transported plan \<longleftrightarrow> EffectivePolicy plan = PolicyTransportedSequential"

definition prefunded :: "SequentialPlan \<Rightarrow> bool" where
  "prefunded plan \<longleftrightarrow> EffectivePolicy plan = PolicyPrefundedSequential"

lemmas policy_tests = transported_def prefunded_def

lemma prefunded_not_transported: "prefunded plan \<Longrightarrow> \<not> transported plan"
  by (simp add: policy_tests)

text \<open>
  The shape that the constructors give a plan: the main stages have the ordinals 1 to 4, a
  transported plan sells third, a prefunded plan has one circuit breaker with ordinal 5.
\<close>

definition plan_shape :: "SequentialPlan \<Rightarrow> bool" where
  "plan_shape plan \<longleftrightarrow>
     map st_Ordinal (sp_Stages plan) = [1, 2, 3, 4] \<and>
     (transported plan \<and>
        (\<forall>s \<in> set (sp_Stages plan). st_Stage s = StageSell \<longrightarrow> st_Ordinal s = 3) \<or>
      prefunded plan \<and> map st_Ordinal (sp_CircuitBreaker plan) = [5])"

lemma constructed_shape:
  assumes "NewSequentialPlan pid opp inp b s t = Inr plan \<or> NewPrefundedSequentialPlan pid opp inp b s t = Inr plan"
  shows "plan_shape plan" and "SequentialPlanValidate plan = None" and "\<not> IsPrefundedDualInventory plan"
  using assms
  by (auto elim!: NewSequentialPlan_Inr NewPrefundedSequentialPlan_Inr
      simp: plan_shape_def policy_tests EffectivePolicy_def IsPrefundedDualInventory_def stage_defs)

lemma return_exit_shape:
  "ReturnExitStages plan = Inr exit \<Longrightarrow> map st_Ordinal exit = [3, 4] \<and> (\<forall>s \<in> set exit. st_Stage s = StageSell \<longrightarrow> st_Ordinal s = 4)"
  by (auto simp: ReturnExitStages_def Let_def check_eq_Inr split: if_splits)

text \<open>
  A transported plan always has the four ordinals in order and repeats only the sales, the
  stages 3 and 4, once each. A prefunded plan repeats only its sale, once, and then starts
  over behind the purchase or on the circuit breaker.
\<close>

definition loop_shape :: "SequentialPlan \<Rightarrow> Loop \<Rightarrow> seq_event list \<Rightarrow> bool" where
  "loop_shape plan lp tr \<longleftrightarrow>
     (let ordinals = map st_Ordinal (lp_stages lp); i = lp_index lp; attempts = lp_attempts lp in
      if transported plan
      then ordinals = [1, 2, 3, 4] \<and> (\<forall>s \<in> set (lp_stages lp). st_Stage s = StageSell \<longrightarrow> st_Ordinal s \<in> {3, 4}) \<and>
        attempts 3 \<le> 1 \<and> attempts 4 \<le> 1 \<and> done_of tr = take i ordinals \<and>
        length (executions tr) = i + attempts 3 + attempts 4
      else attempts 2 = 0 \<and> ordinals \<in> {[1, 2, 3, 4], [1, 5]} \<and> done_of tr = take i ordinals \<and> length (executions tr) = i \<or>
        attempts 2 = 1 \<and> ordinals \<in> {[2, 3, 4], [5]} \<and> done_of tr = 1 # take i ordinals \<and> length (executions tr) = i + 2)"

definition loop_inv :: "SequentialPlan \<Rightarrow> Loop \<Rightarrow> seq_event list \<Rightarrow> bool" where
  "loop_inv plan lp tr \<longleftrightarrow>
     lp_index lp \<le> length (lp_stages lp) \<and> finals tr = [] \<and> length (settled_of tr) = length (done_of tr) \<and> loop_shape plan lp tr"

text \<open>How many iterations are left at most.\<close>

definition remaining :: "SequentialPlan \<Rightarrow> Loop \<Rightarrow> nat" where
  "remaining plan lp = length (lp_stages lp) - lp_index lp +
     (if transported plan then (1 - lp_attempts lp 3) + (1 - lp_attempts lp 4) else 1 - lp_attempts lp 2)"

lemma plan_shape_length: "plan_shape plan \<Longrightarrow> length (sp_Stages plan) = 4"
  unfolding plan_shape_def by (elim conjE, drule arg_cong [where f = length]) simp

lemma start_inv:
  assumes "plan_shape plan" and "finals tr = []" "executions tr = []" "done_of tr = []" "settled_of tr = []"
  shows "loop_inv plan (start_loop plan operation) tr" and "remaining plan (start_loop plan operation) \<le> 6"
proof -
  have "map st_Ordinal (sp_Stages plan) = [1, 2, 3, 4]" using assms(1) by (simp add: plan_shape_def)
  moreover have "\<forall>s \<in> set (sp_Stages plan). st_Stage s = StageSell \<longrightarrow> st_Ordinal s = 3" if "transported plan"
    using assms(1) that prefunded_not_transported by (auto simp only: plan_shape_def)
  ultimately show "loop_inv plan (start_loop plan operation) tr"
    using assms(2-5) by (simp add: loop_inv_def loop_shape_def start_loop_def)
  show "remaining plan (start_loop plan operation) \<le> 6"
    using plan_shape_length [OF assms(1)] by (simp add: remaining_def start_loop_def)
qed

lemma nth_take_Suc: "i < length xs \<Longrightarrow> take (Suc i) xs = take i xs @ [xs ! i]"
  by (rule take_Suc_conv_app_nth)

lemma ordinal_nth: "i < length stages \<Longrightarrow> st_Ordinal (stages ! i) = map st_Ordinal stages ! i"
  by simp

lemma shape_transported:
  assumes "loop_shape plan lp tr" and "transported plan"
  shows "map st_Ordinal (lp_stages lp) = [1, 2, 3, 4]" "length (lp_stages lp) = 4"
    "\<forall>s \<in> set (lp_stages lp). st_Stage s = StageSell \<longrightarrow> st_Ordinal s \<in> {3, 4}"
    "lp_attempts lp 3 \<le> 1" "lp_attempts lp 4 \<le> 1" "done_of tr = take (lp_index lp) [1, 2, 3, 4]"
    "length (executions tr) = lp_index lp + lp_attempts lp 3 + lp_attempts lp 4"
proof -
  have full: "map st_Ordinal (lp_stages lp) = [1, 2, 3, 4] \<and>
      (\<forall>s \<in> set (lp_stages lp). st_Stage s = StageSell \<longrightarrow> st_Ordinal s \<in> {3, 4}) \<and>
      lp_attempts lp 3 \<le> 1 \<and> lp_attempts lp 4 \<le> 1 \<and> done_of tr = take (lp_index lp) (map st_Ordinal (lp_stages lp)) \<and>
      length (executions tr) = lp_index lp + lp_attempts lp 3 + lp_attempts lp 4"
    using assms(1) unfolding loop_shape_def Let_def if_P [OF assms(2)] .
  then show o: "map st_Ordinal (lp_stages lp) = [1, 2, 3, 4]" and
    "\<forall>s \<in> set (lp_stages lp). st_Stage s = StageSell \<longrightarrow> st_Ordinal s \<in> {3, 4}"
    "lp_attempts lp 3 \<le> 1" "lp_attempts lp 4 \<le> 1"
    "length (executions tr) = lp_index lp + lp_attempts lp 3 + lp_attempts lp 4" by blast+
  show "done_of tr = take (lp_index lp) [1, 2, 3, 4]" using full by metis
  show "length (lp_stages lp) = 4" using arg_cong [OF o, of length] by simp
qed

lemma shape_transportedI:
  assumes "transported plan" and "map st_Ordinal (lp_stages lp) = [1, 2, 3, 4]"
    and "\<forall>s \<in> set (lp_stages lp). st_Stage s = StageSell \<longrightarrow> st_Ordinal s \<in> {3, 4}"
    and "lp_attempts lp 3 \<le> 1" "lp_attempts lp 4 \<le> 1" "done_of tr = take (lp_index lp) [1, 2, 3, 4]"
    "length (executions tr) = lp_index lp + lp_attempts lp 3 + lp_attempts lp 4"
  shows "loop_shape plan lp tr"
  unfolding loop_shape_def Let_def if_P [OF assms(1)] by (intro conjI; (fact | simp only: assms))

lemma exit_ordinals:
  assumes "map st_Ordinal stages = [1, 2, 3, 4]" and "map st_Ordinal exit = [3, 4]"
    and "\<forall>s \<in> set stages. st_Stage s = StageSell \<longrightarrow> st_Ordinal s \<in> {3, 4}"
    and "\<forall>s \<in> set exit. st_Stage s = StageSell \<longrightarrow> st_Ordinal s \<in> {3, 4}"
  shows "map st_Ordinal (take 2 stages @ exit) = [1, 2, 3, 4]"
    and "\<forall>s \<in> set (take 2 stages @ exit). st_Stage s = StageSell \<longrightarrow> st_Ordinal s \<in> {3, 4}"
proof -
  have "map st_Ordinal (take 2 stages) = [1, 2]" using assms(1) by (simp add: take_map [symmetric])
  then show "map st_Ordinal (take 2 stages @ exit) = [1, 2, 3, 4]" using assms(2) by simp
  show "\<forall>s \<in> set (take 2 stages @ exit). st_Stage s = StageSell \<longrightarrow> st_Ordinal s \<in> {3, 4}"
    using assms(3,4) in_set_takeD [of _ 2 stages] unfolding set_append by blast
qed

lemma return_exit_sells:
  "ReturnExitStages plan = Inr exit \<Longrightarrow> \<forall>s \<in> set exit. st_Stage s = StageSell \<longrightarrow> st_Ordinal s \<in> {3, 4}"
  using return_exit_shape by blast

lemma settled_transported:
  assumes inv: "loop_shape plan lp tr" and pol: "transported plan" and i: "lp_index lp < length (lp_stages lp)"
    and st: "stage = lp_stages lp ! lp_index lp" "sr_Stage r = stage"
    and nx: "lp_index lp' = lp_index lp + 1" "routed plan lp stage lp'"
  shows "loop_shape plan lp' (tr @ EvExecute r None # EvSettled s # map EvExit ds) \<and> length (lp_stages lp') = length (lp_stages lp)"
proof -
  note sh = shape_transported [OF inv pol]
  have ord: "st_Ordinal stage = [1, 2, 3, 4] ! lp_index lp" using ordinal_nth [OF i] sh(1) st(1) by simp
  from nx(2) pol consider (same) "lp_stages lp' = lp_stages lp"
    | (exit) exit where "ReturnExitStages plan = Inr exit" "lp_stages lp' = take 2 (lp_stages lp) @ exit"
    unfolding routed_def using prefunded_not_transported unfolding policy_tests by blast
  then have stages: "map st_Ordinal (lp_stages lp') = [1, 2, 3, 4] \<and>
    (\<forall>s \<in> set (lp_stages lp'). st_Stage s = StageSell \<longrightarrow> st_Ordinal s \<in> {3, 4})"
  proof cases
    case same
    then show ?thesis using sh(1,3) by metis
  next
    case exit
    show ?thesis unfolding exit(2)
      using exit_ordinals [OF sh(1) _ sh(3) return_exit_sells [OF exit(1)]] return_exit_shape [OF exit(1)] by blast
  qed
  have "take (Suc (lp_index lp)) [1, 2, 3, 4] = take (lp_index lp) [1, 2, 3, 4] @ [[1, 2, 3, 4 :: int] ! lp_index lp]"
    by (rule take_Suc_conv_app_nth) (use i sh(2) in simp)
  then have "take (lp_index lp) [1, 2, 3, 4] @ [st_Ordinal stage] = take (lp_index lp') ([1, 2, 3, 4] :: int list)"
    unfolding nx(1) ord by (simp only: Suc_eq_plus1)
  moreover have "lp_attempts lp' = lp_attempts lp" using nx(2) by (simp add: routed_def)
  moreover have "length (lp_stages lp') = 4" using arg_cong [of _ _ length, OF conjunct1 [OF stages]] by simp
  ultimately show ?thesis using stages sh pol st(2) nx(1)
    by (intro conjI shape_transportedI) (simp_all only: trace_append trace_events trace_exits append_Nil2, simp_all)
qed

definition prefunded_shape :: "int list \<Rightarrow> nat \<Rightarrow> nat \<Rightarrow> seq_event list \<Rightarrow> bool" where
  "prefunded_shape ordinals i attempts tr \<longleftrightarrow>
     attempts = 0 \<and> ordinals \<in> {[1, 2, 3, 4], [1, 5]} \<and> done_of tr = take i ordinals \<and> length (executions tr) = i \<or>
     attempts = 1 \<and> ordinals \<in> {[2, 3, 4], [5]} \<and> done_of tr = 1 # take i ordinals \<and> length (executions tr) = i + 2"

lemma shape_prefunded:
  "\<not> transported plan \<Longrightarrow>
     loop_shape plan lp tr = prefunded_shape (map st_Ordinal (lp_stages lp)) (lp_index lp) (lp_attempts lp 2) tr"
  by (simp add: loop_shape_def prefunded_shape_def Let_def)

lemma prefunded_shape_purchase:
  assumes "prefunded_shape os i a tr" and "i < length os" and "os ! i = 1"
  shows "i = 0 \<and> a = 0 \<and> take 1 os = [1] \<and> 2 \<le> length os \<and> done_of tr = [] \<and> executions tr = []"
  using assms by (auto simp: prefunded_shape_def less_Suc_eq numeral_eq_Suc)

lemma prefunded_shape_step:
  assumes "prefunded_shape os i a tr" and "i < length os" and "request_ordinal r = os ! i"
  shows "prefunded_shape os (i + 1) a (tr @ EvExecute r None # EvSettled s # map EvExit ds)"
  using assms by (auto simp: prefunded_shape_def take_Suc_conv_app_nth)

lemma settled_prefunded:
  assumes inv: "loop_shape plan lp tr" and shape: "plan_shape plan" and pol: "\<not> transported plan"
    and i: "lp_index lp < length (lp_stages lp)"
    and st: "stage = lp_stages lp ! lp_index lp" "sr_Stage r = stage"
    and nx: "lp_index lp' = lp_index lp + 1" "routed plan lp stage lp'"
  shows "loop_shape plan lp' (tr @ EvExecute r None # EvSettled s # map EvExit ds) \<and>
    length (lp_stages lp') - lp_index lp' < length (lp_stages lp) - lp_index lp \<and> lp_index lp' \<le> length (lp_stages lp')"
proof -
  let ?os = "map st_Ordinal (lp_stages lp)"
  have ord: "st_Ordinal stage = ?os ! lp_index lp" using ordinal_nth [OF i] st(1) by simp
  have att: "lp_attempts lp' = lp_attempts lp" using nx(2) by (simp add: routed_def)
  have breaker: "map st_Ordinal (sp_CircuitBreaker plan) = [5]" using shape pol by (auto simp only: plan_shape_def)
  have ps: "prefunded_shape ?os (lp_index lp) (lp_attempts lp 2) tr" using inv shape_prefunded [OF pol] by blast
  from nx(2) pol consider (same) "lp_stages lp' = lp_stages lp"
    | (breaker) "st_Ordinal stage = 1" "lp_stages lp' = take (lp_index lp + 1) (lp_stages lp) @ sp_CircuitBreaker plan"
    unfolding routed_def policy_tests by blast
  then show ?thesis
  proof cases
    case same
    then show ?thesis
      using prefunded_shape_step [OF ps, of r] i ord st(2) pol nx(1) att by (simp add: shape_prefunded)
  next
    case exit: breaker
    have one: "lp_index lp = 0" "lp_attempts lp 2 = 0" "take 1 ?os = [1]" "2 \<le> length ?os" "done_of tr = []" "executions tr = []"
      using prefunded_shape_purchase [OF ps] i ord exit(1) by simp_all
    have os: "map st_Ordinal (lp_stages lp') = [1, 5]" using exit(2) one(1,3) breaker by (simp add: take_map)
    have "length (lp_stages lp') = 2" using arg_cong [OF os, of length] by simp
    then show ?thesis using os one exit(1) st(2) nx(1) att pol by (simp add: shape_prefunded prefunded_shape_def)
  qed
qed

lemma recoverable:
  assumes "canAutomaticallyRecoverSwap plan stage err n"
  shows "n = 0" "st_Stage stage = StageSell" "prefunded plan \<Longrightarrow> st_Ordinal stage = 2" "IsDefinitiveFailure err"
  using assms unfolding canAutomaticallyRecoverSwap_def prefunded_def IsDefinitiveFailure_def by auto

lemma retried_transported:
  assumes inv: "loop_shape plan lp tr" and shape: "plan_shape plan" and pol: "transported plan"
    and i: "lp_index lp < length (lp_stages lp)"
    and st: "stage = lp_stages lp ! lp_index lp" "sr_Stage r = stage"
    and rec: "canAutomaticallyRecoverSwap plan stage err (lp_attempts lp (st_Ordinal stage))" "rerouted plan lp stage lp'"
  shows "loop_shape plan lp' (tr @ EvExecute r (Some err) # map EvExit ds) \<and> remaining plan lp' < remaining plan lp \<and>
    lp_index lp' \<le> length (lp_stages lp')"
proof -
  note sh = shape_transported [OF inv pol] and ok = recoverable [OF rec(1)]
  have mem: "stage \<in> set (lp_stages lp)" using i st(1) by simp
  have ord: "st_Ordinal stage \<in> {3, 4}" by (rule mp [OF bspec [OF sh(3) mem] ok(2)])
  have other: "\<not> (EffectivePolicy plan = PolicyPrefundedSequential \<and> st_Ordinal stage = 2)" using ord by (intro notI) (elim conjE, simp)
  have re: "lp_index lp' = lp_index lp"
      "lp_stages lp' = lp_stages lp \<or> lp_stages lp' = take 2 (lp_stages lp) @ drop 2 (sp_Stages plan) \<or>
       (\<exists>exit. ReturnExitStages plan = Inr exit \<and> lp_stages lp' = take 2 (lp_stages lp) @ exit)"
      "lp_attempts lp' = (lp_attempts lp)(st_Ordinal stage := lp_attempts lp (st_Ordinal stage) + 1)"
    using rec(2) unfolding rerouted_def if_not_P [OF other] by blast+
  have plan: "map st_Ordinal (sp_Stages plan) = [1, 2, 3, 4]" "\<forall>s \<in> set (sp_Stages plan). st_Stage s = StageSell \<longrightarrow> st_Ordinal s = 3"
    using shape pol prefunded_not_transported unfolding plan_shape_def by blast+
  have "map st_Ordinal (drop 2 (sp_Stages plan)) = [3, 4]" using plan(1) by (simp add: drop_map [symmetric])
  moreover have "\<forall>s \<in> set (drop 2 (sp_Stages plan)). st_Stage s = StageSell \<longrightarrow> st_Ordinal s \<in> {3, 4}"
    using plan(2) in_set_dropD [of _ 2 "sp_Stages plan"] by blast
  ultimately have stages: "map st_Ordinal (lp_stages lp') = [1, 2, 3, 4] \<and>
      (\<forall>s \<in> set (lp_stages lp'). st_Stage s = StageSell \<longrightarrow> st_Ordinal s \<in> {3, 4})"
    using re(2)
  proof (elim disjE exE conjE)
    assume "lp_stages lp' = lp_stages lp"
    then show ?thesis using sh(1,3) by (simp only: simp_thms)
  next
    assume d: "map st_Ordinal (drop 2 (sp_Stages plan)) = [3, 4]"
      "\<forall>s \<in> set (drop 2 (sp_Stages plan)). st_Stage s = StageSell \<longrightarrow> st_Ordinal s \<in> {3, 4}"
      and "lp_stages lp' = take 2 (lp_stages lp) @ drop 2 (sp_Stages plan)"
    then show ?thesis using exit_ordinals [OF sh(1) d(1) sh(3) d(2)] by (simp only: simp_thms)
  next
    fix exit
    assume x: "ReturnExitStages plan = Inr exit" and "lp_stages lp' = take 2 (lp_stages lp) @ exit"
    then show ?thesis
      using exit_ordinals [OF sh(1) conjunct1 [OF return_exit_shape [OF x]] sh(3) return_exit_sells [OF x]] by (simp only: simp_thms)
  qed
  have len: "length (lp_stages lp') = 4" using arg_cong [of _ _ length, OF conjunct1 [OF stages]] by simp
  have att: "lp_attempts lp' 3 \<le> 1" "lp_attempts lp' 4 \<le> 1"
      "lp_attempts lp' 3 + lp_attempts lp' 4 = lp_attempts lp 3 + lp_attempts lp 4 + 1"
    using ord ok(1) sh(4,5) re(3) by auto
  have "done_of (tr @ EvExecute r (Some err) # map EvExit ds) = take (lp_index lp') [1, 2, 3, 4]"
    "length (executions (tr @ EvExecute r (Some err) # map EvExit ds)) = lp_index lp' + lp_attempts lp' 3 + lp_attempts lp' 4"
    using ok(4) sh(6,7) re(1) att(3) by simp_all
  then have "loop_shape plan lp' (tr @ EvExecute r (Some err) # map EvExit ds)"
    by (rule shape_transportedI [OF pol conjunct1 [OF stages] conjunct2 [OF stages] att(1,2)])
  moreover have "remaining plan lp' < remaining plan lp" using re(1) len sh(2,4,5) pol i att by (simp add: remaining_def)
  ultimately show ?thesis using re(1) len sh(2) i by simp
qed

lemma prefunded_shape_sale:
  assumes "prefunded_shape os i 0 tr" and "i < length os" and "os ! i = 2"
  shows "i = 1 \<and> length os = 4 \<and> done_of tr = [1] \<and> length (executions tr) = 1"
  using assms by (auto simp: prefunded_shape_def less_Suc_eq numeral_eq_Suc)

lemma retried_prefunded:
  assumes inv: "loop_shape plan lp tr" and shape: "plan_shape plan" and pol: "\<not> transported plan"
    and i: "lp_index lp < length (lp_stages lp)"
    and st: "stage = lp_stages lp ! lp_index lp" "sr_Stage r = stage"
    and rec: "canAutomaticallyRecoverSwap plan stage err (lp_attempts lp (st_Ordinal stage))" "rerouted plan lp stage lp'"
  shows "loop_shape plan lp' (tr @ EvExecute r (Some err) # map EvExit ds) \<and> remaining plan lp' < remaining plan lp \<and>
    lp_index lp' \<le> length (lp_stages lp')"
proof -
  have plan: "prefunded plan" "map st_Ordinal (sp_Stages plan) = [1, 2, 3, 4]" "map st_Ordinal (sp_CircuitBreaker plan) = [5]"
    using shape pol unfolding plan_shape_def by blast+
  note ok = recoverable [OF rec(1)]
  have ord: "st_Ordinal stage = 2" using ok(3) plan(1) .
  have att: "lp_attempts lp 2 = 0" using ok(1) ord by simp
  have re: "lp_index lp' = 0" "lp_stages lp' = drop 1 (sp_Stages plan) \<or> lp_stages lp' = sp_CircuitBreaker plan"
      "lp_attempts lp' 2 = 1"
    using rec(2) ord att plan(1) unfolding rerouted_def prefunded_def by auto
  have os: "map st_Ordinal (lp_stages lp') \<in> {[2, 3, 4], [5]}" using re(2) plan(2,3) by (auto simp: drop_map [symmetric])
  then have len: "length (lp_stages lp') \<le> 3" by (auto dest!: arg_cong [of "map _ _" _ length])
  have "prefunded_shape (map st_Ordinal (lp_stages lp)) (lp_index lp) 0 tr" using inv shape_prefunded [OF pol] att by metis
  from prefunded_shape_sale [OF this] have at2: "lp_index lp = 1" "length (lp_stages lp) = 4" "done_of tr = [1]" "length (executions tr) = 1"
    using i ord st(1) by simp_all
  have "prefunded_shape (map st_Ordinal (lp_stages lp')) 0 1 (tr @ EvExecute r (Some err) # map EvExit ds)"
    using os at2(3,4) ok(4) by (simp add: prefunded_shape_def)
  then show ?thesis using re(1,3) at2(1,2) att pol len by (simp add: shape_prefunded remaining_def)
qed

section \<open>The end of a run\<close>

text \<open>
  What a returned run looks like. No stage that may have had an effect is executed twice; the
  end is recorded at most once and last; without an error it is recorded as completed, which
  requires a whole route; an aborted run has had no effect.
\<close>

definition outcome_ok :: "saga_error list \<Rightarrow> seq_event list \<Rightarrow> bool" where
  "outcome_ok errs tr \<longleftrightarrow>
     distinct (done_of tr) \<and> length (executions tr) \<le> 6 \<and>
     (finals tr = [] \<and> errs \<noteq> [] \<or>
      (\<exists>state. finals tr = [state] \<and> last tr = EvFinished state \<and>
         (if errs = [] then state = SequentialCompleted \<and> done_of tr \<in> {[1, 2, 3, 4], [1, 5]} \<and>
            length (settled_of tr) = length (done_of tr)
          else state = SequentialManualIntervention \<or> state = SequentialAborted \<and> done_of tr = [] \<and> settled_of tr = [])))"

lemma stopped_outcome:
  assumes "stopped tr state s" and "finals tr = []" "distinct (done_of tr)" "length (executions tr) \<le> 6"
    and "state = SequentialManualIntervention \<or> state = SequentialAborted \<and> done_of tr = [] \<and> settled_of tr = []"
  obtains r errs run' where "s = Stop r errs run'" "outcome_ok errs (rn_trace run')"
proof -
  from assms(1) obtain r errs run' ds fin where s: "s = Stop r errs run'" "errs \<noteq> []" "rn_trace run' = tr @ map EvExit ds @ fin"
      "fin = [] \<or> fin = [EvFinished state]"
    unfolding stopped_def by blast
  have "outcome_ok errs (rn_trace run')"
    using s(2-4) assms(2-5) unfolding outcome_ok_def by auto
  then show thesis using that s(1) by blast
qed

lemma inv_transported_index:
  assumes "loop_inv plan lp tr" and "transported plan"
  shows "lp_index lp \<in> {0, 1, 2, 3, 4}" "length (lp_stages lp) = 4"
    "st_Ordinal (lp_stages lp ! lp_index lp) = [1, 2, 3, 4] ! lp_index lp \<or> lp_index lp = 4"
proof -
  have sh: "loop_shape plan lp tr" "lp_index lp \<le> length (lp_stages lp)" using assms(1) by (simp_all add: loop_inv_def)
  note t = shape_transported [OF sh(1) assms(2)]
  show l: "length (lp_stages lp) = 4" by (fact t(2))
  show "lp_index lp \<in> {0, 1, 2, 3, 4}" using sh(2) l by auto
  show "st_Ordinal (lp_stages lp ! lp_index lp) = [1, 2, 3, 4] ! lp_index lp \<or> lp_index lp = 4"
    using ordinal_nth [of "lp_index lp" "lp_stages lp"] t(1) sh(2) l by fastforce
qed

lemma inv_here:
  assumes inv: "loop_inv plan lp tr" and i: "lp_index lp < length (lp_stages lp)"
    and stage: "stage = lp_stages lp ! lp_index lp"
  shows "distinct (done_of tr @ [st_Ordinal stage])" "length (executions tr) \<le> 5"
    "st_Ordinal stage = 1 \<Longrightarrow> done_of tr = [] \<and> settled_of tr = []"
proof -
  have sh: "loop_shape plan lp tr" and set: "length (settled_of tr) = length (done_of tr)" using inv by (simp_all add: loop_inv_def)
  have "distinct (done_of tr @ [st_Ordinal stage]) \<and> length (executions tr) \<le> 5 \<and> (st_Ordinal stage = 1 \<longrightarrow> done_of tr = [])"
  proof (cases "transported plan")
    case True
    note t = shape_transported [OF sh True] and x = inv_transported_index [OF inv True]
    show ?thesis using x i t(4-7) stage by auto
  next
    case False
    then have "prefunded_shape (map st_Ordinal (lp_stages lp)) (lp_index lp) (lp_attempts lp 2) tr" using sh shape_prefunded by blast
    moreover have "st_Ordinal stage = map st_Ordinal (lp_stages lp) ! lp_index lp" "lp_index lp < length (map st_Ordinal (lp_stages lp))"
      using i stage by simp_all
    ultimately show ?thesis by (auto simp: prefunded_shape_def less_Suc_eq numeral_eq_Suc)
  qed
  then show "distinct (done_of tr @ [st_Ordinal stage])" "length (executions tr) \<le> 5"
    "st_Ordinal stage = 1 \<Longrightarrow> done_of tr = [] \<and> settled_of tr = []" using set by simp_all
qed

lemma inv_end:
  assumes inv: "loop_inv plan lp tr" and i: "\<not> lp_index lp < length (lp_stages lp)"
  shows "done_of tr \<in> {[1, 2, 3, 4], [1, 5]}" "length (executions tr) \<le> 6"
proof -
  have sh: "loop_shape plan lp tr" and e: "lp_index lp = length (lp_stages lp)" using inv i by (simp_all add: loop_inv_def)
  have "done_of tr \<in> {[1, 2, 3, 4], [1, 5]} \<and> length (executions tr) \<le> 6"
  proof (cases "transported plan")
    case True
    note t = shape_transported [OF sh True]
    show ?thesis using t(2,4-7) e by simp
  next
    case False
    then have "prefunded_shape (map st_Ordinal (lp_stages lp)) (lp_index lp) (lp_attempts lp 2) tr" using sh shape_prefunded by blast
    moreover have "lp_index lp = length (map st_Ordinal (lp_stages lp))" using e by simp
    ultimately show ?thesis by (auto simp: prefunded_shape_def)
  qed
  then show "done_of tr \<in> {[1, 2, 3, 4], [1, 5]}" "length (executions tr) \<le> 6" by blast+
qed

lemma next_inv:
  assumes inv: "loop_inv plan lp tr" and shape: "plan_shape plan" and i: "lp_index lp < length (lp_stages lp)"
    and st: "stage = lp_stages lp ! lp_index lp" "sr_Stage r = stage"
    and nx: "lp_index lp' = lp_index lp + 1" "routed plan lp stage lp'"
  shows "loop_inv plan lp' (tr @ EvExecute r None # EvSettled s # map EvExit ds) \<and> remaining plan lp' < remaining plan lp"
proof -
  have sh: "loop_shape plan lp tr" using inv by (simp add: loop_inv_def)
  have att: "lp_attempts lp' = lp_attempts lp" using nx(2) by (simp add: routed_def)
  show ?thesis
  proof (cases "transported plan")
    case True
    from settled_transported [OF sh True i st nx] show ?thesis using inv i nx(1) att True by (simp add: loop_inv_def remaining_def)
  next
    case False
    from settled_prefunded [OF sh shape False i st nx, of s ds]
    have p: "loop_shape plan lp' (tr @ EvExecute r None # EvSettled s # map EvExit ds)"
        "length (lp_stages lp') - lp_index lp' < length (lp_stages lp) - lp_index lp" "lp_index lp' \<le> length (lp_stages lp')"
      by blast+
    have "remaining plan lp' < remaining plan lp" unfolding remaining_def if_not_P [OF False] att using p(2) by linarith
    then show ?thesis using inv p(1,3) by (simp add: loop_inv_def)
  qed
qed

lemma retry_inv:
  assumes inv: "loop_inv plan lp tr" and shape: "plan_shape plan" and i: "lp_index lp < length (lp_stages lp)"
    and st: "stage = lp_stages lp ! lp_index lp" "sr_Stage r = stage"
    and rec: "canAutomaticallyRecoverSwap plan stage err (lp_attempts lp (st_Ordinal stage))" "rerouted plan lp stage lp'"
  shows "loop_inv plan lp' (tr @ EvExecute r (Some err) # map EvExit ds) \<and> remaining plan lp' < remaining plan lp"
proof -
  have sh: "loop_shape plan lp tr" using inv by (simp add: loop_inv_def)
  have "loop_shape plan lp' (tr @ EvExecute r (Some err) # map EvExit ds) \<and> remaining plan lp' < remaining plan lp \<and>
      lp_index lp' \<le> length (lp_stages lp')"
    using retried_transported [OF sh shape _ i st rec] retried_prefunded [OF sh shape _ i st rec] by blast
  then show ?thesis using inv recoverable(4) [OF rec(1)] by (simp add: loop_inv_def)
qed

lemma complete_sequential_stop:
  assumes "complete_sequential e plan lp run = (r, errs, run')"
  obtains cause state run1 result where "stop_with e (lp_operation lp) state result cause run1 = (r, errs, run')"
    "rn_trace run1 = rn_trace run" "cause = [] \<and> state = SequentialCompleted \<or> cause \<noteq> [] \<and> state = SequentialManualIntervention"
proof (cases "calculateSequentialEconomics plan ((lp_result lp)\<lparr>res_FinalAmount := lp_current lp\<rparr>)")
  case (Inl err)
  then show thesis using assms by (intro that) (auto simp: complete_sequential_def)
next
  case (Inr result)
  obtain err run1 where rec: "record_result e result run = (err, run1)" by fastforce
  show thesis
  proof (cases err)
    case None
    then show thesis using assms Inr rec record_result_trace [OF rec] that [of SequentialCompleted result "[]" run1]
      by (simp add: complete_sequential_def)
  next
    case (Some x)
    then show thesis using assms Inr rec record_result_trace [OF rec] that [of SequentialManualIntervention result "[SagaPort x]" run1]
      by (simp add: complete_sequential_def)
  qed
qed

lemma complete_outcome:
  assumes inv: "loop_inv plan lp (rn_trace run)" and i: "\<not> lp_index lp < length (lp_stages lp)"
    and c: "complete_sequential e plan lp run = (r, errs, run')"
  shows "outcome_ok errs (rn_trace run')"
proof -
  obtain cause state run1 result where s: "stop_with e (lp_operation lp) state result cause run1 = (r, errs, run')"
    "rn_trace run1 = rn_trace run" "cause = [] \<and> state = SequentialCompleted \<or> cause \<noteq> [] \<and> state = SequentialManualIntervention"
    by (rule complete_sequential_stop [OF c])
  have base: "finals (rn_trace run) = []" "length (settled_of (rn_trace run)) = length (done_of (rn_trace run))"
    using inv by (simp_all add: loop_inv_def)
  have d: "distinct (done_of (rn_trace run))" using inv_end(1) [OF inv i] by auto
  from stop_with_trace [OF s(1)] obtain ferrs where errs: "errs = cause @ ferrs"
    and tr: "ferrs = [] \<and> rn_trace run' = rn_trace run @ [EvFinished state] \<or> ferrs \<noteq> [] \<and> rn_trace run' = rn_trace run"
    unfolding s(2) by blast
  show ?thesis
  proof (cases "ferrs = []")
    case True
    then have "rn_trace run' = rn_trace run @ [EvFinished state]" "errs = cause" using tr errs by simp_all
    then show ?thesis using s(3) base d inv_end [OF inv i] unfolding outcome_ok_def by (simp only: trace_append trace_events) auto
  next
    case False
    then have "rn_trace run' = rn_trace run" "errs \<noteq> []" using tr errs by simp_all
    then show ?thesis using base d inv_end [OF inv i] unfolding outcome_ok_def by simp
  qed
qed

lemma iteration_outcome:
  assumes inv: "loop_inv plan lp (rn_trace run)" and shape: "plan_shape plan" and i: "lp_index lp < length (lp_stages lp)"
  shows "(\<exists>r errs run'. stage_iteration e plan lp run = Stop r errs run' \<and> outcome_ok errs (rn_trace run')) \<or>
    (\<exists>lp' run'. stage_iteration e plan lp run = Next lp' run' \<and> loop_inv plan lp' (rn_trace run') \<and> remaining plan lp' < remaining plan lp)"
proof -
  define stage where "stage = lp_stages lp ! lp_index lp"
  note here = inv_here [OF inv i stage_def]
  have fin: "finals (rn_trace run) = []" using inv by (simp add: loop_inv_def)
  from stage_def show ?thesis
  proof (cases rule: stage_iteration_cases [where run = run and e = e and plan = plan])
    case early
    show ?thesis by (rule stopped_outcome [OF early fin]) (use here in auto)
  next
    case (failed r err)
    show ?thesis by (rule stopped_outcome [OF failed(2)]) (use here fin failed(1) in auto)
  next
    case (aborted r err)
    show ?thesis by (rule stopped_outcome [OF aborted(4)]) (use here fin aborted in auto)
  next
    case (retried r err lp' run' ds)
    then show ?thesis using retry_inv [OF inv shape i stage_def retried(1,3,5)] by simp
  next
    case (unrecorded r)
    show ?thesis by (rule stopped_outcome [OF unrecorded(2)]) (use here fin unrecorded(1) in auto)
  next
    case (unrouted r settlement)
    show ?thesis by (rule stopped_outcome [OF unrouted(2)]) (use here fin unrouted(1) in auto)
  next
    case (settled r settlement lp' run' ds)
    then show ?thesis using next_inv [OF inv shape i stage_def settled(1,4,5)] by simp
  qed
qed

lemma stage_loop_outcome:
  assumes "plan_shape plan"
  shows "loop_inv plan lp (rn_trace run) \<Longrightarrow> remaining plan lp < fuel \<Longrightarrow>
    \<exists>r errs run'. stage_loop fuel e plan lp run = Some (r, errs, run') \<and> outcome_ok errs (rn_trace run')"
proof (induction fuel arbitrary: lp run)
  case (Suc fuel)
  show ?case
  proof (cases "lp_index lp < length (lp_stages lp)")
    case True
    from iteration_outcome [OF Suc.prems(1) assms True, of e] show ?thesis
    proof (elim disjE exE conjE)
      fix r errs run'
      assume "stage_iteration e plan lp run = Stop r errs run'" "outcome_ok errs (rn_trace run')"
      moreover from this(1) have "stage_loop (Suc fuel) e plan lp run = Some (r, errs, run')"
        unfolding stage_loop.simps if_P [OF True] by (simp only: step.case)
      ultimately show ?thesis by blast
    next
      fix lp' run'
      assume s: "stage_iteration e plan lp run = Next lp' run'" "loop_inv plan lp' (rn_trace run')" "remaining plan lp' < remaining plan lp"
      have "remaining plan lp' < fuel" using s(3) Suc.prems(2) by simp
      moreover have "stage_loop (Suc fuel) e plan lp run = stage_loop fuel e plan lp' run'"
        unfolding stage_loop.simps if_P [OF True] s(1) by (simp only: step.case)
      ultimately show ?thesis using Suc.IH [OF s(2)] by presburger
    qed
  next
    case False
    define out where "out = complete_sequential e plan lp run"
    obtain r errs run' where out: "out = (r, errs, run')" by (cases out) auto
    have c: "complete_sequential e plan lp run = (r, errs, run')" using out out_def by simp
    have "stage_loop (Suc fuel) e plan lp run = Some (r, errs, run')" unfolding stage_loop.simps if_not_P [OF False] c ..
    then show ?thesis using complete_outcome [OF Suc.prems(1) False c] by blast
  qed
qed simp

lemma stage_loop_mono: "stage_loop fuel e plan lp run = Some x \<Longrightarrow> stage_loop (fuel + k) e plan lp run = Some x"
  by (induction fuel arbitrary: lp run) (auto split: if_splits step.splits)

lemma iteration_extends:
  assumes "lp_index lp < length (lp_stages lp)"
  shows "case stage_iteration e plan lp run of
      Next lp' run' \<Rightarrow> \<exists>evs. rn_trace run' = rn_trace run @ evs
    | Stop r errs run' \<Rightarrow> \<exists>evs. rn_trace run' = rn_trace run @ evs"
  by (rule stage_iteration_cases [OF refl, where run = run and e = e and plan = plan and lp = lp]) (auto simp: stopped_def)

lemma complete_extends:
  "complete_sequential e plan lp run = (r, errs, run') \<Longrightarrow> \<exists>evs. rn_trace run' = rn_trace run @ evs"
  by (elim complete_sequential_stop) (auto dest: stop_with_trace)

lemma stage_loop_extends:
  "stage_loop fuel e plan lp run = Some (r, errs, run') \<Longrightarrow> \<exists>evs. rn_trace run' = rn_trace run @ evs"
proof (induction fuel arbitrary: lp run)
  case (Suc fuel)
  show ?case
  proof (cases "lp_index lp < length (lp_stages lp)")
    case True
    show ?thesis
    proof (cases "stage_iteration e plan lp run")
      case (Next lp1 run1)
      then have "stage_loop fuel e plan lp1 run1 = Some (r, errs, run')" using Suc.prems True by simp
      from Suc.IH [OF this] obtain evs where "rn_trace run' = rn_trace run1 @ evs" by blast
      moreover obtain evs' where "rn_trace run1 = rn_trace run @ evs'" using iteration_extends [OF True, where e = e and plan = plan and run = run] Next by auto
      ultimately show ?thesis by simp
    next
      case (Stop r1 errs1 run1)
      then show ?thesis using Suc.prems True iteration_extends [OF True, where e = e and plan = plan and run = run] by simp
    qed
  next
    case False
    then show ?thesis using Suc.prems complete_extends [of e plan lp run] by simp
  qed
qed simp

lemma run_operation_cases:
  assumes "\<not> IsPrefundedDualInventory plan"
  obtains (uncreated) err run2 where "\<And>fuel. run_operation fuel qf e oid plan run = Some (empty_result [], [SagaPort err], run2)"
      "rn_trace run2 = rn_trace run"
  | (created) operation run2 where "rn_trace run2 = rn_trace run @ [EvCreated oid]"
      "\<And>fuel. run_operation fuel qf e oid plan run = stage_loop fuel e plan (start_loop plan operation) run2"
proof -
  obtain now run1 where c: "call (ex_clock e) run = (now, run1)" by fastforce
  define operation where "operation = new_operation oid plan now"
  obtain err run2 where d: "create_operation e plan operation run1 = (err, run2)" by fastforce
  have tr: "rn_trace run2 = rn_trace run @ (if err = None then [EvCreated oid] else [])"
    using d call_trace [OF c] by (auto simp: create_operation_def operation_def new_operation_def split: prod.splits option.splits dest: call_trace)
  show thesis
    using that(1) [of "the err" run2] that(2) [of run2 operation] tr c d assms
    by (cases err) (simp_all add: run_operation_def operation_def Let_def)
qed

lemma preflight_failed_trace:
  assumes "preflight_failed e oid plan err run = (errs, run')"
  shows "errs \<noteq> [] \<and> (rn_trace run' = rn_trace run \<or> rn_trace run' = rn_trace run @ [EvBlocked oid])"
  using assms by (auto simp: preflight_failed_def Let_def split: prod.splits option.splits if_splits dest!: call_trace)

lemma Execute_cases:
  fixes e :: "'w Executor"
  assumes "\<not> IsPrefundedDualInventory plan"
  obtains (refused) r errs run2 where "\<And>fuel. Execute fuel qf e running oid plan run = Some (r, errs, run2)" "errs \<noteq> []"
      "rn_trace run2 = rn_trace run \<or> rn_trace run2 = rn_trace run @ [EvBlocked oid]"
  | (started) operation run2 g where "rn_trace run2 = rn_trace run @ [EvCreated oid]" "\<And>x. rn_trace (g x) = rn_trace x"
      "\<And>fuel. Execute fuel qf e running oid plan run =
         map_option (\<lambda>(r, errs, x). (r, errs, g x)) (stage_loop fuel e plan (start_loop plan operation) run2)"
proof (cases "running \<or> oid = [] \<or> SequentialPlanValidate plan \<noteq> None")
  case True
  define errs where "errs = (if running then [SagaBusy] else if oid = [] then [SagaIncomplete]
    else [SagaPlan (the (SequentialPlanValidate plan))])"
  have "Execute fuel qf e running oid plan run = Some (empty_result [], errs, run)" for fuel
    using True by (auto simp: Execute_def errs_def)
  then show thesis using refused [of "empty_result []" errs run] by (simp add: errs_def)
next
  case go: False
  obtain active run1 where a: "call (jn_Active (ex_journal e)) run = (active, run1)" by fastforce
  note t1 = call_trace [OF a]
  show thesis
  proof (cases "active = Inr None")
    case False
    define errs where "errs = (case active of Inl err \<Rightarrow> [SagaPort err] | Inr x \<Rightarrow> [SagaActive (the x)])"
    have "Execute fuel qf e running oid plan run = Some (empty_result [], errs, run1)" for fuel
      using go a False by (auto simp: Execute_def errs_def split: sum.splits option.splits)
    moreover have "errs \<noteq> []" by (simp add: errs_def split: sum.splits)
    ultimately show thesis using refused [of "empty_result []" errs run1] t1 by simp
  next
    case free: True
    show thesis
    proof (cases "ex_preflight e")
      case None
      then have eq: "Execute fuel qf e running oid plan run = run_operation fuel qf e oid plan run1" for fuel
        using go a free by (simp add: Execute_def)
      show thesis
      proof (cases rule: run_operation_cases [OF assms, where qf = qf and e = e and oid = oid and run = run1])
        case (1 err run2)
        then show thesis using refused [of "empty_result []" "[SagaPort err]" run2] t1 by (simp add: eq)
      next
        case (2 operation run2)
        then show thesis using started [of run2 id operation] t1 eq by (simp add: option.map_id0)
      qed
    next
      case (Some pd)
      obtain pre discard where pd: "pd = (pre, discard)" by fastforce
      obtain err run2 where p: "call (pre oid plan) run1 = (err, run2)" by fastforce
      note t2 = call_trace [OF p]
      show thesis
      proof (cases err)
        case (Some x)
        obtain errs run3 where f: "preflight_failed e oid plan x run2 = (errs, run3)" by fastforce
        have "Execute fuel qf e running oid plan run = Some (empty_result oid, errs, run3)" for fuel
          using go a free \<open>ex_preflight e = Some pd\<close> pd p Some f by (simp add: Execute_def)
        then show thesis using refused [of "empty_result oid" errs run3] preflight_failed_trace [OF f] t1 t2 by simp
      next
        case none: None
        define g where "g = (\<lambda>x :: 'w Run. x\<lparr>rn_world := discard oid (rn_world x)\<rparr>)"
        have eq: "Execute fuel qf e running oid plan run =
            map_option (\<lambda>(r, errs, x). (r, errs, g x)) (run_operation fuel qf e oid plan run2)" for fuel
          using go a free Some pd p none by (simp add: Execute_def g_def)
        have g: "rn_trace (g x) = rn_trace x" for x by (simp add: g_def)
        show thesis
        proof (cases rule: run_operation_cases [OF assms, where qf = qf and e = e and oid = oid and run = run2])
          case (1 err run3)
          then show thesis using refused [of "empty_result []" "[SagaPort err]" "g run3"] t1 t2 g by (simp add: eq)
        next
          case (2 operation run3)
          then show thesis using started [of run3 g operation] t1 t2 g by (simp add: eq)
        qed
      qed
    qed
  qed
qed

lemma created_outcome:
  assumes "plan_shape plan" and "rn_trace run = [EvCreated oid]" and "7 \<le> fuel"
  obtains r errs run' evs where "stage_loop fuel e plan (start_loop plan operation) run = Some (r, errs, run')"
    "outcome_ok errs (rn_trace run')" "rn_trace run' = EvCreated oid # evs"
proof -
  have inv: "loop_inv plan (start_loop plan operation) (rn_trace run)" "remaining plan (start_loop plan operation) \<le> 6"
    using start_inv [OF assms(1), of "rn_trace run"] assms(2) by simp_all
  then have "remaining plan (start_loop plan operation) < fuel" using assms(3) by simp
  from stage_loop_outcome [OF assms(1) inv(1) this, of e] obtain r errs run' where
      r: "stage_loop fuel e plan (start_loop plan operation) run = Some (r, errs, run')" "outcome_ok errs (rn_trace run')"
    by blast
  then show thesis using that stage_loop_extends [OF r(1)] assms(2) by auto
qed

section \<open>Properties\<close>

text \<open>
  C5: The dependent executor always returns. For every plan of the two sequential constructors
  and whatever the journal, the drivers and the selector answer, seven rounds of the loop are
  enough, more fuel changes nothing, and no more than six stages are executed.
\<close>

theorem sequential_execution_returns:
  assumes "NewSequentialPlan pid opp inp b s t = Inr plan \<or> NewPrefundedSequentialPlan pid opp inp b s t = Inr plan"
    and "rn_trace run = []"
  shows "\<exists>r errs run'. (\<forall>k. Execute (7 + k) quoteFirst e running oid plan run = Some (r, errs, run')) \<and>
    length (executions (rn_trace run')) \<le> 6"
proof -
  note shape = constructed_shape [OF assms(1)]
  show ?thesis
  proof (cases rule: Execute_cases [OF shape(3), where qf = quoteFirst and e = e and running = running and oid = oid and run = run])
    case (1 r errs run2)
    then have "executions (rn_trace run2) = []" using assms(2) by (auto simp: executions_def)
    then show ?thesis using 1(1) by auto
  next
    case (2 operation run2 g)
    have "rn_trace run2 = [EvCreated oid]" using 2(1) assms(2) by simp
    then obtain r errs run' where
        r: "stage_loop 7 e plan (start_loop plan operation) run2 = Some (r, errs, run')" "outcome_ok errs (rn_trace run')"
      by (rule created_outcome [OF shape(1), of run2 oid 7 e operation]) simp_all
    have "Execute (7 + k) quoteFirst e running oid plan run = Some (r, errs, g run')" for k
      using stage_loop_mono [OF r(1), of k] by (simp add: 2(3))
    then show ?thesis using r(2) 2(2) by (auto simp: outcome_ok_def)
  qed
qed

text \<open>
  C2: No stage that may have had an effect is ever executed again, and the recorded end tells
  the truth. Stages are executed only after the operation is durably created; the ordinals of
  all executions except definitive failures are different; the end is recorded at most once, as
  the last event; a run without error has completed a whole route with every stage settled; an
  aborted run has had no effect; every other recorded end asks for manual intervention.
\<close>

theorem sequential_execution_outcome:
  assumes "NewSequentialPlan pid opp inp b s t = Inr plan \<or> NewPrefundedSequentialPlan pid opp inp b s t = Inr plan"
    and "rn_trace run = []" and "7 \<le> fuel"
    and "Execute fuel quoteFirst e running oid plan run = Some (r, errs, run')"
  shows "(executions (rn_trace run') \<noteq> [] \<longrightarrow> hd (rn_trace run') = EvCreated oid) \<and>
    distinct (done_of (rn_trace run')) \<and>
    (finals (rn_trace run') = [] \<and> errs \<noteq> [] \<or>
     (\<exists>state. finals (rn_trace run') = [state] \<and> last (rn_trace run') = EvFinished state \<and>
        (if errs = []
         then state = SequentialCompleted \<and> done_of (rn_trace run') \<in> {[1, 2, 3, 4], [1, 5]} \<and>
           length (settled_of (rn_trace run')) = length (done_of (rn_trace run'))
         else state = SequentialManualIntervention \<or>
           state = SequentialAborted \<and> done_of (rn_trace run') = [] \<and> settled_of (rn_trace run') = [])))"
proof -
  note shape = constructed_shape [OF assms(1)]
  show ?thesis
  proof (cases rule: Execute_cases [OF shape(3), where qf = quoteFirst and e = e and running = running and oid = oid and run = run])
    case (1 r1 errs1 run2)
    then have "errs1 = errs" "run2 = run'" using assms(4) by simp_all
    then show ?thesis using 1(2,3) assms(2) by (auto simp: executions_def done_of_def finals_def)
  next
    case (2 operation run2 g)
    have "rn_trace run2 = [EvCreated oid]" using 2(1) assms(2) by simp
    from created_outcome [OF shape(1) this assms(3), of e operation] obtain r1 errs1 run1 evs where
        r: "stage_loop fuel e plan (start_loop plan operation) run2 = Some (r1, errs1, run1)" "outcome_ok errs1 (rn_trace run1)"
          "rn_trace run1 = EvCreated oid # evs" by blast
    then have "errs1 = errs" "rn_trace run' = rn_trace run1" using assms(4) 2(2,3) by auto
    then have tr: "outcome_ok errs (rn_trace run')" "hd (rn_trace run') = EvCreated oid" using r(2,3) by simp_all
    show ?thesis using tr(1) unfolding outcome_ok_def by (intro conjI impI) (rule tr(2), blast+)
  qed
qed

section \<open>Witnesses\<close>

definition fresh_run :: "unit Run" where
  "fresh_run = \<lparr>rn_world = (), rn_trace = []\<rparr>"

theorem sequential_execution_returns_witness:
  "\<exists>plan r errs run'. NewSequentialPlan ''p'' plan_opportunity_sample \<lparr>amt_token = ''usd-a'', amt_units = 30\<rparr> ''A'' ''B'' 3 = Inr plan \<and>
     (\<forall>k. Execute (7 + k) False rejecting_executor False ''op'' plan fresh_run = Some (r, errs, run')) \<and>
     length (executions (rn_trace run')) \<le> 6"
proof -
  obtain plan where plan: "NewSequentialPlan ''p'' plan_opportunity_sample \<lparr>amt_token = ''usd-a'', amt_units = 30\<rparr> ''A'' ''B'' 3 = Inr plan"
    using transported_sample by blast
  have "rn_trace fresh_run = []" by (simp add: fresh_run_def)
  from sequential_execution_returns [OF disjI1 [OF plan] this] plan show ?thesis by blast
qed

lemma rejected_purchase:
  assumes plan: "NewSequentialPlan ''p'' plan_opportunity_sample inp ''A'' ''B'' 3 = Inr plan"
    and lp: "lp = start_loop plan (new_operation ''op'' plan now)" and run: "rn_trace run = [EvCreated ''op'']"
  shows "\<exists>r run'. stage_iteration rejecting_executor plan lp run = Stop r [SagaPort rejection] run' \<and>
    finals (rn_trace run') = [SequentialAborted]"
proof -
  obtain c where c: "sp_Stages plan = transported_stages c (op_Direction plan_opportunity_sample) ''A'' ''B''"
      "amt_token inp = amt_token (q_AmountIn (cd_BuyQuote c))" "SequentialPlanValidate plan = None" "sp_InitialInput plan = inp"
    by (rule NewSequentialPlan_Inr [OF plan]) blast
  have dual: "\<not> IsPrefundedDualInventory plan" by (rule constructed_shape(3) [OF disjI1 [OF plan]])
  have zero: "\<not> AmountIsZero inp" "sp_ID plan \<noteq> []" using c(3,4) by (auto simp: SequentialPlanValidate_def split: if_splits)
  define stage where "stage = lp_stages lp ! lp_index lp"
  have st: "stage = sp_Stages plan ! 0" by (simp add: stage_def lp start_loop_def)
  have valid: "StageValidate stage = None" by (rule plan_stages_valid [OF c(3)]) (simp add: st c(1) stage_defs)
  have stage: "st_Ordinal stage = 1" "st_Stage stage = StageBuy" "st_DependsOn stage = []" "st_InputFromOrdinal stage = 0" "st_InputToken stage = amt_token inp"
    by (simp_all add: st c(1,2) stage_defs)
  have inp: "resolveInput rejecting_executor plan stage (lp_current lp) (lp_outputs lp) = Inr inp"
    using dual stage c(4) by (simp add: resolveInput_def InputFor_def)
  have drv: "DriverFor (ex_drivers rejecting_executor) (st_Stage stage) = Inr rejecting_driver"
    by (simp add: DriverFor_def stage rejecting_executor_def)
  have "\<not> canAutomaticallyRecoverSwap plan stage rejection n" for n by (simp add: canAutomaticallyRecoverSwap_def stage)
  then have failed: "stage_failed rejecting_executor plan lp stage rejection run1 = halt rejecting_executor lp SequentialAborted [SagaPort rejection] run1" for run1
    using rejection_definitive stage(1) by (simp add: stage_failed_def persist_failure_costs_def)
  let ?r = "\<lparr>sr_Operation = sq_ID (lp_operation lp), sr_Plan = sp_ID plan, sr_Stage = stage, sr_Input = inp\<rparr>"
  have req: "RequestValidate ?r = None" using zero valid stage by (simp add: RequestValidate_def lp start_loop_def new_operation_def)
  have ex: "execute_stage rejecting_driver ?r run = (Inl rejection, emit (EvExecute ?r (Some rejection)) run)"
    by (simp add: execute_stage_def rejecting_driver_def call_def)
  have "stage_iteration rejecting_executor plan lp run = halt rejecting_executor lp SequentialAborted [SagaPort rejection] (emit (EvExecute ?r (Some rejection)) run)"
    using inp req drv ex failed unfolding stage_iteration_def stage_def by simp
  also have "\<dots> = Stop (lp_result lp) [SagaPort rejection] (emit (EvFinished SequentialAborted) (emit (EvExecute ?r (Some rejection)) run))"
    by (simp add: halt_def stop_with_def finish_def rejecting_executor_def accepting_journal_def call_def)
  finally show ?thesis using run by simp
qed

lemma rejected_run:
  assumes "NewSequentialPlan ''p'' plan_opportunity_sample inp ''A'' ''B'' 3 = Inr plan"
  shows "\<exists>r run'. Execute 7 False rejecting_executor False ''op'' plan fresh_run = Some (r, [SagaPort rejection], run') \<and>
    finals (rn_trace run') = [SequentialAborted]"
proof -
  note shape = constructed_shape [OF disjI1 [OF assms]]
  define run2 where "run2 = emit (EvCreated ''op'') fresh_run"
  define lp where "lp = start_loop plan (new_operation ''op'' plan 5)"
  have "Execute 7 False rejecting_executor False ''op'' plan fresh_run = stage_loop 7 rejecting_executor plan lp run2"
    using shape(2,3) by (simp add: Execute_def run_operation_def create_operation_def rejecting_executor_def accepting_journal_def
      call_def run2_def lp_def new_operation_def fresh_run_def)
  moreover have "rn_trace run2 = [EvCreated ''op'']" by (simp add: run2_def fresh_run_def)
  moreover have "lp_index lp < length (lp_stages lp)" using plan_shape_length [OF shape(1)] by (simp add: lp_def start_loop_def)
  ultimately show ?thesis using rejected_purchase [OF assms lp_def, of run2] by (auto simp: numeral_eq_Suc)
qed

theorem sequential_execution_outcome_witness:
  "\<exists>plan r run'. NewSequentialPlan ''p'' plan_opportunity_sample \<lparr>amt_token = ''usd-a'', amt_units = 30\<rparr> ''A'' ''B'' 3 = Inr plan \<and>
     Execute 7 False rejecting_executor False ''op'' plan fresh_run = Some (r, [SagaPort rejection], run') \<and>
     finals (rn_trace run') = [SequentialAborted] \<and> done_of (rn_trace run') = [] \<and> settled_of (rn_trace run') = []"
proof -
  obtain plan where plan: "NewSequentialPlan ''p'' plan_opportunity_sample \<lparr>amt_token = ''usd-a'', amt_units = 30\<rparr> ''A'' ''B'' 3 = Inr plan"
    using transported_sample by blast
  obtain r run' where run: "Execute 7 False rejecting_executor False ''op'' plan fresh_run = Some (r, [SagaPort rejection], run')"
      "finals (rn_trace run') = [SequentialAborted]"
    using rejected_run [OF plan] by blast
  have "rn_trace fresh_run = []" by (simp add: fresh_run_def)
  from sequential_execution_outcome [OF disjI1 [OF plan] this le_refl run(1)] run(2)
  have "done_of (rn_trace run') = [] \<and> settled_of (rn_trace run') = []" by simp
  then show ?thesis using plan run by blast
qed

end
