(* ===== verification/Saga_Amounts.thy ===== *)
theory Saga_Amounts
  imports Vernier_Prelude
begin

text \<open>
  The arithmetic of multi-hop legs, \<open>src/core/saga/amounts.go\<close>: the amount a hop produced and
  the two ways of dividing an amount over branches, by basis points and by integer weights.
\<close>

section \<open>Definitions\<close>

datatype split_error = HopBalances | SplitInput | SplitWeight | SplitTotal

text \<open>A \<open>big.Int\<close> pointer may be nil.\<close>

definition BalanceDelta :: "int option \<Rightarrow> int option \<Rightarrow> (split_error, int) result" where
  "BalanceDelta before after =
     (case (before, after) of
        (Some b, Some a) \<Rightarrow> if b < 0 \<or> a < b then Inl HopBalances else Inr (a - b)
      | _ \<Rightarrow> Inl HopBalances)"

text \<open>
  The loop that both functions share: every branch but the last gets the truncated share, the
  last one what is left.
\<close>

definition split_parts :: "int \<Rightarrow> int \<Rightarrow> int list \<Rightarrow> int list" where
  "split_parts amount divisor weights =
     (let parts = map (\<lambda>w. bigQuo (amount * w) divisor) (butlast weights)
      in parts @ [amount - sum_list parts])"

definition add_bps :: "64 word \<Rightarrow> 16 word \<Rightarrow> (split_error, 64 word) result" where
  "add_bps acc weight = (if weight = 0 then Inl SplitWeight else Inr (acc + ucast weight))"

definition SplitUnits :: "int option \<Rightarrow> 16 word list \<Rightarrow> (split_error, int list) result" where
  "SplitUnits input weightsBPS =
     (case input of
        None \<Rightarrow> Inl SplitInput
      | Some amount \<Rightarrow>
          if amount \<le> 0 \<or> weightsBPS = [] then Inl SplitInput
          else rbind (foldM add_bps 0 weightsBPS) (\<lambda>sum.
            if sum \<noteq> 10000 then Inl SplitTotal
            else Inr (split_parts amount 10000 (map (\<lambda>w. int (unat w)) weightsBPS))))"

definition add_weight :: "int \<Rightarrow> int option \<Rightarrow> (split_error, int) result" where
  "add_weight acc weight =
     (case weight of None \<Rightarrow> Inl SplitWeight | Some w \<Rightarrow> if w \<le> 0 then Inl SplitWeight else Inr (acc + w))"

definition SplitByWeights :: "int option \<Rightarrow> int option list \<Rightarrow> (split_error, int list) result" where
  "SplitByWeights input weights =
     (case input of
        None \<Rightarrow> Inl SplitInput
      | Some amount \<Rightarrow>
          if amount \<le> 0 \<or> weights = [] then Inl SplitInput
          else rbind (foldM add_weight 0 weights) (\<lambda>weightTotal.
            Inr (split_parts amount weightTotal (map the weights))))"

section \<open>Lemmas\<close>

lemma split_parts_length: "weights \<noteq> [] \<Longrightarrow> length (split_parts amount d weights) = length weights"
  by (simp add: split_parts_def Let_def)

lemma split_parts_total: "sum_list (split_parts amount d weights) = amount"
  by (simp add: split_parts_def Let_def)

lemma split_parts_floor:
  assumes "Suc i < length weights"
  shows "split_parts amount d weights ! i = bigQuo (amount * weights ! i) d"
proof -
  have "i < length weights - 1" using assms by simp
  then show ?thesis by (simp add: split_parts_def Let_def nth_append nth_butlast)
qed

lemma floors_bounds:
  assumes "0 \<le> amount" and "0 < d" and "\<forall>w \<in> set ws. 0 < w"
  shows "sum_list (map (\<lambda>w. bigQuo (amount * w) d) ws) * d \<le> amount * sum_list ws \<and>
    amount * sum_list ws \<le> sum_list (map (\<lambda>w. bigQuo (amount * w) d) ws) * d + int (length ws) * (d - 1)"
  using assms(3)
proof (induction ws)
  case (Cons w ws)
  have "0 \<le> amount * w" using assms(1) Cons.prems by simp
  from bigQuo_bounds [OF this assms(2)]
  have "bigQuo (amount * w) d * d \<le> amount * w" "amount * w \<le> bigQuo (amount * w) d * d + (d - 1)"
    by (simp_all add: distrib_right)
  with Cons show ?case by (simp add: distrib_right distrib_left)
qed simp

text \<open>
  The last branch gets at least its proportional share and at most the rounding of the others
  on top of it.
\<close>

lemma split_parts_last:
  assumes amount: "0 < amount" and ne: "weights \<noteq> []" and pos: "\<forall>w \<in> set weights. 0 < w"
    and d: "d = sum_list weights"
  shows "amount * last weights \<le> last (split_parts amount d weights) * d"
    and "last (split_parts amount d weights) * d \<le> amount * last weights + int (length weights - 1) * (d - 1)"
    and "0 < last (split_parts amount d weights)"
proof -
  let ?f = "sum_list (map (\<lambda>w. bigQuo (amount * w) d) (butlast weights))"
  have sum: "d = sum_list (butlast weights) + last weights"
    unfolding d by (subst append_butlast_last_id [OF ne, symmetric], simp del: append_butlast_last_id)
  have lastpos: "0 < last weights" using pos ne by simp
  have bpos: "\<forall>w \<in> set (butlast weights). 0 < w" using pos by (auto dest: in_set_butlastD)
  then have "0 \<le> sum_list (butlast weights)" by (intro sum_list_nonneg) force
  then have dpos: "0 < d" using sum lastpos by linarith
  note b = floors_bounds [OF _ dpos bpos, of amount]
  have split: "amount * d = amount * sum_list (butlast weights) + amount * last weights"
    using sum by (metis distrib_left)
  have l: "last (split_parts amount d weights) = amount - ?f" by (simp add: split_parts_def Let_def)
  have e: "(amount - ?f) * d = amount * d - ?f * d" by (simp add: left_diff_distrib)
  show lower: "amount * last weights \<le> last (split_parts amount d weights) * d"
    using b amount unfolding l e split by simp
  show "last (split_parts amount d weights) * d \<le> amount * last weights + int (length weights - 1) * (d - 1)"
    using b amount unfolding l e split by simp
  have "0 < amount * last weights" using amount lastpos by simp
  with lower have "0 < last (split_parts amount d weights) * d" by linarith
  then show "0 < last (split_parts amount d weights)" using dpos by (simp add: zero_less_mult_iff)
qed

lemma fold_weights:
  "foldM add_weight a ws = Inr s \<longleftrightarrow> (\<forall>w \<in> set ws. w \<noteq> None \<and> 0 < the w) \<and> s = a + sum_list (map the ws)"
  by (induction ws arbitrary: a) (auto simp: add_weight_def split: option.splits)

lemma fold_bps:
  "foldM add_bps a ws = Inr s \<longleftrightarrow> (\<forall>w \<in> set ws. w \<noteq> 0) \<and> s = a + sum_list (map ucast ws)"
  by (induction ws arbitrary: a) (auto simp: add_bps_def add.assoc)

text \<open>Below \<open>2 ^ 48\<close> weights the 64-bit sum does not wrap.\<close>

lemma bps_bound: "sum_list (map (\<lambda>w :: 16 word. int (unat w)) ws) \<le> int (length ws) * 65535"
proof (induction ws)
  case (Cons w ws)
  have "uint w < 2 ^ 16" using unsigned_less [of w, where ?'a = int] by simp
  then have "int (unat w) \<le> 65535" by simp
  with Cons show ?case by (simp add: distrib_right)
qed simp

lemma bps_sum: "uint (sum_list (map ucast ws :: 64 word list)) =
    sum_list (map (\<lambda>w :: 16 word. int (unat w)) ws) mod 2 ^ 64"
proof (induction ws)
  case (Cons w ws)
  have "uint (ucast w :: 64 word) = int (unat w)"
    by (simp add: uint_up_ucast is_up)
  with Cons show ?case by (simp add: uint_word_ariths mod_simps)
qed simp

lemma uint_10000: "uint (10000 :: 64 word) = 10000" by simp

lemma bps_exact:
  assumes "length ws < 2 ^ 48"
  shows "sum_list (map ucast ws) = (10000 :: 64 word) \<longleftrightarrow> sum_list (map (\<lambda>w :: 16 word. int (unat w)) ws) = 10000"
proof -
  let ?s = "sum_list (map (\<lambda>w :: 16 word. int (unat w)) ws)"
  have "0 \<le> ?s" by (intro sum_list_nonneg) auto
  moreover have "?s < 2 ^ 64" using bps_bound [of ws] assms by simp
  ultimately have "uint (sum_list (map ucast ws :: 64 word list)) = ?s" by (simp add: bps_sum)
  then show ?thesis by (metis (mono_tags, lifting) uint_10000 word_uint_eqI)
qed

lemma SplitByWeights_Inr:
  "SplitByWeights (Some amount) weights = Inr parts \<longleftrightarrow>
     0 < amount \<and> weights \<noteq> [] \<and> (\<forall>w \<in> set weights. w \<noteq> None \<and> 0 < the w) \<and>
     parts = split_parts amount (sum_list (map the weights)) (map the weights)"
  by (auto simp: SplitByWeights_def result_simps fold_weights)

lemma SplitUnits_Inr:
  assumes "length weights < 2 ^ 48"
  shows "SplitUnits (Some amount) weights = Inr parts \<longleftrightarrow>
     0 < amount \<and> weights \<noteq> [] \<and> (\<forall>w \<in> set weights. w \<noteq> 0) \<and>
     sum_list (map (\<lambda>w. int (unat w)) weights) = 10000 \<and>
     parts = split_parts amount 10000 (map (\<lambda>w. int (unat w)) weights)"
  by (auto simp: SplitUnits_def result_simps fold_bps bps_exact [OF assms])

section \<open>Properties\<close>

text \<open>
  C38: A split conserves its input: the parts are as many as the weights and add up to the
  input exactly, every part but the last is the proportional share rounded down, and the last
  one is positive, at least its own share, and above it by less than one unit per other branch.
\<close>

theorem split_conserves:
  assumes "SplitByWeights (Some amount) weights = Inr parts"
  defines "ws \<equiv> map the weights" and "whole \<equiv> sum_list (map the weights)"
  shows "length parts = length weights \<and> sum_list parts = amount \<and>
    (\<forall>i. Suc i < length weights \<longrightarrow> parts ! i * whole \<le> amount * ws ! i \<and> amount * ws ! i < (parts ! i + 1) * whole) \<and>
    0 < last parts \<and> amount * last ws \<le> last parts * whole \<and>
    last parts * whole \<le> amount * last ws + int (length weights - 1) * (whole - 1)"
proof -
  from assms(1) have a: "0 < amount" and ne: "weights \<noteq> []" and pos: "\<forall>w \<in> set ws. 0 < w"
    and parts: "parts = split_parts amount whole ws"
    by (auto simp: SplitByWeights_Inr ws_def whole_def)
  have ne': "ws \<noteq> []" and len: "length ws = length weights" using ne by (simp_all add: ws_def)
  have whole: "whole = sum_list ws" by (simp add: whole_def ws_def)
  have "0 < sum_list ws" using pos ne' by (cases ws) (auto intro!: add_pos_nonneg sum_list_nonneg)
  then have w: "0 < whole" by (simp add: whole)
  have "parts ! i * whole \<le> amount * ws ! i \<and> amount * ws ! i < (parts ! i + 1) * whole"
    if "Suc i < length weights" for i
  proof -
    have "0 \<le> amount * ws ! i" using a pos that len by (simp add: less_imp_le)
    from bigQuo_bounds [OF this w] show ?thesis using that by (simp add: parts split_parts_floor len)
  qed
  with split_parts_last [OF a ne' pos whole] show ?thesis
    by (simp add: parts split_parts_length split_parts_total ne' len)
qed

theorem split_conserves_witness:
  "\<exists>parts. SplitByWeights (Some 100) [Some 1, Some 1, Some 1] = Inr parts \<and> sum_list parts = 100 \<and> 34 \<le> last parts"
proof -
  have run: "SplitByWeights (Some 100) [Some 1, Some 1, Some 1] = Inr [33, 33, 34]"
    by (simp add: SplitByWeights_def add_weight_def split_parts_def Let_def bigQuo_nonneg)
  from split_conserves [OF run] show ?thesis using run by simp
qed

text \<open>
  Splitting by basis points is splitting by integer weights: for fewer than \<open>2 ^ 48\<close>
  weights, so that their 64-bit sum cannot wrap, \<open>SplitUnits\<close> accepts exactly the positive
  weights that add up to 10000 and then gives the parts of \<open>SplitByWeights\<close>.
\<close>

lemma split_units_by_weights:
  assumes "length weights < 2 ^ 48"
  shows "SplitUnits (Some amount) weights = Inr parts \<longleftrightarrow>
    sum_list (map (\<lambda>w. int (unat w)) weights) = 10000 \<and>
    SplitByWeights (Some amount) (map (\<lambda>w. Some (int (unat w))) weights) = Inr parts"
proof -
  have "(\<forall>w \<in> set weights. w \<noteq> 0) \<longleftrightarrow> (\<forall>w \<in> set weights. 0 < int (unat w))"
    by (metis of_nat_0_less_iff unat_gt_0)
  then show ?thesis
    by (auto simp: SplitUnits_Inr [OF assms] SplitByWeights_Inr o_def simp del: of_nat_unat)
qed

lemma split_units_by_weights_example:
  "SplitByWeights (Some 7) [Some 2500, Some 7500] = Inr [1, 6]"
proof -
  have "SplitUnits (Some 7) [2500, 7500] = Inr [1, 6]"
    by (simp add: SplitUnits_def add_bps_def split_parts_def Let_def bigQuo_nonneg)
  then show ?thesis using split_units_by_weights [of "[2500, 7500]" 7 "[1, 6]"] by simp
qed

end
