(* ===== verification/Ledger_Contract.thy ===== *)
theory Ledger_Contract
  imports Inventory_Ledger
begin

text \<open>
  The contract between the inventory and the live operations that reserve in it: what the
  executor, the settlement coordinator and the recovery of \<open>src/core/saga\<close> rely on when
  they call \<open>Reserve\<close>, \<open>Release\<close> and \<open>Settle\<close> of \<open>src/domain/inventory\<close>.
\<close>

section \<open>The contract\<close>

locale reservation_ledger =
  fixes reserve :: "string \<Rightarrow> string \<Rightarrow> 'q \<Rightarrow> 's \<Rightarrow> ('e, 'r) result \<times> 's"
    and release :: "string \<Rightarrow> 's \<Rightarrow> 'e option \<times> 's"
    and settle :: "string \<Rightarrow> 'x \<Rightarrow> 's \<Rightarrow> 'e option \<times> 's"
    and good :: "'s \<Rightarrow> bool"
    and wf :: "'q \<Rightarrow> bool"
    and holds :: "'s \<Rightarrow> string \<Rightarrow> 'r option"
  assumes reserve_good: "good s \<Longrightarrow> wf q \<Longrightarrow> reserve r opn q s = (res, s') \<Longrightarrow> good s'"
    and release_good: "good s \<Longrightarrow> release r s = (err, s') \<Longrightarrow> good s'"
    and settle_good: "good s \<Longrightarrow> settle r x s = (err, s') \<Longrightarrow> good s'"
    and reserve_refused: "good s \<Longrightarrow> reserve r opn q s = (Inl e, s') \<Longrightarrow> s' = s"
    and reserve_holds: "good s \<Longrightarrow> reserve r opn q s = (Inr rs, s') \<Longrightarrow> holds s' r = Some rs"
    and reserve_undo: "good s \<Longrightarrow> wf q \<Longrightarrow> holds s r = None \<Longrightarrow> reserve r opn q s = (Inr rs, s') \<Longrightarrow>
      release r s' = (None, s)"
    and settle_refused: "good s \<Longrightarrow> settle r x s = (Some e, s') \<Longrightarrow> s' = s"
    and settle_closes: "good s \<Longrightarrow> settle r x s = (None, s') \<Longrightarrow> holds s' r = None"
    and settle_again: "good s \<Longrightarrow> settle r x s = (None, s') \<Longrightarrow> settle r x s' = (None, s')"
begin

text \<open>An attempt that ends before anything became durable leaves no trace in the ledger.\<close>

lemma attempt_undone:
  assumes "good s" and "wf q" and "holds s r = None" and "reserve r opn q s = (res, s')"
  shows "snd (release r s') = s \<or> s' = s"
proof (cases res)
  case (Inl e)
  then show ?thesis using reserve_refused assms by blast
next
  case (Inr rs)
  then show ?thesis using reserve_undo assms by (metis snd_conv)
qed

text \<open>Repeating a settlement any number of times is the same as doing it once.\<close>

lemma settle_repeat:
  assumes "good s" and "settle r x s = (None, s')"
  shows "((\<lambda>s. snd (settle r x s)) ^^ n) s' = s'"
  using settle_again [OF assms] by (induction n) simp_all

text \<open>A refused settlement can be repeated later without having done anything.\<close>

lemma settle_cases:
  assumes "good s" and "settle r x s = (err, s')"
  shows "s' = s \<or> err = None \<and> holds s' r = None \<and> settle r x s' = (None, s')"
  using assms settle_refused settle_closes settle_again by (cases err) blast+

end

section \<open>The inventory fulfils it\<close>

lemma add_to_cancel: "add_to (add_to m f) (\<lambda>k. - f k) = m"
proof
  fix k
  show "add_to (add_to m f) (\<lambda>k. - f k) k = m k" by (cases "m k") (simp_all add: add_to_def)
qed

lemma Reserve_Release:
  assumes ok: "inv_ok i" and wf: "reqs_wf reqs" and fresh: "reservations i rid = None"
    and run: "Reserve rid op reqs i = (Inr r, i')"
  shows "Release rid i' = (None, i)"
  using ok run
proof (cases rule: Reserve_cases)
  case (opened r')
  have "reservations i' rid = Some r'" using opened(7) by simp
  from Release_open [OF Reserve_inv_ok [OF ok wf run] this] opened(2,3,7) show ?thesis
    by (simp add: add_to_cancel fun_upd_idem)
qed (use fresh in auto)

lemma Settle_idem:
  assumes ok: "inv_ok i" and run: "Settle rid es i = (None, i')"
  shows "Settle rid es i' = (None, i')"
  using ok run
proof (cases rule: Settle_cases)
  case (replayed fp)
  then show ?thesis using run by simp
next
  case (closed r fp)
  have "rid \<noteq> []" using inv_okD(6) [OF ok closed(2)] by (simp add: reservation_ok_def)
  then show ?thesis using closed Settle_closed_replay [of i' rid fp es fp] by simp
qed simp

interpretation ledger: reservation_ledger Reserve Release Settle inv_ok reqs_wf reservations
proof unfold_locales
  fix i i' rid e es
  assume ok: "inv_ok i"
  show "Settle rid es i = (Some e, i') \<Longrightarrow> i' = i" by (erule Settle_cases [OF ok]) auto
  show "Settle rid es i = (None, i') \<Longrightarrow> reservations i' rid = None"
    by (erule Settle_cases [OF ok]) auto
  fix op reqs r
  show "Reserve rid op reqs i = (Inl e, i') \<Longrightarrow> i' = i" by (erule Reserve_cases [OF ok]) auto
  show "Reserve rid op reqs i = (Inr r, i') \<Longrightarrow> reservations i' rid = Some r"
    by (erule Reserve_cases [OF ok]) auto
qed (blast intro: Reserve_inv_ok Release_inv_ok Settle_inv_ok Reserve_Release Settle_idem)+

end
