(* ===== verification/Saga_Live.thy ===== *)
theory Saga_Live
  imports Saga_Ports Ledger_Contract
begin

text \<open>
  The parallel live operation: \<open>src/core/saga/gate.go\<close>, \<open>planner.go\<close> and
  \<open>executor.go\<close> with the records of \<open>src/ports/chain/chain.go\<close> and
  \<open>src/ports/execution/execution.go\<close> they exchange. One operation at a time passes the gate,
  reserves its inputs, prepares both legs, becomes durable and is broadcast. The transaction
  managers, the operational store and the clock are ports: functions on a world. The goroutines
  of one step make one port call each; the order in which the calls take effect is an argument.
\<close>

section \<open>Gate\<close>

text \<open>\<open>active\<close> of the gate; the empty identifier is a free gate. The mutex makes each method atomic.\<close>

type_synonym OperationGate = OperationID

definition TryBegin :: "OperationID \<Rightarrow> OperationGate \<Rightarrow> bool \<times> OperationGate" where
  "TryBegin operation active =
     (if operation = [] then (False, active) else if active \<noteq> [] then (False, active) else (True, operation))"

definition GateRestore :: "OperationID \<Rightarrow> OperationGate \<Rightarrow> bool \<times> OperationGate" where
  "GateRestore operation active = TryBegin operation active"

definition GateComplete :: "OperationID \<Rightarrow> OperationGate \<Rightarrow> bool \<times> OperationGate" where
  "GateComplete operation active =
     (if operation = [] then (False, active) else if active \<noteq> operation then (False, active) else (True, []))"

definition GateActive :: "OperationGate \<Rightarrow> OperationID \<times> bool" where
  "GateActive active = (active, active \<noteq> [])"

section \<open>Planner\<close>

record LegBinding =
  lb_Chain :: ChainID
  lb_Account :: AccountID

datatype planner_error = PlannerIncomplete | PlannerBinding | PlannerOpportunity live_error | PlannerMarkets | PlannerPlan exec_error

text \<open>The bindings are a map: an association list with distinct keys.\<close>

definition binding_error :: "MarketID \<times> LegBinding \<Rightarrow> planner_error option" where
  "binding_error b =
     (if fst b = [] \<or> lb_Chain (snd b) = [] \<or> lb_Account (snd b) = [] then Some PlannerBinding else None)"

definition NewPlanner :: "(MarketID \<times> LegBinding) list \<Rightarrow> bool \<Rightarrow> (planner_error, (MarketID \<times> LegBinding) list) result" where
  "NewPlanner bindings clock =
     (if length bindings < 2 \<or> \<not> clock then Inl PlannerIncomplete
      else check (first_error binding_error bindings) (Inr bindings))"

definition bound_leg :: "StepID \<Rightarrow> string \<Rightarrow> LegBinding \<Rightarrow> MarketID \<Rightarrow> Quote \<Rightarrow> Leg" where
  "bound_leg sid side b m q =
     \<lparr>leg_ID = sid, leg_Side = side, leg_Chain = lb_Chain b, leg_Account = lb_Account b, leg_Market = m,
      leg_Input = q_AmountIn q, leg_ExpectedOutput = q_AmountOut q\<rparr>"

definition Plan ::
  "(MarketID \<times> LegBinding) list \<Rightarrow> PlanID \<Rightarrow> LiveOpportunity \<Rightarrow> gotime \<Rightarrow> (planner_error, SagaPlan) result" where
  "Plan bindings pid opportunity now =
     check (map_option PlannerOpportunity (LiveOpportunityValidate opportunity))
       (case (map_of bindings (dir_BuyMarket (lo_Direction opportunity)),
              map_of bindings (dir_SellMarket (lo_Direction opportunity))) of
          (Some buyBinding, Some sellBinding) \<Rightarrow>
            map_err PlannerPlan (NewSagaPlan pid opportunity
              [bound_leg ''buy'' LegBuy buyBinding (dir_BuyMarket (lo_Direction opportunity)) (lo_BuyQuote opportunity),
               bound_leg ''sell'' LegSell sellBinding (dir_SellMarket (lo_Direction opportunity)) (lo_SellQuote opportunity)] now)
        | _ \<Rightarrow> Inl PlannerMarkets)"

section \<open>Records of the ports\<close>

record Artifact =
  art_Leg :: Leg
  art_ValidatedQuote :: Quote
  art_Allocation :: "RouteAllocation option"
  art_Payload :: string
  art_Metadata :: "(string \<times> string) list"
  art_BuiltAt :: gotime
  art_Blockhash :: string
  art_LastValidBlockHeight :: "64 word"

record PreparedTransaction =
  pt_Leg :: Leg
  pt_Identity :: TransactionIdentity
  pt_SignedPayload :: string
  pt_PreparedAt :: gotime

abbreviation BroadcastAccepted :: string where "BroadcastAccepted \<equiv> ''accepted''"
abbreviation BroadcastRejected :: string where "BroadcastRejected \<equiv> ''rejected''"
abbreviation BroadcastPossible :: string where "BroadcastPossible \<equiv> ''possible''"

record BroadcastResult =
  br_Identity :: TransactionIdentity
  br_Disposition :: string
  br_Accepted :: bool
  br_Endpoint :: string
  br_Attempts :: int
  br_AcceptedAt :: gotime

record 'w TxManager =
  tm_Account :: AccountID
  tm_Warm :: "'w \<Rightarrow> PortError option \<times> 'w"
  tm_Prepare :: "Artifact \<Rightarrow> 'w \<Rightarrow> (PortError, PreparedTransaction) result \<times> 'w"
  tm_Broadcast :: "PreparedTransaction \<Rightarrow> 'w \<Rightarrow> (BroadcastResult \<times> PortError option) \<times> 'w"
  tm_Reconcile :: "OperationStep \<Rightarrow> 'w \<Rightarrow> (PortError, Settlement) result \<times> 'w"

record 'w OperationalStore =
  op_CommitPrepared :: "Operation \<Rightarrow> Reservation \<Rightarrow> 'w \<Rightarrow> PortError option \<times> 'w"
  op_RecordBroadcast :: "OperationID \<Rightarrow> StepID \<Rightarrow> string \<Rightarrow> string \<Rightarrow> 'w \<Rightarrow> PortError option \<times> 'w"
  op_RecordSettlement :: "Settlement \<Rightarrow> 'w \<Rightarrow> PortError option \<times> 'w"
  op_MarkSettled :: "OperationID \<Rightarrow> 'w \<Rightarrow> PortError option \<times> 'w"
  op_MarkManualIntervention :: "OperationID \<Rightarrow> string \<Rightarrow> 'w \<Rightarrow> PortError option \<times> 'w"
  op_MarkNoExecution :: "OperationID \<Rightarrow> string \<Rightarrow> 'w \<Rightarrow> PortError option \<times> 'w"
  op_Pending :: "'w \<Rightarrow> (PortError, Operation list) result \<times> 'w"
  op_Reservation :: "OperationID \<Rightarrow> 'w \<Rightarrow> (PortError, Reservation) result \<times> 'w"

section \<open>State, results and errors\<close>

text \<open>
  What the store acknowledged and what was handed to a network, in order. A broadcast is in
  the trace from the moment it is called, whatever its outcome.
\<close>

datatype live_event =
    LvCommitted Operation Reservation
  | LvBroadcast PreparedTransaction
  | LvRecorded OperationID StepID string
  | LvNoExecution OperationID
  | LvManual OperationID
  | LvSettlement Settlement
  | LvSettled OperationID

record 'w Live =
  lv_world :: 'w
  lv_gate :: OperationGate
  lv_inventory :: Inventory
  lv_trace :: "live_event list"

datatype live_saga_error =
    LiveConfig
  | LiveInFlight
  | LiveArguments
  | LiveArtifactMissing StepID
  | LiveInventory inv_error
  | LivePort PortError
  | LiveTooOld
  | LivePrepared prepared_error
  | LiveNoExecution
  | LiveReconcile nat nat nat

record ExecutionTiming =
  et_Reservation :: duration
  et_Preparation :: duration
  et_Persistence :: duration
  et_CommitToBroadcast :: duration
  et_Broadcast :: duration

record ExecutionResult =
  er_Operation :: "Operation option"
  er_Broadcasts :: "BroadcastResult list"
  er_Timing :: ExecutionTiming
  er_ReconciliationRequired :: bool

definition no_execution_result :: ExecutionResult where
  "no_execution_result = \<lparr>er_Operation = None, er_Broadcasts = [],
     er_Timing = \<lparr>et_Reservation = 0, et_Preparation = 0, et_Persistence = 0, et_CommitToBroadcast = 0, et_Broadcast = 0\<rparr>,
     er_ReconciliationRequired = False\<rparr>"

record 'w ExecutorConfig =
  xc_ConfigHash :: string
  xc_Store :: "'w OperationalStore"
  xc_Managers :: "(AccountID \<times> 'w TxManager) list"
  xc_ArtifactMaxAge :: duration
  xc_Clock :: "'w \<Rightarrow> gotime \<times> 'w"

definition NewExecutor :: "'w ExecutorConfig \<Rightarrow> (live_saga_error, 'w ExecutorConfig) result" where
  "NewExecutor config =
     (if xc_ConfigHash config = [] \<or> length (xc_Managers config) < 2 \<or> xc_ArtifactMaxAge config \<le> 0 \<or>
         list_ex (\<lambda>(account, manager). account = [] \<or> tm_Account manager \<noteq> account) (xc_Managers config)
      then Inl LiveConfig else Inr config)"

section \<open>Port calls\<close>

definition on_world :: "('w \<Rightarrow> 'r \<times> 'w) \<Rightarrow> 'w Live \<Rightarrow> 'r \<times> 'w Live" where
  "on_world f s = (case f (lv_world s) of (r, w) \<Rightarrow> (r, s\<lparr>lv_world := w\<rparr>))"

definition log_event :: "live_event \<Rightarrow> 'w Live \<Rightarrow> 'w Live" where
  "log_event ev s = s\<lparr>lv_trace := lv_trace s @ [ev]\<rparr>"

text \<open>A call of the store: its event is logged when the store acknowledged it.\<close>

definition store_call :: "live_event \<Rightarrow> ('w \<Rightarrow> PortError option \<times> 'w) \<Rightarrow> 'w Live \<Rightarrow> PortError option \<times> 'w Live" where
  "store_call ev f s =
     (case on_world f s of
        (None, s') \<Rightarrow> (None, log_event ev s')
      | (Some err, s') \<Rightarrow> (Some err, s'))"

definition elapsedAt :: "gotime \<Rightarrow> gotime \<Rightarrow> duration" where
  "elapsedAt finished started = (let d = TimeSub finished started in if d < 0 then 0 else d)"

definition elapsed :: "'w ExecutorConfig \<Rightarrow> gotime \<Rightarrow> 'w Live \<Rightarrow> duration \<times> 'w Live" where
  "elapsed e started s = (case on_world (xc_Clock e) s of (now, s') \<Rightarrow> (elapsedAt now started, s'))"

text \<open>
  A wait group: every listed goroutine runs once. A goroutine without a result dereferenced a
  nil manager, which ends the process.
\<close>

fun run_group :: "(nat \<Rightarrow> 's \<Rightarrow> 'r option \<times> 's) \<Rightarrow> nat list \<Rightarrow> 's \<Rightarrow> (nat \<rightharpoonup> 'r) option \<times> 's" where
  "run_group f [] s = (Some Map.empty, s)"
| "run_group f (i # rest) s =
     (case f i s of
        (None, s') \<Rightarrow> (None, s')
      | (Some r, s') \<Rightarrow>
          (case run_group f rest s' of
             (None, s'') \<Rightarrow> (None, s'')
           | (Some m, s'') \<Rightarrow> (Some (m(i \<mapsto> r)), s'')))"

definition group_results :: "(nat \<rightharpoonup> 'r) \<Rightarrow> nat \<Rightarrow> 'r list" where
  "group_results m n = map (\<lambda>i. the (m i)) [0..<n]"

definition prepare_leg ::
  "'w ExecutorConfig \<Rightarrow> (StepID \<times> Artifact) list \<Rightarrow> Leg list \<Rightarrow> nat \<Rightarrow> 'w Live \<Rightarrow>
   (PortError, PreparedTransaction) result option \<times> 'w Live" where
  "prepare_leg e artifacts legs i s =
     (let leg = legs ! i in
      case map_of (xc_Managers e) (leg_Account leg) of
        None \<Rightarrow> (None, s)
      | Some manager \<Rightarrow>
          (case on_world (tm_Prepare manager (the (map_of artifacts (leg_ID leg)))) s of (r, s') \<Rightarrow> (Some r, s')))"

definition broadcast_leg ::
  "'w ExecutorConfig \<Rightarrow> PreparedTransaction list \<Rightarrow> nat \<Rightarrow> 'w Live \<Rightarrow>
   (BroadcastResult \<times> PortError option) option \<times> 'w Live" where
  "broadcast_leg e prepared i s =
     (let transaction = prepared ! i in
      case map_of (xc_Managers e) (leg_Account (pt_Leg transaction)) of
        None \<Rightarrow> (None, s)
      | Some manager \<Rightarrow>
          (case on_world (tm_Broadcast manager transaction) (log_event (LvBroadcast transaction) s) of (r, s') \<Rightarrow> (Some r, s')))"

section \<open>Broadcast outcomes\<close>

text \<open>\<open>Disposition\<close> when the manager set it, otherwise what \<open>Accepted\<close> and the error allow.\<close>

definition disposition_of :: "BroadcastResult \<Rightarrow> PortError option \<Rightarrow> string" where
  "disposition_of r err =
     (if br_Disposition r = [] then
        if err = None \<and> br_Accepted r then BroadcastAccepted
        else if err \<noteq> None then BroadcastPossible else []
      else br_Disposition r)"

definition broadcast_state :: "string \<Rightarrow> string" where
  "broadcast_state d =
     (if d = BroadcastAccepted then StateBroadcastPossible
      else if d = BroadcastRejected then StateBroadcastRejected else StateOutcomeUnknown)"

definition broadcast_detail :: "string \<Rightarrow> BroadcastResult \<Rightarrow> PortError option \<Rightarrow> string" where
  "broadcast_detail d r err =
     (if d = BroadcastAccepted then br_Endpoint r else case err of Some x \<Rightarrow> pe_text x | None \<Rightarrow> [])"

fun record_broadcasts ::
  "'w ExecutorConfig \<Rightarrow> OperationID \<Rightarrow> (Leg \<times> BroadcastResult \<times> PortError option) list \<Rightarrow> 'w Live \<Rightarrow>
   PortError option \<times> 'w Live" where
  "record_broadcasts e oid [] s = (None, s)"
| "record_broadcasts e oid ((leg, r, err) # rest) s =
     (let d = disposition_of r err; state = broadcast_state d in
      case store_call (LvRecorded oid (leg_ID leg) state)
             (op_RecordBroadcast (xc_Store e) oid (leg_ID leg) state (broadcast_detail d r err)) s of
        (Some x, s') \<Rightarrow> (Some x, s')
      | (None, s') \<Rightarrow> record_broadcasts e oid rest s')"

definition count_disposition :: "string \<Rightarrow> (BroadcastResult \<times> PortError option) list \<Rightarrow> nat" where
  "count_disposition d rs = length (filter (\<lambda>(r, err). disposition_of r err = d) rs)"

definition reconcile_reason :: "nat \<Rightarrow> nat \<Rightarrow> nat \<Rightarrow> string" where
  "reconcile_reason accepted rejected unknown =
     ''broadcast requires reconciliation: accepted='' @ int_string (int accepted) @
     '' rejected='' @ int_string (int rejected) @ '' unknown='' @ int_string (int unknown)"

section \<open>Execution\<close>

text \<open>
  The phases of \<open>Executor.Execute\<close>, from the last one. A phase returns the result and error
  of \<open>Execute\<close>, or nothing when the process ended. After the durable commit both deferred
  cleanups are disarmed, so that what the later phases do not undo stays.
\<close>

type_synonym outcome = "ExecutionResult \<times> live_saga_error option"

definition conclude_execution ::
  "'w ExecutorConfig \<Rightarrow> OperationID \<Rightarrow> ExecutionResult \<Rightarrow> nat \<Rightarrow> (BroadcastResult \<times> PortError option) list \<Rightarrow> 'w Live \<Rightarrow>
   outcome \<times> 'w Live" where
  "conclude_execution e oid result n rs s =
     (let accepted = count_disposition BroadcastAccepted rs; rejected = count_disposition BroadcastRejected rs;
          unknown = length rs - accepted - rejected in
      if rejected = n then
        (let result' = result\<lparr>er_ReconciliationRequired := False\<rparr> in
         case store_call (LvNoExecution oid)
                (op_MarkNoExecution (xc_Store e) oid ''both broadcasts were conclusively rejected'') s of
           (Some err, s') \<Rightarrow> ((result', Some (LivePort err)), s')
         | (None, s') \<Rightarrow>
             (case Release oid (lv_inventory s') of
                (Some err, i') \<Rightarrow> ((result', Some (LiveInventory err)), s'\<lparr>lv_inventory := i'\<rparr>)
              | (None, i') \<Rightarrow>
                  ((result', Some LiveNoExecution),
                   s'\<lparr>lv_inventory := i', lv_gate := snd (GateComplete oid (lv_gate s'))\<rparr>)))
      else if 0 < rejected \<or> 0 < unknown then
        (case store_call (LvManual oid)
                (op_MarkManualIntervention (xc_Store e) oid (reconcile_reason accepted rejected unknown)) s of
           (Some err, s') \<Rightarrow> ((result, Some (LivePort err)), s')
         | (None, s') \<Rightarrow> ((result, Some (LiveReconcile accepted rejected unknown)), s'))
      else ((result, None), s))"

definition broadcast_phase ::
  "'w ExecutorConfig \<Rightarrow> nat list \<Rightarrow> OperationID \<Rightarrow> Leg list \<Rightarrow> PreparedTransaction list \<Rightarrow> Operation \<Rightarrow> ExecutionResult \<Rightarrow> 'w Live \<Rightarrow>
   outcome option \<times> 'w Live" where
  "broadcast_phase e order oid legs prepared operation result s =
     (case on_world (xc_Clock e) s of (commitReturnedAt, s1) \<Rightarrow>
      case on_world (xc_Clock e) s1 of (broadcastStarted, s2) \<Rightarrow>
      case run_group (broadcast_leg e prepared) order s2 of
        (None, s3) \<Rightarrow> (None, s3)
      | (Some m, s3) \<Rightarrow>
          let rs = group_results m (length prepared) in
          case elapsed e broadcastStarted s3 of (took, s4) \<Rightarrow>
          let result' = result\<lparr>er_Operation := Some operation, er_Broadcasts := map fst rs,
                er_Timing := (er_Timing result)\<lparr>et_CommitToBroadcast := elapsedAt broadcastStarted commitReturnedAt, et_Broadcast := took\<rparr>,
                er_ReconciliationRequired := True\<rparr> in
          case record_broadcasts e oid (zip legs rs) s4 of
            (Some err, s5) \<Rightarrow> (Some (result', Some (LivePort err)), s5)
          | (None, s5) \<Rightarrow>
              (case conclude_execution e oid result' (length legs) rs s5 of (out, s6) \<Rightarrow> (Some out, s6)))"

definition build_operation ::
  "'w ExecutorConfig \<Rightarrow> OperationID \<Rightarrow> SagaPlan \<Rightarrow> (StepID \<times> Artifact) list \<Rightarrow> PreparedTransaction list \<Rightarrow> gotime \<Rightarrow> Operation" where
  "build_operation e oid plan artifacts prepared committedAt =
     \<lparr>opn_ID = oid, opn_Plan = plan_id plan, opn_OpportunityID = lo_ID (plan_opportunity plan), opn_ConfigHash = xc_ConfigHash e,
      opn_Steps = map (\<lambda>(leg, p). \<lparr>os_Operation = oid, os_Leg = leg, os_Identity = pt_Identity p,
          os_Allocation = art_Allocation (the (map_of artifacts (leg_ID leg))),
          os_Technical = StatePrepared, os_Economic = EconomicReserved\<rparr>) (zip (plan_legs plan) prepared),
      opn_Economics = EconomicsFromOpportunity (plan_opportunity plan), opn_Technical = StateCommitted,
      opn_Economic = EconomicReserved, opn_CreatedAt = plan_createdAt plan, opn_CommittedAt = committedAt\<rparr>"

definition artifact_expired :: "duration \<Rightarrow> gotime \<Rightarrow> Artifact \<Rightarrow> bool" where
  "artifact_expired maxAge now a =
     (let age = TimeSub now (art_BuiltAt a) in IsZeroTime (art_BuiltAt a) \<or> age < 0 \<or> age > maxAge)"

text \<open>The phase of \<open>CommitPrepared\<close>; the flag says whether the commit succeeded.\<close>

definition commit_phase ::
  "'w ExecutorConfig \<Rightarrow> nat list \<Rightarrow> OperationID \<Rightarrow> SagaPlan \<Rightarrow> (StepID \<times> Artifact) list \<Rightarrow> Reservation \<Rightarrow>
   PreparedTransaction list \<Rightarrow> ExecutionResult \<Rightarrow> 'w Live \<Rightarrow> (outcome \<times> bool) option \<times> 'w Live" where
  "commit_phase e order oid plan artifacts reservation prepared result s =
     (case on_world (xc_Clock e) s of (now, s1) \<Rightarrow>
      if list_ex (\<lambda>(_, a). artifact_expired (xc_ArtifactMaxAge e) now a) artifacts
      then (Some ((result, Some LiveTooOld), False), s1)
      else
        (case on_world (xc_Clock e) s1 of (committedAt, s2) \<Rightarrow>
         let operation = build_operation e oid plan artifacts prepared committedAt in
         case ValidatePrepared operation of
           Some err \<Rightarrow> (Some ((result, Some (LivePrepared err)), False), s2)
         | None \<Rightarrow>
           (case on_world (xc_Clock e) s2 of (persistStarted, s3) \<Rightarrow>
            case store_call (LvCommitted operation reservation) (op_CommitPrepared (xc_Store e) operation reservation) s3 of
              (Some err, s4) \<Rightarrow> (Some ((result, Some (LivePort err)), False), s4)
            | (None, s4) \<Rightarrow>
              (case elapsed e persistStarted s4 of (took, s5) \<Rightarrow>
               case broadcast_phase e order oid (plan_legs plan) prepared operation
                      (result\<lparr>er_Timing := (er_Timing result)\<lparr>et_Persistence := took\<rparr>\<rparr>) s5 of
                 (None, s6) \<Rightarrow> (None, s6)
               | (Some out, s6) \<Rightarrow> (Some (out, True), s6)))))"

fun first_failure :: "('e, 'a) result list \<Rightarrow> 'e option" where
  "first_failure [] = None"
| "first_failure (Inl err # rest) = Some err"
| "first_failure (Inr _ # rest) = first_failure rest"

definition prepare_phase ::
  "'w ExecutorConfig \<Rightarrow> nat list \<Rightarrow> nat list \<Rightarrow> OperationID \<Rightarrow> SagaPlan \<Rightarrow> (StepID \<times> Artifact) list \<Rightarrow> Reservation \<Rightarrow>
   ExecutionResult \<Rightarrow> 'w Live \<Rightarrow> (outcome \<times> bool) option \<times> 'w Live" where
  "prepare_phase e preparing broadcasting oid plan artifacts reservation result s =
     (case on_world (xc_Clock e) s of (prepareStarted, s1) \<Rightarrow>
      case run_group (prepare_leg e artifacts (plan_legs plan)) preparing s1 of
        (None, s2) \<Rightarrow> (None, s2)
      | (Some m, s2) \<Rightarrow>
          let rs = group_results m (length (plan_legs plan)) in
          case elapsed e prepareStarted s2 of (took, s3) \<Rightarrow>
          let result' = result\<lparr>er_Timing := (er_Timing result)\<lparr>et_Preparation := took\<rparr>\<rparr> in
          case first_failure rs of
            Some err \<Rightarrow> (Some ((result', Some (LivePort err)), False), s3)
          | None \<Rightarrow> commit_phase e broadcasting oid plan artifacts reservation (map projr rs) result' s3)"

definition input_requirement :: "Leg \<Rightarrow> Requirement" where
  "input_requirement leg =
     \<lparr>req_Key = \<lparr>key_Chain = leg_Chain leg, key_Account = leg_Account leg, key_Token = amt_token (leg_Input leg)\<rparr>,
      req_Amount = leg_Input leg\<rparr>"

definition leg_requirement :: "(StepID \<times> Artifact) list \<Rightarrow> Leg \<Rightarrow> (live_saga_error, Requirement) result" where
  "leg_requirement artifacts leg =
     (case map_of artifacts (leg_ID leg) of
        None \<Rightarrow> Inl (LiveArtifactMissing (leg_ID leg))
      | Some a \<Rightarrow>
          if leg_ID (art_Leg a) \<noteq> leg_ID leg then Inl (LiveArtifactMissing (leg_ID leg))
          else Inr (input_requirement leg))"

definition leg_requirements :: "(StepID \<times> Artifact) list \<Rightarrow> Leg list \<Rightarrow> (live_saga_error, Requirement list) result" where
  "leg_requirements artifacts legs =
     foldM (\<lambda>acc leg. rbind (leg_requirement artifacts leg) (\<lambda>q. Inr (acc @ [q]))) [] legs"

text \<open>The reservation and its deferred release.\<close>

definition reserve_phase ::
  "'w ExecutorConfig \<Rightarrow> nat list \<Rightarrow> nat list \<Rightarrow> OperationID \<Rightarrow> SagaPlan \<Rightarrow> (StepID \<times> Artifact) list \<Rightarrow> 'w Live \<Rightarrow>
   (outcome \<times> bool) option \<times> 'w Live" where
  "reserve_phase e preparing broadcasting oid plan artifacts s =
     (if oid = [] \<or> length artifacts \<noteq> 2 then (Some ((no_execution_result, Some LiveArguments), False), s)
      else case leg_requirements artifacts (plan_legs plan) of
        Inl err \<Rightarrow> (Some ((no_execution_result, Some err), False), s)
      | Inr reqs \<Rightarrow>
        (case on_world (xc_Clock e) s of (reserveStarted, s1) \<Rightarrow>
         case Reserve oid oid reqs (lv_inventory s1) of (res, i) \<Rightarrow>
         case elapsed e reserveStarted (s1\<lparr>lv_inventory := i\<rparr>) of (took, s2) \<Rightarrow>
         let result = no_execution_result\<lparr>er_Timing := (er_Timing no_execution_result)\<lparr>et_Reservation := took\<rparr>\<rparr> in
         case res of
           Inl err \<Rightarrow> (Some ((result, Some (LiveInventory err)), False), s2)
         | Inr reservation \<Rightarrow>
           (case prepare_phase e preparing broadcasting oid plan artifacts reservation result s2 of
              (None, s3) \<Rightarrow> (None, s3)
            | (Some (out, committed), s3) \<Rightarrow>
                (Some (out, committed), if committed then s3 else s3\<lparr>lv_inventory := snd (Release oid (lv_inventory s3))\<rparr>))))"

definition ExecuteLive ::
  "'w ExecutorConfig \<Rightarrow> nat list \<Rightarrow> nat list \<Rightarrow> OperationID \<Rightarrow> SagaPlan \<Rightarrow> (StepID \<times> Artifact) list \<Rightarrow> 'w Live \<Rightarrow>
   outcome option \<times> 'w Live" where
  "ExecuteLive e preparing broadcasting oid plan artifacts s =
     (case TryBegin oid (lv_gate s) of
        (False, _) \<Rightarrow> (Some (no_execution_result, Some LiveInFlight), s)
      | (True, g) \<Rightarrow>
          (case reserve_phase e preparing broadcasting oid plan artifacts (s\<lparr>lv_gate := g\<rparr>) of
             (None, s') \<Rightarrow> (None, s')
           | (Some (out, committed), s') \<Rightarrow>
               (Some out, if committed then s' else s'\<lparr>lv_gate := snd (GateComplete oid (lv_gate s'))\<rparr>)))"

definition warm_manager :: "'w ExecutorConfig \<Rightarrow> nat \<Rightarrow> 'w Live \<Rightarrow> PortError option option \<times> 'w Live" where
  "warm_manager e i s = (case on_world (tm_Warm (snd (xc_Managers e ! i))) s of (r, s') \<Rightarrow> (Some r, s'))"

text \<open>\<open>Warm\<close> returns the error that reached the channel first.\<close>

definition first_some :: "('r \<Rightarrow> 'e option) \<Rightarrow> (nat \<rightharpoonup> 'r) \<Rightarrow> nat list \<Rightarrow> 'e option" where
  "first_some f m order = first_error (\<lambda>i. Option.bind (m i) f) order"

definition Warm :: "'w ExecutorConfig \<Rightarrow> nat list \<Rightarrow> 'w Live \<Rightarrow> PortError option option \<times> 'w Live" where
  "Warm e order s =
     (case run_group (warm_manager e) order s of
        (None, s') \<Rightarrow> (None, s')
      | (Some m, s') \<Rightarrow> (Some (first_some (\<lambda>r. r) m order), s'))"

section \<open>Frame lemmas\<close>

text \<open>What a phase may leave behind: it only appends to the trace and keeps gate and inventory.\<close>

definition extends :: "live_event list \<Rightarrow> 'w Live \<Rightarrow> 'w Live \<Rightarrow> bool" where
  "extends evs s s' \<longleftrightarrow> lv_trace s' = lv_trace s @ evs \<and> lv_gate s' = lv_gate s \<and> lv_inventory s' = lv_inventory s"

text \<open>The orders in which the goroutines of a group of \<open>n\<close> can take effect.\<close>

definition is_schedule :: "nat \<Rightarrow> nat list \<Rightarrow> bool" where
  "is_schedule n order \<longleftrightarrow> distinct order \<and> set order = {0..<n}"

fun bookkeeping :: "live_event \<Rightarrow> bool" where
  "bookkeeping (LvCommitted _ _) = False"
| "bookkeeping (LvBroadcast _) = False"
| "bookkeeping _ = True"

lemma extends_refl: "extends [] s s"
  by (simp add: extends_def)

lemma extends_trans: "extends xs s t \<Longrightarrow> extends ys t u \<Longrightarrow> extends (xs @ ys) s u"
  by (simp add: extends_def)

lemma extends_quiet: "extends [] s t \<Longrightarrow> extends xs t u \<Longrightarrow> extends xs s u"
  by (simp add: extends_def)

lemma on_world_extends: "on_world f s = (r, s') \<Longrightarrow> extends [] s s'"
  by (auto simp: on_world_def extends_def split: prod.splits)

lemma elapsed_extends: "elapsed e t s = (r, s') \<Longrightarrow> extends [] s s'"
  by (auto simp: elapsed_def intro: on_world_extends split: prod.splits)

lemma log_extends: "extends [ev] s (log_event ev s)"
  by (simp add: extends_def log_event_def)

lemma store_call_extends:
  assumes "store_call ev f s = (r, s')"
  shows "extends (if r = None then [ev] else []) s s'"
proof -
  obtain r1 s1 where c: "on_world f s = (r1, s1)" by (cases "on_world f s")
  from on_world_extends [OF c] log_extends [of ev s1] assms c show ?thesis
    by (cases r1) (auto simp: store_call_def dest: extends_quiet)
qed

lemma prepare_leg_extends: "prepare_leg e artifacts legs i s = (r, s') \<Longrightarrow> extends [] s s'"
  by (auto simp: prepare_leg_def Let_def intro: on_world_extends extends_refl split: option.splits prod.splits)

lemma broadcast_leg_extends:
  assumes "broadcast_leg e prepared i s = (Some r, s')"
  shows "extends [LvBroadcast (prepared ! i)] s s'"
proof -
  obtain m where "map_of (xc_Managers e) (leg_Account (pt_Leg (prepared ! i))) = Some m"
    using assms by (auto simp: broadcast_leg_def Let_def split: option.splits)
  with assms have "on_world (tm_Broadcast m (prepared ! i)) (log_event (LvBroadcast (prepared ! i)) s) = (r, s')"
    by (auto simp: broadcast_leg_def Let_def split: prod.splits)
  from extends_trans [OF log_extends on_world_extends [OF this]] show ?thesis by simp
qed

lemma run_group_extends:
  assumes "\<And>i s r s'. i \<in> set order \<Longrightarrow> f i s = (Some r, s') \<Longrightarrow> extends (evs i) s s'"
    and "run_group f order s = (Some m, s')"
  shows "extends (concat (map evs order)) s s' \<and> dom m = set order"
  using assms
proof (induction order arbitrary: s m)
  case Nil
  then show ?case by (simp add: extends_refl)
next
  case (Cons i rest)
  from Cons.prems(2) obtain r s1 m1 where step: "f i s = (Some r, s1)" and
    rest: "run_group f rest s1 = (Some m1, s')" and m: "m = m1(i \<mapsto> r)"
    by (auto split: prod.splits option.splits)
  from Cons.IH [OF _ rest] Cons.prems(1) have "extends (concat (map evs rest)) s1 s' \<and> dom m1 = set rest" by simp
  with extends_trans [OF Cons.prems(1) [OF _ step]] show ?case by (simp add: m dom_fun_upd del: fun_upd_apply)
qed

lemma record_broadcasts_extends:
  assumes "record_broadcasts e oid rs s = (r, s')"
  shows "\<exists>evs. extends evs s s' \<and> list_all bookkeeping evs \<and>
    (r = None \<longrightarrow> evs = map (\<lambda>(leg, b, err). LvRecorded oid (leg_ID leg) (broadcast_state (disposition_of b err))) rs)"
  using assms
proof (induction rs arbitrary: s)
  case Nil
  then show ?case by (auto intro!: exI [of _ "[]"] simp: extends_refl)
next
  case (Cons x rs)
  obtain leg b err where x: "x = (leg, b, err)" by (cases x)
  let ?ev = "LvRecorded oid (leg_ID leg) (broadcast_state (disposition_of b err))"
  obtain r1 s1 where c: "store_call ?ev (op_RecordBroadcast (xc_Store e) oid (leg_ID leg)
      (broadcast_state (disposition_of b err)) (broadcast_detail (disposition_of b err) b err)) s = (r1, s1)"
    by (cases "store_call ?ev (op_RecordBroadcast (xc_Store e) oid (leg_ID leg)
      (broadcast_state (disposition_of b err)) (broadcast_detail (disposition_of b err) b err)) s")
  note ext = store_call_extends [OF c]
  show ?case
  proof (cases r1)
    case (Some y)
    then show ?thesis using Cons.prems c ext by (intro exI [of _ "[]"]) (auto simp: x Let_def)
  next
    case None
    then have "record_broadcasts e oid rs s1 = (r, s')" using Cons.prems c by (simp add: x Let_def)
    from Cons.IH [OF this] obtain evs where "extends evs s1 s'" "list_all bookkeeping evs"
      "r = None \<longrightarrow> evs = map (\<lambda>(leg, b, err). LvRecorded oid (leg_ID leg) (broadcast_state (disposition_of b err))) rs" by blast
    then show ?thesis using extends_trans [of "[?ev]" s s1 evs s'] ext None
      by (intro exI [of _ "?ev # evs"]) (simp add: x)
  qed
qed

lemma count_all: "count_disposition d rs = length rs \<longleftrightarrow> (\<forall>(r, err) \<in> set rs. disposition_of r err = d)"
proof (cases "\<forall>(r, err) \<in> set rs. disposition_of r err = d")
  case True
  then have "filter (\<lambda>(r, err). disposition_of r err = d) rs = rs" by (simp add: filter_id_conv)
  then show ?thesis using True by (simp add: count_disposition_def)
next
  case False
  then obtain x where "x \<in> set rs" "\<not> (case x of (r, err) \<Rightarrow> disposition_of r err = d)" by blast
  then have "count_disposition d rs < length rs" unfolding count_disposition_def by (rule length_filter_less)
  then show ?thesis using False by auto
qed

lemma count_sum:
  "d \<noteq> d' \<Longrightarrow> count_disposition d rs + count_disposition d' rs \<le> length rs"
  by (induction rs) (auto simp: count_disposition_def)

section \<open>Outcomes\<close>

lemma conclude_cases:
  assumes run: "conclude_execution e oid result (length rs) rs s = ((result', err), s')"
    and ok: "inv_ok (lv_inventory s)" and held: "reservations (lv_inventory s) oid = Some r" and gate: "lv_gate s = oid"
    and n: "rs \<noteq> []" "oid \<noteq> []"
  obtains (none) "err = Some LiveNoExecution" "lv_trace s' = lv_trace s @ [LvNoExecution oid]"
      "\<forall>(b, x) \<in> set rs. disposition_of b x = BroadcastRejected"
      "lv_inventory s' = snd (Release oid (lv_inventory s))" "lv_gate s' = []"
  | (accepted) "err = None" "s' = s" "\<forall>(b, x) \<in> set rs. disposition_of b x = BroadcastAccepted"
  | (retained) evs where "err \<noteq> None" "err \<noteq> Some LiveNoExecution" "extends evs s s'" "list_all bookkeeping evs"
      "\<not> (\<forall>(b, x) \<in> set rs. disposition_of b x = BroadcastAccepted)"
proof -
  let ?a = "count_disposition BroadcastAccepted rs" and ?r = "count_disposition BroadcastRejected rs"
  have le: "?a + ?r \<le> length rs" by (rule count_sum) simp
  have rel: "fst (Release oid i) = None" if "inv_ok i" "reservations i oid = Some r" for i
    using Release_open [OF that] by simp
  consider (all) "?r = length rs" | (some) "?r \<noteq> length rs" "0 < ?r \<or> 0 < length rs - ?a - ?r"
    | (fine) "?r = 0" "?a = length rs" using le by linarith
  then show ?thesis
  proof cases
    case all
    have na: "\<not> (\<forall>(b, x) \<in> set rs. disposition_of b x = BroadcastAccepted)"
      using all le n(1) unfolding count_all [symmetric] by auto
    obtain x s1 where c: "store_call (LvNoExecution oid)
        (op_MarkNoExecution (xc_Store e) oid ''both broadcasts were conclusively rejected'') s = (x, s1)"
      by (metis surj_pair)
    note ext = store_call_extends [OF c]
    show ?thesis
    proof (cases x)
      case None
      then have keep: "lv_inventory s1 = lv_inventory s" "lv_gate s1 = oid" "lv_trace s1 = lv_trace s @ [LvNoExecution oid]"
        using ext gate by (simp_all add: extends_def)
      obtain i' where rl: "Release oid (lv_inventory s) = (None, i')" using rel [OF ok held] by (metis prod.collapse)
      show ?thesis using run c None all n(2) keep rl
        by (intro none) (auto simp: conclude_execution_def Let_def GateComplete_def count_all)
    next
      case (Some y)
      then show ?thesis using run c all ext na
        by (intro retained [of "[]"]) (auto simp: conclude_execution_def Let_def)
    qed
  next
    case some
    have na: "\<not> (\<forall>(b, x) \<in> set rs. disposition_of b x = BroadcastAccepted)"
      using some le unfolding count_all [symmetric] by auto
    obtain x s1 where c: "store_call (LvManual oid) (op_MarkManualIntervention (xc_Store e) oid
        (reconcile_reason ?a ?r (length rs - ?a - ?r))) s = (x, s1)" by (metis surj_pair)
    note ext = store_call_extends [OF c]
    show ?thesis using run c some ext na
      by (intro retained [of "if x = None then [LvManual oid] else []"])
        (auto simp: conclude_execution_def Let_def split: option.splits)
  next
    case fine
    then show ?thesis using run n by (intro accepted) (auto simp: conclude_execution_def Let_def count_all [symmetric])
  qed
qed

text \<open>
  What the store acknowledged after the broadcasts: every leg as accepted when there is no
  error, every leg as rejected and then the whole operation as not executed when that is the error.
\<close>

definition journal_after :: "OperationID \<Rightarrow> Leg list \<Rightarrow> live_saga_error option \<Rightarrow> live_event list \<Rightarrow> bool" where
  "journal_after oid legs err evs \<longleftrightarrow> list_all bookkeeping evs \<and>
     (err = None \<longrightarrow> evs = map (\<lambda>leg. LvRecorded oid (leg_ID leg) StateBroadcastPossible) legs) \<and>
     (err = Some LiveNoExecution \<longrightarrow>
        evs = map (\<lambda>leg. LvRecorded oid (leg_ID leg) StateBroadcastRejected) legs @ [LvNoExecution oid])"

lemma recorded_legs:
  assumes "length rs = length legs" and "\<forall>(b, x) \<in> set rs. disposition_of b x = d"
  shows "map (\<lambda>(leg, b, err). LvRecorded oid (leg_ID leg) (broadcast_state (disposition_of b err))) (zip legs rs) =
    map (\<lambda>leg. LvRecorded oid (leg_ID leg) (broadcast_state d)) legs"
  using assms by (induction rs legs rule: list_induct2) auto

lemma broadcast_states: "broadcast_state BroadcastAccepted = StateBroadcastPossible"
  "broadcast_state BroadcastRejected = StateBroadcastRejected"
  by (simp_all add: broadcast_state_def)

lemma concat_singletons: "concat (map (\<lambda>i. [f i]) xs) = map f xs"
  by (induction xs) simp_all

lemma broadcast_phase_outcome:
  assumes run: "broadcast_phase e order oid legs prepared operation result s = (Some (result', err), s')"
    and ok: "inv_ok (lv_inventory s)" and held: "reservations (lv_inventory s) oid = Some r"
    and gate: "lv_gate s = oid" "oid \<noteq> []" and legs: "length prepared = length legs" "legs \<noteq> []"
  shows "\<exists>evs. lv_trace s' = lv_trace s @ map (\<lambda>i. LvBroadcast (prepared ! i)) order @ evs \<and> journal_after oid legs err evs \<and>
    (if err = Some LiveNoExecution then lv_inventory s' = snd (Release oid (lv_inventory s)) \<and> lv_gate s' = []
     else lv_inventory s' = lv_inventory s \<and> lv_gate s' = oid)"
proof -
  from run obtain t0 s1 t1 s2 m s3 took s4 where steps: "on_world (xc_Clock e) s = (t0, s1)" "on_world (xc_Clock e) s1 = (t1, s2)"
      "run_group (broadcast_leg e prepared) order s2 = (Some m, s3)" "elapsed e t1 s3 = (took, s4)"
    by (auto simp: broadcast_phase_def Let_def split: prod.splits option.splits)
  define rs where "rs = group_results m (length prepared)"
  have len: "length rs = length legs" by (simp add: rs_def group_results_def legs(1))
  define x where "x = fst (record_broadcasts e oid (zip legs rs) s4)"
  define s5 where "s5 = snd (record_broadcasts e oid (zip legs rs) s4)"
  have rec: "record_broadcasts e oid (zip legs rs) s4 = (x, s5)" by (simp add: x_def s5_def)
  let ?result = "result\<lparr>er_Operation := Some operation, er_Broadcasts := map fst rs,
                er_Timing := (er_Timing result)\<lparr>et_CommitToBroadcast := elapsedAt t1 t0, et_Broadcast := took\<rparr>,
                er_ReconciliationRequired := True\<rparr>"
  have rest: "(case x of Some err \<Rightarrow> (Some (?result, Some (LivePort err)), s5)
      | None \<Rightarrow> (case conclude_execution e oid ?result (length legs) rs s5 of (out, s6) \<Rightarrow> (Some out, s6))) = (Some (result', err), s')"
    using run by (simp add: broadcast_phase_def Let_def steps rs_def [symmetric] rec split: option.splits)
  have "extends (concat (map (\<lambda>i. [LvBroadcast (prepared ! i)]) order)) s2 s3"
    by (rule conjunct1 [OF run_group_extends [OF _ steps(3)]]) (rule broadcast_leg_extends)
  then have e3: "extends (map (\<lambda>i. LvBroadcast (prepared ! i)) order) s s4"
    using on_world_extends [OF steps(1)] on_world_extends [OF steps(2)] elapsed_extends [OF steps(4)]
    by (simp add: extends_def concat_singletons)
  from record_broadcasts_extends [OF rec] obtain evs where e5: "extends evs s4 s5" "list_all bookkeeping evs"
      "x = None \<longrightarrow> evs = map (\<lambda>(leg, b, err). LvRecorded oid (leg_ID leg) (broadcast_state (disposition_of b err))) (zip legs rs)" by blast
  have keep: "lv_inventory s5 = lv_inventory s" "lv_gate s5 = oid"
    "lv_trace s5 = lv_trace s @ map (\<lambda>i. LvBroadcast (prepared ! i)) order @ evs"
    using extends_trans [OF e3 e5(1)] gate by (simp_all add: extends_def)
  show ?thesis
  proof (cases x)
    case (Some y)
    then show ?thesis using rest keep e5(2) by (auto simp: journal_after_def)
  next
    case None
    then have c: "conclude_execution e oid ?result (length rs) rs s5 = ((result', err), s')"
      using rest len by (auto split: prod.splits)
    have i: "inv_ok (lv_inventory s5)" "reservations (lv_inventory s5) oid = Some r" "rs \<noteq> []"
      using ok held keep legs len by auto
    from c i(1,2) keep(2) i(3) gate(2) show ?thesis
    proof (cases rule: conclude_cases)
      case none
      then show ?thesis using keep e5(2,3) None recorded_legs [OF len none(3)]
        by (intro exI [of _ "evs @ [LvNoExecution oid]"]) (simp add: journal_after_def broadcast_states)
    next
      case accepted
      then show ?thesis using keep e5(2,3) None recorded_legs [OF len accepted(3)]
        by (intro exI [of _ evs]) (simp add: journal_after_def broadcast_states)
    next
      case (retained later)
      have "journal_after oid legs err (evs @ later)" using retained(1,2,4) e5(2) unfolding journal_after_def by auto
      then show ?thesis using retained(2,3) keep by (intro exI [of _ "evs @ later"]) (simp add: extends_def)
    qed
  qed
qed

text \<open>
  The phases between reservation and commit: nothing but the clock and the managers moves
  before the commit, and the operation is durable before the first broadcast.
\<close>

definition durable_run :: "OperationID \<Rightarrow> Leg list \<Rightarrow> Reservation \<Rightarrow> nat list \<Rightarrow> live_saga_error option \<Rightarrow> 'w Live \<Rightarrow> 'w Live \<Rightarrow> bool" where
  "durable_run oid legs reservation order err s s' \<longleftrightarrow>
     (\<exists>operation prepared evs.
        lv_trace s' = lv_trace s @ LvCommitted operation reservation # map (\<lambda>i. LvBroadcast (prepared ! i)) order @ evs \<and>
        opn_ID operation = oid \<and> map os_Leg (opn_Steps operation) = legs \<and>
        map os_Identity (opn_Steps operation) = map pt_Identity prepared \<and> ValidatePrepared operation = None \<and>
        journal_after oid legs err evs \<and>
        (if err = Some LiveNoExecution then lv_inventory s' = snd (Release oid (lv_inventory s)) \<and> lv_gate s' = []
         else lv_inventory s' = lv_inventory s \<and> lv_gate s' = oid))"

lemma durable_run_cong:
  assumes "lv_trace t = lv_trace s" and "lv_inventory t = lv_inventory s"
  shows "durable_run oid legs r order err t u = durable_run oid legs r order err s u"
  unfolding durable_run_def assms ..

lemma durable_run_quiet:
  "extends [] s t \<Longrightarrow> durable_run oid legs r order err t u \<Longrightarrow> durable_run oid legs r order err s u"
  using durable_run_cong [of t s] by (auto simp: extends_def)

lemma build_operation_steps:
  assumes "length prepared = length (plan_legs plan)"
  shows "map os_Leg (opn_Steps (build_operation e oid plan artifacts prepared t)) = plan_legs plan"
    "map os_Identity (opn_Steps (build_operation e oid plan artifacts prepared t)) = map pt_Identity prepared"
    "opn_ID (build_operation e oid plan artifacts prepared t) = oid"
proof -
  show "opn_ID (build_operation e oid plan artifacts prepared t) = oid" by (simp add: build_operation_def)
  show "map os_Leg (opn_Steps (build_operation e oid plan artifacts prepared t)) = plan_legs plan"
    using assms by (intro nth_equalityI) (simp_all add: build_operation_def)
  show "map os_Identity (opn_Steps (build_operation e oid plan artifacts prepared t)) = map pt_Identity prepared"
    using assms by (intro nth_equalityI) (simp_all add: build_operation_def)
qed

lemma commit_phase_outcome:
  assumes run: "commit_phase e order oid plan artifacts r prepared result s = (Some ((result', err), committed), s')"
    and ok: "inv_ok (lv_inventory s)" and held: "reservations (lv_inventory s) oid = Some r"
    and gate: "lv_gate s = oid" "oid \<noteq> []" and legs: "length prepared = length (plan_legs plan)" "plan_legs plan \<noteq> []"
  shows "if committed then durable_run oid (plan_legs plan) r order err s s' else err \<noteq> None \<and> extends [] s s'"
proof -
  obtain now s1 where c1: "on_world (xc_Clock e) s = (now, s1)" by (metis surj_pair)
  obtain t s2 where c2: "on_world (xc_Clock e) s1 = (t, s2)" by (metis surj_pair)
  obtain t' s3 where c3: "on_world (xc_Clock e) s2 = (t', s3)" by (metis surj_pair)
  let ?operation = "build_operation e oid plan artifacts prepared t"
  obtain x s4 where c4: "store_call (LvCommitted ?operation r) (op_CommitPrepared (xc_Store e) ?operation r) s3 = (x, s4)"
    by (metis surj_pair)
  obtain took s5 where c5: "elapsed e t' s4 = (took, s5)" by (metis surj_pair)
  have q1: "extends [] s s1" by (rule on_world_extends [OF c1])
  have q2: "extends [] s s2" by (rule extends_quiet [OF q1 on_world_extends [OF c2]])
  have q3: "extends [] s s3" by (rule extends_quiet [OF q2 on_world_extends [OF c3]])
  have q4: "extends (if x = None then [LvCommitted ?operation r] else []) s s4"
    by (rule extends_quiet [OF q3 store_call_extends [OF c4]])
  consider (old) "list_ex (\<lambda>(_, a). artifact_expired (xc_ArtifactMaxAge e) now a) artifacts"
    | (invalid) y where "ValidatePrepared ?operation = Some y"
        "\<not> list_ex (\<lambda>(_, a). artifact_expired (xc_ArtifactMaxAge e) now a) artifacts"
    | (refused) y where "ValidatePrepared ?operation = None" "x = Some y"
        "\<not> list_ex (\<lambda>(_, a). artifact_expired (xc_ArtifactMaxAge e) now a) artifacts"
    | (durable) "ValidatePrepared ?operation = None" "x = None"
        "\<not> list_ex (\<lambda>(_, a). artifact_expired (xc_ArtifactMaxAge e) now a) artifacts"
    by (metis option.exhaust)
  then show ?thesis
  proof cases
    case durable
    let ?result = "result\<lparr>er_Timing := (er_Timing result)\<lparr>et_Persistence := took\<rparr>\<rparr>"
    from durable q4 elapsed_extends [OF c5] have q5: "extends [LvCommitted ?operation r] s s5" by (simp add: extends_def)
    then have k: "inv_ok (lv_inventory s5)" "reservations (lv_inventory s5) oid = Some r" "lv_gate s5 = oid"
      using ok held gate by (simp_all add: extends_def)
    have b: "broadcast_phase e order oid (plan_legs plan) prepared ?operation ?result s5 = (Some (result', err), s')" and c: committed
      using run durable by (auto simp: commit_phase_def Let_def c1 c2 c3 c4 c5 split: prod.splits option.splits)
    from broadcast_phase_outcome [OF b k gate(2) legs] q5 c show ?thesis
      unfolding durable_run_def
      by (auto simp: extends_def build_operation_steps [OF legs(1)] durable(1) intro!: exI [of _ ?operation] exI [of _ prepared])
  qed (use run q1 q2 q4 in \<open>auto simp: commit_phase_def Let_def c1 c2 c3 c4\<close>)
qed

lemma first_failure_None: "first_failure rs = None \<longleftrightarrow> (\<forall>r \<in> set rs. is_ok r)"
  by (induction rs rule: first_failure.induct) auto

lemma prepare_phase_outcome:
  assumes run: "prepare_phase e preparing order oid plan artifacts r result s = (Some ((result', err), committed), s')"
    and ok: "inv_ok (lv_inventory s)" and held: "reservations (lv_inventory s) oid = Some r"
    and gate: "lv_gate s = oid" "oid \<noteq> []" and legs: "plan_legs plan \<noteq> []"
  shows "if committed then durable_run oid (plan_legs plan) r order err s s' else err \<noteq> None \<and> extends [] s s'"
proof -
  from run obtain t s1 m s2 took s3 where steps: "on_world (xc_Clock e) s = (t, s1)"
      "run_group (prepare_leg e artifacts (plan_legs plan)) preparing s1 = (Some m, s2)" "elapsed e t s2 = (took, s3)"
    by (auto simp: prepare_phase_def Let_def split: prod.splits option.splits)
  have "extends (concat (map (\<lambda>i. []) preparing)) s1 s2"
    by (rule conjunct1 [OF run_group_extends [OF _ steps(2)]]) (rule prepare_leg_extends)
  then have q: "extends [] s s3"
    using on_world_extends [OF steps(1)] elapsed_extends [OF steps(3)] by (simp add: extends_def)
  define rs where "rs = group_results m (length (plan_legs plan))"
  let ?result = "result\<lparr>er_Timing := (er_Timing result)\<lparr>et_Preparation := took\<rparr>\<rparr>"
  show ?thesis
  proof (cases "first_failure rs")
    case (Some x)
    then show ?thesis using run q by (auto simp: prepare_phase_def Let_def steps rs_def [symmetric])
  next
    case None
    then have c: "commit_phase e order oid plan artifacts r (map projr rs) ?result s3 = (Some ((result', err), committed), s')"
      using run by (simp add: prepare_phase_def Let_def steps rs_def [symmetric])
    have len: "length (map projr rs) = length (plan_legs plan)" by (simp add: rs_def group_results_def)
    have k: "inv_ok (lv_inventory s3)" "reservations (lv_inventory s3) oid = Some r" "lv_gate s3 = oid"
      using q ok held gate by (simp_all add: extends_def)
    from commit_phase_outcome [OF c k gate(2) len legs] show ?thesis
      using durable_run_quiet [OF q] extends_quiet [OF q] by (auto split: if_splits)
  qed
qed

lemma leg_requirement_Inr: "leg_requirement artifacts leg = Inr q \<Longrightarrow> q = input_requirement leg"
  by (auto simp: leg_requirement_def split: option.splits if_splits)

lemma leg_requirements_Inr:
  assumes "leg_requirements artifacts legs = Inr reqs"
  shows "reqs = map input_requirement legs"
proof -
  have "foldM (\<lambda>acc leg. rbind (leg_requirement artifacts leg) (\<lambda>q. Inr (acc @ [q]))) acc legs = Inr reqs \<Longrightarrow>
    reqs = acc @ map input_requirement legs" for acc
  proof (induction legs arbitrary: acc)
    case (Cons leg legs)
    from Cons.prems obtain q where q: "leg_requirement artifacts leg = Inr q" and
      rest: "foldM (\<lambda>acc leg. rbind (leg_requirement artifacts leg) (\<lambda>q. Inr (acc @ [q]))) (acc @ [q]) legs = Inr reqs"
      by (auto simp: rbind_def split: sum.splits)
    from Cons.IH [OF rest] leg_requirement_Inr [OF q] show ?case by simp
  qed simp
  from this [of "[]"] assms show ?thesis by (simp add: leg_requirements_def)
qed

text \<open>The whole execution, over the contract of the ledger.\<close>

lemma reserve_phase_outcome:
  assumes run: "reserve_phase e preparing order oid plan artifacts s = (Some ((result, err), committed), s')"
    and ok: "inv_ok (lv_inventory s)" and fresh: "reservations (lv_inventory s) oid = None"
    and gate: "lv_gate s = oid" "oid \<noteq> []" and wf: "\<forall>leg \<in> set (plan_legs plan). 0 \<le> amt_units (leg_Input leg)"
  shows "if committed
    then \<exists>r i'. Reserve oid oid (map input_requirement (plan_legs plan)) (lv_inventory s) = (Inr r, i') \<and>
      durable_run oid (plan_legs plan) r order err (s\<lparr>lv_inventory := i'\<rparr>) s'
    else err \<noteq> None \<and> extends [] s s'"
proof (cases "oid = [] \<or> length artifacts \<noteq> 2 \<or> (\<exists>x. leg_requirements artifacts (plan_legs plan) = Inl x)")
  case True
  then show ?thesis using run gate
    by (auto simp: reserve_phase_def extends_refl leg_requirements_def split: if_splits sum.splits)
next
  case False
  then obtain reqs where reqs: "leg_requirements artifacts (plan_legs plan) = Inr reqs" by (metis sum.exhaust)
  note reqs_eq = leg_requirements_Inr [OF reqs]
  have rwf: "reqs_wf reqs" using wf by (auto simp: reqs_wf_def reqs_eq input_requirement_def)
  obtain t s1 where c1: "on_world (xc_Clock e) s = (t, s1)" by (metis surj_pair)
  obtain res i where c2: "Reserve oid oid reqs (lv_inventory s1) = (res, i)" by (metis surj_pair)
  obtain took s2 where c3: "elapsed e t (s1\<lparr>lv_inventory := i\<rparr>) = (took, s2)" by (metis surj_pair)
  have k1: "lv_inventory s1 = lv_inventory s" "lv_gate s1 = oid" "lv_trace s1 = lv_trace s"
    using on_world_extends [OF c1] gate by (simp_all add: extends_def)
  have k2: "lv_inventory s2 = i" "lv_gate s2 = oid" "lv_trace s2 = lv_trace s"
    using elapsed_extends [OF c3] k1 by (simp_all add: extends_def)
  note rsv = c2 [unfolded k1(1)]
  have ok2: "inv_ok (lv_inventory s2)" using ledger.reserve_good [OF ok rwf rsv] k2 by simp
  let ?result = "no_execution_result\<lparr>er_Timing := (er_Timing no_execution_result)\<lparr>et_Reservation := took\<rparr>\<rparr>"
  show ?thesis
  proof (cases res)
    case (Inl x)
    then have "err = Some (LiveInventory x)" "\<not> committed" "s' = s2"
      using run False by (auto simp: reserve_phase_def reqs c1 c2 c3 Let_def)
    moreover have "i = lv_inventory s" using ledger.reserve_refused [OF ok] rsv Inl by blast
    ultimately show ?thesis using k2 gate by (simp add: extends_def)
  next
    case (Inr r)
    have held: "reservations (lv_inventory s2) oid = Some r" using ledger.reserve_holds [OF ok] rsv Inr k2 by simp
    have undo: "Release oid i = (None, lv_inventory s)" using ledger.reserve_undo [OF ok rwf fresh] rsv Inr by simp
    from run False obtain out s3 where c4: "prepare_phase e preparing order oid plan artifacts r ?result s2 = (Some ((result, err), committed), s3)"
      and s': "s' = (if committed then s3 else s3\<lparr>lv_inventory := snd (Release oid (lv_inventory s3))\<rparr>)"
      by (auto simp: reserve_phase_def reqs c1 c2 c3 Inr Let_def split: prod.splits option.splits)
    have "reqs \<noteq> []" using rsv Inr by (auto simp: Reserve_def)
    then have ne: "plan_legs plan \<noteq> []" by (simp add: reqs_eq)
    note out = prepare_phase_outcome [OF c4 ok2 held k2(2) gate(2) ne]
    show ?thesis
    proof (cases committed)
      case True
      then have "durable_run oid (plan_legs plan) r order err s2 s'" using out s' by simp
      then have "durable_run oid (plan_legs plan) r order err (s\<lparr>lv_inventory := i\<rparr>) s'"
        by (subst durable_run_cong [of _ s2]) (simp_all add: k2)
      then show ?thesis using rsv Inr True unfolding reqs_eq by auto
    next
      case False
      then show ?thesis using out s' k2 undo gate by (auto simp: extends_def)
    qed
  qed
qed

lemma mset_schedule:
  assumes "distinct order" and "set order = {0..<length xs}"
  shows "mset (map ((!) xs) order) = mset xs"
proof -
  have "mset order = mset [0..<length xs]" using assms by (metis atLeastLessThan_upt distinct_upt set_eq_iff_mset_eq_distinct)
  then have "mset (map ((!) xs) order) = mset (map ((!) xs) [0..<length xs])" by (simp add: mset_map)
  then show ?thesis by (simp add: map_nth)
qed

section \<open>Properties\<close>

lemma execute_live_outcome:
  assumes "inv_reachable (lv_inventory s)" and "reservations (lv_inventory s) oid = None"
    and "\<forall>leg \<in> set (plan_legs plan). 0 \<le> amt_units (leg_Input leg)"
    and "is_schedule (length (plan_legs plan)) broadcasting"
    and "ExecuteLive e preparing broadcasting oid plan artifacts s = (Some (result, err), s')"
  shows "err \<noteq> None \<and> lv_trace s' = lv_trace s \<and> lv_inventory s' = lv_inventory s \<and> lv_gate s' = lv_gate s \<or>
    (\<exists>operation reservation i' prepared evs.
       lv_gate s = [] \<and>
       Reserve oid oid (map input_requirement (plan_legs plan)) (lv_inventory s) = (Inr reservation, i') \<and>
       opn_ID operation = oid \<and> map os_Leg (opn_Steps operation) = plan_legs plan \<and>
       map os_Identity (opn_Steps operation) = map pt_Identity prepared \<and> ValidatePrepared operation = None \<and>
       (\<exists>sent. mset sent = mset prepared \<and>
         lv_trace s' = lv_trace s @ LvCommitted operation reservation # map LvBroadcast sent @ evs) \<and>
       journal_after oid (plan_legs plan) err evs \<and>
       (if err = Some LiveNoExecution then lv_inventory s' = lv_inventory s \<and> lv_gate s' = []
        else lv_inventory s' = i' \<and> reservations i' oid = Some reservation \<and> lv_gate s' = oid))"
proof (cases "TryBegin oid (lv_gate s)")
  case (Pair began g)
  note ok = reachable_inv_ok [OF assms(1)]
  show ?thesis
  proof (cases began)
    case False
    then show ?thesis using assms(5) Pair by (auto simp: ExecuteLive_def)
  next
    case True
    then have g: "g = oid" "oid \<noteq> []" "lv_gate s = []" using Pair by (auto simp: TryBegin_def split: if_splits)
    let ?s = "s\<lparr>lv_gate := oid\<rparr>"
    from assms(5) Pair True obtain committed s1 where
      run: "reserve_phase e preparing broadcasting oid plan artifacts ?s = (Some ((result, err), committed), s1)"
      and s': "s' = (if committed then s1 else s1\<lparr>lv_gate := snd (GateComplete oid (lv_gate s1))\<rparr>)"
      by (auto simp: ExecuteLive_def g(1) split: prod.splits option.splits)
    have pre: "inv_ok (lv_inventory ?s)" "reservations (lv_inventory ?s) oid = None" "lv_gate ?s = oid"
      using ok assms(2) by simp_all
    note out = reserve_phase_outcome [OF run pre g(2) assms(3)]
    show ?thesis
    proof (cases committed)
      case False
      then show ?thesis using out s' g by (auto simp: extends_def GateComplete_def)
    next
      case True
      then obtain r i' where rsv: "Reserve oid oid (map input_requirement (plan_legs plan)) (lv_inventory s) = (Inr r, i')"
        and dr: "durable_run oid (plan_legs plan) r broadcasting err (?s\<lparr>lv_inventory := i'\<rparr>) s'"
        using out s' by auto
      have upd: "lv_trace (?s\<lparr>lv_inventory := i'\<rparr>) = lv_trace s" "lv_inventory (?s\<lparr>lv_inventory := i'\<rparr>) = i'" by simp_all
      from dr [unfolded durable_run_def upd] obtain operation prepared evs where d:
        "lv_trace s' = lv_trace s @ LvCommitted operation r # map (\<lambda>i. LvBroadcast (prepared ! i)) broadcasting @ evs"
        "opn_ID operation = oid" "map os_Leg (opn_Steps operation) = plan_legs plan"
        "map os_Identity (opn_Steps operation) = map pt_Identity prepared" "ValidatePrepared operation = None"
        "journal_after oid (plan_legs plan) err evs"
        "if err = Some LiveNoExecution then lv_inventory s' = snd (Release oid i') \<and> lv_gate s' = []
         else lv_inventory s' = i' \<and> lv_gate s' = oid"
        by blast
      have tr: "lv_trace s' = lv_trace s @ LvCommitted operation r # map LvBroadcast (map ((!) prepared) broadcasting) @ evs"
        using d(1) by (simp add: comp_def)
      have len: "length prepared = length (plan_legs plan)" using d(3,4) by (metis length_map)
      have sent: "mset (map ((!) prepared) broadcasting) = mset prepared"
        using assms(4) len by (intro mset_schedule) (simp_all add: is_schedule_def)
      have rwf: "reqs_wf (map input_requirement (plan_legs plan))"
        using assms(3) by (auto simp: reqs_wf_def input_requirement_def)
      note undo = ledger.reserve_undo [OF ok rwf assms(2) rsv] ledger.reserve_holds [OF ok rsv]
      have "if err = Some LiveNoExecution then lv_inventory s' = lv_inventory s \<and> lv_gate s' = []
          else lv_inventory s' = i' \<and> reservations i' oid = Some r \<and> lv_gate s' = oid"
        using d(7) undo by simp
      then show ?thesis using g(3) rsv d(2-6) sent tr by blast
    qed
  qed
qed

text \<open>Nothing is durable when the artifacts were too old, so that the operation may be tried again.\<close>

lemma conclude_not_too_old: "fst (conclude_execution e oid result n rs s) \<noteq> (r, Some LiveTooOld)"
  by (auto simp: conclude_execution_def Let_def split: prod.splits option.splits)

lemma conclude_error: "conclude_execution e oid result n rs s = ((r, Some LiveTooOld), s') \<Longrightarrow> False"
  using conclude_not_too_old [of e oid result n rs s r] by simp

lemma broadcast_not_too_old: "broadcast_phase e order oid legs prepared operation result s = (Some (r, Some LiveTooOld), s') \<Longrightarrow> False"
  by (auto simp: broadcast_phase_def Let_def dest: conclude_error split: prod.splits option.splits)

lemma commit_too_old: "commit_phase e order oid plan artifacts reservation prepared result s = (Some ((r, Some LiveTooOld), c), s') \<Longrightarrow> \<not> c"
  by (auto simp: commit_phase_def Let_def dest: broadcast_not_too_old split: prod.splits option.splits if_splits)

lemma reserve_too_old: "reserve_phase e preparing order oid plan artifacts s = (Some ((r, Some LiveTooOld), c), s') \<Longrightarrow> \<not> c"
  by (auto simp: reserve_phase_def prepare_phase_def Let_def dest: commit_too_old split: prod.splits option.splits sum.splits if_splits)

lemma execute_too_old:
  assumes "inv_reachable (lv_inventory s)" and "reservations (lv_inventory s) oid = None"
    and "\<forall>leg \<in> set (plan_legs plan). 0 \<le> amt_units (leg_Input leg)"
    and "ExecuteLive e preparing broadcasting oid plan artifacts s = (Some (result, Some LiveTooOld), s')"
  shows "extends [] s s'"
proof -
  obtain committed s1 where began: "TryBegin oid (lv_gate s) = (True, oid)" "oid \<noteq> []" "lv_gate s = []"
      and run: "reserve_phase e preparing broadcasting oid plan artifacts (s\<lparr>lv_gate := oid\<rparr>) = (Some ((result, Some LiveTooOld), committed), s1)"
      and s': "s' = (if committed then s1 else s1\<lparr>lv_gate := snd (GateComplete oid (lv_gate s1))\<rparr>)"
  proof (cases "oid = [] \<or> lv_gate s \<noteq> []")
    case True
    then have "fst (TryBegin oid (lv_gate s)) = False" by (auto simp: TryBegin_def)
    then show ?thesis using assms(4) by (auto simp: ExecuteLive_def split: prod.splits)
  next
    case False
    then show ?thesis using assms(4) that by (simp add: ExecuteLive_def TryBegin_def split: prod.splits option.splits)
  qed
  have "inv_ok (lv_inventory (s\<lparr>lv_gate := oid\<rparr>))" "reservations (lv_inventory (s\<lparr>lv_gate := oid\<rparr>)) oid = None"
    using reachable_inv_ok [OF assms(1)] assms(2) by simp_all
  from reserve_phase_outcome [OF run this _ began(2) assms(3)] reserve_too_old [OF run]
  show ?thesis using s' began by (simp add: extends_def GateComplete_def)
qed


section \<open>Witnesses\<close>

definition live_key :: "ChainID \<Rightarrow> AccountID \<Rightarrow> TokenID \<Rightarrow> Key" where
  "live_key c a t = \<lparr>key_Chain = c, key_Account = a, key_Token = t\<rparr>"

definition live_amount :: "TokenID \<Rightarrow> int \<Rightarrow> TokenAmount" where
  "live_amount t u = \<lparr>amt_token = t, amt_units = u\<rparr>"

definition live_policy :: "TokenID \<Rightarrow> BalancePolicy" where
  "live_policy t = \<lparr>pol_WalletBalance = live_amount t 10, pol_AllocationCap = live_amount t 10,
     pol_Target = live_amount t 10, pol_Buffer = live_amount t 0, pol_InFlightOut = live_amount t 0\<rparr>"

definition live_policies :: "(Key \<times> BalancePolicy) list" where
  "live_policies = [(live_key ''c'' ''a'' ''q'', live_policy ''q''), (live_key ''c'' ''a'' ''b'', live_policy ''b''),
     (live_key ''d'' ''e'' ''q'', live_policy ''q''), (live_key ''d'' ''e'' ''b'', live_policy ''b'')]"

definition live_inventory :: Inventory where
  "live_inventory = (let all = (\<lambda>v. [live_key ''c'' ''a'' ''q'' \<mapsto> v, live_key ''c'' ''a'' ''b'' \<mapsto> v,
       live_key ''d'' ''e'' ''q'' \<mapsto> v, live_key ''d'' ''e'' ''b'' \<mapsto> v])
     in \<lparr>balances = all 10, allocationCaps = all 10, targets = all 10, buffers = all 0, inFlightOut = all 0, reserved = all 0,
         reservations = Map.empty, settled = Map.empty\<rparr>)"

definition live_quote :: "MarketID \<Rightarrow> TokenAmount \<Rightarrow> TokenAmount \<Rightarrow> Quote" where
  "live_quote m i out = \<lparr>q_Source = ''s'', q_Market = m, q_SnapshotVersion = 1, q_SnapshotHash = [],
     q_SourcePosition = \<lparr>sp_Kind = [], sp_Value = 0\<rparr>, q_ResponseHash = [], q_Purpose = [], q_Mode = [], q_Quality = [],
     q_AmountIn = i, q_AmountOut = out, q_QuotedAt = 1, q_fees = []\<rparr>"

definition live_opportunity :: LiveOpportunity where
  "live_opportunity = \<lparr>lo_ID = ''o'', lo_Setup = ''set'', lo_Direction = \<lparr>dir_BuyMarket = ''m1'', dir_SellMarket = ''m2''\<rparr>,
     lo_Valuation = oe_Valuation exec_economics, lo_BuyQuote = live_quote ''m1'' (live_amount ''q'' 4) (live_amount ''b'' 2),
     lo_SellQuote = live_quote ''m2'' (live_amount ''b'' 2) (live_amount ''q'' 5), lo_QuoteDelta = dollars 5,
     lo_BaseDelta = \<lparr>qty_asset = ''eth'', qty_value = 1\<rparr>, lo_MarkedBase = dollars 2, lo_GrossPnL = dollars 7, lo_Cost = dollars 3,
     lo_NetPnL = dollars 4, lo_Threshold = dollars 1, lo_RiskBlock = [], lo_DiscoveredAt = 1, lo_ValidatedAt = 2\<rparr>"

definition live_bindings :: "(MarketID \<times> LegBinding) list" where
  "live_bindings = [(''m1'', \<lparr>lb_Chain = ''c'', lb_Account = ''a''\<rparr>), (''m2'', \<lparr>lb_Chain = ''d'', lb_Account = ''e''\<rparr>)]"

definition live_plan :: SagaPlan where
  "live_plan = projr (Plan live_bindings ''plan'' live_opportunity 3)"

definition live_artifact :: "Leg \<Rightarrow> StepID \<times> Artifact" where
  "live_artifact leg = (leg_ID leg, \<lparr>art_Leg = leg, art_ValidatedQuote = lo_BuyQuote live_opportunity, art_Allocation = None,
     art_Payload = [], art_Metadata = [], art_BuiltAt = 9, art_Blockhash = [], art_LastValidBlockHeight = 0\<rparr>)"

definition live_identity :: "Leg \<Rightarrow> TransactionIdentity" where
  "live_identity leg = \<lparr>ti_Chain = leg_Chain leg, ti_Account = leg_Account leg, ti_Hash = leg_ID leg, ti_Nonce = None,
     ti_Blockhash = [], ti_LastValidBlockHeight = 0\<rparr>"

definition live_settlement :: "OperationStep \<Rightarrow> Settlement" where
  "live_settlement step = \<lparr>stl_Operation = os_Operation step, stl_Step = leg_ID (os_Leg step), stl_Identity = os_Identity step,
     stl_Technical = StateConfirmedSuccess, stl_Economic = EconomicEffectVerified, stl_ActualIn = leg_Input (os_Leg step),
     stl_ActualOut = leg_ExpectedOutput (os_Leg step), stl_Costs = [], stl_ObservedAt = 11, stl_Evidence = []\<rparr>"

definition live_manager :: "AccountID \<Rightarrow> string \<Rightarrow> unit TxManager" where
  "live_manager a d = \<lparr>tm_Account = a, tm_Warm = (\<lambda>w. (None, w)),
     tm_Prepare = (\<lambda>x w. (Inr \<lparr>pt_Leg = art_Leg x, pt_Identity = live_identity (art_Leg x), pt_SignedPayload = [], pt_PreparedAt = 9\<rparr>, w)),
     tm_Broadcast = (\<lambda>p w. ((\<lparr>br_Identity = pt_Identity p, br_Disposition = d, br_Accepted = True, br_Endpoint = [], br_Attempts = 1,
       br_AcceptedAt = 10\<rparr>, None), w)),
     tm_Reconcile = (\<lambda>step w. (Inr (live_settlement step), w))\<rparr>"

definition live_store :: "unit OperationalStore" where
  "live_store = \<lparr>op_CommitPrepared = (\<lambda>x r w. (None, w)), op_RecordBroadcast = (\<lambda>x y z t w. (None, w)),
     op_RecordSettlement = (\<lambda>x w. (None, w)), op_MarkSettled = (\<lambda>x w. (None, w)),
     op_MarkManualIntervention = (\<lambda>x y w. (None, w)), op_MarkNoExecution = (\<lambda>x y w. (None, w)),
     op_Pending = (\<lambda>w. (Inr [], w)), op_Reservation = (\<lambda>x w. (Inl \<lparr>pe_stage = None, pe_invariant = False, pe_text = []\<rparr>, w))\<rparr>"

definition live_executor :: "string \<Rightarrow> unit ExecutorConfig" where
  "live_executor d = \<lparr>xc_ConfigHash = ''cfg'', xc_Store = live_store,
     xc_Managers = [(''a'', live_manager ''a'' d), (''e'', live_manager ''e'' d)], xc_ArtifactMaxAge = 5, xc_Clock = (\<lambda>w. (10, w))\<rparr>"

definition live_start :: "unit Live" where
  "live_start = \<lparr>lv_world = (), lv_gate = [], lv_inventory = live_inventory, lv_trace = []\<rparr>"

lemma live_inventory_reachable: "inv_reachable live_inventory"
proof (rule reach_new)
  show "policies_wf live_policies" by (simp add: live_policies_def live_policy_def live_amount_def policies_wf_def)
  show "NewWithPolicies live_policies = Inr live_inventory"
    by (simp add: live_policies_def live_policy_def live_amount_def live_key_def live_inventory_def Let_def NewWithPolicies_def
        install_policy_def policy_rejected_def key_complete_def empty_inventory_def)
qed

definition live_buy :: Leg where
  "live_buy = bound_leg ''buy'' LegBuy \<lparr>lb_Chain = ''c'', lb_Account = ''a''\<rparr> ''m1'' (lo_BuyQuote live_opportunity)"

definition live_sell :: Leg where
  "live_sell = bound_leg ''sell'' LegSell \<lparr>lb_Chain = ''d'', lb_Account = ''e''\<rparr> ''m2'' (lo_SellQuote live_opportunity)"

lemmas live_leg_defs = live_buy_def live_sell_def bound_leg_def live_opportunity_def live_quote_def live_amount_def

lemma live_legs_valid: "LegValidate live_buy = None" "LegValidate live_sell = None"
  by (simp_all add: LegValidate_def live_leg_defs AmountIsZero_def)

lemma live_leg_fields:
  "leg_ID live_buy = ''buy''" "leg_ID live_sell = ''sell''" "leg_Side live_buy = LegBuy" "leg_Side live_sell = LegSell"
  "leg_Chain live_buy = ''c''" "leg_Chain live_sell = ''d''" "leg_Account live_buy = ''a''" "leg_Account live_sell = ''e''"
  "leg_Input live_buy = live_amount ''q'' 4" "leg_ExpectedOutput live_buy = live_amount ''b'' 2"
  "leg_Input live_sell = live_amount ''b'' 2" "leg_ExpectedOutput live_sell = live_amount ''q'' 5"
  by (simp_all add: live_leg_defs)

lemma live_opportunity_valid: "LiveOpportunityValidate live_opportunity = None"
  by (simp add: LiveOpportunityValidate_def live_opportunity_def live_quote_def live_amount_def Let_def AmountIsZero_def
      dollars_def QtySign_def IsZeroTime_def exec_economics_def)

lemma live_plan_eq:
  "Plan live_bindings ''plan'' live_opportunity 3 =
     Inr \<lparr>plan_id = ''plan'', plan_opportunity = live_opportunity, plan_legs = [live_buy, live_sell], plan_createdAt = 3\<rparr>"
proof -
  have "Plan live_bindings ''plan'' live_opportunity 3 =
      map_err PlannerPlan (NewSagaPlan ''plan'' live_opportunity [live_buy, live_sell] 3)"
    unfolding Plan_def live_opportunity_valid
    by (simp add: live_bindings_def live_buy_def live_sell_def live_opportunity_def)
  then show ?thesis
    by (simp add: NewSagaPlan_def IsZeroTime_def live_opportunity_valid leg_seen_def live_legs_valid live_leg_fields)
qed

lemma live_plan_fields: "plan_id live_plan = ''plan''" "plan_opportunity live_plan = live_opportunity"
  "plan_legs live_plan = [live_buy, live_sell]" "plan_createdAt live_plan = 3"
  by (simp_all add: live_plan_def live_plan_eq)

definition live_reservation :: Reservation where
  "live_reservation = \<lparr>rsv_ID = ''op'', rsv_Operation = ''op'', rsv_requirements = [input_requirement live_buy, input_requirement live_sell]\<rparr>"

lemma live_reserve:
  "Reserve ''op'' ''op'' [input_requirement live_buy, input_requirement live_sell] live_inventory =
     (Inr live_reservation, live_inventory\<lparr>reserved := (reserved live_inventory)(live_key ''c'' ''a'' ''q'' \<mapsto> 4, live_key ''d'' ''e'' ''b'' \<mapsto> 2),
       reservations := [''op'' \<mapsto> live_reservation]\<rparr>)"
  by (simp add: inv_eval live_inventory_def live_key_def input_requirement_def live_leg_fields live_amount_def live_reservation_def)

definition live_prepared :: "Leg \<Rightarrow> PreparedTransaction" where
  "live_prepared leg = \<lparr>pt_Leg = leg, pt_Identity = live_identity leg, pt_SignedPayload = [], pt_PreparedAt = 9\<rparr>"

definition live_artifacts :: "(StepID \<times> Artifact) list" where
  "live_artifacts = [live_artifact live_buy, live_artifact live_sell]"

definition live_run :: "string \<Rightarrow> outcome option \<times> unit Live" where
  "live_run d = ExecuteLive (live_executor d) [1, 0] [1, 0] ''op'' live_plan live_artifacts live_start"

definition live_operation :: Operation where
  "live_operation = build_operation (live_executor []) ''op'' live_plan live_artifacts [live_prepared live_buy, live_prepared live_sell] 10"

lemma live_operation_any: "build_operation (live_executor d) ''op'' live_plan live_artifacts [live_prepared live_buy, live_prepared live_sell] 10 = live_operation"
  by (simp add: live_operation_def build_operation_def live_executor_def)

lemma live_artifact_of: "map_of live_artifacts ''buy'' = Some (snd (live_artifact live_buy))"
  "map_of live_artifacts ''sell'' = Some (snd (live_artifact live_sell))"
  by (simp_all add: live_artifacts_def live_artifact_def live_leg_fields)

lemma live_operation_valid: "ValidatePrepared live_operation = None"
proof -
  have "EconomicsFromOpportunity live_opportunity = exec_economics"
    by (simp add: EconomicsFromOpportunity_def live_opportunity_def exec_economics_def)
  then have eco: "EconomicsValidate (EconomicsFromOpportunity live_opportunity) = None" by (simp add: exec_economics_valid)
  show ?thesis
    by (simp add: ValidatePrepared_def live_operation_def build_operation_def live_plan_fields eco IsZeroTime_def step_error_def
        live_legs_valid live_artifact_of live_leg_fields live_prepared_def IdentityValidate_def live_identity_def live_artifact_def
        live_executor_def) (simp add: live_opportunity_def)
qed

lemma live_requirements: "leg_requirements live_artifacts [live_buy, live_sell] = Inr [input_requirement live_buy, input_requirement live_sell]"
  by (simp add: leg_requirements_def leg_requirement_def live_artifact_of live_leg_fields live_artifact_def)

lemma live_prepare:
  "prepare_leg (live_executor d) live_artifacts [live_buy, live_sell] 0 s = (Some (Inr (live_prepared live_buy)), s)"
  "prepare_leg (live_executor d) live_artifacts [live_buy, live_sell] (Suc 0) s = (Some (Inr (live_prepared live_sell)), s)"
  by (simp_all add: prepare_leg_def live_leg_fields live_executor_def live_manager_def live_artifact_of live_artifact_def live_prepared_def
      on_world_def)

definition live_outcome :: "string \<Rightarrow> Leg \<Rightarrow> BroadcastResult" where
  "live_outcome d leg = \<lparr>br_Identity = live_identity leg, br_Disposition = d, br_Accepted = True, br_Endpoint = [], br_Attempts = 1,
     br_AcceptedAt = 10\<rparr>"

lemma live_broadcast:
  "broadcast_leg (live_executor d) [live_prepared live_buy, live_prepared live_sell] 0 s =
     (Some (live_outcome d live_buy, None), log_event (LvBroadcast (live_prepared live_buy)) s)"
  "broadcast_leg (live_executor d) [live_prepared live_buy, live_prepared live_sell] (Suc 0) s =
     (Some (live_outcome d live_sell, None), log_event (LvBroadcast (live_prepared live_sell)) s)"
  by (simp_all add: broadcast_leg_def live_leg_fields live_executor_def live_manager_def live_prepared_def on_world_def live_outcome_def)

lemma live_clock: "on_world (xc_Clock (live_executor d)) s = (10, s)" "elapsed (live_executor d) 10 s = (0, s)"
  by (simp_all add: live_executor_def on_world_def elapsed_def elapsedAt_def TimeSub_def)

lemma unit_world: "s\<lparr>lv_world := ()\<rparr> = s"
  by (cases s) simp

lemma live_store_call:
  "store_call ev (op_CommitPrepared (xc_Store (live_executor d)) x r) s = (None, log_event ev s)"
  "store_call ev (op_RecordBroadcast (xc_Store (live_executor d)) a b c t) s = (None, log_event ev s)"
  "store_call ev (op_MarkNoExecution (xc_Store (live_executor d)) a b) s = (None, log_event ev s)"
  by (simp_all add: live_executor_def live_store_def store_call_def on_world_def unit_world)

lemma live_fresh: "list_ex (\<lambda>(_, a). artifact_expired (xc_ArtifactMaxAge (live_executor d)) 10 a) live_artifacts = False"
  by (simp add: live_artifacts_def live_artifact_def artifact_expired_def live_executor_def TimeSub_def IsZeroTime_def)

lemma live_dispositions: "d \<noteq> [] \<Longrightarrow> disposition_of (live_outcome d leg) None = d"
  by (simp add: disposition_of_def live_outcome_def)

lemma live_counts:
  "count_disposition BroadcastRejected [(live_outcome BroadcastAccepted live_buy, None), (live_outcome BroadcastAccepted live_sell, None)] = 0"
  "count_disposition BroadcastAccepted [(live_outcome BroadcastAccepted live_buy, None), (live_outcome BroadcastAccepted live_sell, None)] = 2"
  by (simp_all add: count_disposition_def live_dispositions)

lemmas live_eval = live_plan_fields live_requirements live_reserve live_clock live_prepare live_fresh live_operation_any live_operation_valid
  live_store_call live_broadcast live_dispositions broadcast_states live_counts group_results_def Let_def

lemma live_run_accepted: "\<exists>result s'. live_run BroadcastAccepted = (Some (result, None), s')"
proof -
  have "length live_artifacts = 2" by (simp add: live_artifacts_def)
  then show ?thesis
    by (simp add: live_run_def ExecuteLive_def TryBegin_def live_start_def reserve_phase_def prepare_phase_def commit_phase_def live_eval
        broadcast_phase_def conclude_execution_def log_event_def)
qed


end
