(* ===== verification/Saga_Settlement.thy ===== *)
theory Saga_Settlement
  imports Saga_Live "HOL-Library.AList"
begin

text \<open>
  What follows a broadcast: \<open>src/core/saga/settlement.go\<close>, \<open>confirmer.go\<close> and
  \<open>recovery.go\<close>. The coordinator joins the settlements of the legs and moves the inventory
  once, the confirmer obtains one settlement per leg on concurrent goroutines, and the recovery
  restores a pending operation at startup and confirms it.
\<close>

section \<open>Coordinator\<close>

datatype settle_error =
    SettleIncomplete
  | SettlePort PortError
  | SettleUnregistered OperationID
  | SettleMismatch
  | SettleInventory inv_error
  | SettleDurable PortError
  | SettlePrepared prepared_error
  | SettleBinding AccountID
  | SettleIdentity StepID

text \<open>The settlements observed of an operation are a map from steps, an association list.\<close>

record Coordinator =
  co_operations :: "OperationID \<rightharpoonup> Operation"
  co_observed :: "OperationID \<rightharpoonup> (StepID \<times> Settlement) list"

definition NewSettlementCoordinator :: Coordinator where
  "NewSettlementCoordinator = \<lparr>co_operations = Map.empty, co_observed = Map.empty\<rparr>"

definition Register :: "Operation \<Rightarrow> Coordinator \<Rightarrow> settle_error option \<times> Coordinator" where
  "Register operation c =
     (case ValidatePrepared operation of
        Some e \<Rightarrow> (Some (SettlePrepared e), c)
      | None \<Rightarrow> (None, c\<lparr>co_operations := (co_operations c)(opn_ID operation \<mapsto> operation)\<rparr>))"

definition leg_verified :: "OperationStep \<Rightarrow> Settlement \<Rightarrow> bool" where
  "leg_verified step observed \<longleftrightarrow>
     stl_Technical observed = StateConfirmedSuccess \<and> stl_Economic observed = EconomicEffectVerified \<and>
     amt_token (stl_ActualIn observed) = amt_token (leg_Input (os_Leg step)) \<and>
     amt_token (stl_ActualOut observed) = amt_token (leg_ExpectedOutput (os_Leg step))"

definition leg_effects :: "OperationStep \<Rightarrow> Settlement \<Rightarrow> Effect list" where
  "leg_effects step observed =
     (let leg = os_Leg step in
      [\<lparr>eff_Key = \<lparr>key_Chain = leg_Chain leg, key_Account = leg_Account leg, key_Token = amt_token (stl_ActualIn observed)\<rparr>,
        eff_Delta = Some (- amt_units (stl_ActualIn observed))\<rparr>,
       \<lparr>eff_Key = \<lparr>key_Chain = leg_Chain leg, key_Account = leg_Account leg, key_Token = amt_token (stl_ActualOut observed)\<rparr>,
        eff_Delta = Some (amt_units (stl_ActualOut observed))\<rparr>])"

fun collect_effects :: "(StepID \<times> Settlement) list \<Rightarrow> OperationStep list \<Rightarrow> Effect list option" where
  "collect_effects seen [] = Some []"
| "collect_effects seen (step # steps) =
     (case map_of seen (leg_ID (os_Leg step)) of
        None \<Rightarrow> None
      | Some observed \<Rightarrow>
          if leg_verified step observed
          then map_option (\<lambda>rest. leg_effects step observed @ rest) (collect_effects seen steps) else None)"

text \<open>\<open>Observe\<close> in its two atomic parts: the durable record, and the section under the mutex.\<close>

definition observe_record :: "'w OperationalStore \<Rightarrow> Settlement \<Rightarrow> 'w Live \<Rightarrow> settle_error option \<times> 'w Live" where
  "observe_record store settlement s =
     (if stl_Operation settlement = [] \<or> stl_Step settlement = [] \<or> IsZeroTime (stl_ObservedAt settlement)
      then (Some SettleIncomplete, s)
      else case store_call (LvSettlement settlement) (op_RecordSettlement store settlement) s of
        (Some err, s') \<Rightarrow> (Some (SettlePort err), s')
      | (None, s') \<Rightarrow> (None, s'))"

definition mark_manual :: "'w OperationalStore \<Rightarrow> OperationID \<Rightarrow> string \<Rightarrow> 'w Live \<Rightarrow> PortError option \<times> 'w Live" where
  "mark_manual store oid reason s = store_call (LvManual oid) (op_MarkManualIntervention store oid reason) s"

definition settle_joined ::
  "'w OperationalStore \<Rightarrow> Operation \<Rightarrow> Effect list \<Rightarrow> 'w Live \<times> Coordinator \<Rightarrow> settle_error option \<times> 'w Live \<times> Coordinator" where
  "settle_joined store operation effects st =
     (case st of (s, c) \<Rightarrow>
      let oid = opn_ID operation in
      case Settle oid effects (lv_inventory s) of
        (Some err, i') \<Rightarrow>
          (Some (SettleInventory err), snd (mark_manual store oid ''inventory settlement failed'' (s\<lparr>lv_inventory := i'\<rparr>)), c)
      | (None, i') \<Rightarrow>
          (case store_call (LvSettled oid) (op_MarkSettled store oid) (s\<lparr>lv_inventory := i'\<rparr>) of
             (Some err, s') \<Rightarrow>
               (Some (SettleDurable err), snd (mark_manual store oid ''durable inventory settlement failed'' s'), c)
           | (None, s') \<Rightarrow>
               (None, s'\<lparr>lv_gate := snd (GateComplete oid (lv_gate s'))\<rparr>,
                c\<lparr>co_operations := (co_operations c)(oid := None), co_observed := (co_observed c)(oid := None)\<rparr>)))"

definition observe_join ::
  "'w OperationalStore \<Rightarrow> Settlement \<Rightarrow> 'w Live \<times> Coordinator \<Rightarrow> settle_error option \<times> 'w Live \<times> Coordinator" where
  "observe_join store settlement st =
     (case st of (s, c) \<Rightarrow>
      case co_operations c (stl_Operation settlement) of
        None \<Rightarrow> (Some (SettleUnregistered (stl_Operation settlement)), s, c)
      | Some operation \<Rightarrow>
        (let seen = AList.update (stl_Step settlement) settlement
               (case co_observed c (stl_Operation settlement) of None \<Rightarrow> [] | Some old \<Rightarrow> old);
             c' = c\<lparr>co_observed := (co_observed c)(stl_Operation settlement \<mapsto> seen)\<rparr> in
         if length seen < length (opn_Steps operation) then (None, s, c')
         else case collect_effects (case co_observed c' (opn_ID operation) of None \<Rightarrow> [] | Some old \<Rightarrow> old) (opn_Steps operation) of
           None \<Rightarrow>
             (case mark_manual store (opn_ID operation) ''settlement mismatch or failed leg'' s of
                (Some err, s') \<Rightarrow> (Some (SettlePort err), s', c')
              | (None, s') \<Rightarrow> (Some SettleMismatch, s', c'))
         | Some effects \<Rightarrow> settle_joined store operation effects (s, c')))"

definition ObserveSettlement ::
  "'w OperationalStore \<Rightarrow> Settlement \<Rightarrow> 'w Live \<times> Coordinator \<Rightarrow> settle_error option \<times> 'w Live \<times> Coordinator" where
  "ObserveSettlement store settlement st =
     (case observe_record store settlement (fst st) of
        (Some err, s') \<Rightarrow> (Some err, s', snd st)
      | (None, s') \<Rightarrow> observe_join store settlement (s', snd st))"

section \<open>Confirmer\<close>

text \<open>
  A WebSocket source returns within the fallback timeout, with an error when it has no evidence
  by then.
\<close>

record 'w ConfirmerConfig =
  cf_Store :: "'w OperationalStore"
  cf_WebSockets :: "(AccountID \<times> (OperationStep \<Rightarrow> 'w \<Rightarrow> (PortError, Settlement) result \<times> 'w)) list"
  cf_Managers :: "(AccountID \<times> 'w TxManager) list"
  cf_FallbackAfter :: duration

definition NewConfirmer :: "'w ConfirmerConfig \<Rightarrow> 'w ConfirmerConfig option" where
  "NewConfirmer config =
     (if length (cf_WebSockets config) < 2 \<or> length (cf_Managers config) < 2 \<or> cf_FallbackAfter config \<le> 0 \<or>
         list_ex (\<lambda>(account, _). account = [] \<or> map_of (cf_Managers config) account = None) (cf_WebSockets config)
      then None else Some config)"

definition same_identity :: "TransactionIdentity \<Rightarrow> TransactionIdentity \<Rightarrow> bool" where
  "same_identity a b \<longleftrightarrow> ti_Hash a = ti_Hash b \<and> ti_Chain a = ti_Chain b \<and> ti_Account a = ti_Account b"

definition websocketSettlementComplete :: "OperationStep \<Rightarrow> Settlement \<Rightarrow> bool" where
  "websocketSettlementComplete step settlement =
     (if \<not> same_identity (stl_Identity settlement) (os_Identity step) \<or> IsZeroTime (stl_ObservedAt settlement) then False
      else if stl_Technical settlement = StateConfirmedSuccess then
        stl_Economic settlement = EconomicEffectVerified \<and>
        amt_token (stl_ActualIn settlement) = amt_token (leg_Input (os_Leg step)) \<and>
        amt_token (stl_ActualOut settlement) = amt_token (leg_ExpectedOutput (os_Leg step))
      else stl_Technical settlement = StateConfirmedRevert)"

definition awaitOrReconcile ::
  "'w ConfirmerConfig \<Rightarrow> OperationStep \<Rightarrow> 'w Live \<Rightarrow> (settle_error, Settlement) result \<times> 'w Live" where
  "awaitOrReconcile cf step s =
     (let account = leg_Account (os_Leg step) in
      case (map_of (cf_WebSockets cf) account, map_of (cf_Managers cf) account) of
        (Some source, Some manager) \<Rightarrow>
          (case on_world (source step) s of (websocket, s1) \<Rightarrow>
           if (case websocket of Inr settlement \<Rightarrow> websocketSettlementComplete step settlement | Inl _ \<Rightarrow> False)
           then (Inr (projr websocket), s1)
           else case on_world (tm_Reconcile manager step) s1 of (r, s2) \<Rightarrow> (map_err SettlePort r, s2))
      | _ \<Rightarrow> (Inl (SettleBinding account), s))"

text \<open>Where the goroutine of a step stands between its atomic actions.\<close>

datatype worker = WAwait | WRecord Settlement | WJoin Settlement | WDone "settle_error option"

definition attribute_settlement :: "OperationID \<Rightarrow> OperationStep \<Rightarrow> Settlement \<Rightarrow> Settlement" where
  "attribute_settlement oid step settlement =
     settlement\<lparr>stl_Operation := oid, stl_Step := leg_ID (os_Leg step),
       stl_Identity := if ti_Hash (stl_Identity settlement) = [] then os_Identity step else stl_Identity settlement\<rparr>"

definition worker_step ::
  "'w ConfirmerConfig \<Rightarrow> OperationID \<Rightarrow> OperationStep \<Rightarrow> worker \<Rightarrow> 'w Live \<times> Coordinator \<Rightarrow> worker \<times> 'w Live \<times> Coordinator" where
  "worker_step cf oid step w st =
     (case w of
        WAwait \<Rightarrow>
          (case awaitOrReconcile cf (step\<lparr>os_Operation := oid\<rparr>) (fst st) of
             (Inl err, s') \<Rightarrow> (WDone (Some err), s', snd st)
           | (Inr settlement, s') \<Rightarrow>
               (let settlement' = attribute_settlement oid step settlement in
                (if same_identity (stl_Identity settlement') (os_Identity step) then WRecord settlement'
                 else WDone (Some (SettleIdentity (leg_ID (os_Leg step)))), s', snd st)))
      | WRecord settlement \<Rightarrow>
          (case observe_record (cf_Store cf) settlement (fst st) of
             (Some err, s') \<Rightarrow> (WDone (Some err), s', snd st)
           | (None, s') \<Rightarrow> (WJoin settlement, s', snd st))
      | WJoin settlement \<Rightarrow>
          (case observe_join (cf_Store cf) settlement st of (err, st') \<Rightarrow> (WDone err, st'))
      | WDone err \<Rightarrow> (WDone err, st))"

type_synonym 'w confirming = "worker list \<times> 'w Live \<times> Coordinator"

text \<open>The scheduler lets the goroutine \<open>i\<close> do its next atomic action.\<close>

definition confirm_step :: "'w ConfirmerConfig \<Rightarrow> Operation \<Rightarrow> 'w confirming \<Rightarrow> nat \<Rightarrow> 'w confirming" where
  "confirm_step cf operation x i =
     (case x of (ws, st) \<Rightarrow>
      if i < length ws then
        (case worker_step cf (opn_ID operation) (opn_Steps operation ! i) (ws ! i) st of (w, st') \<Rightarrow> (ws[i := w], st'))
      else x)"

fun worker_done :: "worker \<Rightarrow> bool" where
  "worker_done (WDone _) = True"
| "worker_done _ = False"

fun worker_error :: "worker \<Rightarrow> settle_error option" where
  "worker_error (WDone err) = err"
| "worker_error _ = None"

text \<open>
  \<open>Confirm\<close> under a schedule: the joined errors, in the order of the steps, once the wait
  group is done, nothing while a goroutine still runs.
\<close>

definition Confirm ::
  "'w ConfirmerConfig \<Rightarrow> nat list \<Rightarrow> Operation \<Rightarrow> 'w Live \<times> Coordinator \<Rightarrow> settle_error list option \<times> 'w Live \<times> Coordinator" where
  "Confirm cf schedule operation st =
     (case Register operation (snd st) of
        (Some err, c) \<Rightarrow> (Some [err], fst st, c)
      | (None, c) \<Rightarrow>
          (case foldl (confirm_step cf operation) (replicate (length (opn_Steps operation)) WAwait, fst st, c) schedule of
             (ws, st') \<Rightarrow> (if list_all worker_done ws then Some (List.map_filter worker_error ws) else None, st')))"

section \<open>Recovery\<close>

datatype recovery_error =
    RecoveryPort PortError
  | RecoveryRequired
  | RecoveryInventory inv_error
  | RecoveryConfirm "settle_error list"

definition ReconcilePending ::
  "'w ConfirmerConfig \<Rightarrow> nat list \<Rightarrow> 'w Live \<times> Coordinator \<Rightarrow> recovery_error option option \<times> 'w Live \<times> Coordinator" where
  "ReconcilePending cf schedule st =
     (case st of (s, c) \<Rightarrow>
      let store = cf_Store cf in
      case on_world (op_Pending store) s of
        (Inl err, s1) \<Rightarrow> (Some (Some (RecoveryPort err)), s1, c)
      | (Inr [], s1) \<Rightarrow> (Some None, s1, c)
      | (Inr (_ # _ # _), s1) \<Rightarrow> (Some (Some RecoveryRequired), s1, c)
      | (Inr [operation], s1) \<Rightarrow>
        (case on_world (op_Reservation store (opn_ID operation)) s1 of
           (Inl err, s2) \<Rightarrow> (Some (Some (RecoveryPort err)), s2, c)
         | (Inr reservation, s2) \<Rightarrow>
           (case Reserve (rsv_ID reservation) (opn_ID operation) (rsv_requirements reservation) (lv_inventory s2) of
              (Inl err, i) \<Rightarrow> (Some (Some (RecoveryInventory err)), s2\<lparr>lv_inventory := i\<rparr>, c)
            | (Inr _, i) \<Rightarrow>
              (let s3 = s2\<lparr>lv_inventory := i\<rparr>; active = GateActive (lv_gate s3);
                   restored = GateRestore (opn_ID operation) (lv_gate s3) in
               if \<not> snd active \<and> \<not> fst restored \<or> snd active \<and> fst active \<noteq> opn_ID operation
               then (Some (Some RecoveryRequired), s3, c)
               else
                 (case Confirm cf schedule operation (if snd active then s3 else s3\<lparr>lv_gate := snd restored\<rparr>, c) of
                    (None, st') \<Rightarrow> (None, st')
                  | (Some (err # errs), st') \<Rightarrow> (Some (Some (RecoveryConfirm (err # errs))), st')
                  | (Some [], s4, c') \<Rightarrow>
                    (case on_world (op_Pending store) s4 of
                       (Inl err, s5) \<Rightarrow> (Some (Some (RecoveryPort err)), s5, c')
                     | (Inr remaining, s5) \<Rightarrow>
                         (Some (if remaining = [] then None else Some RecoveryRequired), s5, c')))))))"

section \<open>Lemmas\<close>

lemma collect_effects_Some:
  assumes "collect_effects seen steps = Some es"
  shows "\<exists>sts. length sts = length steps \<and> es = concat (map2 leg_effects steps sts) \<and>
    (\<forall>i < length steps. map_of seen (leg_ID (os_Leg (steps ! i))) = Some (sts ! i) \<and> leg_verified (steps ! i) (sts ! i))"
  using assms
proof (induction steps arbitrary: es)
  case Nil
  then show ?case by simp
next
  case (Cons step steps)
  from Cons.prems obtain observed rest where o: "map_of seen (leg_ID (os_Leg step)) = Some observed" "leg_verified step observed"
      "collect_effects seen steps = Some rest" "es = leg_effects step observed @ rest"
    by (auto split: option.splits if_splits)
  from Cons.IH [OF o(3)] obtain sts where "length sts = length steps" "rest = concat (map2 leg_effects steps sts)"
      "\<forall>i < length steps. map_of seen (leg_ID (os_Leg (steps ! i))) = Some (sts ! i) \<and> leg_verified (steps ! i) (sts ! i)" by blast
  then show ?case using o by (intro exI [of _ "observed # sts"]) (auto simp: nth_Cons split: nat.splits)
qed

lemma observe_record_extends:
  assumes "observe_record store st s = (err, s')"
  shows "extends (if err = None then [LvSettlement st] else []) s s'"
proof (cases "stl_Operation st = [] \<or> stl_Step st = [] \<or> IsZeroTime (stl_ObservedAt st)")
  case True
  then show ?thesis using assms by (auto simp: observe_record_def extends_refl)
next
  case False
  obtain r s1 where c: "store_call (LvSettlement st) (op_RecordSettlement store st) s = (r, s1)" by (metis surj_pair)
  from store_call_extends [OF c] assms c False show ?thesis by (cases r) (auto simp: observe_record_def)
qed

lemma awaitOrReconcile_extends:
  assumes "awaitOrReconcile cf step s = (r, s')"
  shows "extends [] s s'"
proof (cases "map_of (cf_WebSockets cf) (leg_Account (os_Leg step))")
  case None
  then show ?thesis using assms by (auto simp: awaitOrReconcile_def Let_def extends_refl)
next
  case (Some source)
  show ?thesis
  proof (cases "map_of (cf_Managers cf) (leg_Account (os_Leg step))")
    case None
    then show ?thesis using assms Some by (auto simp: awaitOrReconcile_def Let_def extends_refl)
  next
    case manager: (Some manager)
    obtain w s1 where c1: "on_world (source step) s = (w, s1)" by (metis surj_pair)
    obtain r2 s2 where c2: "on_world (tm_Reconcile manager step) s1 = (r2, s2)" by (metis surj_pair)
    note e1 = on_world_extends [OF c1] and e2 = extends_quiet [OF on_world_extends [OF c1] on_world_extends [OF c2]]
    from assms Some manager c1 c2 have "s' = s1 \<or> s' = s2" by (auto simp: awaitOrReconcile_def Let_def split: if_splits)
    then show ?thesis using e1 e2 by blast
  qed
qed

lemma settle_joined_None:
  assumes "settle_joined store operation effects (s, c) = (None, s', c')"
  shows "Settle (opn_ID operation) effects (lv_inventory s) = (None, lv_inventory s') \<and>
    lv_gate s' = snd (GateComplete (opn_ID operation) (lv_gate s)) \<and> LvSettled (opn_ID operation) \<in> set (lv_trace s') \<and>
    co_operations c' (opn_ID operation) = None \<and> co_observed c' (opn_ID operation) = None"
proof -
  obtain e i' where c1: "Settle (opn_ID operation) effects (lv_inventory s) = (e, i')" by (metis surj_pair)
  obtain r s1 where c2: "store_call (LvSettled (opn_ID operation)) (op_MarkSettled store (opn_ID operation)) (s\<lparr>lv_inventory := i'\<rparr>) = (r, s1)"
    by (metis surj_pair)
  from assms c1 have e: "e = None" by (cases e) (simp_all add: settle_joined_def Let_def)
  from assms c1 c2 e have r: "r = None" by (cases r) (simp_all add: settle_joined_def Let_def)
  from assms have "s' = s1\<lparr>lv_gate := snd (GateComplete (opn_ID operation) (lv_gate s1))\<rparr> \<and>
      c' = c\<lparr>co_operations := (co_operations c)(opn_ID operation := None), co_observed := (co_observed c)(opn_ID operation := None)\<rparr>"
    by (auto simp: settle_joined_def Let_def c1 c2 e r)
  then show ?thesis using store_call_extends [OF c2] c1 e r by (simp add: extends_def)
qed

section \<open>Confirmation under every schedule\<close>

definition step_ids :: "Operation \<Rightarrow> StepID list" where
  "step_ids operation = map (\<lambda>step. leg_ID (os_Leg step)) (opn_Steps operation)"

definition seen_of :: "Coordinator \<Rightarrow> OperationID \<Rightarrow> (StepID \<times> Settlement) list" where
  "seen_of c oid = (case co_observed c oid of None \<Rightarrow> [] | Some seen \<Rightarrow> seen)"

text \<open>A settlement that belongs to the durable transaction of a step.\<close>

definition attributed :: "Operation \<Rightarrow> nat \<Rightarrow> Settlement \<Rightarrow> bool" where
  "attributed operation i st \<longleftrightarrow> stl_Operation st = opn_ID operation \<and> stl_Step st = step_ids operation ! i \<and>
     same_identity (stl_Identity st) (os_Identity (opn_Steps operation ! i))"

text \<open>The operation settled by one verified settlement per step, in the order of the steps.\<close>

definition settled_by :: "Operation \<Rightarrow> 'w Live \<Rightarrow> Settlement list \<Rightarrow> 'w Live \<times> Coordinator \<Rightarrow> bool" where
  "settled_by operation s0 sts st \<longleftrightarrow> (case st of (s, c) \<Rightarrow>
     length sts = length (opn_Steps operation) \<and>
     (\<forall>i < length sts. leg_verified (opn_Steps operation ! i) (sts ! i) \<and> attributed operation i (sts ! i)) \<and>
     Settle (opn_ID operation) (concat (map2 leg_effects (opn_Steps operation) sts)) (lv_inventory s0) = (None, lv_inventory s) \<and>
     lv_gate s = snd (GateComplete (opn_ID operation) (lv_gate s0)) \<and> LvSettled (opn_ID operation) \<in> set (lv_trace s) \<and>
     co_operations c (opn_ID operation) = None \<and> co_observed c (opn_ID operation) = None)"

definition joining :: "Operation \<Rightarrow> 'w Live \<Rightarrow> worker list \<Rightarrow> 'w Live \<times> Coordinator \<Rightarrow> bool" where
  "joining operation s0 ws st \<longleftrightarrow> (case st of (s, c) \<Rightarrow>
     co_operations c (opn_ID operation) = Some operation \<and>
     lv_inventory s = lv_inventory s0 \<and> lv_gate s = lv_gate s0 \<and>
     distinct (map fst (seen_of c (opn_ID operation))) \<and>
     fst ` set (seen_of c (opn_ID operation)) = (!) (step_ids operation) ` {i. i < length ws \<and> worker_done (ws ! i)} \<and>
     (\<forall>i < length ws. \<forall>st. map_of (seen_of c (opn_ID operation)) (step_ids operation ! i) = Some st \<longrightarrow> attributed operation i st))"

definition confirm_inv :: "Operation \<Rightarrow> 'w Live \<Rightarrow> 'w confirming \<Rightarrow> bool" where
  "confirm_inv operation s0 x \<longleftrightarrow> (case x of (ws, st) \<Rightarrow>
     length ws = length (opn_Steps operation) \<and>
     (\<forall>i < length ws. \<forall>st. ws ! i = WRecord st \<or> ws ! i = WJoin st \<longrightarrow> attributed operation i st) \<and>
     (if list_all worker_done ws then \<exists>sts. settled_by operation s0 sts st else joining operation s0 ws st))"

definition error_free :: "worker list \<Rightarrow> bool" where
  "error_free ws \<longleftrightarrow> (\<forall>w \<in> set ws. worker_error w = None)"

lemma joining_quiet:
  assumes "joining operation s0 ws (s, c)" and "extends evs s s'" and "length ws' = length ws"
    and "\<And>j. j < length ws \<Longrightarrow> worker_done (ws' ! j) = worker_done (ws ! j)"
  shows "joining operation s0 ws' (s', c)"
proof -
  have "{i. i < length ws' \<and> worker_done (ws' ! i)} = {i. i < length ws \<and> worker_done (ws ! i)}" using assms(3,4) by auto
  then show ?thesis using assms(1-3) by (simp add: joining_def extends_def)
qed

lemma join_seen:
  assumes ids: "distinct (step_ids operation)" and j: "joining operation s0 ws (s, c)" and len: "length ws = length (opn_Steps operation)"
    and i: "i < length ws" "\<not> worker_done (ws ! i)" and att: "attributed operation i st"
  defines "seen \<equiv> AList.update (stl_Step st) st (seen_of c (opn_ID operation))"
  shows "distinct (map fst seen)" "length seen = card {k. k < length ws \<and> (k = i \<or> worker_done (ws ! k))}"
    "fst ` set seen = (!) (step_ids operation) ` {k. k < length ws \<and> (k = i \<or> worker_done (ws ! k))}"
    "\<forall>k < length ws. \<forall>x. map_of seen (step_ids operation ! k) = Some x \<longrightarrow> attributed operation k x"
proof -
  have n: "length (step_ids operation) = length ws" using len by (simp add: step_ids_def)
  show d: "distinct (map fst seen)" using j by (simp add: seen_def joining_def distinct_update)
  have set: "{k. k < length ws \<and> (k = i \<or> worker_done (ws ! k))} = insert i {k. k < length ws \<and> worker_done (ws ! k)}"
    using i by auto
  show keys: "fst ` set seen = (!) (step_ids operation) ` {k. k < length ws \<and> (k = i \<or> worker_done (ws ! k))}"
    using j att by (simp add: seen_def joining_def dom_update set attributed_def)
  have "inj_on ((!) (step_ids operation)) {k. k < length ws \<and> (k = i \<or> worker_done (ws ! k))}"
    by (rule inj_on_nth [OF ids]) (simp add: n)
  then have "card (fst ` set seen) = card {k. k < length ws \<and> (k = i \<or> worker_done (ws ! k))}" unfolding keys by (rule card_image)
  then show "length seen = card {k. k < length ws \<and> (k = i \<or> worker_done (ws ! k))}"
    using distinct_card [OF d] by simp
  show "\<forall>k < length ws. \<forall>x. map_of seen (step_ids operation ! k) = Some x \<longrightarrow> attributed operation k x"
  proof (intro allI impI)
    fix k x
    assume k: "k < length ws" and x: "map_of seen (step_ids operation ! k) = Some x"
    show "attributed operation k x"
    proof (cases "k = i")
      case True
      then show ?thesis using x att by (simp add: seen_def update_conv' attributed_def)
    next
      case False
      then have "step_ids operation ! k \<noteq> stl_Step st" using ids k i n att by (simp add: attributed_def nth_eq_iff_index_eq)
      then show ?thesis using x j k by (simp add: seen_def update_conv' joining_def)
    qed
  qed
qed

lemma observe_join_outcome:
  assumes ids: "distinct (step_ids operation)" and j: "joining operation s0 ws (s, c)" and len: "length ws = length (opn_Steps operation)"
    and i: "i < length ws" "\<not> worker_done (ws ! i)" and att: "attributed operation i st"
    and run: "observe_join store st (s, c) = (None, s', c')"
  defines "ws' \<equiv> ws[i := WDone None]"
  shows "if list_all worker_done ws' then \<exists>sts. settled_by operation s0 sts (s', c') else joining operation s0 ws' (s', c')"
proof -
  let ?oid = "opn_ID operation"
  define seen where "seen = AList.update (stl_Step st) st (seen_of c ?oid)"
  define c1 where "c1 = c\<lparr>co_observed := (co_observed c)(?oid \<mapsto> seen)\<rparr>"
  note seen = join_seen [OF ids j len i att, folded seen_def]
  have oid: "stl_Operation st = ?oid" using att by (simp add: attributed_def)
  have reg: "co_operations c ?oid = Some operation" and same: "lv_inventory s = lv_inventory s0" "lv_gate s = lv_gate s0"
    using j by (simp_all add: joining_def)
  have seen1: "seen_of c1 ?oid = seen" by (simp add: c1_def seen_of_def)
  have set: "{k. k < length ws' \<and> worker_done (ws' ! k)} = {k. k < length ws \<and> (k = i \<or> worker_done (ws ! k))}"
    using i by (auto simp: ws'_def nth_list_update)
  have all: "list_all worker_done ws' \<longleftrightarrow> length ws \<le> length seen"
  proof -
    let ?D = "{k. k < length ws \<and> (k = i \<or> worker_done (ws ! k))}"
    have "list_all worker_done ws' \<longleftrightarrow> ?D = {..<length ws}"
      unfolding set [symmetric] by (auto simp: list_all_length ws'_def)
    also have "\<dots> \<longleftrightarrow> length ws \<le> card ?D"
      by (metis (no_types, lifting) Collect_mono card_lessThan card_seteq finite_lessThan lessThan_def order_refl)
    finally show ?thesis by (simp add: seen(2))
  qed
  show ?thesis
  proof (cases "length seen < length (opn_Steps operation)")
    case True
    then have "s' = s" "c' = c1"
      using run by (simp_all add: observe_join_def oid reg Let_def seen_of_def [symmetric] seen_def [symmetric] c1_def)
    then have "joining operation s0 ws' (s', c')"
      using seen same reg seen1 set by (simp add: joining_def) (simp add: ws'_def c1_def)
    then show ?thesis using all True len by simp
  next
    case False
    then have "(case collect_effects seen (opn_Steps operation) of
        None \<Rightarrow> (case mark_manual store ?oid ''settlement mismatch or failed leg'' s of
           (Some err, s') \<Rightarrow> (Some (SettlePort err), s', c1) | (None, s') \<Rightarrow> (Some SettleMismatch, s', c1))
      | Some effects \<Rightarrow> settle_joined store operation effects (s, c1)) = (None, s', c')"
      unfolding c1_def using run
      by (simp add: observe_join_def oid reg Let_def seen_of_def [symmetric] seen_def [symmetric])
    then obtain effects where eff: "collect_effects seen (opn_Steps operation) = Some effects"
      and fin: "settle_joined store operation effects (s, c1) = (None, s', c')"
      by (auto split: option.splits prod.splits)
    from collect_effects_Some [OF eff] obtain sts where sts: "length sts = length (opn_Steps operation)"
        "effects = concat (map2 leg_effects (opn_Steps operation) sts)"
        "\<forall>i < length (opn_Steps operation). map_of seen (leg_ID (os_Leg (opn_Steps operation ! i))) = Some (sts ! i) \<and>
           leg_verified (opn_Steps operation ! i) (sts ! i)" by blast
    have "attributed operation k (sts ! k)" if "k < length (opn_Steps operation)" for k
      using seen(4) sts(3) that len by (simp add: step_ids_def)
    then have "settled_by operation s0 sts (s', c')"
      using settle_joined_None [OF fin] sts same by (auto simp: settled_by_def)
    then show ?thesis using all False len by auto
  qed
qed

lemma confirm_step_inv:
  assumes ids: "distinct (step_ids operation)" and inv: "confirm_inv operation s0 x"
    and free: "error_free (fst (confirm_step cf operation x i))"
  shows "confirm_inv operation s0 (confirm_step cf operation x i)"
proof -
  obtain ws s c where x: "x = (ws, s, c)" by (cases x) auto
  show ?thesis
  proof (cases "i < length ws")
    case False
    then show ?thesis using inv by (simp add: x confirm_step_def)
  next
    case True
    let ?step = "opn_Steps operation ! i"
    obtain w s' c' where w: "worker_step cf (opn_ID operation) ?step (ws ! i) (s, c) = (w, s', c')"
      by (metis prod_cases3)
    have next_x: "confirm_step cf operation x i = (ws[i := w], s', c')" using True w by (simp add: x confirm_step_def)
    have noerr: "worker_error w = None" using free True unfolding next_x by (simp add: error_free_def set_update_memI)
    have len: "length ws = length (opn_Steps operation)" using inv by (simp add: confirm_inv_def x)
    have att: "\<And>j st. j < length ws \<Longrightarrow> ws ! j = WRecord st \<or> ws ! j = WJoin st \<Longrightarrow> attributed operation j st"
      using inv by (auto simp: confirm_inv_def x)
    have quiet: "confirm_inv operation s0 (ws[i := w], s', c')"
      if "\<not> worker_done (ws ! i)" "\<not> worker_done w" "extends evs s s'" "c' = c"
        "\<And>st. w = WRecord st \<or> w = WJoin st \<Longrightarrow> attributed operation i st" for evs
    proof -
      have "\<not> list_all worker_done ws" "\<not> list_all worker_done (ws[i := w])"
        using that(1,2) True by (auto simp: list_all_length)
      moreover from this inv have j: "joining operation s0 ws (s, c)" by (simp add: confirm_inv_def x)
      have "joining operation s0 (ws[i := w]) (s', c)"
        by (rule joining_quiet [OF j that(3)]) (use that(1,2) True in \<open>auto simp: nth_list_update\<close>)
      ultimately show ?thesis using len att that(4,5) True by (auto simp: confirm_inv_def nth_list_update)
    qed
    show ?thesis
    proof (cases "ws ! i")
      case WAwait
      obtain r s1 where c1: "awaitOrReconcile cf (?step\<lparr>os_Operation := opn_ID operation\<rparr>) s = (r, s1)" by (metis surj_pair)
      from w noerr WAwait c1 obtain settlement where
        "w = WRecord (attribute_settlement (opn_ID operation) ?step settlement)" "s' = s1" "c' = c"
        "same_identity (stl_Identity (attribute_settlement (opn_ID operation) ?step settlement)) (os_Identity ?step)"
        by (cases r) (auto simp: worker_step_def Let_def split: if_splits)
      then show ?thesis unfolding next_x using WAwait awaitOrReconcile_extends [OF c1] len True
        by (intro quiet) (auto simp: attributed_def attribute_settlement_def step_ids_def)
    next
      case (WRecord settlement)
      obtain r s1 where c1: "observe_record (cf_Store cf) settlement s = (r, s1)" by (metis surj_pair)
      from w noerr WRecord c1 have "w = WJoin settlement" "s' = s1" "c' = c"
        by (cases r, auto simp: worker_step_def)+
      then show ?thesis unfolding next_x using WRecord observe_record_extends [OF c1] att [OF True]
        by (intro quiet) auto
    next
      case (WJoin settlement)
      obtain r st1 where c1: "observe_join (cf_Store cf) settlement (s, c) = (r, st1)" by (metis surj_pair)
      from w noerr WJoin c1 have w': "w = WDone None" and run: "observe_join (cf_Store cf) settlement (s, c) = (None, s', c')"
        by (auto simp: worker_step_def)
      have nd: "\<not> worker_done (ws ! i)" by (simp add: WJoin)
      then have "\<not> list_all worker_done ws" using True by (auto simp: list_all_length)
      then have j: "joining operation s0 ws (s, c)" using inv by (simp add: confirm_inv_def x)
      from observe_join_outcome [OF ids j len True nd att [OF True] run] WJoin show ?thesis
        unfolding next_x w' using len att True by (auto simp: confirm_inv_def nth_list_update split: if_splits)
    next
      case (WDone err)
      then have "w = ws ! i" "s' = s" "c' = c" using w by (auto simp: worker_step_def)
      then show ?thesis unfolding next_x using inv x by simp
    qed
  qed
qed

lemma confirm_step_length: "length (fst (confirm_step cf operation x i)) = length (fst x)"
  by (auto simp: confirm_step_def split: prod.splits)

lemma confirm_step_errors:
  assumes "error_free (fst (confirm_step cf operation x i))"
  shows "error_free (fst x)"
proof -
  obtain ws st where x: "x = (ws, st)" by (cases x)
  have keep: "worker_error w = None" if "worker_step cf oid step w st = (w', st')" "worker_error w' = None" for oid step w w' st'
    using that by (cases w) (auto simp: worker_step_def)
  show ?thesis
  proof (cases "i < length ws")
    case True
    obtain w st' where w: "worker_step cf (opn_ID operation) (opn_Steps operation ! i) (ws ! i) st = (w, st')" by (metis surj_pair)
    have new: "\<And>j. j < length ws \<Longrightarrow> worker_error (ws[i := w] ! j) = None"
      using assms True w by (auto simp: x confirm_step_def error_free_def all_set_conv_all_nth)
    have "worker_error (ws ! j) = None" if "j < length ws" for j
      using new [OF that] keep [OF w] that True by (cases "j = i") auto
    then show ?thesis by (simp add: x error_free_def all_set_conv_all_nth)
  qed (use assms in \<open>simp add: x confirm_step_def\<close>)
qed

lemma confirm_run_inv:
  assumes "distinct (step_ids operation)" and "confirm_inv operation s0 x"
    and "error_free (fst (foldl (confirm_step cf operation) x schedule))"
  shows "confirm_inv operation s0 (foldl (confirm_step cf operation) x schedule)"
  using assms(3)
proof (induction schedule rule: rev_induct)
  case Nil
  then show ?case using assms(2) by simp
next
  case (snoc i schedule)
  then have "error_free (fst (confirm_step cf operation (foldl (confirm_step cf operation) x schedule) i))" by simp
  from confirm_step_inv [OF assms(1) snoc.IH [OF confirm_step_errors [OF this]] this] show ?case by simp
qed

text \<open>Every goroutine is done after three turns, whatever the ports answer.\<close>

fun stage_of :: "worker \<Rightarrow> nat" where
  "stage_of WAwait = 0"
| "stage_of (WRecord _) = 1"
| "stage_of (WJoin _) = 2"
| "stage_of (WDone _) = 3"

lemma worker_done_stage: "worker_done w \<longleftrightarrow> 3 \<le> stage_of w"
  by (cases w) auto

lemma worker_step_stage: "worker_step cf oid step w st = (w', st') \<Longrightarrow> min 3 (Suc (stage_of w)) \<le> stage_of w'"
  by (cases w) (auto simp: worker_step_def Let_def split: prod.splits sum.splits option.splits if_splits)

lemma confirm_run_stage:
  assumes "i < length (fst x)"
  shows "min 3 (stage_of (fst x ! i) + count_list schedule i) \<le> stage_of (fst (foldl (confirm_step cf operation) x schedule) ! i) \<and>
    length (fst (foldl (confirm_step cf operation) x schedule)) = length (fst x)"
proof (induction schedule rule: rev_induct)
  case Nil
  then show ?case by simp
next
  case (snoc j schedule)
  let ?y = "foldl (confirm_step cf operation) x schedule"
  obtain ws st where y: "?y = (ws, st)" by (cases ?y)
  have i: "i < length ws" using snoc assms y by simp
  have "min 3 (stage_of (ws ! i) + (if i = j then 1 else 0)) \<le> stage_of (fst (confirm_step cf operation ?y j) ! i)"
  proof (cases "j < length ws")
    case True
    obtain w st' where w: "worker_step cf (opn_ID operation) (opn_Steps operation ! j) (ws ! j) st = (w, st')" by (metis surj_pair)
    from worker_step_stage [OF w] show ?thesis using True i w by (auto simp: y confirm_step_def nth_list_update)
  next
    case False
    then show ?thesis using i by (auto simp: y confirm_step_def)
  qed
  then show ?case using snoc y confirm_step_length [of cf operation ?y j] by auto
qed

lemma Confirm_success:
  assumes "Confirm cf schedule operation (s, c) = (Some [], s', c')" and "distinct (step_ids operation)"
    and "co_observed c (opn_ID operation) = None"
  shows "\<exists>sts. settled_by operation s sts (s', c')"
proof -
  let ?c = "c\<lparr>co_operations := (co_operations c)(opn_ID operation \<mapsto> operation)\<rparr>"
  let ?x = "(replicate (length (opn_Steps operation)) WAwait, s, ?c)"
  have valid: "ValidatePrepared operation = None" using assms(1) by (auto simp: Confirm_def Register_def split: option.splits)
  obtain ws where run: "foldl (confirm_step cf operation) ?x schedule = (ws, s', c')" and all: "list_all worker_done ws"
      and none: "List.map_filter worker_error ws = []"
    using assms(1) valid by (auto simp: Confirm_def Register_def split: prod.splits if_splits)
  have free: "error_free ws" using none by (auto simp: error_free_def List.map_filter_def filter_empty_conv)
  have "length (opn_Steps operation) = 2" using valid by (auto simp: ValidatePrepared_def split: if_splits)
  then have "\<not> list_all worker_done (replicate (length (opn_Steps operation)) WAwait)" by (simp add: numeral_2_eq_2)
  then have start: "confirm_inv operation s ?x" using assms(3) by (auto simp: confirm_inv_def joining_def seen_of_def)
  from confirm_run_inv [OF assms(2) start, of cf schedule] free all show ?thesis by (simp add: run confirm_inv_def)
qed

section \<open>Properties\<close>

text \<open>
  C14: Confirming a registered operation ends under every interleaving of its goroutines that
  gives each of them three turns. When it ends without an error the operation is settled
  exactly once: by one settlement per step that carries the durable identity of the step and
  verified amounts in its tokens, with the effects in the order of the steps whatever the order
  of the observations, and then the gate is released and the coordinator has forgotten it.
\<close>

theorem confirm_settles:
  assumes "ValidatePrepared operation = None" and "distinct (step_ids operation)"
    and "co_observed c (opn_ID operation) = None"
    and "\<forall>i < length (opn_Steps operation). 3 \<le> count_list schedule i"
  shows "\<exists>errs s' c'. Confirm cf schedule operation (s, c) = (Some errs, s', c') \<and>
    (errs = [] \<longrightarrow> (\<exists>sts. settled_by operation s sts (s', c')))"
proof -
  let ?c = "c\<lparr>co_operations := (co_operations c)(opn_ID operation \<mapsto> operation)\<rparr>"
  let ?n = "length (opn_Steps operation)"
  let ?x = "(replicate ?n WAwait, s, ?c)"
  obtain ws s' c' where run: "foldl (confirm_step cf operation) ?x schedule = (ws, s', c')" by (metis prod_cases3)
  have stage: "length ws = ?n \<and> (i < ?n \<longrightarrow> worker_done (ws ! i))" for i
  proof (cases "i < ?n")
    case True
    then show ?thesis using confirm_run_stage [of i ?x schedule cf operation] assms(4) by (auto simp: run worker_done_stage)
  next
    case False
    have "?n = 2" using assms(1) by (auto simp: ValidatePrepared_def split: if_splits)
    then show ?thesis using confirm_run_stage [of 0 ?x schedule cf operation, unfolded run] False by simp
  qed
  then have all: "list_all worker_done ws" by (simp add: list_all_length)
  have eq: "Confirm cf schedule operation (s, c) = (Some (List.map_filter worker_error ws), s', c')"
    using run all assms(1) by (simp add: Confirm_def Register_def)
  have "List.map_filter worker_error ws = [] \<Longrightarrow> \<exists>sts. settled_by operation s sts (s', c')"
    using Confirm_success [OF _ assms(2,3)] eq by auto
  then show ?thesis using eq by blast
qed

lemma store_call_inventory: "store_call ev f s = (r, s') \<Longrightarrow> lv_inventory s' = lv_inventory s"
  using store_call_extends [of ev f s r s'] by (simp add: extends_def)

lemma settle_joined_inventory:
  assumes "settle_joined store operation effects (s, c) = (err, s', c')"
  shows "lv_inventory s' = snd (Settle (opn_ID operation) effects (lv_inventory s))"
proof -
  obtain e i' where c1: "Settle (opn_ID operation) effects (lv_inventory s) = (e, i')" by (metis surj_pair)
  obtain r s1 where c2: "store_call (LvSettled (opn_ID operation)) (op_MarkSettled store (opn_ID operation)) (s\<lparr>lv_inventory := i'\<rparr>) = (r, s1)"
    by (metis surj_pair)
  have mark: "lv_inventory (snd (mark_manual store oid reason t)) = lv_inventory t" for oid reason t
    using store_call_inventory by (metis mark_manual_def prod.collapse)
  show ?thesis using assms store_call_inventory [OF c2]
    by (cases e; cases r) (auto simp: settle_joined_def Let_def c1 c2 mark)
qed

lemma settle_joined_durable:
  assumes "settle_joined store operation effects (s, c) = (Some (SettleDurable err), s', c')"
  shows "Settle (opn_ID operation) effects (lv_inventory s) = (None, lv_inventory s') \<and> c' = c"
proof -
  obtain e i' where c1: "Settle (opn_ID operation) effects (lv_inventory s) = (e, i')" by (metis surj_pair)
  have "e = None \<and> c' = c" using assms by (cases e) (auto simp: settle_joined_def Let_def c1 split: prod.splits option.splits)
  then show ?thesis using settle_joined_inventory [OF assms] c1 by simp
qed

text \<open>The settlements known of an operation once \<open>st\<close> is among them.\<close>

definition known_with :: "Settlement \<Rightarrow> Coordinator \<Rightarrow> (StepID \<times> Settlement) list" where
  "known_with st c = AList.update (stl_Step st) st (seen_of c (stl_Operation st))"

text \<open>The coordinator keeps each operation under its own identifier.\<close>

definition coordinator_ok :: "Coordinator \<Rightarrow> bool" where
  "coordinator_ok c \<longleftrightarrow> (\<forall>oid operation. co_operations c oid = Some operation \<longrightarrow> opn_ID operation = oid)"

lemma observe_join_cases:
  assumes ok: "coordinator_ok c" and run: "observe_join store st (s, c) = (err, s', c')"
  obtains (idle) "lv_inventory s' = lv_inventory s" "\<And>e. err \<noteq> Some (SettleDurable e)"
  | (settles) operation effects where "co_operations c (stl_Operation st) = Some operation" "opn_ID operation = stl_Operation st"
      "length (opn_Steps operation) \<le> length (known_with st c)" "collect_effects (known_with st c) (opn_Steps operation) = Some effects"
      "settle_joined store operation effects (s, c\<lparr>co_observed := (co_observed c)(stl_Operation st \<mapsto> known_with st c)\<rparr>) = (err, s', c')"
proof (cases "co_operations c (stl_Operation st)")
  case None
  then show ?thesis using run by (intro idle) (auto simp: observe_join_def)
next
  case (Some operation)
  then have oid: "opn_ID operation = stl_Operation st" using ok by (simp add: coordinator_ok_def)
  show ?thesis
  proof (cases "length (known_with st c) < length (opn_Steps operation)")
    case True
    then show ?thesis using run Some
      by (intro idle) (auto simp: observe_join_def Let_def seen_of_def [symmetric] known_with_def [symmetric])
  next
    case False
    let ?c = "c\<lparr>co_observed := (co_observed c)(stl_Operation st \<mapsto> known_with st c)\<rparr>"
    have rest: "(case collect_effects (known_with st c) (opn_Steps operation) of
        None \<Rightarrow> (case mark_manual store (opn_ID operation) ''settlement mismatch or failed leg'' s of
           (Some err, s') \<Rightarrow> (Some (SettlePort err), s', ?c) | (None, s') \<Rightarrow> (Some SettleMismatch, s', ?c))
      | Some effects \<Rightarrow> settle_joined store operation effects (s, ?c)) = (err, s', c')"
      using run False by (simp add: observe_join_def oid Some Let_def seen_of_def [symmetric] known_with_def [symmetric])
    show ?thesis
    proof (cases "collect_effects (known_with st c) (opn_Steps operation)")
      case None
      obtain r s1 where "store_call (LvManual (opn_ID operation))
          (op_MarkManualIntervention store (opn_ID operation) ''settlement mismatch or failed leg'') s = (r, s1)" by (metis surj_pair)
      then show ?thesis using rest None store_call_inventory
        by (intro idle; cases r) (auto simp: mark_manual_def)
    next
      case (Some effects)
      then show ?thesis using rest False oid \<open>co_operations c (stl_Operation st) = Some operation\<close>
        by (intro settles [of operation effects]) auto
    qed
  qed
qed

lemma Observe_join:
  assumes "ObserveSettlement store st (s, c) = (err, s', c')"
  obtains (refused) "lv_inventory s' = lv_inventory s" "\<And>e. err \<noteq> Some (SettleDurable e)"
  | (joins) s1 where "lv_inventory s1 = lv_inventory s" "observe_join store st (s1, c) = (err, s', c')"
proof -
  obtain r s1 where rec: "observe_record store st s = (r, s1)" by (metis surj_pair)
  have same: "lv_inventory s1 = lv_inventory s" using observe_record_extends [OF rec] by (simp add: extends_def)
  show ?thesis
  proof (cases r)
    case (Some x)
    have "x \<noteq> SettleDurable e" for e using rec Some by (auto simp: observe_record_def split: if_splits prod.splits option.splits)
    then show ?thesis using assms rec Some same by (intro refused) (auto simp: ObserveSettlement_def)
  next
    case None
    then show ?thesis using assms rec same by (intro joins [of s1]) (simp_all add: ObserveSettlement_def)
  qed
qed

lemma observe_retry:
  assumes ok: "inv_ok (lv_inventory s)" and reg: "coordinator_ok c"
    and run: "ObserveSettlement store st (s, c) = (Some (SettleDurable e), s', c')"
    and again: "lv_inventory s2 = lv_inventory s'" "ObserveSettlement store st (s2, c') = (err3, s3, c3)"
  shows "lv_inventory s3 = lv_inventory s'"
proof -
  from run obtain s1 where s1: "lv_inventory s1 = lv_inventory s" and join: "observe_join store st (s1, c) = (Some (SettleDurable e), s', c')"
    by (cases rule: Observe_join) auto
  from reg join obtain operation effects where o: "co_operations c (stl_Operation st) = Some operation" "opn_ID operation = stl_Operation st"
      "collect_effects (known_with st c) (opn_Steps operation) = Some effects"
      "settle_joined store operation effects (s1, c\<lparr>co_observed := (co_observed c)(stl_Operation st \<mapsto> known_with st c)\<rparr>) =
        (Some (SettleDurable e), s', c')"
    by (cases rule: observe_join_cases) auto
  from settle_joined_durable [OF o(4)] have c': "c' = c\<lparr>co_observed := (co_observed c)(stl_Operation st \<mapsto> known_with st c)\<rparr>"
    and fin: "Settle (stl_Operation st) effects (lv_inventory s) = (None, lv_inventory s')" by (simp_all add: o(2) s1)
  have known: "known_with st c' = known_with st c" by (simp add: c' known_with_def seen_of_def)
  have reg': "coordinator_ok c'" and op': "co_operations c' (stl_Operation st) = Some operation" using reg o(1) by (simp_all add: c' coordinator_ok_def)
  from again(2) show ?thesis
  proof (cases rule: Observe_join)
    case refused
    then show ?thesis using again(1) by simp
  next
    case (joins s4)
    from reg' joins(2) show ?thesis
    proof (cases rule: observe_join_cases)
      case idle
      then show ?thesis using joins(1) again(1) by simp
    next
      case (settles operation' effects')
      then have "operation' = operation" "effects' = effects" using op' known o(3) by auto
      then show ?thesis
        using settle_joined_inventory [OF settles(5)] joins(1) again(1) settles(2) ledger.settle_again [OF ok fin] by simp
    qed
  qed
qed

lemma observe_moves:
  assumes ok: "inv_ok (lv_inventory s)" and reg: "coordinator_ok c" and run: "ObserveSettlement store st (s, c) = (err, s', c')"
    and moved: "lv_inventory s' \<noteq> lv_inventory s"
  shows "\<exists>operation effects. co_operations c (stl_Operation st) = Some operation \<and>
    collect_effects (known_with st c) (opn_Steps operation) = Some effects \<and>
    Settle (stl_Operation st) effects (lv_inventory s) = (None, lv_inventory s')"
  using run
proof (cases rule: Observe_join)
  case (joins s1)
  from reg joins(2) show ?thesis
  proof (cases rule: observe_join_cases)
    case (settles operation effects)
    obtain e i' where stl: "Settle (stl_Operation st) effects (lv_inventory s) = (e, i')" by (metis surj_pair)
    have i': "lv_inventory s' = i'" using settle_joined_inventory [OF settles(5)] stl settles(2) joins(1) by simp
    have "e = None" using moved ledger.settle_refused [OF ok] stl i' by (cases e) auto
    then show ?thesis using settles(1,4) stl i' by blast
  qed (use moved joins in simp)
qed (use moved in simp)

text \<open>
  C13: Observing a settlement changes the inventory only with evidence for every leg: the
  operation is registered, each of its steps has an observed settlement with a verified effect
  in the tokens of the leg, and the ledger accepted exactly those amounts for the reservation
  of the operation. When the ledger accepted them but the durable mark failed, observing the
  same settlement again changes no balance and no reservation any more.
\<close>

theorem settlement_needs_evidence:
  assumes "inv_reachable (lv_inventory s)" and "coordinator_ok c" and "ObserveSettlement store st (s, c) = (err, s', c')"
  shows "(lv_inventory s' \<noteq> lv_inventory s \<longrightarrow>
      (\<exists>operation sts. co_operations c (stl_Operation st) = Some operation \<and> length sts = length (opn_Steps operation) \<and>
        (\<forall>i < length sts. map_of (known_with st c) (step_ids operation ! i) = Some (sts ! i) \<and>
           leg_verified (opn_Steps operation ! i) (sts ! i)) \<and>
        Settle (stl_Operation st) (concat (map2 leg_effects (opn_Steps operation) sts)) (lv_inventory s) = (None, lv_inventory s'))) \<and>
    (\<forall>e s2 err3 s3 c3. err = Some (SettleDurable e) \<longrightarrow> lv_inventory s2 = lv_inventory s' \<longrightarrow>
       ObserveSettlement store st (s2, c') = (err3, s3, c3) \<longrightarrow> lv_inventory s3 = lv_inventory s')"
proof -
  note ok = reachable_inv_ok [OF assms(1)]
  have evidence: "\<exists>sts. length sts = length (opn_Steps operation) \<and> effects = concat (map2 leg_effects (opn_Steps operation) sts) \<and>
      (\<forall>i < length sts. map_of (known_with st c) (step_ids operation ! i) = Some (sts ! i) \<and> leg_verified (opn_Steps operation ! i) (sts ! i))"
    if "collect_effects (known_with st c) (opn_Steps operation) = Some effects" for operation effects
    using collect_effects_Some [OF that] by (auto simp: step_ids_def)
  show ?thesis
    using observe_moves [OF ok assms(2,3)] evidence observe_retry [OF ok assms(2)] assms(3) by (intro conjI allI impI) blast+
qed

section \<open>Recovery only reads and records\<close>

definition only_records :: "'w Live \<Rightarrow> 'w Live \<Rightarrow> bool" where
  "only_records s s' \<longleftrightarrow> (\<exists>evs. lv_trace s' = lv_trace s @ evs \<and> list_all bookkeeping evs)"

lemma only_records_refl: "only_records s s"
  by (simp add: only_records_def)

lemma only_records_trans: "only_records s t \<Longrightarrow> only_records t u \<Longrightarrow> only_records s u"
  by (auto simp: only_records_def)

lemma extends_records: "extends evs s s' \<Longrightarrow> list_all bookkeeping evs \<Longrightarrow> only_records s s'"
  by (auto simp: extends_def only_records_def)

lemma store_call_records: "store_call ev f s = (r, s') \<Longrightarrow> bookkeeping ev \<Longrightarrow> only_records s s'"
  by (drule store_call_extends) (auto intro!: extends_records split: if_splits)

lemma mark_manual_records: "only_records s (snd (mark_manual store oid reason s))"
  using store_call_records by (metis bookkeeping.simps(5) mark_manual_def prod.collapse)

lemma settle_joined_records:
  assumes "settle_joined store operation effects (s, c) = (err, s', c')"
  shows "only_records s s'"
proof -
  obtain e i' where c1: "Settle (opn_ID operation) effects (lv_inventory s) = (e, i')" by (metis surj_pair)
  obtain r s1 where c2: "store_call (LvSettled (opn_ID operation)) (op_MarkSettled store (opn_ID operation)) (s\<lparr>lv_inventory := i'\<rparr>) = (r, s1)"
    by (metis surj_pair)
  have q: "only_records s s1" using store_call_records [OF c2] by (simp add: only_records_def)
  have m: "only_records s (snd (mark_manual store oid reason (s\<lparr>lv_inventory := i'\<rparr>)))" for oid reason
    using mark_manual_records [of "s\<lparr>lv_inventory := i'\<rparr>"] by (simp add: only_records_def)
  show ?thesis using assms q m only_records_trans [OF q mark_manual_records]
    by (cases e; cases r) (auto simp: settle_joined_def Let_def c1 c2 only_records_def)
qed

lemma observe_join_records:
  assumes "observe_join store st (s, c) = (err, s', c')"
  shows "only_records s s'"
proof -
  have "only_records s s1" if "mark_manual store oid reason s = (r, s1)" for oid reason r s1
    using mark_manual_records [of s store oid reason] that by simp
  then show ?thesis using assms
    by (auto simp: observe_join_def Let_def only_records_refl dest: settle_joined_records split: option.splits if_splits prod.splits)
qed

lemma worker_step_records:
  assumes "worker_step cf oid step w (s, c) = (w', s', c')"
  shows "only_records s s'"
proof (cases w)
  case WAwait
  obtain r s1 where c1: "awaitOrReconcile cf (step\<lparr>os_Operation := oid\<rparr>) s = (r, s1)" by (metis surj_pair)
  then have "s' = s1" using assms WAwait by (cases r) (auto simp: worker_step_def Let_def)
  then show ?thesis using extends_records [OF awaitOrReconcile_extends [OF c1]] by simp
next
  case (WRecord x)
  obtain r s1 where c1: "observe_record (cf_Store cf) x s = (r, s1)" by (metis surj_pair)
  then have "s' = s1" using assms WRecord by (cases r) (auto simp: worker_step_def)
  then show ?thesis using extends_records [OF observe_record_extends [OF c1]] by simp
next
  case (WJoin x)
  then show ?thesis using assms by (auto simp: worker_step_def dest: observe_join_records split: prod.splits)
next
  case (WDone x)
  then show ?thesis using assms by (simp add: worker_step_def only_records_refl)
qed

lemma confirm_run_records: "only_records (fst (snd x)) (fst (snd (foldl (confirm_step cf operation) x schedule)))"
proof (induction schedule arbitrary: x)
  case Nil
  then show ?case by (simp add: only_records_refl)
next
  case (Cons i schedule)
  obtain ws s c where x: "x = (ws, s, c)" by (cases x) auto
  have "only_records s (fst (snd (confirm_step cf operation x i)))"
    by (auto simp: x confirm_step_def only_records_refl dest: worker_step_records split: prod.splits)
  from only_records_trans [OF this Cons.IH [of "confirm_step cf operation x i"]] show ?case by (simp add: x)
qed

lemma Confirm_records:
  assumes "Confirm cf schedule operation (s, c) = (r, s', c')"
  shows "only_records s s'"
  using assms confirm_run_records [of "(replicate (length (opn_Steps operation)) WAwait, s, snd (Register operation c))" cf operation schedule]
  by (auto simp: Confirm_def only_records_refl split: prod.splits option.splits)

text \<open>
  C37: The startup recovery of one pending operation that reports success has restored its
  durable reservation and settled it with a verified settlement for every leg, has freed the
  gate, and has broadcast and committed nothing.
\<close>

theorem recovery_settles:
  assumes "inv_reachable (lv_inventory s)"
    and "fst (op_Pending (cf_Store cf) (lv_world s)) = Inr [operation]" and "distinct (step_ids operation)"
    and "co_observed c (opn_ID operation) = None" and "opn_ID operation \<noteq> []"
    and "ReconcilePending cf schedule (s, c) = (Some None, s', c')"
  shows "\<exists>(reservation :: Reservation) r i sts.
    Reserve (rsv_ID reservation) (opn_ID operation) (rsv_requirements reservation) (lv_inventory s) = (Inr r, i) \<and>
    length sts = length (opn_Steps operation) \<and>
    (\<forall>k < length sts. leg_verified (opn_Steps operation ! k) (sts ! k) \<and> attributed operation k (sts ! k)) \<and>
    Settle (opn_ID operation) (concat (map2 leg_effects (opn_Steps operation) sts)) i = (None, lv_inventory s') \<and>
    lv_gate s' = [] \<and> only_records s s'"
proof -
  let ?store = "cf_Store cf" and ?oid = "opn_ID operation"
  obtain s1 where c1: "on_world (op_Pending ?store) s = (Inr [operation], s1)"
    using assms(2) by (cases "op_Pending ?store (lv_world s)") (simp add: on_world_def)
  obtain x s2 where c2: "on_world (op_Reservation ?store ?oid) s1 = (x, s2)" by (metis surj_pair)
  obtain rsv where x: "x = Inr rsv" using assms(6) by (cases x) (simp_all add: ReconcilePending_def Let_def c1 c2)
  obtain y i where c3: "Reserve (rsv_ID rsv) ?oid (rsv_requirements rsv) (lv_inventory s2) = (y, i)" by (metis surj_pair)
  obtain r where y: "y = Inr r" using assms(6) by (cases y) (simp_all add: ReconcilePending_def Let_def c1 c2 x c3)
  have k: "lv_inventory s2 = lv_inventory s" "lv_gate s2 = lv_gate s" "lv_trace s2 = lv_trace s"
    using on_world_extends [OF c1] on_world_extends [OF c2] by (simp_all add: extends_def)
  define s3 where "s3 = s2\<lparr>lv_inventory := i, lv_gate := ?oid\<rparr>"
  have run: "(case Confirm cf schedule operation (s3, c) of
                    (None, st') \<Rightarrow> (None, st')
                  | (Some (err # errs), st') \<Rightarrow> (Some (Some (RecoveryConfirm (err # errs))), st')
                  | (Some [], s4, c') \<Rightarrow>
                    (case on_world (op_Pending ?store) s4 of
                       (Inl err, s5) \<Rightarrow> (Some (Some (RecoveryPort err)), s5, c')
                     | (Inr remaining, s5) \<Rightarrow>
                         (Some (if remaining = [] then None else Some RecoveryRequired), s5, c'))) = (Some None, s', c')"
  proof -
    have "lv_gate s2 = [] \<or> lv_gate s2 = ?oid"
      using assms(6) by (auto simp: ReconcilePending_def Let_def c1 c2 x c3 y GateActive_def split: if_splits)
    then show ?thesis
    proof
      assume "lv_gate s2 = []"
      then show ?thesis using assms(5,6)
        by (simp add: ReconcilePending_def Let_def c1 c2 x c3 y GateActive_def GateRestore_def TryBegin_def s3_def)
    next
      assume own: "lv_gate s2 = ?oid"
      then have eq: "s2\<lparr>lv_inventory := i\<rparr> = s3" by (cases s2) (simp add: s3_def)
      show ?thesis using assms(5,6) own by (simp add: ReconcilePending_def Let_def c1 c2 x c3 y GateActive_def eq)
    qed
  qed
  obtain errs s4 c4 where c4: "Confirm cf schedule operation (s3, c) = (errs, s4, c4)" by (metis prod_cases3)
  then have e: "errs = Some []" using run by (cases errs) (auto split: list.splits)
  obtain z s5 where c5: "on_world (op_Pending ?store) s4 = (z, s5)" by (metis surj_pair)
  then have s': "s' = s5" using run c4 e by (cases z) auto
  from Confirm_success [OF c4 [unfolded e] assms(3,4)] obtain sts where sts: "settled_by operation s3 sts (s4, c4)" by blast
  have q: "lv_inventory s' = lv_inventory s4" "lv_gate s' = lv_gate s4" "lv_trace s' = lv_trace s4"
    using on_world_extends [OF c5] s' by (simp_all add: extends_def)
  have "only_records s s'"
    using Confirm_records [OF c4] q(3) k(3) by (simp add: only_records_def s3_def)
  moreover have "Reserve (rsv_ID rsv) ?oid (rsv_requirements rsv) (lv_inventory s) = (Inr r, i)" using c3 y k(1) by simp
  moreover have "length sts = length (opn_Steps operation)" "lv_gate s' = []"
    "\<forall>k < length sts. leg_verified (opn_Steps operation ! k) (sts ! k) \<and> attributed operation k (sts ! k)"
    "Settle ?oid (concat (map2 leg_effects (opn_Steps operation) sts)) i = (None, lv_inventory s')"
    using sts q assms(5) by (auto simp: settled_by_def s3_def GateComplete_def)
  ultimately show ?thesis by blast
qed

section \<open>Witnesses\<close>

definition live_step :: "Leg \<Rightarrow> OperationStep" where
  "live_step leg = \<lparr>os_Operation = ''op'', os_Leg = leg, os_Identity = live_identity leg, os_Allocation = None,
     os_Technical = StatePrepared, os_Economic = EconomicReserved\<rparr>"

lemma live_steps: "opn_Steps live_operation = [live_step live_buy, live_step live_sell]" "opn_ID live_operation = ''op''"
  by (simp_all add: live_operation_def build_operation_def live_plan_fields live_step_def live_prepared_def live_artifact_of
      live_leg_fields live_artifact_def)

lemma live_step_ids: "step_ids live_operation = [''buy'', ''sell'']"
  by (simp add: step_ids_def live_steps live_step_def live_leg_fields)

definition live_reserved :: Inventory where
  "live_reserved = live_inventory\<lparr>reserved := (reserved live_inventory)(live_key ''c'' ''a'' ''q'' \<mapsto> 4, live_key ''d'' ''e'' ''b'' \<mapsto> 2),
       reservations := [''op'' \<mapsto> live_reservation]\<rparr>"

lemma live_reserved_reachable: "inv_reachable live_reserved"
proof (rule reach_step [OF live_inventory_reachable step_reserve [OF _ live_reserve [folded live_reserved_def]]])
  show "reqs_wf [input_requirement live_buy, input_requirement live_sell]"
    by (simp add: reqs_wf_def input_requirement_def live_leg_fields live_amount_def)
qed

definition live_effects :: "Effect list" where
  "live_effects = leg_effects (live_step live_buy) (live_settlement (live_step live_buy)) @
     leg_effects (live_step live_sell) (live_settlement (live_step live_sell))"

lemma live_effects_eq: "live_effects =
   [\<lparr>eff_Key = live_key ''c'' ''a'' ''q'', eff_Delta = Some (- 4)\<rparr>, \<lparr>eff_Key = live_key ''c'' ''a'' ''b'', eff_Delta = Some 2\<rparr>,
    \<lparr>eff_Key = live_key ''d'' ''e'' ''b'', eff_Delta = Some (- 2)\<rparr>, \<lparr>eff_Key = live_key ''d'' ''e'' ''q'', eff_Delta = Some 5\<rparr>]"
  by (simp add: live_effects_def leg_effects_def live_settlement_def live_step_def live_leg_fields live_key_def live_amount_def)

lemma live_settle: "\<exists>i'. Settle ''op'' live_effects live_reserved = (None, i') \<and>
    balances i' (live_key ''c'' ''a'' ''q'') = Some 6 \<and> balances i' (live_key ''d'' ''e'' ''q'') = Some 15"
proof -
  have "\<exists>fp. effectFingerprint live_effects = Inr fp" by (simp add: fingerprint_Inr live_effects_eq live_key_def key_complete_def)
  then obtain fp where fp: "effectFingerprint live_effects = Inr fp" by blast
  have r: "reservations live_reserved ''op'' = Some live_reservation" by (simp add: live_reserved_def)
  have b: "balances live_reserved = balances live_inventory" by (simp add: live_reserved_def)
  have eff: "first_error (effect_error live_reserved) live_effects = None" "negative_error live_reserved (combinedEffects live_effects) = None"
    by (simp_all add: live_effects_eq effect_error_def b key_complete_def negative_error_def combinedEffects_def live_inventory_def Let_def live_key_def)
  note S = Settle_applies [OF reachable_inv_ok [OF live_reserved_reachable] r _ fp eff]
  have "net_effect live_effects (live_key ''c'' ''a'' ''q'') = - 4" "net_effect live_effects (live_key ''d'' ''e'' ''q'') = 5"
    by (simp_all add: net_effect_def live_effects_eq live_key_def)
  then show ?thesis using S by (simp add: live_effects_eq add_to_def b) (simp add: live_inventory_def Let_def live_key_def)
qed

lemma live_verified: "leg_verified (live_step leg) (live_settlement (live_step leg))"
  by (simp add: leg_verified_def live_settlement_def)

definition live_half :: Coordinator where
  "live_half = \<lparr>co_operations = [''op'' \<mapsto> live_operation],
     co_observed = [''op'' \<mapsto> [(''buy'', live_settlement (live_step live_buy))]]\<rparr>"

definition live_waiting :: "unit Live" where
  "live_waiting = \<lparr>lv_world = (), lv_gate = ''op'', lv_inventory = live_reserved, lv_trace = []\<rparr>"

lemma live_settlement_fields: "stl_Operation (live_settlement (live_step leg)) = ''op''"
  "stl_Step (live_settlement (live_step leg)) = leg_ID leg" "stl_ObservedAt (live_settlement (live_step leg)) = 11"
  by (simp_all add: live_settlement_def live_step_def)

lemma live_collect:
  "collect_effects [(''buy'', live_settlement (live_step live_buy)), (''sell'', live_settlement (live_step live_sell))]
     [live_step live_buy, live_step live_sell] = Some live_effects"
proof -
  have "os_Leg (live_step leg) = leg" for leg by (simp add: live_step_def)
  then show ?thesis by (simp add: live_verified live_leg_fields live_effects_def)
qed

lemma live_observe:
  "\<exists>s' c'. ObserveSettlement live_store (live_settlement (live_step live_sell)) (live_waiting, live_half) = (None, s', c') \<and>
     lv_inventory s' = snd (Settle ''op'' live_effects live_reserved)"
proof -
  obtain i' where i': "Settle ''op'' live_effects live_reserved = (None, i')" using live_settle by blast
  show ?thesis
    by (simp add: ObserveSettlement_def observe_record_def live_settlement_fields live_leg_fields IsZeroTime_def store_call_def on_world_def
        live_store_def observe_join_def live_half_def Let_def live_steps live_collect settle_joined_def live_waiting_def log_event_def i'
        del: collect_effects.simps)
qed

theorem settlement_needs_evidence_witness:
  "\<exists>(s' :: unit Live) sts. lv_inventory s' \<noteq> lv_inventory live_waiting \<and> length sts = 2 \<and> leg_verified (live_step live_buy) (sts ! 0) \<and>
     Settle ''op'' (concat (map2 leg_effects [live_step live_buy, live_step live_sell] sts)) live_reserved = (None, lv_inventory s')"
proof -
  obtain s' c' where run: "ObserveSettlement live_store (live_settlement (live_step live_sell)) (live_waiting, live_half) = (None, s', c')"
    and s': "lv_inventory s' = snd (Settle ''op'' live_effects live_reserved)" using live_observe by blast
  have "balances live_reserved (live_key ''c'' ''a'' ''q'') = Some 10"
    by (simp add: live_reserved_def live_inventory_def Let_def live_key_def)
  moreover have "balances (lv_inventory s') (live_key ''c'' ''a'' ''q'') = Some 6" using live_settle s' by auto
  ultimately have moved: "lv_inventory s' \<noteq> lv_inventory live_waiting" by (auto simp: live_waiting_def)
  have reach: "inv_reachable (lv_inventory live_waiting)" "coordinator_ok live_half"
    by (simp_all add: live_waiting_def live_reserved_reachable coordinator_ok_def live_half_def live_steps)
  obtain operation sts where "co_operations live_half (stl_Operation (live_settlement (live_step live_sell))) = Some operation"
      "length sts = length (opn_Steps operation)" "\<forall>i < length sts. leg_verified (opn_Steps operation ! i) (sts ! i)"
      "Settle (stl_Operation (live_settlement (live_step live_sell))) (concat (map2 leg_effects (opn_Steps operation) sts))
         (lv_inventory live_waiting) = (None, lv_inventory s')"
    using settlement_needs_evidence [OF reach run] moved by blast
  then have "length sts = 2" "leg_verified (live_step live_buy) (sts ! 0)"
    "Settle ''op'' (concat (map2 leg_effects [live_step live_buy, live_step live_sell] sts)) live_reserved = (None, lv_inventory s')"
    by (auto simp: live_settlement_fields live_half_def live_steps live_waiting_def)
  then show ?thesis using moved by blast
qed

definition idle_manager :: "AccountID \<Rightarrow> 'w TxManager" where
  "idle_manager a = (let failed = \<lparr>pe_stage = None, pe_invariant = False, pe_text = []\<rparr> in
     \<lparr>tm_Account = a, tm_Warm = (\<lambda>w. (None, w)), tm_Prepare = (\<lambda>x w. (Inl failed, w)),
      tm_Broadcast = (\<lambda>p w. ((live_outcome [] (pt_Leg p), Some failed), w)), tm_Reconcile = (\<lambda>step w. (Inl failed, w))\<rparr>)"

text \<open>A store that has one pending operation until that operation is settled.\<close>

definition pending_store :: "bool OperationalStore" where
  "pending_store = \<lparr>op_CommitPrepared = (\<lambda>x r w. (None, w)), op_RecordBroadcast = (\<lambda>x y z t w. (None, w)),
     op_RecordSettlement = (\<lambda>x w. (None, w)), op_MarkSettled = (\<lambda>x w. (None, True)),
     op_MarkManualIntervention = (\<lambda>x y w. (None, w)), op_MarkNoExecution = (\<lambda>x y w. (None, w)),
     op_Pending = (\<lambda>w. (Inr (if w then [] else [live_operation]), w)), op_Reservation = (\<lambda>x w. (Inr live_reservation, w))\<rparr>"

definition pending_confirmer :: "bool ConfirmerConfig" where
  "pending_confirmer = \<lparr>cf_Store = pending_store,
     cf_WebSockets = [(''a'', \<lambda>step w. (Inr (live_settlement step), w)), (''e'', \<lambda>step w. (Inr (live_settlement step), w))],
     cf_Managers = [(''a'', idle_manager ''a''), (''e'', idle_manager ''e'')], cf_FallbackAfter = 5\<rparr>"

definition pending_start :: "OperationGate \<Rightarrow> Inventory \<Rightarrow> bool Live" where
  "pending_start gate i = \<lparr>lv_world = False, lv_gate = gate, lv_inventory = i, lv_trace = []\<rparr>"

lemma live_source_complete: "leg = live_buy \<or> leg = live_sell \<Longrightarrow>
    websocketSettlementComplete (live_step leg) (live_settlement (live_step leg))"
  by (auto simp: websocketSettlementComplete_def same_identity_def live_settlement_def IsZeroTime_def)

lemma pending_worker:
  assumes "leg = live_buy \<or> leg = live_sell"
  shows "worker_step pending_confirmer ''op'' (live_step leg) WAwait (s, c) = (WRecord (live_settlement (live_step leg)), s, c)"
    "worker_step pending_confirmer ''op'' (live_step leg) (WRecord (live_settlement (live_step leg))) (s, c) =
       (WJoin (live_settlement (live_step leg)), log_event (LvSettlement (live_settlement (live_step leg))) s, c)"
proof -
  have upd: "(live_step leg)\<lparr>os_Operation := ''op''\<rparr> = live_step leg" by (simp add: live_step_def)
  have src: "map_of (cf_WebSockets pending_confirmer) (leg_Account leg) = Some (\<lambda>step w. (Inr (live_settlement step), w))"
    "\<exists>m. map_of (cf_Managers pending_confirmer) (leg_Account leg) = Some m"
    using assms by (auto simp: pending_confirmer_def live_leg_fields)
  have aw: "awaitOrReconcile pending_confirmer (live_step leg) s = (Inr (live_settlement (live_step leg)), s)"
    using src live_source_complete [OF assms] by (auto simp: awaitOrReconcile_def Let_def on_world_def live_step_def)
  have at: "attribute_settlement ''op'' (live_step leg) (live_settlement (live_step leg)) = live_settlement (live_step leg)"
    using assms by (auto simp: attribute_settlement_def live_settlement_def live_step_def live_identity_def)
  show "worker_step pending_confirmer ''op'' (live_step leg) WAwait (s, c) = (WRecord (live_settlement (live_step leg)), s, c)"
    by (simp add: worker_step_def upd aw at Let_def) (simp add: same_identity_def live_settlement_def live_step_def)
  show "worker_step pending_confirmer ''op'' (live_step leg) (WRecord (live_settlement (live_step leg))) (s, c) =
       (WJoin (live_settlement (live_step leg)), log_event (LvSettlement (live_settlement (live_step leg))) s, c)"
    using assms by (auto simp: worker_step_def observe_record_def live_settlement_fields live_leg_fields IsZeroTime_def store_call_def on_world_def
        pending_confirmer_def pending_store_def)
qed

lemma pending_confirm:
  "\<exists>s' c'. Confirm pending_confirmer [1, 0, 0, 1, 0, 1] live_operation (pending_start ''op'' live_reserved, NewSettlementCoordinator) =
     (Some [], s', c') \<and> lv_world s'"
proof -
  obtain i' where i': "Settle ''op'' live_effects live_reserved = (None, i')" using live_settle by blast
  have col: "collect_effects [(''buy'', live_settlement (live_step live_buy)), (''sell'', live_settlement (live_step live_sell))]
     [live_step live_buy, live_step live_sell] = Some live_effects" by (rule live_collect)
  show ?thesis
    by (simp add: Confirm_def Register_def live_operation_valid live_steps NewSettlementCoordinator_def numeral_2_eq_2 confirm_step_def pending_worker
        pending_start_def log_event_def)
      (simp add: worker_step_def observe_join_def live_settlement_fields live_leg_fields live_steps Let_def col settle_joined_def i' pending_confirmer_def
        pending_store_def store_call_def on_world_def log_event_def List.map_filter_def del: collect_effects.simps)
qed

theorem confirm_settles_witness:
  "\<exists>s' c' sts. Confirm pending_confirmer [1, 0, 0, 1, 0, 1] live_operation (pending_start ''op'' live_reserved, NewSettlementCoordinator) =
     (Some [], s', c') \<and> settled_by live_operation (pending_start ''op'' live_reserved) sts (s', c')"
proof -
  have "\<forall>i < length (opn_Steps live_operation). 3 \<le> count_list [1, 0, 0, 1, 0, 1] i"
    by (auto simp: live_steps less_Suc_eq numeral_2_eq_2)
  from confirm_settles [OF live_operation_valid _ _ this, of NewSettlementCoordinator pending_confirmer "pending_start ''op'' live_reserved"]
    pending_confirm show ?thesis by (auto simp: live_step_ids NewSettlementCoordinator_def)
qed

theorem recovery_settles_witness:
  "\<exists>s' c'. ReconcilePending pending_confirmer [1, 0, 0, 1, 0, 1] (pending_start [] live_inventory, NewSettlementCoordinator) = (Some None, s', c') \<and>
     lv_gate s' = [] \<and> only_records (pending_start [] live_inventory) s'"
proof -
  obtain s1 c1 where c: "Confirm pending_confirmer [1, 0, 0, 1, 0, 1] live_operation (pending_start ''op'' live_reserved, NewSettlementCoordinator) =
     (Some [], s1, c1)" "lv_world s1" using pending_confirm by blast
  have e: "(pending_start [] live_inventory)\<lparr>lv_world := False, lv_inventory := live_reserved, lv_gate := ''op''\<rparr> = pending_start ''op'' live_reserved"
    "(pending_start [] live_inventory)\<lparr>lv_world := False\<rparr> = pending_start [] live_inventory"
    "(pending_start [] live_inventory)\<lparr>lv_inventory := live_reserved, lv_gate := ''op''\<rparr> = pending_start ''op'' live_reserved"
    by (simp_all add: pending_start_def)
  have r: "Reserve (rsv_ID live_reservation) ''op'' (rsv_requirements live_reservation) live_inventory = (Inr live_reservation, live_reserved)"
    using live_reserve by (simp add: live_reserved_def live_reservation_def)
  have run: "\<exists>s'. ReconcilePending pending_confirmer [1, 0, 0, 1, 0, 1] (pending_start [] live_inventory, NewSettlementCoordinator) = (Some None, s', c1)"
    using c r by (simp add: ReconcilePending_def Let_def pending_confirmer_def [THEN arg_cong [of _ _ cf_Store]] pending_store_def on_world_def e live_steps
        GateActive_def GateRestore_def TryBegin_def pending_start_def [THEN arg_cong [of _ _ lv_world]]
        pending_start_def [THEN arg_cong [of _ _ lv_inventory]] pending_start_def [THEN arg_cong [of _ _ lv_gate]])
  then obtain s' where run: "ReconcilePending pending_confirmer [1, 0, 0, 1, 0, 1] (pending_start [] live_inventory, NewSettlementCoordinator) = (Some None, s', c1)"
    by blast
  have pre: "inv_reachable (lv_inventory (pending_start [] live_inventory))"
    "fst (op_Pending (cf_Store pending_confirmer) (lv_world (pending_start [] live_inventory))) = Inr [live_operation]"
    "distinct (step_ids live_operation)" "co_observed NewSettlementCoordinator (opn_ID live_operation) = None" "opn_ID live_operation \<noteq> []"
    by (simp_all add: pending_start_def live_inventory_reachable pending_confirmer_def pending_store_def live_step_ids NewSettlementCoordinator_def live_steps)
  from recovery_settles [OF pre run] run show ?thesis by blast
qed

end
