(* ===== verification/Strategy_Cache.thy ===== *)
theory Strategy_Cache
  imports Exact_Output Arbitrage_Types
begin

text \<open>
  The caches of the strategies, \<open>src/core/strategy/quote_cache.go\<close> and \<open>valuation_cache.go\<close>. A
  method under its mutex is one function from the cache to its result and the new cache. What a
  source computes is an argument; the cache must not change it, which is proved for the sources
  that meet the contract of the locale \<open>local_source\<close>.
\<close>

section \<open>The quote cache\<close>

record quoteCacheKey =
  ck_source :: SourceID
  ck_market :: MarketID
  ck_mode :: string
  ck_tokenIn :: TokenID
  ck_tokenOut :: TokenID
  ck_amount :: string
  ck_purpose :: string

record cachedMarketQuotes =
  cm_stateHash :: string
  cm_quotes :: "quoteCacheKey \<rightharpoonup> Quote"

type_synonym quoteCache = "MarketID \<rightharpoonup> cachedMarketQuotes"

definition newQuoteCache :: quoteCache where
  "newQuoteCache = Map.empty"

datatype 'err cache_error = CacheContext | CacheCompute 'err | CacheRebind quote_error

text \<open>A source as the strategies see it: its identity, and the optional capability \<open>CachePolicy\<close>.\<close>

record source_identity =
  si_ID :: SourceID
  si_CacheQuotes :: "bool option"

definition rebind :: "Quote \<Rightarrow> SnapshotMetadata \<Rightarrow> gotime \<Rightarrow> (quote_error, Quote) result" where
  "rebind cached metadata quotedAt =
     NewQuote \<lparr>q_Source = q_Source cached, q_Market = q_Market cached, q_SnapshotVersion = md_Version metadata,
       q_SnapshotHash = md_StateHash metadata, q_SourcePosition = q_SourcePosition cached, q_ResponseHash = q_ResponseHash cached,
       q_Purpose = q_Purpose cached, q_Mode = q_Mode cached, q_Quality = q_Quality cached, q_AmountIn = q_AmountIn cached,
       q_AmountOut = q_AmountOut cached, q_QuotedAt = quotedAt, q_fees = []\<rparr> (q_fees cached)"

definition market_quotes :: "quoteCache \<Rightarrow> SnapshotMetadata \<Rightarrow> cachedMarketQuotes" where
  "market_quotes cache metadata =
     (case cache (md_Market metadata) of
        Some state \<Rightarrow> if cm_stateHash state = md_StateHash metadata then state
                      else \<lparr>cm_stateHash = md_StateHash metadata, cm_quotes = Map.empty\<rparr>
      | None \<Rightarrow> \<lparr>cm_stateHash = md_StateHash metadata, cm_quotes = Map.empty\<rparr>)"

text \<open>The source and the computation are never nil in the calls of the strategies.\<close>

definition getOrCompute ::
  "bool \<Rightarrow> SnapshotMetadata \<Rightarrow> source_identity \<Rightarrow> string \<Rightarrow> TokenID \<Rightarrow> TokenID \<Rightarrow> TokenAmount \<Rightarrow> string \<Rightarrow> gotime \<Rightarrow>
   ('err, Quote) result \<Rightarrow> quoteCache \<Rightarrow> ('err cache_error, Quote \<times> bool) result \<times> quoteCache" where
  "getOrCompute ctxErr metadata source mode tokenIn tokenOut amount purpose quotedAt computed cache =
     (if ctxErr then (Inl CacheContext, cache)
      else
        let key = \<lparr>ck_source = si_ID source, ck_market = md_Market metadata, ck_mode = mode, ck_tokenIn = tokenIn,
                   ck_tokenOut = tokenOut, ck_amount = AmountString amount, ck_purpose = purpose\<rparr> in
        if si_CacheQuotes source = Some False
        then (rbind (map_err CacheCompute computed) (\<lambda>quote. Inr (quote, False)), cache)
        else
          let state = market_quotes cache metadata; cache' = cache(md_Market metadata \<mapsto> state) in
          case cm_quotes state key of
            Some cached \<Rightarrow> (rbind (map_err CacheRebind (rebind cached metadata quotedAt)) (\<lambda>quote. Inr (quote, True)), cache')
          | None \<Rightarrow>
              (case computed of
                 Inl e \<Rightarrow> (Inl (CacheCompute e), cache')
               | Inr quote \<Rightarrow>
                   (Inr (quote, False), cache(md_Market metadata \<mapsto> state\<lparr>cm_quotes := (cm_quotes state)(key \<mapsto> quote)\<rparr>))))"

section \<open>The valuation cache\<close>

record valuationObservation =
  vo_price :: rat
  vo_at :: gotime

text \<open>The observations are a Go map with the latest observation of each key, as an association list.\<close>

record BaseValuationCache =
  bv_base :: AssetID
  bv_quote :: AssetID
  bv_version :: "64 word"
  bv_observations :: "(string \<times> valuationObservation) list"

datatype valuation_error =
    ValuationAssets
  | ValuationObservation
  | ValuationTokens
  | ValuationAmount amount_error
  | ValuationPair
  | ValuationPrice
  | ValuationCapture
  | ValuationEmpty
  | ValuationSnapshotError arb_error

definition NewBaseValuationCache :: "AssetID \<Rightarrow> AssetID \<Rightarrow> (valuation_error, BaseValuationCache) result" where
  "NewBaseValuationCache base quote =
     (if base = [] \<or> quote = [] \<or> base = quote then Inl ValuationAssets
      else Inr \<lparr>bv_base = base, bv_quote = quote, bv_version = 0, bv_observations = []\<rparr>)"

definition implied_price :: "BaseValuationCache \<Rightarrow> Quote \<Rightarrow> Token \<Rightarrow> Token \<Rightarrow> (valuation_error, rat) result" where
  "implied_price c quote tokenIn tokenOut =
     rbind (map_err ValuationAmount (ToAssetQuantity (q_AmountIn quote) tokenIn)) (\<lambda>input.
     rbind (map_err ValuationAmount (ToAssetQuantity (q_AmountOut quote) tokenOut)) (\<lambda>out.
     if tok_Asset tokenIn = bv_quote c \<and> tok_Asset tokenOut = bv_base c then Inr (qty_value input / qty_value out)
     else if tok_Asset tokenIn = bv_base c \<and> tok_Asset tokenOut = bv_quote c then Inr (qty_value out / qty_value input)
     else Inl ValuationPair))"

definition ObserveValuation ::
  "string \<Rightarrow> Quote \<Rightarrow> Token \<Rightarrow> Token \<Rightarrow> gotime \<Rightarrow> BaseValuationCache \<Rightarrow> valuation_error option \<times> BaseValuationCache" where
  "ObserveValuation key quote tokenIn tokenOut observedAt c =
     (if key = [] \<or> IsZeroTime observedAt \<or> q_Quality quote \<noteq> QuoteQualityExact then (Some ValuationObservation, c)
      else if tok_ID tokenIn \<noteq> amt_token (q_AmountIn quote) \<or> tok_ID tokenOut \<noteq> amt_token (q_AmountOut quote) \<or>
              AmountIsZero (q_AmountIn quote) \<or> AmountIsZero (q_AmountOut quote) then (Some ValuationTokens, c)
      else case implied_price c quote tokenIn tokenOut of
        Inl e \<Rightarrow> (Some e, c)
      | Inr price \<Rightarrow>
          if price \<le> 0 then (Some ValuationPrice, c)
          else (None, c\<lparr>bv_version := bv_version c + 1,
                 bv_observations := (key, \<lparr>vo_price = price, vo_at = observedAt\<rparr>) # filter (\<lambda>o'. fst o' \<noteq> key) (bv_observations c)\<rparr>))"

definition ValuationSnapshotOf :: "gotime \<Rightarrow> BaseValuationCache \<Rightarrow> (valuation_error, ValuationSnapshot) result" where
  "ValuationSnapshotOf capturedAt c =
     (if IsZeroTime capturedAt then Inl ValuationCapture
      else if bv_observations c = [] then Inl ValuationEmpty
      else
        let sum_prices = sum_list (map (\<lambda>o'. vo_price (snd o')) (bv_observations c));
            mean = sum_prices / of_nat (length (bv_observations c)) in
        map_err ValuationSnapshotError
          (NewValuationSnapshot (bv_version c) (bv_base c) (bv_quote c) (Some mean) (int (length (bv_observations c))) capturedAt))"

definition ResetValuation :: "BaseValuationCache \<Rightarrow> BaseValuationCache" where
  "ResetValuation c = c\<lparr>bv_version := bv_version c + 1, bv_observations := []\<rparr>"

section \<open>Sources the cache may serve\<close>

text \<open>The stamp that a quote carries of the snapshot and the moment it was made for.\<close>

definition stamp :: "SnapshotMetadata \<Rightarrow> gotime \<Rightarrow> Quote \<Rightarrow> Quote" where
  "stamp md at_time q = q\<lparr>q_SnapshotVersion := md_Version md, q_SnapshotHash := md_StateHash md, q_QuotedAt := at_time\<rparr>"

text \<open>
  The contract of a local source, for one fixed request: on the snapshots of a mirror, quotes are
  valid, carry the stamp of their snapshot, and apart from the stamp depend on the state hash only.
\<close>

lemma NewQuote_restamp:
  assumes "q_SnapshotVersion q \<noteq> 0" "v \<noteq> 0" "q_QuotedAt q \<noteq> 0" "t \<noteq> 0"
  shows "NewQuote (q\<lparr>q_SnapshotVersion := v, q_SnapshotHash := h, q_QuotedAt := t, q_fees := fs\<rparr>) fees =
    rbind (NewQuote q fees) (\<lambda>r. Inr (r\<lparr>q_SnapshotVersion := v, q_SnapshotHash := h, q_QuotedAt := t\<rparr>))"
  using assms unfolding NewQuote_def Let_def check_def rbind_def IsZeroTime_def
  by (simp split: option.split) blast

lemma NewQuote_stamps: "NewQuote q fees = Inr r \<Longrightarrow> q_SnapshotVersion q \<noteq> 0 \<and> q_QuotedAt q \<noteq> 0"
  unfolding NewQuote_def by (simp add: check_eq_Inr IsZeroTime_def split: if_split_asm)

locale local_source =
  fixes quote_at :: "'p MarketSnapshot \<Rightarrow> gotime \<Rightarrow> ('e, Quote) result" and good :: "'p MarketSnapshot \<Rightarrow> bool"
  assumes valid: "good s \<Longrightarrow> quote_at s t = Inr q \<Longrightarrow> NewQuote q (q_fees q) = Inr q"
    and version: "good s \<Longrightarrow> md_Version (fst s) \<noteq> 0"
    and by_state: "good s \<Longrightarrow> good s' \<Longrightarrow> md_Market (fst s) = md_Market (fst s') \<Longrightarrow> md_StateHash (fst s) = md_StateHash (fst s') \<Longrightarrow>
      quote_at s t = Inr q \<Longrightarrow> t' \<noteq> 0 \<Longrightarrow> quote_at s' t' = Inr (stamp (fst s') t' q)"
begin

lemma rebind_is_fresh:
  assumes "good s" "good s'" "md_Market (fst s) = md_Market (fst s')" "md_StateHash (fst s) = md_StateHash (fst s')"
    and "quote_at s t = Inr q" and "t' \<noteq> 0"
  shows "rebind q (fst s') t' = Inr (stamp (fst s') t' q) \<and> quote_at s' t' = Inr (stamp (fst s') t' q)"
proof -
  have "rebind q (fst s') t' = NewQuote (q\<lparr>q_SnapshotVersion := md_Version (fst s'), q_SnapshotHash := md_StateHash (fst s'),
      q_QuotedAt := t', q_fees := []\<rparr>) (q_fees q)" by (cases q) (simp add: rebind_def)
  also have "\<dots> = Inr (stamp (fst s') t' q)"
    using NewQuote_restamp [of q "md_Version (fst s')" t'] NewQuote_stamps [OF valid [OF assms(1,5)]] version [OF assms(2)] assms(6)
      valid [OF assms(1,5)] by (simp add: stamp_def)
  finally show ?thesis using by_state [OF assms] by simp
qed

end

text \<open>Every request of a cache is answered by such a source.\<close>

locale cached_sources =
  fixes compute :: "quoteCacheKey \<Rightarrow> 'p MarketSnapshot \<Rightarrow> gotime \<Rightarrow> ('e, Quote) result" and good :: "'p MarketSnapshot \<Rightarrow> bool"
  assumes each: "local_source (compute key) good"
begin

definition holds_quotes :: "quoteCache \<Rightarrow> bool" where
  "holds_quotes cache \<longleftrightarrow> (\<forall>mid state key q. cache mid = Some state \<longrightarrow> cm_quotes state key = Some q \<longrightarrow>
     (\<exists>s t. good s \<and> md_Market (fst s) = mid \<and> md_StateHash (fst s) = cm_stateHash state \<and> compute key s t = Inr q))"

lemma holds_quotes_new: "holds_quotes newQuoteCache"
  by (simp add: holds_quotes_def newQuoteCache_def)

lemma market_quotes_sound:
  assumes "holds_quotes cache" and "cm_quotes (market_quotes cache md) key = Some q"
  shows "\<exists>s t. good s \<and> md_Market (fst s) = md_Market md \<and> md_StateHash (fst s) = md_StateHash md \<and> compute key s t = Inr q"
proof -
  from assms(2) obtain state where "cache (md_Market md) = Some state" "cm_stateHash state = md_StateHash md" "cm_quotes state key = Some q"
    by (auto simp: market_quotes_def split: option.splits if_splits)
  then show ?thesis using assms(1) unfolding holds_quotes_def by metis
qed

lemma market_quotes_hash [simp]: "cm_stateHash (market_quotes cache md) = md_StateHash md"
  by (simp add: market_quotes_def split: option.splits)

lemma holds_quotes_update:
  assumes "holds_quotes cache" and "cm_stateHash state = md_StateHash md"
    and "\<And>key q. cm_quotes state key = Some q \<Longrightarrow>
      \<exists>s t. good s \<and> md_Market (fst s) = md_Market md \<and> md_StateHash (fst s) = md_StateHash md \<and> compute key s t = Inr q"
  shows "holds_quotes (cache(md_Market md \<mapsto> state))"
  using assms unfolding holds_quotes_def by auto

text \<open>The cache answers with what the source computes, and keeps only quotes of its sources.\<close>

lemma transparent:
  assumes cache: "holds_quotes cache" and s: "good s" and t: "t \<noteq> 0"
    and key: "key = \<lparr>ck_source = si_ID source, ck_market = md_Market (fst s), ck_mode = mode, ck_tokenIn = tokenIn,
      ck_tokenOut = tokenOut, ck_amount = AmountString amount, ck_purpose = purpose\<rparr>"
    and run: "getOrCompute False (fst s) source mode tokenIn tokenOut amount purpose t (compute key s t) cache = (r, cache')"
  shows "holds_quotes cache' \<and> rbind r (\<lambda>x. Inr (fst x)) = map_err CacheCompute (compute key s t)"
proof (cases "si_CacheQuotes source = Some False")
  case True
  then show ?thesis using run cache by (cases "compute key s t") (auto simp: getOrCompute_def Let_def)
next
  case False
  let ?state = "market_quotes cache (fst s)"
  note found = market_quotes_sound [OF cache, of "fst s"]
  have kept: "holds_quotes (cache(md_Market (fst s) \<mapsto> ?state))" by (rule holds_quotes_update [OF cache]) (use found in auto)
  show ?thesis
  proof (cases "cm_quotes ?state key")
    case (Some q)
    with found obtain s0 t0 where s0: "good s0" "md_Market (fst s0) = md_Market (fst s)" "md_StateHash (fst s0) = md_StateHash (fst s)"
        "compute key s0 t0 = Inr q" by blast
    note fresh = local_source.rebind_is_fresh [OF each s0(1) s s0(2-4) t]
    show ?thesis using run False Some fresh kept by (auto simp: getOrCompute_def Let_def key [symmetric])
  next
    case None
    show ?thesis
    proof (cases "compute key s t")
      case (Inl e)
      then show ?thesis using run False None kept by (auto simp: getOrCompute_def Let_def key [symmetric])
    next
      case (Inr q)
      have "holds_quotes (cache(md_Market (fst s) \<mapsto> ?state\<lparr>cm_quotes := (cm_quotes ?state)(key \<mapsto> q)\<rparr>))"
      proof (rule holds_quotes_update [OF cache])
        fix k q' assume "cm_quotes (?state\<lparr>cm_quotes := (cm_quotes ?state)(key \<mapsto> q)\<rparr>) k = Some q'"
        then show "\<exists>s' t. good s' \<and> md_Market (fst s') = md_Market (fst s) \<and> md_StateHash (fst s') = md_StateHash (fst s) \<and> compute k s' t = Inr q'"
        proof (cases "k = key")
          case True
          then have "compute k s t = Inr q'" using \<open>cm_quotes _ k = Some q'\<close> Inr by simp
          then show ?thesis using s by metis
        qed (use found \<open>cm_quotes _ k = Some q'\<close> in simp)
      qed simp
      then show ?thesis using run False None Inr by (auto simp: getOrCompute_def Let_def key [symmetric])
    qed
  qed
qed

end

section \<open>The constant-product quoter is such a source\<close>

text \<open>
  A snapshot that a mirror of constant-product pools has published, whose state hash collides
  with no other state.
\<close>

definition cp_published :: "(string \<Rightarrow> string) \<Rightarrow> cp_data MarketSnapshot \<Rightarrow> bool" where
  "cp_published sha256 s \<longleftrightarrow> md_Version (fst s) \<noteq> 0 \<and>
     (\<exists>st. snd s = ProtocolData cpSnapshotKind (CPState st) \<and> cp_state_ok st \<and> md_StateHash (fst s) = sha256 (state_payload st) \<and>
       (\<forall>st'. cp_state_ok st' \<longrightarrow> sha256 (state_payload st') = sha256 (state_payload st) \<longrightarrow> state_payload st' = state_payload st))"

definition cp_request :: "quoteCacheKey \<Rightarrow> cp_data MarketSnapshot \<Rightarrow> gotime \<Rightarrow> cp_data QuoteInput" where
  "cp_request key s t = \<lparr>qi_Snapshot = s, qi_TokenIn = ck_tokenIn key, qi_TokenOut = ck_tokenOut key,
     qi_AmountIn = \<lparr>amt_token = ck_tokenIn key, amt_units = the (parse_int (ck_amount key))\<rparr>, qi_Purpose = ck_purpose key, qi_QuotedAt = t\<rparr>"

lemma cp_published_same:
  assumes "cp_published h s" "cp_published h s'" "md_StateHash (fst s) = md_StateHash (fst s')"
  shows "snd s = snd s'"
  using assms state_payload_inject unfolding cp_published_def by metis

definition cp_core :: "Quoter \<Rightarrow> cp_data QuoteInput \<Rightarrow> (cp_error, TokenAmount \<times> QuoteFee) result" where
  "cp_core q i =
     (if md_Market (fst (qi_Snapshot i)) \<noteq> mkt_ID (qt_market q) then Inl (WrongMarket (md_Market (fst (qi_Snapshot i))))
      else case cp_state (snd (qi_Snapshot i)) of
        None \<Rightarrow> Inl IncompatibleSnapshot
      | Some state \<Rightarrow>
        if amt_token (qi_AmountIn i) \<noteq> qi_TokenIn i \<or> AmountIsZero (qi_AmountIn i) then Inl AmountMismatch
        else rbind (reserves q state (qi_TokenIn i) (qi_TokenOut i)) (\<lambda>(reserveIn, reserveOut).
          let out = cp_out reserveIn reserveOut (basisPoints - uint (cp_feeBPS state)) (amt_units (qi_AmountIn i)) in
          if out \<le> 0 then Inl QuoteOutputRoundsToZero
          else rbind (map_err CPAmount (NewTokenAmount (qi_TokenOut i) (Some out))) (\<lambda>amountOut.
            rbind (lp_fee (qi_TokenIn i) (amt_units (qi_AmountIn i)) (cp_feeBPS state)) (\<lambda>fee. Inr (amountOut, fee)))))"

lemma rbind_rbind: "rbind (rbind m f) g = rbind m (\<lambda>x. rbind (f x) g)"
  by (cases m) simp_all

lemma cp_Quote_core:
  "cp_Quote None q i = rbind (cp_core q i) (\<lambda>(amountOut, fee).
     map_err CPQuote (NewQuote (quote_of q (fst (qi_Snapshot i)) (qi_Purpose i) QuoteModeExactInput (qi_AmountIn i) amountOut (qi_QuotedAt i)) [fee]))"
proof (cases "cp_state (snd (qi_Snapshot i))")
  case (Some state)
  then show ?thesis
    by (cases "reserves q state (qi_TokenIn i) (qi_TokenOut i)")
      (auto simp: cp_Quote_def cp_core_def Let_def cp_out_def rbind_rbind)
qed (simp add: cp_Quote_def cp_core_def Let_def)

lemma stamp_quote_of: "stamp md' t' (quote_of q md p mode x y t) = quote_of q md' p mode x y t'"
  by (simp add: stamp_def quote_of_def)

lemma NewQuote_stamp:
  assumes "NewQuote q fees = Inr r" "md_Version md \<noteq> 0" "t \<noteq> 0"
  shows "NewQuote (stamp md t q) fees = Inr (stamp md t r)"
  using NewQuote_restamp [where q = q and v = "md_Version md" and t = t and h = "md_StateHash md" and fs = "q_fees q" and fees = fees] NewQuote_stamps [OF assms(1)] assms by (simp add: stamp_def)

lemma NewQuote_quote_of_valid:
  assumes "NewQuote (quote_of q md p mode x y t) [fee] = Inr r"
  shows "NewQuote r (q_fees r) = Inr r"
proof -
  have c: "qt_id q \<noteq> []" "mkt_ID (qt_market q) \<noteq> []" "md_Version md \<noteq> 0" "p \<noteq> []" "t \<noteq> 0"
      "mode \<in> {QuoteModeExactInput, QuoteModeExactOutput}" "amt_token x \<noteq> []" "amt_token y \<noteq> []" "\<not> fee_invalid fee"
    using NewQuote_quote_of [of q md p mode x y t fee] assms by auto
  have "r = (quote_of q md p mode x y t)\<lparr>q_Quality := QuoteQualityExact, q_fees := [fee]\<rparr>"
    using assms c by (simp add: NewQuote_def quote_of_def PositionValidate_def IsZeroTime_def enumerate_eq_zip split: if_split_asm)
  then show ?thesis using c by (simp add: NewQuote_def quote_of_def PositionValidate_def IsZeroTime_def enumerate_eq_zip)
qed

lemma cp_core_cong:
  assumes "md_Market (fst (qi_Snapshot i)) = md_Market (fst (qi_Snapshot j))" "snd (qi_Snapshot i) = snd (qi_Snapshot j)"
    "qi_TokenIn i = qi_TokenIn j" "qi_TokenOut i = qi_TokenOut j" "qi_AmountIn i = qi_AmountIn j"
  shows "cp_core q i = cp_core q j"
  unfolding cp_core_def assms ..

interpretation cp_local: cached_sources "\<lambda>key s t. cp_Quote None quoter (cp_request key s t)" "cp_published sha256" for quoter sha256
proof (rule cached_sources.intro)
  fix key
  show "local_source (\<lambda>s t. cp_Quote None quoter (cp_request key s t)) (cp_published sha256)"
  proof
    fix s t q assume "cp_published sha256 s" "cp_Quote None quoter (cp_request key s t) = Inr q"
    then show "NewQuote q (q_fees q) = Inr q"
      using NewQuote_quote_of_valid by (auto simp: cp_Quote_core rbind_eq_Inr map_err_eq_Inr)
  next
    fix s :: "cp_data MarketSnapshot" assume "cp_published sha256 s"
    then show "md_Version (fst s) \<noteq> 0" by (simp add: cp_published_def)
  next
    fix s s' :: "cp_data MarketSnapshot" and t t' :: gotime and q
    assume a: "cp_published sha256 s" "cp_published sha256 s'" "md_Market (fst s) = md_Market (fst s')"
      "md_StateHash (fst s) = md_StateHash (fst s')" "cp_Quote None quoter (cp_request key s t) = Inr q" "t' \<noteq> 0"
    have same: "cp_core quoter (cp_request key s' t') = cp_core quoter (cp_request key s t)"
      by (rule cp_core_cong) (use a(3) cp_published_same [OF a(1,2,4)] in \<open>simp_all add: cp_request_def\<close>)
    obtain y fee where run: "cp_core quoter (cp_request key s t) = Inr (y, fee)"
        "NewQuote (quote_of quoter (fst s) (ck_purpose key) QuoteModeExactInput (qi_AmountIn (cp_request key s t)) y t) [fee] = Inr q"
      using a(5) by (auto simp: cp_Quote_core rbind_eq_Inr map_err_eq_Inr cp_request_def)
    have "md_Version (fst s') \<noteq> 0" using a(2) by (simp add: cp_published_def)
    from NewQuote_stamp [OF run(2) this a(6)] show "cp_Quote None quoter (cp_request key s' t') = Inr (stamp (fst s') t' q)"
      by (simp add: cp_Quote_core same run(1) stamp_quote_of) (simp add: cp_request_def)
  qed
qed

section \<open>Runs of cached quotes\<close>

text \<open>A sequence of exact-input requests to one source through the cache, as the strategies make them.\<close>

definition cached_quote ::
  "source_identity \<Rightarrow> ('p QuoteInput \<Rightarrow> ('e, Quote) result) \<Rightarrow> 'p QuoteInput \<Rightarrow> quoteCache \<Rightarrow> ('e cache_error, Quote \<times> bool) result \<times> quoteCache" where
  "cached_quote source quote r cache =
     getOrCompute False (fst (qi_Snapshot r)) source QuoteModeExactInput (qi_TokenIn r) (qi_TokenOut r) (qi_AmountIn r) (qi_Purpose r)
       (qi_QuotedAt r) (quote r) cache"

fun cached_run ::
  "source_identity \<Rightarrow> ('p QuoteInput \<Rightarrow> ('e, Quote) result) \<Rightarrow> 'p QuoteInput list \<Rightarrow> quoteCache \<Rightarrow> ('e cache_error, Quote) result list" where
  "cached_run source quote [] cache = []"
| "cached_run source quote (r # rs) cache =
     (case cached_quote source quote r cache of (answer, cache') \<Rightarrow> rbind answer (\<lambda>x. Inr (fst x)) # cached_run source quote rs cache')"

definition key_of :: "source_identity \<Rightarrow> 'p QuoteInput \<Rightarrow> quoteCacheKey" where
  "key_of source r = \<lparr>ck_source = si_ID source, ck_market = md_Market (fst (qi_Snapshot r)), ck_mode = QuoteModeExactInput,
     ck_tokenIn = qi_TokenIn r, ck_tokenOut = qi_TokenOut r, ck_amount = AmountString (qi_AmountIn r), ck_purpose = qi_Purpose r\<rparr>"

lemma cp_request_of_key:
  assumes "amt_token (qi_AmountIn r) = qi_TokenIn r"
  shows "cp_request (key_of source r) (qi_Snapshot r) (qi_QuotedAt r) = r"
  using assms by (simp add: cp_request_def key_of_def AmountString_def parse_int_int_string)

lemma cached_run_from:
  assumes "\<forall>r \<in> set rs. cp_published sha256 (qi_Snapshot r) \<and> qi_QuotedAt r \<noteq> 0 \<and> amt_token (qi_AmountIn r) = qi_TokenIn r"
    and "cp_local.holds_quotes quoter sha256 cache"
  shows "cached_run source (cp_Quote None quoter) rs cache = map (\<lambda>r. map_err CacheCompute (cp_Quote None quoter r)) rs"
  using assms
proof (induction rs arbitrary: cache)
  case (Cons r rs)
  obtain answer cache' where run: "cached_quote source (cp_Quote None quoter) r cache = (answer, cache')" by fastforce
  have "cp_request (key_of source r) (qi_Snapshot r) (qi_QuotedAt r) = r" using Cons.prems(1) by (simp add: cp_request_of_key)
  with run have "getOrCompute False (fst (qi_Snapshot r)) source QuoteModeExactInput (qi_TokenIn r) (qi_TokenOut r) (qi_AmountIn r) (qi_Purpose r)
      (qi_QuotedAt r) (cp_Quote None quoter (cp_request (key_of source r) (qi_Snapshot r) (qi_QuotedAt r))) cache = (answer, cache')"
    by (simp add: cached_quote_def)
  from cp_local.transparent [OF Cons.prems(2) _ _ key_of_def this] Cons.prems(1)
  have "cp_local.holds_quotes quoter sha256 cache'" "rbind answer (\<lambda>x. Inr (fst x)) = map_err CacheCompute (cp_Quote None quoter r)"
    by (simp_all add: cp_request_of_key)
  then show ?case using run Cons by simp
qed simp

text \<open>
  C17: the quote cache is transparent: whatever sequence of requests reaches the constant-product
  quoter through it, on snapshots as a mirror publishes them and in any order of their versions,
  every answer is the quoter's own answer to that request, errors included.
\<close>

theorem quote_cache_transparent:
  assumes "\<forall>r \<in> set rs. cp_published sha256 (qi_Snapshot r) \<and> qi_QuotedAt r \<noteq> 0 \<and> amt_token (qi_AmountIn r) = qi_TokenIn r"
  shows "cached_run source (cp_Quote None quoter) rs newQuoteCache = map (\<lambda>r. map_err CacheCompute (cp_Quote None quoter r)) rs"
  by (rule cached_run_from [OF assms cp_local.holds_quotes_new])

definition sample_ask :: "64 word \<Rightarrow> gotime \<Rightarrow> cp_data QuoteInput" where
  "sample_ask v t = \<lparr>qi_Snapshot = (pool_metadata\<lparr>md_Version := v, md_StateHash := state_payload sample_pool\<rparr>,
     ProtocolData cpSnapshotKind (CPState sample_pool)), qi_TokenIn = ''Q'', qi_TokenOut = ''B'',
     qi_AmountIn = \<lparr>amt_token = ''Q'', amt_units = 100\<rparr>, qi_Purpose = ''research'', qi_QuotedAt = t\<rparr>"

theorem quote_cache_transparent_witness:
  "cached_run \<lparr>si_ID = ''cp'', si_CacheQuotes = None\<rparr> (cp_Quote None sample_quoter) [sample_ask 1 7, sample_ask 2 9] newQuoteCache =
   [map_err CacheCompute (cp_Quote None sample_quoter (sample_ask 1 7)), map_err CacheCompute (cp_Quote None sample_quoter (sample_ask 2 9))]"
proof -
  have "cp_published (\<lambda>x. x) (qi_Snapshot (sample_ask v t))" if "v \<noteq> 0" for v t
    using that sample_pool_ok by (simp add: cp_published_def sample_ask_def)
  then show ?thesis using quote_cache_transparent [of "[sample_ask 1 7, sample_ask 2 9]" "\<lambda>x. x"] by (simp add: sample_ask_def)
qed

section \<open>The implied base price\<close>

definition valuation_ok :: "BaseValuationCache \<Rightarrow> bool" where
  "valuation_ok c \<longleftrightarrow> distinct (map fst (bv_observations c)) \<and> (\<forall>o' \<in> set (bv_observations c). 0 < vo_price (snd o'))"

lemma valuation_steps_ok:
  "NewBaseValuationCache base quote = Inr c \<Longrightarrow> valuation_ok c"
  "valuation_ok c \<Longrightarrow> valuation_ok (snd (ObserveValuation key q tin tout t c))"
  "valuation_ok c \<Longrightarrow> valuation_ok (ResetValuation c)"
  by (auto simp: NewBaseValuationCache_def ObserveValuation_def ResetValuation_def valuation_ok_def distinct_map_filter
      split: if_splits sum.splits)

text \<open>The price of a snapshot is the mean of the latest observations: none of them bounds it strictly.\<close>

lemma valuation_mean_bounds:
  assumes "ValuationSnapshotOf t c = Inr s" and "\<And>o'. o' \<in> set (bv_observations c) \<Longrightarrow> lo \<le> vo_price (snd o') \<and> vo_price (snd o') \<le> hi"
  shows "lo \<le> vs_price s \<and> vs_price s \<le> hi \<and> vs_observations s = int (length (bv_observations c))"
proof -
  let ?n = "of_nat (length (bv_observations c)) :: rat" and ?sum = "sum_list (map (\<lambda>o'. vo_price (snd o')) (bv_observations c))"
  have s: "bv_observations c \<noteq> []" "vs_price s = ?sum / ?n" "vs_observations s = int (length (bv_observations c))"
    using assms(1) by (auto simp: ValuationSnapshotOf_def NewValuationSnapshot_def map_err_eq_Inr Let_def split: if_splits)
  have "lo * of_nat (length xs) \<le> sum_list (map (\<lambda>o'. vo_price (snd o')) xs) \<and> sum_list (map (\<lambda>o'. vo_price (snd o')) xs) \<le> hi * of_nat (length xs)"
    if "\<forall>o' \<in> set xs. lo \<le> vo_price (snd o') \<and> vo_price (snd o') \<le> hi" for xs :: "(string \<times> valuationObservation) list"
    using that by (induction xs) (auto simp: algebra_simps)
  from this [of "bv_observations c"] assms(2) have "lo * ?n \<le> ?sum" "?sum \<le> hi * ?n" by blast+
  moreover have "0 < ?n" using s(1) by simp
  ultimately show ?thesis unfolding s(2) using s(3) by (simp add: pos_le_divide_eq pos_divide_le_eq)
qed

end
