(* ===== verification/Strategy_Two_Market.thy ===== *)
theory Strategy_Two_Market
  imports Strategy_Cache Sizing_Grid
begin

text \<open>
  The two-market strategy, \<open>src/core/strategy/two_market.go\<close>: the discovery of a direction, the
  candidates of every grid size, their thresholds, and the classification of an opportunity.

  Quote sources are functions of their request. The cache is the only state and is passed along;
  the directions of an evaluation run one after the other, which the transparency of the cache
  justifies. Durations, hop timings and the recorded trace carry no economics and are left out;
  the clock only supplies \<open>FinishedAt\<close>, an argument. An error enters the reasons as its text, so
  the texts of foreign errors are arguments too.
\<close>

section \<open>Configuration\<close>

record ('p, 'e) StrategySource =
  so_identity :: source_identity
  so_source :: "('p, 'e) Source"
  so_fresh :: "('p QuoteInput \<Rightarrow> ('e, Quote) result) option"

record 'e error_texts =
  tx_input :: "'e cache_error \<Rightarrow> string"
  tx_output :: "'e sizing_error cache_error \<Rightarrow> string"
  tx_amount :: "amount_error \<Rightarrow> string"

record ('p, 'e) TwoMarketConfig =
  tc_ID :: StrategyID
  tc_Setup :: ArbitrageSetup
  tc_Registry :: "Registry option"
  tc_Sources :: "MarketID \<rightharpoonup> ('p, 'e) StrategySource"
  tc_Grid :: "AssetQuantity list"
  tc_Threshold :: AssetQuantity
  tc_ThresholdFixed :: AssetQuantity
  tc_ThresholdBPS :: "16 word"
  tc_Clock :: bool
  tc_SizingAsset :: string
  tc_DirectionDiscoverySamples :: int

record ('p, 'e) TwoMarket =
  tw_id :: StrategyID
  tw_setup :: ArbitrageSetup
  tw_registry :: Registry
  tw_sources :: "MarketID \<rightharpoonup> ('p, 'e) StrategySource"
  tw_grid :: "AssetQuantity list"
  tw_threshold :: AssetQuantity
  tw_thresholdFixed :: AssetQuantity
  tw_thresholdBPS :: "16 word"
  tw_sizingAsset :: AssetID
  tw_discoverySamples :: int

datatype strategy_error =
    StrategyIncomplete
  | StrategyMarkets
  | StrategyPair PairID
  | StrategySizing string
  | StrategyGrid
  | StrategySamples
  | StrategySamplesGrid
  | StrategyThreshold
  | StrategyPercentage
  | StrategySource MarketID
  | StrategyOther StrategyID
  | StrategyCost
  | StrategyContext
  | StrategyPinnedSize
  | StrategyPinnedDirection
  | StrategyPinnedAsset
  | StrategyAmount amount_error

definition sizing_asset_of :: "string \<Rightarrow> Pair \<Rightarrow> (strategy_error, AssetID) result" where
  "sizing_asset_of configured pair =
     (let basis = (if configured = [] then ''quote'' else configured) in
      if basis = ''base'' then Inr (pair_BaseAsset pair)
      else if basis = ''quote'' then Inr (pair_QuoteAsset pair)
      else Inl (StrategySizing basis))"

definition NewTwoMarket :: "('p, 'e) TwoMarketConfig \<Rightarrow> (strategy_error, ('p, 'e) TwoMarket) result" where
  "NewTwoMarket config =
     (case tc_Registry config of
        None \<Rightarrow> Inl StrategyIncomplete
      | Some registry \<Rightarrow>
          if tc_ID config = [] \<or> \<not> tc_Clock config then Inl StrategyIncomplete
          else if length (set_markets (tc_Setup config)) \<noteq> 2 then Inl StrategyMarkets
          else case reg_pairs registry (set_pair (tc_Setup config)) of
            None \<Rightarrow> Inl (StrategyPair (set_pair (tc_Setup config)))
          | Some pair \<Rightarrow>
              rbind (sizing_asset_of (tc_SizingAsset config) pair) (\<lambda>sizingAsset.
              if GridAsset (tc_Grid config) \<noteq> sizingAsset then Inl StrategyGrid
              else if tc_DirectionDiscoverySamples config \<noteq> 0 \<and> tc_DirectionDiscoverySamples config < 3 then Inl StrategySamples
              else if tc_DirectionDiscoverySamples config > int (length (tc_Grid config)) then Inl StrategySamplesGrid
              else if qty_asset (tc_Threshold config) \<noteq> pair_QuoteAsset pair \<or> QtySign (tc_Threshold config) < 0 then Inl StrategyThreshold
              else if tc_ThresholdBPS config > 0 \<and> (tc_ThresholdBPS config > 10000 \<or>
                   qty_asset (tc_ThresholdFixed config) \<noteq> pair_QuoteAsset pair \<or> QtySign (tc_ThresholdFixed config) \<le> 0 \<or>
                   QtySign (tc_Threshold config) \<noteq> 0) then Inl StrategyPercentage
              else check (first_error (\<lambda>mid. if tc_Sources config mid = None then Some (StrategySource mid) else None) (set_markets (tc_Setup config)))
                (Inr \<lparr>tw_id = tc_ID config, tw_setup = tc_Setup config, tw_registry = registry,
                  tw_sources = tc_Sources config |` set (set_markets (tc_Setup config)), tw_grid = tc_Grid config,
                  tw_threshold = tc_Threshold config, tw_thresholdFixed = tc_ThresholdFixed config,
                  tw_thresholdBPS = tc_ThresholdBPS config, tw_sizingAsset = sizingAsset,
                  tw_discoverySamples = tc_DirectionDiscoverySamples config\<rparr>)))"

section \<open>Quotes\<close>

abbreviation zero_qty :: AssetQuantity where "zero_qty \<equiv> \<lparr>qty_asset = [], qty_value = 0\<rparr>"
abbreviation zero_amount :: TokenAmount where "zero_amount \<equiv> \<lparr>amt_token = [], amt_units = 0\<rparr>"
abbreviation zero_token :: Token where
  "zero_token \<equiv> \<lparr>tok_ID = [], tok_Asset = [], tok_Chain = [], tok_Decimals = 0, tok_Symbol = []\<rparr>"

text \<open>A Go call whose error is dropped leaves the zero value.\<close>

definition value_or :: "'a \<Rightarrow> ('err, 'a) result \<Rightarrow> 'a" where
  "value_or zero r = (case r of Inl _ \<Rightarrow> zero | Inr x \<Rightarrow> x)"

definition token_of :: "Registry \<Rightarrow> TokenID \<Rightarrow> Token" where
  "token_of registry tid = (case reg_tokens registry tid of None \<Rightarrow> zero_token | Some t \<Rightarrow> t)"

abbreviation no_source :: string where "no_source \<equiv> ''quote source and computation are required''"

definition strategy_input ::
  "'e error_texts \<Rightarrow> bool \<Rightarrow> bool \<Rightarrow> ('p, 'e) StrategySource option \<Rightarrow> 'p QuoteInput \<Rightarrow> quoteCache \<Rightarrow> (string, Quote) result \<times> quoteCache" where
  "strategy_input texts ctxErr refresh source request cache =
     (case source of
        None \<Rightarrow> (Inl no_source, cache)
      | Some src \<Rightarrow>
          (case (refresh, so_fresh src) of
             (True, Some fresh) \<Rightarrow> (map_err (tx_input texts) (map_err CacheCompute (fresh request)), cache)
           | _ \<Rightarrow>
               (case getOrCompute ctxErr (fst (qi_Snapshot request)) (so_identity src) QuoteModeExactInput (qi_TokenIn request) (qi_TokenOut request)
                  (qi_AmountIn request) (qi_Purpose request) (qi_QuotedAt request) (src_Quote (so_source src) request) cache of
                  (answer, cache') \<Rightarrow> (map_err (tx_input texts) (rbind answer (\<lambda>x. Inr (fst x))), cache'))))"

text \<open>The search always returns, so that its result is taken out of the option.\<close>

definition strategy_exactOutput ::
  "'e error_texts \<Rightarrow> bool \<Rightarrow> ('p, 'e) StrategySource option \<Rightarrow> 'p ExactOutputRequest \<Rightarrow> quoteCache \<Rightarrow> (string, Quote) result \<times> quoteCache" where
  "strategy_exactOutput texts ctxErr source request cache =
     (case source of
        None \<Rightarrow> (Inl no_source, cache)
      | Some src \<Rightarrow>
          (case getOrCompute ctxErr (fst (er_Snapshot request)) (so_identity src) QuoteModeExactOutput (er_TokenIn request) (er_TokenOut request)
             (er_TargetOut request) (er_Purpose request) (er_QuotedAt request) (the (MinimumInputForOutput (Some (so_source src)) request)) cache of
             (answer, cache') \<Rightarrow> (map_err (tx_output texts) (rbind answer (\<lambda>x. Inr (fst x))), cache')))"

definition hasUnmodeledFee :: "Quote \<Rightarrow> bool" where
  "hasUnmodeledFee quote = list_ex (\<lambda>fee. \<not> qf_includedInAmounts fee) (q_fees quote)"

definition greater_pnl :: "AssetQuantity \<Rightarrow> AssetQuantity \<Rightarrow> bool" where
  "greater_pnl left right = (case QtyCmp left right of Inl _ \<Rightarrow> False | Inr comparison \<Rightarrow> comparison > 0)"

definition greaterOrEqual :: "AssetQuantity \<Rightarrow> AssetQuantity \<Rightarrow> bool" where
  "greaterOrEqual left right = (case QtyCmp left right of Inl _ \<Rightarrow> False | Inr comparison \<Rightarrow> comparison \<ge> 0)"

section \<open>Candidates\<close>

text \<open>The snapshots and tokens of a direction.\<close>

record 'p legs =
  lg_buy :: "'p MarketSnapshot"
  lg_sell :: "'p MarketSnapshot"
  lg_buyBase :: Token
  lg_buyQuote :: Token
  lg_sellBase :: Token
  lg_sellQuote :: Token

abbreviation PurposeDiscovery :: string where "PurposeDiscovery \<equiv> ''research_discovery''"

definition profit_candidate ::
  "'p Evaluation \<Rightarrow> AssetQuantity \<Rightarrow> AssetQuantity \<Rightarrow> AssetQuantity \<Rightarrow> Quote \<Rightarrow> Quote \<Rightarrow> Candidate" where
  "profit_candidate evaluation sizeQty input out buy sell =
     (let gross = value_or zero_qty (QtySub out input); net = value_or zero_qty (QtySub gross (cs_Amount (ev_cost evaluation))) in
      \<lparr>cd_Size = sizeQty, cd_Input = input, cd_Output = out, cd_GrossPnL = gross, cd_Cost = ev_cost evaluation, cd_NetPnL = net,
       cd_FixedThreshold = zero_qty, cd_PercentageThreshold = zero_qty, cd_EffectiveThreshold = zero_qty,
       cd_BuyQuote = buy, cd_SellQuote = sell, cd_Valuation = None, cd_QuoteConversion = None\<rparr>)"

text \<open>The sale of a quantity of the base asset: the quote and the quantity it gives.\<close>

definition sell_leg ::
  "'e error_texts \<Rightarrow> bool \<Rightarrow> bool \<Rightarrow> ('p, 'e) StrategySource option \<Rightarrow> 'p legs \<Rightarrow> gotime \<Rightarrow> AssetQuantity \<Rightarrow> quoteCache \<Rightarrow>
   (string, Quote \<times> AssetQuantity) result \<times> quoteCache" where
  "sell_leg texts ctxErr refresh source legs startedAt base cache =
     (case ToTokenAmount base (lg_sellBase legs) of
        Inl _ \<Rightarrow> (Inl ''sell_input_rounds_to_zero'', cache)
      | Inr sellInput \<Rightarrow>
          if AmountIsZero sellInput then (Inl ''sell_input_rounds_to_zero'', cache)
          else
            (case strategy_input texts ctxErr refresh source
               \<lparr>qi_Snapshot = lg_sell legs, qi_TokenIn = tok_ID (lg_sellBase legs), qi_TokenOut = tok_ID (lg_sellQuote legs),
                qi_AmountIn = sellInput, qi_Purpose = PurposeDiscovery, qi_QuotedAt = startedAt\<rparr> cache of
               (Inl e, cache') \<Rightarrow> (Inl (''sell_quote_failed: '' @ e), cache')
             | (Inr sell, cache') \<Rightarrow>
                 if hasUnmodeledFee sell then (Inl ''sell_quote_has_unmodeled_fee'', cache')
                 else (case ToAssetQuantity (q_AmountOut sell) (lg_sellQuote legs) of
                   Inl _ \<Rightarrow> (Inl ''sell_output_invalid'', cache')
                 | Inr out \<Rightarrow> (Inr (sell, out), cache'))))"

definition quoteSizedCandidate ::
  "'e error_texts \<Rightarrow> bool \<Rightarrow> bool \<Rightarrow> ('p, 'e) TwoMarket \<Rightarrow> 'p Evaluation \<Rightarrow> Direction \<Rightarrow> 'p legs \<Rightarrow> AssetQuantity \<Rightarrow> quoteCache \<Rightarrow>
   (string, Candidate) result \<times> quoteCache" where
  "quoteSizedCandidate texts ctxErr refresh s evaluation direction legs budget cache =
     (case ToTokenAmount budget (lg_buyQuote legs) of
        Inl _ \<Rightarrow> (Inl ''size_rounds_to_zero'', cache)
      | Inr buyInput \<Rightarrow>
          if AmountIsZero buyInput then (Inl ''size_rounds_to_zero'', cache)
          else
            (case strategy_input texts ctxErr refresh (tw_sources s (dir_BuyMarket direction))
               \<lparr>qi_Snapshot = lg_buy legs, qi_TokenIn = tok_ID (lg_buyQuote legs), qi_TokenOut = tok_ID (lg_buyBase legs),
                qi_AmountIn = buyInput, qi_Purpose = PurposeDiscovery, qi_QuotedAt = ev_startedAt evaluation\<rparr> cache of
               (Inl e, cache') \<Rightarrow> (Inl (''buy_quote_failed: '' @ e), cache')
             | (Inr buy, cache') \<Rightarrow>
                 if hasUnmodeledFee buy then (Inl ''buy_quote_has_unmodeled_fee'', cache')
                 else (case ToAssetQuantity (q_AmountOut buy) (lg_buyBase legs) of
                   Inl _ \<Rightarrow> (Inl ''buy_output_invalid'', cache')
                 | Inr baseReceived \<Rightarrow>
                     if QtySign baseReceived \<le> 0 then (Inl ''buy_output_invalid'', cache')
                     else
                       (case sell_leg texts ctxErr refresh (tw_sources s (dir_SellMarket direction)) legs (ev_startedAt evaluation) baseReceived cache' of
                          (Inl e, cache'') \<Rightarrow> (Inl e, cache'')
                        | (Inr (sell, out), cache'') \<Rightarrow>
                            (Inr (profit_candidate evaluation budget (value_or zero_qty (ToAssetQuantity buyInput (lg_buyQuote legs))) out buy sell),
                             cache'')))))"

definition strategy_candidate ::
  "'e error_texts \<Rightarrow> bool \<Rightarrow> bool \<Rightarrow> ('p, 'e) TwoMarket \<Rightarrow> 'p Evaluation \<Rightarrow> Direction \<Rightarrow> 'p legs \<Rightarrow> AssetQuantity \<Rightarrow> quoteCache \<Rightarrow>
   (string, Candidate) result \<times> quoteCache" where
  "strategy_candidate texts ctxErr refresh s evaluation direction legs sizeQty cache =
     (if tw_sizingAsset s = tok_Asset (lg_buyQuote legs)
      then quoteSizedCandidate texts ctxErr refresh s evaluation direction legs sizeQty cache
      else case ToTokenAmount sizeQty (lg_buyBase legs) of
        Inl _ \<Rightarrow> (Inl ''size_rounds_to_zero'', cache)
      | Inr targetBase \<Rightarrow>
          if AmountIsZero targetBase then (Inl ''size_rounds_to_zero'', cache)
          else
            let actualSize = value_or zero_qty (ToAssetQuantity targetBase (lg_buyBase legs));
                initialHigh = value_or zero_amount (NewTokenAmount (tok_ID (lg_buyQuote legs)) (Some (10 ^ unat (tok_Decimals (lg_buyQuote legs))))) in
            (case strategy_exactOutput texts ctxErr (tw_sources s (dir_BuyMarket direction))
               \<lparr>er_Snapshot = lg_buy legs, er_TokenIn = tok_ID (lg_buyQuote legs), er_TokenOut = tok_ID (lg_buyBase legs),
                er_TargetOut = targetBase, er_InitialHigh = initialHigh, er_Purpose = PurposeDiscovery, er_QuotedAt = ev_startedAt evaluation\<rparr> cache of
               (Inl e, cache') \<Rightarrow> (Inl (''buy_quote_failed: '' @ e), cache')
             | (Inr buy, cache') \<Rightarrow>
                 if hasUnmodeledFee buy then (Inl ''buy_quote_has_unmodeled_fee'', cache')
                 else (case ToAssetQuantity (q_AmountIn buy) (lg_buyQuote legs) of
                   Inl _ \<Rightarrow> (Inl ''buy_input_invalid'', cache')
                 | Inr actualInput \<Rightarrow>
                     (case sell_leg texts ctxErr refresh (tw_sources s (dir_SellMarket direction)) legs (ev_startedAt evaluation) actualSize cache' of
                        (Inl e, cache'') \<Rightarrow> (Inl e, cache'')
                      | (Inr (sell, out), cache'') \<Rightarrow> (Inr (profit_candidate evaluation actualSize actualInput out buy sell), cache'')))))"

definition candidateThreshold ::
  "('p, 'e) TwoMarket \<Rightarrow> AssetQuantity \<Rightarrow> Token \<Rightarrow> (amount_error, AssetQuantity \<times> AssetQuantity \<times> AssetQuantity) result" where
  "candidateThreshold s input quote =
     rbind (NewAssetQuantity (qty_asset input) (Some 0)) (\<lambda>zero.
     if tw_thresholdBPS s = 0 then Inr (tw_threshold s, zero, tw_threshold s)
     else
       rbind (ToTokenAmount input quote) (\<lambda>inputUnits.
       let numerator = amt_units inputUnits * uint (tw_thresholdBPS s);
           percentageUnits = bigQuo numerator 10000 + (if numerator mod 10000 \<noteq> 0 then 1 else 0) in
       rbind (NewTokenAmount (tok_ID quote) (Some percentageUnits)) (\<lambda>percentageToken.
       rbind (ToAssetQuantity percentageToken quote) (\<lambda>percentage.
       Inr (tw_thresholdFixed s, percentage, if greater_pnl percentage (tw_thresholdFixed s) then percentage else tw_thresholdFixed s)))))"

definition with_thresholds :: "AssetQuantity \<times> AssetQuantity \<times> AssetQuantity \<Rightarrow> Candidate \<Rightarrow> Candidate" where
  "with_thresholds t candidate =
     candidate\<lparr>cd_FixedThreshold := fst t, cd_PercentageThreshold := fst (snd t), cd_EffectiveThreshold := snd (snd t)\<rparr>"

section \<open>One direction\<close>

record grid_scan =
  gs_Reasons :: "string list"
  gs_Candidates :: "Candidate list"
  gs_bestOverall :: int
  gs_bestQualified :: int

definition better_at :: "Candidate list \<Rightarrow> int \<Rightarrow> Candidate \<Rightarrow> bool" where
  "better_at candidates best candidate \<longleftrightarrow> best < 0 \<or> greater_pnl (cd_NetPnL candidate) (cd_NetPnL (candidates ! nat best))"

definition qualifies :: "Candidate \<Rightarrow> bool" where
  "qualifies candidate = greaterOrEqual (cd_NetPnL candidate) (cd_EffectiveThreshold candidate)"

definition add_candidate :: "Candidate \<Rightarrow> grid_scan \<Rightarrow> grid_scan" where
  "add_candidate candidate g =
     (let candidates = gs_Candidates g @ [candidate]; index = int (length candidates) - 1 in
      g\<lparr>gs_Candidates := candidates,
        gs_bestOverall := (if better_at candidates (gs_bestOverall g) candidate then index else gs_bestOverall g),
        gs_bestQualified := (if qualifies candidate \<and> better_at candidates (gs_bestQualified g) candidate then index else gs_bestQualified g)\<rparr>)"

definition consider_size ::
  "'e error_texts \<Rightarrow> bool \<Rightarrow> bool \<Rightarrow> ('p, 'e) TwoMarket \<Rightarrow> 'p Evaluation \<Rightarrow> Direction \<Rightarrow> 'p legs \<Rightarrow> AssetQuantity \<Rightarrow>
   grid_scan \<times> quoteCache \<Rightarrow> grid_scan \<times> quoteCache" where
  "consider_size texts ctxErr refresh s evaluation direction legs sizeQty = (\<lambda>(g, cache).
     (case strategy_candidate texts ctxErr refresh s evaluation direction legs sizeQty cache of
        (Inl reason, cache') \<Rightarrow> (g\<lparr>gs_Reasons := gs_Reasons g @ [reason]\<rparr>, cache')
      | (Inr candidate, cache') \<Rightarrow>
          (case candidateThreshold s (cd_Input candidate) (lg_buyQuote legs) of
             Inl e \<Rightarrow> (g\<lparr>gs_Reasons := gs_Reasons g @ [''threshold_failed: '' @ tx_amount texts e]\<rparr>, cache')
           | Inr thresholds \<Rightarrow> (add_candidate (with_thresholds thresholds candidate) g, cache'))))"

definition no_trigger :: TriggerMetadata where
  "no_trigger = \<lparr>tm_Market = [], tm_Source = [], tm_Position = \<lparr>sp_Kind = [], sp_Value = 0\<rparr>, tm_Reference = \<lparr>sr_Kind = [], sr_Value = []\<rparr>, tm_At = 0\<rparr>"

definition new_opportunity :: "('p, 'e) TwoMarket \<Rightarrow> 'p Evaluation \<Rightarrow> Direction \<Rightarrow> gotime \<Rightarrow> Opportunity" where
  "new_opportunity s evaluation direction finishedAt =
     \<lparr>op_Evaluation = ev_id evaluation, op_Run = ev_run evaluation, op_ConfigHash = ev_configHash evaluation, op_Strategy = tw_id s,
      op_Direction = direction, op_Classification = ClassificationUnclassifiable, op_Snapshots = [], op_Candidates = [],
      op_SelectedIndex = -1, op_Threshold = tw_threshold s, op_Reasons = [],
      op_Trigger = (case ev_trigger evaluation of None \<Rightarrow> no_trigger | Some trigger \<Rightarrow> trigger), op_HasTrigger = (ev_trigger evaluation \<noteq> None),
      op_TriggeredAt = ev_triggeredAt evaluation, op_StartedAt = ev_startedAt evaluation, op_FinishedAt = finishedAt\<rparr>"

text \<open>The snapshots, markets and tokens of a direction, or the reason why it cannot be classified.\<close>

definition direction_legs :: "('p, 'e) TwoMarket \<Rightarrow> 'p Evaluation \<Rightarrow> Direction \<Rightarrow> Opportunity \<Rightarrow> Opportunity + (Opportunity \<times> 'p legs)" where
  "direction_legs s evaluation direction opportunity =
     (case (EvaluationSnapshot evaluation (dir_BuyMarket direction), EvaluationSnapshot evaluation (dir_SellMarket direction)) of
        (Some buySnapshot, Some sellSnapshot) \<Rightarrow>
          let seen = opportunity\<lparr>op_Snapshots := [fst buySnapshot, fst sellSnapshot]\<rparr> in
          if list_ex (\<lambda>snapshot. md_Health (fst snapshot) \<noteq> HealthHealthy) [buySnapshot, sellSnapshot]
          then Inl (seen\<lparr>op_Reasons := [''degraded_market_snapshot'']\<rparr>)
          else (case (reg_markets (tw_registry s) (dir_BuyMarket direction), reg_markets (tw_registry s) (dir_SellMarket direction)) of
             (Some buyMarket, Some sellMarket) \<Rightarrow>
               Inr (seen, \<lparr>lg_buy = buySnapshot, lg_sell = sellSnapshot,
                 lg_buyBase = token_of (tw_registry s) (mkt_BaseToken buyMarket), lg_buyQuote = token_of (tw_registry s) (mkt_QuoteToken buyMarket),
                 lg_sellBase = token_of (tw_registry s) (mkt_BaseToken sellMarket), lg_sellQuote = token_of (tw_registry s) (mkt_QuoteToken sellMarket)\<rparr>)
           | _ \<Rightarrow> Inl (seen\<lparr>op_Reasons := [''unknown_market'']\<rparr>))
      | _ \<Rightarrow> Inl (opportunity\<lparr>op_Reasons := [''missing_market_snapshot'']\<rparr>))"

definition classify_candidate :: "Candidate \<Rightarrow> string \<times> string list" where
  "classify_candidate c =
     (if QtySign (cd_GrossPnL c) \<le> 0 then (ClassificationNoSpread, [''no_positive_gross_profit''])
      else if QtySign (cd_NetPnL c) \<le> 0 then (ClassificationObservedSpread, [''costs_exceed_gross_profit''])
      else if \<not> greaterOrEqual (cd_NetPnL c) (cd_EffectiveThreshold c) then (ClassificationEconomic, [''below_profit_threshold''])
      else (ClassificationPolicyQualified, [''profit_threshold_met'']))"

definition select_candidate :: "grid_scan \<Rightarrow> Opportunity \<Rightarrow> Opportunity" where
  "select_candidate g opportunity =
     (let index = (if gs_bestQualified g \<ge> 0 then gs_bestQualified g else gs_bestOverall g);
          scanned = opportunity\<lparr>op_Candidates := gs_Candidates g, op_Reasons := gs_Reasons g, op_SelectedIndex := index\<rparr> in
      if index < 0 then scanned\<lparr>op_Reasons := (if gs_Reasons g = [] then [''no_valid_size''] else gs_Reasons g)\<rparr>
      else let chosen = gs_Candidates g ! nat index in
        scanned\<lparr>op_Threshold := cd_EffectiveThreshold chosen, op_Classification := fst (classify_candidate chosen),
                op_Reasons := snd (classify_candidate chosen)\<rparr>)"

definition empty_scan :: grid_scan where
  "empty_scan = \<lparr>gs_Reasons = [], gs_Candidates = [], gs_bestOverall = -1, gs_bestQualified = -1\<rparr>"

definition evaluateDirection ::
  "'e error_texts \<Rightarrow> bool \<Rightarrow> bool \<Rightarrow> ('p, 'e) TwoMarket \<Rightarrow> 'p Evaluation \<Rightarrow> gotime \<Rightarrow> Direction \<Rightarrow> quoteCache \<Rightarrow> Opportunity \<times> quoteCache" where
  "evaluateDirection texts ctxErr refresh s evaluation finishedAt direction cache =
     (case direction_legs s evaluation direction (new_opportunity s evaluation direction finishedAt) of
        Inl opportunity \<Rightarrow> (opportunity, cache)
      | Inr (opportunity, legs) \<Rightarrow>
          (case fold (consider_size texts ctxErr refresh s evaluation direction legs) (tw_grid s) (empty_scan, cache) of
             (g, cache') \<Rightarrow> (select_candidate g opportunity, cache')))"

section \<open>Pinned trades\<close>

definition EvaluatePinnedWithTiming ::
  "'e error_texts \<Rightarrow> bool \<Rightarrow> ('p, 'e) TwoMarket \<Rightarrow> 'p Evaluation \<Rightarrow> gotime \<Rightarrow> Direction \<Rightarrow> AssetQuantity \<Rightarrow> quoteCache \<Rightarrow>
   (strategy_error, Opportunity) result \<times> quoteCache" where
  "EvaluatePinnedWithTiming texts ctxErr s evaluation finishedAt direction sizeQty cache =
     (if ev_strategy evaluation \<noteq> tw_id s then (Inl (StrategyOther (ev_strategy evaluation)), cache)
      else if qty_asset sizeQty \<noteq> tw_sizingAsset s \<or> tw_sizingAsset s = [] then (Inl StrategyPinnedSize, cache)
      else if direction \<notin> set (set_directions (tw_setup s)) then (Inl StrategyPinnedDirection, cache)
      else
        (case direction_legs s evaluation direction (new_opportunity s evaluation direction finishedAt) of
           Inl opportunity \<Rightarrow> (Inr opportunity, cache)
         | Inr (opportunity, legs) \<Rightarrow>
             if tw_sizingAsset s \<noteq> tok_Asset (lg_buyQuote legs) then (Inl StrategyPinnedAsset, cache)
             else
               (case quoteSizedCandidate texts ctxErr False s evaluation direction legs sizeQty cache of
                  (Inl reason, cache') \<Rightarrow> (Inr (opportunity\<lparr>op_Reasons := [reason]\<rparr>), cache')
                | (Inr candidate, cache') \<Rightarrow>
                    (case candidateThreshold s (cd_Input candidate) (lg_buyQuote legs) of
                       Inl e \<Rightarrow> (Inl (StrategyAmount e), cache')
                     | Inr thresholds \<Rightarrow>
                         let chosen = with_thresholds thresholds candidate in
                         (Inr (opportunity\<lparr>op_Candidates := [chosen], op_SelectedIndex := 0, op_Threshold := cd_EffectiveThreshold chosen,
                            op_Classification := fst (classify_candidate chosen), op_Reasons := snd (classify_candidate chosen)\<rparr>), cache')))))"

section \<open>Discovery of a direction\<close>

record DirectionProbeOutput =
  po_Market :: MarketID
  po_Output :: AssetQuantity
  po_Error :: string

record DirectionProbeTiming =
  pt_Size :: AssetQuantity
  pt_Outputs :: "DirectionProbeOutput list"
  pt_Winner :: MarketID
  pt_Reason :: string

record DirectionDiscoveryTiming =
  dt_Samples :: int
  dt_Selected :: Direction
  dt_Decision :: string
  dt_Probes :: "DirectionProbeTiming list"

record 'p probe_side =
  ps_market :: MarketID
  ps_snapshot :: "'p MarketSnapshot"
  ps_tokenIn :: Token
  ps_tokenOut :: Token

definition probe_quote ::
  "'e error_texts \<Rightarrow> bool \<Rightarrow> bool \<Rightarrow> ('p, 'e) TwoMarket \<Rightarrow> 'p Evaluation \<Rightarrow> 'p probe_side \<Rightarrow>
   DirectionProbeTiming \<times> quoteCache \<Rightarrow> DirectionProbeTiming \<times> quoteCache" where
  "probe_quote texts ctxErr refresh s evaluation side = (\<lambda>(probe, cache).
     (case ToTokenAmount (pt_Size probe) (ps_tokenIn side) of
        Inl _ \<Rightarrow> (probe\<lparr>pt_Reason := ''probe_size_rounds_to_zero''\<rparr>, cache)
      | Inr input \<Rightarrow>
          if AmountIsZero input then (probe\<lparr>pt_Reason := ''probe_size_rounds_to_zero''\<rparr>, cache)
          else
            (case strategy_input texts ctxErr refresh (tw_sources s (ps_market side))
               \<lparr>qi_Snapshot = ps_snapshot side, qi_TokenIn = tok_ID (ps_tokenIn side), qi_TokenOut = tok_ID (ps_tokenOut side),
                qi_AmountIn = input, qi_Purpose = PurposeDiscovery, qi_QuotedAt = ev_startedAt evaluation\<rparr> cache of
               (answer, cache') \<Rightarrow>
                 (case rbind answer (\<lambda>quote. map_err (tx_amount texts) (ToAssetQuantity (q_AmountOut quote) (ps_tokenOut side))) of
                    Inl e \<Rightarrow>
                      (probe\<lparr>pt_Reason := (if pt_Reason probe = [] then ''probe_quote_failed'' else pt_Reason probe),
                         pt_Outputs := pt_Outputs probe @ [\<lparr>po_Market = ps_market side,
                           po_Output = value_or zero_qty (NewAssetQuantity (tok_Asset (ps_tokenOut side)) (Some 0)), po_Error = e\<rparr>]\<rparr>, cache')
                  | Inr out \<Rightarrow>
                      (probe\<lparr>pt_Outputs := pt_Outputs probe @ [\<lparr>po_Market = ps_market side, po_Output = out, po_Error = []\<rparr>]\<rparr>, cache')))))"

text \<open>Which of the two markets gave more, if both answered: positive for the first, negative for the second.\<close>

definition probe_comparison :: "DirectionProbeTiming \<Rightarrow> int option" where
  "probe_comparison probe =
     (case pt_Outputs probe of
        [x, y] \<Rightarrow>
          if po_Error x = [] \<and> po_Error y = [] \<and> qty_asset (po_Output x) = qty_asset (po_Output y)
          then (case QtyCmp (po_Output x) (po_Output y) of Inl _ \<Rightarrow> Some 0 | Inr comparison \<Rightarrow> Some comparison)
          else None
      | _ \<Rightarrow> None)"

definition judge_probe :: "MarketID \<Rightarrow> MarketID \<Rightarrow> DirectionProbeTiming \<Rightarrow> DirectionProbeTiming" where
  "judge_probe marketA marketB probe =
     (case probe_comparison probe of
        None \<Rightarrow> probe\<lparr>pt_Reason := (if pt_Reason probe = [] then ''incomplete_probe'' else pt_Reason probe)\<rparr>
      | Some comparison \<Rightarrow>
          if comparison = 0 then probe\<lparr>pt_Reason := (if pt_Reason probe = [] then ''equal_probe_output'' else pt_Reason probe)\<rparr>
          else probe\<lparr>pt_Winner := (if comparison > 0 then marketA else marketB)\<rparr>)"

record probe_count =
  pc_Probes :: "DirectionProbeTiming list"
  pc_valid :: int
  pc_wins :: "MarketID \<Rightarrow> int"

definition count_probe :: "MarketID \<Rightarrow> MarketID \<Rightarrow> DirectionProbeTiming \<Rightarrow> probe_count \<Rightarrow> probe_count" where
  "count_probe marketA marketB probe n =
     (let counted = n\<lparr>pc_Probes := pc_Probes n @ [judge_probe marketA marketB probe]\<rparr> in
      case probe_comparison probe of
        None \<Rightarrow> counted
      | Some comparison \<Rightarrow>
          if comparison = 0 then counted
          else let winner = (if comparison > 0 then marketA else marketB) in
            counted\<lparr>pc_valid := pc_valid n + 1, pc_wins := (pc_wins n)(winner := pc_wins n winner + 1)\<rparr>)"

definition probe_index :: "nat \<Rightarrow> nat \<Rightarrow> nat \<Rightarrow> nat" where
  "probe_index samples len sample = sample * (len - 1) div (samples - 1)"

definition probe_sample ::
  "'e error_texts \<Rightarrow> bool \<Rightarrow> bool \<Rightarrow> ('p, 'e) TwoMarket \<Rightarrow> 'p Evaluation \<Rightarrow> 'p probe_side \<Rightarrow> 'p probe_side \<Rightarrow> nat \<Rightarrow>
   probe_count \<times> quoteCache \<Rightarrow> probe_count \<times> quoteCache" where
  "probe_sample texts ctxErr refresh s evaluation sideA sideB sample = (\<lambda>(n, cache).
     (case fold (probe_quote texts ctxErr refresh s evaluation) [sideA, sideB]
        (\<lparr>pt_Size = tw_grid s ! probe_index (nat (tw_discoverySamples s)) (length (tw_grid s)) sample, pt_Outputs = [], pt_Winner = [], pt_Reason = []\<rparr>,
         cache) of
        (probe, cache') \<Rightarrow> (count_probe (ps_market sideA) (ps_market sideB) probe n, cache')))"

definition decide_direction :: "MarketID \<Rightarrow> MarketID \<Rightarrow> int \<Rightarrow> probe_count \<Rightarrow> Direction option" where
  "decide_direction marketA marketB samples n =
     (if pc_valid n = samples \<and> pc_wins n marketA > bigQuo (pc_valid n) 2 then Some \<lparr>dir_BuyMarket = marketA, dir_SellMarket = marketB\<rparr>
      else if pc_valid n = samples \<and> pc_wins n marketB > bigQuo (pc_valid n) 2 then Some \<lparr>dir_BuyMarket = marketB, dir_SellMarket = marketA\<rparr>
      else None)"

definition no_direction :: Direction where
  "no_direction = \<lparr>dir_BuyMarket = [], dir_SellMarket = []\<rparr>"

definition discovery_sides :: "('p, 'e) TwoMarket \<Rightarrow> 'p Evaluation \<Rightarrow> (string, 'p probe_side \<times> 'p probe_side) result" where
  "discovery_sides s evaluation =
     (case set_directions (tw_setup s) of
        [d, _] \<Rightarrow>
          (case (reg_markets (tw_registry s) (dir_BuyMarket d), reg_markets (tw_registry s) (dir_SellMarket d)) of
             (Some marketA, Some marketB) \<Rightarrow>
               (case (EvaluationSnapshot evaluation (mkt_ID marketA), EvaluationSnapshot evaluation (mkt_ID marketB)) of
                  (Some snapshotA, Some snapshotB) \<Rightarrow>
                    (case (reg_tokens (tw_registry s) (mkt_QuoteToken marketA), reg_tokens (tw_registry s) (mkt_QuoteToken marketB),
                           reg_tokens (tw_registry s) (mkt_BaseToken marketA), reg_tokens (tw_registry s) (mkt_BaseToken marketB)) of
                       (Some tokenAQuote, Some tokenBQuote, Some tokenABase, Some tokenBBase) \<Rightarrow>
                         if tw_sizingAsset s \<noteq> tok_Asset tokenAQuote \<or> tw_sizingAsset s \<noteq> tok_Asset tokenBQuote then Inl ''unsupported_sizing_asset''
                         else Inr (\<lparr>ps_market = mkt_ID marketA, ps_snapshot = snapshotA, ps_tokenIn = tokenAQuote, ps_tokenOut = tokenABase\<rparr>,
                                   \<lparr>ps_market = mkt_ID marketB, ps_snapshot = snapshotB, ps_tokenIn = tokenBQuote, ps_tokenOut = tokenBBase\<rparr>)
                     | _ \<Rightarrow> Inl ''unknown_token'')
                | _ \<Rightarrow> Inl ''missing_snapshot'')
           | _ \<Rightarrow> Inl ''unknown_market'')
      | _ \<Rightarrow> Inl ''unsupported_setup'')"

definition discoverDirection ::
  "'e error_texts \<Rightarrow> bool \<Rightarrow> bool \<Rightarrow> ('p, 'e) TwoMarket \<Rightarrow> 'p Evaluation \<Rightarrow> quoteCache \<Rightarrow>
   (strategy_error, Direction option \<times> DirectionDiscoveryTiming) result \<times> quoteCache" where
  "discoverDirection texts ctxErr refresh s evaluation cache =
     (case discovery_sides s evaluation of
        Inl decision \<Rightarrow>
          (Inr (None, \<lparr>dt_Samples = tw_discoverySamples s, dt_Selected = no_direction, dt_Decision = decision, dt_Probes = []\<rparr>), cache)
      | Inr (sideA, sideB) \<Rightarrow>
          if ctxErr \<and> tw_discoverySamples s > 0 then (Inl StrategyContext, cache)
          else
            (case fold (probe_sample texts ctxErr refresh s evaluation sideA sideB) [0..<nat (tw_discoverySamples s)]
               (\<lparr>pc_Probes = [], pc_valid = 0, pc_wins = (\<lambda>_. 0)\<rparr>, cache) of
               (n, cache') \<Rightarrow>
                 (Inr (case decide_direction (ps_market sideA) (ps_market sideB) (tw_discoverySamples s) n of
                    Some d \<Rightarrow> (Some d, \<lparr>dt_Samples = tw_discoverySamples s, dt_Selected = d, dt_Decision = ''majority'', dt_Probes = pc_Probes n\<rparr>)
                  | None \<Rightarrow> (None, \<lparr>dt_Samples = tw_discoverySamples s, dt_Selected = no_direction, dt_Decision = ''uncertain_fallback_both'',
                      dt_Probes = pc_Probes n\<rparr>)), cache')))"

section \<open>Evaluations\<close>

definition evaluate_directions ::
  "'e error_texts \<Rightarrow> bool \<Rightarrow> bool \<Rightarrow> ('p, 'e) TwoMarket \<Rightarrow> 'p Evaluation \<Rightarrow> (Direction \<Rightarrow> gotime) \<Rightarrow> Direction list \<Rightarrow> quoteCache \<Rightarrow>
   Opportunity list \<times> quoteCache" where
  "evaluate_directions texts ctxErr refresh s evaluation finishedAt directions cache =
     fold (\<lambda>direction (opportunities, cache).
         case evaluateDirection texts ctxErr refresh s evaluation (finishedAt direction) direction cache of
           (opportunity, cache') \<Rightarrow> (opportunities @ [opportunity], cache')) directions ([], cache)"

definition evaluateWithTiming ::
  "'e error_texts \<Rightarrow> bool \<Rightarrow> bool \<Rightarrow> ('p, 'e) TwoMarket \<Rightarrow> 'p Evaluation \<Rightarrow> (Direction \<Rightarrow> gotime) \<Rightarrow> quoteCache \<Rightarrow>
   (strategy_error, Opportunity list \<times> DirectionDiscoveryTiming option) result \<times> quoteCache" where
  "evaluateWithTiming texts ctxErr refresh s evaluation finishedAt cache =
     (if ev_strategy evaluation \<noteq> tw_id s then (Inl (StrategyOther (ev_strategy evaluation)), cache)
      else if qty_asset (cs_Amount (ev_cost evaluation)) \<noteq> qty_asset (tw_threshold s) then (Inl StrategyCost, cache)
      else
        (case (if tw_discoverySamples s > 0
               then (case discoverDirection texts ctxErr refresh s evaluation cache of
                       (Inl e, cache') \<Rightarrow> (Inl e, cache')
                     | (Inr (found, discovery), cache') \<Rightarrow> (Inr (found, Some discovery), cache'))
               else (Inr (None, None), cache)) of
           (Inl e, cache') \<Rightarrow> (Inl e, cache')
         | (Inr (found, discovery), cache') \<Rightarrow>
             if ctxErr then (Inl StrategyContext, cache')
             else
               (case evaluate_directions texts ctxErr refresh s evaluation finishedAt
                       (case found of None \<Rightarrow> set_directions (tw_setup s) | Some d \<Rightarrow> [d]) cache' of
                  (opportunities, cache'') \<Rightarrow> (Inr (opportunities, discovery), cache''))))"

section \<open>Comparisons and thresholds\<close>

lemma greater_pnl_iff: "qty_asset x = qty_asset y \<Longrightarrow> greater_pnl x y \<longleftrightarrow> qty_value y < qty_value x"
  by (auto simp: greater_pnl_def QtyCmp_def)

lemma greaterOrEqual_iff: "qty_asset x = qty_asset y \<Longrightarrow> greaterOrEqual x y \<longleftrightarrow> qty_value y \<le> qty_value x"
  by (auto simp: greaterOrEqual_def QtyCmp_def)

text \<open>The assets a strategy works with: one quote asset for its thresholds.\<close>

definition threshold_assets :: "('p, 'e) TwoMarket \<Rightarrow> AssetID \<Rightarrow> bool" where
  "threshold_assets s a \<longleftrightarrow> qty_asset (tw_threshold s) = a \<and> 0 \<le> qty_value (tw_threshold s) \<and>
     (tw_thresholdBPS s \<noteq> 0 \<longrightarrow> qty_asset (tw_thresholdFixed s) = a \<and> 0 < qty_value (tw_thresholdFixed s))"

text \<open>The smallest whole number of units that is at least the configured share of an input.\<close>

lemma percentage_units:
  fixes n :: int
  assumes "0 \<le> n"
  shows "bigQuo n 10000 + (if n mod 10000 \<noteq> 0 then 1 else 0) = \<lceil>(of_int n :: rat) / 10000\<rceil>"
proof -
  have "\<lceil>(of_int n :: rat) / of_int 10000\<rceil> = - (- n div 10000)" by (simp only: ceiling_divide_eq_div)
  moreover have "- (- n div 10000) = n div 10000 + (if n mod 10000 \<noteq> 0 then 1 else 0)" by (simp add: zdiv_zminus1_eq_if)
  ultimately show ?thesis using assms by (simp add: bigQuo_nonneg)
qed

lemma candidateThreshold_Inr:
  assumes "candidateThreshold s input quote = Inr (fixed, percentage, effective)" and "threshold_assets s (tok_Asset quote)"
    and "qty_asset input = tok_Asset quote"
  shows "qty_asset effective = tok_Asset quote" "qty_value fixed \<le> qty_value effective" "qty_value percentage \<le> qty_value effective"
    and "effective = fixed \<or> effective = percentage" and "0 \<le> qty_value effective"
    and "fixed = (if tw_thresholdBPS s = 0 then tw_threshold s else tw_thresholdFixed s)"
    and "qty_value percentage * of_int (decimalFactor (tok_Decimals quote)) =
      of_int \<lceil>of_int (\<lfloor>qty_value input * of_int (decimalFactor (tok_Decimals quote))\<rfloor> * uint (tw_thresholdBPS s)) / (10000 :: rat)\<rceil>"
proof -
  let ?f = "decimalFactor (tok_Decimals quote)"
  let ?u = "\<lfloor>qty_value input * of_int ?f\<rfloor>"
  let ?n = "?u * uint (tw_thresholdBPS s)"
  have all: "qty_asset effective = tok_Asset quote \<and> qty_value fixed \<le> qty_value effective \<and> qty_value percentage \<le> qty_value effective \<and>
    (effective = fixed \<or> effective = percentage) \<and> 0 \<le> qty_value effective \<and>
    fixed = (if tw_thresholdBPS s = 0 then tw_threshold s else tw_thresholdFixed s) \<and>
    qty_value percentage * of_int ?f = of_int \<lceil>of_int ?n / (10000 :: rat)\<rceil>"
  proof (cases "tw_thresholdBPS s = 0")
    case True
    then show ?thesis using assms by (auto simp: candidateThreshold_def rbind_eq_Inr NewAssetQuantity_def threshold_assets_def split: if_splits)
  next
    case False
    then obtain units where u: "ToTokenAmount input quote = Inr units" and
      rest: "rbind (NewTokenAmount (tok_ID quote) (Some (bigQuo (amt_units units * uint (tw_thresholdBPS s)) 10000 +
          (if amt_units units * uint (tw_thresholdBPS s) mod 10000 \<noteq> 0 then 1 else 0)))) (\<lambda>percentageToken.
        rbind (ToAssetQuantity percentageToken quote) (\<lambda>percentage.
        Inr (tw_thresholdFixed s, percentage, if greater_pnl percentage (tw_thresholdFixed s) then percentage else tw_thresholdFixed s))) =
        Inr (fixed, percentage, effective)"
      using assms(1) by (auto simp: candidateThreshold_def rbind_eq_Inr Let_def)
    from u have units: "amt_units units = ?u" "0 \<le> ?u" by (auto simp: ToTokenAmount_Inr less_imp_le)
    then have "0 \<le> ?n" by simp
    from rest [unfolded units(1) percentage_units [OF this]]
    have p: "qty_asset percentage = tok_Asset quote" "qty_value percentage = of_int \<lceil>of_int ?n / (10000 :: rat)\<rceil> / of_int ?f"
      and e: "fixed = tw_thresholdFixed s" "effective = (if greater_pnl percentage (tw_thresholdFixed s) then percentage else tw_thresholdFixed s)"
      by (auto simp: rbind_eq_Inr NewTokenAmount_Inr ToAssetQuantity_Inr)
    have fixed: "qty_asset (tw_thresholdFixed s) = tok_Asset quote" "0 < qty_value (tw_thresholdFixed s)"
      using assms(2) False by (auto simp: threshold_assets_def)
    have "of_int ?f \<noteq> (0 :: rat)" using decimalFactor_pos [of "tok_Decimals quote"] by linarith
    then show ?thesis using p e fixed False greater_pnl_iff [of percentage "tw_thresholdFixed s"] by (auto simp: less_imp_le)
  qed
  then show "qty_asset effective = tok_Asset quote" "qty_value fixed \<le> qty_value effective" "qty_value percentage \<le> qty_value effective"
    and "effective = fixed \<or> effective = percentage" and "0 \<le> qty_value effective"
    and "fixed = (if tw_thresholdBPS s = 0 then tw_threshold s else tw_thresholdFixed s)"
    and "qty_value percentage * of_int ?f = of_int \<lceil>of_int ?n / (10000 :: rat)\<rceil>"
    by blast+
qed

section \<open>Candidates account for their trade\<close>

definition legs_assets :: "'p legs \<Rightarrow> AssetID \<Rightarrow> bool" where
  "legs_assets legs a \<longleftrightarrow> tok_Asset (lg_buyQuote legs) = a \<and> tok_Asset (lg_sellQuote legs) = a"

definition candidate_accounts :: "CostSnapshot \<Rightarrow> AssetID \<Rightarrow> Candidate \<Rightarrow> bool" where
  "candidate_accounts cost a c \<longleftrightarrow>
     qty_asset (cd_Input c) = a \<and> cd_GrossPnL c = \<lparr>qty_asset = a, qty_value = qty_value (cd_Output c) - qty_value (cd_Input c)\<rparr> \<and>
     cd_NetPnL c = \<lparr>qty_asset = a, qty_value = qty_value (cd_Output c) - qty_value (cd_Input c) - qty_value (cs_Amount cost)\<rparr> \<and>
     cd_Cost c = cost \<and> \<not> hasUnmodeledFee (cd_BuyQuote c) \<and> \<not> hasUnmodeledFee (cd_SellQuote c)"

lemma profit_candidate_accounts:
  assumes "qty_asset input = a" and "qty_asset out = a" and "a \<noteq> []" and "qty_asset (cs_Amount (ev_cost evaluation)) = a"
    and "\<not> hasUnmodeledFee buy" and "\<not> hasUnmodeledFee sell"
  shows "candidate_accounts (ev_cost evaluation) a (profit_candidate evaluation sizeQty input out buy sell)"
  using assms by (simp add: candidate_accounts_def profit_candidate_def QtySub_def NewAssetQuantity_def value_or_def)

lemma sell_leg_Inr:
  assumes "sell_leg texts ctxErr refresh source legs startedAt base cache = (Inr (sell, out), cache')"
  shows "\<not> hasUnmodeledFee sell" and "qty_asset out = tok_Asset (lg_sellQuote legs)" and "tok_Asset (lg_sellQuote legs) \<noteq> []"
  using assms by (auto simp: sell_leg_def ToAssetQuantity_Inr split: sum.splits if_splits prod.splits)

lemma quoteSizedCandidate_accounts:
  assumes "quoteSizedCandidate texts ctxErr refresh s evaluation direction legs budget cache = (Inr c, cache')"
    and "legs_assets legs a" and "qty_asset (cs_Amount (ev_cost evaluation)) = a"
  shows "candidate_accounts (ev_cost evaluation) a c"
proof -
  obtain buyInput buy base cache1 sell out cache2 where b: "ToTokenAmount budget (lg_buyQuote legs) = Inr buyInput" "\<not> hasUnmodeledFee buy"
      and sell: "sell_leg texts ctxErr refresh (tw_sources s (dir_SellMarket direction)) legs (ev_startedAt evaluation) base cache1 = (Inr (sell, out), cache2)"
      and c: "c = profit_candidate evaluation budget (value_or zero_qty (ToAssetQuantity buyInput (lg_buyQuote legs))) out buy sell"
    using assms(1) by (auto simp: quoteSizedCandidate_def split: sum.splits if_splits prod.splits)
  note sold = sell_leg_Inr [OF sell]
  have "qty_asset (value_or zero_qty (ToAssetQuantity buyInput (lg_buyQuote legs))) = a"
    using b(1) assms(2) sold(3) by (simp add: ToTokenAmount_Inr ToAssetQuantity_def NewAssetQuantity_def value_or_def legs_assets_def)
  then show ?thesis unfolding c using sold b(2) assms(2,3) by (intro profit_candidate_accounts) (auto simp: legs_assets_def)
qed

lemma strategy_candidate_accounts:
  assumes "strategy_candidate texts ctxErr refresh s evaluation direction legs sizeQty cache = (Inr c, cache')"
    and "legs_assets legs a" and "qty_asset (cs_Amount (ev_cost evaluation)) = a"
  shows "candidate_accounts (ev_cost evaluation) a c"
proof (cases "tw_sizingAsset s = tok_Asset (lg_buyQuote legs)")
  case True
  then show ?thesis using assms by (auto simp: strategy_candidate_def intro: quoteSizedCandidate_accounts)
next
  case False
  then obtain buy actualSize actualInput cache1 sell out cache2 where b: "ToAssetQuantity (q_AmountIn buy) (lg_buyQuote legs) = Inr actualInput" "\<not> hasUnmodeledFee buy"
      and sell: "sell_leg texts ctxErr refresh (tw_sources s (dir_SellMarket direction)) legs (ev_startedAt evaluation) actualSize cache1 = (Inr (sell, out), cache2)"
      and c: "c = profit_candidate evaluation actualSize actualInput out buy sell"
    using assms(1) by (auto simp: strategy_candidate_def Let_def split: sum.splits if_splits prod.splits)
  show ?thesis unfolding c using sell_leg_Inr [OF sell] b assms(2,3)
    by (intro profit_candidate_accounts) (auto simp: legs_assets_def ToAssetQuantity_Inr)
qed

section \<open>The best candidates\<close>

text \<open>An index of a best candidate with a property, or \<open>-1\<close> when there is none.\<close>

definition best_index :: "(Candidate \<Rightarrow> bool) \<Rightarrow> Candidate list \<Rightarrow> int \<Rightarrow> bool" where
  "best_index P cs i \<longleftrightarrow>
     (if \<exists>c \<in> set cs. P c
      then 0 \<le> i \<and> nat i < length cs \<and> P (cs ! nat i) \<and> (\<forall>c \<in> set cs. P c \<longrightarrow> qty_value (cd_NetPnL c) \<le> qty_value (cd_NetPnL (cs ! nat i)))
      else i = -1)"

lemma best_index_add:
  assumes "best_index P cs i" and "\<forall>c' \<in> set cs. qty_asset (cd_NetPnL c') = qty_asset (cd_NetPnL c)"
  shows "best_index P (cs @ [c]) (if P c \<and> better_at (cs @ [c]) i c then int (length cs) else i)"
proof (cases "\<exists>c' \<in> set cs. P c'")
  case False
  then have "i = -1" "\<forall>c' \<in> set cs. \<not> P c'" using assms(1) by (auto simp: best_index_def)
  then show ?thesis by (auto simp: best_index_def better_at_def)
next
  case True
  then have i: "0 \<le> i" "nat i < length cs" "P (cs ! nat i)" "\<forall>c' \<in> set cs. P c' \<longrightarrow> qty_value (cd_NetPnL c') \<le> qty_value (cd_NetPnL (cs ! nat i))"
    using assms(1) by (auto simp: best_index_def)
  have "better_at (cs @ [c]) i c \<longleftrightarrow> qty_value (cd_NetPnL (cs ! nat i)) < qty_value (cd_NetPnL c)"
    using i assms(2) by (simp add: better_at_def nth_append greater_pnl_iff)
  then show ?thesis using i True by (auto simp: best_index_def nth_append intro: order_trans less_imp_le)
qed

lemma best_indexD:
  assumes "best_index P cs i" and "c \<in> set cs" and "P c"
  shows "0 \<le> i" "nat i < length cs" "P (cs ! nat i)" "qty_value (cd_NetPnL c) \<le> qty_value (cd_NetPnL (cs ! nat i))"
proof -
  have "\<exists>c \<in> set cs. P c" using assms(2,3) by blast
  then show "0 \<le> i" "nat i < length cs" "P (cs ! nat i)" "qty_value (cd_NetPnL c) \<le> qty_value (cd_NetPnL (cs ! nat i))"
    using assms by (simp_all add: best_index_def)
qed

text \<open>What is known of a priced candidate.\<close>

definition candidate_priced :: "('p, 'e) TwoMarket \<Rightarrow> CostSnapshot \<Rightarrow> Token \<Rightarrow> Candidate \<Rightarrow> bool" where
  "candidate_priced s cost quote c \<longleftrightarrow> candidate_accounts cost (tok_Asset quote) c \<and>
     candidateThreshold s (cd_Input c) quote = Inr (cd_FixedThreshold c, cd_PercentageThreshold c, cd_EffectiveThreshold c)"

definition scan_ok :: "('p, 'e) TwoMarket \<Rightarrow> CostSnapshot \<Rightarrow> Token \<Rightarrow> grid_scan \<Rightarrow> bool" where
  "scan_ok s cost quote g \<longleftrightarrow> (\<forall>c \<in> set (gs_Candidates g). candidate_priced s cost quote c) \<and>
     best_index (\<lambda>_. True) (gs_Candidates g) (gs_bestOverall g) \<and> best_index qualifies (gs_Candidates g) (gs_bestQualified g)"

lemma scan_ok_add:
  assumes "scan_ok s cost quote g" and "candidate_priced s cost quote c"
  shows "scan_ok s cost quote (add_candidate c g)"
proof -
  have "\<forall>c' \<in> set (gs_Candidates g). qty_asset (cd_NetPnL c') = qty_asset (cd_NetPnL c)"
    using assms by (auto simp: scan_ok_def candidate_priced_def candidate_accounts_def)
  from best_index_add [OF _ this, of "\<lambda>_. True" "gs_bestOverall g"] best_index_add [OF _ this, of qualifies "gs_bestQualified g"] assms
  show ?thesis unfolding scan_ok_def add_candidate_def Let_def by auto
qed

lemma scan_ok_reason: "scan_ok s cost quote (g\<lparr>gs_Reasons := r\<rparr>) \<longleftrightarrow> scan_ok s cost quote g"
  by (simp add: scan_ok_def)

lemma with_thresholds_priced:
  "candidate_accounts cost (tok_Asset quote) c \<Longrightarrow> candidateThreshold s (cd_Input c) quote = Inr t \<Longrightarrow> candidate_priced s cost quote (with_thresholds t c)"
  by (simp add: candidate_priced_def candidate_accounts_def with_thresholds_def)

lemma consider_size_ok:
  assumes "legs_assets legs (tok_Asset (lg_buyQuote legs))" and "qty_asset (cs_Amount (ev_cost evaluation)) = tok_Asset (lg_buyQuote legs)"
    and "scan_ok s (ev_cost evaluation) (lg_buyQuote legs) (fst x)"
  shows "scan_ok s (ev_cost evaluation) (lg_buyQuote legs) (fst (consider_size texts ctxErr refresh s evaluation direction legs sizeQty x))"
  using assms(3) strategy_candidate_accounts [OF _ assms(1,2), of texts ctxErr refresh s direction sizeQty "snd x"]
  by (cases x) (auto simp: consider_size_def scan_ok_reason intro: scan_ok_add with_thresholds_priced split: prod.splits sum.splits)

lemma fold_scan_ok:
  assumes "legs_assets legs (tok_Asset (lg_buyQuote legs))" and "qty_asset (cs_Amount (ev_cost evaluation)) = tok_Asset (lg_buyQuote legs)"
    and "scan_ok s (ev_cost evaluation) (lg_buyQuote legs) (fst x)"
  shows "scan_ok s (ev_cost evaluation) (lg_buyQuote legs) (fst (fold (consider_size texts ctxErr refresh s evaluation direction legs) sizes x))"
  using assms(3) by (induction sizes arbitrary: x) (simp_all add: consider_size_ok [OF assms(1,2)])

lemma empty_scan_ok: "scan_ok s cost quote empty_scan"
  by (simp add: scan_ok_def empty_scan_def best_index_def)

section \<open>The decision of a direction\<close>

definition worth_trading :: "Candidate \<Rightarrow> bool" where
  "worth_trading c \<longleftrightarrow> 0 < qty_value (cd_NetPnL c) \<and> qty_value (cd_EffectiveThreshold c) \<le> qty_value (cd_NetPnL c)"

definition decision_ok :: "Opportunity \<Rightarrow> bool" where
  "decision_ok op \<longleftrightarrow>
     (op_Classification op = ClassificationPolicyQualified \<longleftrightarrow> (\<exists>c \<in> set (op_Candidates op). worth_trading c)) \<and>
     (op_SelectedIndex op = -1 \<longleftrightarrow> op_Candidates op = []) \<and>
     (op_Candidates op \<noteq> [] \<longrightarrow> 0 \<le> op_SelectedIndex op \<and> nat (op_SelectedIndex op) < length (op_Candidates op)) \<and>
     (\<forall>c \<in> set (op_Candidates op). worth_trading c \<longrightarrow>
        worth_trading (op_Candidates op ! nat (op_SelectedIndex op)) \<and>
        qty_value (cd_NetPnL c) \<le> qty_value (cd_NetPnL (op_Candidates op ! nat (op_SelectedIndex op))))"

text \<open>What a classification needs of a candidate.\<close>

definition candidate_sound :: "AssetID \<Rightarrow> Candidate \<Rightarrow> bool" where
  "candidate_sound a c \<longleftrightarrow> qty_asset (cd_NetPnL c) = a \<and> qty_asset (cd_EffectiveThreshold c) = a \<and>
     qty_value (cd_GrossPnL c) = qty_value (cd_NetPnL c) + qty_value (cs_Amount (cd_Cost c)) \<and> 0 \<le> qty_value (cs_Amount (cd_Cost c))"

lemma classify_worth:
  assumes "candidate_sound a c"
  shows "greaterOrEqual (cd_NetPnL c) (cd_EffectiveThreshold c) \<longleftrightarrow> qty_value (cd_EffectiveThreshold c) \<le> qty_value (cd_NetPnL c)"
    and "fst (classify_candidate c) = ClassificationPolicyQualified \<longleftrightarrow> worth_trading c"
proof -
  show ge: "greaterOrEqual (cd_NetPnL c) (cd_EffectiveThreshold c) \<longleftrightarrow> qty_value (cd_EffectiveThreshold c) \<le> qty_value (cd_NetPnL c)"
    by (rule greaterOrEqual_iff) (use assms in \<open>simp add: candidate_sound_def\<close>)
  have gross: "0 < qty_value (cd_NetPnL c) \<Longrightarrow> 0 < qty_value (cd_GrossPnL c)" using assms by (simp add: candidate_sound_def)
  show "fst (classify_candidate c) = ClassificationPolicyQualified \<longleftrightarrow> worth_trading c"
  proof (cases "worth_trading c")
    case True
    then show ?thesis using gross by (simp add: classify_candidate_def ge worth_trading_def not_le)
  next
    case False
    then show ?thesis by (simp add: classify_candidate_def ge worth_trading_def)
  qed
qed

lemma candidate_priced_sound:
  assumes "candidate_priced s cost quote c" and "threshold_assets s (tok_Asset quote)" and "0 \<le> qty_value (cs_Amount cost)"
  shows "candidate_sound (tok_Asset quote) c"
proof -
  have priced: "candidateThreshold s (cd_Input c) quote = Inr (cd_FixedThreshold c, cd_PercentageThreshold c, cd_EffectiveThreshold c)"
      "qty_asset (cd_Input c) = tok_Asset quote"
    using assms(1) by (simp_all add: candidate_priced_def candidate_accounts_def)
  show ?thesis using assms(1,3) candidateThreshold_Inr(1) [OF priced(1) assms(2) priced(2)]
    by (simp add: candidate_sound_def candidate_priced_def candidate_accounts_def)
qed

lemma classify_qualified:
  assumes "candidate_priced s cost quote c" and "threshold_assets s (tok_Asset quote)" and "0 \<le> qty_value (cs_Amount cost)"
  shows "qualifies c \<longleftrightarrow> qty_value (cd_EffectiveThreshold c) \<le> qty_value (cd_NetPnL c)"
    and "fst (classify_candidate c) = ClassificationPolicyQualified \<longleftrightarrow> worth_trading c"
  using classify_worth [OF candidate_priced_sound [OF assms]] by (simp_all add: qualifies_def)

lemma select_candidate_decides:
  assumes "scan_ok s cost quote g" and "threshold_assets s (tok_Asset quote)" and "0 \<le> qty_value (cs_Amount cost)"
    and "op_Classification op = ClassificationUnclassifiable"
  shows "decision_ok (select_candidate g op)"
proof (cases "gs_Candidates g = []")
  case True
  then have "gs_bestOverall g = -1" "gs_bestQualified g = -1" using assms(1) by (simp_all add: scan_ok_def best_index_def)
  then show ?thesis using True assms(4) by (simp add: select_candidate_def decision_ok_def)
next
  case False
  let ?cs = "gs_Candidates g" and ?i = "if gs_bestQualified g \<ge> 0 then gs_bestQualified g else gs_bestOverall g"
  have priced: "candidate_priced s cost quote c" if "c \<in> set ?cs" for c using assms(1) that by (simp add: scan_ok_def)
  note facts = classify_qualified [OF priced assms(2,3)]
  have best: "best_index (\<lambda>_. True) ?cs (gs_bestOverall g)" "best_index qualifies ?cs (gs_bestQualified g)" using assms(1) by (auto simp: scan_ok_def)
  have overall: "0 \<le> gs_bestOverall g" "nat (gs_bestOverall g) < length ?cs" using best_indexD(1,2) [OF best(1) list.set_sel(1) [OF False]] by simp_all
  have i: "0 \<le> ?i" "nat ?i < length ?cs" using best(2) overall by (auto simp: best_index_def split: if_splits)
  then have mem: "?cs ! nat ?i \<in> set ?cs" by simp
  have worth: "worth_trading (?cs ! nat ?i) \<and> qty_value (cd_NetPnL c) \<le> qty_value (cd_NetPnL (?cs ! nat ?i))" if "c \<in> set ?cs" "worth_trading c" for c
  proof -
    have "qualifies c" using that facts(1) by (simp add: worth_trading_def)
    then have q: "0 \<le> gs_bestQualified g" "qualifies (?cs ! nat ?i)" "qty_value (cd_NetPnL c) \<le> qty_value (cd_NetPnL (?cs ! nat ?i))"
      using best_indexD [OF best(2) that(1)] by simp_all
    then show ?thesis using facts(1) [OF mem] that(2) by (auto simp: worth_trading_def)
  qed
  have "select_candidate g op = op\<lparr>op_Candidates := ?cs, op_SelectedIndex := ?i, op_Threshold := cd_EffectiveThreshold (?cs ! nat ?i),
      op_Classification := fst (classify_candidate (?cs ! nat ?i)), op_Reasons := snd (classify_candidate (?cs ! nat ?i))\<rparr>"
    using i(1) by (simp add: select_candidate_def Let_def)
  then show ?thesis using False i facts(2) [OF mem] worth mem unfolding decision_ok_def by auto
qed

section \<open>Evaluations of a configured strategy\<close>

text \<open>What the constructor of a strategy and a consistent registry give.\<close>

definition strategy_ok :: "('p, 'e) TwoMarket \<Rightarrow> AssetID \<Rightarrow> bool" where
  "strategy_ok s a \<longleftrightarrow> threshold_assets s a \<and>
     (\<forall>mid m. mid \<in> set (set_markets (tw_setup s)) \<longrightarrow> reg_markets (tw_registry s) mid = Some m \<longrightarrow>
        mkt_ID m = mid \<and> tok_Asset (token_of (tw_registry s) (mkt_QuoteToken m)) = a) \<and>
     (\<forall>d \<in> set (set_directions (tw_setup s)). dir_BuyMarket d \<in> set (set_markets (tw_setup s)) \<and> dir_SellMarket d \<in> set (set_markets (tw_setup s)) \<and>
        dir_BuyMarket d \<noteq> dir_SellMarket d)"

lemma registry_market:
  assumes "registry_ok r" and "reg_markets r mid = Some m" and "reg_pairs r (mkt_Pair m) = Some pair"
  shows "mkt_ID m = mid" and "tok_Asset (token_of r (mkt_QuoteToken m)) = pair_QuoteAsset pair"
proof -
  have "market_ok r mid m" using assms(1,2) by (simp add: registry_ok_def all_entries_def)
  then show "mkt_ID m = mid" "tok_Asset (token_of r (mkt_QuoteToken m)) = pair_QuoteAsset pair"
    using assms(3) by (auto simp: market_ok_def token_of_def)
qed

lemma NewTwoMarket_Inr:
  assumes "NewTwoMarket config = Inr s"
  obtains registry pair where "tc_Registry config = Some registry" "tw_registry s = registry" "tw_setup s = tc_Setup config" "tw_grid s = tc_Grid config"
    "reg_pairs registry (set_pair (tc_Setup config)) = Some pair" "threshold_assets s (pair_QuoteAsset pair)"
    "tw_discoverySamples s = 0 \<or> 3 \<le> tw_discoverySamples s" "tw_discoverySamples s \<le> int (length (tw_grid s))"
proof -
  from assms obtain registry where r: "tc_Registry config = Some registry" by (auto simp: NewTwoMarket_def split: option.splits)
  with assms obtain pair where p: "reg_pairs registry (set_pair (tc_Setup config)) = Some pair"
    by (auto simp: NewTwoMarket_def split: option.splits if_splits)
  note new = assms [unfolded NewTwoMarket_def r p option.case]
  have "tw_registry s = registry \<and> tw_setup s = tc_Setup config \<and> tw_grid s = tc_Grid config" using new by (auto simp: result_simps split: if_splits)
  moreover have "threshold_assets s (pair_QuoteAsset pair)"
    using new by (auto simp: result_simps threshold_assets_def word_gt_0 not_less not_le split: if_splits)
  moreover have "(tw_discoverySamples s = 0 \<or> 3 \<le> tw_discoverySamples s) \<and> tw_discoverySamples s \<le> int (length (tw_grid s))"
    using new by (auto simp: result_simps split: if_splits)
  ultimately show thesis using that r p by blast
qed

lemma NewTwoMarket_ok:
  assumes "NewTwoMarket config = Inr s" and "tc_Registry config = Some registry" and "registry_ok registry"
    and "NewArbitrageSetup sid pair markets (Some registry) = Inr (tc_Setup config)"
  shows "strategy_ok s (qty_asset (tw_threshold s))"
proof (rule NewTwoMarket_Inr [OF assms(1)])
  fix r p
  assume s: "tc_Registry config = Some r" "tw_registry s = r" "tw_setup s = tc_Setup config"
      "reg_pairs r (set_pair (tc_Setup config)) = Some p" "threshold_assets s (pair_QuoteAsset p)"
  note dirs = setup_directions_exact [OF assms(4)]
  have fields: "set_pair (tc_Setup config) = pair" "set_markets (tc_Setup config) = markets"
    using assms(4) by (auto simp: NewArbitrageSetup_def rbind_eq_Inr split: if_splits dest: sym)
  have quote: "qty_asset (tw_threshold s) = pair_QuoteAsset p" using s(5) by (simp add: threshold_assets_def)
  have "mkt_ID m = mid \<and> tok_Asset (token_of r (mkt_QuoteToken m)) = pair_QuoteAsset p" if "mid \<in> set markets" "reg_markets r mid = Some m" for mid m
  proof -
    from dirs that have "mkt_Pair m = pair" using assms(2) s(1) by fastforce
    then show ?thesis using registry_market [of r mid m p] assms(2,3) s(1,4) that(2) fields(1) by simp
  qed
  then show ?thesis using s(2,3,5) dirs by (simp add: strategy_ok_def quote fields)
qed

lemma direction_legs_Inr:
  assumes "direction_legs s evaluation direction op = Inr (op', legs)" and "strategy_ok s a"
    and "dir_BuyMarket direction \<in> set (set_markets (tw_setup s))" and "dir_SellMarket direction \<in> set (set_markets (tw_setup s))"
  shows "legs_assets legs a" and "op_Classification op' = op_Classification op"
  using assms by (auto simp: direction_legs_def legs_assets_def strategy_ok_def Let_def split: option.splits prod.splits if_splits)

lemma direction_legs_Inl:
  assumes "direction_legs s evaluation direction op = Inl op'"
  shows "op_Candidates op' = op_Candidates op" "op_SelectedIndex op' = op_SelectedIndex op" "op_Classification op' = op_Classification op"
  using assms by (auto simp: direction_legs_def Let_def split: option.splits prod.splits if_splits)

lemma select_candidate_Candidates [simp]: "op_Candidates (select_candidate g op) = gs_Candidates g"
  by (simp add: select_candidate_def Let_def)

lemma evaluateDirection_decides:
  assumes "evaluateDirection texts ctxErr refresh s evaluation finishedAt direction cache = (op, cache')" and "strategy_ok s a"
    and "dir_BuyMarket direction \<in> set (set_markets (tw_setup s))" and "dir_SellMarket direction \<in> set (set_markets (tw_setup s))"
    and "qty_asset (cs_Amount (ev_cost evaluation)) = a" and "0 \<le> qty_value (cs_Amount (ev_cost evaluation))"
  shows "decision_ok op \<and> (\<forall>c \<in> set (op_Candidates op). candidate_accounts (ev_cost evaluation) a c)"
proof (cases "direction_legs s evaluation direction (new_opportunity s evaluation direction finishedAt)")
  case (Inl op')
  with assms(1) have "op = op'" by (simp add: evaluateDirection_def)
  then show ?thesis using direction_legs_Inl [OF Inl] by (simp add: decision_ok_def new_opportunity_def)
next
  case (Inr x)
  obtain op' legs where x: "x = (op', legs)" by fastforce
  note legs = direction_legs_Inr [OF Inr [unfolded x] assms(2-4)]
  obtain g where g: "fold (consider_size texts ctxErr refresh s evaluation direction legs) (tw_grid s) (empty_scan, cache) = (g, cache')"
      and op: "op = select_candidate g op'"
    using assms(1) by (auto simp: evaluateDirection_def Inr x split: prod.splits)
  have quote: "tok_Asset (lg_buyQuote legs) = a" using legs(1) by (simp add: legs_assets_def)
  have "scan_ok s (ev_cost evaluation) (lg_buyQuote legs) g"
    using fold_scan_ok [of legs evaluation s "(empty_scan, cache)" texts ctxErr refresh direction "tw_grid s"] legs(1) assms(5)
    by (simp add: quote g empty_scan_ok)
  moreover have "threshold_assets s (tok_Asset (lg_buyQuote legs))" using assms(2) by (simp add: quote strategy_ok_def)
  ultimately show ?thesis using select_candidate_decides [OF _ _ assms(6)] legs(2) quote
    by (auto simp: op new_opportunity_def scan_ok_def candidate_priced_def)
qed

lemma evaluate_directions_each:
  assumes "op \<in> set (fst (evaluate_directions texts ctxErr refresh s evaluation finishedAt directions cache))"
  shows "\<exists>direction \<in> set directions. \<exists>cache1 cache2.
    evaluateDirection texts ctxErr refresh s evaluation (finishedAt direction) direction cache1 = (op, cache2)"
proof -
  let ?step = "\<lambda>direction (opportunities, cache). case evaluateDirection texts ctxErr refresh s evaluation (finishedAt direction) direction cache of
           (opportunity, cache') \<Rightarrow> (opportunities @ [opportunity], cache')"
  have "op \<in> set acc \<or> (\<exists>direction \<in> set directions. \<exists>cache1 cache2.
      evaluateDirection texts ctxErr refresh s evaluation (finishedAt direction) direction cache1 = (op, cache2))"
    if "op \<in> set (fst (fold ?step directions (acc, cache)))" for acc
    using that
  proof (induction directions arbitrary: acc cache)
    case (Cons d ds)
    obtain o1 c1 where "evaluateDirection texts ctxErr refresh s evaluation (finishedAt d) d cache = (o1, c1)" by fastforce
    then show ?case using Cons.IH [of "acc @ [o1]" c1] Cons.prems by auto
  qed simp
  from this [of "[]"] assms show ?thesis by (simp add: evaluate_directions_def)
qed

lemma discoverDirection_markets:
  assumes "discoverDirection texts ctxErr refresh s evaluation cache = (Inr (Some d, timing), cache')" and "strategy_ok s a"
  shows "dir_BuyMarket d \<in> set (set_markets (tw_setup s)) \<and> dir_SellMarket d \<in> set (set_markets (tw_setup s))"
proof -
  obtain sideA sideB n where sides: "discovery_sides s evaluation = Inr (sideA, sideB)"
      and d: "decide_direction (ps_market sideA) (ps_market sideB) (tw_discoverySamples s) n = Some d"
    using assms(1) by (auto simp: discoverDirection_def split: sum.splits prod.splits if_splits option.splits)
  have "ps_market sideA \<in> set (set_markets (tw_setup s)) \<and> ps_market sideB \<in> set (set_markets (tw_setup s))"
    using sides assms(2) by (auto simp: discovery_sides_def strategy_ok_def split: list.splits option.splits if_splits)
  with d show ?thesis by (auto simp: decide_direction_def split: if_splits)
qed

lemma evaluateWithTiming_each:
  assumes "evaluateWithTiming texts ctxErr refresh s evaluation finishedAt cache = (Inr (opportunities, discovery), cache')"
    and "op \<in> set opportunities" and "strategy_ok s a"
  obtains direction cache1 cache2 where "evaluateDirection texts ctxErr refresh s evaluation (finishedAt direction) direction cache1 = (op, cache2)"
    "dir_BuyMarket direction \<in> set (set_markets (tw_setup s))" "dir_SellMarket direction \<in> set (set_markets (tw_setup s))"
    "qty_asset (cs_Amount (ev_cost evaluation)) = qty_asset (tw_threshold s)"
proof -
  obtain found cache1 where dirs: "opportunities = fst (evaluate_directions texts ctxErr refresh s evaluation finishedAt
        (case found of None \<Rightarrow> set_directions (tw_setup s) | Some d \<Rightarrow> [d]) cache1)"
      and found: "\<And>d. found = Some d \<Longrightarrow> \<exists>timing. discoverDirection texts ctxErr refresh s evaluation cache = (Inr (Some d, timing), cache1)"
      and cost: "qty_asset (cs_Amount (ev_cost evaluation)) = qty_asset (tw_threshold s)"
  proof (cases "tw_discoverySamples s > 0")
    case True
    obtain answer cache1 where disc: "discoverDirection texts ctxErr refresh s evaluation cache = (answer, cache1)" by fastforce
    with assms(1) True obtain found timing where "answer = Inr (found, timing)"
      by (cases answer) (auto simp: evaluateWithTiming_def split: if_splits)
    with assms(1) True disc that [of found cache1] show ?thesis
      by (simp add: evaluateWithTiming_def split: if_splits prod.splits)
  next
    case False
    with assms(1) that [of None cache] show ?thesis
      by (auto simp: evaluateWithTiming_def split: if_splits prod.splits)
  qed
  from assms(2) [unfolded dirs, THEN evaluate_directions_each] obtain direction cache2 cache3
    where d: "direction \<in> set (case found of None \<Rightarrow> set_directions (tw_setup s) | Some d \<Rightarrow> [d])"
      "evaluateDirection texts ctxErr refresh s evaluation (finishedAt direction) direction cache2 = (op, cache3)" by blast
  have "dir_BuyMarket direction \<in> set (set_markets (tw_setup s)) \<and> dir_SellMarket direction \<in> set (set_markets (tw_setup s))"
  proof (cases found)
    case None
    with d(1) assms(3) show ?thesis by (simp add: strategy_ok_def)
  next
    case (Some d')
    with d(1) found discoverDirection_markets [OF _ assms(3)] show ?thesis by fastforce
  qed
  with that [OF d(2)] cost show thesis by blast
qed

text \<open>
  C18: for a strategy built from a consistent registry and a setup of its pair, and costs that are
  not negative: an opportunity is reported as policy qualified exactly when one of its candidate
  sizes has a positive net profit of at least its threshold; the selected candidate is then one
  of these and no other of them earns more; and every candidate accounts for its trade, the net
  profit being what the sale brings less what the purchase and the costs take.
\<close>

theorem two_market_decision:
  assumes "registry_ok registry" and "NewArbitrageSetup sid pair markets (Some registry) = Inr (tc_Setup config)"
    and "tc_Registry config = Some registry" and "NewTwoMarket config = Inr s"
    and "evaluateWithTiming texts ctxErr refresh s evaluation finishedAt cache = (Inr (opportunities, discovery), cache')"
    and "op \<in> set opportunities" and "0 \<le> qty_value (cs_Amount (ev_cost evaluation))"
  shows "decision_ok op \<and> (\<forall>c \<in> set (op_Candidates op). candidate_accounts (ev_cost evaluation) (qty_asset (tw_threshold s)) c)"
proof -
  note ok = NewTwoMarket_ok [OF assms(4,3,1,2)]
  show ?thesis
  proof (rule evaluateWithTiming_each [OF assms(5,6) ok])
    fix direction cache1 cache2
    assume "evaluateDirection texts ctxErr refresh s evaluation (finishedAt direction) direction cache1 = (op, cache2)"
      "dir_BuyMarket direction \<in> set (set_markets (tw_setup s))" "dir_SellMarket direction \<in> set (set_markets (tw_setup s))"
      "qty_asset (cs_Amount (ev_cost evaluation)) = qty_asset (tw_threshold s)"
    from evaluateDirection_decides [OF this(1) ok this(2-4) assms(7)] show ?thesis .
  qed
qed

definition sample_registry :: Registry where
  "sample_registry = empty_registry\<lparr>reg_chains := [''c'' \<mapsto> \<lparr>chn_ID = ''c''\<rparr>],
     reg_assets := [''X'' \<mapsto> \<lparr>ast_ID = ''X'', ast_Symbol = ''X''\<rparr>, ''Y'' \<mapsto> \<lparr>ast_ID = ''Y'', ast_Symbol = ''Y''\<rparr>],
     reg_tokens := [''x'' \<mapsto> \<lparr>tok_ID = ''x'', tok_Asset = ''X'', tok_Chain = ''c'', tok_Decimals = 0, tok_Symbol = ''X''\<rparr>,
       ''y'' \<mapsto> \<lparr>tok_ID = ''y'', tok_Asset = ''Y'', tok_Chain = ''c'', tok_Decimals = 0, tok_Symbol = ''Y''\<rparr>],
     reg_venues := [''v'' \<mapsto> \<lparr>ven_ID = ''v''\<rparr>],
     reg_pairs := [''p'' \<mapsto> \<lparr>pair_ID = ''p'', pair_BaseAsset = ''X'', pair_QuoteAsset = ''Y''\<rparr>],
     reg_pools := [''l'' \<mapsto> \<lparr>pool_ID = ''l'', pool_Venue = ''v'', pool_Chain = ''c'', pool_Tokens = [''x'', ''y''], pool_Adapter = ''a''\<rparr>],
     reg_paths := [''h'' \<mapsto> \<lparr>path_ID = ''h'', path_Chain = ''c'', path_Hops = [\<lparr>hop_Pool = ''l'', hop_TokenIn = ''x'', hop_TokenOut = ''y''\<rparr>]\<rparr>],
     reg_markets := [''m'' \<mapsto> \<lparr>mkt_ID = ''m'', mkt_Pair = ''p'', mkt_Chain = ''c'', mkt_Path = ''h'', mkt_BaseToken = ''x'', mkt_QuoteToken = ''y''\<rparr>,
       ''n'' \<mapsto> \<lparr>mkt_ID = ''n'', mkt_Pair = ''p'', mkt_Chain = ''c'', mkt_Path = ''h'', mkt_BaseToken = ''x'', mkt_QuoteToken = ''y''\<rparr>]\<rparr>"

lemma sample_registry_ok: "registry_ok sample_registry"
  by (auto simp: registry_ok_def sample_registry_def all_entries_def token_ok_def pair_ok_def pool_ok_def path_ok_def hop_ok_def market_ok_def
      empty_registry_def split: if_splits)

text \<open>A source that gives a fixed multiple of its input, the markets that use it, and an evaluation of both.\<close>

definition rate_source :: "int \<Rightarrow> int \<Rightarrow> (unit, unit) StrategySource" where
  "rate_source bought sold = \<lparr>so_identity = \<lparr>si_ID = ''r'', si_CacheQuotes = None\<rparr>,
     so_source = \<lparr>src_Quote = (\<lambda>r. Inr \<lparr>q_Source = ''r'', q_Market = md_Market (fst (qi_Snapshot r)), q_SnapshotVersion = 1, q_SnapshotHash = ''h'',
       q_SourcePosition = \<lparr>sp_Kind = [], sp_Value = 0\<rparr>, q_ResponseHash = [], q_Purpose = qi_Purpose r, q_Mode = QuoteModeExactInput,
       q_Quality = QuoteQualityExact, q_AmountIn = qi_AmountIn r,
       q_AmountOut = \<lparr>amt_token = qi_TokenOut r, amt_units = (if qi_TokenOut r = ''x'' then bought else sold) * amt_units (qi_AmountIn r)\<rparr>,
       q_QuotedAt = qi_QuotedAt r, q_fees = []\<rparr>), src_QuoteExactOutput = None\<rparr>, so_fresh = None\<rparr>"

abbreviation y_qty :: "rat \<Rightarrow> AssetQuantity" where "y_qty v \<equiv> \<lparr>qty_asset = ''Y'', qty_value = v\<rparr>"

definition sample_config :: "int \<Rightarrow> (unit, unit) TwoMarketConfig" where
  "sample_config samples = \<lparr>tc_ID = ''t'', tc_Setup = \<lparr>set_id = ''s'', set_pair = ''p'', set_markets = [''m'', ''n''], set_directions = all_directions [''m'', ''n'']\<rparr>,
     tc_Registry = Some sample_registry, tc_Sources = [''m'' \<mapsto> rate_source 3 1, ''n'' \<mapsto> rate_source 2 1],
     tc_Grid = [y_qty 10, y_qty 20, y_qty 40], tc_Threshold = y_qty 0, tc_ThresholdFixed = y_qty 15, tc_ThresholdBPS = 1000, tc_Clock = True,
     tc_SizingAsset = [], tc_DirectionDiscoverySamples = samples\<rparr>"

definition sample_strategy :: "int \<Rightarrow> (unit, unit) TwoMarket" where
  "sample_strategy samples = (case NewTwoMarket (sample_config samples) of Inr s \<Rightarrow> s | Inl _ \<Rightarrow> undefined)"

definition sample_evaluation :: "unit Evaluation" where
  "sample_evaluation = \<lparr>ev_id = ''e'', ev_run = ''r'', ev_strategy = ''t'', ev_configHash = ''h'',
     ev_snapshots = [(pool_metadata\<lparr>md_Market := ''m''\<rparr>, ProtocolData ''k'' ()), (pool_metadata\<lparr>md_Market := ''n''\<rparr>, ProtocolData ''k'' ())],
     ev_cost = \<lparr>cs_ID = ''c'', cs_Amount = y_qty 6, cs_CapturedAt = 1\<rparr>, ev_costs = Map.empty, ev_conversions = Map.empty, ev_trigger = None,
     ev_triggeredAt = 1, ev_startedAt = 2\<rparr>"

definition sample_texts :: "unit error_texts" where
  "sample_texts = \<lparr>tx_input = (\<lambda>_. ''failed''), tx_output = (\<lambda>_. ''failed''), tx_amount = (\<lambda>_. ''amount'')\<rparr>"

lemma sample_setup: "NewArbitrageSetup ''s'' ''p'' [''m'', ''n''] (Some sample_registry) = Inr (tc_Setup (sample_config samples))"
  by (simp add: NewArbitrageSetup_def sample_registry_def market_seen_error_def sample_config_def empty_registry_def rbind_def)

lemma sample_strategy_new: "NewTwoMarket (sample_config 0) = Inr (sample_strategy 0)" "NewTwoMarket (sample_config 3) = Inr (sample_strategy 3)"
proof -
  have "is_ok (NewTwoMarket (sample_config 0))" "is_ok (NewTwoMarket (sample_config 3))" by code_simp+
  then show "NewTwoMarket (sample_config 0) = Inr (sample_strategy 0)" "NewTwoMarket (sample_config 3) = Inr (sample_strategy 3)"
    by (simp_all add: is_ok_def sample_strategy_def split: sum.splits)
qed

definition sample_decisions :: "int \<Rightarrow> (strategy_error, (Direction \<times> string \<times> int) list) result" where
  "sample_decisions samples =
     rbind (fst (evaluateWithTiming sample_texts False False (sample_strategy samples) sample_evaluation (\<lambda>_. 9) newQuoteCache)) (\<lambda>(ops, _).
       Inr (map (\<lambda>op. (op_Direction op, op_Classification op, op_SelectedIndex op)) ops))"

lemma sample_decisions_found:
  "sample_decisions 0 = Inr [(\<lparr>dir_BuyMarket = ''m'', dir_SellMarket = ''n''\<rparr>, ClassificationPolicyQualified, 2),
     (\<lparr>dir_BuyMarket = ''n'', dir_SellMarket = ''m''\<rparr>, ClassificationPolicyQualified, 2)]"
  "sample_decisions 3 = Inr [(\<lparr>dir_BuyMarket = ''m'', dir_SellMarket = ''n''\<rparr>, ClassificationPolicyQualified, 2)]"
  by code_simp+

lemma sample_strategy_run:
  assumes "sample_decisions samples = Inr ds" and "d \<in> set ds"
  obtains ops discovery cache' op where
    "evaluateWithTiming sample_texts False False (sample_strategy samples) sample_evaluation (\<lambda>_. 9) newQuoteCache = (Inr (ops, discovery), cache')"
    "op \<in> set ops" "(op_Direction op, op_Classification op, op_SelectedIndex op) = d"
proof -
  obtain x cache' where run: "evaluateWithTiming sample_texts False False (sample_strategy samples) sample_evaluation (\<lambda>_. 9) newQuoteCache = (x, cache')" by fastforce
  with assms show thesis by (auto simp: sample_decisions_def rbind_eq_Inr intro: that)
qed

theorem two_market_decision_witness:
  "\<exists>op. op_Classification op = ClassificationPolicyQualified \<and> op_SelectedIndex op = 2 \<and> decision_ok op \<and>
     (\<forall>c \<in> set (op_Candidates op). candidate_accounts (ev_cost sample_evaluation) (qty_asset (tw_threshold (sample_strategy 0))) c)"
proof (rule sample_strategy_run [OF sample_decisions_found(1) list.set_intros(1)])
  fix ops discovery cache' op
  assume run: "evaluateWithTiming sample_texts False False (sample_strategy 0) sample_evaluation (\<lambda>_. 9) newQuoteCache = (Inr (ops, discovery), cache')"
    "op \<in> set ops" and op: "(op_Direction op, op_Classification op, op_SelectedIndex op) =
      (\<lparr>dir_BuyMarket = ''m'', dir_SellMarket = ''n''\<rparr>, ClassificationPolicyQualified, 2)"
  have "0 \<le> qty_value (cs_Amount (ev_cost sample_evaluation))" by (simp add: sample_evaluation_def)
  from two_market_decision [OF sample_registry_ok sample_setup _ sample_strategy_new(1) run this] op show ?thesis by (auto simp: sample_config_def)
qed

section \<open>Pinned trades\<close>

lemma grid_irrelevant [simp]:
  "new_opportunity (s\<lparr>tw_grid := g\<rparr>) = new_opportunity s" "direction_legs (s\<lparr>tw_grid := g\<rparr>) = direction_legs s"
  "quoteSizedCandidate texts ctxErr refresh (s\<lparr>tw_grid := g\<rparr>) = quoteSizedCandidate texts ctxErr refresh s"
  "candidateThreshold (s\<lparr>tw_grid := g\<rparr>) = candidateThreshold s"
proof -
  have fields: "tw_id (s\<lparr>tw_grid := g\<rparr>) = tw_id s" "tw_registry (s\<lparr>tw_grid := g\<rparr>) = tw_registry s" "tw_sources (s\<lparr>tw_grid := g\<rparr>) = tw_sources s"
      "tw_threshold (s\<lparr>tw_grid := g\<rparr>) = tw_threshold s" "tw_thresholdFixed (s\<lparr>tw_grid := g\<rparr>) = tw_thresholdFixed s"
      "tw_thresholdBPS (s\<lparr>tw_grid := g\<rparr>) = tw_thresholdBPS s"
    by simp_all
  show "new_opportunity (s\<lparr>tw_grid := g\<rparr>) = new_opportunity s" "direction_legs (s\<lparr>tw_grid := g\<rparr>) = direction_legs s"
    "quoteSizedCandidate texts ctxErr refresh (s\<lparr>tw_grid := g\<rparr>) = quoteSizedCandidate texts ctxErr refresh s"
    "candidateThreshold (s\<lparr>tw_grid := g\<rparr>) = candidateThreshold s"
    unfolding fun_eq_iff new_opportunity_def direction_legs_def quoteSizedCandidate_def candidateThreshold_def fields by simp_all
qed

lemma new_opportunity_fields [simp]:
  "op_Candidates (new_opportunity s e d t) = []" "op_SelectedIndex (new_opportunity s e d t) = -1" "op_Direction (new_opportunity s e d t) = d"
  "op_Reasons (new_opportunity s e d t) = []" "op_Threshold (new_opportunity s e d t) = tw_threshold s"
  by (simp_all add: new_opportunity_def)

lemma direction_legs_keeps:
  assumes "direction_legs s evaluation direction op = x"
  shows "op_Direction (case x of Inl op' \<Rightarrow> op' | Inr (op', _) \<Rightarrow> op') = op_Direction op"
    and "op_Candidates (case x of Inl op' \<Rightarrow> op' | Inr (op', _) \<Rightarrow> op') = op_Candidates op"
    and "op_SelectedIndex (case x of Inl op' \<Rightarrow> op' | Inr (op', _) \<Rightarrow> op') = op_SelectedIndex op"
  using assms by (auto simp: direction_legs_def Let_def split: option.splits prod.splits if_splits)

lemma quoteSizedCandidate_size:
  assumes "quoteSizedCandidate texts ctxErr refresh s evaluation direction legs budget cache = (Inr c, cache')"
  shows "cd_Size c = budget"
  using assms by (auto simp: quoteSizedCandidate_def profit_candidate_def Let_def split: sum.splits if_splits prod.splits)

text \<open>One size on the grid leaves one candidate, which is selected.\<close>

lemma select_single:
  assumes "op_Candidates op = []" and "op_SelectedIndex op = -1"
  shows "select_candidate (empty_scan\<lparr>gs_Reasons := [reason]\<rparr>) op = op\<lparr>op_Reasons := [reason]\<rparr>"
    and "select_candidate (add_candidate c empty_scan) op = op\<lparr>op_Candidates := [c], op_SelectedIndex := 0, op_Threshold := cd_EffectiveThreshold c,
      op_Classification := fst (classify_candidate c), op_Reasons := snd (classify_candidate c)\<rparr>"
  using assms by (cases op, simp add: select_candidate_def empty_scan_def)
    (simp add: select_candidate_def empty_scan_def add_candidate_def better_at_def Let_def)

text \<open>
  the evaluation of a pinned trade is the evaluation of its direction on the grid of that one
  size, cache and reasons included; it never changes the direction or the size.
\<close>

lemma pinned_is_single_grid:
  assumes "EvaluatePinnedWithTiming texts ctxErr s evaluation finishedAt direction sizeQty cache = (Inr op, cache')"
  shows "evaluateDirection texts ctxErr False (s\<lparr>tw_grid := [sizeQty]\<rparr>) evaluation finishedAt direction cache = (op, cache') \<and>
    op_Direction op = direction \<and> (\<forall>c \<in> set (op_Candidates op). cd_Size c = sizeQty)"
proof (cases "direction_legs s evaluation direction (new_opportunity s evaluation direction finishedAt)")
  case (Inl op')
  with assms direction_legs_keeps [OF Inl] show ?thesis
    by (auto simp: EvaluatePinnedWithTiming_def evaluateDirection_def split: if_splits)
next
  case (Inr x)
  obtain op' legs where x: "x = (op', legs)" by fastforce
  note keeps = direction_legs_keeps [OF Inr, unfolded x, simplified]
  obtain answer cache1 where quoted: "quoteSizedCandidate texts ctxErr False s evaluation direction legs sizeQty cache = (answer, cache1)" by fastforce
  have quote: "tw_sizingAsset s = tok_Asset (lg_buyQuote legs)"
    using assms by (auto simp: EvaluatePinnedWithTiming_def Inr x split: if_splits)
  then have single: "evaluateDirection texts ctxErr False (s\<lparr>tw_grid := [sizeQty]\<rparr>) evaluation finishedAt direction cache =
      (case consider_size texts ctxErr False (s\<lparr>tw_grid := [sizeQty]\<rparr>) evaluation direction legs sizeQty (empty_scan, cache) of
         (g, cache') \<Rightarrow> (select_candidate g op', cache'))"
    by (simp add: evaluateDirection_def Inr x)
  show ?thesis
  proof (cases answer)
    case (Inl reason)
    then show ?thesis using assms keeps quote select_single(1) [OF keeps(2,3)] unfolding single
      by (auto simp: EvaluatePinnedWithTiming_def Inr x quoted consider_size_def strategy_candidate_def empty_scan_def split: if_splits)
  next
    case cand: (Inr c)
    then obtain t where t: "candidateThreshold s (cd_Input c) (lg_buyQuote legs) = Inr t"
      using assms by (auto simp: EvaluatePinnedWithTiming_def Inr x quoted split: if_splits sum.splits)
    have "cd_Size (with_thresholds t c) = sizeQty" using quoteSizedCandidate_size quoted cand by (simp add: with_thresholds_def)
    then show ?thesis using assms keeps quote select_single(2) [OF keeps(2,3)] unfolding single
      by (auto simp: EvaluatePinnedWithTiming_def Inr x quoted cand t consider_size_def strategy_candidate_def Let_def split: if_splits)
  qed
qed

definition sample_pinned :: "(strategy_error, Opportunity) result \<times> quoteCache" where
  "sample_pinned = EvaluatePinnedWithTiming sample_texts False (sample_strategy 0) sample_evaluation 9 \<lparr>dir_BuyMarket = ''n'', dir_SellMarket = ''m''\<rparr> (y_qty 25)
     newQuoteCache"

lemma sample_pinned_found:
  "rbind (fst sample_pinned) (\<lambda>op. Inr (op_Classification op, map cd_NetPnL (op_Candidates op))) = Inr (ClassificationPolicyQualified, [y_qty 19])"
  by code_simp

lemma pinned_is_single_grid_example:
  "\<exists>op cache'. sample_pinned = (Inr op, cache') \<and> op_Classification op = ClassificationPolicyQualified \<and>
     evaluateDirection sample_texts False False ((sample_strategy 0)\<lparr>tw_grid := [y_qty 25]\<rparr>) sample_evaluation 9
       \<lparr>dir_BuyMarket = ''n'', dir_SellMarket = ''m''\<rparr> newQuoteCache = (op, cache')"
proof -
  obtain x cache' where run: "sample_pinned = (x, cache')" by fastforce
  with sample_pinned_found obtain op where "x = Inr op" and op: "op_Classification op = ClassificationPolicyQualified"
    by (cases x) (auto simp: run)
  with run have run: "sample_pinned = (Inr op, cache')" by simp
  from pinned_is_single_grid [OF run [unfolded sample_pinned_def]] run op show ?thesis by blast
qed

section \<open>The discovered direction\<close>

definition decided :: "DirectionProbeTiming \<Rightarrow> bool" where
  "decided probe \<longleftrightarrow> (case probe_comparison probe of None \<Rightarrow> False | Some comparison \<Rightarrow> comparison \<noteq> 0)"

definition counts_ok :: "MarketID \<Rightarrow> MarketID \<Rightarrow> probe_count \<Rightarrow> bool" where
  "counts_ok marketA marketB n \<longleftrightarrow> pc_valid n = int (length (filter decided (pc_Probes n))) \<and>
     (\<forall>m. pc_wins n m = int (length (filter (\<lambda>p. decided p \<and> pt_Winner p = m) (pc_Probes n)))) \<and>
     (\<forall>p \<in> set (pc_Probes n). decided p \<longrightarrow> pt_Winner p \<in> {marketA, marketB})"

lemma judge_probe_comparison [simp]: "probe_comparison (judge_probe marketA marketB probe) = probe_comparison probe"
  by (auto simp: judge_probe_def probe_comparison_def split: option.splits)

lemma count_probe_ok:
  assumes "counts_ok marketA marketB n"
  shows "counts_ok marketA marketB (count_probe marketA marketB probe n)"
    and "pc_Probes (count_probe marketA marketB probe n) = pc_Probes n @ [judge_probe marketA marketB probe]"
proof -
  have winner: "decided probe \<Longrightarrow> pt_Winner (judge_probe marketA marketB probe) = (if the (probe_comparison probe) > 0 then marketA else marketB)"
    by (auto simp: decided_def judge_probe_def split: option.splits)
  have "decided (judge_probe marketA marketB probe) = decided probe" by (simp add: decided_def)
  then show "counts_ok marketA marketB (count_probe marketA marketB probe n)"
    using assms winner by (cases "decided probe") (auto simp: counts_ok_def count_probe_def Let_def decided_def split: option.splits if_splits)
  show "pc_Probes (count_probe marketA marketB probe n) = pc_Probes n @ [judge_probe marketA marketB probe]"
    by (simp add: count_probe_def Let_def split: option.splits)
qed

lemma probe_sample_ok:
  assumes "counts_ok (ps_market sideA) (ps_market sideB) (fst x)"
  shows "counts_ok (ps_market sideA) (ps_market sideB) (fst (probe_sample texts ctxErr refresh s evaluation sideA sideB sample x)) \<and>
    length (pc_Probes (fst (probe_sample texts ctxErr refresh s evaluation sideA sideB sample x))) = Suc (length (pc_Probes (fst x)))"
  using assms by (cases x) (simp add: probe_sample_def count_probe_ok split: prod.splits)

lemma probe_samples_ok:
  assumes "counts_ok (ps_market sideA) (ps_market sideB) (fst x)"
  shows "counts_ok (ps_market sideA) (ps_market sideB) (fst (fold (probe_sample texts ctxErr refresh s evaluation sideA sideB) samples x)) \<and>
    length (pc_Probes (fst (fold (probe_sample texts ctxErr refresh s evaluation sideA sideB) samples x))) = length (pc_Probes (fst x)) + length samples"
  using assms
proof (induction samples arbitrary: x)
  case (Cons i rest)
  then show ?case using probe_sample_ok [OF Cons.prems, of texts ctxErr refresh s evaluation i] by simp
qed simp

lemma filter_all_length: "length (filter P xs) = length xs \<longleftrightarrow> (\<forall>x \<in> set xs. P x)"
  by (metis filter_True length_filter_less nat_neq_iff)

lemma decide_direction_majority:
  assumes "counts_ok marketA marketB n" and "length (pc_Probes n) = nat samples" and "0 \<le> samples" and "marketA \<noteq> marketB"
  shows "decide_direction marketA marketB samples n = Some d \<longleftrightarrow>
    d \<in> {\<lparr>dir_BuyMarket = marketA, dir_SellMarket = marketB\<rparr>, \<lparr>dir_BuyMarket = marketB, dir_SellMarket = marketA\<rparr>} \<and>
    (\<forall>p \<in> set (pc_Probes n). decided p) \<and>
    samples < 2 * int (length (filter (\<lambda>p. pt_Winner p = dir_BuyMarket d) (pc_Probes n)))"
proof (cases "\<forall>p \<in> set (pc_Probes n). decided p")
  case False
  then have "pc_valid n \<noteq> samples" using assms(1-3) filter_all_length [of decided "pc_Probes n"] by (auto simp: counts_ok_def)
  then show ?thesis using False by (simp add: decide_direction_def)
next
  case True
  let ?wins = "\<lambda>m. length (filter (\<lambda>p. pt_Winner p = m) (pc_Probes n))"
  have valid: "pc_valid n = samples" using True assms(1-3) filter_all_length [of decided "pc_Probes n"] by (simp add: counts_ok_def)
  have wins: "pc_wins n m = int (?wins m)" for m
    using assms(1) True by (simp add: counts_ok_def cong: filter_cong)
  have "length (filter (\<lambda>p. pt_Winner p = marketA) ps) + length (filter (\<lambda>p. pt_Winner p = marketB) ps) \<le> length ps" for ps
    using assms(4) by (induction ps) auto
  from this [of "pc_Probes n"] have "?wins marketA + ?wins marketB \<le> length (pc_Probes n)" .
  moreover have "bigQuo samples 2 < k \<longleftrightarrow> samples < 2 * k" for k using assms(3) by (simp add: bigQuo_nonneg) linarith
  ultimately show ?thesis using True assms(2-4) by (auto simp: decide_direction_def valid wins)
qed

lemma discovery_sides_Inr:
  assumes "discovery_sides s evaluation = Inr (sideA, sideB)" and "strategy_ok s a"
  shows "ps_market sideA \<noteq> ps_market sideB"
  using assms by (fastforce simp: discovery_sides_def strategy_ok_def split: list.splits option.splits if_splits)

text \<open>
  a direction is chosen before sizing exactly when every probe has a winner and more than half
  of the probes give more of the base asset on one market, which is then the market to buy on;
  all configured probes are made. In every other case both directions are evaluated.
\<close>

lemma discovery_by_majority:
  assumes "registry_ok registry" and "NewArbitrageSetup sid pair markets (Some registry) = Inr (tc_Setup config)"
    and "tc_Registry config = Some registry" and "NewTwoMarket config = Inr s"
    and "discovery_sides s evaluation = Inr (sideA, sideB)"
    and "discoverDirection texts ctxErr refresh s evaluation cache = (Inr (found, timing), cache')"
  shows "int (length (dt_Probes timing)) = tw_discoverySamples s \<and>
    (found = Some d \<longleftrightarrow>
       d \<in> {\<lparr>dir_BuyMarket = ps_market sideA, dir_SellMarket = ps_market sideB\<rparr>, \<lparr>dir_BuyMarket = ps_market sideB, dir_SellMarket = ps_market sideA\<rparr>} \<and>
       (\<forall>p \<in> set (dt_Probes timing). decided p) \<and>
       tw_discoverySamples s < 2 * int (length (filter (\<lambda>p. pt_Winner p = dir_BuyMarket d) (dt_Probes timing))))"
proof -
  let ?start = "(\<lparr>pc_Probes = [], pc_valid = 0, pc_wins = (\<lambda>_. 0)\<rparr>, cache)"
  note ok = NewTwoMarket_ok [OF assms(4,3,1,2)]
  have samples: "0 \<le> tw_discoverySamples s" by (rule NewTwoMarket_Inr [OF assms(4)]) linarith
  obtain n cache1 where n: "fold (probe_sample texts ctxErr refresh s evaluation sideA sideB) [0..<nat (tw_discoverySamples s)] ?start = (n, cache1)" by fastforce
  have found: "found = decide_direction (ps_market sideA) (ps_market sideB) (tw_discoverySamples s) n" "dt_Probes timing = pc_Probes n"
    using assms(6) by (auto simp: discoverDirection_def assms(5) n split: if_splits option.splits)
  have "counts_ok (ps_market sideA) (ps_market sideB) n \<and> length (pc_Probes n) = nat (tw_discoverySamples s)"
    using probe_samples_ok [of sideA sideB ?start texts ctxErr refresh s evaluation "[0..<nat (tw_discoverySamples s)]"] n by (simp add: counts_ok_def)
  then show ?thesis unfolding found using decide_direction_majority [of "ps_market sideA" "ps_market sideB" n] samples discovery_sides_Inr [OF assms(5) ok] by simp
qed

definition sample_discovery :: "(strategy_error, Direction option \<times> DirectionDiscoveryTiming) result \<times> quoteCache" where
  "sample_discovery = discoverDirection sample_texts False False (sample_strategy 3) sample_evaluation newQuoteCache"

lemma sample_discovery_found:
  "rbind (fst sample_discovery) (\<lambda>x. Inr (fst x)) = Inr (Some \<lparr>dir_BuyMarket = ''m'', dir_SellMarket = ''n''\<rparr>)"
  "is_ok (discovery_sides (sample_strategy 3) sample_evaluation)" "tw_discoverySamples (sample_strategy 3) = 3"
  by code_simp+

lemma discovery_by_majority_example:
  "\<exists>timing cache'. sample_discovery = (Inr (Some \<lparr>dir_BuyMarket = ''m'', dir_SellMarket = ''n''\<rparr>, timing), cache') \<and>
     3 < 2 * int (length (filter (\<lambda>p. pt_Winner p = ''m'') (dt_Probes timing)))"
proof -
  obtain x cache' where run: "sample_discovery = (x, cache')" by fastforce
  with sample_discovery_found(1) obtain timing where "x = Inr (Some \<lparr>dir_BuyMarket = ''m'', dir_SellMarket = ''n''\<rparr>, timing)"
    by (cases x) (auto simp: run)
  with run have run: "sample_discovery = (Inr (Some \<lparr>dir_BuyMarket = ''m'', dir_SellMarket = ''n''\<rparr>, timing), cache')" by simp
  obtain sideA sideB where sides: "discovery_sides (sample_strategy 3) sample_evaluation = Inr (sideA, sideB)"
    using sample_discovery_found(2) by (auto simp: is_ok_def split: sum.splits)
  have registry: "tc_Registry (sample_config 3) = Some sample_registry" by (simp add: sample_config_def)
  from discovery_by_majority [OF sample_registry_ok sample_setup registry sample_strategy_new(2) sides run [unfolded sample_discovery_def], of "\<lparr>dir_BuyMarket = ''m'', dir_SellMarket = ''n''\<rparr>"]
    run show ?thesis by (auto simp: sample_discovery_found(3))
qed

end
