(* ===== verification/Strategy_Prefunded.thy ===== *)
theory Strategy_Prefunded
  imports Strategy_Two_Market
begin

text \<open>
  The strategies on independent inventories, \<open>live.go\<close> and \<open>prefunded_parallel.go\<close> of
  \<open>src/core/strategy\<close>: both legs of a trade have inputs that are fixed before any quote, and the
  difference in the base asset is valued at an implied price.

  A source is a function of its request. The clock is read through arguments: \<open>now\<close> for the
  valuation, and one reading per direction for its quotes. The valuation cache is the only state.
  Goroutines of one evaluation only read, and join before their results are used, so that they are
  maps over the directions and the notionals. Timings and the observer of errors, which change no
  result, are left out.
\<close>

section \<open>The live evaluator\<close>

type_synonym ('p, 'e) quote_source = "'p QuoteInput \<Rightarrow> ('e, Quote) result"

record ('p, 'e) LiveConfig =
  lc_Setup :: ArbitrageSetup
  lc_Registry :: "Registry option"
  lc_Sources :: "MarketID \<rightharpoonup> ('p, 'e) quote_source"
  lc_Clock :: bool

record ('p, 'e) LiveEvaluator =
  le_setup :: ArbitrageSetup
  le_registry :: Registry
  le_sources :: "MarketID \<rightharpoonup> ('p, 'e) quote_source"

record 'p LiveEvaluationRequest =
  lr_ID :: string
  lr_Direction :: Direction
  lr_Snapshots :: "MarketID \<rightharpoonup> 'p MarketSnapshot"
  lr_Notional :: AssetQuantity
  lr_Valuation :: ValuationSnapshot
  lr_Cost :: AssetQuantity
  lr_Threshold :: AssetQuantity
  lr_MaximumCost :: AssetQuantity
  lr_MaximumBaseExposure :: AssetQuantity
  lr_TriggeredAt :: gotime
  lr_QuoteConversion :: "QuoteConversionSnapshot option"

datatype 'e live_eval_error =
    LiveEvalIncomplete
  | LiveEvalSource MarketID
  | LiveEvalIdentity
  | LiveEvalUnknownMarket
  | LiveEvalBuyTokens
  | LiveEvalSellTokens
  | LiveEvalAssets
  | LiveEvalBuyInput
  | LiveEvalSellInput
  | LiveEvalSnapshots
  | LiveEvalBuyQuote 'e
  | LiveEvalSellQuote 'e
  | LiveEvalInputsChanged
  | LiveEvalConversion
  | LiveEvalAmount amount_error
  | LiveEvalInvalid live_error
  | LiveEvalNoSource

definition NewLiveEvaluator :: "('p, 'e) LiveConfig \<Rightarrow> ('e live_eval_error, ('p, 'e) LiveEvaluator) result" where
  "NewLiveEvaluator config =
     (case lc_Registry config of
        None \<Rightarrow> Inl LiveEvalIncomplete
      | Some registry \<Rightarrow>
          if set_id (lc_Setup config) = [] \<or> \<not> lc_Clock config then Inl LiveEvalIncomplete
          else check (first_error (\<lambda>mid. if lc_Sources config mid = None then Some (LiveEvalSource mid) else None) (set_markets (lc_Setup config)))
            (Inr \<lparr>le_setup = lc_Setup config, le_registry = registry, le_sources = lc_Sources config |` set (set_markets (lc_Setup config))\<rparr>))"

record liveTokens =
  lt_buyBase :: Token
  lt_buyQuote :: Token
  lt_sellBase :: Token
  lt_sellQuote :: Token

record 'p liveSnapshots =
  ls_buy :: "'p MarketSnapshot"
  ls_sell :: "'p MarketSnapshot"

definition market_tokens :: "Registry \<Rightarrow> Market \<Rightarrow> (Token \<times> Token) option" where
  "market_tokens registry m =
     (case (reg_tokens registry (mkt_BaseToken m), reg_tokens registry (mkt_QuoteToken m)) of
        (Some base, Some quote) \<Rightarrow> Some (base, quote)
      | _ \<Rightarrow> None)"

definition live_tokens :: "Registry \<Rightarrow> Direction \<Rightarrow> ('e live_eval_error, liveTokens) result" where
  "live_tokens registry direction =
     (case (reg_markets registry (dir_BuyMarket direction), reg_markets registry (dir_SellMarket direction)) of
        (Some buyMarket, Some sellMarket) \<Rightarrow>
          (case market_tokens registry buyMarket of
             None \<Rightarrow> Inl LiveEvalBuyTokens
           | Some (buyBase, buyQuote) \<Rightarrow>
               (case market_tokens registry sellMarket of
                  None \<Rightarrow> Inl LiveEvalSellTokens
                | Some (sellBase, sellQuote) \<Rightarrow>
                    Inr \<lparr>lt_buyBase = buyBase, lt_buyQuote = buyQuote, lt_sellBase = sellBase, lt_sellQuote = sellQuote\<rparr>))
      | _ \<Rightarrow> Inl LiveEvalUnknownMarket)"

definition live_assets_differ :: "liveTokens \<Rightarrow> 'p LiveEvaluationRequest \<Rightarrow> bool" where
  "live_assets_differ tokens request \<longleftrightarrow>
     qty_asset (lr_Notional request) \<noteq> tok_Asset (lt_buyQuote tokens) \<or> qty_asset (lr_Cost request) \<noteq> tok_Asset (lt_buyQuote tokens) \<or>
     qty_asset (lr_Threshold request) \<noteq> tok_Asset (lt_buyQuote tokens) \<or> vs_base (lr_Valuation request) \<noteq> tok_Asset (lt_buyBase tokens) \<or>
     vs_quote (lr_Valuation request) \<noteq> tok_Asset (lt_buyQuote tokens) \<or> qty_asset (lr_MaximumCost request) \<noteq> tok_Asset (lt_buyQuote tokens) \<or>
     qty_asset (lr_MaximumBaseExposure request) \<noteq> tok_Asset (lt_buyBase tokens) \<or>
     QtySign (lr_MaximumCost request) \<le> 0 \<or> QtySign (lr_MaximumBaseExposure request) \<le> 0"

definition positive_input :: "'err \<Rightarrow> AssetQuantity \<Rightarrow> Token \<Rightarrow> ('err, TokenAmount) result" where
  "positive_input e q token =
     (case ToTokenAmount q token of
        Inl _ \<Rightarrow> Inl e
      | Inr a \<Rightarrow> if AmountIsZero a then Inl e else Inr a)"

definition snapshot_unusable :: "'p MarketSnapshot \<Rightarrow> bool" where
  "snapshot_unusable snapshot \<longleftrightarrow> md_Market (fst snapshot) = [] \<or> md_Health (fst snapshot) \<noteq> HealthHealthy"

text \<open>A missing snapshot reads as one without a market.\<close>

definition live_snapshots :: "'p LiveEvaluationRequest \<Rightarrow> ('e live_eval_error, 'p liveSnapshots) result" where
  "live_snapshots request =
     (case (lr_Snapshots request (dir_BuyMarket (lr_Direction request)), lr_Snapshots request (dir_SellMarket (lr_Direction request))) of
        (Some buy, Some sell) \<Rightarrow>
          if snapshot_unusable buy \<or> snapshot_unusable sell then Inl LiveEvalSnapshots else Inr \<lparr>ls_buy = buy, ls_sell = sell\<rparr>
      | _ \<Rightarrow> Inl LiveEvalSnapshots)"

text \<open>A valuation comes from its constructor, so that its price is positive.\<close>

definition live_inputs ::
  "('p, 'e) LiveEvaluator \<Rightarrow> 'p LiveEvaluationRequest \<Rightarrow> ('e live_eval_error, TokenAmount \<times> TokenAmount \<times> liveTokens \<times> 'p liveSnapshots) result" where
  "live_inputs e request =
     (if lr_ID request = [] \<or> dir_BuyMarket (lr_Direction request) = [] \<or> dir_SellMarket (lr_Direction request) = [] \<or>
         dir_BuyMarket (lr_Direction request) = dir_SellMarket (lr_Direction request) \<or> IsZeroTime (lr_TriggeredAt request)
      then Inl LiveEvalIdentity
      else
        rbind (live_tokens (le_registry e) (lr_Direction request)) (\<lambda>tokens.
        if live_assets_differ tokens request then Inl LiveEvalAssets
        else
          rbind (positive_input LiveEvalBuyInput (lr_Notional request) (lt_buyQuote tokens)) (\<lambda>buyInput.
          rbind (map_err LiveEvalAmount (NewAssetQuantity (tok_Asset (lt_sellBase tokens)) (Some (qty_value (lr_Notional request) / vs_price (lr_Valuation request))))) (\<lambda>sellQuantity.
          rbind (positive_input LiveEvalSellInput sellQuantity (lt_sellBase tokens)) (\<lambda>sellInput.
          rbind (live_snapshots request) (\<lambda>snapshots.
          Inr (buyInput, sellInput, tokens, snapshots)))))))"

definition converted_output ::
  "gotime \<Rightarrow> liveTokens \<Rightarrow> QuoteConversionSnapshot option \<Rightarrow> AssetQuantity \<Rightarrow> ('e live_eval_error, AssetQuantity) result" where
  "converted_output now tokens conversion sellQuoteOutput =
     (case conversion of
        None \<Rightarrow> Inr sellQuoteOutput
      | Some c \<Rightarrow>
          if \<not> ConversionValidAt c now \<or> amt_token (qc_Input c) \<noteq> tok_ID (lt_sellQuote tokens) \<or> amt_token (qc_Output c) \<noteq> tok_ID (lt_buyQuote tokens)
          then Inl LiveEvalConversion
          else
            rbind (map_err LiveEvalAmount (ToAssetQuantity (qc_Input c) (lt_sellQuote tokens))) (\<lambda>conversionInput.
            rbind (map_err LiveEvalAmount (ToAssetQuantity (qc_Output c) (lt_buyQuote tokens))) (\<lambda>conversionOutput.
            map_err LiveEvalAmount (NewAssetQuantity (tok_Asset (lt_buyQuote tokens))
              (Some (qty_value sellQuoteOutput * (qty_value conversionOutput / qty_value conversionInput)))))))"

definition risk_block :: "int \<Rightarrow> AssetQuantity \<Rightarrow> AssetQuantity \<Rightarrow> string" where
  "risk_block comparison baseDelta maximumExposure =
     (if \<bar>qty_value baseDelta\<bar> > qty_value maximumExposure then ''base_exposure_limit''
      else if comparison > 0 then ''execution_cost_limit'' else [])"

definition LiveValue ::
  "gotime \<Rightarrow> ('p, 'e) LiveEvaluator \<Rightarrow> 'p LiveEvaluationRequest \<Rightarrow> Quote \<Rightarrow> Quote \<Rightarrow> gotime \<Rightarrow> ('e live_eval_error, LiveOpportunity) result" where
  "LiveValue now e request buy sell validatedAt =
     rbind (live_inputs e request) (\<lambda>(buyInput, sellInput, tokens, _).
     if amt_token (q_AmountIn buy) \<noteq> amt_token buyInput \<or> amt_units (q_AmountIn buy) \<noteq> amt_units buyInput \<or>
        amt_token (q_AmountIn sell) \<noteq> amt_token sellInput \<or> amt_units (q_AmountIn sell) \<noteq> amt_units sellInput
     then Inl LiveEvalInputsChanged
     else
       rbind (map_err LiveEvalAmount (ToAssetQuantity (q_AmountIn buy) (lt_buyQuote tokens))) (\<lambda>buyQuoteInput.
       rbind (map_err LiveEvalAmount (ToAssetQuantity (q_AmountOut buy) (lt_buyBase tokens))) (\<lambda>buyBaseOutput.
       rbind (map_err LiveEvalAmount (ToAssetQuantity (q_AmountIn sell) (lt_sellBase tokens))) (\<lambda>sellBaseInput.
       rbind (map_err LiveEvalAmount (ToAssetQuantity (q_AmountOut sell) (lt_sellQuote tokens))) (\<lambda>sellOutput.
       rbind (converted_output now tokens (lr_QuoteConversion request) sellOutput) (\<lambda>sellQuoteOutput.
       rbind (map_err LiveEvalAmount (QtySub sellQuoteOutput buyQuoteInput)) (\<lambda>quoteDelta.
       rbind (map_err LiveEvalAmount (QtySub buyBaseOutput sellBaseInput)) (\<lambda>baseDelta.
       rbind (map_err LiveEvalAmount (NewAssetQuantity (vs_quote (lr_Valuation request)) (Some (qty_value baseDelta * vs_price (lr_Valuation request))))) (\<lambda>markedBase.
       rbind (map_err LiveEvalAmount (QtyAdd quoteDelta markedBase)) (\<lambda>gross.
       rbind (map_err LiveEvalAmount (QtySub gross (lr_Cost request))) (\<lambda>net.
       rbind (map_err LiveEvalAmount (QtyCmp (lr_Cost request) (lr_MaximumCost request))) (\<lambda>comparison.
       let opportunity = \<lparr>lo_ID = lr_ID request, lo_Setup = set_id (le_setup e), lo_Direction = lr_Direction request, lo_Valuation = lr_Valuation request,
             lo_BuyQuote = buy, lo_SellQuote = sell, lo_QuoteDelta = quoteDelta, lo_BaseDelta = baseDelta, lo_MarkedBase = markedBase,
             lo_GrossPnL = gross, lo_Cost = lr_Cost request, lo_NetPnL = net, lo_Threshold = lr_Threshold request,
             lo_RiskBlock = risk_block comparison baseDelta (lr_MaximumBaseExposure request),
             lo_DiscoveredAt = lr_TriggeredAt request, lo_ValidatedAt = validatedAt\<rparr> in
       check (map_option LiveEvalInvalid (LiveOpportunityValidate opportunity)) (Inr opportunity)))))))))))))"

abbreviation PurposeLiveDiscovery :: string where "PurposeLiveDiscovery \<equiv> ''live_discovery''"

text \<open>A direction outside the setup has no source; the call of a nil interface is an error value.\<close>

definition leg_quote :: "('p, 'e) LiveEvaluator \<Rightarrow> ('e \<Rightarrow> 'e live_eval_error) \<Rightarrow> MarketID \<Rightarrow> 'p QuoteInput \<Rightarrow> ('e live_eval_error, Quote) result" where
  "leg_quote e wrap mid request = (case le_sources e mid of None \<Rightarrow> Inl LiveEvalNoSource | Some source \<Rightarrow> map_err wrap (source request))"

definition LiveEvaluate :: "gotime \<Rightarrow> ('p, 'e) LiveEvaluator \<Rightarrow> 'p LiveEvaluationRequest \<Rightarrow> ('e live_eval_error, LiveOpportunity) result" where
  "LiveEvaluate now e request =
     rbind (live_inputs e request) (\<lambda>(buyInput, sellInput, tokens, snapshots).
     rbind (leg_quote e LiveEvalBuyQuote (dir_BuyMarket (lr_Direction request))
         \<lparr>qi_Snapshot = ls_buy snapshots, qi_TokenIn = tok_ID (lt_buyQuote tokens), qi_TokenOut = tok_ID (lt_buyBase tokens), qi_AmountIn = buyInput,
          qi_Purpose = PurposeLiveDiscovery, qi_QuotedAt = now\<rparr>) (\<lambda>buy.
     rbind (leg_quote e LiveEvalSellQuote (dir_SellMarket (lr_Direction request))
         \<lparr>qi_Snapshot = ls_sell snapshots, qi_TokenIn = tok_ID (lt_sellBase tokens), qi_TokenOut = tok_ID (lt_sellQuote tokens), qi_AmountIn = sellInput,
          qi_Purpose = PurposeLiveDiscovery, qi_QuotedAt = now\<rparr>) (\<lambda>sell.
     LiveValue now e request buy sell 0)))"

section \<open>The prefunded strategy\<close>

record ('p, 'e) PrefundedParallelConfig =
  pp_ID :: StrategyID
  pp_Setup :: ArbitrageSetup
  pp_Registry :: "Registry option"
  pp_Sources :: "MarketID \<rightharpoonup> ('p, 'e) quote_source"
  pp_Notional :: AssetQuantity
  pp_Notionals :: "AssetQuantity list"
  pp_Threshold :: AssetQuantity
  pp_DirectionalThresholds :: "(Direction \<times> AssetQuantity) list"
  pp_ThresholdFixed :: AssetQuantity
  pp_ThresholdBPS :: "16 word"
  pp_ValuationMarket :: MarketID
  pp_Clock :: bool
  pp_RequireQuoteConversion :: bool
  pp_CandidateEligible :: "(Direction \<Rightarrow> Candidate \<Rightarrow> bool) option"
  pp_CandidateCost :: "(Direction \<Rightarrow> AssetQuantity \<Rightarrow> gotime \<Rightarrow> CostSnapshot option) option"

record ('p, 'e) PrefundedParallel =
  pr_id :: StrategyID
  pr_setup :: ArbitrageSetup
  pr_registry :: Registry
  pr_sources :: "MarketID \<rightharpoonup> ('p, 'e) quote_source"
  pr_notionals :: "AssetQuantity list"
  pr_legacyThreshold :: AssetQuantity
  pr_directionalThresholds :: "(Direction \<times> AssetQuantity) list"
  pr_thresholdFixed :: AssetQuantity
  pr_thresholdBPS :: "16 word"
  pr_valuationMarket :: MarketID
  pr_live :: "('p, 'e) LiveEvaluator"
  pr_requireQuoteConversion :: bool
  pr_candidateEligible :: "(Direction \<Rightarrow> Candidate \<Rightarrow> bool) option"
  pr_candidateCost :: "(Direction \<Rightarrow> AssetQuantity \<Rightarrow> gotime \<Rightarrow> CostSnapshot option) option"

datatype 'e prefunded_error =
    PrefundedIncomplete
  | PrefundedNotional
  | PrefundedOrder
  | PrefundedPercentage
  | PrefundedDirectional
  | PrefundedValuation valuation_error
  | PrefundedLive "'e live_eval_error"
  | PrefundedSource
  | PrefundedOther StrategyID
  | PrefundedSize
  | PrefundedContext
  | PrefundedNoValuation
  | PrefundedAmount amount_error

definition quantityGreater :: "AssetQuantity \<Rightarrow> AssetQuantity \<Rightarrow> bool" where
  "quantityGreater left right = (case QtyCmp left right of Inl _ \<Rightarrow> False | Inr comparison \<Rightarrow> comparison > 0)"

definition notional_invalid :: "AssetID \<Rightarrow> AssetQuantity list \<Rightarrow> nat \<Rightarrow> bool" where
  "notional_invalid asset notionals index \<longleftrightarrow>
     qty_asset (notionals ! index) \<noteq> asset \<or> QtySign (notionals ! index) \<le> 0 \<or>
     (index > 0 \<and> \<not> quantityGreater (notionals ! index) (notionals ! (index - 1)))"

definition prefunded_notionals :: "('p, 'e) PrefundedParallelConfig \<Rightarrow> AssetQuantity list" where
  "prefunded_notionals config = (if pp_Notionals config = [] \<and> QtySign (pp_Notional config) > 0 then [pp_Notional config] else pp_Notionals config)"

definition prefunded_config_error :: "AssetID \<Rightarrow> ('p, 'e) PrefundedParallelConfig \<Rightarrow> 'e prefunded_error option" where
  "prefunded_config_error quote config =
     (let notionals = prefunded_notionals config in
      if notionals = [] \<or> qty_asset (pp_Threshold config) \<noteq> quote \<or> QtySign (pp_Threshold config) < 0 then Some PrefundedNotional
      else if list_ex (notional_invalid quote notionals) [0..<length notionals] then Some PrefundedOrder
      else if pp_ThresholdBPS config > 10000 \<or>
        (pp_ThresholdBPS config > 0 \<and> (qty_asset (pp_ThresholdFixed config) \<noteq> quote \<or> QtySign (pp_ThresholdFixed config) \<le> 0))
      then Some PrefundedPercentage
      else if list_ex (\<lambda>(direction, threshold). dir_BuyMarket direction = dir_SellMarket direction \<or> qty_asset threshold \<noteq> quote \<or>
        QtySign threshold < 0) (pp_DirectionalThresholds config)
      then Some PrefundedDirectional
      else None)"

definition NewPrefundedParallel ::
  "('p, 'e) PrefundedParallelConfig \<Rightarrow> ('e prefunded_error, ('p, 'e) PrefundedParallel \<times> BaseValuationCache) result" where
  "NewPrefundedParallel config =
     (case pp_Registry config of
        None \<Rightarrow> Inl PrefundedIncomplete
      | Some registry \<Rightarrow>
          if pp_ID config = [] \<or> \<not> pp_Clock config \<or> length (set_markets (pp_Setup config)) \<noteq> 2 \<or> pp_ValuationMarket config = []
          then Inl PrefundedIncomplete
          else
            (case reg_pairs registry (set_pair (pp_Setup config)) of
               None \<Rightarrow> Inl PrefundedNotional
             | Some pair \<Rightarrow>
                 check (prefunded_config_error (pair_QuoteAsset pair) config)
                 (rbind (map_err PrefundedValuation (NewBaseValuationCache (pair_BaseAsset pair) (pair_QuoteAsset pair))) (\<lambda>cache.
                  rbind (map_err PrefundedLive (NewLiveEvaluator \<lparr>lc_Setup = pp_Setup config, lc_Registry = Some registry, lc_Sources = pp_Sources config,
                    lc_Clock = pp_Clock config\<rparr>)) (\<lambda>live.
                  if pp_Sources config (pp_ValuationMarket config) = None then Inl PrefundedSource
                  else Inr (\<lparr>pr_id = pp_ID config, pr_setup = pp_Setup config, pr_registry = registry, pr_sources = pp_Sources config,
                    pr_notionals = prefunded_notionals config, pr_legacyThreshold = pp_Threshold config, pr_directionalThresholds = pp_DirectionalThresholds config,
                    pr_thresholdFixed = pp_ThresholdFixed config, pr_thresholdBPS = pp_ThresholdBPS config,
                    pr_valuationMarket = pp_ValuationMarket config, pr_live = live, pr_requireQuoteConversion = pp_RequireQuoteConversion config,
                    pr_candidateEligible = pp_CandidateEligible config, pr_candidateCost = pp_CandidateCost config\<rparr>, cache))))))"

definition prefunded_threshold ::
  "('p, 'e) PrefundedParallel \<Rightarrow> Direction \<Rightarrow> AssetQuantity \<Rightarrow> (amount_error, AssetQuantity \<times> AssetQuantity \<times> AssetQuantity) result" where
  "prefunded_threshold s direction input =
     (let zero = value_or zero_qty (NewAssetQuantity (qty_asset input) (Some 0)) in
      case map_of (pr_directionalThresholds s) direction of
        Some threshold \<Rightarrow> Inr (threshold, zero, threshold)
      | None \<Rightarrow>
          if pr_thresholdBPS s = 0 then Inr (pr_legacyThreshold s, zero, pr_legacyThreshold s)
          else rbind (NewAssetQuantity (qty_asset input) (Some (qty_value input * of_int (uint (pr_thresholdBPS s)) / 10000))) (\<lambda>percentage.
            Inr (pr_thresholdFixed s, percentage,
                 if quantityGreater percentage (pr_thresholdFixed s) then percentage else pr_thresholdFixed s)))"

definition prefunded_conversion ::
  "('p, 'e) PrefundedParallel \<Rightarrow> 'p Evaluation \<Rightarrow> Direction \<Rightarrow> (unit, QuoteConversionSnapshot option) result" where
  "prefunded_conversion s evaluation direction =
     (case (reg_markets (pr_registry s) (dir_BuyMarket direction), reg_markets (pr_registry s) (dir_SellMarket direction)) of
        (Some buy, Some sell) \<Rightarrow>
          if mkt_QuoteToken buy = mkt_QuoteToken sell \<or> \<not> pr_requireQuoteConversion s then Inr None
          else (case QuoteConversion evaluation (mkt_QuoteToken sell) (mkt_QuoteToken buy) of
             Some snapshot \<Rightarrow> if ConversionValidAt snapshot (ev_startedAt evaluation) then Inr (Some snapshot) else Inl ()
           | None \<Rightarrow> Inl ())
      | _ \<Rightarrow> Inl ())"

section \<open>One direction and size\<close>

definition prefunded_opportunity :: "('p, 'e) PrefundedParallel \<Rightarrow> 'p Evaluation \<Rightarrow> Direction \<Rightarrow> gotime \<Rightarrow> Opportunity" where
  "prefunded_opportunity s evaluation direction finishedAt =
     \<lparr>op_Evaluation = ev_id evaluation, op_Run = ev_run evaluation, op_ConfigHash = ev_configHash evaluation, op_Strategy = pr_id s,
      op_Direction = direction, op_Classification = ClassificationUnclassifiable,
      op_Snapshots = map fst (List.map_filter (EvaluationSnapshot evaluation) (set_markets (pr_setup s))), op_Candidates = [],
      op_SelectedIndex = -1, op_Threshold = zero_qty, op_Reasons = [],
      op_Trigger = (case ev_trigger evaluation of None \<Rightarrow> no_trigger | Some trigger \<Rightarrow> trigger), op_HasTrigger = (ev_trigger evaluation \<noteq> None),
      op_TriggeredAt = ev_triggeredAt evaluation, op_StartedAt = ev_startedAt evaluation, op_FinishedAt = finishedAt\<rparr>"

definition huge_cost :: "AssetID \<Rightarrow> AssetQuantity" where
  "huge_cost asset = value_or zero_qty (NewAssetQuantity asset (Some (10 ^ 30)))"

definition huge_base :: "ValuationSnapshot \<Rightarrow> AssetQuantity \<Rightarrow> AssetQuantity" where
  "huge_base valuation cost = value_or zero_qty (NewAssetQuantity (vs_base valuation) (Some (qty_value cost)))"

definition prefunded_cost :: "('p, 'e) PrefundedParallel \<Rightarrow> 'p Evaluation \<Rightarrow> Direction \<Rightarrow> AssetQuantity \<Rightarrow> CostSnapshot option" where
  "prefunded_cost s evaluation direction notional =
     (case pr_candidateCost s of
        None \<Rightarrow> Some (CostFor evaluation direction)
      | Some costs \<Rightarrow> costs direction notional (ev_startedAt evaluation))"

definition prefundedQuoteFailure :: "('e live_eval_error \<Rightarrow> bool) \<Rightarrow> 'e live_eval_error \<Rightarrow> string" where
  "prefundedQuoteFailure rateLimited e = (if rateLimited e then ''remote_rate_limited'' else ''provider_or_quote_unavailable'')"

definition prefunded_candidate ::
  "AssetQuantity \<Rightarrow> CostSnapshot \<Rightarrow> AssetQuantity \<times> AssetQuantity \<times> AssetQuantity \<Rightarrow> ValuationSnapshot \<Rightarrow> QuoteConversionSnapshot option \<Rightarrow> LiveOpportunity \<Rightarrow> Candidate" where
  "prefunded_candidate notional cost t valuation conversion live =
     \<lparr>cd_Size = notional, cd_Input = notional, cd_Output = value_or zero_qty (QtyAdd notional (lo_GrossPnL live)), cd_GrossPnL = lo_GrossPnL live,
      cd_Cost = cost, cd_NetPnL = lo_NetPnL live, cd_FixedThreshold = fst t, cd_PercentageThreshold = fst (snd t),
      cd_EffectiveThreshold = snd (snd t), cd_BuyQuote = lo_BuyQuote live, cd_SellQuote = lo_SellQuote live, cd_Valuation = Some valuation,
      cd_QuoteConversion = conversion\<rparr>"

definition prefunded_direction ::
  "('e live_eval_error \<Rightarrow> bool) \<Rightarrow> gotime \<Rightarrow> ('p, 'e) PrefundedParallel \<Rightarrow> 'p Evaluation \<Rightarrow> ValuationSnapshot \<Rightarrow> Direction \<Rightarrow> AssetQuantity \<Rightarrow> Opportunity" where
  "prefunded_direction rateLimited now s evaluation valuation direction notional =
     (let opportunity = prefunded_opportunity s evaluation direction now in
      case prefunded_cost s evaluation direction notional of
        None \<Rightarrow> opportunity\<lparr>op_Reasons := [''cost_cache_stale'']\<rparr>
      | Some cost \<Rightarrow>
          (case prefunded_threshold s direction notional of
             Inl _ \<Rightarrow> opportunity\<lparr>op_Reasons := [''threshold_invalid'']\<rparr>
           | Inr t \<Rightarrow>
               (case prefunded_conversion s evaluation direction of
                  Inl _ \<Rightarrow> opportunity\<lparr>op_Reasons := [''quote_conversion_unavailable'']\<rparr>
                | Inr conversion \<Rightarrow>
                    (case LiveEvaluate now (pr_live s)
                       \<lparr>lr_ID = ev_id evaluation @ ''/'' @ dir_BuyMarket direction, lr_Direction = direction,
                        lr_Snapshots = (\<lambda>mid. if mid \<in> set (set_markets (pr_setup s)) then EvaluationSnapshot evaluation mid else None),
                        lr_Notional = notional, lr_Valuation = valuation, lr_Cost = cs_Amount cost, lr_Threshold = snd (snd t),
                        lr_MaximumCost = huge_cost (qty_asset (cs_Amount cost)),
                        lr_MaximumBaseExposure = huge_base valuation (huge_cost (qty_asset (cs_Amount cost))),
                        lr_TriggeredAt = ev_triggeredAt evaluation, lr_QuoteConversion = conversion\<rparr> of
                       Inl e \<Rightarrow> opportunity\<lparr>op_Reasons := [prefundedQuoteFailure rateLimited e]\<rparr>
                     | Inr live \<Rightarrow>
                         let candidate = prefunded_candidate notional cost t valuation conversion live in
                         opportunity\<lparr>op_Candidates := [candidate], op_SelectedIndex := 0, op_Threshold := snd (snd t),
                           op_Classification := fst (classify_candidate candidate), op_Reasons := snd (classify_candidate candidate)\<rparr>))))"

section \<open>All sizes of a direction\<close>

record size_scan =
  ss_combined :: Opportunity
  ss_capacityRejected :: bool
  ss_bestQualified :: int

definition zero_opportunity :: Opportunity where
  "zero_opportunity = \<lparr>op_Evaluation = [], op_Run = [], op_ConfigHash = [], op_Strategy = [], op_Direction = no_direction, op_Classification = [],
     op_Snapshots = [], op_Candidates = [], op_SelectedIndex = -1, op_Threshold = zero_qty, op_Reasons = [], op_Trigger = no_trigger,
     op_HasTrigger = False, op_TriggeredAt = 0, op_StartedAt = 0, op_FinishedAt = 0\<rparr>"

definition eligible :: "('p, 'e) PrefundedParallel \<Rightarrow> Direction \<Rightarrow> Candidate \<Rightarrow> bool" where
  "eligible s direction candidate = (case pr_candidateEligible s of None \<Rightarrow> True | Some f \<Rightarrow> f direction candidate)"

definition combine_candidate :: "('p, 'e) PrefundedParallel \<Rightarrow> Direction \<Rightarrow> Candidate \<Rightarrow> Opportunity \<Rightarrow> size_scan \<Rightarrow> size_scan" where
  "combine_candidate s direction candidate combined g =
     (let index = int (length (op_Candidates combined)); candidates = op_Candidates combined @ [candidate];
          extended = combined\<lparr>op_Candidates := candidates\<rparr> in
      if \<not> eligible s direction candidate then g\<lparr>ss_combined := extended, ss_capacityRejected := True\<rparr>
      else
        g\<lparr>ss_combined := extended\<lparr>op_SelectedIndex :=
             (if better_at candidates (op_SelectedIndex combined) candidate then index else op_SelectedIndex combined)\<rparr>,
          ss_bestQualified :=
             (if greaterOrEqual (cd_NetPnL candidate) (cd_EffectiveThreshold candidate) \<and> QtySign (cd_NetPnL candidate) > 0 \<and>
                 better_at candidates (ss_bestQualified g) candidate then index else ss_bestQualified g)\<rparr>)"

definition combine_size :: "('p, 'e) PrefundedParallel \<Rightarrow> Direction \<Rightarrow> Opportunity \<Rightarrow> size_scan \<Rightarrow> size_scan" where
  "combine_size s direction opportunity g =
     (let combined = (if op_Evaluation (ss_combined g) = [] then opportunity\<lparr>op_Candidates := [], op_SelectedIndex := -1\<rparr> else ss_combined g) in
      case op_Candidates opportunity of
        [] \<Rightarrow> g\<lparr>ss_combined := (if op_Reasons combined = [] then combined\<lparr>op_Reasons := op_Reasons opportunity\<rparr> else combined)\<rparr>
      | candidate # _ \<Rightarrow> combine_candidate s direction candidate combined g)"

definition finish_sizes :: "gotime \<Rightarrow> size_scan \<Rightarrow> Opportunity" where
  "finish_sizes now g =
     (let combined = (ss_combined g)\<lparr>op_FinishedAt := now\<rparr> in
      if op_SelectedIndex combined < 0 then
        combined\<lparr>op_Classification := ClassificationUnclassifiable,
          op_Reasons := (if ss_capacityRejected g then [''insufficient_local_balance''] else op_Reasons combined)\<rparr>
      else
        let index = (if ss_bestQualified g \<ge> 0 then ss_bestQualified g else op_SelectedIndex combined);
            chosen = op_Candidates combined ! nat index in
        combined\<lparr>op_SelectedIndex := index, op_Threshold := cd_EffectiveThreshold chosen,
          op_Classification := fst (classify_candidate chosen), op_Reasons := snd (classify_candidate chosen)\<rparr>)"

definition evaluateDirectionSizes ::
  "('e live_eval_error \<Rightarrow> bool) \<Rightarrow> gotime \<Rightarrow> ('p, 'e) PrefundedParallel \<Rightarrow> 'p Evaluation \<Rightarrow> ValuationSnapshot \<Rightarrow> Direction \<Rightarrow> Opportunity" where
  "evaluateDirectionSizes rateLimited now s evaluation valuation direction =
     finish_sizes now (fold (combine_size s direction)
       (map (prefunded_direction rateLimited now s evaluation valuation direction) (pr_notionals s))
       \<lparr>ss_combined = zero_opportunity, ss_capacityRejected = False, ss_bestQualified = -1\<rparr>)"

section \<open>Valuations and evaluations\<close>

definition warm_valuation ::
  "gotime \<Rightarrow> ('p, 'e) PrefundedParallel \<Rightarrow> 'p Evaluation \<Rightarrow> BaseValuationCache \<Rightarrow> ValuationSnapshot option \<times> BaseValuationCache" where
  "warm_valuation now s evaluation cache =
     (case (reg_markets (pr_registry s) (pr_valuationMarket s), EvaluationSnapshot evaluation (pr_valuationMarket s)) of
        (Some configured, Some snapshot) \<Rightarrow>
          let base = token_of (pr_registry s) (mkt_BaseToken configured); quoteToken = token_of (pr_registry s) (mkt_QuoteToken configured) in
          if md_Health (fst snapshot) \<noteq> HealthHealthy then (None, cache)
          else (case ToTokenAmount (last (pr_notionals s)) quoteToken of
             Inl _ \<Rightarrow> (None, cache)
           | Inr input \<Rightarrow>
               (case pr_sources s (pr_valuationMarket s) of
                  None \<Rightarrow> (None, cache)
                | Some source \<Rightarrow>
                    (case source \<lparr>qi_Snapshot = snapshot, qi_TokenIn = tok_ID quoteToken, qi_TokenOut = tok_ID base, qi_AmountIn = input,
                       qi_Purpose = PurposeDiscovery, qi_QuotedAt = now\<rparr> of
                       Inl _ \<Rightarrow> (None, cache)
                     | Inr quoted \<Rightarrow>
                         (case ObserveValuation (pr_valuationMarket s) quoted quoteToken base now cache of
                            (Some _, cache') \<Rightarrow> (None, cache')
                          | (None, cache') \<Rightarrow>
                              (case ValuationSnapshotOf now cache' of Inl _ \<Rightarrow> (None, cache') | Inr v \<Rightarrow> (Some v, cache'))))))
      | _ \<Rightarrow> (None, cache))"

definition prefunded_valuation ::
  "gotime \<Rightarrow> ('p, 'e) PrefundedParallel \<Rightarrow> 'p Evaluation \<Rightarrow> BaseValuationCache \<Rightarrow> ValuationSnapshot option \<times> BaseValuationCache" where
  "prefunded_valuation now s evaluation cache =
     (case ValuationSnapshotOf now cache of Inr v \<Rightarrow> (Some v, cache) | Inl _ \<Rightarrow> warm_valuation now s evaluation cache)"

definition observe_opportunity :: "(Direction \<Rightarrow> gotime) \<Rightarrow> ('p, 'e) PrefundedParallel \<Rightarrow> Opportunity \<Rightarrow> BaseValuationCache \<Rightarrow> BaseValuationCache" where
  "observe_opportunity clock s opportunity cache =
     (if op_SelectedIndex opportunity < 0 \<or> op_SelectedIndex opportunity \<ge> int (length (op_Candidates opportunity)) then cache
      else case reg_markets (pr_registry s) (dir_BuyMarket (op_Direction opportunity)) of
        None \<Rightarrow> cache
      | Some configured \<Rightarrow>
          (case market_tokens (pr_registry s) configured of
             None \<Rightarrow> cache
           | Some (base, quoteToken) \<Rightarrow>
               snd (ObserveValuation (dir_BuyMarket (op_Direction opportunity))
                 (cd_BuyQuote (op_Candidates opportunity ! nat (op_SelectedIndex opportunity))) quoteToken base (clock (op_Direction opportunity)) cache)))"

definition selected_net :: "Opportunity \<Rightarrow> AssetQuantity" where
  "selected_net op = cd_NetPnL (op_Candidates op ! nat (op_SelectedIndex op))"

definition better_result :: "Opportunity list \<Rightarrow> nat \<Rightarrow> int \<Rightarrow> int" where
  "better_result results i best =
     (if op_SelectedIndex (results ! i) < 0 then best
      else if best < 0 \<or> quantityGreater (selected_net (results ! i)) (selected_net (results ! nat best)) then int i
      else best)"

definition drop_result :: "int \<Rightarrow> nat \<times> Opportunity \<Rightarrow> Opportunity" where
  "drop_result best = (\<lambda>(i, op).
     if int i \<noteq> best \<and> op_SelectedIndex op \<ge> 0
     then op\<lparr>op_SelectedIndex := -1, op_Classification := ClassificationNoSpread, op_Reasons := [''lower_prefunded_net_pnl'']\<rparr>
     else op)"

definition best_direction_only :: "Opportunity list \<Rightarrow> Opportunity list" where
  "best_direction_only results =
     (let best = fold (better_result results) [0..<length results] (-1) in
      map (drop_result best) (zip [0..<length results] results))"

definition prefunded_unclassifiable :: "(Direction \<Rightarrow> gotime) \<Rightarrow> ('p, 'e) PrefundedParallel \<Rightarrow> 'p Evaluation \<Rightarrow> string \<Rightarrow> Opportunity list" where
  "prefunded_unclassifiable clock s evaluation reason =
     map (\<lambda>direction. zero_opportunity\<lparr>op_Evaluation := ev_id evaluation, op_Run := ev_run evaluation, op_ConfigHash := ev_configHash evaluation,
       op_Strategy := pr_id s, op_Direction := direction, op_Classification := ClassificationUnclassifiable, op_Reasons := [reason],
       op_TriggeredAt := ev_triggeredAt evaluation, op_StartedAt := ev_startedAt evaluation, op_FinishedAt := clock direction\<rparr>)
       (set_directions (pr_setup s))"

definition PrefundedEvaluate ::
  "('e live_eval_error \<Rightarrow> bool) \<Rightarrow> bool \<Rightarrow> gotime \<Rightarrow> (Direction \<Rightarrow> gotime) \<Rightarrow> ('p, 'e) PrefundedParallel \<Rightarrow> 'p Evaluation \<Rightarrow> BaseValuationCache \<Rightarrow>
   ('e prefunded_error, Opportunity list) result \<times> BaseValuationCache" where
  "PrefundedEvaluate rateLimited ctxErr now clock s evaluation cache =
     (if ev_strategy evaluation \<noteq> pr_id s then (Inl (PrefundedOther (ev_strategy evaluation)), cache)
      else
        (case prefunded_valuation now s evaluation cache of
           (None, cache') \<Rightarrow> (Inr (prefunded_unclassifiable clock s evaluation ''valuation_unavailable''), cache')
         | (Some valuation, cache') \<Rightarrow>
             if ctxErr then (Inl PrefundedContext, cache')
             else
               let results = map (\<lambda>direction. evaluateDirectionSizes rateLimited (clock direction) s evaluation valuation direction)
                     (set_directions (pr_setup s)) in
               (Inr (best_direction_only results), fold (observe_opportunity clock s) results cache')))"

definition PrefundedEvaluatePinned ::
  "('e live_eval_error \<Rightarrow> bool) \<Rightarrow> gotime \<Rightarrow> (Direction \<Rightarrow> gotime) \<Rightarrow> ('p, 'e) PrefundedParallel \<Rightarrow> 'p Evaluation \<Rightarrow> Direction \<Rightarrow> AssetQuantity \<Rightarrow>
   BaseValuationCache \<Rightarrow> ('e prefunded_error, Opportunity) result \<times> BaseValuationCache" where
  "PrefundedEvaluatePinned rateLimited now clock s evaluation direction sizeQty cache =
     (if qty_asset sizeQty \<noteq> qty_asset (hd (pr_notionals s)) \<or> QtySign sizeQty \<le> 0 then (Inl PrefundedSize, cache)
      else
        (case prefunded_valuation now s evaluation cache of
           (None, cache') \<Rightarrow> (Inr (hd (prefunded_unclassifiable clock s evaluation ''valuation_unavailable'')), cache')
         | (Some valuation, cache') \<Rightarrow>
             let opportunity = prefunded_direction rateLimited (clock direction) s evaluation valuation direction sizeQty in
             (Inr opportunity, observe_opportunity clock s opportunity cache')))"

definition RevalueCandidate ::
  "gotime \<Rightarrow> ('p, 'e) PrefundedParallel \<Rightarrow> Direction \<Rightarrow> Candidate \<Rightarrow> Quote \<Rightarrow> Quote \<Rightarrow> (MarketID \<rightharpoonup> 'p MarketSnapshot) \<Rightarrow> gotime \<Rightarrow>
   ('e prefunded_error, Candidate) result" where
  "RevalueCandidate now s direction candidate buy sell snapshots when =
     (case cd_Valuation candidate of
        None \<Rightarrow> Inl PrefundedNoValuation
      | Some valuation \<Rightarrow>
          let hugeCost = huge_cost (qty_asset (cs_Amount (cd_Cost candidate))) in
          rbind (map_err PrefundedLive (LiveValue now (pr_live s)
            \<lparr>lr_ID = ''research-validation'', lr_Direction = direction, lr_Snapshots = snapshots, lr_Notional = cd_Input candidate,
             lr_Valuation = valuation, lr_Cost = cs_Amount (cd_Cost candidate), lr_Threshold = cd_EffectiveThreshold candidate,
             lr_MaximumCost = hugeCost, lr_MaximumBaseExposure = huge_base valuation hugeCost, lr_TriggeredAt = when,
             lr_QuoteConversion = cd_QuoteConversion candidate\<rparr> buy sell when)) (\<lambda>valued.
          rbind (map_err PrefundedAmount (QtyAdd (cd_Input candidate) (lo_GrossPnL valued))) (\<lambda>out.
          Inr (candidate\<lparr>cd_BuyQuote := buy, cd_SellQuote := sell, cd_Output := out, cd_GrossPnL := lo_GrossPnL valued, cd_NetPnL := lo_NetPnL valued\<rparr>))))"

section \<open>What a live valuation accounts for\<close>

text \<open>The economic value of an amount.\<close>

definition amount_value :: "TokenAmount \<Rightarrow> Token \<Rightarrow> rat" where
  "amount_value a t = of_int (amt_units a) / of_int (decimalFactor (tok_Decimals t))"

lemma ToAssetQuantity_value: "ToAssetQuantity a t = Inr q \<Longrightarrow> qty_asset q = tok_Asset t \<and> qty_value q = amount_value a t"
  by (simp add: ToAssetQuantity_Inr amount_value_def)

lemma positive_input_Inr:
  "positive_input e q token = Inr a \<longleftrightarrow> ToTokenAmount q token = Inr a \<and> amt_units a \<noteq> 0"
  by (auto simp: positive_input_def AmountIsZero_def split: sum.splits)

lemma live_inputs_Inr:
  fixes e :: "('p, 'e) LiveEvaluator"
  assumes "live_inputs e request = Inr (buyInput, sellInput, tokens, snapshots)"
  shows "live_tokens (le_registry e) (lr_Direction request) = (Inr tokens :: ('e live_eval_error, liveTokens) result)"
    and "\<not> live_assets_differ tokens request"
    and "ToTokenAmount (lr_Notional request) (lt_buyQuote tokens) = Inr buyInput"
    and "ToTokenAmount \<lparr>qty_asset = tok_Asset (lt_sellBase tokens), qty_value = qty_value (lr_Notional request) / vs_price (lr_Valuation request)\<rparr>
      (lt_sellBase tokens) = Inr sellInput"
    and "amt_units buyInput \<noteq> 0" and "amt_units sellInput \<noteq> 0"
  using assms by (auto simp: live_inputs_def result_simps positive_input_Inr NewAssetQuantity_def split: if_splits)

text \<open>The factor that a conversion applies to the proceeds of the sale.\<close>

definition conversion_rate :: "liveTokens \<Rightarrow> QuoteConversionSnapshot option \<Rightarrow> rat" where
  "conversion_rate tokens conversion =
     (case conversion of None \<Rightarrow> 1 | Some c \<Rightarrow> amount_value (qc_Output c) (lt_buyQuote tokens) / amount_value (qc_Input c) (lt_sellQuote tokens))"

lemma converted_output_Inr:
  assumes "converted_output now tokens conversion sold = Inr q"
  shows "qty_value q = qty_value sold * conversion_rate tokens conversion"
  using assms by (auto simp: converted_output_def conversion_rate_def result_simps NewAssetQuantity_def dest!: ToAssetQuantity_value split: option.splits if_splits)

definition live_accounts :: "liveTokens \<Rightarrow> 'p LiveEvaluationRequest \<Rightarrow> LiveOpportunity \<Rightarrow> bool" where
  "live_accounts tokens request op \<longleftrightarrow>
     (let bought = amount_value (q_AmountOut (lo_BuyQuote op)) (lt_buyBase tokens); paid = amount_value (q_AmountIn (lo_BuyQuote op)) (lt_buyQuote tokens);
          given = amount_value (q_AmountIn (lo_SellQuote op)) (lt_sellBase tokens); received = amount_value (q_AmountOut (lo_SellQuote op)) (lt_sellQuote tokens) in
      lo_BaseDelta op = \<lparr>qty_asset = tok_Asset (lt_buyBase tokens), qty_value = bought - given\<rparr> \<and>
      lo_GrossPnL op = \<lparr>qty_asset = tok_Asset (lt_buyQuote tokens),
        qty_value = received * conversion_rate tokens (lr_QuoteConversion request) - paid + (bought - given) * vs_price (lr_Valuation request)\<rparr> \<and>
      lo_NetPnL op = \<lparr>qty_asset = tok_Asset (lt_buyQuote tokens), qty_value = qty_value (lo_GrossPnL op) - qty_value (lr_Cost request)\<rparr>)"

lemma LiveValue_Inr:
  fixes e :: "('p, 'e) LiveEvaluator"
  assumes "LiveValue now e request buy sell validatedAt = Inr op"
  obtains buyInput sellInput tokens snapshots where "live_inputs e request = Inr (buyInput, sellInput, tokens, snapshots)"
    "q_AmountIn buy = buyInput" "q_AmountIn sell = sellInput" "lo_BuyQuote op = buy" "lo_SellQuote op = sell" "live_accounts tokens request op"
    "LiveOpportunityValidate op = None" "lo_Cost op = lr_Cost request" "lo_Threshold op = lr_Threshold request"
    "lo_RiskBlock op = [] \<Longrightarrow> qty_value (lr_Cost request) \<le> qty_value (lr_MaximumCost request) \<and> \<bar>qty_value (lo_BaseDelta op)\<bar> \<le> qty_value (lr_MaximumBaseExposure request)"
proof -
  obtain bi si tokens snapshots where inputs: "live_inputs e request = Inr (bi, si, tokens, snapshots)"
    using assms by (cases "live_inputs e request") (auto simp: LiveValue_def)
  have fixed: "q_AmountIn buy = bi \<and> q_AmountIn sell = si" using assms by (auto simp: LiveValue_def inputs split: if_splits)
  obtain paid bought given sold received quoteDelta baseDelta marked gross net cmp
    where amounts: "ToAssetQuantity bi (lt_buyQuote tokens) = Inr paid" "ToAssetQuantity (q_AmountOut buy) (lt_buyBase tokens) = Inr bought"
        "ToAssetQuantity si (lt_sellBase tokens) = Inr given" "ToAssetQuantity (q_AmountOut sell) (lt_sellQuote tokens) = Inr sold"
        "converted_output now tokens (lr_QuoteConversion request) sold = (Inr received :: ('e live_eval_error, AssetQuantity) result)"
      and deltas: "QtySub received paid = Inr quoteDelta" "QtySub bought given = Inr baseDelta"
        "NewAssetQuantity (vs_quote (lr_Valuation request)) (Some (qty_value baseDelta * vs_price (lr_Valuation request))) = Inr marked"
        "QtyAdd quoteDelta marked = Inr gross" "QtySub gross (lr_Cost request) = Inr net" "QtyCmp (lr_Cost request) (lr_MaximumCost request) = Inr cmp"
      and valid: "LiveOpportunityValidate op = None"
      and op: "\<lparr>lo_ID = lr_ID request, lo_Setup = set_id (le_setup e), lo_Direction = lr_Direction request, lo_Valuation = lr_Valuation request,
             lo_BuyQuote = buy, lo_SellQuote = sell, lo_QuoteDelta = quoteDelta, lo_BaseDelta = baseDelta, lo_MarkedBase = marked,
             lo_GrossPnL = gross, lo_Cost = lr_Cost request, lo_NetPnL = net, lo_Threshold = lr_Threshold request,
             lo_RiskBlock = risk_block cmp baseDelta (lr_MaximumBaseExposure request),
             lo_DiscoveredAt = lr_TriggeredAt request, lo_ValidatedAt = validatedAt\<rparr> = op"
  proof -
    from assms show ?thesis unfolding LiveValue_def by (simp add: inputs fixed result_simps Let_def) (elim exE conjE, rule that, simp_all)
  qed
  note vals = amounts(1-4) [THEN ToAssetQuantity_value] converted_output_Inr [OF amounts(5)]
  note assets = live_inputs_Inr(2) [OF inputs]
  have accounts: "live_accounts tokens request op"
    using vals deltas assets fixed unfolding op [symmetric]
    by (auto simp: live_accounts_def Let_def QtySub_Inr QtyAdd_Inr NewAssetQuantity_def live_assets_differ_def split: if_splits)
  have risk: "qty_value (lr_Cost request) \<le> qty_value (lr_MaximumCost request) \<and> \<bar>qty_value (lo_BaseDelta op)\<bar> \<le> qty_value (lr_MaximumBaseExposure request)"
    if "lo_RiskBlock op = []"
    using that deltas(6) unfolding op [symmetric] by (auto simp: risk_block_def QtyCmp_Inr split: if_splits)
  show thesis by (rule that [OF inputs _ _ _ _ accounts valid _ _ risk]) (use fixed op [symmetric] in simp_all)
qed

section \<open>The decision of a prefunded direction\<close>

lemma LiveEvaluate_sound:
  assumes "LiveEvaluate now e request = Inr op"
  shows "qty_asset (lo_NetPnL op) = qty_asset (lr_Threshold request)"
    and "qty_value (lo_GrossPnL op) = qty_value (lo_NetPnL op) + qty_value (lr_Cost request)" and "0 \<le> qty_value (lr_Cost request)"
proof -
  obtain buy sell where "LiveValue now e request buy sell 0 = Inr op" using assms by (auto simp: LiveEvaluate_def rbind_eq_Inr)
  then show "qty_asset (lo_NetPnL op) = qty_asset (lr_Threshold request)"
    "qty_value (lo_GrossPnL op) = qty_value (lo_NetPnL op) + qty_value (lr_Cost request)" "0 \<le> qty_value (lr_Cost request)"
  proof (atomize (full), elim LiveValue_Inr)
    fix buyInput sellInput tokens snapshots
    assume inputs: "live_inputs e request = Inr (buyInput, sellInput, tokens, snapshots)" and accounts: "live_accounts tokens request op"
      and valid: "LiveOpportunityValidate op = None" and cost: "lo_Cost op = lr_Cost request"
    have "qty_asset (lr_Threshold request) = tok_Asset (lt_buyQuote tokens)" using live_inputs_Inr(2) [OF inputs] by (simp add: live_assets_differ_def)
    moreover have "0 \<le> qty_value (lo_Cost op)" using valid by (auto simp: LiveOpportunityValidate_def split: if_splits)
    ultimately show "qty_asset (lo_NetPnL op) = qty_asset (lr_Threshold request) \<and>
      qty_value (lo_GrossPnL op) = qty_value (lo_NetPnL op) + qty_value (lr_Cost request) \<and> 0 \<le> qty_value (lr_Cost request)"
      using accounts cost by (simp add: live_accounts_def Let_def)
  qed
qed

text \<open>The quote asset of a configured strategy.\<close>

definition prefunded_assets :: "('p, 'e) PrefundedParallel \<Rightarrow> AssetID \<Rightarrow> bool" where
  "prefunded_assets s a \<longleftrightarrow> qty_asset (pr_legacyThreshold s) = a \<and> (\<forall>d q. (d, q) \<in> set (pr_directionalThresholds s) \<longrightarrow> qty_asset q = a) \<and>
     (pr_thresholdBPS s \<noteq> 0 \<longrightarrow> qty_asset (pr_thresholdFixed s) = a) \<and> (\<forall>q \<in> set (pr_notionals s). qty_asset q = a) \<and> pr_notionals s \<noteq> []"

lemma prefunded_threshold_asset:
  assumes "prefunded_threshold s direction input = Inr t" and "prefunded_assets s a" and "qty_asset input = a"
  shows "qty_asset (snd (snd t)) = a"
  using assms by (auto simp: prefunded_threshold_def prefunded_assets_def result_simps NewAssetQuantity_def Let_def dest: map_of_SomeD split: option.splits if_splits)

lemma prefunded_config_ok:
  assumes "prefunded_config_error quote config = None"
  shows "prefunded_notionals config \<noteq> []" "\<forall>q \<in> set (prefunded_notionals config). qty_asset q = quote" "qty_asset (pp_Threshold config) = quote"
    "\<forall>d q. (d, q) \<in> set (pp_DirectionalThresholds config) \<longrightarrow> qty_asset q = quote" "pp_ThresholdBPS config \<noteq> 0 \<longrightarrow> qty_asset (pp_ThresholdFixed config) = quote"
proof -
  have checks: "\<not> list_ex (notional_invalid quote (prefunded_notionals config)) [0..<length (prefunded_notionals config)]"
      "\<not> list_ex (\<lambda>(direction, threshold). dir_BuyMarket direction = dir_SellMarket direction \<or> qty_asset threshold \<noteq> quote \<or> QtySign threshold < 0)
        (pp_DirectionalThresholds config)"
    using assms by (auto simp: prefunded_config_error_def Let_def simp del: list_ex_iff split: if_splits)
  show "\<forall>q \<in> set (prefunded_notionals config). qty_asset q = quote"
    using checks(1) by (auto simp: list_ex_iff notional_invalid_def in_set_conv_nth)
  show "\<forall>d q. (d, q) \<in> set (pp_DirectionalThresholds config) \<longrightarrow> qty_asset q = quote" using checks(2) by (auto simp: list_ex_iff)
  show "prefunded_notionals config \<noteq> []" "qty_asset (pp_Threshold config) = quote"
    "pp_ThresholdBPS config \<noteq> 0 \<longrightarrow> qty_asset (pp_ThresholdFixed config) = quote"
    using assms by (auto simp: prefunded_config_error_def Let_def word_gt_0 simp del: list_ex_iff split: if_splits)
qed

lemma NewPrefundedParallel_Inr:
  assumes "NewPrefundedParallel config = Inr (s, cache)"
  shows "\<exists>a. prefunded_assets s a" and "valuation_ok cache"
proof -
  obtain registry where r: "pp_Registry config = Some registry" using assms by (auto simp: NewPrefundedParallel_def split: option.splits)
  obtain pair where pair: "reg_pairs registry (set_pair (pp_Setup config)) = Some pair"
    using assms by (auto simp: NewPrefundedParallel_def r split: option.splits if_splits)
  note new = assms [unfolded NewPrefundedParallel_def r option.case pair]
  have "prefunded_config_error (pair_QuoteAsset pair) config = None" using new by (auto simp: check_eq_Inr split: if_splits)
  moreover have "pr_notionals s = prefunded_notionals config \<and> pr_legacyThreshold s = pp_Threshold config \<and>
      pr_directionalThresholds s = pp_DirectionalThresholds config \<and> pr_thresholdFixed s = pp_ThresholdFixed config \<and> pr_thresholdBPS s = pp_ThresholdBPS config"
    using new by (auto simp: result_simps split: if_splits)
  ultimately show "\<exists>a. prefunded_assets s a" using prefunded_config_ok [of "pair_QuoteAsset pair" config] by (auto simp: prefunded_assets_def)
  have "\<exists>b q. NewBaseValuationCache b q = Inr cache" using new by (auto simp: result_simps split: if_splits)
  then show "valuation_ok cache" using valuation_steps_ok(1) by blast
qed

lemma prefunded_direction_candidates:
  assumes "prefunded_assets s a" and "notional \<in> set (pr_notionals s)"
  shows "\<forall>c \<in> set (op_Candidates (prefunded_direction rateLimited now s evaluation valuation direction notional)). candidate_sound a c"
    and "op_Direction (prefunded_direction rateLimited now s evaluation valuation direction notional) = direction"
    and "op_Evaluation (prefunded_direction rateLimited now s evaluation valuation direction notional) = ev_id evaluation"
proof -
  have asset: "qty_asset notional = a" using assms by (simp add: prefunded_assets_def)
  show "\<forall>c \<in> set (op_Candidates (prefunded_direction rateLimited now s evaluation valuation direction notional)). candidate_sound a c"
    using prefunded_threshold_asset [OF _ assms(1) asset, of direction]
    by (auto simp: prefunded_direction_def prefunded_opportunity_def prefunded_candidate_def candidate_sound_def Let_def
        dest: LiveEvaluate_sound split: option.splits sum.splits)
  show "op_Direction (prefunded_direction rateLimited now s evaluation valuation direction notional) = direction"
    "op_Evaluation (prefunded_direction rateLimited now s evaluation valuation direction notional) = ev_id evaluation"
    by (auto simp: prefunded_direction_def prefunded_opportunity_def Let_def split: option.splits sum.splits)
qed

definition sizes_ok :: "('p, 'e) PrefundedParallel \<Rightarrow> Direction \<Rightarrow> AssetID \<Rightarrow> size_scan \<Rightarrow> bool" where
  "sizes_ok s direction a g \<longleftrightarrow> (\<forall>c \<in> set (op_Candidates (ss_combined g)). candidate_sound a c) \<and>
     best_index (eligible s direction) (op_Candidates (ss_combined g)) (op_SelectedIndex (ss_combined g)) \<and>
     best_index (\<lambda>c. eligible s direction c \<and> worth_trading c) (op_Candidates (ss_combined g)) (ss_bestQualified g) \<and>
     (op_Evaluation (ss_combined g) = [] \<longrightarrow> op_Candidates (ss_combined g) = []) \<and>
     (op_Evaluation (ss_combined g) \<noteq> [] \<longrightarrow> op_Direction (ss_combined g) = direction)"

lemma best_index_skip: "best_index P cs i \<Longrightarrow> \<not> P c \<Longrightarrow> best_index P (cs @ [c]) i"
  by (auto simp: best_index_def nth_append split: if_splits)

lemma combine_candidate_ok:
  assumes "\<forall>c' \<in> set (op_Candidates combined). candidate_sound a c'" and "candidate_sound a c"
    and "best_index (eligible s direction) (op_Candidates combined) (op_SelectedIndex combined)"
    and "best_index (\<lambda>c. eligible s direction c \<and> worth_trading c) (op_Candidates combined) (ss_bestQualified g)"
    and "op_Evaluation combined \<noteq> []" and "op_Direction combined = direction"
  shows "sizes_ok s direction a (combine_candidate s direction c combined g)"
proof (cases "eligible s direction c")
  case False
  then show ?thesis using assms by (simp add: combine_candidate_def sizes_ok_def best_index_skip)
next
  case True
  have same: "\<forall>c' \<in> set (op_Candidates combined). qty_asset (cd_NetPnL c') = qty_asset (cd_NetPnL c)"
    using assms(1,2) by (simp add: candidate_sound_def)
  have worth: "greaterOrEqual (cd_NetPnL c) (cd_EffectiveThreshold c) \<and> QtySign (cd_NetPnL c) > 0 \<longleftrightarrow> worth_trading c"
    using classify_worth(1) [OF assms(2)] by (auto simp: worth_trading_def)
  show ?thesis
    using best_index_add [OF assms(3) same] best_index_add [OF assms(4) same] assms(1,2,5,6) True worth
    unfolding combine_candidate_def sizes_ok_def Let_def by (simp add: conj_assoc [symmetric])
qed

lemma combine_size_ok:
  assumes "sizes_ok s direction a g" and "\<forall>c \<in> set (op_Candidates op). candidate_sound a c" and "op_Evaluation op \<noteq> []" and "op_Direction op = direction"
  shows "sizes_ok s direction a (combine_size s direction op g)"
proof -
  let ?combined = "if op_Evaluation (ss_combined g) = [] then op\<lparr>op_Candidates := [], op_SelectedIndex := -1\<rparr> else ss_combined g"
  have start: "\<forall>c \<in> set (op_Candidates ?combined). candidate_sound a c" "op_Evaluation ?combined \<noteq> []" "op_Direction ?combined = direction"
    "best_index (eligible s direction) (op_Candidates ?combined) (op_SelectedIndex ?combined)"
    "best_index (\<lambda>c. eligible s direction c \<and> worth_trading c) (op_Candidates ?combined) (ss_bestQualified g)"
    using assms by (auto simp: sizes_ok_def best_index_def)
  show ?thesis
  proof (cases "op_Candidates op")
    case Nil
    then show ?thesis using start by (simp add: combine_size_def Let_def sizes_ok_def)
  next
    case (Cons c rest)
    then have "combine_size s direction op g = combine_candidate s direction c ?combined g" by (simp add: combine_size_def Let_def)
    moreover have "candidate_sound a c" using assms(2) Cons by simp
    ultimately show ?thesis using combine_candidate_ok [OF start(1) _ start(4,5,2,3)] by simp
  qed
qed

lemma fold_combine_ok:
  assumes "sizes_ok s direction a g"
    and "\<forall>op \<in> set ops. (\<forall>c \<in> set (op_Candidates op). candidate_sound a c) \<and> op_Evaluation op \<noteq> [] \<and> op_Direction op = direction"
  shows "sizes_ok s direction a (fold (combine_size s direction) ops g) \<and> (ops \<noteq> [] \<longrightarrow> op_Evaluation (ss_combined (fold (combine_size s direction) ops g)) \<noteq> [])"
  using assms
proof (induction ops arbitrary: g)
  case (Cons op ops)
  have next': "sizes_ok s direction a (combine_size s direction op g)" using Cons.prems by (simp add: combine_size_ok)
  have "op_Evaluation (ss_combined (combine_size s direction op g)) \<noteq> []"
    using Cons.prems by (auto simp: combine_size_def combine_candidate_def Let_def split: list.splits)
  then show ?case using Cons.IH [OF next'] Cons.prems(2) by (cases ops) auto
qed simp

text \<open>What the decision of a direction promises of the candidates that pass the capacity check.\<close>

definition direction_decided :: "(Candidate \<Rightarrow> bool) \<Rightarrow> Opportunity \<Rightarrow> bool" where
  "direction_decided capable op \<longleftrightarrow>
     (op_Classification op = ClassificationPolicyQualified \<longleftrightarrow> (\<exists>c \<in> set (op_Candidates op). capable c \<and> worth_trading c)) \<and>
     (0 \<le> op_SelectedIndex op \<longleftrightarrow> (\<exists>c \<in> set (op_Candidates op). capable c)) \<and>
     (0 \<le> op_SelectedIndex op \<longrightarrow> nat (op_SelectedIndex op) < length (op_Candidates op) \<and> capable (op_Candidates op ! nat (op_SelectedIndex op))) \<and>
     (\<forall>c \<in> set (op_Candidates op). capable c \<and> worth_trading c \<longrightarrow>
        worth_trading (op_Candidates op ! nat (op_SelectedIndex op)) \<and>
        qty_value (cd_NetPnL c) \<le> qty_value (cd_NetPnL (op_Candidates op ! nat (op_SelectedIndex op))))"

lemma best_index_nonneg: "best_index P cs i \<Longrightarrow> 0 \<le> i \<longleftrightarrow> (\<exists>c \<in> set cs. P c)"
  by (auto simp: best_index_def split: if_splits)

lemma finish_sizes_decides:
  assumes "sizes_ok s direction a g"
  shows "direction_decided (eligible s direction) (finish_sizes now g)" and "\<forall>c \<in> set (op_Candidates (finish_sizes now g)). candidate_sound a c"
proof -
  let ?cs = "op_Candidates (ss_combined g)" and ?sel = "op_SelectedIndex (ss_combined g)" and ?q = "ss_bestQualified g"
  let ?i = "if ?q \<ge> 0 then ?q else ?sel"
  let ?good = "\<lambda>c. eligible s direction c \<and> worth_trading c"
  have sound: "\<forall>c \<in> set ?cs. candidate_sound a c" and best: "best_index (eligible s direction) ?cs ?sel" "best_index ?good ?cs ?q"
    using assms by (auto simp: sizes_ok_def)
  show "\<forall>c \<in> set (op_Candidates (finish_sizes now g)). candidate_sound a c" using sound by (simp add: finish_sizes_def Let_def)
  show "direction_decided (eligible s direction) (finish_sizes now g)"
  proof (cases "?sel < 0")
    case True
    then have none: "\<forall>c \<in> set ?cs. \<not> eligible s direction c" using best_index_nonneg [OF best(1)] by auto
    then show ?thesis using True by (auto simp: finish_sizes_def Let_def direction_decided_def)
  next
    case False
    then obtain c0 where c0: "c0 \<in> set ?cs" "eligible s direction c0" using best_index_nonneg [OF best(1)] by auto
    have sel: "0 \<le> ?i" "nat ?i < length ?cs" "eligible s direction (?cs ! nat ?i)"
      using best_indexD [OF best(1) c0] best_index_nonneg [OF best(2)] best_indexD(2,3) [OF best(2)] by auto
    have good: "?good (?cs ! nat ?i) \<and> qty_value (cd_NetPnL c) \<le> qty_value (cd_NetPnL (?cs ! nat ?i))" if "c \<in> set ?cs" "?good c" for c
      using best_indexD [OF best(2) that] by simp
    have "fst (classify_candidate (?cs ! nat ?i)) = ClassificationPolicyQualified \<longleftrightarrow> worth_trading (?cs ! nat ?i)"
      using classify_worth(2) sound sel(2) nth_mem by blast
    moreover have "finish_sizes now g = (ss_combined g)\<lparr>op_FinishedAt := now, op_SelectedIndex := ?i, op_Threshold := cd_EffectiveThreshold (?cs ! nat ?i),
        op_Classification := fst (classify_candidate (?cs ! nat ?i)), op_Reasons := snd (classify_candidate (?cs ! nat ?i))\<rparr>"
      using False by (simp add: finish_sizes_def Let_def)
    moreover have "?cs ! nat ?i \<in> set ?cs" using sel(2) by simp
    ultimately show ?thesis unfolding direction_decided_def using sel good c0 by auto
  qed
qed

lemma evaluateDirectionSizes_decides:
  assumes "prefunded_assets s a" and "ev_id evaluation \<noteq> []"
  shows "direction_decided (eligible s direction) (evaluateDirectionSizes rateLimited now s evaluation valuation direction)"
    and "\<forall>c \<in> set (op_Candidates (evaluateDirectionSizes rateLimited now s evaluation valuation direction)). candidate_sound a c"
    and "op_Direction (evaluateDirectionSizes rateLimited now s evaluation valuation direction) = direction"
proof -
  let ?ops = "map (prefunded_direction rateLimited now s evaluation valuation direction) (pr_notionals s)"
  let ?start = "\<lparr>ss_combined = zero_opportunity, ss_capacityRejected = False, ss_bestQualified = -1\<rparr>"
  have start: "sizes_ok s direction a ?start" by (simp add: sizes_ok_def zero_opportunity_def best_index_def)
  have "\<forall>op \<in> set ?ops. (\<forall>c \<in> set (op_Candidates op). candidate_sound a c) \<and> op_Evaluation op \<noteq> [] \<and> op_Direction op = direction"
    using prefunded_direction_candidates [OF assms(1)] assms(2) by auto
  note scanned = fold_combine_ok [OF start this]
  have ne: "?ops \<noteq> []" using assms(1) by (simp add: prefunded_assets_def)
  have eval: "evaluateDirectionSizes rateLimited now s evaluation valuation direction = finish_sizes now (fold (combine_size s direction) ?ops ?start)"
    by (simp only: evaluateDirectionSizes_def)
  show "direction_decided (eligible s direction) (evaluateDirectionSizes rateLimited now s evaluation valuation direction)"
    "\<forall>c \<in> set (op_Candidates (evaluateDirectionSizes rateLimited now s evaluation valuation direction)). candidate_sound a c"
    unfolding eval using finish_sizes_decides scanned by blast+
  have keep: "op_Direction (finish_sizes now g) = op_Direction (ss_combined g)" for g by (simp add: finish_sizes_def Let_def)
  show "op_Direction (evaluateDirectionSizes rateLimited now s evaluation valuation direction) = direction"
    unfolding eval keep using scanned ne unfolding sizes_ok_def by blast
qed

section \<open>The direction that is kept\<close>

definition leads :: "Opportunity list \<Rightarrow> nat \<Rightarrow> int \<Rightarrow> bool" where
  "leads results n best \<longleftrightarrow>
     (if \<exists>i < n. 0 \<le> op_SelectedIndex (results ! i)
      then 0 \<le> best \<and> nat best < n \<and> 0 \<le> op_SelectedIndex (results ! nat best) \<and>
        (\<forall>i < n. 0 \<le> op_SelectedIndex (results ! i) \<longrightarrow> qty_value (selected_net (results ! i)) \<le> qty_value (selected_net (results ! nat best)))
      else best = -1)"

lemma quantityGreater_iff: "qty_asset x = qty_asset y \<Longrightarrow> quantityGreater x y \<longleftrightarrow> qty_value y < qty_value x"
  by (auto simp: quantityGreater_def QtyCmp_def)

lemma better_result_leads:
  assumes "leads results n best" and "n < length results"
    and "\<And>i. i < length results \<Longrightarrow> 0 \<le> op_SelectedIndex (results ! i) \<Longrightarrow> qty_asset (selected_net (results ! i)) = a"
  shows "leads results (Suc n) (better_result results n best)"
proof (cases "0 \<le> op_SelectedIndex (results ! n)")
  case False
  then show ?thesis using assms(1) by (auto simp: leads_def better_result_def less_Suc_eq split: if_splits)
next
  case sel: True
  show ?thesis
  proof (cases "\<exists>i < n. 0 \<le> op_SelectedIndex (results ! i)")
    case False
    then have "best = -1" using assms(1) by (simp add: leads_def)
    then show ?thesis using False sel by (auto simp: leads_def better_result_def less_Suc_eq)
  next
    case True
    then have best: "0 \<le> best" "nat best < n" "0 \<le> op_SelectedIndex (results ! nat best)"
      "\<And>i. i < n \<Longrightarrow> 0 \<le> op_SelectedIndex (results ! i) \<Longrightarrow> qty_value (selected_net (results ! i)) \<le> qty_value (selected_net (results ! nat best))"
      using assms(1) by (simp_all add: leads_def)
    have "quantityGreater (selected_net (results ! n)) (selected_net (results ! nat best)) \<longleftrightarrow>
        qty_value (selected_net (results ! nat best)) < qty_value (selected_net (results ! n))"
      using assms(2) assms(3) [of n] assms(3) [of "nat best"] best(2,3) sel by (intro quantityGreater_iff) simp
    moreover have "\<exists>i < Suc n. 0 \<le> op_SelectedIndex (results ! i)" using sel by blast
    ultimately show ?thesis using best sel
      by (auto simp: leads_def better_result_def less_Suc_eq not_less intro: order_trans less_imp_le)
  qed
qed

lemma fold_better_leads:
  assumes "n \<le> length results" and "\<And>i. i < length results \<Longrightarrow> 0 \<le> op_SelectedIndex (results ! i) \<Longrightarrow> qty_asset (selected_net (results ! i)) = a"
  shows "leads results n (fold (better_result results) [0..<n] (-1))"
  using assms(1)
proof (induction n)
  case 0
  then show ?case by (simp add: leads_def)
next
  case (Suc n)
  then show ?case using better_result_leads [OF _ _ assms(2), of n] by simp
qed

lemma best_direction_kept:
  assumes "\<And>i. i < length results \<Longrightarrow> 0 \<le> op_SelectedIndex (results ! i) \<Longrightarrow> qty_asset (selected_net (results ! i)) = a"
    and "\<exists>i < length results. 0 \<le> op_SelectedIndex (results ! i)"
  shows "\<exists>b < length results. best_direction_only results ! b = results ! b \<and> 0 \<le> op_SelectedIndex (results ! b) \<and>
      (\<forall>i < length results. i \<noteq> b \<longrightarrow> op_SelectedIndex (best_direction_only results ! i) < 0) \<and>
      (\<forall>i < length results. 0 \<le> op_SelectedIndex (results ! i) \<longrightarrow> qty_value (selected_net (results ! i)) \<le> qty_value (selected_net (results ! b)))"
proof -
  define best where "best = fold (better_result results) [0..<length results] (-1)"
  have "leads results (length results) best" unfolding best_def using fold_better_leads [OF order_refl assms(1)] by blast
  then have b: "0 \<le> best" "nat best < length results" "0 \<le> op_SelectedIndex (results ! nat best)"
      "\<And>i. i < length results \<Longrightarrow> 0 \<le> op_SelectedIndex (results ! i) \<Longrightarrow> qty_value (selected_net (results ! i)) \<le> qty_value (selected_net (results ! nat best))"
    using assms(2) by (simp_all add: leads_def)
  have nth: "best_direction_only results ! i = drop_result best (i, results ! i)" if "i < length results" for i
    using that by (simp add: best_direction_only_def best_def)
  have "best_direction_only results ! nat best = results ! nat best" using b(1,2) by (simp add: nth drop_result_def)
  moreover have "op_SelectedIndex (best_direction_only results ! i) < 0" if "i < length results" "i \<noteq> nat best" for i
    using that by (auto simp: nth drop_result_def)
  ultimately show ?thesis using b by blast
qed

lemma length_best_direction_only [simp]: "length (best_direction_only results) = length results"
  by (simp add: best_direction_only_def)

text \<open>The valuation cache only ever holds positive prices.\<close>

lemma prefunded_valuation_ok:
  assumes "valuation_ok cache"
  shows "valuation_ok (snd (prefunded_valuation now s evaluation cache))" and "valuation_ok (observe_opportunity clock s op cache)"
    and "valuation_ok (fold (observe_opportunity clock s) ops cache)"
proof -
  have steps: "valuation_ok c'" if "ObserveValuation key q tin tout t c = (r, c')" "valuation_ok c" for key q tin tout t c r c'
    using valuation_steps_ok(2) [OF that(2), of key q tin tout t] that(1) by simp
  show "valuation_ok (snd (prefunded_valuation now s evaluation cache))"
    using assms by (auto simp: prefunded_valuation_def warm_valuation_def Let_def intro: steps split: sum.splits option.splits prod.splits)
  have obs: "valuation_ok (observe_opportunity clock s op cache)" if "valuation_ok cache" for cache op
    using that by (auto simp: observe_opportunity_def intro: valuation_steps_ok(2) split: option.splits)
  then show "valuation_ok (observe_opportunity clock s op cache)" using assms by blast
  show "valuation_ok (fold (observe_opportunity clock s) ops cache)" using assms obs by (induction ops arbitrary: cache) auto
qed

text \<open>A revaluation with other quotes keeps the inputs, the costs and the thresholds of a candidate.\<close>

lemma revalue_keeps_inputs:
  assumes "RevalueCandidate now s direction c buy sell snapshots when = Inr c'"
  shows "cd_Input c' = cd_Input c" "cd_Cost c' = cd_Cost c" "cd_EffectiveThreshold c' = cd_EffectiveThreshold c" "cd_BuyQuote c' = buy" "cd_SellQuote c' = sell"
    and "qty_value (cd_NetPnL c') = qty_value (cd_GrossPnL c') - qty_value (cs_Amount (cd_Cost c))"
    and "qty_value (cd_Output c') = qty_value (cd_Input c) + qty_value (cd_GrossPnL c')"
proof -
  obtain valuation where v: "cd_Valuation c = Some valuation" using assms by (auto simp: RevalueCandidate_def split: option.splits)
  obtain request valued out where live: "LiveValue now (pr_live s) request buy sell when = Inr valued" "lr_Cost request = cs_Amount (cd_Cost c)"
      "QtyAdd (cd_Input c) (lo_GrossPnL valued) = Inr out"
      and c': "c' = c\<lparr>cd_BuyQuote := buy, cd_SellQuote := sell, cd_Output := out, cd_GrossPnL := lo_GrossPnL valued, cd_NetPnL := lo_NetPnL valued\<rparr>"
    using assms by (auto simp: RevalueCandidate_def v Let_def result_simps)
  have "qty_value (lo_NetPnL valued) = qty_value (lo_GrossPnL valued) - qty_value (cs_Amount (cd_Cost c))"
    by (rule LiveValue_Inr [OF live(1)]) (simp add: live_accounts_def Let_def live(2))
  then show "cd_Input c' = cd_Input c" "cd_Cost c' = cd_Cost c" "cd_EffectiveThreshold c' = cd_EffectiveThreshold c" "cd_BuyQuote c' = buy" "cd_SellQuote c' = sell"
    "qty_value (cd_NetPnL c') = qty_value (cd_GrossPnL c') - qty_value (cs_Amount (cd_Cost c))"
    "qty_value (cd_Output c') = qty_value (cd_Input c) + qty_value (cd_GrossPnL c')"
    using live(3) by (simp_all add: c' QtyAdd_Inr)
qed

section \<open>Properties\<close>

text \<open>
  C40: a valuation of a live opportunity only accepts quotes for the inputs that were fixed before
  either quote, the notional and its worth in the base asset, each rounded down to whole units;
  its gross profit is what the sale brings, converted where the quote tokens differ, less what
  the purchase takes, plus the difference in the base asset at the valuation price; the net profit
  is the gross profit less the cost; and without a risk block the cost and the change of the base
  inventory are within their limits.
\<close>

theorem live_value_accounts:
  fixes e :: "('p, 'e) LiveEvaluator"
  assumes "LiveValue now e request buy sell validatedAt = Inr op"
  shows "\<exists>tokens. live_tokens (le_registry e) (lr_Direction request) = (Inr tokens :: ('e live_eval_error, liveTokens) result) \<and>
    ToTokenAmount (lr_Notional request) (lt_buyQuote tokens) = Inr (q_AmountIn buy) \<and>
    ToTokenAmount \<lparr>qty_asset = tok_Asset (lt_sellBase tokens), qty_value = qty_value (lr_Notional request) / vs_price (lr_Valuation request)\<rparr>
      (lt_sellBase tokens) = Inr (q_AmountIn sell) \<and>
    lo_BuyQuote op = buy \<and> lo_SellQuote op = sell \<and> live_accounts tokens request op \<and> LiveOpportunityValidate op = None \<and>
    (lo_RiskBlock op = [] \<longrightarrow> qty_value (lr_Cost request) \<le> qty_value (lr_MaximumCost request) \<and>
       \<bar>qty_value (lo_BaseDelta op)\<bar> \<le> qty_value (lr_MaximumBaseExposure request))"
proof (rule LiveValue_Inr [OF assms])
  fix buyInput sellInput tokens snapshots
  assume inputs: "live_inputs e request = Inr (buyInput, sellInput, tokens, snapshots)" and rest: "q_AmountIn buy = buyInput" "q_AmountIn sell = sellInput"
    "lo_BuyQuote op = buy" "lo_SellQuote op = sell" "live_accounts tokens request op" "LiveOpportunityValidate op = None"
    "lo_RiskBlock op = [] \<Longrightarrow> qty_value (lr_Cost request) \<le> qty_value (lr_MaximumCost request) \<and>
       \<bar>qty_value (lo_BaseDelta op)\<bar> \<le> qty_value (lr_MaximumBaseExposure request)"
  show ?thesis by (rule exI [of _ tokens]) (use live_inputs_Inr(1,3,4) [OF inputs] rest in simp)
qed

text \<open>
  C19: an evaluation of prefunded inventories decides every direction by its candidates, for those
  within capacity: policy qualified exactly when one of them earns its threshold after costs, the
  selected one earning most of these. When any direction has a candidate, exactly one direction
  stays selected, unchanged, and no other selected candidate earned more. The valuation cache stays
  well-formed.
\<close>

theorem prefunded_keeps_best_direction:
  assumes "NewPrefundedParallel config = Inr (s, cache0)" and "ev_id evaluation \<noteq> []" and "valuation_ok cache"
    and "fst (prefunded_valuation now s evaluation cache) = Some valuation"
    and "PrefundedEvaluate rateLimited ctxErr now clock s evaluation cache = (Inr ops, cache')"
    and "results = map (\<lambda>d. evaluateDirectionSizes rateLimited (clock d) s evaluation valuation d) (set_directions (pr_setup s))"
  shows "(\<forall>op \<in> set results. direction_decided (eligible s (op_Direction op)) op) \<and> length ops = length results \<and> valuation_ok cache' \<and>
    ((\<exists>i < length results. 0 \<le> op_SelectedIndex (results ! i)) \<longrightarrow>
      (\<exists>b < length results. ops ! b = results ! b \<and> 0 \<le> op_SelectedIndex (ops ! b) \<and>
        (\<forall>i < length results. i \<noteq> b \<longrightarrow> op_SelectedIndex (ops ! i) < 0) \<and>
        (\<forall>i < length results. 0 \<le> op_SelectedIndex (results ! i) \<longrightarrow> qty_value (selected_net (results ! i)) \<le> qty_value (selected_net (ops ! b)))))"
proof -
  obtain a where a: "prefunded_assets s a" using NewPrefundedParallel_Inr(1) [OF assms(1)] by blast
  note decided = evaluateDirectionSizes_decides [OF a assms(2)]
  obtain cache1 where v: "prefunded_valuation now s evaluation cache = (Some valuation, cache1)" using assms(4) by (metis prod.collapse)
  then have "valuation_ok cache1" using prefunded_valuation_ok(1) [OF assms(3), of now s evaluation] by simp
  with assms(5) v have ops: "ops = best_direction_only results" and cache: "valuation_ok cache'"
    by (auto simp: PrefundedEvaluate_def assms(6) Let_def prefunded_valuation_ok(3) split: if_splits)
  have results: "direction_decided (eligible s (op_Direction op)) op" "\<forall>c \<in> set (op_Candidates op). candidate_sound a c" if "op \<in> set results" for op
    using that decided unfolding assms(6) by auto
  have asset: "qty_asset (selected_net (results ! i)) = a" if "i < length results" "0 \<le> op_SelectedIndex (results ! i)" for i
    using results [OF nth_mem [OF that(1)]] that(2) by (simp add: direction_decided_def selected_net_def candidate_sound_def)
  show ?thesis using results(1) cache best_direction_kept [OF asset] unfolding ops by simp metis
qed

text \<open>Two markets, one hundred units, and a threshold for each direction.\<close>

definition plain_source :: "int \<Rightarrow> int \<Rightarrow> (unit, unit) quote_source" where
  "plain_source bought sold = src_Quote (so_source (rate_source bought sold))"

definition sample_prefunded_config :: "rat \<Rightarrow> rat \<Rightarrow> (unit, unit) PrefundedParallelConfig" where
  "sample_prefunded_config there back = \<lparr>pp_ID = ''t'',
     pp_Setup = \<lparr>set_id = ''s'', set_pair = ''p'', set_markets = [''m'', ''n''], set_directions = all_directions [''m'', ''n'']\<rparr>,
     pp_Registry = Some sample_registry, pp_Sources = [''m'' \<mapsto> plain_source 1 1, ''n'' \<mapsto> plain_source 2 3],
     pp_Notional = y_qty 100, pp_Notionals = [], pp_Threshold = y_qty 0,
     pp_DirectionalThresholds = [(\<lparr>dir_BuyMarket = ''m'', dir_SellMarket = ''n''\<rparr>, y_qty there), (\<lparr>dir_BuyMarket = ''n'', dir_SellMarket = ''m''\<rparr>, y_qty back)],
     pp_ThresholdFixed = y_qty 0, pp_ThresholdBPS = 0, pp_ValuationMarket = ''m'', pp_Clock = True, pp_RequireQuoteConversion = False,
     pp_CandidateEligible = None, pp_CandidateCost = None\<rparr>"

definition sample_prefunded :: "rat \<Rightarrow> rat \<Rightarrow> (unit, unit) PrefundedParallel \<times> BaseValuationCache" where
  "sample_prefunded there back = (case NewPrefundedParallel (sample_prefunded_config there back) of Inr x \<Rightarrow> x | Inl _ \<Rightarrow> undefined)"

definition sample_prefunded_run :: "rat \<Rightarrow> rat \<Rightarrow> (unit prefunded_error, Opportunity list) result \<times> BaseValuationCache" where
  "sample_prefunded_run there back =
     PrefundedEvaluate (\<lambda>_. False) False 5 (\<lambda>_. 6) (fst (sample_prefunded there back)) sample_evaluation (snd (sample_prefunded there back))"

definition sample_prefunded_summary :: "rat \<Rightarrow> rat \<Rightarrow> (unit prefunded_error, (string \<times> int \<times> rat list) list) result" where
  "sample_prefunded_summary there back = rbind (fst (sample_prefunded_run there back)) (\<lambda>ops.
     Inr (map (\<lambda>op. (op_Classification op, op_SelectedIndex op, map (\<lambda>c. qty_value (cd_NetPnL c)) (op_Candidates op))) ops))"

lemma sample_prefunded_new: "is_ok (NewPrefundedParallel (sample_prefunded_config 300 50))" "is_ok (NewPrefundedParallel (sample_prefunded_config 100 50))"
  by code_simp+

lemma sample_prefunded_runs:
  "sample_prefunded_summary 100 50 = Inr [(ClassificationPolicyQualified, 0, [194]), (ClassificationNoSpread, -1, [94])]"
  "fst (prefunded_valuation 5 (fst (sample_prefunded 100 50)) sample_evaluation (snd (sample_prefunded 100 50))) \<noteq> None"
  by code_simp+

text \<open>
  A direction that earns more but misses its own threshold displaces one that meets its threshold:
  the evaluation then reports no qualified direction, although the second one earns 94 over a
  threshold of 50.
\<close>

lemma qualified_direction_displaced:
  "sample_prefunded_summary 300 50 = Inr [(ClassificationEconomic, 0, [194]), (ClassificationNoSpread, -1, [94])]"
  "op_Classification (evaluateDirectionSizes (\<lambda>_. False) 6 (fst (sample_prefunded 300 50)) sample_evaluation
     (the (fst (prefunded_valuation 5 (fst (sample_prefunded 300 50)) sample_evaluation (snd (sample_prefunded 300 50)))))
     \<lparr>dir_BuyMarket = ''n'', dir_SellMarket = ''m''\<rparr>) = ClassificationPolicyQualified"
  by code_simp+

theorem prefunded_keeps_best_direction_witness:
  "\<exists>ops cache'. sample_prefunded_run 100 50 = (Inr ops, cache') \<and> length ops = 2 \<and> valuation_ok cache'"
proof -
  obtain x cache' where run: "sample_prefunded_run 100 50 = (x, cache')" by fastforce
  with sample_prefunded_runs(1) obtain ops where ops: "x = Inr ops" by (cases x) (auto simp: sample_prefunded_summary_def)
  obtain s cache where new: "NewPrefundedParallel (sample_prefunded_config 100 50) = Inr (s, cache)" and sample: "sample_prefunded 100 50 = (s, cache)"
    using sample_prefunded_new(2) by (auto simp: is_ok_def sample_prefunded_def split: sum.splits)
  obtain valuation where v: "fst (prefunded_valuation 5 s sample_evaluation cache) = Some valuation"
    using sample_prefunded_runs(2) by (auto simp: sample)
  have "ev_id sample_evaluation \<noteq> []" by (simp add: sample_evaluation_def)
  from prefunded_keeps_best_direction [OF new this NewPrefundedParallel_Inr(2) [OF new] v run [unfolded sample_prefunded_run_def sample fst_conv snd_conv ops] refl]
  have kept: "length ops = length (set_directions (pr_setup s))" "valuation_ok cache'" by simp_all
  have "length ops = 2" using sample_prefunded_runs(1) run ops by (auto simp: sample_prefunded_summary_def)
  with kept run ops show ?thesis by blast
qed

definition sample_live_request :: "unit LiveEvaluationRequest" where
  "sample_live_request = \<lparr>lr_ID = ''i'', lr_Direction = \<lparr>dir_BuyMarket = ''m'', dir_SellMarket = ''n''\<rparr>,
     lr_Snapshots = EvaluationSnapshot sample_evaluation, lr_Notional = y_qty 100,
     lr_Valuation = \<lparr>vs_version = 1, vs_base = ''X'', vs_quote = ''Y'', vs_price = 2, vs_observations = 1, vs_capturedAt = 1\<rparr>,
     lr_Cost = y_qty 6, lr_Threshold = y_qty 10, lr_MaximumCost = y_qty 9, lr_MaximumBaseExposure = \<lparr>qty_asset = ''X'', qty_value = 60\<rparr>,
     lr_TriggeredAt = 1, lr_QuoteConversion = None\<rparr>"

definition sample_live_quote :: "TokenID \<Rightarrow> int \<Rightarrow> TokenID \<Rightarrow> int \<Rightarrow> Quote" where
  "sample_live_quote tin i tout x = \<lparr>q_Source = ''r'', q_Market = ''m'', q_SnapshotVersion = 1, q_SnapshotHash = ''h'',
     q_SourcePosition = \<lparr>sp_Kind = [], sp_Value = 0\<rparr>, q_ResponseHash = [], q_Purpose = PurposeLiveDiscovery, q_Mode = QuoteModeExactInput,
     q_Quality = QuoteQualityExact, q_AmountIn = \<lparr>amt_token = tin, amt_units = i\<rparr>, q_AmountOut = \<lparr>amt_token = tout, amt_units = x\<rparr>, q_QuotedAt = 1, q_fees = []\<rparr>"

definition sample_live :: "(unit live_eval_error, LiveOpportunity) result" where
  "sample_live = LiveValue 5 (pr_live (fst (sample_prefunded 100 50))) sample_live_request (sample_live_quote ''y'' 100 ''x'' 70) (sample_live_quote ''x'' 50 ''y'' 120) 0"

lemma sample_live_valued: "rbind sample_live (\<lambda>op. Inr (qty_value (lo_GrossPnL op), qty_value (lo_NetPnL op), lo_RiskBlock op)) = Inr (60, 54, [])"
  by code_simp

theorem live_value_accounts_witness:
  "\<exists>op tokens. sample_live = Inr op \<and> qty_value (lo_NetPnL op) = 54 \<and> live_accounts tokens sample_live_request op"
proof -
  obtain op where op: "sample_live = Inr op" "qty_value (lo_NetPnL op) = 54" using sample_live_valued by (auto simp: rbind_eq_Inr)
  from live_value_accounts [OF op(1) [unfolded sample_live_def]] op show ?thesis by blast
qed

end
