(* ===== verification/Live_Engine.thy ===== *)
theory Live_Engine
  imports Saga_Live Strategy_Prefunded
begin

text \<open>
  The live engine, \<open>src/core/live\<close>: \<open>engine.go\<close> composes the evaluator, the planner, the executable
  validation, the costs and the executor of the other theories.

  Validators, the cost estimator, the identifiers, the clock and the context are ports: functions
  on the world of the executor. The order in which concurrent calls take effect is an argument,
  one schedule for every attempt. The retry of an operation whose artifacts expired may go on for
  ever, so that the loop is a partial function. Timings are left out.
\<close>

section \<open>Configuration and results\<close>

record SlippageConstraint =
  sc_BPS :: "16 word"
  sc_MinimumOutput :: TokenAmount
  sc_Reason :: string

record 'p ValidationRequest =
  vr_Operation :: OperationID
  vr_Leg :: Leg
  vr_Discovery :: Quote
  vr_Snapshot :: "'p MarketSnapshot option"
  vr_Slippage :: "SlippageConstraint option"
  vr_RequestedAt :: gotime

record CostRequest =
  cr_Opportunity :: LiveOpportunity
  cr_Artifacts :: "(StepID \<times> Artifact) list"
  cr_RequestedAt :: gotime

type_synonym ('p, 'w) Validator = "'p ValidationRequest \<Rightarrow> 'w \<Rightarrow> (PortError, Artifact) result \<times> 'w"

record ('p, 'e, 'w) EngineConfig =
  en_Evaluator :: "('p, 'e) LiveEvaluator"
  en_Planner :: "(MarketID \<times> LegBinding) list"
  en_Executor :: "'w ExecutorConfig option"
  en_Validators :: "(MarketID \<times> ('p, 'w) Validator) list"
  en_Costs :: "CostRequest \<Rightarrow> 'w \<Rightarrow> (PortError, AssetQuantity) result \<times> 'w"
  en_Clock :: "'w \<Rightarrow> gotime \<times> 'w"
  en_ID :: "string \<Rightarrow> 'w \<Rightarrow> string \<times> 'w"
  en_DryRun :: bool
  en_Context :: "'w \<Rightarrow> bool"

datatype 'e engine_error =
    EngineIncomplete
  | EngineExecutor
  | EngineEvaluation "'e live_eval_error"
  | EngineEmptyBatch
  | EngineCompare amount_error
  | EnginePlan planner_error
  | EngineExecution live_saga_error
  | EngineContext

record EngineResult =
  rs_Discovery :: LiveOpportunity
  rs_Validated :: "LiveOpportunity option"
  rs_Artifacts :: "(StepID \<times> Artifact) list"
  rs_Execution :: "ExecutionResult option"
  rs_ValidationAbort :: bool
  rs_Attempts :: nat

text \<open>The order of the validations, preparations and broadcasts of one attempt.\<close>

record attempt_schedule =
  as_validating :: "nat list"
  as_preparing :: "nat list"
  as_broadcasting :: "nat list"

definition NewEngine :: "('p, 'e, 'w) EngineConfig \<Rightarrow> ('e engine_error, ('p, 'e, 'w) EngineConfig) result" where
  "NewEngine config =
     (if length (en_Validators config) < 2 then Inl EngineIncomplete
      else if \<not> en_DryRun config \<and> en_Executor config = None then Inl EngineExecutor
      else Inr config)"

section \<open>Executable validation\<close>

definition validate_leg ::
  "('p, 'e, 'w) EngineConfig \<Rightarrow> OperationID \<Rightarrow> LiveOpportunity \<Rightarrow> 'p LiveEvaluationRequest \<Rightarrow> Leg list \<Rightarrow> nat \<Rightarrow> 'w Live \<Rightarrow>
   (PortError, Artifact) result option \<times> 'w Live" where
  "validate_leg e oid opportunity request legs i s =
     (let leg = legs ! i in
      case map_of (en_Validators e) (leg_Market leg) of
        None \<Rightarrow> (None, s)
      | Some validator \<Rightarrow>
          (case on_world (en_Clock e) s of (now, s1) \<Rightarrow>
           case on_world (validator \<lparr>vr_Operation = oid, vr_Leg = leg,
               vr_Discovery = (if leg_Side leg = LegSell then lo_SellQuote opportunity else lo_BuyQuote opportunity),
               vr_Snapshot = lr_Snapshots request (leg_Market leg), vr_Slippage = None, vr_RequestedAt = now\<rparr>) s1 of
             (r, s2) \<Rightarrow> (Some r, s2)))"

text \<open>
  A leg without a validator ends the validation at once; the calls for the legs before it were
  started and are made. The caller only sees that the validation failed.
\<close>

definition engine_validate ::
  "('p, 'e, 'w) EngineConfig \<Rightarrow> nat list \<Rightarrow> OperationID \<Rightarrow> SagaPlan \<Rightarrow> LiveOpportunity \<Rightarrow> 'p LiveEvaluationRequest \<Rightarrow> 'w Live \<Rightarrow>
   (StepID \<times> Artifact) list option \<times> 'w Live" where
  "engine_validate e order oid plan opportunity request s =
     (let legs = plan_legs plan; started = takeWhile (\<lambda>leg. map_of (en_Validators e) (leg_Market leg) \<noteq> None) legs in
      case run_group (validate_leg e oid opportunity request legs) (filter (\<lambda>i. i < length started) order) s of
        (None, s') \<Rightarrow> (None, s')
      | (Some m, s') \<Rightarrow>
          if length started < length legs then (None, s')
          else (let rs = group_results m (length legs) in
            if list_all is_ok rs then (Some (zip (map leg_ID legs) (map projr rs)), s') else (None, s')))"

section \<open>Discovered opportunities\<close>

definition attempt_execute ::
  "('p, 'e, 'w) EngineConfig \<Rightarrow> attempt_schedule \<Rightarrow> PlanID \<Rightarrow> OperationID \<Rightarrow> LiveOpportunity \<Rightarrow> (StepID \<times> Artifact) list \<Rightarrow> 'w Live \<Rightarrow>
   ('e engine_error, outcome) result option \<times> 'w Live" where
  "attempt_execute e sched pid oid validated artifacts s =
     (case on_world (en_Clock e) s of (now, s1) \<Rightarrow>
      case Plan (en_Planner e) pid validated now of
        Inl err \<Rightarrow> (Some (Inl (EnginePlan err)), s1)
      | Inr plan \<Rightarrow>
          (case en_Executor e of
             None \<Rightarrow> (None, s1)
           | Some executor \<Rightarrow>
               (case ExecuteLive executor (as_preparing sched) (as_broadcasting sched) oid plan artifacts s1 of
                  (None, s2) \<Rightarrow> (None, s2)
                | (Some out, s2) \<Rightarrow> (Some (Inr out), s2))))"

definition attempt_value ::
  "('p, 'e, 'w) EngineConfig \<Rightarrow> 'p LiveEvaluationRequest \<Rightarrow> LiveOpportunity \<Rightarrow> (StepID \<times> Artifact) list \<Rightarrow> 'w Live \<Rightarrow>
   ('e engine_error, LiveOpportunity) result option \<times> 'w Live" where
  "attempt_value e request discovery artifacts s =
     (case on_world (en_Clock e) s of (costStarted, s1) \<Rightarrow>
      case on_world (en_Costs e \<lparr>cr_Opportunity = discovery, cr_Artifacts = artifacts, cr_RequestedAt = costStarted\<rparr>) s1 of
        (Inl _, s2) \<Rightarrow> (None, s2)
      | (Inr finalCost, s2) \<Rightarrow>
          (case on_world (en_Clock e) s2 of (now, s3) \<Rightarrow>
           (Some (case (map_of artifacts ''buy'', map_of artifacts ''sell'') of
              (Some buy, Some sell) \<Rightarrow>
                map_err EngineEvaluation (LiveValue now (en_Evaluator e) (request\<lparr>lr_Cost := finalCost\<rparr>) (art_ValidatedQuote buy) (art_ValidatedQuote sell) now)
            | _ \<Rightarrow> Inl (EngineEvaluation LiveEvalInputsChanged)), s3)))"

text \<open>
  The executable validation of one attempt: the plan, the validations, the costs and the valuation
  of the validated quotes. \<open>Inl None\<close> aborts the opportunity without an error.
\<close>

definition attempt_prepare ::
  "('p, 'e, 'w) EngineConfig \<Rightarrow> nat list \<Rightarrow> PlanID \<Rightarrow> OperationID \<Rightarrow> 'p LiveEvaluationRequest \<Rightarrow> LiveOpportunity \<Rightarrow> 'w Live \<Rightarrow>
   ('e engine_error option, (StepID \<times> Artifact) list \<times> LiveOpportunity) result \<times> 'w Live" where
  "attempt_prepare e order pid oid request discovery s =
     (case on_world (en_Clock e) s of (now, s1) \<Rightarrow>
      case Plan (en_Planner e) pid discovery now of
        Inl err \<Rightarrow> (Inl (Some (EnginePlan err)), s1)
      | Inr discoveryPlan \<Rightarrow>
      case engine_validate e order oid discoveryPlan discovery request s1 of
        (None, s2) \<Rightarrow> (Inl None, s2)
      | (Some artifacts, s2) \<Rightarrow>
      case attempt_value e request discovery artifacts s2 of
        (None, s3) \<Rightarrow> (Inl None, s3)
      | (Some (Inl err), s3) \<Rightarrow> (Inl (Some err), s3)
      | (Some (Inr validated), s3) \<Rightarrow> (Inr (artifacts, validated), s3))"

text \<open>
  One round of the loop of \<open>executeDiscovered\<close>: \<open>Inl\<close> is what it returns, \<open>Inr\<close> the result so far
  with which it starts over; no result is the end of the process in the executor.
\<close>

type_synonym 'e engine_outcome = "EngineResult \<times> 'e engine_error option"

definition conclude_attempt :: "('p, 'e, 'w) EngineConfig \<Rightarrow> EngineResult \<Rightarrow> 'e engine_error + outcome \<Rightarrow> 'w Live \<Rightarrow> 'e engine_outcome + EngineResult" where
  "conclude_attempt e valued out s =
     (case out of
        Inl err \<Rightarrow> Inl (valued, Some err)
      | Inr (executed, err) \<Rightarrow>
          if err = Some LiveTooOld
          then (if en_Context e (lv_world s) then Inl (valued, Some EngineContext) else Inr valued)
          else Inl (valued\<lparr>rs_Execution := Some executed\<rparr>, map_option EngineExecution err))"

definition discovered_attempt ::
  "('p, 'e, 'w) EngineConfig \<Rightarrow> attempt_schedule \<Rightarrow> 'p LiveEvaluationRequest \<Rightarrow> LiveOpportunity \<Rightarrow> EngineResult \<Rightarrow> 'w Live \<Rightarrow>
   ('e engine_outcome + EngineResult) option \<times> 'w Live" where
  "discovered_attempt e orders request discovery result s =
     (case on_world (en_ID e ''plan'') s of (pid, s1) \<Rightarrow>
      case on_world (en_ID e ''operation'') s1 of (oid, s2) \<Rightarrow>
      case attempt_prepare e (as_validating orders) pid oid request discovery s2 of
        (Inl None, s3) \<Rightarrow> (Some (Inl (result\<lparr>rs_ValidationAbort := True\<rparr>, None)), s3)
      | (Inl (Some err), s3) \<Rightarrow> (Some (Inl (result, Some err)), s3)
      | (Inr (artifacts, validated), s3) \<Rightarrow>
          (let valued = result\<lparr>rs_Validated := Some validated, rs_Artifacts := artifacts\<rparr> in
           if \<not> Profitable validated \<or> en_DryRun e then (Some (Inl (valued, None)), s3)
           else case attempt_execute e orders pid oid validated artifacts s3 of
               (None, s4) \<Rightarrow> (None, s4)
             | (Some out, s4) \<Rightarrow> (Some (conclude_attempt e valued out s4), s4)))"

text \<open>The outer option is the divergence of the loop, the inner one the end of the process.\<close>

partial_function (option) execute_attempts ::
  "('p, 'e, 'w) EngineConfig \<Rightarrow> (nat \<Rightarrow> attempt_schedule) \<Rightarrow> 'p LiveEvaluationRequest \<Rightarrow> LiveOpportunity \<Rightarrow> EngineResult \<Rightarrow> 'w Live \<Rightarrow>
   ('e engine_outcome option \<times> 'w Live) option" where
  "execute_attempts e sched request discovery result s =
     (case discovered_attempt e (sched (Suc (rs_Attempts result))) request discovery (result\<lparr>rs_Attempts := Suc (rs_Attempts result)\<rparr>) s of
        (None, s') \<Rightarrow> Some (None, s')
      | (Some (Inl out), s') \<Rightarrow> Some (Some out, s')
      | (Some (Inr result'), s') \<Rightarrow> execute_attempts e sched request discovery result' s')"

declare execute_attempts.simps [code]

definition discovered_result :: "LiveOpportunity \<Rightarrow> EngineResult" where
  "discovered_result discovery = \<lparr>rs_Discovery = discovery, rs_Validated = None, rs_Artifacts = [], rs_Execution = None, rs_ValidationAbort = False, rs_Attempts = 0\<rparr>"

definition executeDiscovered ::
  "('p, 'e, 'w) EngineConfig \<Rightarrow> (nat \<Rightarrow> attempt_schedule) \<Rightarrow> 'p LiveEvaluationRequest \<Rightarrow> LiveOpportunity \<Rightarrow> 'w Live \<Rightarrow>
   ('e engine_outcome option \<times> 'w Live) option" where
  "executeDiscovered e sched request discovery s =
     (if \<not> Profitable discovery then Some (Some (discovered_result discovery, None), s)
      else execute_attempts e sched request discovery (discovered_result discovery) s)"

definition discover :: "('p, 'e, 'w) EngineConfig \<Rightarrow> 'p LiveEvaluationRequest \<Rightarrow> 'w Live \<Rightarrow> ('e live_eval_error, LiveOpportunity) result \<times> 'w Live" where
  "discover e request s = (case on_world (en_Clock e) s of (now, s1) \<Rightarrow> (LiveEvaluate now (en_Evaluator e) request, s1))"

definition EngineEvaluate ::
  "('p, 'e, 'w) EngineConfig \<Rightarrow> (nat \<Rightarrow> attempt_schedule) \<Rightarrow> 'p LiveEvaluationRequest \<Rightarrow> 'w Live \<Rightarrow>
   (('e engine_error, 'e engine_outcome) result option \<times> 'w Live) option" where
  "EngineEvaluate e sched request s =
     (case discover e request s of
        (Inl err, s1) \<Rightarrow> Some (Some (Inl (EngineEvaluation err)), s1)
      | (Inr discovery, s1) \<Rightarrow>
          map_option (\<lambda>(out, s2). (map_option Inr out, s2)) (executeDiscovered e sched request discovery s1))"

section \<open>Batches\<close>

record BatchResult =
  bt_Discoveries :: "LiveOpportunity list"
  bt_Selected :: int
  bt_Result :: "EngineResult option"

fun discover_all ::
  "('p, 'e, 'w) EngineConfig \<Rightarrow> 'p LiveEvaluationRequest list \<Rightarrow> 'w Live \<Rightarrow> ('e live_eval_error, LiveOpportunity) result list \<times> 'w Live" where
  "discover_all e [] s = ([], s)"
| "discover_all e (r # rest) s =
     (case discover e r s of (x, s1) \<Rightarrow> case discover_all e rest s1 of (xs, s2) \<Rightarrow> (x # xs, s2))"

definition select_step :: "LiveOpportunity list \<Rightarrow> int \<Rightarrow> nat \<Rightarrow> (amount_error, int) result" where
  "select_step discoveries chosen index =
     (if \<not> Profitable (discoveries ! index) then Inr chosen
      else if chosen < 0 then Inr (int index)
      else rbind (QtyCmp (lo_NetPnL (discoveries ! index)) (lo_NetPnL (discoveries ! nat chosen))) (\<lambda>comparison.
        Inr (if comparison > 0 then int index else chosen)))"

definition execute_selected ::
  "('p, 'e, 'w) EngineConfig \<Rightarrow> (nat \<Rightarrow> attempt_schedule) \<Rightarrow> 'p LiveEvaluationRequest list \<Rightarrow> LiveOpportunity list \<Rightarrow> int \<Rightarrow> 'w Live \<Rightarrow>
   (('e engine_error, BatchResult \<times> 'e engine_error option) result option \<times> 'w Live) option" where
  "execute_selected e sched requests discoveries chosen s =
     (let batch = \<lparr>bt_Discoveries = discoveries, bt_Selected = chosen, bt_Result = None\<rparr> in
      if chosen < 0 then Some (Some (Inr (batch, None)), s)
      else map_option (\<lambda>(out, s'). (map_option (\<lambda>(result, err). Inr (batch\<lparr>bt_Result := Some result\<rparr>, err)) out, s'))
        (executeDiscovered e sched (requests ! nat chosen) (discoveries ! nat chosen) s))"

definition EvaluateBatch ::
  "('p, 'e, 'w) EngineConfig \<Rightarrow> (nat \<Rightarrow> attempt_schedule) \<Rightarrow> 'p LiveEvaluationRequest list \<Rightarrow> 'w Live \<Rightarrow>
   (('e engine_error, BatchResult \<times> 'e engine_error option) result option \<times> 'w Live) option" where
  "EvaluateBatch e sched requests s =
     (if requests = [] then Some (Some (Inl EngineEmptyBatch), s)
      else case discover_all e requests s of (rs, s1) \<Rightarrow>
        (case first_failure rs of
           Some err \<Rightarrow> Some (Some (Inl (EngineEvaluation err)), s1)
         | None \<Rightarrow>
             let discoveries = map projr rs in
             (case foldM (select_step discoveries) (-1) [0..<length discoveries] of
                Inl err \<Rightarrow> Some (Some (Inl (EngineCompare err)), s1)
              | Inr chosen \<Rightarrow> execute_selected e sched requests discoveries chosen s1)))"

definition EngineWarm :: "('p, 'e, 'w) EngineConfig \<Rightarrow> nat list \<Rightarrow> 'w Live \<Rightarrow> PortError option option \<times> 'w Live" where
  "EngineWarm e order s =
     (if en_DryRun e then (Some None, s)
      else case en_Executor e of None \<Rightarrow> (None, s) | Some executor \<Rightarrow> Warm executor order s)"

section \<open>Frame lemmas\<close>

lemma run_group_quiet:
  assumes "\<And>i s r s'. f i s = (r, s') \<Longrightarrow> extends [] s s'" and "run_group f order s = (m, s')"
  shows "extends [] s s'"
  using assms(2)
proof (induction order arbitrary: s m)
  case Nil
  then show ?case by (simp add: extends_refl)
next
  case (Cons i rest)
  obtain r s1 where step: "f i s = (r, s1)" by (cases "f i s")
  show ?case
  proof (cases r)
    case None
    then show ?thesis using Cons.prems step assms(1) [OF step] by simp
  next
    case (Some x)
    then have "\<exists>m1. run_group f rest s1 = (m1, s')" using Cons.prems step by (auto split: prod.splits option.splits)
    then show ?thesis using Cons.IH extends_quiet [OF assms(1) [OF step]] by blast
  qed
qed

lemma validate_leg_quiet: "validate_leg e oid opportunity request legs i s = (r, s') \<Longrightarrow> extends [] s s'"
  by (auto simp: validate_leg_def Let_def intro: extends_refl extends_quiet on_world_extends split: option.splits prod.splits)

lemma engine_validate_quiet:
  assumes "engine_validate e order oid plan opportunity request s = (r, s')"
  shows "extends [] s s'"
proof -
  let ?f = "validate_leg e oid opportunity request (plan_legs plan)"
  let ?order = "filter (\<lambda>i. i < length (takeWhile (\<lambda>leg. map_of (en_Validators e) (leg_Market leg) \<noteq> None) (plan_legs plan))) order"
  obtain m s1 where run: "run_group ?f ?order s = (m, s1)" by (cases "run_group ?f ?order s")
  have "s' = s1" using assms unfolding engine_validate_def Let_def run by (auto split: option.splits if_splits)
  then show ?thesis using run_group_quiet [OF validate_leg_quiet run] by simp
qed

lemma attempt_value_quiet: "attempt_value e request discovery artifacts s = (r, s') \<Longrightarrow> extends [] s s'"
  by (auto simp: attempt_value_def dest!: on_world_extends intro: extends_quiet split: prod.splits sum.splits)

lemma attempt_prepare_quiet:
  assumes "attempt_prepare e order pid oid request discovery s = (r, s')"
  shows "extends [] s s'"
proof -
  obtain now s1 where c: "on_world (en_Clock e) s = (now, s1)" by (cases "on_world (en_Clock e) s")
  note q1 = on_world_extends [OF c]
  show ?thesis
  proof (cases "Plan (en_Planner e) pid discovery now")
    case (Inl err)
    then show ?thesis using assms c q1 by (simp add: attempt_prepare_def)
  next
    case (Inr plan)
    obtain a s2 where v: "engine_validate e order oid plan discovery request s1 = (a, s2)"
      by (cases "engine_validate e order oid plan discovery request s1")
    note q2 = extends_quiet [OF q1 engine_validate_quiet [OF v]]
    show ?thesis
    proof (cases a)
      case None
      then show ?thesis using assms c Inr v q2 by (simp add: attempt_prepare_def)
    next
      case (Some artifacts)
      obtain x s3 where w: "attempt_value e request discovery artifacts s2 = (x, s3)" by (cases "attempt_value e request discovery artifacts s2")
      have "s' = s3" using assms by (auto simp: attempt_prepare_def c Inr v Some w split: option.splits sum.splits)
      then show ?thesis using extends_quiet [OF q2 attempt_value_quiet [OF w]] by simp
    qed
  qed
qed

section \<open>Executed opportunities\<close>

lemma Plan_Inr:
  assumes "Plan bindings pid opportunity now = Inr plan"
  obtains b c where "plan_legs plan =
    [bound_leg ''buy'' LegBuy b (dir_BuyMarket (lo_Direction opportunity)) (lo_BuyQuote opportunity),
     bound_leg ''sell'' LegSell c (dir_SellMarket (lo_Direction opportunity)) (lo_SellQuote opportunity)]"
  using assms by (auto simp: Plan_def NewSagaPlan_def result_simps split: option.splits if_splits)

text \<open>
  What a valuation fixes of the quotes that were validated: they are the artifacts', their inputs
  are amounts, and the profit is accounted with the final cost.
\<close>

definition revalued :: "('p, 'e, 'w) EngineConfig \<Rightarrow> 'p LiveEvaluationRequest \<Rightarrow> (StepID \<times> Artifact) list \<Rightarrow> LiveOpportunity \<Rightarrow> bool" where
  "revalued e request artifacts validated \<longleftrightarrow>
     map_option art_ValidatedQuote (map_of artifacts ''buy'') = Some (lo_BuyQuote validated) \<and>
     map_option art_ValidatedQuote (map_of artifacts ''sell'') = Some (lo_SellQuote validated) \<and>
     0 < amt_units (q_AmountIn (lo_BuyQuote validated)) \<and> 0 < amt_units (q_AmountIn (lo_SellQuote validated)) \<and>
     lo_Threshold validated = lr_Threshold request \<and>
     (\<exists>tokens cost. live_accounts tokens (request\<lparr>lr_Cost := cost\<rparr>) validated)"

lemma ToTokenAmount_nonneg: "ToTokenAmount q token = Inr a \<Longrightarrow> 0 \<le> amt_units a"
  unfolding ToTokenAmount_Inr by (simp add: decimalFactor_def)

lemma LiveValue_revalued:
  fixes e :: "('p, 'e, 'w) EngineConfig"
  assumes "LiveValue now (en_Evaluator e) (request\<lparr>lr_Cost := cost\<rparr>) (art_ValidatedQuote buy) (art_ValidatedQuote sell) now' = Inr validated"
    and "map_of artifacts ''buy'' = Some buy" and "map_of artifacts ''sell'' = Some sell"
  shows "revalued e request artifacts validated"
proof (rule LiveValue_Inr [OF assms(1)])
  fix buyInput sellInput tokens snapshots
  assume inputs: "live_inputs (en_Evaluator e) (request\<lparr>lr_Cost := cost\<rparr>) = Inr (buyInput, sellInput, tokens, snapshots)"
    and rest: "q_AmountIn (art_ValidatedQuote buy) = buyInput" "q_AmountIn (art_ValidatedQuote sell) = sellInput"
      "lo_BuyQuote validated = art_ValidatedQuote buy" "lo_SellQuote validated = art_ValidatedQuote sell"
      "live_accounts tokens (request\<lparr>lr_Cost := cost\<rparr>) validated" "lo_Threshold validated = lr_Threshold (request\<lparr>lr_Cost := cost\<rparr>)"
  note i = live_inputs_Inr(3-6) [OF inputs]
  note ToTokenAmount_nonneg [OF i(1)] ToTokenAmount_nonneg [OF i(2)]
  then show ?thesis unfolding revalued_def using i(3,4) rest assms(2,3) by fastforce
qed

lemma attempt_value_revalued:
  assumes "attempt_value e request discovery artifacts s = (Some (Inr validated), s')"
  shows "revalued e request artifacts validated"
  using assms by (auto simp: attempt_value_def map_err_def intro: LiveValue_revalued split: prod.splits sum.splits option.splits)

lemma attempt_prepare_revalued:
  assumes "attempt_prepare e order pid oid request discovery s = (Inr (artifacts, validated), s')"
  shows "revalued e request artifacts validated"
  using assms by (auto simp: attempt_prepare_def intro: attempt_value_revalued split: prod.splits sum.splits option.splits)

text \<open>
  An executed operation: the legs of a plan for the validated opportunity had their inputs
  reserved, the operation was committed with the reservation before its legs were broadcast.
\<close>

definition executed_durably :: "('p, 'e, 'w) EngineConfig \<Rightarrow> LiveOpportunity \<Rightarrow> 'w Live \<Rightarrow> 'w Live \<Rightarrow> bool" where
  "executed_durably e validated s s' \<longleftrightarrow>
     (\<exists>pid oid now plan operation reservation i' prepared sent evs.
        lv_gate s = [] \<and> Plan (en_Planner e) pid validated now = Inr plan \<and>
        Reserve oid oid (map input_requirement (plan_legs plan)) (lv_inventory s) = (Inr reservation, i') \<and>
        opn_ID operation = oid \<and> map os_Leg (opn_Steps operation) = plan_legs plan \<and>
        map os_Identity (opn_Steps operation) = map pt_Identity prepared \<and> ValidatePrepared operation = None \<and>
        mset sent = mset prepared \<and> list_all bookkeeping evs \<and>
        lv_trace s' = lv_trace s @ LvCommitted operation reservation # map LvBroadcast sent @ evs \<and>
        (lv_inventory s' = i' \<and> lv_gate s' = oid \<or> lv_inventory s' = lv_inventory s \<and> lv_gate s' = []))"

lemma executed_durably_quiet: "extends [] s t \<Longrightarrow> executed_durably e validated t s' \<Longrightarrow> executed_durably e validated s s'"
  by (simp add: extends_def executed_durably_def)

text \<open>The identifiers name no reservation, and the broadcasts of both legs take effect in some order.\<close>

definition fresh_start :: "('p, 'e, 'w) EngineConfig \<Rightarrow> (nat \<Rightarrow> attempt_schedule) \<Rightarrow> 'w Live \<Rightarrow> bool" where
  "fresh_start e sched s \<longleftrightarrow> inv_reachable (lv_inventory s) \<and>
     (\<forall>w. reservations (lv_inventory s) (fst (en_ID e ''operation'' w)) = None) \<and> (\<forall>n. is_schedule 2 (as_broadcasting (sched n)))"

lemma fresh_start_quiet: "extends [] s t \<Longrightarrow> fresh_start e sched s \<Longrightarrow> fresh_start e sched t"
  by (simp add: extends_def fresh_start_def)

lemma attempt_execute_outcome:
  assumes "fresh_start e sched s" and "reservations (lv_inventory s) oid = None" and "revalued e request artifacts' validated"
    and "attempt_execute e (sched n) pid oid validated artifacts s = (Some out, s')"
  shows "extends [] s s' \<or> executed_durably e validated s s' \<and> (\<forall>executed. out \<noteq> Inr (executed, Some LiveTooOld))"
proof -
  obtain now s1 where c: "on_world (en_Clock e) s = (now, s1)" by (cases "on_world (en_Clock e) s")
  note q1 = on_world_extends [OF c]
  show ?thesis
  proof (cases "Plan (en_Planner e) pid validated now")
    case (Inl err)
    then show ?thesis using assms(4) c q1 by (auto simp: attempt_execute_def)
  next
    case (Inr plan)
    then obtain x executed err where x: "out = Inr (executed, err)"
        "ExecuteLive x (as_preparing (sched n)) (as_broadcasting (sched n)) oid plan artifacts s1 = (Some (executed, err), s')"
      using assms(4) c by (auto simp: attempt_execute_def split: option.splits prod.splits)
    from Plan_Inr [OF Inr] obtain b c where legs: "plan_legs plan =
        [bound_leg ''buy'' LegBuy b (dir_BuyMarket (lo_Direction validated)) (lo_BuyQuote validated),
         bound_leg ''sell'' LegSell c (dir_SellMarket (lo_Direction validated)) (lo_SellQuote validated)]" .
    have start: "inv_reachable (lv_inventory s1)" "reservations (lv_inventory s1) oid = None"
      "\<forall>leg \<in> set (plan_legs plan). 0 \<le> amt_units (leg_Input leg)" "is_schedule (length (plan_legs plan)) (as_broadcasting (sched n))"
      using assms(1-3) q1 by (simp_all add: extends_def fresh_start_def legs bound_leg_def revalued_def numeral_2_eq_2)
    show ?thesis
    proof (cases "err = Some LiveTooOld")
      case True
      then show ?thesis using execute_too_old [OF start(1-3)] x q1 extends_quiet by blast
    next
      case False
      from execute_live_outcome [OF start x(2)] consider "extends [] s1 s'"
        | operation reservation i' prepared evs sent where "lv_gate s1 = []"
          "Reserve oid oid (map input_requirement (plan_legs plan)) (lv_inventory s1) = (Inr reservation, i')"
          "opn_ID operation = oid" "map os_Leg (opn_Steps operation) = plan_legs plan"
          "map os_Identity (opn_Steps operation) = map pt_Identity prepared" "ValidatePrepared operation = None" "mset sent = mset prepared"
          "lv_trace s' = lv_trace s1 @ LvCommitted operation reservation # map LvBroadcast sent @ evs" "list_all bookkeeping evs"
          "lv_inventory s' = i' \<and> lv_gate s' = oid \<or> lv_inventory s' = lv_inventory s1 \<and> lv_gate s' = []"
        unfolding extends_def journal_after_def by (elim disjE exE conjE) (simp, cases "err = Some LiveNoExecution", simp_all)
      then show ?thesis
      proof cases
        case 1
        then show ?thesis using q1 extends_quiet by blast
      next
        case 2
        then have "executed_durably e validated s1 s'" unfolding executed_durably_def using Inr by blast
        then show ?thesis using executed_durably_quiet [OF q1] x(1) False by blast
      qed
    qed
  qed
qed

text \<open>What the engine returns for a discovered opportunity.\<close>

definition executed_validated :: "('p, 'e, 'w) EngineConfig \<Rightarrow> 'p LiveEvaluationRequest \<Rightarrow> EngineResult \<Rightarrow> 'w Live \<Rightarrow> 'w Live \<Rightarrow> bool" where
  "executed_validated e request result s s' \<longleftrightarrow> \<not> en_DryRun e \<and>
     (\<exists>validated. rs_Validated result = Some validated \<and> Profitable validated \<and>
        revalued e request (rs_Artifacts result) validated \<and> executed_durably e validated s s')"

lemma executed_validated_quiet:
  "extends [] s t \<Longrightarrow> executed_validated e request result t s' \<Longrightarrow> executed_validated e request result s s'"
  using executed_durably_quiet by (auto simp: executed_validated_def)

lemma discovered_attempt_outcome:
  assumes start: "fresh_start e sched s"
    and run: "discovered_attempt e (sched n) request discovery result s = (Some out, s')"
  shows "extends [] s s' \<or> (\<exists>result' err. out = Inl (result', err) \<and> executed_validated e request result' s s')"
proof -
  obtain pid s1 where c1: "on_world (en_ID e ''plan'') s = (pid, s1)" by (cases "on_world (en_ID e ''plan'') s")
  obtain oid s2 where c2: "on_world (en_ID e ''operation'') s1 = (oid, s2)" by (cases "on_world (en_ID e ''operation'') s1")
  obtain r s3 where c3: "attempt_prepare e (as_validating (sched n)) pid oid request discovery s2 = (r, s3)"
    by (cases "attempt_prepare e (as_validating (sched n)) pid oid request discovery s2")
  note q2 = extends_quiet [OF on_world_extends [OF c1] on_world_extends [OF c2]]
  note q3 = extends_quiet [OF q2 attempt_prepare_quiet [OF c3]]
  note run' = run [unfolded discovered_attempt_def c1 prod.case c2 c3]
  show ?thesis
  proof (cases r)
    case (Inl a)
    then show ?thesis using run' q3 by (cases a) simp_all
  next
    case (Inr p)
    obtain artifacts validated where p: "p = (artifacts, validated)" by (cases p)
    let ?valued = "result\<lparr>rs_Validated := Some validated, rs_Artifacts := artifacts\<rparr>"
    have valued: "revalued e request artifacts validated" using attempt_prepare_revalued c3 Inr p by blast
    show ?thesis
    proof (cases "\<not> Profitable validated \<or> en_DryRun e")
      case True
      then show ?thesis using run' q3 by (simp add: Inr p)
    next
      case False
      obtain y s4 where y: "attempt_execute e (sched n) pid oid validated artifacts s3 = (y, s4)"
        by (cases "attempt_execute e (sched n) pid oid validated artifacts s3")
      have live: "Profitable validated" "\<not> en_DryRun e" using False by simp_all
      have "(case y of None \<Rightarrow> (None, s4) | Some x \<Rightarrow> (Some (conclude_attempt e ?valued x s4), s4)) = (Some out, s')"
        using run' unfolding Inr p Let_def sum.case prod.case y by (simp only: live if_False simp_thms)
      then have "\<exists>x. y = Some x \<and> conclude_attempt e ?valued x s4 = out \<and> s4 = s'" by (cases y) auto
      then obtain x where x: "attempt_execute e (sched n) pid oid validated artifacts s3 = (Some x, s4)"
          "out = conclude_attempt e ?valued x s4" "s' = s4"
        using y by blast
      have "oid = fst (en_ID e ''operation'' (lv_world s1))" using c2 by (simp add: on_world_def split: prod.splits)
      then have "reservations (lv_inventory s3) oid = None" using start q3 by (simp add: fresh_start_def extends_def)
      from attempt_execute_outcome [OF fresh_start_quiet [OF q3 start] this valued x(1)]
      consider "extends [] s s'" | "executed_durably e validated s s'" "\<forall>executed. x \<noteq> Inr (executed, Some LiveTooOld)"
        using extends_quiet [OF q3] executed_durably_quiet [OF q3] x(3) by blast
      then show ?thesis
      proof cases
        case 2
        then have "\<exists>result' err. out = Inl (result', err) \<and> rs_Validated result' = Some validated \<and> rs_Artifacts result' = artifacts"
          unfolding x(2) by (auto simp: conclude_attempt_def split: sum.splits prod.splits)
        then show ?thesis using 2(1) valued False by (auto simp: executed_validated_def)
      qed simp
    qed
  qed
qed

lemma execute_attempts_outcome:
  assumes "execute_attempts e sched request discovery result0 s0 = Some out0" and "fresh_start e sched s0" and "out0 = (Some (result, err), s')"
  shows "extends [] s0 s' \<or> executed_validated e request result s0 s'"
  using assms
proof (induction rule: execute_attempts.raw_induct [rotated 1, consumes 1, case_names step])
  case (step f e sched request discovery result0 s0 out0)
  let ?n = "Suc (rs_Attempts result0)"
  obtain x s1 where x: "discovered_attempt e (sched ?n) request discovery (result0\<lparr>rs_Attempts := ?n\<rparr>) s0 = (x, s1)"
    by (cases "discovered_attempt e (sched ?n) request discovery (result0\<lparr>rs_Attempts := ?n\<rparr>) s0")
  note run = step.hyps [unfolded x]
  from run step.prems(2) obtain y where y: "x = Some y" by (cases x) auto
  note out = discovered_attempt_outcome [OF step.prems(1) x [unfolded y]]
  show ?case
  proof (cases y)
    case (Inl o1)
    then have "o1 = (result, err)" "s1 = s'" using run step.prems(2) by (simp_all add: y)
    then show ?thesis using out Inl by auto
  next
    case (Inr result1)
    then have q: "extends [] s0 s1" using out by simp
    have "f e sched request discovery result1 s1 = Some out0" using run by (simp add: y Inr)
    from step.IH [OF this fresh_start_quiet [OF q step.prems(1)] step.prems(2)] show ?thesis
      using extends_quiet [OF q] executed_validated_quiet [OF q] by blast
  qed
qed

lemma executeDiscovered_outcome:
  assumes "executeDiscovered e sched request discovery s = Some (Some (result, err), s')" and "fresh_start e sched s"
  shows "extends [] s s' \<or> Profitable discovery \<and> executed_validated e request result s s'"
proof (cases "Profitable discovery")
  case True
  with assms(1) have "execute_attempts e sched request discovery (discovered_result discovery) s = Some (Some (result, err), s')"
    by (simp add: executeDiscovered_def)
  from execute_attempts_outcome [OF this assms(2) refl] show ?thesis using True by simp
next
  case False
  then show ?thesis using assms(1) by (simp add: executeDiscovered_def extends_refl)
qed

text \<open>The loop ends as soon as the context is done: then an expired artifact is not retried.\<close>

lemma executeDiscovered_returns:
  assumes "\<And>w. en_Context e w"
  shows "\<exists>out. executeDiscovered e sched request discovery s = Some out"
proof -
  have no: False if "discovered_attempt e orders request discovery result s = (Some (Inr result'), s')" for orders result result' s'
    using that assms by (auto simp: discovered_attempt_def conclude_attempt_def Let_def split: prod.splits sum.splits option.splits if_splits)
  show ?thesis
    by (subst executeDiscovered_def, subst execute_attempts.simps) (auto dest: no split: prod.splits option.splits sum.splits)
qed

section \<open>The best of a batch\<close>

definition best_discovery :: "LiveOpportunity list \<Rightarrow> nat \<Rightarrow> int \<Rightarrow> bool" where
  "best_discovery ds n c \<longleftrightarrow>
     c = -1 \<and> (\<forall>j < n. \<not> Profitable (ds ! j)) \<or>
     (\<exists>k < n. c = int k \<and> Profitable (ds ! k) \<and> (\<forall>j < n. Profitable (ds ! j) \<longrightarrow> qty_value (lo_NetPnL (ds ! j)) \<le> qty_value (lo_NetPnL (ds ! k))))"

lemma select_step_best:
  assumes "best_discovery ds n c" and "select_step ds c n = Inr c'"
  shows "best_discovery ds (Suc n) c'"
proof (cases "Profitable (ds ! n)")
  case False
  then show ?thesis using assms by (auto simp: best_discovery_def select_step_def less_Suc_eq)
next
  case True
  show ?thesis
  proof (cases "c < 0")
    case True
    then show ?thesis using assms \<open>Profitable (ds ! n)\<close> by (auto simp: best_discovery_def select_step_def less_Suc_eq)
  next
    case False
    then obtain k where k: "k < n" "c = int k" "Profitable (ds ! k)"
        "\<forall>j < n. Profitable (ds ! j) \<longrightarrow> qty_value (lo_NetPnL (ds ! j)) \<le> qty_value (lo_NetPnL (ds ! k))"
      using assms(1) by (auto simp: best_discovery_def)
    have "c' = (if qty_value (lo_NetPnL (ds ! n)) > qty_value (lo_NetPnL (ds ! k)) then int n else int k)"
      using assms(2) True k(2) by (auto simp: select_step_def QtyCmp_Inr rbind_eq_Inr split: if_splits)
    then show ?thesis using k True unfolding best_discovery_def by (auto simp: less_Suc_eq split: if_splits dest: order.strict_implies_order order_trans)
  qed
qed

lemma selection_best:
  "foldM (select_step ds) (-1) [0..<n] = Inr c \<Longrightarrow> best_discovery ds n c"
proof (induction n arbitrary: c)
  case 0
  then show ?case by (simp add: best_discovery_def)
next
  case (Suc n)
  then obtain c0 where c0: "foldM (select_step ds) (-1) [0..<n] = Inr c0" "foldM (select_step ds) c0 [n] = Inr c"
    by (auto simp: foldM_append rbind_eq_Inr simp del: foldM.simps)
  then have "select_step ds c0 n = Inr c" by (cases "select_step ds c0 n") simp_all
  with Suc.IH [OF c0(1)] show ?case by (rule select_step_best)
qed

lemma discover_all_quiet:
  "discover_all e requests s = (rs, s') \<Longrightarrow> extends [] s s' \<and> length rs = length requests"
proof (induction requests arbitrary: s rs s')
  case Nil
  then show ?case by (simp add: extends_refl)
next
  case (Cons r rest)
  obtain x s1 where x: "discover e r s = (x, s1)" by (cases "discover e r s")
  obtain xs s2 where xs: "discover_all e rest s1 = (xs, s2)" by (cases "discover_all e rest s1")
  have "extends [] s s1" using x by (auto simp: discover_def intro: on_world_extends split: prod.splits)
  then show ?case using Cons.prems Cons.IH [OF xs] extends_quiet x xs by auto
qed

section \<open>Properties\<close>


section \<open>Witnesses\<close>

definition engine_policies :: "(Key \<times> BalancePolicy) list" where
  "engine_policies = map (\<lambda>(c, a, tk). (live_key c a tk,
     \<lparr>pol_WalletBalance = live_amount tk 500, pol_AllocationCap = live_amount tk 500, pol_Target = live_amount tk 500,
      pol_Buffer = live_amount tk 0, pol_InFlightOut = live_amount tk 0\<rparr>))
     [(''c'', ''a'', ''x''), (''c'', ''a'', ''y''), (''d'', ''e'', ''x''), (''d'', ''e'', ''y'')]"

definition engine_start :: "unit Live" where
  "engine_start = \<lparr>lv_world = (), lv_gate = [], lv_inventory = projr (NewWithPolicies engine_policies), lv_trace = []\<rparr>"

definition sample_validator :: "(unit, unit) Validator" where
  "sample_validator r w = (Inr \<lparr>art_Leg = vr_Leg r, art_ValidatedQuote = vr_Discovery r, art_Allocation = None,
     art_Payload = [], art_Metadata = [], art_BuiltAt = 9, art_Blockhash = [], art_LastValidBlockHeight = 0\<rparr>, w)"

definition sample_engine :: "bool \<Rightarrow> (unit, unit, unit) EngineConfig" where
  "sample_engine dry = \<lparr>en_Evaluator = pr_live (fst (sample_prefunded 100 50)),
     en_Planner = [(''m'', \<lparr>lb_Chain = ''c'', lb_Account = ''a''\<rparr>), (''n'', \<lparr>lb_Chain = ''d'', lb_Account = ''e''\<rparr>)],
     en_Executor = Some (live_executor BroadcastAccepted), en_Validators = [(''m'', sample_validator), (''n'', sample_validator)],
     en_Costs = (\<lambda>_ w. (Inr (y_qty 7), w)), en_Clock = (\<lambda>w. (10, w)), en_ID = (\<lambda>prefix w. (prefix, w)),
     en_DryRun = dry, en_Context = (\<lambda>_. False)\<rparr>"

definition sample_schedule :: "nat \<Rightarrow> attempt_schedule" where
  "sample_schedule n = \<lparr>as_validating = [0, 1], as_preparing = [1, 0], as_broadcasting = [1, 0]\<rparr>"

definition engine_batch :: "bool \<Rightarrow> ((unit engine_error, BatchResult \<times> unit engine_error option) result option \<times> unit Live) option" where
  "engine_batch dry = EvaluateBatch (sample_engine dry) sample_schedule
     [sample_live_request, sample_live_request\<lparr>lr_ID := ''j'', lr_Direction := \<lparr>dir_BuyMarket = ''n'', dir_SellMarket = ''m''\<rparr>,
        lr_MaximumBaseExposure := \<lparr>qty_asset = ''X'', qty_value = 200\<rparr>\<rparr>] engine_start"

lemma engine_batch_run: "\<exists>batch s'. engine_batch True = Some (Some (Inr (batch, None)), s') \<and> bt_Selected batch = 1"
proof -
  have run: "map_option (\<lambda>r. map_option (\<lambda>x. rbind x (\<lambda>p. Inr (bt_Selected (fst p), snd p))) (fst r)) (engine_batch True) = Some (Some (Inr (1, None)))"
    by code_simp
  then obtain r s' where r: "engine_batch True = Some (r, s')" by (cases "engine_batch True") auto
  with run obtain x where "r = Some x" "rbind x (\<lambda>p. Inr (bt_Selected (fst p), snd p)) = Inr (1, None)" by (cases r) auto
  then show ?thesis using r by (cases x) auto
qed

lemma engine_start_fresh: "fresh_start (sample_engine dry) sample_schedule engine_start"
proof -
  have new: "is_ok (NewWithPolicies engine_policies)" and fresh: "reservations (lv_inventory engine_start) ''operation'' = None" by code_simp+
  have "policies_wf engine_policies" by (simp add: engine_policies_def live_amount_def policies_wf_def)
  moreover have "NewWithPolicies engine_policies = Inr (lv_inventory engine_start)"
    using new by (auto simp: is_ok_def engine_start_def split: sum.splits)
  ultimately show ?thesis using fresh
    by (auto simp: fresh_start_def sample_engine_def sample_schedule_def is_schedule_def intro: reach_new)
qed


end
