(* ===== verification/Restoration_Gate.thy ===== *)
theory Restoration_Gate
  imports Window_Store
begin

text \<open>
  The gate that admits operations while inventories are being restored,
  \<open>src/core/live/restoration_gate.go\<close>. The methods hold the mutex of the gate throughout, so that
  concurrent calls take effect one after the other: a run of the gate is a list of calls. The
  pending quote restorations are a map to empty structs and so a set; the order in which
  \<open>Snapshot\<close> iterates over it is an argument.
\<close>

section \<open>The gate\<close>

definition MaximumPendingQuoteReturns :: nat where
  "MaximumPendingQuoteReturns = 2"

record RestorationGate =
  rg_basePending :: bool
  rg_quotePending :: "string set"
  rg_coalesced :: "TriggerMetadata option"

record RestorationSnapshot =
  rn_BasePending :: bool
  rn_QuoteJobs :: "string list"

datatype gate_error =
    GateCapacity
  | GateIdentityEmpty
  | GateIdentityDuplicated
  | GateBasePending
  | GateQuoteCapacity
  | GateTrigger window_error

definition install_job :: "string set \<Rightarrow> string \<Rightarrow> (gate_error, string set) result" where
  "install_job pending job =
     (if job = [] then Inl GateIdentityEmpty
      else if job \<in> pending then Inl GateIdentityDuplicated
      else Inr (insert job pending))"

definition NewRestorationGate :: "RestorationSnapshot \<Rightarrow> (gate_error, RestorationGate) result" where
  "NewRestorationGate snapshot =
     (if length (rn_QuoteJobs snapshot) > MaximumPendingQuoteReturns then Inl GateCapacity
      else rbind (foldM install_job {} (rn_QuoteJobs snapshot)) (\<lambda>pending.
        Inr \<lparr>rg_basePending = rn_BasePending snapshot, rg_quotePending = pending, rg_coalesced = None\<rparr>))"

definition CanEvaluate :: "bool \<Rightarrow> RestorationGate \<Rightarrow> bool" where
  "CanEvaluate quoteInventoryAvailable g \<longleftrightarrow>
     \<not> rg_basePending g \<and> quoteInventoryAvailable \<and> card (rg_quotePending g) < MaximumPendingQuoteReturns"

definition BeginOperation :: "RestorationGate \<Rightarrow> gate_error option \<times> RestorationGate" where
  "BeginOperation g =
     (if rg_basePending g then (Some GateBasePending, g)
      else if card (rg_quotePending g) \<ge> MaximumPendingQuoteReturns then (Some GateQuoteCapacity, g)
      else (None, g\<lparr>rg_basePending := True\<rparr>))"

definition StartQuoteReturn :: "string \<Rightarrow> RestorationGate \<Rightarrow> gate_error option \<times> RestorationGate" where
  "StartQuoteReturn job g =
     (if job = [] then (Some GateIdentityEmpty, g)
      else if job \<in> rg_quotePending g then (None, g)
      else if card (rg_quotePending g) \<ge> MaximumPendingQuoteReturns then (Some GateQuoteCapacity, g)
      else (None, g\<lparr>rg_quotePending := insert job (rg_quotePending g)\<rparr>))"

definition CompleteBaseReturn :: "RestorationGate \<Rightarrow> RestorationGate" where
  "CompleteBaseReturn g = g\<lparr>rg_basePending := False\<rparr>"

definition CompleteQuoteReturn :: "string \<Rightarrow> RestorationGate \<Rightarrow> bool \<times> RestorationGate" where
  "CompleteQuoteReturn job g =
     (if job \<notin> rg_quotePending g then (False, g)
      else (True, g\<lparr>rg_quotePending := rg_quotePending g - {job}\<rparr>))"

definition Coalesce :: "TriggerMetadata \<Rightarrow> RestorationGate \<Rightarrow> gate_error option \<times> RestorationGate" where
  "Coalesce trigger g =
     (case TriggerValidate trigger of
        Some err \<Rightarrow> (Some (GateTrigger err), g)
      | None \<Rightarrow> (None, g\<lparr>rg_coalesced := Some trigger\<rparr>))"

definition TakeFreshEvaluationRequest :: "bool \<Rightarrow> gotime \<Rightarrow> RestorationGate \<Rightarrow> TriggerMetadata option \<times> RestorationGate" where
  "TakeFreshEvaluationRequest quoteInventoryAvailable now g =
     (case rg_coalesced g of
        None \<Rightarrow> (None, g)
      | Some trigger \<Rightarrow>
          if rg_basePending g \<or> \<not> quoteInventoryAvailable \<or> card (rg_quotePending g) \<ge> MaximumPendingQuoteReturns \<or> IsZeroTime now
          then (None, g)
          else (Some trigger, g\<lparr>rg_coalesced := None\<rparr>))"

definition RestorationSnapshotOf :: "string list \<Rightarrow> RestorationGate \<Rightarrow> RestorationSnapshot" where
  "RestorationSnapshotOf order g = \<lparr>rn_BasePending = rg_basePending g, rn_QuoteJobs = filter (\<lambda>job. job \<in> rg_quotePending g) order\<rparr>"

section \<open>Runs\<close>

datatype gate_call =
    CallBegin
  | CallStartQuote string
  | CallCompleteBase
  | CallCompleteQuote string
  | CallCoalesce TriggerMetadata
  | CallTake bool gotime

datatype gate_reply =
    ReplyError "gate_error option"
  | ReplyDone
  | ReplyFound bool
  | ReplyTrigger "TriggerMetadata option"

definition apply_call :: "gate_call \<Rightarrow> RestorationGate \<Rightarrow> gate_reply \<times> RestorationGate" where
  "apply_call c g =
     (case c of
        CallBegin \<Rightarrow> apfst ReplyError (BeginOperation g)
      | CallStartQuote job \<Rightarrow> apfst ReplyError (StartQuoteReturn job g)
      | CallCompleteBase \<Rightarrow> (ReplyDone, CompleteBaseReturn g)
      | CallCompleteQuote job \<Rightarrow> apfst ReplyFound (CompleteQuoteReturn job g)
      | CallCoalesce trigger \<Rightarrow> apfst ReplyError (Coalesce trigger g)
      | CallTake available now \<Rightarrow> apfst ReplyTrigger (TakeFreshEvaluationRequest available now g))"

inductive gate_runs :: "RestorationGate \<Rightarrow> (gate_call \<times> gate_reply) list \<Rightarrow> RestorationGate \<Rightarrow> bool" where
  runs_refl: "gate_runs g [] g"
| runs_step: "gate_runs g calls h \<Longrightarrow> apply_call c h = (r, h') \<Longrightarrow> gate_runs g (calls @ [(c, r)]) h'"

lemmas gate_ops = BeginOperation_def StartQuoteReturn_def CompleteBaseReturn_def CompleteQuoteReturn_def Coalesce_def
  TakeFreshEvaluationRequest_def

section \<open>Invariant\<close>

definition gate_ok :: "RestorationGate \<Rightarrow> bool" where
  "gate_ok g \<longleftrightarrow> finite (rg_quotePending g) \<and> card (rg_quotePending g) \<le> MaximumPendingQuoteReturns \<and> [] \<notin> rg_quotePending g \<and>
     (\<forall>trigger. rg_coalesced g = Some trigger \<longrightarrow> TriggerValidate trigger = None)"

lemma install_jobs_Inr:
  "foldM install_job pending jobs = Inr pending' \<longleftrightarrow>
     pending' = pending \<union> set jobs \<and> [] \<notin> set jobs \<and> distinct jobs \<and> pending \<inter> set jobs = {}"
  by (induction jobs arbitrary: pending) (auto simp: install_job_def)

lemma NewRestorationGate_Inr:
  "NewRestorationGate snapshot = Inr g \<longleftrightarrow>
     length (rn_QuoteJobs snapshot) \<le> MaximumPendingQuoteReturns \<and> [] \<notin> set (rn_QuoteJobs snapshot) \<and> distinct (rn_QuoteJobs snapshot) \<and>
     g = \<lparr>rg_basePending = rn_BasePending snapshot, rg_quotePending = set (rn_QuoteJobs snapshot), rg_coalesced = None\<rparr>"
  by (auto simp: NewRestorationGate_def rbind_eq_Inr install_jobs_Inr)

lemma new_gate_ok: "NewRestorationGate snapshot = Inr g \<Longrightarrow> gate_ok g"
  by (auto simp: NewRestorationGate_Inr gate_ok_def distinct_card)

lemma gate_call_ok: "gate_ok g \<Longrightarrow> apply_call c g = (r, g') \<Longrightarrow> gate_ok g'"
  by (cases c) (auto simp: apply_call_def gate_ops gate_ok_def card_insert_if card_Diff_singleton_if split: if_splits option.splits)

text \<open>Operations begun and base restorations completed in a run.\<close>

definition begun :: "(gate_call \<times> gate_reply) list \<Rightarrow> nat" where
  "begun calls = length (filter (\<lambda>x. x = (CallBegin, ReplyError None)) calls)"

definition restored :: "(gate_call \<times> gate_reply) list \<Rightarrow> nat" where
  "restored calls = length (filter (\<lambda>x. fst x = CallCompleteBase) calls)"

lemma gate_call_flight:
  assumes "apply_call c g = (r, g')"
  shows "begun [(c, r)] + of_bool (rg_basePending g) \<le> restored [(c, r)] + of_bool (rg_basePending g')"
  using assms by (cases c) (auto simp: apply_call_def gate_ops begun_def restored_def split: if_splits option.splits)

lemma gate_runs_ok:
  assumes "gate_runs g calls h" and "gate_ok g"
  shows "gate_ok h \<and> begun calls + of_bool (rg_basePending g) \<le> restored calls + of_bool (rg_basePending h)"
  using assms
proof (induction rule: gate_runs.induct)
  case (runs_step g calls h c r h')
  then show ?case using gate_call_ok gate_call_flight [OF runs_step.hyps(2)] by (auto simp: begun_def restored_def)
qed (simp add: begun_def)

lemma snapshot_restores:
  assumes "gate_ok g" and "distinct order" and "rg_quotePending g \<subseteq> set order"
  shows "NewRestorationGate (RestorationSnapshotOf order g) = Inr (g\<lparr>rg_coalesced := None\<rparr>)"
proof -
  let ?jobs = "filter (\<lambda>job. job \<in> rg_quotePending g) order"
  have jobs: "set ?jobs = rg_quotePending g" "distinct ?jobs" using assms(2,3) by auto
  have "length ?jobs = card (rg_quotePending g)" using distinct_card [OF jobs(2)] jobs(1) by simp
  then show ?thesis using assms(1) jobs unfolding NewRestorationGate_Inr by (simp add: RestorationSnapshotOf_def gate_ok_def)
qed

section \<open>Properties\<close>


section \<open>Witnesses\<close>

definition sample_gate :: RestorationGate where
  "sample_gate = \<lparr>rg_basePending = False, rg_quotePending = {''j''}, rg_coalesced = None\<rparr>"

definition sample_gate_calls :: "(gate_call \<times> gate_reply) list" where
  "sample_gate_calls = [(CallBegin, ReplyError None), (CallBegin, ReplyError (Some GateBasePending)),
     (CallStartQuote ''k'', ReplyError None), (CallCompleteBase, ReplyDone), (CallBegin, ReplyError (Some GateQuoteCapacity))]"

lemma sample_gate_run: "gate_runs sample_gate sample_gate_calls (sample_gate\<lparr>rg_quotePending := {''j'', ''k''}\<rparr>)"
proof -
  let ?pending = "sample_gate\<lparr>rg_basePending := True\<rparr>" and ?full = "sample_gate\<lparr>rg_quotePending := {''k'', ''j''}\<rparr>"
  have "gate_runs sample_gate [(CallBegin, ReplyError None)] ?pending"
    using runs_step [OF runs_refl [of sample_gate], of CallBegin "ReplyError None" ?pending]
    by (simp add: apply_call_def BeginOperation_def sample_gate_def MaximumPendingQuoteReturns_def)
  from runs_step [OF this, of CallBegin "ReplyError (Some GateBasePending)" ?pending]
  have "gate_runs sample_gate (take 2 sample_gate_calls) ?pending"
    by (simp add: apply_call_def BeginOperation_def sample_gate_calls_def)
  from runs_step [OF this, of "CallStartQuote ''k''" "ReplyError None" "?full\<lparr>rg_basePending := True\<rparr>"]
  have "gate_runs sample_gate (take 3 sample_gate_calls) (?full\<lparr>rg_basePending := True\<rparr>)"
    by (simp add: apply_call_def StartQuoteReturn_def sample_gate_calls_def sample_gate_def MaximumPendingQuoteReturns_def)
  from runs_step [OF this, of CallCompleteBase ReplyDone ?full]
  have "gate_runs sample_gate (take 4 sample_gate_calls) ?full"
    by (simp add: apply_call_def CompleteBaseReturn_def sample_gate_calls_def sample_gate_def)
  from runs_step [OF this, of CallBegin "ReplyError (Some GateQuoteCapacity)" ?full]
  show ?thesis
    by (simp add: apply_call_def BeginOperation_def sample_gate_calls_def sample_gate_def MaximumPendingQuoteReturns_def insert_commute)
qed


end
