(* ===== verification/Costing.thy ===== *)
theory Costing
  imports Arbitrage_Types
begin

text \<open>
  The cost sources, \<open>src/core/costing\<close>: conversions between quote tokens that a worker refreshes
  from a provider, the book that reads them and projects them on equivalent tokens, fixed costs,
  and prices with a fallback.

  A worker is its configuration and the last response. A refresh is one step that takes the answer
  of the provider and the time it arrived; its callbacks are returned as a trace. The loop of
  \<open>Run\<close> is a sequence of refreshes, the timers between them carry no state.
\<close>

section \<open>Conversion workers\<close>

record QuoteConversionWorkerConfig =
  wc_Provider :: "SourceID option"
  wc_Input :: TokenAmount
  wc_OutputToken :: TokenID
  wc_RefreshInterval :: duration
  wc_InitialDelay :: duration
  wc_TTL :: duration

record QuoteConversionWorker =
  cw_provider :: SourceID
  cw_input :: TokenAmount
  cw_outputToken :: TokenID
  cw_TTL :: duration
  cw_current :: QuoteConversionSnapshot
  cw_err :: "string option"

datatype costing_error =
    WorkerIncomplete
  | WorkerProvider string
  | WorkerSnapshot quote_error
  | ConversionStaleCache
  | BookDuplicateWorker
  | BookAlias
  | BookDuplicateAlias
  | FixedIncomplete
  | CostTimestamp
  | FallbackIncomplete

datatype worker_notice = NoticeError string | NoticeSuccess QuoteConversionSnapshot | NoticeUpdate

definition no_conversion :: QuoteConversionSnapshot where
  "no_conversion = \<lparr>qc_Provider = [], qc_Input = \<lparr>amt_token = [], amt_units = 0\<rparr>, qc_Output = \<lparr>amt_token = [], amt_units = 0\<rparr>,
     qc_ReceivedAt = 0, qc_ExpiresAt = 0, qc_Signature = []\<rparr>"

definition NewQuoteConversionWorker :: "QuoteConversionWorkerConfig \<Rightarrow> (costing_error, QuoteConversionWorker) result" where
  "NewQuoteConversionWorker config =
     (case wc_Provider config of
        None \<Rightarrow> Inl WorkerIncomplete
      | Some provider \<Rightarrow>
          if AmountIsZero (wc_Input config) \<or> wc_OutputToken config = [] \<or> wc_OutputToken config = amt_token (wc_Input config) \<or>
             wc_RefreshInterval config \<le> 0 \<or> wc_TTL config < wc_RefreshInterval config \<or> wc_InitialDelay config < 0
          then Inl WorkerIncomplete
          else Inr \<lparr>cw_provider = provider, cw_input = wc_Input config, cw_outputToken = wc_OutputToken config, cw_TTL = wc_TTL config,
                 cw_current = no_conversion, cw_err = None\<rparr>)"

text \<open>The answer of the provider is an argument, an error as its text; \<open>quote_text\<close> is the text of a rejected response.\<close>

definition RefreshConversion ::
  "(string \<Rightarrow> string) \<Rightarrow> (quote_error \<Rightarrow> string) \<Rightarrow> (string, TokenAmount) result \<Rightarrow> gotime \<Rightarrow> QuoteConversionWorker \<Rightarrow>
   costing_error option \<times> worker_notice list \<times> QuoteConversionWorker" where
  "RefreshConversion sha256 quote_text answer now w =
     (case answer of
        Inl e \<Rightarrow>
          (Some (WorkerProvider e), (if cw_err w = Some e then [] else [NoticeError e]) @ [NoticeUpdate],
           w\<lparr>cw_current := no_conversion, cw_err := Some e\<rparr>)
      | Inr out \<Rightarrow>
          (case NewQuoteConversionSnapshot sha256 (cw_provider w) (cw_input w) out now (now + cw_TTL w) of
             Inl e \<Rightarrow> (Some (WorkerSnapshot e), [NoticeUpdate], w\<lparr>cw_current := no_conversion, cw_err := Some (quote_text e)\<rparr>)
           | Inr snapshot \<Rightarrow> (None, [NoticeSuccess snapshot, NoticeUpdate], w\<lparr>cw_current := snapshot, cw_err := None\<rparr>)))"

definition ConversionCurrentAt :: "gotime \<Rightarrow> QuoteConversionWorker \<Rightarrow> (costing_error, QuoteConversionSnapshot) result" where
  "ConversionCurrentAt when w =
     (case cw_err w of
        Some e \<Rightarrow> Inl (WorkerProvider e)
      | None \<Rightarrow> if ConversionValidAt (cw_current w) when then Inr (cw_current w) else Inl ConversionStaleCache)"

section \<open>The conversion book\<close>

record quoteConversionPair =
  cp_input :: TokenID
  cp_output :: TokenID

record QuoteConversionAlias =
  qa_Input :: Token
  qa_Output :: Token
  qa_CanonicalInput :: Token
  qa_CanonicalOutput :: Token

record quoteConversionProjection =
  qp_input :: Token
  qp_output :: Token
  qp_canonicalInput :: Token
  qp_canonicalOutput :: Token
  qp_canonical :: quoteConversionPair

text \<open>The book refers to its workers, so that a read sees what they hold: their map is an argument of the read.\<close>

record QuoteConversionBook =
  qb_pairs :: "quoteConversionPair list"
  qb_projections :: "quoteConversionPair \<rightharpoonup> quoteConversionProjection"

definition worker_pair :: "QuoteConversionWorker \<Rightarrow> quoteConversionPair" where
  "worker_pair w = \<lparr>cp_input = amt_token (cw_input w), cp_output = cw_outputToken w\<rparr>"

definition add_worker :: "quoteConversionPair list \<Rightarrow> QuoteConversionWorker \<Rightarrow> (costing_error, quoteConversionPair list) result" where
  "add_worker pairs w = (if worker_pair w \<in> set pairs then Inl BookDuplicateWorker else Inr (pairs @ [worker_pair w]))"

definition alias_pair :: "QuoteConversionAlias \<Rightarrow> quoteConversionPair" where
  "alias_pair a = \<lparr>cp_input = tok_ID (qa_Input a), cp_output = tok_ID (qa_Output a)\<rparr>"

definition alias_canonical :: "QuoteConversionAlias \<Rightarrow> quoteConversionPair" where
  "alias_canonical a = \<lparr>cp_input = tok_ID (qa_CanonicalInput a), cp_output = tok_ID (qa_CanonicalOutput a)\<rparr>"

definition alias_invalid :: "quoteConversionPair list \<Rightarrow> QuoteConversionAlias \<Rightarrow> bool" where
  "alias_invalid pairs a \<longleftrightarrow>
     tok_ID (qa_Input a) = [] \<or> tok_ID (qa_Output a) = [] \<or> tok_ID (qa_Input a) = tok_ID (qa_Output a) \<or>
     tok_Asset (qa_Input a) = [] \<or> tok_Asset (qa_Input a) \<noteq> tok_Asset (qa_Output a) \<or>
     tok_ID (qa_CanonicalInput a) = [] \<or> tok_ID (qa_CanonicalOutput a) = [] \<or>
     tok_Asset (qa_CanonicalInput a) \<noteq> tok_Asset (qa_Input a) \<or> tok_Asset (qa_CanonicalOutput a) \<noteq> tok_Asset (qa_Output a) \<or>
     alias_canonical a \<notin> set pairs \<or> alias_pair a \<in> set pairs"

definition add_alias ::
  "quoteConversionPair list \<Rightarrow> (quoteConversionPair \<rightharpoonup> quoteConversionProjection) \<Rightarrow> QuoteConversionAlias \<Rightarrow>
   (costing_error, quoteConversionPair \<rightharpoonup> quoteConversionProjection) result" where
  "add_alias pairs projections a =
     (if alias_invalid pairs a then Inl BookAlias
      else if projections (alias_pair a) \<noteq> None then Inl BookDuplicateAlias
      else Inr (projections(alias_pair a \<mapsto> \<lparr>qp_input = qa_Input a, qp_output = qa_Output a, qp_canonicalInput = qa_CanonicalInput a,
        qp_canonicalOutput = qa_CanonicalOutput a, qp_canonical = alias_canonical a\<rparr>)))"

definition NewQuoteConversionBookWithAliases ::
  "QuoteConversionWorker list \<Rightarrow> QuoteConversionAlias list \<Rightarrow> (costing_error, QuoteConversionBook) result" where
  "NewQuoteConversionBookWithAliases workers aliases =
     rbind (foldM add_worker [] workers) (\<lambda>pairs.
     rbind (foldM (add_alias pairs) Map.empty aliases) (\<lambda>projections.
     Inr \<lparr>qb_pairs = pairs, qb_projections = projections\<rparr>))"

definition NewQuoteConversionBook :: "QuoteConversionWorker list \<Rightarrow> (costing_error, QuoteConversionBook) result" where
  "NewQuoteConversionBook workers = NewQuoteConversionBookWithAliases workers []"

definition find_worker :: "QuoteConversionWorker list \<Rightarrow> quoteConversionPair \<Rightarrow> QuoteConversionWorker option" where
  "find_worker workers pair = find (\<lambda>w. worker_pair w = pair) workers"

definition or_none :: "('e, 'a) result \<Rightarrow> 'a option" where
  "or_none r = (case r of Inl _ \<Rightarrow> None | Inr x \<Rightarrow> Some x)"

definition project_conversion ::
  "(string \<Rightarrow> string) \<Rightarrow> quoteConversionProjection \<Rightarrow> QuoteConversionWorker \<Rightarrow> QuoteConversionSnapshot \<Rightarrow> QuoteConversionSnapshot option" where
  "project_conversion sha256 projection w snapshot =
     Option.bind (or_none (ToAssetQuantity (cw_input w) (qp_canonicalInput projection))) (\<lambda>inputQuantity.
     Option.bind (or_none (ToTokenAmount inputQuantity (qp_input projection))) (\<lambda>projectedInput.
     Option.bind (or_none (ToAssetQuantity (qc_Output snapshot) (qp_canonicalOutput projection))) (\<lambda>outputQuantity.
     Option.bind (or_none (ToTokenAmount outputQuantity (qp_output projection))) (\<lambda>projectedOutput.
     if AmountIsZero projectedOutput then None
     else or_none (NewQuoteConversionSnapshot sha256 (qc_Provider snapshot) projectedInput projectedOutput (qc_ReceivedAt snapshot) (qc_ExpiresAt snapshot))))))"

definition BookSnapshot ::
  "(string \<Rightarrow> string) \<Rightarrow> QuoteConversionBook \<Rightarrow> QuoteConversionWorker list \<Rightarrow> TokenID \<Rightarrow> TokenID \<Rightarrow> gotime \<Rightarrow> QuoteConversionSnapshot option" where
  "BookSnapshot sha256 b workers input out when =
     (let pair = \<lparr>cp_input = input, cp_output = out\<rparr> in
      case find_worker workers pair of
        Some w \<Rightarrow> or_none (ConversionCurrentAt when w)
      | None \<Rightarrow>
          Option.bind (qb_projections b pair) (\<lambda>projection.
          Option.bind (find_worker workers (qp_canonical projection)) (\<lambda>w.
          Option.bind (or_none (ConversionCurrentAt when w)) (\<lambda>snapshot.
          project_conversion sha256 projection w snapshot))))"

section \<open>Fixed costs and fallback prices\<close>

record Fixed =
  fx_id :: string
  fx_amount :: AssetQuantity

definition NewFixed :: "string \<Rightarrow> AssetQuantity \<Rightarrow> (costing_error, Fixed) result" where
  "NewFixed fid amount =
     (if fid = [] \<or> qty_asset amount = [] \<or> QtySign amount < 0 then Inl FixedIncomplete else Inr \<lparr>fx_id = fid, fx_amount = amount\<rparr>)"

definition FixedSnapshot :: "gotime \<Rightarrow> Fixed \<Rightarrow> (costing_error, CostSnapshot) result" where
  "FixedSnapshot when f = (if IsZeroTime when then Inl CostTimestamp else Inr \<lparr>cs_ID = fx_id f, cs_Amount = fx_amount f, cs_CapturedAt = when\<rparr>)"

record ('r, 'e) PriceSource =
  ps_ID :: SourceID
  ps_Observe :: "'r \<Rightarrow> ('e, PriceObservation) result"

record ('r, 'e) FallbackPriceSource =
  fp_id :: SourceID
  fp_primary :: "('r, 'e) PriceSource"
  fp_fallback :: "('r, 'e) PriceSource"

datatype 'e price_failure = PriceContext | BothFailed 'e 'e

definition NewFallbackPriceSource ::
  "SourceID \<Rightarrow> ('r, 'e) PriceSource option \<Rightarrow> ('r, 'e) PriceSource option \<Rightarrow> (costing_error, ('r, 'e) FallbackPriceSource) result" where
  "NewFallbackPriceSource sid primary fallback =
     (case (primary, fallback) of
        (Some p, Some f) \<Rightarrow>
          if sid = [] \<or> ps_ID p = ps_ID f then Inl FallbackIncomplete else Inr \<lparr>fp_id = sid, fp_primary = p, fp_fallback = f\<rparr>
      | _ \<Rightarrow> Inl FallbackIncomplete)"

definition FallbackObserve :: "bool \<Rightarrow> 'r \<Rightarrow> ('r, 'e) FallbackPriceSource \<Rightarrow> ('e price_failure, PriceObservation) result" where
  "FallbackObserve ctxErr request s =
     (case ps_Observe (fp_primary s) request of
        Inr observation \<Rightarrow> Inr observation
      | Inl primaryErr \<Rightarrow>
          if ctxErr then Inl PriceContext
          else (case ps_Observe (fp_fallback s) request of
             Inr observation \<Rightarrow> Inr observation
           | Inl fallbackErr \<Rightarrow> Inl (BothFailed primaryErr fallbackErr)))"

section \<open>What workers hold\<close>

inductive worker_reachable :: "(string \<Rightarrow> string) \<Rightarrow> QuoteConversionWorker \<Rightarrow> bool" for sha256 where
  new_worker: "NewQuoteConversionWorker config = Inr w \<Longrightarrow> worker_reachable sha256 w"
| refreshed: "worker_reachable sha256 w \<Longrightarrow> worker_reachable sha256 (snd (snd (RefreshConversion sha256 quote_text answer now w)))"

lemma NewQuoteConversionSnapshot_Inr:
  "NewQuoteConversionSnapshot sha256 provider inp out receivedAt expiresAt = Inr s \<Longrightarrow>
     qc_Provider s = provider \<and> provider \<noteq> [] \<and> qc_Input s = inp \<and> qc_Output s = out \<and> qc_ReceivedAt s = receivedAt \<and> qc_ExpiresAt s = expiresAt \<and>
     \<not> AmountIsZero inp \<and> \<not> AmountIsZero out"
  by (auto simp: NewQuoteConversionSnapshot_def split: if_splits)

text \<open>A worker without an error holds nothing, or one response for its own input that lives for its TTL.\<close>

definition worker_ok :: "QuoteConversionWorker \<Rightarrow> bool" where
  "worker_ok w \<longleftrightarrow> cw_current w = no_conversion \<or>
     (cw_err w = None \<and> qc_Provider (cw_current w) = cw_provider w \<and> qc_Input (cw_current w) = cw_input w \<and>
      qc_ExpiresAt (cw_current w) = qc_ReceivedAt (cw_current w) + cw_TTL w)"

lemma refresh_worker_ok: "worker_ok w \<Longrightarrow> worker_ok (snd (snd (RefreshConversion sha256 quote_text answer now w)))"
  by (auto simp: RefreshConversion_def worker_ok_def dest!: NewQuoteConversionSnapshot_Inr split: sum.splits)

lemma worker_reachable_ok: "worker_reachable sha256 w \<Longrightarrow> worker_ok w"
proof (induction rule: worker_reachable.induct)
  case (new_worker config w)
  then show ?case by (auto simp: NewQuoteConversionWorker_def worker_ok_def split: option.splits if_splits)
next
  case (refreshed w quote_text answer now)
  then show ?case by (simp add: refresh_worker_ok)
qed

text \<open>A failed refresh hides the earlier response: a worker never serves what a later answer has withdrawn.\<close>

lemma failed_refresh_serves_nothing:
  "RefreshConversion sha256 quote_text answer now w = (Some e, notices, w') \<Longrightarrow> \<not> is_ok (ConversionCurrentAt when w')"
  by (auto simp: RefreshConversion_def ConversionCurrentAt_def split: sum.splits)

lemma ConversionCurrentAt_Inr:
  assumes "ConversionCurrentAt when w = Inr s" and "worker_ok w"
  shows "s = cw_current w \<and> ConversionValidAt s when \<and> qc_Provider s = cw_provider w \<and> qc_Input s = cw_input w \<and> when \<le> qc_ReceivedAt s + cw_TTL w"
  using assms by (auto simp: ConversionCurrentAt_def worker_ok_def ConversionValidAt_def no_conversion_def split: option.splits if_splits)

section \<open>What the book serves\<close>

lemma or_none_Some [simp]: "or_none r = Some x \<longleftrightarrow> r = Inr x"
  by (auto simp: or_none_def split: sum.splits)

lemma find_worker_Some: "find_worker workers pair = Some w \<Longrightarrow> w \<in> set workers \<and> worker_pair w = pair"
  by (auto simp: find_worker_def find_Some_iff)

lemma project_conversion_Some:
  assumes "project_conversion sha256 projection w snapshot = Some s"
  obtains input out where "rbind (ToAssetQuantity (cw_input w) (qp_canonicalInput projection)) (\<lambda>q. ToTokenAmount q (qp_input projection)) = Inr input"
    "rbind (ToAssetQuantity (qc_Output snapshot) (qp_canonicalOutput projection)) (\<lambda>q. ToTokenAmount q (qp_output projection)) = Inr out"
    "qc_Input s = input" "qc_Output s = out" "qc_Provider s = qc_Provider snapshot" "qc_Provider s \<noteq> []" "qc_ReceivedAt s = qc_ReceivedAt snapshot"
    "qc_ExpiresAt s = qc_ExpiresAt snapshot" "\<not> AmountIsZero input" "\<not> AmountIsZero out"
  using assms
  by (auto simp: project_conversion_def bind_eq_Some_conv intro!: that dest!: NewQuoteConversionSnapshot_Inr split: if_splits)

lemma BookSnapshot_Some:
  assumes "BookSnapshot sha256 b workers input out when = Some s"
  obtains w snapshot where "w \<in> set workers" "ConversionCurrentAt when w = Inr snapshot"
    "s = snapshot \<and> worker_pair w = \<lparr>cp_input = input, cp_output = out\<rparr> \<or>
     (\<exists>projection. qb_projections b \<lparr>cp_input = input, cp_output = out\<rparr> = Some projection \<and> worker_pair w = qp_canonical projection \<and>
        project_conversion sha256 projection w snapshot = Some s)"
proof (cases "find_worker workers \<lparr>cp_input = input, cp_output = out\<rparr>")
  case None
  with assms obtain projection w snapshot where "qb_projections b \<lparr>cp_input = input, cp_output = out\<rparr> = Some projection"
      "find_worker workers (qp_canonical projection) = Some w" "ConversionCurrentAt when w = Inr snapshot" "project_conversion sha256 projection w snapshot = Some s"
    by (auto simp: BookSnapshot_def Let_def bind_eq_Some_conv)
  then show ?thesis using that find_worker_Some by blast
next
  case (Some w)
  with assms have "ConversionCurrentAt when w = Inr s" by (simp add: BookSnapshot_def Let_def)
  then show ?thesis using that find_worker_Some [OF Some] by blast
qed


definition usd_token :: "TokenID \<Rightarrow> 8 word \<Rightarrow> Token" where
  "usd_token tid d = \<lparr>tok_ID = tid, tok_Asset = ''USD'', tok_Chain = ''c'', tok_Decimals = d, tok_Symbol = tid\<rparr>"

definition sample_worker :: QuoteConversionWorker where
  "sample_worker = (case NewQuoteConversionWorker \<lparr>wc_Provider = Some ''p'', wc_Input = \<lparr>amt_token = ''a'', amt_units = 19\<rparr>, wc_OutputToken = ''b'',
     wc_RefreshInterval = 10, wc_InitialDelay = 0, wc_TTL = 20\<rparr> of Inr w \<Rightarrow> w | Inl _ \<Rightarrow> undefined)"

definition sample_refreshed :: QuoteConversionWorker where
  "sample_refreshed = snd (snd (RefreshConversion (\<lambda>_. []) (\<lambda>_. ''e'') (Inr \<lparr>amt_token = ''b'', amt_units = 19\<rparr>) 100 sample_worker))"

definition sample_alias :: QuoteConversionAlias where
  "sample_alias = \<lparr>qa_Input = usd_token ''c'' 0, qa_Output = usd_token ''d'' 1, qa_CanonicalInput = usd_token ''a'' 1, qa_CanonicalOutput = usd_token ''b'' 1\<rparr>"

definition sample_book :: QuoteConversionBook where
  "sample_book = (case NewQuoteConversionBookWithAliases [sample_refreshed] [sample_alias] of Inr b \<Rightarrow> b | Inl _ \<Rightarrow> undefined)"

lemma sample_worker_reachable: "worker_reachable (\<lambda>_. []) sample_refreshed"
proof -
  have "worker_reachable (\<lambda>_. []) sample_worker"
    by (rule worker_reachable.new_worker [of "\<lparr>wc_Provider = Some ''p'', wc_Input = \<lparr>amt_token = ''a'', amt_units = 19\<rparr>, wc_OutputToken = ''b'',
      wc_RefreshInterval = 10, wc_InitialDelay = 0, wc_TTL = 20\<rparr>"]) (simp add: sample_worker_def NewQuoteConversionWorker_def AmountIsZero_def)
  then show ?thesis unfolding sample_refreshed_def by (rule worker_reachable.refreshed)
qed

text \<open>
  A projection is not conservative where its input token has fewer decimals: nineteen tenths that
  convert into nineteen tenths become one unit that converts into nineteen tenths.
\<close>

lemma projection_raises_rate:
  "map_option (\<lambda>s. (amt_units (qc_Input s), amt_units (qc_Output s))) (BookSnapshot (\<lambda>_. []) sample_book [sample_refreshed] ''c'' ''d'' 110) = Some (1, 19)"
  "map_option (\<lambda>s. (amt_units (qc_Input s), amt_units (qc_Output s))) (BookSnapshot (\<lambda>_. []) sample_book [sample_refreshed] ''a'' ''b'' 110) = Some (19, 19)"
  by code_simp+


text \<open>Fixed costs are never negative, and the fallback answers whenever one source does and the context is live.\<close>

lemma fixed_cost_nonneg: "NewFixed fid amount = Inr f \<Longrightarrow> FixedSnapshot when f = Inr c \<Longrightarrow> 0 \<le> qty_value (cs_Amount c) \<and> \<not> cost_invalid c"
  by (auto simp: NewFixed_def FixedSnapshot_def cost_invalid_def split: if_splits)

lemma fallback_answers:
  "is_ok (FallbackObserve False request s) \<longleftrightarrow> is_ok (ps_Observe (fp_primary s) request) \<or> is_ok (ps_Observe (fp_fallback s) request)"
  by (auto simp: FallbackObserve_def is_ok_def split: sum.splits)

end
