(* ===== verification/Strategy_Best_Buy.thy ===== *)
theory Strategy_Best_Buy
  imports Strategy_Prefunded
begin

text \<open>
  The round-trip strategy, \<open>src/core/strategy/best_buy_opposite_sell.go\<close>, and the evaluator over
  several strategies, \<open>src/core/research/evaluator.go\<close>.

  A quote may be asked for twice, so that a source answers the request of each attempt; what the
  context says after an attempt and during the delay before the next one, the status that an error
  carries and whether it is a cancellation are arguments. Durations and quote traces carry no
  economics and are left out; \<open>FinishedAt\<close> is an argument.
\<close>

section \<open>Configuration\<close>

type_synonym ('p, 'e) retried_source = "nat \<Rightarrow> 'p QuoteInput \<Rightarrow> ('e, Quote) result"

record ('p, 'e) BestBuyOppositeSellConfig =
  bc_ID :: StrategyID
  bc_Setup :: ArbitrageSetup
  bc_Registry :: "Registry option"
  bc_Sources :: "MarketID \<rightharpoonup> ('p, 'e) retried_source"
  bc_Notional :: AssetQuantity
  bc_Threshold :: AssetQuantity
  bc_Clock :: bool
  bc_Retries :: int
  bc_RetryDelay :: duration

record ('p, 'e) BestBuyOppositeSell =
  bb_id :: StrategyID
  bb_setup :: ArbitrageSetup
  bb_registry :: Registry
  bb_sources :: "MarketID \<rightharpoonup> ('p, 'e) retried_source"
  bb_notional :: AssetQuantity
  bb_threshold :: AssetQuantity
  bb_retries :: int
  bb_retryDelay :: duration

datatype best_buy_error =
    BestBuyIncomplete
  | BestBuyAssets
  | BestBuyRetries
  | BestBuySource MarketID
  | BestBuyOther StrategyID
  | BestBuyCost
  | BestBuyContext

definition best_buy_assets_invalid :: "Pair \<Rightarrow> ('p, 'e) BestBuyOppositeSellConfig \<Rightarrow> bool" where
  "best_buy_assets_invalid pair config \<longleftrightarrow>
     qty_asset (bc_Notional config) \<noteq> pair_QuoteAsset pair \<or> QtySign (bc_Notional config) \<le> 0 \<or>
     qty_asset (bc_Threshold config) \<noteq> pair_QuoteAsset pair \<or> QtySign (bc_Threshold config) < 0"

definition NewBestBuyOppositeSell :: "('p, 'e) BestBuyOppositeSellConfig \<Rightarrow> (best_buy_error, ('p, 'e) BestBuyOppositeSell) result" where
  "NewBestBuyOppositeSell config =
     (case bc_Registry config of
        None \<Rightarrow> Inl BestBuyIncomplete
      | Some registry \<Rightarrow>
          if bc_ID config = [] \<or> \<not> bc_Clock config \<or> length (set_markets (bc_Setup config)) \<noteq> 2 then Inl BestBuyIncomplete
          else (case reg_pairs registry (set_pair (bc_Setup config)) of
             None \<Rightarrow> Inl BestBuyAssets
           | Some pair \<Rightarrow>
               if best_buy_assets_invalid pair config then Inl BestBuyAssets
               else if bc_Retries config < 0 \<or> bc_Retries config > 1 then Inl BestBuyRetries
               else check (first_error (\<lambda>mid. if bc_Sources config mid = None then Some (BestBuySource mid) else None) (set_markets (bc_Setup config)))
                 (Inr \<lparr>bb_id = bc_ID config, bb_setup = bc_Setup config, bb_registry = registry,
                   bb_sources = bc_Sources config |` set (set_markets (bc_Setup config)), bb_notional = bc_Notional config,
                   bb_threshold = bc_Threshold config, bb_retries = bc_Retries config,
                   bb_retryDelay = (if bc_RetryDelay config \<le> 0 then 100000000 else bc_RetryDelay config)\<rparr>)))"

section \<open>Quotes with a retry\<close>

record 'e quote_context =
  qx_done :: "nat \<Rightarrow> bool"
  qx_interrupted :: "nat \<Rightarrow> bool"
  qx_canceled :: "'e \<Rightarrow> bool"
  qx_status :: "'e \<Rightarrow> int option"

definition transientQuoteError :: "'e quote_context \<Rightarrow> 'e \<Rightarrow> bool" where
  "transientQuoteError ctx err =
     (if qx_canceled ctx err then False
      else case qx_status ctx err of
        None \<Rightarrow> True
      | Some code \<Rightarrow> code = 408 \<or> code = 425 \<or> code = 429 \<or> code \<ge> 500)"

text \<open>The loop from one attempt on with the retries that are left; no error value is the context's.\<close>

fun best_buy_quote ::
  "'e quote_context \<Rightarrow> ('p, 'e) retried_source \<Rightarrow> 'p QuoteInput \<Rightarrow> nat \<Rightarrow> nat \<Rightarrow> ('e option, Quote) result" where
  "best_buy_quote ctx source input attempt left =
     (case source attempt input of
        Inr result \<Rightarrow> Inr result
      | Inl err \<Rightarrow>
          (if qx_done ctx attempt \<or> left = 0 \<or> \<not> transientQuoteError ctx err then Inl (Some err)
           else if qx_interrupted ctx attempt then Inl None
           else case left of 0 \<Rightarrow> Inl (Some err) | Suc n \<Rightarrow> best_buy_quote ctx source input (Suc attempt) n))"

declare best_buy_quote.simps [simp del]

text \<open>The constructor requires a source for both markets.\<close>

definition timedQuote ::
  "'e quote_context \<Rightarrow> ('p, 'e) BestBuyOppositeSell \<Rightarrow> 'p Evaluation \<Rightarrow> MarketID \<Rightarrow> Token \<Rightarrow> Token \<Rightarrow> TokenAmount \<Rightarrow> 'p MarketSnapshot \<Rightarrow>
   ('e option, Quote) result" where
  "timedQuote ctx s evaluation mid tokenIn tokenOut amountIn snapshot =
     (case bb_sources s mid of
        None \<Rightarrow> Inl None
      | Some source \<Rightarrow>
          best_buy_quote ctx source
            \<lparr>qi_Snapshot = snapshot, qi_TokenIn = tok_ID tokenIn, qi_TokenOut = tok_ID tokenOut, qi_AmountIn = amountIn,
             qi_Purpose = PurposeDiscovery, qi_QuotedAt = ev_startedAt evaluation\<rparr> 0 (nat (bb_retries s)))"

section \<open>One direction\<close>

definition emptyOpportunity :: "('p, 'e) BestBuyOppositeSell \<Rightarrow> 'p Evaluation \<Rightarrow> Direction \<Rightarrow> gotime \<Rightarrow> Opportunity" where
  "emptyOpportunity s evaluation direction finishedAt =
     \<lparr>op_Evaluation = ev_id evaluation, op_Run = ev_run evaluation, op_ConfigHash = ev_configHash evaluation, op_Strategy = bb_id s,
      op_Direction = direction, op_Classification = ClassificationUnclassifiable,
      op_Snapshots = map fst (List.map_filter (EvaluationSnapshot evaluation) [dir_BuyMarket direction, dir_SellMarket direction]),
      op_Candidates = [], op_SelectedIndex = -1, op_Threshold = bb_threshold s, op_Reasons = [],
      op_Trigger = (case ev_trigger evaluation of None \<Rightarrow> no_trigger | Some trigger \<Rightarrow> trigger), op_HasTrigger = (ev_trigger evaluation \<noteq> None),
      op_TriggeredAt = ev_triggeredAt evaluation, op_StartedAt = ev_startedAt evaluation, op_FinishedAt = finishedAt\<rparr>"

definition trip_tokens :: "('p, 'e) BestBuyOppositeSell \<Rightarrow> Direction \<Rightarrow> (string, liveTokens) result" where
  "trip_tokens s direction =
     (case (reg_markets (bb_registry s) (dir_BuyMarket direction), reg_markets (bb_registry s) (dir_SellMarket direction)) of
        (Some buyMarket, Some sellMarket) \<Rightarrow>
          (case (market_tokens (bb_registry s) buyMarket, market_tokens (bb_registry s) sellMarket) of
             (Some (buyBase, buyQuote), Some (sellBase, sellQuote)) \<Rightarrow>
               Inr \<lparr>lt_buyBase = buyBase, lt_buyQuote = buyQuote, lt_sellBase = sellBase, lt_sellQuote = sellQuote\<rparr>
           | _ \<Rightarrow> Inl ''token_definition_missing'')
      | _ \<Rightarrow> Inl ''market_definition_missing'')"

definition trip_snapshots :: "'p Evaluation \<Rightarrow> Direction \<Rightarrow> (string, 'p liveSnapshots) result" where
  "trip_snapshots evaluation direction =
     (case (EvaluationSnapshot evaluation (dir_BuyMarket direction), EvaluationSnapshot evaluation (dir_SellMarket direction)) of
        (Some buy, Some sell) \<Rightarrow>
          if md_Health (fst buy) \<noteq> HealthHealthy \<or> md_Health (fst sell) \<noteq> HealthHealthy
          then Inl ''degraded_or_missing_market_snapshot'' else Inr \<lparr>ls_buy = buy, ls_sell = sell\<rparr>
      | _ \<Rightarrow> Inl ''degraded_or_missing_market_snapshot'')"

definition or_reason :: "string \<Rightarrow> ('err, 'a) result \<Rightarrow> (string, 'a) result" where
  "or_reason reason = map_err (\<lambda>_. reason)"

definition trip_candidate :: "('p, 'e) BestBuyOppositeSell \<Rightarrow> CostSnapshot \<Rightarrow> AssetQuantity \<Rightarrow> Quote \<Rightarrow> Quote \<Rightarrow> Candidate" where
  "trip_candidate s cost out buy sell =
     (let gross = value_or zero_qty (QtySub out (bb_notional s)); net = value_or zero_qty (QtySub gross (cs_Amount cost)) in
      \<lparr>cd_Size = bb_notional s, cd_Input = bb_notional s, cd_Output = out, cd_GrossPnL = gross, cd_Cost = cost, cd_NetPnL = net,
       cd_FixedThreshold = zero_qty, cd_PercentageThreshold = zero_qty, cd_EffectiveThreshold = zero_qty,
       cd_BuyQuote = buy, cd_SellQuote = sell, cd_Valuation = None, cd_QuoteConversion = None\<rparr>)"

text \<open>The trip of a direction: its candidate, or the reason why there is none.\<close>

definition round_trip :: "'e quote_context \<Rightarrow> ('p, 'e) BestBuyOppositeSell \<Rightarrow> 'p Evaluation \<Rightarrow> Direction \<Rightarrow> (string, Candidate) result" where
  "round_trip ctx s evaluation direction =
     rbind (trip_tokens s direction) (\<lambda>tokens.
     rbind (trip_snapshots evaluation direction) (\<lambda>snapshots.
     rbind (positive_input ''buy_input_rounds_to_zero'' (bb_notional s) (lt_buyQuote tokens)) (\<lambda>buyInput.
     rbind (or_reason ''buy_quote_unavailable'' (timedQuote ctx s evaluation (dir_BuyMarket direction)
         (lt_buyQuote tokens) (lt_buyBase tokens) buyInput (ls_buy snapshots))) (\<lambda>buy.
     rbind (or_reason ''buy_output_invalid'' (ToAssetQuantity (q_AmountOut buy) (lt_buyBase tokens))) (\<lambda>bought.
     rbind (positive_input ''sell_input_rounds_to_zero'' bought (lt_sellBase tokens)) (\<lambda>sellInput.
     rbind (or_reason ''sell_quote_unavailable'' (timedQuote ctx s evaluation (dir_SellMarket direction)
         (lt_sellBase tokens) (lt_sellQuote tokens) sellInput (ls_sell snapshots))) (\<lambda>sell.
     rbind (or_reason ''sell_output_invalid'' (ToAssetQuantity (q_AmountOut sell) (lt_sellQuote tokens))) (\<lambda>out.
       Inr (trip_candidate s (CostFor evaluation direction) out buy sell)))))))))"

definition classify_trip :: "AssetQuantity \<Rightarrow> Candidate \<Rightarrow> string \<times> string list" where
  "classify_trip threshold c =
     (if QtySign (cd_GrossPnL c) \<le> 0 then (ClassificationNoSpread, [''no_positive_gross_profit''])
      else if QtySign (cd_NetPnL c) \<le> 0 then (ClassificationObservedSpread, [''costs_exceed_gross_profit''])
      else if \<not> greaterOrEqual (cd_NetPnL c) threshold then (ClassificationEconomic, [''below_profit_threshold''])
      else (ClassificationPolicyQualified, [''profit_threshold_met'']))"

definition trip_direction :: "'e quote_context \<Rightarrow> gotime \<Rightarrow> ('p, 'e) BestBuyOppositeSell \<Rightarrow> 'p Evaluation \<Rightarrow> Direction \<Rightarrow> Opportunity" where
  "trip_direction ctx now s evaluation direction =
     (let opportunity = emptyOpportunity s evaluation direction now in
      case round_trip ctx s evaluation direction of
        Inl reason \<Rightarrow> opportunity\<lparr>op_Reasons := [reason]\<rparr>
      | Inr candidate \<Rightarrow>
          opportunity\<lparr>op_Candidates := [candidate], op_SelectedIndex := 0,
            op_Classification := fst (classify_trip (bb_threshold s) candidate), op_Reasons := snd (classify_trip (bb_threshold s) candidate)\<rparr>)"

section \<open>The comparison of both directions\<close>

definition unselect :: "gotime \<Rightarrow> string \<Rightarrow> string \<Rightarrow> Opportunity \<Rightarrow> Opportunity" where
  "unselect now class reason op =
     op\<lparr>op_SelectedIndex := -1, op_Classification := class, op_Reasons := [reason], op_FinishedAt := now\<rparr>"

definition incomplete :: "Opportunity \<Rightarrow> bool" where
  "incomplete op \<longleftrightarrow> op_SelectedIndex op < 0 \<or> op_SelectedIndex op \<ge> int (length (op_Candidates op))"

definition selected_output :: "Opportunity \<Rightarrow> AssetQuantity" where
  "selected_output op = cd_Output (op_Candidates op ! nat (op_SelectedIndex op))"

definition compare_trips :: "gotime \<Rightarrow> Opportunity list \<Rightarrow> Opportunity list" where
  "compare_trips now ops =
     (if list_ex incomplete ops
      then map (\<lambda>op. if op_SelectedIndex op \<ge> 0 then unselect now ClassificationUnclassifiable ''round_trip_comparison_incomplete'' op else op) ops
      else case QtyCmp (selected_output (ops ! 0)) (selected_output (ops ! 1)) of
        Inl _ \<Rightarrow> map (unselect now ClassificationUnclassifiable ''round_trip_outputs_incomparable'') ops
      | Inr comparison \<Rightarrow>
          if comparison = 0 then map (unselect now ClassificationNoSpread ''equal_round_trip_output'') ops
          else (let loser = (if comparison < 0 then 0 else 1) in
            ops[loser := unselect now ClassificationNoSpread ''lower_round_trip_output'' (ops ! loser)]))"

definition BestBuyEvaluate ::
  "'e quote_context \<Rightarrow> bool \<Rightarrow> gotime \<Rightarrow> ('p, 'e) BestBuyOppositeSell \<Rightarrow> 'p Evaluation \<Rightarrow> (best_buy_error, Opportunity list) result" where
  "BestBuyEvaluate ctx ctxErr now s evaluation =
     (if ev_strategy evaluation \<noteq> bb_id s then Inl (BestBuyOther (ev_strategy evaluation))
      else if list_ex (\<lambda>direction. qty_asset (cs_Amount (CostFor evaluation direction)) \<noteq> qty_asset (bb_threshold s)) (set_directions (bb_setup s))
      then Inl BestBuyCost
      else if ctxErr then Inl BestBuyContext
      else Inr (compare_trips now (map (trip_direction ctx now s evaluation) (set_directions (bb_setup s)))))"

section \<open>The research evaluator\<close>

record ('p, 'e) Strategy =
  sg_ID :: StrategyID
  sg_Evaluate :: "'p Evaluation \<Rightarrow> ('e, Opportunity list) result"

record 'p EvaluationRequest =
  eq_IDPrefix :: string
  eq_Run :: ResearchRunID
  eq_ConfigHash :: string
  eq_Snapshots :: "'p MarketSnapshot list"
  eq_Cost :: CostSnapshot
  eq_TriggeredAt :: gotime
  eq_StartedAt :: gotime

datatype 'e evaluator_error =
    EvaluatorEmpty
  | EvaluatorStrategy
  | EvaluatorDuplicate StrategyID
  | EvaluatorPrefix
  | EvaluatorEvaluation arb_error
  | EvaluatorFailed 'e

definition strategy_seen :: "StrategyID list \<Rightarrow> ('p, 'e) Strategy option \<Rightarrow> ('e evaluator_error, StrategyID list) result" where
  "strategy_seen seen candidate =
     (case candidate of
        None \<Rightarrow> Inl EvaluatorStrategy
      | Some strategy \<Rightarrow>
          if sg_ID strategy = [] then Inl EvaluatorStrategy
          else if sg_ID strategy \<in> set seen then Inl (EvaluatorDuplicate (sg_ID strategy))
          else Inr (sg_ID strategy # seen))"

definition NewEvaluator :: "('p, 'e) Strategy option list \<Rightarrow> ('e evaluator_error, ('p, 'e) Strategy list) result" where
  "NewEvaluator strategies =
     (if strategies = [] then Inl EvaluatorEmpty
      else rbind (foldM strategy_seen [] strategies) (\<lambda>_. Inr (map the strategies)))"

definition evaluate_strategy :: "'p EvaluationRequest \<Rightarrow> Opportunity list \<Rightarrow> ('p, 'e) Strategy \<Rightarrow> ('e evaluator_error, Opportunity list) result" where
  "evaluate_strategy request opportunities strategy =
     rbind (map_err EvaluatorEvaluation (NewEvaluation (eq_IDPrefix request @ ''/'' @ sg_ID strategy) (eq_Run request) (sg_ID strategy) (eq_ConfigHash request)
       (eq_Snapshots request) (eq_Cost request) (eq_TriggeredAt request) (eq_StartedAt request))) (\<lambda>evaluation.
     rbind (map_err EvaluatorFailed (sg_Evaluate strategy evaluation)) (\<lambda>result. Inr (opportunities @ result)))"

definition EvaluateStrategies :: "'p EvaluationRequest \<Rightarrow> ('p, 'e) Strategy list \<Rightarrow> ('e evaluator_error, Opportunity list) result" where
  "EvaluateStrategies request strategies =
     (if eq_IDPrefix request = [] then Inl EvaluatorPrefix else foldM (evaluate_strategy request) [] strategies)"

section \<open>Round trips\<close>

text \<open>What a completed trip of a direction consists of: the second leg sells what the first one bought.\<close>

definition trip_sound :: "'e quote_context \<Rightarrow> ('p, 'e) BestBuyOppositeSell \<Rightarrow> 'p Evaluation \<Rightarrow> Direction \<Rightarrow> liveTokens \<Rightarrow> Candidate \<Rightarrow> bool" where
  "trip_sound ctx s evaluation direction tokens c \<longleftrightarrow>
     (\<exists>snapshots buyInput bought sellInput.
        trip_snapshots evaluation direction = Inr snapshots \<and>
        ToTokenAmount (bb_notional s) (lt_buyQuote tokens) = Inr buyInput \<and> amt_units buyInput \<noteq> 0 \<and>
        timedQuote ctx s evaluation (dir_BuyMarket direction) (lt_buyQuote tokens) (lt_buyBase tokens) buyInput (ls_buy snapshots) = Inr (cd_BuyQuote c) \<and>
        ToAssetQuantity (q_AmountOut (cd_BuyQuote c)) (lt_buyBase tokens) = Inr bought \<and>
        ToTokenAmount bought (lt_sellBase tokens) = Inr sellInput \<and> amt_units sellInput \<noteq> 0 \<and>
        timedQuote ctx s evaluation (dir_SellMarket direction) (lt_sellBase tokens) (lt_sellQuote tokens) sellInput (ls_sell snapshots) = Inr (cd_SellQuote c) \<and>
        ToAssetQuantity (q_AmountOut (cd_SellQuote c)) (lt_sellQuote tokens) = Inr (cd_Output c))"

lemma or_reason_Inr: "or_reason reason r = Inr a \<longleftrightarrow> r = Inr a"
  by (cases r) (simp_all add: or_reason_def)

lemma round_trip_Inr:
  assumes "round_trip ctx s evaluation direction = Inr c"
  obtains tokens where "trip_tokens s direction = Inr tokens" "trip_sound ctx s evaluation direction tokens c"
    "c = trip_candidate s (CostFor evaluation direction) (cd_Output c) (cd_BuyQuote c) (cd_SellQuote c)"
proof -
  obtain tokens snapshots buyInput buy bought sellInput sell out where trip: "trip_tokens s direction = Inr tokens"
      "trip_snapshots evaluation direction = Inr snapshots"
      "positive_input ''buy_input_rounds_to_zero'' (bb_notional s) (lt_buyQuote tokens) = Inr buyInput"
      "timedQuote ctx s evaluation (dir_BuyMarket direction) (lt_buyQuote tokens) (lt_buyBase tokens) buyInput (ls_buy snapshots) = Inr buy"
      "ToAssetQuantity (q_AmountOut buy) (lt_buyBase tokens) = Inr bought"
      "positive_input ''sell_input_rounds_to_zero'' bought (lt_sellBase tokens) = Inr sellInput"
      "timedQuote ctx s evaluation (dir_SellMarket direction) (lt_sellBase tokens) (lt_sellQuote tokens) sellInput (ls_sell snapshots) = Inr sell"
      "ToAssetQuantity (q_AmountOut sell) (lt_sellQuote tokens) = Inr out" "c = trip_candidate s (CostFor evaluation direction) out buy sell"
    using assms unfolding round_trip_def rbind_eq_Inr or_reason_Inr by (elim exE conjE) (rule that, assumption+, simp)
  have fields: "cd_Output c = out" "cd_BuyQuote c = buy" "cd_SellQuote c = sell" by (simp_all add: trip(9) trip_candidate_def Let_def)
  have "trip_sound ctx s evaluation direction tokens c"
    unfolding trip_sound_def fields using trip(2-8) unfolding positive_input_Inr
    by (intro exI [of _ snapshots] exI [of _ buyInput] exI [of _ bought] exI [of _ sellInput]) simp
  with trip(1) show ?thesis by (rule that) (simp only: fields trip(9) [symmetric])
qed

lemma trip_assets:
  "trip_sound ctx s evaluation direction tokens c \<Longrightarrow>
     tok_Asset (lt_buyQuote tokens) = qty_asset (bb_notional s) \<and> qty_asset (cd_Output c) = tok_Asset (lt_sellQuote tokens)"
  by (auto simp: trip_sound_def ToTokenAmount_Inr dest: ToAssetQuantity_value)

lemma opposite_tokens:
  assumes "trip_tokens s \<lparr>dir_BuyMarket = a, dir_SellMarket = b\<rparr> = Inr there" and "trip_tokens s \<lparr>dir_BuyMarket = b, dir_SellMarket = a\<rparr> = Inr back"
  shows "lt_sellQuote there = lt_buyQuote back"
  using assms by (auto simp: trip_tokens_def split: option.splits prod.splits)

text \<open>The economics of a candidate whose output is in the asset of the notional.\<close>

definition trip_priced :: "('p, 'e) BestBuyOppositeSell \<Rightarrow> Candidate \<Rightarrow> bool" where
  "trip_priced s c \<longleftrightarrow>
     cd_GrossPnL c = \<lparr>qty_asset = qty_asset (bb_notional s), qty_value = qty_value (cd_Output c) - qty_value (bb_notional s)\<rparr> \<and>
     cd_NetPnL c = \<lparr>qty_asset = qty_asset (bb_notional s), qty_value = qty_value (cd_GrossPnL c) - qty_value (cs_Amount (cd_Cost c))\<rparr>"

lemma trip_candidate_priced:
  assumes "c = trip_candidate s cost (cd_Output c) (cd_BuyQuote c) (cd_SellQuote c)" and "qty_asset (cd_Output c) = qty_asset (bb_notional s)"
    and "qty_asset (cs_Amount cost) = qty_asset (bb_notional s)" and "qty_asset (bb_notional s) \<noteq> []"
  shows "trip_priced s c" and "cd_Cost c = cost"
proof -
  let ?gross = "value_or zero_qty (QtySub (cd_Output c) (bb_notional s))"
  have gross: "?gross = \<lparr>qty_asset = qty_asset (bb_notional s), qty_value = qty_value (cd_Output c) - qty_value (bb_notional s)\<rparr>"
    using assms(2,4) by (simp add: QtySub_def NewAssetQuantity_def value_or_def)
  have fields: "cd_GrossPnL c = ?gross" "cd_NetPnL c = value_or zero_qty (QtySub ?gross (cs_Amount cost))" "cd_Cost c = cost"
    by (subst assms(1), simp add: trip_candidate_def Let_def)+
  then show "cd_Cost c = cost" by simp
  show "trip_priced s c" unfolding trip_priced_def fields gross using assms(3,4) by (simp add: QtySub_def NewAssetQuantity_def value_or_def)
qed

lemma classify_trip_qualified:
  assumes "trip_priced s c" and "qty_asset threshold = qty_asset (bb_notional s)"
  shows "fst (classify_trip threshold c) = ClassificationPolicyQualified \<longleftrightarrow>
    0 < qty_value (cd_GrossPnL c) \<and> 0 < qty_value (cd_NetPnL c) \<and> qty_value threshold \<le> qty_value (cd_NetPnL c)"
proof -
  have "greaterOrEqual (cd_NetPnL c) threshold \<longleftrightarrow> qty_value threshold \<le> qty_value (cd_NetPnL c)"
    by (rule greaterOrEqual_iff) (use assms in \<open>simp add: trip_priced_def\<close>)
  then show ?thesis by (auto simp: classify_trip_def QtySign_def sgn_if)
qed

section \<open>Both directions\<close>

lemma trip_direction_fields:
  "op_Direction (trip_direction ctx now s evaluation direction) = direction"
  "round_trip ctx s evaluation direction = Inl reason \<Longrightarrow> op_SelectedIndex (trip_direction ctx now s evaluation direction) = -1 \<and>
     incomplete (trip_direction ctx now s evaluation direction)"
  "round_trip ctx s evaluation direction = Inr c \<Longrightarrow> op_SelectedIndex (trip_direction ctx now s evaluation direction) = 0 \<and>
     op_Candidates (trip_direction ctx now s evaluation direction) = [c] \<and> \<not> incomplete (trip_direction ctx now s evaluation direction) \<and>
     selected_output (trip_direction ctx now s evaluation direction) = cd_Output c \<and>
     op_Classification (trip_direction ctx now s evaluation direction) = fst (classify_trip (bb_threshold s) c)"
  by (simp_all add: trip_direction_def emptyOpportunity_def incomplete_def selected_output_def Let_def split: sum.splits)

lemma unselect_fields: "op_Direction (unselect now class reason op) = op_Direction op" "op_SelectedIndex (unselect now class reason op) = -1"
  by (simp_all add: unselect_def)

lemma compare_incomplete:
  assumes "incomplete x \<or> incomplete y" and "op_SelectedIndex x = -1 \<or> op_SelectedIndex x = 0" and "op_SelectedIndex y = -1 \<or> op_SelectedIndex y = 0"
  shows "map op_SelectedIndex (compare_trips now [x, y]) = [-1, -1]"
  using assms by (auto simp: compare_trips_def unselect_fields)

lemma compare_directions: "map op_Direction (compare_trips now [x, y]) = [op_Direction x, op_Direction y]"
  by (auto simp: compare_trips_def unselect_fields Let_def split: sum.splits)

lemma compare_complete:
  assumes "\<not> incomplete x" and "\<not> incomplete y" and "qty_asset (selected_output x) = qty_asset (selected_output y)"
  shows "qty_value (selected_output x) = qty_value (selected_output y) \<Longrightarrow> map op_SelectedIndex (compare_trips now [x, y]) = [-1, -1]"
    and "qty_value (selected_output x) < qty_value (selected_output y) \<Longrightarrow>
      compare_trips now [x, y] = [unselect now ClassificationNoSpread ''lower_round_trip_output'' x, y]"
    and "qty_value (selected_output y) < qty_value (selected_output x) \<Longrightarrow>
      compare_trips now [x, y] = [x, unselect now ClassificationNoSpread ''lower_round_trip_output'' y]"
  using assms by (simp_all add: compare_trips_def QtyCmp_def unselect_fields Let_def)

lemma trips_comparable:
  assumes "round_trip ctx s evaluation \<lparr>dir_BuyMarket = a, dir_SellMarket = b\<rparr> = Inr x"
    and "round_trip ctx s evaluation \<lparr>dir_BuyMarket = b, dir_SellMarket = a\<rparr> = Inr y"
  shows "qty_asset (cd_Output x) = qty_asset (bb_notional s)"
proof -
  obtain there where there: "trip_tokens s \<lparr>dir_BuyMarket = a, dir_SellMarket = b\<rparr> = Inr there"
    "trip_sound ctx s evaluation \<lparr>dir_BuyMarket = a, dir_SellMarket = b\<rparr> there x" by (rule round_trip_Inr [OF assms(1)])
  obtain ret where ret: "trip_tokens s \<lparr>dir_BuyMarket = b, dir_SellMarket = a\<rparr> = Inr ret"
    "trip_sound ctx s evaluation \<lparr>dir_BuyMarket = b, dir_SellMarket = a\<rparr> ret y" by (rule round_trip_Inr [OF assms(2)])
  from trip_assets [OF there(2)] trip_assets [OF ret(2)] opposite_tokens [OF there(1) ret(1)] show ?thesis by simp
qed

text \<open>What is reported of a direction whose trip was selected.\<close>

definition trip_selected ::
  "'e quote_context \<Rightarrow> ('p, 'e) BestBuyOppositeSell \<Rightarrow> 'p Evaluation \<Rightarrow> Direction \<Rightarrow> Candidate \<Rightarrow> Opportunity \<Rightarrow> bool" where
  "trip_selected ctx s evaluation direction c op \<longleftrightarrow>
     op_SelectedIndex op = 0 \<and> op_Candidates op = [c] \<and> (\<exists>tokens. trip_sound ctx s evaluation direction tokens c) \<and>
     trip_priced s c \<and> cd_Cost c = CostFor evaluation direction \<and>
     (op_Classification op = ClassificationPolicyQualified \<longleftrightarrow>
        0 < qty_value (cd_GrossPnL c) \<and> 0 < qty_value (cd_NetPnL c) \<and> qty_value (bb_threshold s) \<le> qty_value (cd_NetPnL c))"

lemma trip_direction_selected:
  assumes "round_trip ctx s evaluation direction = Inr c" and "qty_asset (cd_Output c) = qty_asset (bb_notional s)"
    and "qty_asset (cs_Amount (CostFor evaluation direction)) = qty_asset (bb_notional s)" and "qty_asset (bb_notional s) \<noteq> []"
    and "qty_asset (bb_threshold s) = qty_asset (bb_notional s)"
  shows "trip_selected ctx s evaluation direction c (trip_direction ctx now s evaluation direction)"
proof -
  obtain tokens where t: "trip_sound ctx s evaluation direction tokens c"
    "c = trip_candidate s (CostFor evaluation direction) (cd_Output c) (cd_BuyQuote c) (cd_SellQuote c)" by (rule round_trip_Inr [OF assms(1)])
  note priced = trip_candidate_priced [OF t(2) assms(2-4)]
  show ?thesis unfolding trip_selected_def using t(1) priced trip_direction_fields(3) [OF assms(1)] classify_trip_qualified [OF priced(1) assms(5)] by auto
qed

lemma NewBestBuyOppositeSell_Inr:
  assumes "NewBestBuyOppositeSell config = Inr s"
  shows "qty_asset (bb_threshold s) = qty_asset (bb_notional s)" and "0 < qty_value (bb_notional s)" and "0 \<le> bb_retries s \<and> bb_retries s \<le> 1"
  using assms by (auto simp: NewBestBuyOppositeSell_def best_buy_assets_invalid_def result_simps QtySign_def sgn_if split: option.splits if_splits)

text \<open>The evaluator runs every strategy on an evaluation of its own and appends the results in order.\<close>

lemma strategies_seen:
  "foldM strategy_seen seen strategies = Inr seen' \<Longrightarrow> None \<notin> set strategies \<and> distinct (map (sg_ID \<circ> the) strategies) \<and>
     set seen \<inter> sg_ID ` the ` set strategies = {} \<and> [] \<notin> sg_ID ` the ` set strategies"
proof (induction strategies arbitrary: seen)
  case (Cons x strategies)
  from Cons.prems obtain seen1 where seen1: "strategy_seen seen x = Inr seen1" and rest1: "foldM strategy_seen seen1 strategies = Inr seen'"
    by (auto split: sum.splits)
  then obtain strategy where x: "x = Some strategy" "sg_ID strategy \<noteq> []" "sg_ID strategy \<notin> set seen" "seen1 = sg_ID strategy # seen"
    by (auto simp: strategy_seen_def split: option.splits if_splits)
  note rest = rest1 [unfolded x(4)]
  show ?case using Cons.IH [OF rest] x by auto
qed simp

lemma NewEvaluator_Inr:
  assumes "NewEvaluator strategies = Inr es"
  shows "strategies = map Some es \<and> es \<noteq> [] \<and> distinct (map sg_ID es) \<and> [] \<notin> set (map sg_ID es)"
proof -
  obtain seen where seen: "foldM strategy_seen [] strategies = Inr seen" "es = map the strategies" "strategies \<noteq> []"
    using assms by (auto simp: NewEvaluator_def rbind_eq_Inr split: if_splits)
  from strategies_seen [OF seen(1)] have ok: "None \<notin> set strategies" "distinct (map (sg_ID \<circ> the) strategies)" "[] \<notin> sg_ID ` the ` set strategies" by auto
  have "map Some (map the strategies) = strategies" using ok(1) by (induction strategies) auto
  then show ?thesis using ok seen(2,3) by (auto simp: comp_def)
qed

lemma EvaluateStrategies_Inr:
  assumes "foldM (evaluate_strategy request) acc es = Inr ops"
  shows "\<exists>results. ops = acc @ concat results \<and> list_all2 (\<lambda>e r. \<exists>evaluation. sg_Evaluate e evaluation = Inr r \<and> ev_strategy evaluation = sg_ID e \<and>
    ev_id evaluation = eq_IDPrefix request @ ''/'' @ sg_ID e \<and> ev_snapshots evaluation = eq_Snapshots request) es results"
  using assms
proof (induction es arbitrary: acc)
  case Nil
  then show ?case by (intro exI [of _ "[]"]) simp
next
  case (Cons e es)
  obtain acc' where acc': "evaluate_strategy request acc e = Inr acc'" and rest': "foldM (evaluate_strategy request) acc' es = Inr ops"
    using Cons.prems by (auto split: sum.splits)
  obtain evaluation r where step: "NewEvaluation (eq_IDPrefix request @ ''/'' @ sg_ID e) (eq_Run request) (sg_ID e) (eq_ConfigHash request)
       (eq_Snapshots request) (eq_Cost request) (eq_TriggeredAt request) (eq_StartedAt request) = Inr evaluation" "sg_Evaluate e evaluation = Inr r"
      and rest: "foldM (evaluate_strategy request) (acc @ r) es = Inr ops"
    using acc' rest' by (auto simp: evaluate_strategy_def map_err_def rbind_eq_Inr split: sum.splits)
  from Cons.IH [OF rest] obtain results where "ops = (acc @ r) @ concat results" and
    all: "list_all2 (\<lambda>e r. \<exists>evaluation. sg_Evaluate e evaluation = Inr r \<and> ev_strategy evaluation = sg_ID e \<and>
      ev_id evaluation = eq_IDPrefix request @ ''/'' @ sg_ID e \<and> ev_snapshots evaluation = eq_Snapshots request) es results" by blast
  moreover have "ev_strategy evaluation = sg_ID e \<and> ev_id evaluation = eq_IDPrefix request @ ''/'' @ sg_ID e \<and> ev_snapshots evaluation = eq_Snapshots request"
    using step(1) by (auto simp: NewEvaluation_def result_simps split: if_splits)
  ultimately show ?case using step(2) by (intro exI [of _ "r # results"]) auto
qed

section \<open>Properties\<close>

text \<open>
  C23: An evaluation of both round trips reports both directions. When a trip could not be
  completed, or both bring the same, none is selected. Otherwise the direction that brings strictly
  more is selected and the other is not: its second leg sold what its first leg bought, in the units
  of the other chain, its net profit is what it brings less the notional and the cost of the
  direction, and it is policy qualified exactly when its gross and net profit are positive and the
  net profit meets the threshold.
\<close>

theorem best_round_trip_selected:
  fixes s :: "('p, 'e) BestBuyOppositeSell"
  assumes "NewBestBuyOppositeSell config = Inr s" and "qty_asset (bb_notional s) \<noteq> []"
    and "set_directions (bb_setup s) = [\<lparr>dir_BuyMarket = a, dir_SellMarket = b\<rparr>, \<lparr>dir_BuyMarket = b, dir_SellMarket = a\<rparr>]"
    and "BestBuyEvaluate ctx ctxErr now s evaluation = Inr ops"
  shows "map op_Direction ops = set_directions (bb_setup s) \<and>
    (case (round_trip ctx s evaluation \<lparr>dir_BuyMarket = a, dir_SellMarket = b\<rparr>, round_trip ctx s evaluation \<lparr>dir_BuyMarket = b, dir_SellMarket = a\<rparr>) of
       (Inr x, Inr y) \<Rightarrow>
         if qty_value (cd_Output x) = qty_value (cd_Output y) then map op_SelectedIndex ops = [-1, -1]
         else if qty_value (cd_Output x) > qty_value (cd_Output y)
         then trip_selected ctx s evaluation \<lparr>dir_BuyMarket = a, dir_SellMarket = b\<rparr> x (ops ! 0) \<and> op_SelectedIndex (ops ! 1) = -1
         else trip_selected ctx s evaluation \<lparr>dir_BuyMarket = b, dir_SellMarket = a\<rparr> y (ops ! 1) \<and> op_SelectedIndex (ops ! 0) = -1
     | _ \<Rightarrow> map op_SelectedIndex ops = [-1, -1])"
proof -
  let ?d = "\<lparr>dir_BuyMarket = a, dir_SellMarket = b\<rparr>" and ?e = "\<lparr>dir_BuyMarket = b, dir_SellMarket = a\<rparr>"
  define p where "p = trip_direction ctx now s evaluation ?d"
  define q where "q = trip_direction ctx now s evaluation ?e"
  note threshold = NewBestBuyOppositeSell_Inr(1) [OF assms(1)]
  have ops: "ops = compare_trips now [p, q]"
    and costs: "qty_asset (cs_Amount (CostFor evaluation ?d)) = qty_asset (bb_notional s)" "qty_asset (cs_Amount (CostFor evaluation ?e)) = qty_asset (bb_notional s)"
    using assms(4) threshold by (auto simp: BestBuyEvaluate_def assms(3) p_def q_def split: if_splits)
  have dirs: "map op_Direction ops = set_directions (bb_setup s)"
    unfolding ops compare_directions assms(3) by (simp add: p_def q_def trip_direction_fields(1))
  show ?thesis
  proof (cases "round_trip ctx s evaluation ?d")
    case (Inl reason)
    have "op_SelectedIndex q = -1 \<or> op_SelectedIndex q = 0"
      using trip_direction_fields(2,3) [of ctx s evaluation ?e] by (cases "round_trip ctx s evaluation ?e") (auto simp: q_def)
    with compare_incomplete trip_direction_fields(2) [OF Inl, of now, folded p_def] dirs show ?thesis by (simp add: ops Inl)
  next
    case (Inr x)
    note px = trip_direction_fields(3) [OF Inr, of now, folded p_def]
    show ?thesis
    proof (cases "round_trip ctx s evaluation ?e")
      case (Inl reason)
      with compare_incomplete trip_direction_fields(2) [OF Inl, of now, folded q_def] px dirs show ?thesis by (simp add: ops Inr)
    next
      case y: (Inr y)
      note qy = trip_direction_fields(3) [OF y, of now, folded q_def]
      note assets = trips_comparable [OF Inr y] trips_comparable [OF y Inr]
      have same: "\<not> incomplete p" "\<not> incomplete q" "qty_asset (selected_output p) = qty_asset (selected_output q)" using px qy assets by simp_all
      have sel: "trip_selected ctx s evaluation ?d x p" "trip_selected ctx s evaluation ?e y q"
        unfolding p_def q_def by (rule trip_direction_selected [OF Inr assets(1) costs(1) assms(2) threshold]
          trip_direction_selected [OF y assets(2) costs(2) assms(2) threshold])+
      consider "qty_value (cd_Output x) = qty_value (cd_Output y)" | "qty_value (cd_Output x) > qty_value (cd_Output y)"
        | "qty_value (cd_Output x) < qty_value (cd_Output y)" by linarith
      then show ?thesis using dirs sel px qy compare_complete [OF same, of now]
        by cases (simp_all add: ops Inr y unselect_fields)
    qed
  qed
qed

section \<open>Witnesses\<close>

definition best_buy_config :: "(unit, unit) BestBuyOppositeSellConfig" where
  "best_buy_config = \<lparr>bc_ID = ''t'',
     bc_Setup = \<lparr>set_id = ''s'', set_pair = ''p'', set_markets = [''m'', ''n''], set_directions = all_directions [''m'', ''n'']\<rparr>,
     bc_Registry = Some sample_registry,
     bc_Sources = [''m'' \<mapsto> (\<lambda>attempt. if attempt = 0 then (\<lambda>_. Inl ()) else plain_source 1 1), ''n'' \<mapsto> (\<lambda>_. plain_source 2 3)],
     bc_Notional = y_qty 100, bc_Threshold = y_qty 50, bc_Clock = True, bc_Retries = 1, bc_RetryDelay = 0\<rparr>"

definition best_buy_strategy :: "(unit, unit) BestBuyOppositeSell" where
  "best_buy_strategy = projr (NewBestBuyOppositeSell best_buy_config)"

definition calm_context :: "unit quote_context" where
  "calm_context = \<lparr>qx_done = (\<lambda>_. False), qx_interrupted = (\<lambda>_. False), qx_canceled = (\<lambda>_. False), qx_status = (\<lambda>_. None)\<rparr>"

definition best_buy_run :: "(best_buy_error, Opportunity list) result" where
  "best_buy_run = BestBuyEvaluate calm_context False 6 best_buy_strategy sample_evaluation"

lemma best_buy_new: "is_ok (NewBestBuyOppositeSell best_buy_config)"
  by code_simp

lemma best_buy_strategy_fields:
  "qty_asset (bb_notional best_buy_strategy) = ''Y''"
  "set_directions (bb_setup best_buy_strategy) = [\<lparr>dir_BuyMarket = ''m'', dir_SellMarket = ''n''\<rparr>, \<lparr>dir_BuyMarket = ''n'', dir_SellMarket = ''m''\<rparr>]"
  by code_simp+

lemma best_buy_outputs:
  "rbind (round_trip calm_context best_buy_strategy sample_evaluation \<lparr>dir_BuyMarket = ''m'', dir_SellMarket = ''n''\<rparr>) (\<lambda>c. Inr (qty_value (cd_Output c))) = Inr 300"
  "rbind (round_trip calm_context best_buy_strategy sample_evaluation \<lparr>dir_BuyMarket = ''n'', dir_SellMarket = ''m''\<rparr>) (\<lambda>c. Inr (qty_value (cd_Output c))) = Inr 200"
  "is_ok best_buy_run"
  by code_simp+

text \<open>Both trips complete, the quotes of one market only at the second attempt; the first direction brings 300, the other 200.\<close>

theorem best_round_trip_selected_witness:
  "\<exists>ops. best_buy_run = Inr ops \<and> map op_SelectedIndex ops = [0, -1]"
proof -
  obtain x y where x: "round_trip calm_context best_buy_strategy sample_evaluation \<lparr>dir_BuyMarket = ''m'', dir_SellMarket = ''n''\<rparr> = Inr x" "qty_value (cd_Output x) = 300"
    and y: "round_trip calm_context best_buy_strategy sample_evaluation \<lparr>dir_BuyMarket = ''n'', dir_SellMarket = ''m''\<rparr> = Inr y" "qty_value (cd_Output y) = 200"
    using best_buy_outputs(1,2) unfolding rbind_eq_Inr sum.inject by blast
  obtain ops where run: "best_buy_run = Inr ops" using best_buy_outputs(3) by (auto simp: is_ok_def split: sum.splits)
  have new: "NewBestBuyOppositeSell best_buy_config = Inr best_buy_strategy"
    using best_buy_new by (auto simp: is_ok_def best_buy_strategy_def split: sum.splits)
  have asset: "qty_asset (bb_notional best_buy_strategy) \<noteq> []" by (simp add: best_buy_strategy_fields)
  note decided = best_round_trip_selected [OF new asset best_buy_strategy_fields(2) run [unfolded best_buy_run_def], unfolded x(1) y(1) prod.case sum.case x(2) y(2)]
  then have "length (map op_Direction ops) = 2" by (simp only: best_buy_strategy_fields(2)) simp
  then obtain p q where ops: "ops = [p, q]" by (auto simp: length_Suc_conv numeral_2_eq_2)
  from decided have "op_SelectedIndex (ops ! 0) = 0 \<and> op_SelectedIndex (ops ! 1) = -1" unfolding trip_selected_def by simp
  then have "map op_SelectedIndex ops = [0, -1]" by (simp add: ops)
  with run show ?thesis by (intro exI [of _ ops] conjI)
qed

end
