(* ===== verification/Spec2Isabelle.thy ===== *)
theory Spec2Isabelle
  imports Inventory_Ledger Market_Registry Market_Mirror Exact_Output Sizing_Grid Sizing_Grid_Split Window_Tracker Saga_Sequential Saga_Amounts
    Saga_Settlement Live_Engine Restoration_Gate Costing Strategy_Best_Buy
begin

text \<open>
  Verification of Vernier, a Go framework for cross-chain arbitrage research and execution
  (sources under \<open>src/\<close>).

  \<^bold>\<open>The program.\<close> Feeds deliver market events to mirrors; a mirror reduces them to versioned
  snapshots; quoters price exact inputs on a snapshot; sizing chooses amounts; the research
  evaluator groups profitable evaluations into opportunity windows and stores them. The live
  part turns an opportunity into an operation: it reserves inventory, prepares transactions,
  makes the operation durable, broadcasts it, and settles or recovers it from evidence. Two
  kinds of operation exist, the two-leg saga and the dependent sequence of swaps and bridges.

  \<^bold>\<open>Theories and sources.\<close> Each theory models the named files, one definition per function or
  method, with the fields of each struct as a record.

  \<^item> \<open>Vernier_Prelude\<close>: identifiers, time, results as sums, Go's truncating division, decimal
    text, the validation loops \<open>first_error\<close> and \<open>foldM\<close> and their lemmas.
  \<^item> \<open>Market_Amount\<close>: \<open>domain/market/amount.go\<close>. Conversions lose less than one unit and
    invert each other.
  \<^item> \<open>Inventory_Ledger\<close>: \<open>domain/inventory/inventory.go\<close>. The methods are the steps of a
    transition relation; reachable ledgers keep reserved counters equal to the open
    reservations, reservations are covered, settlements are exact and idempotent.
  \<^item> \<open>Ledger_Contract\<close>: the locale \<open>reservation_ledger\<close> states what the live components rely
    on, and is interpreted on the inventory.
  \<^item> \<open>Market_Registry\<close>: \<open>registry.go\<close>, \<open>entities.go\<close>, \<open>ids.go\<close> of \<open>domain/market\<close>. The locale
    \<open>registry_loader\<close> is interpreted on its eight loaders; an accepted catalogue is consistent
    and complete.
  \<^item> \<open>Market_State\<close>: \<open>state.go\<close>, \<open>quote.go\<close>, \<open>conversion.go\<close>, \<open>price.go\<close> of \<open>domain/market\<close>.
  \<^item> \<open>Market_Mirror\<close>: \<open>core/marketstate\<close>, \<open>ports/feed\<close>, \<open>adapters/feed/sourceorder\<close>. Mirrors
    and routes under any sequence of deliveries; the locales \<open>event_reducer\<close> and
    \<open>ordering_policy\<close> are the ports they call.
  \<^item> \<open>Constant_Product\<close>: \<open>adapters/market/constantproduct\<close>, an event reducer and a quoter that
    never lets the product of the reserves fall.
  \<^item> \<open>Exact_Output\<close>, \<open>Sizing_Grid\<close>: \<open>exact_output.go\<close>, \<open>grid.go\<close>, \<open>range.go\<close> of
    \<open>core/sizing\<close>. The search over the locale \<open>monotone_source\<close> finds the least input.
  \<^item> \<open>Sizing_Split\<close>: \<open>split.go\<close>, \<open>execution_allocation.go\<close> of \<open>core/sizing\<close>. Splits over
    several pools conserve their input, a verified one is a maximum, and its route is accepted.
  \<^item> \<open>Sizing_Grid_Split\<close>: \<open>grid_split.go\<close> of \<open>core/sizing\<close>. The locale \<open>better_order\<close> carries
    the folds over candidates; the dynamic programme is exhaustive on its declared grid.
  \<^item> \<open>Strategy_Cache\<close>: \<open>quote_cache.go\<close>, \<open>valuation_cache.go\<close> of \<open>core/strategy\<close>. The locale
    \<open>cached_sources\<close> states when a cache is transparent, and is interpreted on the
    constant-product quoter.
  \<^item> \<open>Strategy_Two_Market\<close>: \<open>two_market.go\<close> of \<open>core/strategy\<close>. What an opportunity reports is
    what its candidates earn; a pinned trade is a grid of one size; directions are chosen by
    majority.
  \<^item> \<open>Strategy_Prefunded\<close>: \<open>live.go\<close>, \<open>prefunded_parallel.go\<close> of \<open>core/strategy\<close>. Both legs have
    fixed inputs, their profit is exact, and the direction that earns most is kept.
  \<^item> \<open>Strategy_Best_Buy\<close>: \<open>core/strategy/best_buy_opposite_sell.go\<close>,
    \<open>core/research/evaluator.go\<close>. Of two round trips the one that brings more is selected.
  \<^item> \<open>Costing\<close>: \<open>conversion_cache.go\<close>, \<open>fixed.go\<close>, \<open>price.go\<close> of \<open>core/costing\<close>. What the
    conversion book serves is fresh under any sequence of refreshes.
  \<^item> \<open>Arbitrage_Types\<close>, \<open>Window_Store\<close>, \<open>Window_Tracker\<close>: \<open>domain/arbitrage\<close>,
    \<open>core/research/window_tracker.go\<close> and the window tables of the SQLite store. The tracker is
    a client of the locale \<open>window_store\<close>; memory and rows agree after any history.
  \<^item> \<open>Exec_Types\<close>, \<open>Exec_Sequential\<close>: \<open>domain/execution\<close>. Legs, plans, durable states, route
    allocations, operations, dependent plans with their inputs and exits.
  \<^item> \<open>Saga_Ports\<close>, \<open>Saga_Parallel\<close>, \<open>Saga_Sequential\<close>: \<open>ports/execution/sequential.go\<close> and
    the dependent executor \<open>sequential_executor.go\<close>, \<open>sequential_parallel.go\<close> of \<open>core/saga\<close>.
  \<^item> \<open>Saga_Amounts\<close>: \<open>core/saga/amounts.go\<close>, splits that conserve their input.
  \<^item> \<open>Saga_Live\<close>: \<open>gate.go\<close>, \<open>planner.go\<close>, \<open>executor.go\<close> of \<open>core/saga\<close>: a two-leg operation
    leaves no trace or is durable before its first broadcast.
  \<^item> \<open>Saga_Settlement\<close>: \<open>settlement.go\<close>, \<open>confirmer.go\<close>, \<open>recovery.go\<close> of \<open>core/saga\<close>: the
    evidence that moves the inventory, joined under every schedule.
  \<^item> \<open>Live_Engine\<close>: \<open>core/live/engine.go\<close>. The composition of evaluator, planner, validators,
    costs and executor: only the best opportunity of a batch is executed, and only as validated.
  \<^item> \<open>Restoration_Gate\<close>: \<open>core/live/restoration_gate.go\<close>. One base restoration in flight, at
    most two quote restorations, under any sequence of calls.

  \<^bold>\<open>Conventions.\<close> A Go error result is \<open>Inl\<close> or \<open>Some\<close> of an error value, a nil pointer is
  \<open>None\<close>, and a nil dereference is an error value or the missing result of a crash.
  Interfaces implemented outside the modelled files (transaction managers, stores, drivers,
  clocks, hash functions, quote sources) are arguments: functions on an abstract world, with
  every outcome allowed, so that the theorems hold whatever they answer. Where a component hands
  something to the outside, a trace records the order. Methods under a mutex are atomic;
  goroutines are interleaved by an explicit schedule. \<open>big.Int\<close> is \<open>int\<close>, \<open>big.Rat\<close> is
  \<open>rat\<close>, fixed-width integers are words, instants are nanoseconds as \<open>int\<close>.

  \<^bold>\<open>Bounds and fuel.\<close> The stage loop of the dependent executor runs with fuel 7, one more than
  the six stages a plan can execute, and \<open>sequential_execution_returns\<close> shows that it never runs
  out. The engine repeats an attempt for as long as its artifacts expire: that loop is a partial
  function, and \<open>executeDiscovered_returns\<close> shows that it returns once the context is done.
  The doubling phase of the exact-output search is bounded by the 256 bits of the source, and \<open>minimum_input_returns\<close> shows that the search returns. Bisections carry a measure; all other
  loops are structural.

  \<^bold>\<open>Not modelled.\<close> Pure input and output: the adapters of chains, bridges, aggregators, feeds,
  notification and prices, the SQL of the operational stores, \<open>runtime\<close>, \<open>cmd\<close> and
  \<open>internal\<close>, which wire these adapters together and whose behaviour is that of remote
  services. Of the core, \<open>sequential_recovery.go\<close>, \<open>allowance_bootstrap.go\<close> and the
  concentrated-liquidity market adapters are not modelled. Durations that the engine measures are left out.
  \<open>SequentialResult.TerminalState\<close> and \<open>TerminalError\<close> are left out: only the recovery of the
  dependent executor writes them.
\<close>

end
